(* ===== verification/Prelude.thy ===== *)
theory Prelude
  imports Complex_Main "HOL-Library.Word" "HOL-Library.Monad_Syntax" "HOL-Library.Multiset"
begin

text \<open>
  Shared vocabulary of the development: the names of the Go types, the two ways a Go
  function can fail, byte strings, and the generic lemmas on lists, maps and sums that the
  component theories use.

  A Go panic (an explicit \<open>panic\<close>, \<open>log.Panic\<close>, an index out of range, a write to a nil
  map, a division by zero) is the value \<open>None\<close> of an option type. A Go \<open>error\<close> that is
  returned to the caller is the left summand of a sum type.
\<close>

named_theorems go_defs "unfolding of small source functions"
named_theorems conserve_simps "value conservation facts"

section \<open>Types\<close>

type_synonym byte = "8 word"
type_synonym bytes = "byte list"
type_synonym uint64 = "64 word"
type_synonym uint256 = "256 word"
type_synonym common_Address = "160 word"
type_synonym common_Hash = "256 word"
type_synonym go_time = int
type_synonym 'a panics = "'a option"

abbreviation panic :: "'a panics" where
  "panic \<equiv> None"

abbreviation guard_panic :: "bool \<Rightarrow> unit panics" where
  "guard_panic c \<equiv> (if c then Some () else None)"

lemma guard_panic_bind [simp]:
  "(Option.bind (guard_panic c) f = Some y) \<longleftrightarrow> (c \<and> f () = Some y)"
  by (cases c) auto

lemma bind_eq_Some_iff:
  "(Option.bind x f = Some y) \<longleftrightarrow> (\<exists>z. x = Some z \<and> f z = Some y)"
  by (cases x) auto

section \<open>Integers\<close>

text \<open>\<open>big.Int.Quo\<close> truncates towards zero; a zero divisor panics.\<close>

definition Quo :: "int \<Rightarrow> int \<Rightarrow> int panics" where
  "Quo a b = (if b = 0 then panic else Some (sgn a * sgn b * (\<bar>a\<bar> div \<bar>b\<bar>)))"

lemma Quo_nonneg [simp]: "0 \<le> a \<Longrightarrow> 0 < b \<Longrightarrow> Quo a b = Some (a div b)"
  by (cases "a = 0") (simp_all add: Quo_def)

text \<open>\<open>big.Int.SetString\<close> at base 10: an optional sign and at least one decimal digit.\<close>

fun dec_digits :: "int \<Rightarrow> string \<Rightarrow> int option" where
  "dec_digits acc [] = Some acc"
| "dec_digits acc (c # cs) =
     (let n = (of_char c :: int) in
      if 48 \<le> n \<and> n \<le> 57 then dec_digits (10 * acc + (n - 48)) cs else None)"

definition SetString10 :: "string \<Rightarrow> int option" where
  "SetString10 s =
     (case s of
        [] \<Rightarrow> None
      | c # cs \<Rightarrow>
          if c = CHR ''-'' then (if cs = [] then None else map_option uminus (dec_digits 0 cs))
          else if c = CHR ''+'' then (if cs = [] then None else dec_digits 0 cs)
          else dec_digits 0 s)"

section \<open>Go strings and byte slices\<close>

text \<open>A Go string is a sequence of bytes; Isabelle's \<open>char\<close> is an 8-bit byte.\<close>

definition byte_of_char :: "char \<Rightarrow> byte" where
  "byte_of_char c = word_of_nat (of_char c)"

definition char_of_byte :: "byte \<Rightarrow> char" where
  "char_of_byte b = char_of (unat b)"

definition bytes_of_string :: "string \<Rightarrow> bytes" where
  "bytes_of_string s = map byte_of_char s"

definition string_of_bytes :: "bytes \<Rightarrow> string" where
  "string_of_bytes bs = map char_of_byte bs"

lemma of_char_less_256 [simp]: "(of_char c :: nat) < 256"
  by (cases c) (simp add: of_char_def horner_sum_simps of_bool_def)

lemma char_of_byte_of_char [simp]: "char_of_byte (byte_of_char c) = c"
proof -
  have "unat (word_of_nat (of_char c) :: byte) = (of_char c :: nat)"
    by (simp add: unat_of_nat)
  then show ?thesis
    by (simp add: char_of_byte_def byte_of_char_def)
qed

lemma byte_of_char_of_byte [simp]: "byte_of_char (char_of_byte b) = b"
proof -
  have "unat b < 256"
    using unsigned_less [of b, where 'a = nat] by simp
  then show ?thesis
    by (simp add: char_of_byte_def byte_of_char_def of_char_of)
qed

lemma string_of_bytes_of_string [simp]: "string_of_bytes (bytes_of_string s) = s"
  by (induction s) (simp_all add: string_of_bytes_def bytes_of_string_def)

lemma bytes_of_string_of_bytes [simp]: "bytes_of_string (string_of_bytes b) = b"
  by (induction b) (simp_all add: string_of_bytes_def bytes_of_string_def)

lemma length_bytes_of_string [simp]: "length (bytes_of_string s) = length s"
  by (simp add: bytes_of_string_def)

lemma byte_of_char_eq_0_iff: "byte_of_char c = 0 \<longleftrightarrow> c = CHR 0x00"
proof
  assume "byte_of_char c = 0"
  then have "c = char_of_byte 0"
    by (metis char_of_byte_of_char)
  then show "c = CHR 0x00"
    by (simp add: char_of_byte_def char_of_def)
qed (simp add: byte_of_char_def)

text \<open>Big-endian numbers; \<open>common.BytesToHash\<close> keeps the last 32 bytes.\<close>

definition be_nat :: "bytes \<Rightarrow> nat" where
  "be_nat bs = foldl (\<lambda>a b. a * 256 + unat b) 0 bs"

definition BytesToHash :: "bytes \<Rightarrow> common_Hash" where
  "BytesToHash bs = word_of_nat (be_nat (drop (length bs - 32) bs))"

text \<open>The bytes of an array, big end first.\<close>

definition address_bytes :: "common_Address \<Rightarrow> bytes" where
  "address_bytes a = map (\<lambda>i. ucast (drop_bit (8 * (19 - i)) a)) [0..<20]"

definition hash_bytes :: "common_Hash \<Rightarrow> bytes" where
  "hash_bytes h = map (\<lambda>i. ucast (drop_bit (8 * (31 - i)) h)) [0..<32]"

lemma address_bytes_inj: "inj address_bytes"
proof (rule injI)
  fix a b :: common_Address
  assume eq: "address_bytes a = address_bytes b"
  show "a = b"
  proof (rule bit_word_eqI)
    fix n assume "n < LENGTH(160)"
    then have i: "19 - n div 8 < 20" "19 - (19 - n div 8) = n div 8"
      by auto
    have "(ucast (drop_bit (8 * (n div 8)) a) :: byte) = ucast (drop_bit (8 * (n div 8)) b)"
      using arg_cong [OF eq, of "\<lambda>bs. bs ! (19 - n div 8)"] i by (simp add: address_bytes_def)
    then have "bit (ucast (drop_bit (8 * (n div 8)) a) :: byte) (n mod 8) = bit (ucast (drop_bit (8 * (n div 8)) b) :: byte) (n mod 8)"
      by simp
    then show "bit a n = bit b n"
      by (simp add: bit_ucast_iff bit_drop_bit_eq)
  qed
qed

lemma be_nat_snoc: "be_nat (bs @ [b]) = be_nat bs * 256 + unat b"
  by (simp add: be_nat_def)

lemma be_nat_bytes:
  "be_nat (map (\<lambda>i. ucast (drop_bit (8 * (n - 1 - i)) w)) [0..<n]) = unat (take_bit (8 * n) w)" for w :: "'a::len word"
proof (induction n arbitrary: w)
  case 0
  then show ?case
    by (simp add: be_nat_def)
next
  case (Suc n)
  have "map (\<lambda>i. ucast (drop_bit (8 * (Suc n - 1 - i)) w) :: byte) [0..<n] = map (\<lambda>i. ucast (drop_bit (8 * (n - 1 - i)) (drop_bit 8 w))) [0..<n]"
    by (auto simp: drop_bit_drop_bit intro!: arg_cong [where f = "\<lambda>k. ucast (drop_bit k w)"])
  then have "be_nat (map (\<lambda>i. ucast (drop_bit (8 * (Suc n - 1 - i)) w)) [0..<n]) = unat (take_bit (8 * n) (drop_bit 8 w))"
    by (simp only: Suc.IH)
  then have "be_nat (map (\<lambda>i. ucast (drop_bit (8 * (Suc n - 1 - i)) w)) [0..<Suc n]) = unat (take_bit (8 * n) (drop_bit 8 w)) * 256 + unat (ucast w :: byte)"
    by (simp add: be_nat_snoc)
  also have "\<dots> = unat (take_bit (8 * Suc n) w)"
  proof -
    have "take_bit (8 * Suc n) (unat w) = take_bit (8 * n) (drop_bit 8 (unat w)) * 256 + take_bit 8 (unat w)"
      by (simp add: take_bit_eq_mod drop_bit_eq_div power_add mod_mult2_eq)
    moreover have "take_bit (min LENGTH('a) k) (unat w) = take_bit k (unat w)" for k
    proof -
      have "take_bit LENGTH('a) (unat w) = unat w"
        by (simp add: take_bit_nat_eq_self_iff unsigned_less)
      then show ?thesis
        by (metis min.commute take_bit_take_bit)
    qed
    ultimately show ?thesis
      by (simp add: unsigned_take_bit_eq unsigned_drop_bit_eq unsigned_ucast_eq take_bit_drop_bit)
  qed
  finally show ?case .
qed

lemma BytesToHash_hash_bytes [simp]: "BytesToHash (hash_bytes h) = h"
  using be_nat_bytes [of 32 h] by (simp add: BytesToHash_def hash_bytes_def take_bit_word_eq_self)

lemma length_hash_bytes [simp]: "length (hash_bytes h) = 32"
  by (simp add: hash_bytes_def)

lemma hash_bytes_not_Nil [simp]: "hash_bytes h \<noteq> []"
  using length_hash_bytes [of h] by force

section \<open>Lists\<close>

lemma foldl_snoc_acc: "foldl (\<lambda>a x. a @ [f x]) acc xs = acc @ map f xs"
  by (induction xs arbitrary: acc) simp_all

lemma mset_filter_split: "mset (filter P xs) + mset (filter (\<lambda>x. \<not> P x) xs) = mset xs"
  by (induction xs) simp_all

section \<open>Sums over finite maps\<close>

lemma sum_list_update_distinct:
  fixes f :: "'a \<Rightarrow> int"
  assumes "distinct ks" "k \<in> set ks"
  shows "(\<Sum>x\<leftarrow>ks. (f(k := v)) x) = (\<Sum>x\<leftarrow>ks. f x) - f k + v"
  using assms
proof (induction ks)
  case (Cons a ks)
  then show ?case
    by (cases "a = k") (auto simp del: fun_upd_apply simp: fun_upd_same fun_upd_other)
qed simp

lemma sum_list_update_notin:
  fixes f :: "'a \<Rightarrow> int"
  assumes "k \<notin> set ks"
  shows "(\<Sum>x\<leftarrow>ks. (f(k := v)) x) = (\<Sum>x\<leftarrow>ks. f x)"
  using assms by (induction ks) auto

lemma sum_bump:
  fixes f :: "nat \<Rightarrow> int"
  assumes "i < n"
  shows "(\<Sum>s<n. (f(i := f i + v)) s) = (\<Sum>s<n. f s) + v"
  using assms by (simp add: sum.remove [of "{..<n}" i])

section \<open>Runs of operations\<close>

text \<open>A run of a component: its operations applied one after the other, with what each returned.\<close>

fun run_ops :: "('op \<Rightarrow> 's \<Rightarrow> 'r \<times> 's) \<Rightarrow> 'op list \<Rightarrow> 's \<Rightarrow> 'r list \<times> 's" where
  "run_ops step [] s = ([], s)"
| "run_ops step (x # xs) s =
     (let (r, s1) = step x s; (rs, s2) = run_ops step xs s1 in (r # rs, s2))"

text \<open>The contract of a component that neither creates nor destroys what it is given: what an
  operation returns, plus what the state holds afterwards, is what the state held and what the
  operation brought in. A run keeps the same balance.\<close>

locale conserving_step =
  fixes step :: "'op \<Rightarrow> 's \<Rightarrow> 'r \<times> 's"
    and held :: "'s \<Rightarrow> 'm::comm_monoid_add"
    and given :: "'op \<Rightarrow> 'm"
    and taken :: "'r \<Rightarrow> 'm"
  assumes step_conserves: "step x s = (r, s') \<Longrightarrow> taken r + held s' = held s + given x"
begin

lemma run_conserves:
  "run_ops step xs s = (rs, s') \<Longrightarrow>
     sum_list (map taken rs) + held s' = held s + sum_list (map given xs)"
proof (induction xs arbitrary: s rs)
  case (Cons x xs)
  obtain r s1 where one: "step x s = (r, s1)"
    by (cases "step x s")
  obtain rs1 where rest: "run_ops step xs s1 = (rs1, s')" "rs = r # rs1"
    using Cons.prems by (auto simp: one split: prod.splits)
  have "sum_list (map taken rs1) + held s' = held s1 + sum_list (map given xs)"
    using Cons.IH rest(1) by blast
  with step_conserves [OF one] show ?case
    by (simp add: rest(2) add_ac) (metis add.assoc add.commute)
qed simp

end

text \<open>The contract of an invariant: every operation keeps it, hence so does every run.\<close>

locale invariant_step =
  fixes step :: "'op \<Rightarrow> 's \<Rightarrow> 'r \<times> 's"
    and inv :: "'s \<Rightarrow> bool"
    and ok :: "'op \<Rightarrow> bool"
  assumes step_keeps: "inv s \<Longrightarrow> ok x \<Longrightarrow> step x s = (r, s') \<Longrightarrow> inv s'"
begin

lemma run_keeps:
  "inv s \<Longrightarrow> list_all ok xs \<Longrightarrow> run_ops step xs s = (rs, s') \<Longrightarrow> inv s'"
proof (induction xs arbitrary: s rs)
  case (Cons x xs)
  obtain r s1 where one: "step x s = (r, s1)"
    by (cases "step x s")
  obtain rs1 where "run_ops step xs s1 = (rs1, s')"
    using Cons.prems by (auto simp: one split: prod.splits)
  then show ?case
    using Cons.IH Cons.prems step_keeps [OF _ _ one] by auto
qed simp

end

end
