(* ===== verification/Message.thy ===== *)
theory Message
  imports Prelude
begin

text \<open>
  The wire format of \<open>message/message.go\<close>: every message of the system is a 30-byte header
  holding the zero-padded message type, followed by the JSON content. \<open>MergeMessage\<close> writes
  it, \<open>SplitMessage\<close> reads it back; the type constants of \<open>message.go\<close>, \<open>message_broker.go\<close>
  and \<open>message_client.go\<close> are listed so that the round trip is proved for each of them.
  \<open>vm/state/journal.go\<close> holds a second copy of \<open>MergeMessage\<close>.
\<close>

definition prefixMSGtypeLen :: nat where
  "prefixMSGtypeLen = 30"

definition message_types :: "string list" where
  "message_types =
    [''preprepare'', ''prepare'', ''commit'', ''requestOldrequest'', ''sendOldrequest'', ''stop'',
     ''relay'', ''inject'', ''injectHead'',
     ''BlockInfo'', ''SequenceID'', ''ContractCreate'', ''ContractExecute'',
     ''QueryNodeAcc'', ''ResNodeAcc'', ''QueryAccount'', ''ResAccount'', ''NodeInfo'', ''TxInfo'',
     ''OpBalanceReq'', ''OpBalanceRes'', ''OpDelCallReq'', ''OpDelCallRes'',
     ''OpCallcodeReq'', ''OpCallcodeRes'', ''OpCallReq'', ''OpCallRes'',
     ''OpStaticCallReq'', ''OpStaticCallRes'', ''OpExeLogOrRollback'',
     ''OpCreateReq'', ''OpCreateRes'', ''QueryConResReq'', ''QueryConResRes'']"

definition message_broker_types :: "string list" where
  "message_broker_types =
    [''brokerRawTx'', ''brokerConfirm1'', ''brokerConfirm2'', ''brokerType1'', ''brokerType2'',
     ''InjectTx_Broker'', ''BrokerTxMap'', ''BrokerAS_transfer'', ''innerShardTx_be_crossShard'']"

definition message_client_types :: "string list" where
  "message_client_types =
    [''RequestAccountState'', ''RequestAccountTransactions'', ''AccountStateForClient'',
     ''AccountTransactionsForClient'', ''DAccBalQ'', ''DAccBalR'']"

text \<open>\<open>b[i] = v\<close> panics when the type is longer than the header.\<close>

fun write_prefix :: "nat \<Rightarrow> bytes \<Rightarrow> bytes \<Rightarrow> bytes panics" where
  "write_prefix i [] b = Some b"
| "write_prefix i (v # vs) b = (if i < length b then write_prefix (Suc i) vs (b[i := v]) else panic)"

definition MergeMessage :: "string \<Rightarrow> bytes \<Rightarrow> bytes panics" where
  "MergeMessage msgType content =
     do { b \<leftarrow> write_prefix 0 (bytes_of_string msgType) (replicate prefixMSGtypeLen 0);
          Some (b @ content) }"

fun prune :: "bytes \<Rightarrow> bytes \<Rightarrow> bytes" where
  "prune acc [] = acc"
| "prune acc (v # vs) = prune (if v \<noteq> 0 then acc @ [v] else acc) vs"

definition SplitMessage :: "bytes \<Rightarrow> (string \<times> bytes) panics" where
  "SplitMessage message =
     (if length message < prefixMSGtypeLen then panic
      else Some (string_of_bytes (prune [] (take prefixMSGtypeLen message)),
                 drop prefixMSGtypeLen message))"

section \<open>Lemmas\<close>

lemma prune_conv_filter: "prune acc vs = acc @ filter (\<lambda>v. v \<noteq> 0) vs"
  by (induction vs arbitrary: acc) auto

lemma write_prefix_conv:
  assumes "i + length vs \<le> length b"
  shows "write_prefix i vs b = Some (take i b @ vs @ drop (i + length vs) b)"
  using assms
proof (induction vs arbitrary: i b)
  case (Cons v vs)
  then have i: "i < length b"
    by simp
  with Cons have "write_prefix (Suc i) vs (b[i := v]) =
      Some (take (Suc i) (b[i := v]) @ vs @ drop (Suc i + length vs) (b[i := v]))"
    by simp
  moreover have "take (Suc i) (b[i := v]) = take i b @ [v]"
    using i by (simp add: take_Suc_conv_app_nth)
  moreover have "drop (Suc i + length vs) (b[i := v]) = drop (Suc i + length vs) b"
    by simp
  ultimately show ?case
    using i by simp
qed simp

lemma write_prefix_too_long:
  assumes "length b < i + length vs"
  shows "vs \<noteq> [] \<Longrightarrow> write_prefix i vs b = None"
  using assms
proof (induction vs arbitrary: i b)
  case (Cons v vs)
  then show ?case
    by (cases "vs = []") auto
qed simp

lemma MergeMessage_conv:
  assumes "length msgType \<le> prefixMSGtypeLen"
  shows "MergeMessage msgType content =
    Some (bytes_of_string msgType @ replicate (prefixMSGtypeLen - length msgType) 0 @ content)"
  using assms by (simp add: MergeMessage_def write_prefix_conv)

lemma MergeMessage_panics_iff:
  "MergeMessage msgType content = None \<longleftrightarrow> prefixMSGtypeLen < length msgType"
proof (cases "prefixMSGtypeLen < length msgType")
  case True
  then have "bytes_of_string msgType \<noteq> []"
    by (auto simp: prefixMSGtypeLen_def bytes_of_string_def)
  with True show ?thesis
    by (simp add: MergeMessage_def write_prefix_too_long)
qed (simp add: MergeMessage_conv)

definition wire_type :: "string \<Rightarrow> bool" where
  "wire_type t \<longleftrightarrow> length t \<le> prefixMSGtypeLen \<and> list_all (\<lambda>c. c \<noteq> CHR 0x00) t"

lemma filter_bytes_of_wire_type:
  "wire_type t \<Longrightarrow> filter (\<lambda>v. v \<noteq> 0) (bytes_of_string t) = bytes_of_string t"
  by (auto simp: wire_type_def bytes_of_string_def filter_map o_def byte_of_char_eq_0_iff
      list_all_iff intro!: filter_True)

lemma Split_Merge:
  assumes "wire_type t"
  shows "MergeMessage t content \<bind> SplitMessage = Some (t, content)"
proof -
  have "length t \<le> prefixMSGtypeLen"
    using assms by (simp add: wire_type_def)
  then show ?thesis
    using assms
    by (simp add: MergeMessage_conv SplitMessage_def prune_conv_filter filter_bytes_of_wire_type)
qed

lemma declared_types_are_wire_types:
  "list_all wire_type (message_types @ message_broker_types @ message_client_types)"
  by (simp add: message_types_def message_broker_types_def message_client_types_def wire_type_def
      prefixMSGtypeLen_def)

lemma declared_types_distinct:
  "distinct (message_types @ message_broker_types @ message_client_types)"
  by (simp add: message_types_def message_broker_types_def message_client_types_def)

lemma MergeMessage_inj:
  assumes "wire_type t" "wire_type t'" "MergeMessage t' c' = MergeMessage t c"
  shows "t' = t \<and> c' = c"
  using assms Split_Merge [of t c] Split_Merge [of t' c'] by simp

text \<open>C28: for every message type the program declares, \<open>MergeMessage\<close> does not panic, reading the
  merged message gives back that type and the content unchanged, and messages of two declared
  types, or of the same type with different contents, are never the same bytes on the wire.\<close>
theorem split_merge_declared:
  "\<forall>t \<in> set (message_types @ message_broker_types @ message_client_types).
     (\<exists>m. MergeMessage t content = Some m \<and> SplitMessage m = Some (t, content)) \<and>
     (\<forall>t' \<in> set (message_types @ message_broker_types @ message_client_types). \<forall>c'.
        MergeMessage t' c' = MergeMessage t content \<longrightarrow> t' = t \<and> c' = content)"
proof -
  have wt: "wire_type t" if "t \<in> set (message_types @ message_broker_types @ message_client_types)" for t
    using declared_types_are_wire_types that by (simp only: list_all_iff)
  have "\<exists>m. MergeMessage t content = Some m \<and> SplitMessage m = Some (t, content)" if "wire_type t" for t
    using Split_Merge [OF that, of content] by (auto simp: bind_eq_Some_iff)
  then show ?thesis
    using wt MergeMessage_inj by blast
qed

theorem split_merge_declared_witness:
  "''prepare'' \<in> set (message_types @ message_broker_types @ message_client_types) \<and>
   (\<exists>m. MergeMessage ''prepare'' [1, 0, 2] = Some m \<and> SplitMessage m = Some (''prepare'', [1, 0, 2]))"
proof -
  have "''prepare'' \<in> set (message_types @ message_broker_types @ message_client_types)"
    by (simp add: message_types_def)
  then show ?thesis
    using split_merge_declared [of "[1, 0, 2]"] by blast
qed

end
