(* ===== verification/Utils.thy ===== *)
theory Utils
  imports Prelude
begin

text \<open>
  Addresses and their shards: \<open>utils/utils_partition.go\<close> (the default placement of an
  account) and the address helpers of \<open>supervisor/committee/committee_broker_b2e.go\<close>
  (\<open>isValidHexChar\<close>, \<open>FormatStringToLength\<close>, \<open>fetchModifiedMap\<close>). An address is a Go string;
  the number of shards, a global variable of the program, is an argument.
\<close>

type_synonym Address = string

section \<open>strconv.ParseUint at base 16\<close>

definition hex_digit :: "char \<Rightarrow> nat option" where
  "hex_digit c =
     (let n = (of_char c :: nat) in
      if 48 \<le> n \<and> n \<le> 57 then Some (n - 48)
      else if 97 \<le> n \<and> n \<le> 102 then Some (n - 87)
      else if 65 \<le> n \<and> n \<le> 70 then Some (n - 55)
      else None)"

text \<open>The loop of \<open>ParseUint\<close>: a bad digit and a value that does not fit 64 bits are errors.\<close>

fun parse_hex_from :: "nat \<Rightarrow> string \<Rightarrow> nat option" where
  "parse_hex_from acc [] = Some acc"
| "parse_hex_from acc (c # cs) =
     (case hex_digit c of
        None \<Rightarrow> None
      | Some d \<Rightarrow> if acc * 16 + d < 2 ^ 64 then parse_hex_from (acc * 16 + d) cs else None)"

definition ParseUint16 :: "string \<Rightarrow> nat option" where
  "ParseUint16 s = (if s = [] then None else parse_hex_from 0 s)"

section \<open>The shard of an address\<close>

definition Addr2Shard :: "nat \<Rightarrow> Address \<Rightarrow> nat panics" where
  "Addr2Shard ShardNum addr =
     (if length addr < 8 then panic
      else case ParseUint16 (drop (length addr - 8) addr) of
             None \<Rightarrow> panic
           | Some num \<Rightarrow> if ShardNum = 0 then panic else Some (num mod ShardNum))"

definition isValidHexChar :: "char \<Rightarrow> bool" where
  "isValidHexChar c =
     (let n = (of_char c :: nat) in
      (48 \<le> n \<and> n \<le> 57) \<or> (97 \<le> n \<and> n \<le> 102) \<or> (65 \<le> n \<and> n \<le> 70))"

definition FormatStringToLength :: "string \<Rightarrow> nat \<Rightarrow> string" where
  "FormatStringToLength s len =
     (if \<not> list_all isValidHexChar s then ''error''
      else if len < length s then drop (length s - len) s
      else replicate (len - length s) (CHR ''0'') @ s)"

definition fetchModifiedMap :: "nat \<Rightarrow> Address \<Rightarrow> nat panics" where
  "fetchModifiedMap ShardNum key = Addr2Shard ShardNum key"

section \<open>Lemmas\<close>

lemma hex_digit_Some_iff: "(\<exists>d. hex_digit c = Some d) \<longleftrightarrow> isValidHexChar c"
  by (auto simp: hex_digit_def isValidHexChar_def Let_def)

lemma hex_digit_less: "hex_digit c = Some d \<Longrightarrow> d < 16"
  by (auto simp: hex_digit_def Let_def split: if_splits)

lemma parse_hex_from_total:
  assumes "list_all isValidHexChar s" "acc < 16 ^ k" "k + length s \<le> 16"
  shows "\<exists>n. parse_hex_from acc s = Some n \<and> n < 16 ^ (k + length s)"
  using assms
proof (induction s arbitrary: acc k)
  case (Cons c cs)
  then obtain d where d: "hex_digit c = Some d"
    using hex_digit_Some_iff by fastforce
  have step: "acc * 16 + d < 16 ^ Suc k"
    using Cons.prems(2) hex_digit_less [OF d] by simp
  moreover have "(16::nat) ^ Suc k \<le> 16 ^ 16"
    using Cons.prems(3) by (intro power_increasing) auto
  ultimately have "acc * 16 + d < 2 ^ 64"
    by simp
  moreover have "\<exists>n. parse_hex_from (acc * 16 + d) cs = Some n \<and> n < 16 ^ (Suc k + length cs)"
    using Cons.IH [OF _ step] Cons.prems by auto
  ultimately show ?case
    by (simp add: d mult.commute)
qed simp

lemma parse_hex_from_None:
  assumes "\<not> list_all isValidHexChar s"
  shows "parse_hex_from acc s = None"
  using assms
proof (induction s arbitrary: acc)
  case (Cons c cs)
  then show ?case
    using hex_digit_Some_iff [of c] by (cases "hex_digit c") auto
qed simp

text \<open>The default placement is defined exactly on addresses whose last eight characters are
  hexadecimal digits, and then it is one of the configured shards.\<close>

lemma Addr2Shard_defined_iff:
  assumes "0 < ShardNum"
  shows "(\<exists>s. Addr2Shard ShardNum addr = Some s) \<longleftrightarrow>
         8 \<le> length addr \<and> list_all isValidHexChar (drop (length addr - 8) addr)"
proof (cases "8 \<le> length addr")
  case True
  let ?t = "drop (length addr - 8) addr"
  have len: "length ?t = 8"
    using True by simp
  have "?t \<noteq> []"
    using len by auto
  then show ?thesis
    using True assms len parse_hex_from_total [of ?t 0 0] parse_hex_from_None [of ?t 0]
    by (cases "list_all isValidHexChar ?t") (auto simp: Addr2Shard_def ParseUint16_def)
qed (simp add: Addr2Shard_def)

lemma Addr2Shard_less: "Addr2Shard ShardNum addr = Some s \<Longrightarrow> s < ShardNum"
  by (auto simp: Addr2Shard_def split: if_splits option.splits)

lemma length_FormatStringToLength:
  "list_all isValidHexChar s \<Longrightarrow> length (FormatStringToLength s len) = len"
  by (simp add: FormatStringToLength_def)

lemma valid_FormatStringToLength:
  "list_all isValidHexChar s \<Longrightarrow> list_all isValidHexChar (FormatStringToLength s len)"
  by (auto simp: FormatStringToLength_def list_all_iff isValidHexChar_def dest: in_set_dropD)

lemma FormatStringToLength_idem:
  assumes "list_all isValidHexChar s"
  shows "FormatStringToLength (FormatStringToLength s len) len = FormatStringToLength s len"
  using assms valid_FormatStringToLength [of s len] length_FormatStringToLength [of s len]
  by (simp add: FormatStringToLength_def [of "FormatStringToLength s len"])

text \<open>whatever the trace of addresses the supervisor reads, an address it has normalised to 40
  characters with \<open>FormatStringToLength\<close> either is the marker \<open>error\<close> or has a shard under
  \<open>Addr2Shard\<close> (the placement does not panic on it), that shard is below \<open>ShardNum\<close>, and
  normalising the address again does not move the account.\<close>
theorem formatted_address_has_shard:
  assumes "0 < ShardNum"
  shows "FormatStringToLength s 40 = ''error'' \<or>
    (\<exists>sid. Addr2Shard ShardNum (FormatStringToLength s 40) = Some sid \<and> sid < ShardNum \<and>
       fetchModifiedMap ShardNum (FormatStringToLength (FormatStringToLength s 40) 40) = Some sid)"
proof (cases "list_all isValidHexChar s")
  case True
  let ?a = "FormatStringToLength s 40"
  have "8 \<le> length ?a \<and> list_all isValidHexChar (drop (length ?a - 8) ?a)"
    using True valid_FormatStringToLength [OF True, of 40]
    by (auto simp: length_FormatStringToLength list_all_iff dest: in_set_dropD)
  then obtain sid where "Addr2Shard ShardNum ?a = Some sid"
    using Addr2Shard_defined_iff [OF assms] by blast
  then show ?thesis
    using True by (auto simp: Addr2Shard_less fetchModifiedMap_def FormatStringToLength_idem)
qed (simp add: FormatStringToLength_def)

theorem formatted_address_has_shard_witness:
  "FormatStringToLength ''a7'' 40 = ''error'' \<or>
    (\<exists>sid. Addr2Shard 4 (FormatStringToLength ''a7'' 40) = Some sid \<and> sid < 4 \<and>
       fetchModifiedMap 4 (FormatStringToLength (FormatStringToLength ''a7'' 40) 40) = Some sid)"
  using formatted_address_has_shard [of 4 "''a7''"] by simp

end
