(* ===== verification/Journal.thy ===== *)
theory Journal
  imports Prelude
begin

text \<open>
  The journal entries of \<open>vm/state/journal.go\<close>: the thirteen change structs with the source's
  fields, the shard each records, the address it marks dirty, its deep copy, and the name under
  which it travels to another shard inside a \<open>Wrapper\<close>. Execution and reversal of the entries
  on a state are in theory \<open>StateDB\<close>.
\<close>

datatype JournalEntry =
    CreateObjectChange common_Address (GetShardID: uint64)
  | CreateContractChange common_Address (GetShardID: uint64)
  | SelfDestructChange common_Address (GetShardID: uint64)
  | BalanceChange common_Address uint64 uint64 (GetShardID: uint64)
  | NonceChange common_Address uint64 uint64 (GetShardID: uint64)
  | StorageChange common_Address common_Hash common_Hash common_Hash common_Hash (GetShardID: uint64)
  | CodeChange common_Address common_Hash bytes (GetShardID: uint64)
  | RefundChange uint64 uint64 (GetShardID: uint64)
  | AddLogChange common_Hash (GetShardID: uint64)
  | TouchChange common_Address (GetShardID: uint64)
  | AccessListAddAccountChange common_Address (GetShardID: uint64)
  | AccessListAddSlotChange common_Address common_Hash (GetShardID: uint64)
  | TransientStorageChange common_Address common_Hash common_Hash common_Hash (GetShardID: uint64)

text \<open>\<open>dirtied\<close>: the address an entry marks dirty, \<open>None\<close> for a nil pointer.\<close>

fun dirtied :: "JournalEntry \<Rightarrow> common_Address option" where
  "dirtied (CreateObjectChange a s) = Some a"
| "dirtied (CreateContractChange a s) = None"
| "dirtied (SelfDestructChange a s) = Some a"
| "dirtied (BalanceChange a p c s) = Some a"
| "dirtied (NonceChange a p c s) = Some a"
| "dirtied (StorageChange a k p ov c s) = Some a"
| "dirtied (CodeChange a h c s) = Some a"
| "dirtied (RefundChange p i s) = None"
| "dirtied (AddLogChange h s) = None"
| "dirtied (TouchChange a s) = Some a"
| "dirtied (AccessListAddAccountChange a s) = None"
| "dirtied (AccessListAddSlotChange a sl s) = None"
| "dirtied (TransientStorageChange a k p v s) = None"

text \<open>\<open>copy\<close>: every method builds a new struct without its \<open>ShardId\<close>, which is then zero.\<close>

fun copy_entry :: "JournalEntry \<Rightarrow> JournalEntry" where
  "copy_entry (CreateObjectChange a s) = CreateObjectChange a 0"
| "copy_entry (CreateContractChange a s) = CreateContractChange a 0"
| "copy_entry (SelfDestructChange a s) = SelfDestructChange a 0"
| "copy_entry (BalanceChange a p c s) = BalanceChange a p c 0"
| "copy_entry (NonceChange a p c s) = NonceChange a p c 0"
| "copy_entry (StorageChange a k p ov c s) = StorageChange a k p ov c 0"
| "copy_entry (CodeChange a h c s) = CodeChange a h c 0"
| "copy_entry (RefundChange p i s) = RefundChange p i 0"
| "copy_entry (AddLogChange h s) = AddLogChange h 0"
| "copy_entry (TouchChange a s) = TouchChange a 0"
| "copy_entry (AccessListAddAccountChange a s) = AccessListAddAccountChange a 0"
| "copy_entry (AccessListAddSlotChange a sl s) = AccessListAddSlotChange a sl 0"
| "copy_entry (TransientStorageChange a k p v s) = TransientStorageChange a k p v 0"

record Wrapper =
  OriginalObj :: JournalEntry
  Type :: string

text \<open>The type switch that wraps an entry before it is sent to its shard.\<close>

fun entry_type :: "JournalEntry \<Rightarrow> string" where
  "entry_type (CreateObjectChange a s) = ''CreateObjectChange''"
| "entry_type (CreateContractChange a s) = ''CreateContractChange''"
| "entry_type (SelfDestructChange a s) = ''SelfDestructChange''"
| "entry_type (BalanceChange a p c s) = ''BalanceChange''"
| "entry_type (NonceChange a p c s) = ''NonceChange''"
| "entry_type (StorageChange a k p ov c s) = ''StorageChange''"
| "entry_type (CodeChange a h c s) = ''CodeChange''"
| "entry_type (RefundChange p i s) = ''RefundChange''"
| "entry_type (AddLogChange h s) = ''AddLogChange''"
| "entry_type (TouchChange a s) = ''TouchChange''"
| "entry_type (AccessListAddAccountChange a s) = ''AccessListAddAccountChange''"
| "entry_type (AccessListAddSlotChange a sl s) = ''AccessListAddSlotChange''"
| "entry_type (TransientStorageChange a k p v s) = ''TransientStorageChange''"

definition wrap :: "JournalEntry \<Rightarrow> Wrapper" where
  "wrap e = \<lparr> OriginalObj = e, Type = entry_type e \<rparr>"

section \<open>The wire format of an entry\<close>

text \<open>\<open>encoding/json\<close> writes the exported fields of a struct. The only exported field of the
  change structs is \<open>ShardId\<close>, so the document of an entry is its type name and its shard.\<close>

record WrapperJSON =
  json_type :: string
  json_ShardId :: uint64

definition MarshalJSON :: "Wrapper \<Rightarrow> WrapperJSON" where
  "MarshalJSON w = \<lparr> json_type = Type w, json_ShardId = GetShardID (OriginalObj w) \<rparr>"

text \<open>\<open>UnmarshalJSON\<close> makes a struct of the named type whose unexported fields are zero.\<close>

definition UnmarshalJSON :: "WrapperJSON \<Rightarrow> string + Wrapper" where
  "UnmarshalJSON d = (let n = json_ShardId d; t = json_type d; ok = (\<lambda>e. Inr \<lparr> OriginalObj = e, Type = t \<rparr>) in
     if t = ''CreateObjectChange'' then ok (CreateObjectChange 0 n)
     else if t = ''CreateContractChange'' then ok (CreateContractChange 0 n)
     else if t = ''SelfDestructChange'' then ok (SelfDestructChange 0 n)
     else if t = ''BalanceChange'' then ok (BalanceChange 0 0 0 n)
     else if t = ''NonceChange'' then ok (NonceChange 0 0 0 n)
     else if t = ''StorageChange'' then ok (StorageChange 0 0 0 0 0 n)
     else if t = ''CodeChange'' then ok (CodeChange 0 0 [] n)
     else if t = ''RefundChange'' then ok (RefundChange 0 0 n)
     else if t = ''AddLogChange'' then ok (AddLogChange 0 n)
     else if t = ''TouchChange'' then ok (TouchChange 0 n)
     else if t = ''AccessListAddAccountChange'' then ok (AccessListAddAccountChange 0 n)
     else if t = ''AccessListAddSlotChange'' then ok (AccessListAddSlotChange 0 0 n)
     else if t = ''TransientStorageChange'' then ok (TransientStorageChange 0 0 0 0 n)
     else Inl (''unknown type: '' @ t))"

record ExeLogOrRollback =
  ELog :: "Wrapper list"
  Rollback :: bool

section \<open>The journal\<close>

record revision =
  RevId :: nat
  JournalIndex :: nat

record journal =
  Entries :: "JournalEntry list"
  dirties :: "common_Address \<rightharpoonup> int"
  ValidRevisions :: "revision list"
  nextRevisionId :: nat

definition newJournal :: journal where
  "newJournal = \<lparr> Entries = [], dirties = Map.empty, ValidRevisions = [], nextRevisionId = 0 \<rparr>"

definition GetEntry :: "journal \<Rightarrow> JournalEntry list" where
  "GetEntry j = Entries j"

definition reset_journal :: "journal \<Rightarrow> journal" where
  "reset_journal j = j\<lparr> Entries := [], ValidRevisions := [], dirties := Map.empty, nextRevisionId := 0 \<rparr>"

definition journal_length :: "journal \<Rightarrow> nat" where
  "journal_length j = length (Entries j)"

definition snapshot :: "journal \<Rightarrow> nat \<times> journal" where
  "snapshot j = (nextRevisionId j,
     j\<lparr> nextRevisionId := nextRevisionId j + 1,
        ValidRevisions := ValidRevisions j @ [\<lparr> RevId = nextRevisionId j, JournalIndex = journal_length j \<rparr>] \<rparr>)"

text \<open>A missing key of a Go map of integers reads as zero.\<close>

definition bump_dirty :: "int \<Rightarrow> common_Address \<Rightarrow> (common_Address \<rightharpoonup> int) \<Rightarrow> (common_Address \<rightharpoonup> int)" where
  "bump_dirty d a m = m(a \<mapsto> (case m a of Some k \<Rightarrow> k | None \<Rightarrow> 0) + d)"

definition append_entry :: "JournalEntry \<Rightarrow> journal \<Rightarrow> journal" where
  "append_entry e j = (let j1 = j\<lparr> Entries := Entries j @ [e] \<rparr> in
     case dirtied e of
       Some a \<Rightarrow> j1\<lparr> dirties := bump_dirty 1 a (dirties j1) \<rparr>
     | None \<Rightarrow> j1)"

definition dirty :: "common_Address \<Rightarrow> journal \<Rightarrow> journal" where
  "dirty a j = j\<lparr> dirties := bump_dirty 1 a (dirties j) \<rparr>"

text \<open>The second half of the loop body of \<open>revert\<close>: dropping the dirty count of an entry.\<close>

definition undirty :: "JournalEntry \<Rightarrow> journal \<Rightarrow> journal" where
  "undirty e j = (case dirtied e of
       Some a \<Rightarrow> (let m = bump_dirty (-1) a (dirties j) in
          j\<lparr> dirties := (if m a = Some 0 then m(a := None) else m) \<rparr>)
     | None \<Rightarrow> j)"

definition Copy_journal :: "journal \<Rightarrow> journal" where
  "Copy_journal j = j\<lparr> Entries := map copy_entry (Entries j) \<rparr>"

text \<open>The typed appenders; \<open>sh\<close> is \<open>global.ShardID\<close>.\<close>

definition logChange :: "uint64 \<Rightarrow> common_Hash \<Rightarrow> journal \<Rightarrow> journal" where
  "logChange sh txHash = append_entry (AddLogChange txHash sh)"

definition createObject_j :: "uint64 \<Rightarrow> common_Address \<Rightarrow> journal \<Rightarrow> journal" where
  "createObject_j sh addr = append_entry (CreateObjectChange addr sh)"

definition createContract_j :: "uint64 \<Rightarrow> common_Address \<Rightarrow> journal \<Rightarrow> journal" where
  "createContract_j sh addr = append_entry (CreateContractChange addr sh)"

definition destruct_j :: "uint64 \<Rightarrow> common_Address \<Rightarrow> journal \<Rightarrow> journal" where
  "destruct_j sh addr = append_entry (SelfDestructChange addr sh)"

definition storageChange ::
  "uint64 \<Rightarrow> common_Address \<Rightarrow> common_Hash \<Rightarrow> common_Hash \<Rightarrow> common_Hash \<Rightarrow> common_Hash \<Rightarrow> journal \<Rightarrow> journal" where
  "storageChange sh addr key prev origin current = append_entry (StorageChange addr key prev origin current sh)"

definition transientStateChange ::
  "uint64 \<Rightarrow> common_Address \<Rightarrow> common_Hash \<Rightarrow> common_Hash \<Rightarrow> common_Hash \<Rightarrow> journal \<Rightarrow> journal" where
  "transientStateChange sh addr key prev val = append_entry (TransientStorageChange addr key prev val sh)"

definition refundChange :: "uint64 \<Rightarrow> uint64 \<Rightarrow> uint64 \<Rightarrow> journal \<Rightarrow> journal" where
  "refundChange sh previous incr = append_entry (RefundChange previous incr sh)"

definition balanceChange :: "uint64 \<Rightarrow> common_Address \<Rightarrow> uint64 \<Rightarrow> uint64 \<Rightarrow> journal \<Rightarrow> journal" where
  "balanceChange sh addr previous current = append_entry (BalanceChange addr previous current sh)"

definition setCode_j :: "uint64 \<Rightarrow> common_Address \<Rightarrow> common_Hash \<Rightarrow> bytes \<Rightarrow> journal \<Rightarrow> journal" where
  "setCode_j sh addr codeHash code = append_entry (CodeChange addr codeHash code sh)"

definition nonceChange :: "uint64 \<Rightarrow> common_Address \<Rightarrow> uint64 \<Rightarrow> uint64 \<Rightarrow> journal \<Rightarrow> journal" where
  "nonceChange sh addr prev current = append_entry (NonceChange addr prev current sh)"

definition ripemd :: common_Address where
  "ripemd = 3"

definition touchChange :: "uint64 \<Rightarrow> common_Address \<Rightarrow> journal \<Rightarrow> journal" where
  "touchChange sh addr j = (let j1 = append_entry (TouchChange addr sh) j in
     if addr = ripemd then dirty addr j1 else j1)"

definition accessListAddAccount :: "uint64 \<Rightarrow> common_Address \<Rightarrow> journal \<Rightarrow> journal" where
  "accessListAddAccount sh addr = append_entry (AccessListAddAccountChange addr sh)"

definition accessListAddSlot :: "uint64 \<Rightarrow> common_Address \<Rightarrow> common_Hash \<Rightarrow> journal \<Rightarrow> journal" where
  "accessListAddSlot sh addr slot = append_entry (AccessListAddSlotChange addr slot sh)"

text \<open>\<open>sort.Search\<close>: binary search for the smallest index in \<open>[i, j)\<close> at which \<open>f\<close> holds.\<close>

function search_loop :: "(nat \<Rightarrow> bool) \<Rightarrow> nat \<Rightarrow> nat \<Rightarrow> nat" where
  "search_loop f i j =
     (if i < j then (let h = (i + j) div 2 in if \<not> f h then search_loop f (h + 1) j else search_loop f i h) else i)"
  by pat_completeness auto
termination
  by (relation "measure (\<lambda>(f, i, j). j - i)") auto

declare search_loop.simps [simp del]

definition Search :: "nat \<Rightarrow> (nat \<Rightarrow> bool) \<Rightarrow> nat" where
  "Search n f = search_loop f 0 n"

text \<open>The position of a revision id among the valid revisions, \<open>None\<close> where \<open>revertToSnapshot\<close>
  panics.\<close>

definition find_revision :: "nat \<Rightarrow> journal \<Rightarrow> nat panics" where
  "find_revision revid j = (let rs = ValidRevisions j; idx = Search (length rs) (\<lambda>i. revid \<le> RevId (rs ! i)) in
     if idx = length rs \<or> RevId (rs ! idx) \<noteq> revid then panic else Some idx)"

section \<open>Lemmas\<close>

lemma copy_entry_shard [simp]: "GetShardID (copy_entry e) = 0"
  by (cases e) simp_all

lemma dirtied_copy_entry [simp]: "dirtied (copy_entry e) = dirtied e"
  by (cases e) simp_all

lemma entry_type_copy [simp]: "entry_type (copy_entry e) = entry_type e"
  by (cases e) simp_all

lemma search_loop_least:
  assumes "i \<le> k" "k \<le> j" "\<And>x. i \<le> x \<Longrightarrow> x < k \<Longrightarrow> \<not> f x" "\<And>x. k \<le> x \<Longrightarrow> x < j \<Longrightarrow> f x"
  shows "search_loop f i j = k"
  using assms
proof (induction f i j rule: search_loop.induct)
  case (1 f i j)
  define h where "h = (i + j) div 2"
  show ?case
  proof (cases "i < j")
    case True
    then have h: "i \<le> h" "h < j"
      by (auto simp: h_def)
    show ?thesis
    proof (cases "f h")
      case True
      then have "k \<le> h"
        using "1.prems"(3) h by (meson not_le)
      then have "search_loop f i h = k"
        using "1.IH"(2) [OF \<open>i < j\<close> h_def] True "1.prems" h by simp
      then show ?thesis
        using True \<open>i < j\<close> by (subst search_loop.simps) (simp add: h_def Let_def)
    next
      case False
      then have "h + 1 \<le> k"
        using "1.prems"(4) [of h] h by (metis Suc_eq_plus1 Suc_leI not_le)
      then have "search_loop f (h + 1) j = k"
        using "1.IH"(1) [OF \<open>i < j\<close> h_def] False "1.prems" h by simp
      then show ?thesis
        using False \<open>i < j\<close> by (subst search_loop.simps) (simp add: h_def Let_def)
    qed
  next
    case False
    then show ?thesis
      using "1.prems" by (subst search_loop.simps) simp
  qed
qed

text \<open>Revision ids are issued in increasing order, so a search for a live id finds its position.\<close>

definition revisions_ok :: "journal \<Rightarrow> bool" where
  "revisions_ok j \<longleftrightarrow> sorted_wrt (<) (map RevId (ValidRevisions j)) \<and> (\<forall>r \<in> set (ValidRevisions j). RevId r < nextRevisionId j)"

lemma find_revision_hit:
  assumes "revisions_ok j" "ValidRevisions j = rs1 @ r # rs2"
  shows "find_revision (RevId r) j = Some (length rs1)"
proof -
  let ?rs = "ValidRevisions j"
  have srt: "sorted_wrt (<) (map RevId ?rs)"
    using assms(1) by (simp add: revisions_ok_def)
  have at: "?rs ! length rs1 = r" "length rs1 < length ?rs"
    using assms(2) by simp_all
  have less: "RevId (?rs ! x) < RevId (?rs ! y)" if "x < y" "y < length ?rs" for x y
    using sorted_wrt_nth_less [OF srt, of x y] that by simp
  have "search_loop (\<lambda>i. RevId r \<le> RevId (?rs ! i)) 0 (length ?rs) = length rs1"
  proof (rule search_loop_least)
    show "\<not> RevId r \<le> RevId (?rs ! x)" if "0 \<le> x" "x < length rs1" for x
      using less [of x "length rs1"] that at by simp
    show "RevId r \<le> RevId (?rs ! x)" if "length rs1 \<le> x" "x < length ?rs" for x
      using less [of "length rs1" x] that at by (cases "x = length rs1") auto
  qed (use at in simp_all)
  then show ?thesis
    using at by (simp add: find_revision_def Search_def Let_def)
qed

lemma append_entry_facts [simp]:
  "Entries (append_entry e j) = Entries j @ [e]"
  "ValidRevisions (append_entry e j) = ValidRevisions j"
  "nextRevisionId (append_entry e j) = nextRevisionId j"
  by (simp_all add: append_entry_def Let_def split: option.split)

lemma undirty_facts [simp]:
  "Entries (undirty e j) = Entries j"
  "ValidRevisions (undirty e j) = ValidRevisions j"
  "nextRevisionId (undirty e j) = nextRevisionId j"
  by (simp_all add: undirty_def Let_def split: option.split)

lemma dirty_facts [simp]:
  "Entries (dirty a j) = Entries j"
  "ValidRevisions (dirty a j) = ValidRevisions j"
  "nextRevisionId (dirty a j) = nextRevisionId j"
  by (simp_all add: dirty_def)

lemmas journal_appenders =
  logChange_def createObject_j_def createContract_j_def destruct_j_def storageChange_def
  transientStateChange_def refundChange_def balanceChange_def setCode_j_def nonceChange_def
  touchChange_def accessListAddAccount_def accessListAddSlot_def

text \<open>The entry a remote shard decodes: the same type and shard, every other field zero.\<close>

fun blank_entry :: "JournalEntry \<Rightarrow> JournalEntry" where
  "blank_entry (CreateObjectChange a s) = CreateObjectChange 0 s"
| "blank_entry (CreateContractChange a s) = CreateContractChange 0 s"
| "blank_entry (SelfDestructChange a s) = SelfDestructChange 0 s"
| "blank_entry (BalanceChange a p c s) = BalanceChange 0 0 0 s"
| "blank_entry (NonceChange a p c s) = NonceChange 0 0 0 s"
| "blank_entry (StorageChange a k p ov c s) = StorageChange 0 0 0 0 0 s"
| "blank_entry (CodeChange a h c s) = CodeChange 0 0 [] s"
| "blank_entry (RefundChange p i s) = RefundChange 0 0 s"
| "blank_entry (AddLogChange h s) = AddLogChange 0 s"
| "blank_entry (TouchChange a s) = TouchChange 0 s"
| "blank_entry (AccessListAddAccountChange a s) = AccessListAddAccountChange 0 s"
| "blank_entry (AccessListAddSlotChange a sl s) = AccessListAddSlotChange 0 0 s"
| "blank_entry (TransientStorageChange a k p v s) = TransientStorageChange 0 0 0 0 s"

lemma Unmarshal_Marshal_wrap: "UnmarshalJSON (MarshalJSON (wrap e)) = Inr (wrap (blank_entry e))"
  by (cases e) (simp_all add: UnmarshalJSON_def MarshalJSON_def wrap_def Let_def)

lemma dirtied_blank_entry: "dirtied (blank_entry e) = map_option (\<lambda>a. 0) (dirtied e)"
  by (cases e) simp_all

text \<open>a journal entry does not survive its trip to another shard. For every entry the node
  sends in an \<open>ExeLogOrRollback\<close> message, decoding the document that \<open>MarshalJSON\<close> wrote
  succeeds and gives an entry of the same type and the same shard whose account, if it has one,
  is the zero address and whose values are all zero; two entries of the same type and shard are
  the same document.\<close>
theorem cross_shard_entry_is_blank:
  "UnmarshalJSON (MarshalJSON (wrap e)) = Inr (wrap (blank_entry e)) \<and>
   entry_type (blank_entry e) = entry_type e \<and> GetShardID (blank_entry e) = GetShardID e \<and>
   dirtied (blank_entry e) = map_option (\<lambda>a. 0) (dirtied e) \<and>
   (MarshalJSON (wrap e) = MarshalJSON (wrap e') \<longleftrightarrow> entry_type e = entry_type e' \<and> GetShardID e = GetShardID e')"
proof -
  have "entry_type (blank_entry e) = entry_type e" "GetShardID (blank_entry e) = GetShardID e"
    by (cases e; simp)+
  moreover have "MarshalJSON (wrap e) = MarshalJSON (wrap e') \<longleftrightarrow> entry_type e = entry_type e' \<and> GetShardID e = GetShardID e'"
    by (simp add: MarshalJSON_def wrap_def)
  ultimately show ?thesis
    by (simp only: Unmarshal_Marshal_wrap dirtied_blank_entry)
qed

lemma copy_entry_eq_iff: "copy_entry e = e \<longleftrightarrow> GetShardID e = 0"
  by (cases e) auto

end
