(* ===== verification/Core.thy ===== *)
theory Core
  imports Utils Journal
begin

text \<open>
  The data of \<open>core/\<close>: transactions (\<open>transaction.go\<close>), account states (\<open>account.go\<close>), block
  headers and blocks (\<open>block.go\<close>), with the constructors the rest of the program uses.
  The SHA-256 digest of the gob encoding of a transaction is the argument \<open>H\<close> of the
  constructors; the clock is the argument \<open>now\<close> (the zero time is 0).
\<close>

section \<open>Transactions (transaction.go)\<close>

record Transaction =
  Sender :: Address
  Recipient :: Address
  Nonce :: uint64
  Signature :: bytes
  Value :: int
  Txtype :: string
  Fee :: int
  TxHash :: bytes
  Time :: go_time
  Relayed :: bool
  HasBroker :: bool
  SenderIsBroker :: bool
  IsAllocatedSender :: bool
  IsAllocatedRecipent :: bool
  OriginalSender :: Address
  FinalRecipient :: Address
  RawTxHash :: bytes
  Isbrokertx1 :: bool
  Isbrokertx2 :: bool
  ShouldHandleInBlock :: bool
  IncreaseOrDecrease :: byte
  Gas :: uint64
  GasPrice :: int
  To :: common_Address
  From :: common_Address
  Data :: bytes
  IsContract :: bool
  IsBrokerContract :: bool
  Log :: "Wrapper list"
  UUID :: string

definition zeroTransaction :: Transaction where
  "zeroTransaction = \<lparr> Sender = [], Recipient = [], Nonce = 0, Signature = [], Value = 0, Txtype = [],
     Fee = 0, TxHash = [], Time = 0, Relayed = False, HasBroker = False, SenderIsBroker = False,
     IsAllocatedSender = False, IsAllocatedRecipent = False, OriginalSender = [],
     FinalRecipient = [], RawTxHash = [], Isbrokertx1 = False, Isbrokertx2 = False,
     ShouldHandleInBlock = False, IncreaseOrDecrease = 0, Gas = 0, GasPrice = 0, To = 0, From = 0,
     Data = [], IsContract = False, IsBrokerContract = False, Log = [], UUID = [] \<rparr>"

definition NewTransaction ::
  "(Transaction \<Rightarrow> bytes) \<Rightarrow> Address \<Rightarrow> Address \<Rightarrow> int \<Rightarrow> uint64 \<Rightarrow> int \<Rightarrow> string \<Rightarrow> Transaction" where
  "NewTransaction H sender recipient value nonce fee tx_type =
     (let tx = zeroTransaction\<lparr> Sender := sender, Recipient := recipient, Value := value,
                 Txtype := tx_type, Nonce := nonce, Fee := fee \<rparr> in
      tx\<lparr> TxHash := H tx, Relayed := False, FinalRecipient := [], OriginalSender := [],
          RawTxHash := [], HasBroker := False, SenderIsBroker := False, IsAllocatedSender := False,
          IsAllocatedRecipent := False, ShouldHandleInBlock := False, IncreaseOrDecrease := 0 \<rparr>)"

text \<open>\<open>hex.DecodeString\<close> returns the bytes decoded before the first malformed pair; its error is
  ignored by the callers. The conversion \<open>common.Address(s)\<close> of a slice to an array panics when
  the slice has fewer than 20 bytes and takes the first 20 otherwise.\<close>

fun hex_DecodeString :: "string \<Rightarrow> bytes" where
  "hex_DecodeString (a # b # cs) =
     (case (hex_digit a, hex_digit b) of
        (Some x, Some y) \<Rightarrow> word_of_nat (16 * x + y) # hex_DecodeString cs
      | _ \<Rightarrow> [])"
| "hex_DecodeString cs = []"

definition Address_of_slice :: "bytes \<Rightarrow> common_Address panics" where
  "Address_of_slice bs = (if length bs < 20 then panic else Some (word_of_nat (be_nat (take 20 bs))))"

text \<open>\<open>stringToFixedByteArray\<close>: the bytes of the string, cut or zero-filled to 20.\<close>

definition stringToFixedByteArray :: "string \<Rightarrow> bytes" where
  "stringToFixedByteArray s =
     take 20 (bytes_of_string s) @ replicate (20 - length s) 0"

definition NewTransactionContract ::
  "(Transaction \<Rightarrow> bytes) \<Rightarrow> go_time \<Rightarrow> Address \<Rightarrow> Address \<Rightarrow> int \<Rightarrow> uint64 \<Rightarrow> bytes \<Rightarrow> Transaction panics" where
  "NewTransactionContract H now sender recipient value nonce data = do {
     from \<leftarrow> Address_of_slice (hex_DecodeString sender);
     to \<leftarrow> (if recipient = [] then Address_of_slice (stringToFixedByteArray [])
           else Address_of_slice (hex_DecodeString recipient));
     let tx = zeroTransaction\<lparr> Sender := sender, Recipient := recipient, Value := value,
                Nonce := nonce, Fee := 0, From := from, Time := now, To := to \<rparr>;
     Some (tx\<lparr> TxHash := H tx, Relayed := False, FinalRecipient := [], OriginalSender := [],
          RawTxHash := [], HasBroker := False, SenderIsBroker := False, IsAllocatedSender := False,
          IsAllocatedRecipent := False, Data := data, IsContract := True \<rparr>) }"

definition NewTransactionContractBroker ::
  "(Transaction \<Rightarrow> bytes) \<Rightarrow> go_time \<Rightarrow> Address \<Rightarrow> Address \<Rightarrow> int \<Rightarrow> uint64 \<Rightarrow> bytes \<Rightarrow> Transaction panics" where
  "NewTransactionContractBroker H now sender recipient value nonce data = do {
     from \<leftarrow> Address_of_slice (hex_DecodeString sender);
     to \<leftarrow> (if recipient = [] then Address_of_slice (stringToFixedByteArray [])
           else Address_of_slice (hex_DecodeString recipient));
     let tx = zeroTransaction\<lparr> Sender := sender, Recipient := recipient, Value := value,
                Nonce := nonce, Fee := 0, From := from, Time := now, To := to \<rparr>;
     Some (tx\<lparr> TxHash := H tx, Relayed := False, FinalRecipient := [], OriginalSender := [],
          RawTxHash := [], HasBroker := False, SenderIsBroker := False, IsAllocatedSender := False,
          IsAllocatedRecipent := False, Data := data, IsContract := True,
          IsBrokerContract := True \<rparr>) }"

section \<open>Account states (account.go)\<close>

record Account =
  Acc_AcAddress :: Address
  PublicKey :: bytes

record AccountState =
  AcAddress :: Address
  AS_Nonce :: uint64
  Balance :: int
  StorageRoot :: bytes
  CodeHash :: bytes

definition Deduct :: "AccountState \<Rightarrow> int \<Rightarrow> bool \<times> AccountState" where
  "Deduct acc val =
     (if Balance acc < val then (False, acc) else (True, acc\<lparr> Balance := Balance acc - val \<rparr>))"

definition Deposit :: "AccountState \<Rightarrow> int \<Rightarrow> AccountState" where
  "Deposit s value = s\<lparr> Balance := Balance s + value \<rparr>"

section \<open>Blocks (block.go)\<close>

record BlockHeader =
  ParentBlockHash :: bytes
  StateRoot :: bytes
  TxRoot :: bytes
  Number :: uint64
  BH_Time :: go_time
  Miner :: uint64
  ParentHash :: common_Hash
  Coinbase :: common_Address
  Root :: common_Hash
  BH_TxHash :: common_Hash
  ReceiptHash :: common_Hash
  Difficulty :: int
  GasLimit :: uint64
  GasUsed :: uint64
  Extra :: bytes
  MixDigest :: common_Hash
  BaseFee :: int

definition zeroBlockHeader :: BlockHeader where
  "zeroBlockHeader = \<lparr> ParentBlockHash = [], StateRoot = [], TxRoot = [], Number = 0, BH_Time = 0,
     Miner = 0, ParentHash = 0, Coinbase = 0, Root = 0, BH_TxHash = 0, ReceiptHash = 0,
     Difficulty = 0, GasLimit = 0, GasUsed = 0, Extra = [], MixDigest = 0, BaseFee = 0 \<rparr>"

record Block =
  Header :: BlockHeader
  Body :: "Transaction list"
  Hash :: bytes

definition NewBlock :: "BlockHeader \<Rightarrow> Transaction list \<Rightarrow> Block" where
  "NewBlock bh bb = \<lparr> Header = bh, Body = bb, Hash = [] \<rparr>"

section \<open>Injection messages (message.go)\<close>

record InjectTxs =
  Txs :: "Transaction list"
  ToShardID :: nat

text \<open>A message handed to \<open>networks.TcpDial\<close>: its type, its payload, and the node it is dialled to
  as a pair of shard and node number.\<close>

datatype send = SendInject string InjectTxs "nat \<times> nat"

section \<open>Lemmas\<close>

lemma hex_DecodeString_length:
  "list_all isValidHexChar s \<Longrightarrow> length (hex_DecodeString s) = length s div 2"
proof (induction s rule: hex_DecodeString.induct)
  case (1 a b cs)
  then obtain x y where "hex_digit a = Some x" "hex_digit b = Some y"
    using 1(2) by (auto simp: hex_digit_Some_iff [symmetric])
  with 1 show ?case
    by simp
qed simp_all

lemma length_stringToFixedByteArray [simp]: "length (stringToFixedByteArray s) = 20"
  by (simp add: stringToFixedByteArray_def)

lemma NewTransaction_fields [simp]:
  "Sender (NewTransaction H s r v n f t) = s" "Recipient (NewTransaction H s r v n f t) = r"
  "Value (NewTransaction H s r v n f t) = v" "Fee (NewTransaction H s r v n f t) = f"
  "Nonce (NewTransaction H s r v n f t) = n" "Txtype (NewTransaction H s r v n f t) = t"
  "HasBroker (NewTransaction H s r v n f t) = False"
  "IsContract (NewTransaction H s r v n f t) = False"
  "Isbrokertx1 (NewTransaction H s r v n f t) = False"
  "Isbrokertx2 (NewTransaction H s r v n f t) = False"
  "Time (NewTransaction H s r v n f t) = 0"
  by (simp_all add: NewTransaction_def zeroTransaction_def Let_def)

lemma Deduct_keeps_nonneg:
  "Deduct a v = (ok, a') \<Longrightarrow> 0 \<le> Balance a \<Longrightarrow> 0 \<le> Balance a'"
  by (auto simp: Deduct_def split: if_splits)

lemma Deduct_Deposit:
  "Deduct a v = (True, a') \<Longrightarrow> Deposit a' v = a"
  by (auto simp: Deduct_def Deposit_def split: if_splits)

text \<open>A contract transaction is built exactly for senders that decode to at least 20 bytes (and
  recipients that are empty or do so); a sender of 40 hexadecimal characters always qualifies,
  a sender of fewer than 40 characters makes the constructor panic.\<close>
theorem contract_transaction_senders:
  "(NewTransactionContract H now sender [] value nonce data = None \<longleftrightarrow>
      length (hex_DecodeString sender) < 20) \<and>
   (list_all isValidHexChar sender \<longrightarrow>
      (NewTransactionContract H now sender [] value nonce data = None \<longleftrightarrow> length sender < 40)) \<and>
   (\<forall>tx. NewTransactionContract H now sender [] value nonce data = Some tx \<longrightarrow>
      IsContract tx \<and> Sender tx = sender \<and> Data tx = data \<and> To tx = 0 \<and> Fee tx = 0)"
proof -
  have zero: "Address_of_slice (stringToFixedByteArray []) = Some 0"
    by (simp add: Address_of_slice_def stringToFixedByteArray_def be_nat_def bytes_of_string_def
        numeral_eq_Suc)
  have "list_all isValidHexChar sender \<Longrightarrow> length (hex_DecodeString sender) < 20 \<longleftrightarrow> length sender < 40"
    by (auto simp: hex_DecodeString_length)
  with zero show ?thesis
    by (auto simp: NewTransactionContract_def Address_of_slice_def [of "hex_DecodeString sender"]
        zeroTransaction_def Let_def)
qed

theorem contract_transaction_senders_witness:
  "\<exists>tx. NewTransactionContract (\<lambda>tx. []) 5 (replicate 40 (CHR ''a'')) [] 3 0 [1] = Some tx \<and> Data tx = [1] \<and> To tx = 0"
proof -
  have "list_all isValidHexChar (replicate 40 (CHR ''a''))"
    by (simp add: list_all_iff isValidHexChar_def)
  then have "NewTransactionContract (\<lambda>tx. []) 5 (replicate 40 (CHR ''a'')) [] 3 0 [1] \<noteq> None"
    using contract_transaction_senders [of "\<lambda>tx. []" 5 "replicate 40 (CHR ''a'')" 3 0 "[1]"]
    by (metis length_replicate less_irrefl)
  then show ?thesis
    using contract_transaction_senders [of "\<lambda>tx. []" 5 "replicate 40 (CHR ''a'')" 3 0 "[1]"] by blast
qed

end
