(* ===== verification/Exchange.thy ===== *)
theory Exchange
  imports Core
begin

text \<open>
  The exchange of \<open>supervisor/server.go\<close>: the constant-product market maker kept in the
  supervisor (\<open>ammModel\<close>), the endpoints \<open>/transaction\<close>, \<open>/exchange\<close> and \<open>/queryrate\<close>, and the
  client's address book (\<open>client/client.go\<close>) they use to find the shard of an account.

  A handler returns its HTTP reply, the messages it dials and the new state. A panic inside a
  handler is recovered by the HTTP framework: it ends the request (\<open>HandlerPanic\<close>), but what the
  handler had already changed stays changed. Quotients of \<open>big.Float\<close> are exact rationals.
\<close>

section \<open>Parameters and client address book\<close>

definition Transaction_Types :: "string list" where
  "Transaction_Types = [''BKC'', ''Badge'']"

record Client =
  addr2ShardMap :: "string \<rightharpoonup> nat"

definition GetAddr2ShardMap :: "nat \<Rightarrow> Client \<Rightarrow> string \<Rightarrow> nat panics" where
  "GetAddr2ShardMap ShardNum c key =
     (case addr2ShardMap c key of Some val \<Rightarrow> Some val | None \<Rightarrow> Addr2Shard ShardNum key)"

definition SetAddr2ShardMap :: "Client \<Rightarrow> string \<Rightarrow> nat \<Rightarrow> Client" where
  "SetAddr2ShardMap c key val = c\<lparr> addr2ShardMap := (addr2ShardMap c)(key \<mapsto> val) \<rparr>"

section \<open>The market maker\<close>

record ammModel =
  bkc :: int
  badge :: int
  constant_val :: int

definition initial_amm :: ammModel where
  "initial_amm = \<lparr> bkc = 10000000, badge = 10000000, constant_val = 10000000 * 10000000 \<rparr>"

datatype http_reply =
    BadRequest string
  | OK_error string
  | OK_msg string
  | OK_rate int rat
  | HandlerPanic

text \<open>The checks both swap endpoints make on the two types and the amount.\<close>

definition check_swap :: "string \<Rightarrow> string \<Rightarrow> string \<Rightarrow> http_reply + int" where
  "check_swap token tx_type_from tx_type_to =
     (if tx_type_from = [] then Inl (BadRequest ''Type From is required'')
      else if tx_type_to = [] then Inl (BadRequest ''Type To is required'')
      else if tx_type_from \<notin> set Transaction_Types then Inl (BadRequest ''Invalid Tx From Type'')
      else if tx_type_to \<notin> set Transaction_Types then Inl (BadRequest ''Invalid Tx To Type'')
      else case SetString10 token of
             None \<Rightarrow> Inl (OK_error ''Amount is invalid!'')
           | Some tokenInt \<Rightarrow> if tokenInt \<le> 0 then Inl (OK_error ''Amount is invalid!'') else Inr tokenInt)"

text \<open>The state change of \<open>/exchange\<close>: the reserve of the sold coin grows first, then the quotient is
  taken. The result is the payout and the new reserves; a panic of the quotient leaves the grown
  reserve behind.\<close>

definition amm_exchange :: "ammModel \<Rightarrow> string \<Rightarrow> int \<Rightarrow> int panics \<times> ammModel" where
  "amm_exchange m tx_type_from tokenInt =
     (if tx_type_from = ''BKC'' then
        (let m1 = m\<lparr> bkc := bkc m + tokenInt \<rparr> in
         case Quo (constant_val m1) (bkc m1) of
           None \<Rightarrow> (panic, m1)
         | Some rest_badge \<Rightarrow> (Some (badge m1 - rest_badge), m1\<lparr> badge := rest_badge \<rparr>))
      else if tx_type_from = ''Badge'' then
        (let m1 = m\<lparr> badge := badge m + tokenInt \<rparr> in
         case Quo (constant_val m1) (badge m1) of
           None \<Rightarrow> (panic, m1)
         | Some rest_bkc \<Rightarrow> (Some (badge m1 - rest_bkc), m1\<lparr> bkc := rest_bkc \<rparr>))
      else (panic, m))"

definition amm_quote :: "ammModel \<Rightarrow> string \<Rightarrow> int \<Rightarrow> int panics" where
  "amm_quote m tx_type_from tokenInt =
     (if tx_type_from = ''BKC'' then
        do { rest_badge \<leftarrow> Quo (constant_val m) (bkc m + tokenInt); Some (badge m - rest_badge) }
      else if tx_type_from = ''Badge'' then
        do { rest_bkc \<leftarrow> Quo (constant_val m) (badge m + tokenInt); Some (bkc m - rest_bkc) }
      else panic)"

section \<open>Endpoints\<close>

definition exchange_endpoint ::
  "(Transaction \<Rightarrow> bytes) \<Rightarrow> nat \<Rightarrow> Client \<Rightarrow> ammModel \<Rightarrow> string \<Rightarrow> string \<Rightarrow> string \<Rightarrow> string
     \<Rightarrow> http_reply \<times> send list \<times> ammModel" where
  "exchange_endpoint H ShardNum clt m addr token tx_type_from tx_type_to =
     (if addr = [] then (BadRequest ''Address is required'', [], m)
      else case check_swap token tx_type_from tx_type_to of
        Inl r \<Rightarrow> (r, [], m)
      | Inr tokenInt \<Rightarrow>
          (case amm_exchange m tx_type_from tokenInt of
             (None, m1) \<Rightarrow> (HandlerPanic, [], m1)
           | (Some given_money, m1) \<Rightarrow>
               (let tx = (NewTransaction H addr addr tokenInt 123 0 tx_type_from)
                          \<lparr> ShouldHandleInBlock := True, IncreaseOrDecrease := 1 \<rparr>;
                    tx_2 = (NewTransaction H addr addr given_money 123 0 tx_type_to)
                          \<lparr> ShouldHandleInBlock := True, IncreaseOrDecrease := 2 \<rparr>
                in case GetAddr2ShardMap ShardNum clt addr of
                     None \<Rightarrow> (HandlerPanic, [], m1)
                   | Some sid \<Rightarrow>
                       (OK_msg ''Done!'',
                        [SendInject ''injectHead'' \<lparr> Txs = [tx, tx_2], ToShardID = sid \<rparr> (sid, 0)], m1))))"

definition queryrate_endpoint :: "ammModel \<Rightarrow> string \<Rightarrow> string \<Rightarrow> string \<Rightarrow> http_reply" where
  "queryrate_endpoint m token tx_type_from tx_type_to =
     (case check_swap token tx_type_from tx_type_to of
        Inl r \<Rightarrow> r
      | Inr tokenInt \<Rightarrow>
          (case amm_quote m tx_type_from tokenInt of
             None \<Rightarrow> HandlerPanic
           | Some given_money \<Rightarrow> OK_rate given_money (of_int given_money / of_int tokenInt)))"

text \<open>\<open>/transaction\<close>: the same message is dialled to the shard of the sender and to the shard of the
  recipient; its \<open>ToShardID\<close> is the sender's.\<close>

definition transaction_endpoint ::
  "(Transaction \<Rightarrow> bytes) \<Rightarrow> nat \<Rightarrow> Client \<Rightarrow> string \<Rightarrow> string \<Rightarrow> string \<Rightarrow> string \<Rightarrow> http_reply \<times> send list" where
  "transaction_endpoint H ShardNum clt from_addr to_addr token tx_type =
     (if from_addr = [] then (BadRequest ''From Address is required'', [])
      else if to_addr = [] then (BadRequest ''To Address is required'', [])
      else if tx_type = [] then (BadRequest ''Type is required'', [])
      else if tx_type \<notin> set Transaction_Types then (BadRequest ''Invalid Tx From Type'', [])
      else case SetString10 token of
        None \<Rightarrow> (OK_error ''Amount is invalid!'', [])
      | Some tokenInt \<Rightarrow>
          if tokenInt \<le> 0 then (OK_error ''Amount is invalid!'', [])
          else
            let tx = (NewTransaction H from_addr to_addr tokenInt 123 0 tx_type)\<lparr> ShouldHandleInBlock := True \<rparr>
            in case GetAddr2ShardMap ShardNum clt from_addr of
                 None \<Rightarrow> (HandlerPanic, [])
               | Some sid1 \<Rightarrow>
                   let msg = \<lparr> Txs = [tx], ToShardID = sid1 \<rparr>;
                       s1 = SendInject ''injectHead'' msg (sid1, 0)
                   in case GetAddr2ShardMap ShardNum clt to_addr of
                        None \<Rightarrow> (HandlerPanic, [s1])
                      | Some sid2 \<Rightarrow> (OK_msg ''Done!'', [s1, SendInject ''injectHead'' msg (sid2, 0)]))"

section \<open>Invariant of the market maker\<close>

text \<open>The reserves are not negative and their product is the constant up to integer division.\<close>

definition amm_inv :: "ammModel \<Rightarrow> bool" where
  "amm_inv m \<longleftrightarrow> 0 \<le> bkc m \<and> 0 \<le> badge m \<and> 0 < constant_val m \<and>
     bkc m * badge m \<le> constant_val m \<and> constant_val m < (bkc m + 1) * (badge m + 1)"

lemma amm_inv_initial: "amm_inv initial_amm"
  by (simp add: amm_inv_def initial_amm_def)

lemma div_bounds:
  fixes k b :: int
  assumes "0 < k" "0 < b"
  shows "0 \<le> k div b" "b * (k div b) \<le> k" "k < (b + 1) * (k div b + 1)"
proof -
  have m: "b * (k div b) + k mod b = k" "0 \<le> k mod b" "k mod b < b"
    using assms by simp_all
  show "0 \<le> k div b"
    using assms by (simp add: pos_imp_zdiv_nonneg_iff)
  moreover have "(b + 1) * (k div b + 1) = b * (k div b) + b + k div b + 1"
    by (simp add: algebra_simps)
  ultimately show "k < (b + 1) * (k div b + 1)"
    using m by linarith
  show "b * (k div b) \<le> k"
    using m by linarith
qed

lemma rest_le_reserve:
  fixes k :: int
  assumes "0 < k" "k < (x + 1) * (y + 1)" "0 \<le> x" "0 \<le> y" "0 < t"
  shows "k div (x + t) \<le> y"
proof -
  have "(x + 1) * (y + 1) \<le> (x + t) * (y + 1)"
    using assms by (intro mult_right_mono) auto
  with assms have "k < (x + t) * (y + 1)"
    by linarith
  moreover have "(x + t) * (k div (x + t)) \<le> k"
    using div_bounds [of k "x + t"] assms by linarith
  ultimately have "(x + t) * (k div (x + t)) < (x + t) * (y + 1)"
    by linarith
  then show ?thesis
    using assms by (simp add: mult_less_cancel_left)
qed

lemma check_swap_Inr:
  "check_swap token f t = Inr n \<Longrightarrow>
     0 < n \<and> (f = ''BKC'' \<or> f = ''Badge'') \<and> (t = ''BKC'' \<or> t = ''Badge'') \<and> SetString10 token = Some n"
  by (auto simp: check_swap_def Transaction_Types_def split: if_splits option.splits)

lemma amm_exchange_BKC:
  assumes "amm_inv m" "0 < n"
  shows "amm_exchange m ''BKC'' n =
    (Some (badge m - constant_val m div (bkc m + n)),
     m\<lparr> bkc := bkc m + n, badge := constant_val m div (bkc m + n) \<rparr>)"
  using assms by (simp add: amm_exchange_def amm_inv_def Let_def)

lemma amm_exchange_Badge:
  assumes "amm_inv m" "0 < n"
  shows "amm_exchange m ''Badge'' n =
    (Some (badge m + n - constant_val m div (badge m + n)),
     m\<lparr> badge := badge m + n, bkc := constant_val m div (badge m + n) \<rparr>)"
  using assms by (simp add: amm_exchange_def amm_inv_def Let_def)

lemma amm_quote_BKC:
  "amm_inv m \<Longrightarrow> 0 < n \<Longrightarrow> amm_quote m ''BKC'' n = Some (badge m - constant_val m div (bkc m + n))"
  by (simp add: amm_quote_def amm_inv_def)

lemma amm_quote_Badge:
  "amm_inv m \<Longrightarrow> 0 < n \<Longrightarrow> amm_quote m ''Badge'' n = Some (bkc m - constant_val m div (badge m + n))"
  by (simp add: amm_quote_def amm_inv_def)

lemma amm_exchange_inv:
  assumes "amm_inv m" "0 < n" "f = ''BKC'' \<or> f = ''Badge''" "amm_exchange m f n = (r, m')"
  shows "amm_inv m'"
proof -
  have pos: "0 < constant_val m" "0 < bkc m + n" "0 < badge m + n"
    using assms(1,2) by (auto simp: amm_inv_def)
  show ?thesis
    using assms(3)
  proof
    assume f: "f = ''BKC''"
    have "m' = m\<lparr> bkc := bkc m + n, badge := constant_val m div (bkc m + n) \<rparr>"
      using assms(4) amm_exchange_BKC [OF assms(1,2)] by (simp add: f)
    then show ?thesis
      using pos div_bounds [OF pos(1,2)] by (simp add: amm_inv_def)
  next
    assume f: "f = ''Badge''"
    have "m' = m\<lparr> badge := badge m + n, bkc := constant_val m div (badge m + n) \<rparr>"
      using assms(4) amm_exchange_Badge [OF assms(1,2)] by (simp add: f)
    then show ?thesis
      using pos div_bounds [OF pos(1,3)] by (simp add: amm_inv_def mult.commute)
  qed
qed

lemma amm_moves:
  "0 < n \<Longrightarrow> m\<lparr> bkc := bkc m + n, badge := x \<rparr> \<noteq> m"
  "0 < n \<Longrightarrow> m\<lparr> badge := badge m + n, bkc := x \<rparr> \<noteq> m"
  by (cases m; simp)+

section \<open>Runs of requests\<close>

record swap_request =
  rq_addr :: string
  rq_token :: string
  rq_from :: string
  rq_to :: string

definition exchange_step ::
  "(Transaction \<Rightarrow> bytes) \<Rightarrow> nat \<Rightarrow> Client \<Rightarrow> swap_request \<Rightarrow> ammModel \<Rightarrow> (http_reply \<times> send list) \<times> ammModel" where
  "exchange_step H ShardNum clt rq m =
     (let (r, s, m') = exchange_endpoint H ShardNum clt m (rq_addr rq) (rq_token rq) (rq_from rq) (rq_to rq)
      in ((r, s), m'))"

lemma exchange_endpoint_inv:
  assumes "amm_inv m" "exchange_endpoint H ShardNum clt m addr token f t = (r, s, m')"
  shows "amm_inv m'"
proof (cases "check_swap token f t")
  case (Inr n)
  note ok = check_swap_Inr [OF Inr]
  obtain g m1 where ex: "amm_exchange m f n = (g, m1)"
    by (cases "amm_exchange m f n")
  then have "m' = m \<or> m' = m1"
    using assms(2) Inr
    by (auto simp: exchange_endpoint_def Let_def split: if_splits option.splits)
  then show ?thesis
    using assms(1) amm_exchange_inv [OF assms(1) _ _ ex] ok by blast
qed (use assms in \<open>auto simp: exchange_endpoint_def split: if_splits\<close>)

interpretation exch: invariant_step "exchange_step H ShardNum clt" amm_inv "\<lambda>rq. True"
  for H ShardNum clt
  by unfold_locales
     (auto simp: exchange_step_def split: prod.splits dest: exchange_endpoint_inv)

section \<open>Properties\<close>

text \<open>C1: whatever sequence of \<open>/exchange\<close> requests the supervisor receives (well-formed or not),
  starting from the reserves it is created with, the market maker keeps its invariant: both
  reserves stay non-negative and their product stays equal to the constant up to the rounding
  of one integer division, so no later swap divides by zero.\<close>
theorem exchange_run_invariant:
  assumes "run_ops (exchange_step H ShardNum clt) rqs initial_amm = (replies, m)"
  shows "amm_inv m \<and> (\<forall>n f. 0 < n \<and> f \<in> set Transaction_Types \<longrightarrow>
           (\<exists>g m'. amm_exchange m f n = (Some g, m')) \<and> (\<exists>g. amm_quote m f n = Some g))"
proof -
  have "amm_inv m"
    using exch.run_keeps [OF amm_inv_initial _ assms] by (simp add: list_all_iff)
  then show ?thesis
    by (auto simp: Transaction_Types_def amm_exchange_BKC amm_exchange_Badge amm_quote_BKC amm_quote_Badge)
qed

theorem exchange_run_invariant_witness:
  "\<exists>replies m. run_ops (exchange_step (\<lambda>tx. []) 4 \<lparr> addr2ShardMap = [''x'' \<mapsto> 1] \<rparr>)
       [\<lparr> rq_addr = ''x'', rq_token = ''25'', rq_from = ''BKC'', rq_to = ''Badge'' \<rparr>] initial_amm = (replies, m) \<and> amm_inv m"
proof -
  let ?run = "run_ops (exchange_step (\<lambda>tx. []) 4 \<lparr> addr2ShardMap = [''x'' \<mapsto> 1] \<rparr>)
       [\<lparr> rq_addr = ''x'', rq_token = ''25'', rq_from = ''BKC'', rq_to = ''Badge'' \<rparr>] initial_amm"
  obtain replies m where r: "?run = (replies, m)"
    by (cases ?run)
  with exchange_run_invariant [OF r] show ?thesis
    by blast
qed



text \<open>C11: selling Badge is not settled as quoted. The payout is computed from the Badge reserve
  instead of the BKC reserve, so it differs from the quote by \<open>badge + n - bkc\<close>; the two agree
  only when the sale makes the Badge reserve equal to the old BKC reserve. The BKC reserve
  itself is updated correctly, so the difference is created or destroyed.\<close>
theorem Badge_exchange_differs_from_quote:
  assumes "amm_inv m" "0 < n"
  shows "\<exists>given quoted m'. amm_exchange m ''Badge'' n = (Some given, m') \<and> amm_quote m ''Badge'' n = Some quoted \<and>
           0 \<le> quoted \<and> bkc m' + quoted = bkc m \<and> badge m' = badge m + n \<and>
           given = quoted + (badge m + n - bkc m) \<and> (given = quoted \<longleftrightarrow> badge m + n = bkc m)"
proof -
  have "constant_val m div (badge m + n) \<le> bkc m"
    using assms rest_le_reserve [of "constant_val m" "badge m" "bkc m" n] by (auto simp: amm_inv_def mult.commute)
  then show ?thesis
    using assms by (simp add: amm_exchange_Badge amm_quote_Badge)
qed

theorem Badge_exchange_differs_from_quote_witness:
  "\<exists>given quoted m'. amm_exchange initial_amm ''Badge'' 1000 = (Some given, m') \<and>
      amm_quote initial_amm ''Badge'' 1000 = Some quoted \<and> given = quoted + 1000"
  using Badge_exchange_differs_from_quote [OF amm_inv_initial, of 1000] by (auto simp: initial_amm_def)

text \<open>C19: the quotes admit no gain from a round trip. After \<open>n\<close> BKC have been sold for \<open>g > 0\<close> Badge,
  the amount \<open>/queryrate\<close> announces for selling those \<open>g\<close> Badge back is at most \<open>n\<close>.\<close>
theorem quote_round_trip_no_gain:
  assumes "amm_inv m" "0 < n" "0 < badge m" "amm_exchange m ''BKC'' n = (Some g, m1)" "0 < g"
  shows "\<exists>b. amm_quote m1 ''Badge'' g = Some b \<and> b \<le> n"
proof -
  have m1: "m1 = m\<lparr> bkc := bkc m + n, badge := constant_val m div (bkc m + n) \<rparr>"
    and g: "g = badge m - constant_val m div (bkc m + n)"
    using assms(4) amm_exchange_BKC [OF assms(1,2)] by auto
  have "amm_inv m1"
    using amm_exchange_inv [OF assms(1,2) _ assms(4)] by simp
  then have "amm_quote m1 ''Badge'' g = Some (bkc m + n - constant_val m div badge m)"
    using assms(5) by (simp add: amm_quote_Badge m1 g)
  moreover have "bkc m \<le> constant_val m div badge m"
    using assms(1,3) div_bounds(2) by (simp add: amm_inv_def zdiv_mono1 [of "bkc m * badge m" "constant_val m" "badge m", simplified])
  ultimately show ?thesis
    by simp
qed

theorem quote_round_trip_no_gain_witness:
  "\<exists>g m1 b. amm_exchange initial_amm ''BKC'' 10000000 = (Some g, m1) \<and>
     amm_quote m1 ''Badge'' g = Some b \<and> b \<le> 10000000"
proof -
  have ex: "amm_exchange initial_amm ''BKC'' 10000000 =
      (Some 5000000, initial_amm\<lparr> bkc := 20000000, badge := 5000000 \<rparr>)"
    by (simp add: amm_exchange_BKC [OF amm_inv_initial]) (simp add: initial_amm_def)
  show ?thesis
    using quote_round_trip_no_gain [OF amm_inv_initial _ _ ex] ex by (auto simp: initial_amm_def)
qed



text \<open>the transfer endpoint sends only well-formed transfers. Whatever the query parameters, every
  message it dials carries exactly one transaction, with the requested sender and recipient, a
  strictly positive amount and a known coin; it goes to a leader; and a reply \<open>Done!\<close> means that
  one copy went to the sender's shard and one to the recipient's.\<close>
theorem transaction_endpoint_sound:
  "case transaction_endpoint H ShardNum clt from_addr to_addr token tx_type of (r, sends) \<Rightarrow>
     list_all (\<lambda>s. case s of SendInject ty msg (sid, node) \<Rightarrow>
        ty = ''injectHead'' \<and> node = 0 \<and>
        (\<exists>tx. Txs msg = [tx] \<and> Sender tx = from_addr \<and> Recipient tx = to_addr \<and> 0 < Value tx \<and>
              SetString10 token = Some (Value tx) \<and> Txtype tx = tx_type \<and> tx_type \<in> set Transaction_Types \<and>
              ShouldHandleInBlock tx \<and> IncreaseOrDecrease tx = 0)) sends \<and>
     (r = OK_msg ''Done!'' \<longleftrightarrow> length sends = 2) \<and>
     (r = OK_msg ''Done!'' \<longrightarrow> map (\<lambda>s. case s of SendInject ty msg dest \<Rightarrow> Some (fst dest)) sends =
        [GetAddr2ShardMap ShardNum clt from_addr, GetAddr2ShardMap ShardNum clt to_addr])"
  by (auto simp: transaction_endpoint_def Let_def NewTransaction_def zeroTransaction_def split: if_splits option.splits)

theorem transaction_endpoint_sound_witness:
  "\<exists>sends. transaction_endpoint (\<lambda>tx. []) 4 \<lparr> addr2ShardMap = [''a'' \<mapsto> 1, ''b'' \<mapsto> 2] \<rparr> ''a'' ''b'' ''3'' ''BKC'' =
     (OK_msg ''Done!'', sends) \<and> length sends = 2"
proof -
  let ?e = "transaction_endpoint (\<lambda>tx. []) 4 \<lparr> addr2ShardMap = [''a'' \<mapsto> 1, ''b'' \<mapsto> 2] \<rparr> ''a'' ''b'' ''3'' ''BKC''"
  obtain sends where e: "?e = (OK_msg ''Done!'', sends)"
    by (simp add: transaction_endpoint_def Transaction_Types_def SetString10_def GetAddr2ShardMap_def Let_def)
  have "length sends = 2"
    using transaction_endpoint_sound [where H = "\<lambda>tx. []" and ShardNum = 4
        and clt = "\<lparr> addr2ShardMap = [''a'' \<mapsto> 1, ''b'' \<mapsto> 2] \<rparr>" and from_addr = "''a''"
        and to_addr = "''b''" and token = "''3''" and tx_type = "''BKC''"]
    unfolding e by auto
  with e show ?thesis
    by blast
qed

end
