(* ===== verification/Broker.thy ===== *)
theory Broker
  imports Exchange
begin

text \<open>
  The broker accounts of \<open>broker/broker.go\<close> and the two staking endpoints of
  \<open>supervisor/server.go\<close>. Balances are kept per coin, broker and shard; a nil inner map is
  \<open>None\<close>, and an arithmetic method called on a missing entry is the panic of a nil pointer.
  Profits, \<open>big.Float\<close> in the program, are exact rationals.
\<close>

section \<open>Per-shard balances\<close>

type_synonym 'v shard_map = "nat \<rightharpoonup> 'v"
type_synonym ShardBalanceInt = "string \<rightharpoonup> int shard_map"
type_synonym ShardBalanceFloat = "string \<rightharpoonup> rat shard_map"

definition cell :: "(string \<rightharpoonup> 'v shard_map) \<Rightarrow> string \<Rightarrow> nat \<Rightarrow> 'v panics" where
  "cell b addr sid = (case b addr of None \<Rightarrow> panic | Some m \<Rightarrow> m sid)"

definition cell_add :: "(string \<rightharpoonup> ('v::plus) shard_map) \<Rightarrow> string \<Rightarrow> nat \<Rightarrow> 'v \<Rightarrow> (string \<rightharpoonup> 'v shard_map) panics" where
  "cell_add b addr sid v =
     (case b addr of
        None \<Rightarrow> panic
      | Some m \<Rightarrow> (case m sid of None \<Rightarrow> panic | Some x \<Rightarrow> Some (b(addr \<mapsto> m(sid \<mapsto> x + v)))))"

text \<open>The loop \<open>for sid := 0; sid < ShardNum; sid++\<close> that fills a fresh inner map.\<close>

fun fill_shards :: "nat \<Rightarrow> 'v \<Rightarrow> 'v shard_map" where
  "fill_shards 0 v = Map.empty"
| "fill_shards (Suc n) v = (fill_shards n v)(n \<mapsto> v)"

section \<open>Brokers (broker.go)\<close>

record BrokerRawMeg =
  TxPtr :: nat
  Tx :: Transaction
  RawBroker :: Address

record Broker =
  BrokerRawMegs :: "bytes \<rightharpoonup> BrokerRawMeg"
  BrokerAddress :: "string list"
  BrokerBalance :: "string \<Rightarrow> ShardBalanceInt"
  LockBalance :: "string \<Rightarrow> ShardBalanceInt"
  ProfitBalance :: "string \<Rightarrow> ShardBalanceFloat"
  RawTx2BrokerTx :: "bytes \<Rightarrow> bytes list"
  Brokerage :: rat

text \<open>\<open>initBrokerAddr\<close> on the lines of the broker file: the loop stops when the counter, decremented
  after each line, reaches zero.\<close>

fun initBrokerAddr :: "string list \<Rightarrow> int \<Rightarrow> string list" where
  "initBrokerAddr [] num = []"
| "initBrokerAddr (l # ls) num = l # (if num - 1 = 0 then [] else initBrokerAddr ls (num - 1))"

fun init_balance_from :: "nat \<Rightarrow> 'v \<Rightarrow> string list \<Rightarrow> (string \<rightharpoonup> 'v shard_map) \<Rightarrow> (string \<rightharpoonup> 'v shard_map)" where
  "init_balance_from ShardNum balance [] m = m"
| "init_balance_from ShardNum balance (a # as) m =
     init_balance_from ShardNum balance as (m(a \<mapsto> fill_shards ShardNum balance))"

definition initBrokerBalance :: "nat \<Rightarrow> string list \<Rightarrow> 'v \<Rightarrow> (string \<rightharpoonup> 'v shard_map)" where
  "initBrokerBalance ShardNum addrs balance = init_balance_from ShardNum balance addrs Map.empty"

definition Init_broker_Balance :: int where
  "Init_broker_Balance = 10000"

definition NewBroker :: "nat \<Rightarrow> string list \<Rightarrow> int \<Rightarrow> Broker" where
  "NewBroker ShardNum file_lines BrokerNum =
     (let addrs = initBrokerAddr file_lines BrokerNum in
      \<lparr> BrokerRawMegs = Map.empty, BrokerAddress = addrs,
        BrokerBalance = (\<lambda>ty. if ty \<in> set Transaction_Types then initBrokerBalance ShardNum addrs Init_broker_Balance else Map.empty),
        LockBalance = (\<lambda>ty. if ty \<in> set Transaction_Types then initBrokerBalance ShardNum addrs 0 else Map.empty),
        ProfitBalance = (\<lambda>ty. if ty \<in> set Transaction_Types then initBrokerBalance ShardNum addrs 0 else Map.empty),
        RawTx2BrokerTx = (\<lambda>h. []), Brokerage = 1 / 10 \<rparr>)"

fun is_broker_in :: "string list \<Rightarrow> string \<Rightarrow> bool" where
  "is_broker_in [] address = False"
| "is_broker_in (b # bs) address = (if b = address then True else is_broker_in bs address)"

definition IsBroker :: "Broker \<Rightarrow> string \<Rightarrow> bool" where
  "IsBroker b address = is_broker_in (BrokerAddress b) address"

fun removeElement :: "string list \<Rightarrow> string \<Rightarrow> string list" where
  "removeElement [] x = []"
| "removeElement (v # vs) x = (if v = x then vs else v # removeElement vs x)"

section \<open>Staking endpoints (server.go)\<close>

text \<open>\<open>/applybroker\<close>. The deduction is dialled to the account's shard before the stake per shard and
  the broker's status are examined.\<close>

definition applybroker_endpoint ::
  "(Transaction \<Rightarrow> bytes) \<Rightarrow> nat \<Rightarrow> Client \<Rightarrow> Broker \<Rightarrow> string \<Rightarrow> string \<Rightarrow> string
     \<Rightarrow> http_reply \<times> send list \<times> Broker" where
  "applybroker_endpoint H ShardNum clt b addr token tx_type =
     (if addr = [] then (BadRequest ''Address is required'', [], b)
      else if tx_type = [] then (BadRequest ''Type is required'', [], b)
      else if tx_type \<notin> set Transaction_Types then (BadRequest ''Invalid Tx Type'', [], b)
      else if token = [] then (BadRequest ''Amount is required'', [], b)
      else case SetString10 token of
        None \<Rightarrow> (OK_error ''Amount is invalid!'', [], b)
      | Some tokenInt \<Rightarrow>
          if tokenInt \<le> 0 then (OK_error ''Amount is invalid!'', [], b)
          else case GetAddr2ShardMap ShardNum clt addr of
            None \<Rightarrow> (HandlerPanic, [], b)
          | Some home \<Rightarrow>
              let tx = (NewTransaction H addr addr \<bar>tokenInt\<bar> 123 0 tx_type)
                         \<lparr> ShouldHandleInBlock := True, IncreaseOrDecrease := 1 \<rparr>;
                  sends = [SendInject ''injectHead'' \<lparr> Txs = [tx], ToShardID = home \<rparr> (home, 0)]
              in if ShardNum = 0 then (HandlerPanic, sends, b)
                 else
                   let balancepershard = tokenInt div int ShardNum in
                   if balancepershard = 0 then (OK_error ''Please stake more tokens'', sends, b)
                   else if IsBroker b addr then (OK_msg ''Already Broker'', sends, b)
                   else
                     (OK_msg ''applied'', sends,
                      b\<lparr> BrokerAddress := addr # BrokerAddress b,
                         BrokerBalance := (BrokerBalance b)(tx_type := (BrokerBalance b tx_type)(addr \<mapsto> fill_shards ShardNum balancepershard)),
                         LockBalance := (LockBalance b)(tx_type := (LockBalance b tx_type)(addr \<mapsto> fill_shards ShardNum 0)),
                         ProfitBalance := (ProfitBalance b)(tx_type := (ProfitBalance b tx_type)(addr \<mapsto> fill_shards ShardNum 0)) \<rparr>))"

text \<open>\<open>/withdrawbroker\<close>. For each coin the broker has balances in, the three sums over the shards; a
  missing entry is a nil pointer. \<open>uint64(pf)\<close> truncates; \<open>profitUint64\<close> is not reset between
  coins. A panic inside the loop leaves the deletions and messages of the earlier coins.\<close>

fun sum_shards :: "nat \<Rightarrow> 'v shard_map option \<Rightarrow> ('v::{plus,zero}) \<Rightarrow> 'v panics" where
  "sum_shards 0 m acc = Some acc"
| "sum_shards (Suc n) m acc =
     do { s \<leftarrow> sum_shards n m acc; mm \<leftarrow> m; x \<leftarrow> mm n; Some (x + s) }"

definition broker_worth :: "nat \<Rightarrow> Broker \<Rightarrow> string \<Rightarrow> string \<Rightarrow> rat panics" where
  "broker_worth ShardNum b ty addr =
     do { s1 \<leftarrow> sum_shards ShardNum (map_option (\<lambda>m sid. map_option rat_of_int (m sid)) (BrokerBalance b ty addr)) 0;
          s2 \<leftarrow> sum_shards ShardNum (map_option (\<lambda>m sid. map_option rat_of_int (m sid)) (LockBalance b ty addr)) s1;
          sum_shards ShardNum (ProfitBalance b ty addr) s2 }"

fun withdraw_types ::
  "(Transaction \<Rightarrow> bytes) \<Rightarrow> nat \<Rightarrow> Client \<Rightarrow> string \<Rightarrow> string list \<Rightarrow> uint64 \<Rightarrow> send list \<Rightarrow> Broker
     \<Rightarrow> bool \<times> uint64 \<times> send list \<times> Broker" where
  "withdraw_types H ShardNum clt addr [] acc sends b = (True, acc, sends, b)"
| "withdraw_types H ShardNum clt addr (ty # tys) acc sends b =
     (if BrokerBalance b ty addr = None then withdraw_types H ShardNum clt addr tys acc sends b
      else case broker_worth ShardNum b ty addr of
        None \<Rightarrow> (False, acc, sends, b)
      | Some profit \<Rightarrow>
          (let acc1 = acc + word_of_int \<lfloor>profit\<rfloor>;
               tx = (NewTransaction H addr addr (uint acc1) 123 0 ty)
                      \<lparr> ShouldHandleInBlock := True, IncreaseOrDecrease := 2 \<rparr>
           in case GetAddr2ShardMap ShardNum clt addr of
                None \<Rightarrow> (False, acc1, sends, b)
              | Some home \<Rightarrow>
                  withdraw_types H ShardNum clt addr tys acc1
                    (sends @ [SendInject ''injectHead'' \<lparr> Txs = [tx], ToShardID = home \<rparr> (home, 0)])
                    (b\<lparr> BrokerBalance := (BrokerBalance b)(ty := (BrokerBalance b ty)(addr := None)),
                        LockBalance := (LockBalance b)(ty := (LockBalance b ty)(addr := None)),
                        ProfitBalance := (ProfitBalance b)(ty := (ProfitBalance b ty)(addr := None)) \<rparr>)))"

definition withdrawbroker_endpoint ::
  "(Transaction \<Rightarrow> bytes) \<Rightarrow> nat \<Rightarrow> Client \<Rightarrow> Broker \<Rightarrow> string \<Rightarrow> http_reply \<times> send list \<times> Broker" where
  "withdrawbroker_endpoint H ShardNum clt b addr =
     (if addr = [] then (BadRequest ''Address is required'', [], b)
      else if \<not> IsBroker b addr then (OK_error ''not a broker,cannot invoke withdrawbroker!'', [], b)
      else case withdraw_types H ShardNum clt addr Transaction_Types 0 [] b of
             (ok, acc, sends, b1) \<Rightarrow>
               if ok then (OK_msg ''Successfully withdraw'', sends, b1\<lparr> BrokerAddress := removeElement (BrokerAddress b1) addr \<rparr>)
               else (HandlerPanic, sends, b1))"

section \<open>Lemmas\<close>

lemma IsBroker_iff [simp]: "IsBroker b a \<longleftrightarrow> a \<in> set (BrokerAddress b)"
proof -
  have "is_broker_in xs a \<longleftrightarrow> a \<in> set xs" for xs
    by (induction xs a rule: is_broker_in.induct) auto
  then show ?thesis
    by (simp add: IsBroker_def)
qed

lemma fill_shards_apply: "fill_shards n v sid = (if sid < n then Some v else None)"
  by (induction n) auto

lemma init_balance_from_apply:
  "init_balance_from n v as m x = (if x \<in> set as then Some (fill_shards n v) else m x)"
  by (induction as arbitrary: m) auto

lemma initBrokerBalance_apply:
  "initBrokerBalance n as v x = (if x \<in> set as then Some (fill_shards n v) else None)"
  by (simp add: initBrokerBalance_def init_balance_from_apply)

lemma sum_shards_fill_int:
  fixes v :: int and acc :: rat
  assumes "k \<le> n"
  shows "sum_shards k (Some (\<lambda>sid. map_option rat_of_int (fill_shards n v sid))) acc = Some (of_nat k * rat_of_int v + acc)"
  using assms by (induction k) (auto simp: fill_shards_apply algebra_simps)

lemma sum_shards_fill_rat:
  fixes v acc :: rat
  assumes "k \<le> n"
  shows "sum_shards k (Some (fill_shards n v)) acc = Some (of_nat k * v + acc)"
  using assms by (induction k) (auto simp: fill_shards_apply algebra_simps)

lemma broker_worth_fresh:
  assumes "BrokerBalance b ty a = Some (fill_shards n v)" "LockBalance b ty a = Some (fill_shards n 0)"
    "ProfitBalance b ty a = Some (fill_shards n 0)"
  shows "broker_worth n b ty a = Some (of_nat n * rat_of_int v)"
  using assms by (simp add: broker_worth_def sum_shards_fill_int sum_shards_fill_rat)

lemma broker_worth_cong:
  "BrokerBalance b ty a = BrokerBalance b' ty a \<Longrightarrow> LockBalance b ty a = LockBalance b' ty a \<Longrightarrow>
   ProfitBalance b ty a = ProfitBalance b' ty a \<Longrightarrow> broker_worth n b ty a = broker_worth n b' ty a"
  by (simp add: broker_worth_def)

definition unknown_broker :: "Broker \<Rightarrow> string \<Rightarrow> bool" where
  "unknown_broker b addr \<longleftrightarrow> addr \<notin> set (BrokerAddress b) \<and>
     (\<forall>ty. BrokerBalance b ty addr = None \<and> LockBalance b ty addr = None \<and> ProfitBalance b ty addr = None)"

lemma fun_upd_None_id: "m a = None \<Longrightarrow> m(a := None) = m"
  by auto

lemma removeElement_head [simp]: "removeElement (a # as) a = as"
  by simp

lemma removeElement_mset:
  "x \<in> set xs \<Longrightarrow> mset (removeElement xs x) = mset xs - {#x#}"
  by (induction xs) auto

text \<open>The state of the registry after a successful application.\<close>

definition staked :: "nat \<Rightarrow> Broker \<Rightarrow> string \<Rightarrow> string \<Rightarrow> int \<Rightarrow> Broker" where
  "staked n b addr ty v =
     b\<lparr> BrokerAddress := addr # BrokerAddress b,
        BrokerBalance := (BrokerBalance b)(ty := (BrokerBalance b ty)(addr \<mapsto> fill_shards n v)),
        LockBalance := (LockBalance b)(ty := (LockBalance b ty)(addr \<mapsto> fill_shards n 0)),
        ProfitBalance := (ProfitBalance b)(ty := (ProfitBalance b ty)(addr \<mapsto> fill_shards n 0)) \<rparr>"

definition one_tx :: "nat \<Rightarrow> Transaction \<Rightarrow> send list" where
  "one_tx home tx = [SendInject ''injectHead'' \<lparr> Txs = [tx], ToShardID = home \<rparr> (home, 0)]"

lemma applybroker_accepted:
  assumes "addr \<noteq> []" "ty \<in> set Transaction_Types" "SetString10 token = Some v" "0 < v"
    "GetAddr2ShardMap n clt addr = Some home" "0 < n"
  shows "\<exists>tx. Sender tx = addr \<and> Value tx = v \<and> Txtype tx = ty \<and> IncreaseOrDecrease tx = 1 \<and>
     applybroker_endpoint H n clt b addr token ty =
       (if v div int n = 0 then (OK_error ''Please stake more tokens'', one_tx home tx, b)
        else if addr \<in> set (BrokerAddress b) then (OK_msg ''Already Broker'', one_tx home tx, b)
        else (OK_msg ''applied'', one_tx home tx, staked n b addr ty (v div int n)))"
proof -
  have ne: "ty \<noteq> []" "token \<noteq> []"
    using assms by (auto simp: Transaction_Types_def SetString10_def)
  let ?tx = "(NewTransaction H addr addr v 123 0 ty)\<lparr> ShouldHandleInBlock := True, IncreaseOrDecrease := 1 \<rparr>"
  show ?thesis
    using assms ne
    by (intro exI [of _ ?tx])
       (simp add: applybroker_endpoint_def staked_def one_tx_def Let_def NewTransaction_def zeroTransaction_def)
qed



definition payout_tx :: "(Transaction \<Rightarrow> bytes) \<Rightarrow> string \<Rightarrow> uint64 \<Rightarrow> string \<Rightarrow> Transaction" where
  "payout_tx H addr acc ty =
     (NewTransaction H addr addr (uint acc) 123 0 ty)\<lparr> ShouldHandleInBlock := True, IncreaseOrDecrease := 2 \<rparr>"

lemma payout_tx_fields:
  "Sender (payout_tx H a x ty) = a" "Recipient (payout_tx H a x ty) = a" "Txtype (payout_tx H a x ty) = ty"
  "IncreaseOrDecrease (payout_tx H a x ty) = 2" "Value (payout_tx H a (word_of_int k) ty) = k mod 2 ^ 64"
  by (simp_all add: payout_tx_def NewTransaction_def zeroTransaction_def Let_def uint_word_of_int)

definition forget_coin :: "Broker \<Rightarrow> string \<Rightarrow> string \<Rightarrow> Broker" where
  "forget_coin b ty addr =
     b\<lparr> BrokerBalance := (BrokerBalance b)(ty := (BrokerBalance b ty)(addr := None)),
        LockBalance := (LockBalance b)(ty := (LockBalance b ty)(addr := None)),
        ProfitBalance := (ProfitBalance b)(ty := (ProfitBalance b ty)(addr := None)) \<rparr>"

lemma withdraw_types_pay:
  assumes "BrokerBalance b ty addr \<noteq> None" "broker_worth n b ty addr = Some w"
    "GetAddr2ShardMap n clt addr = Some home"
  shows "withdraw_types H n clt addr (ty # tys) acc sends b =
     withdraw_types H n clt addr tys (acc + word_of_int \<lfloor>w\<rfloor>)
       (sends @ one_tx home (payout_tx H addr (acc + word_of_int \<lfloor>w\<rfloor>) ty)) (forget_coin b ty addr)"
  using assms by (auto simp: payout_tx_def one_tx_def forget_coin_def Let_def)

lemma withdraw_types_skip:
  "BrokerBalance b ty addr = None \<Longrightarrow>
     withdraw_types H n clt addr (ty # tys) acc sends b = withdraw_types H n clt addr tys acc sends b"
  by simp

lemma forget_staked:
  assumes "unknown_broker b addr"
  shows "(forget_coin (staked n b addr ty v) ty addr)\<lparr> BrokerAddress := BrokerAddress b \<rparr> = b"
  using assms by (simp add: forget_coin_def staked_def unknown_broker_def fun_upd_None_id)

lemma withdraw_staked:
  assumes "unknown_broker b addr" "ty \<in> set Transaction_Types" "GetAddr2ShardMap n clt addr = Some home"
    and "addr \<noteq> []"
  shows "withdrawbroker_endpoint H n clt (staked n b addr ty v) addr =
    (OK_msg ''Successfully withdraw'', one_tx home (payout_tx H addr (word_of_int (int n * v)) ty), b)"
proof -
  let ?b = "staked n b addr ty v"
  have worth: "broker_worth n ?b ty addr = Some (of_nat n * rat_of_int v)"
    by (rule broker_worth_fresh) (simp_all add: staked_def)
  have fl: "\<lfloor>rat_of_nat n * rat_of_int v\<rfloor> = int n * v"
    by (metis floor_of_int of_int_mult of_int_of_nat_eq)
  have here: "BrokerBalance ?b ty addr \<noteq> None"
    by (simp add: staked_def)
  have other: "BrokerBalance ?b ty' addr = None" "BrokerBalance (forget_coin ?b ty addr) ty' addr = None" if "ty' \<noteq> ty" for ty'
    using assms(1) that by (auto simp: staked_def forget_coin_def unknown_broker_def)
  have loop: "withdraw_types H n clt addr Transaction_Types 0 [] ?b =
      (True, word_of_int (int n * v), one_tx home (payout_tx H addr (word_of_int (int n * v)) ty), forget_coin ?b ty addr)"
    using assms(2) withdraw_types_pay [OF here worth assms(3)] other
    by (auto simp: Transaction_Types_def withdraw_types_skip fl simp del: withdraw_types.simps(2))
  have "BrokerAddress (forget_coin ?b ty addr) = addr # BrokerAddress b"
    by (simp add: forget_coin_def staked_def)
  then show ?thesis
    using assms(4) loop forget_staked [OF assms(1)]
    by (simp add: withdrawbroker_endpoint_def staked_def)
qed



text \<open>a broker that holds both coins is overpaid when it withdraws. The accumulator of the payout
  is not reset between coins, so the second credit, in Badge, is the worth of the Badge position
  plus the whole BKC payout (modulo 2^64), while the first credit is the BKC worth alone.\<close>
theorem withdraw_both_coins_overpays:
  assumes "IsBroker b addr" "addr \<noteq> []" "GetAddr2ShardMap n clt addr = Some home"
    "broker_worth n b ''BKC'' addr = Some w1" "broker_worth n b ''Badge'' addr = Some w2"
    "BrokerBalance b ''BKC'' addr \<noteq> None" "BrokerBalance b ''Badge'' addr \<noteq> None"
  shows "\<exists>tx1 tx2 b'. withdrawbroker_endpoint H n clt b addr =
      (OK_msg ''Successfully withdraw'',
       [SendInject ''injectHead'' \<lparr> Txs = [tx1], ToShardID = home \<rparr> (home, 0),
        SendInject ''injectHead'' \<lparr> Txs = [tx2], ToShardID = home \<rparr> (home, 0)], b') \<and>
      Txtype tx1 = ''BKC'' \<and> Value tx1 = \<lfloor>w1\<rfloor> mod 2 ^ 64 \<and>
      Txtype tx2 = ''Badge'' \<and> Value tx2 = (\<lfloor>w1\<rfloor> + \<lfloor>w2\<rfloor>) mod 2 ^ 64"
proof -
  let ?b1 = "forget_coin b ''BKC'' addr"
  have b1: "BrokerBalance ?b1 ''Badge'' addr \<noteq> None" "broker_worth n ?b1 ''Badge'' addr = Some w2"
    using assms by (auto simp: forget_coin_def broker_worth_def)
  have "withdraw_types H n clt addr Transaction_Types 0 [] b =
     (True, word_of_int (\<lfloor>w1\<rfloor> + \<lfloor>w2\<rfloor>),
      one_tx home (payout_tx H addr (word_of_int \<lfloor>w1\<rfloor>) ''BKC'') @
      one_tx home (payout_tx H addr (word_of_int (\<lfloor>w1\<rfloor> + \<lfloor>w2\<rfloor>)) ''Badge''), forget_coin ?b1 ''Badge'' addr)"
    using withdraw_types_pay [OF assms(6,4,3)] withdraw_types_pay [OF b1 assms(3)]
    by (simp add: Transaction_Types_def del: withdraw_types.simps(2))
  then show ?thesis
    using assms(1,2)
    by (auto simp: withdrawbroker_endpoint_def one_tx_def
        intro!: exI [of _ "payout_tx H addr (word_of_int \<lfloor>w1\<rfloor>) ''BKC''"]
          exI [of _ "payout_tx H addr (word_of_int (\<lfloor>w1\<rfloor> + \<lfloor>w2\<rfloor>)) ''Badge''"]
          simp: payout_tx_fields simp del: of_int_add)
qed

theorem withdraw_both_coins_overpays_witness:
  "\<exists>tx1 tx2 b'. withdrawbroker_endpoint (\<lambda>tx. []) 4 \<lparr> addr2ShardMap = [''a'' \<mapsto> 1] \<rparr> (NewBroker 4 [''a''] 1) ''a'' =
      (OK_msg ''Successfully withdraw'',
       [SendInject ''injectHead'' \<lparr> Txs = [tx1], ToShardID = 1 \<rparr> (1, 0),
        SendInject ''injectHead'' \<lparr> Txs = [tx2], ToShardID = 1 \<rparr> (1, 0)], b') \<and>
      Value tx1 = 40000 \<and> Value tx2 = 80000"
proof -
  let ?b = "NewBroker 4 [''a''] 1"
  have w: "broker_worth 4 ?b ty ''a'' = Some (of_nat 4 * rat_of_int 10000)" if "ty \<in> set Transaction_Types" for ty
    using that by (intro broker_worth_fresh) (simp_all add: NewBroker_def initBrokerBalance_def Let_def Init_broker_Balance_def)
  have "\<lfloor>rat_of_nat 4 * rat_of_int 10000\<rfloor> = 40000"
    by simp
  moreover have "BrokerBalance ?b ''BKC'' ''a'' \<noteq> None" "BrokerBalance ?b ''Badge'' ''a'' \<noteq> None"
    by (simp_all add: NewBroker_def initBrokerBalance_def Let_def Transaction_Types_def)
  moreover have "GetAddr2ShardMap 4 \<lparr> addr2ShardMap = [''a'' \<mapsto> 1] \<rparr> ''a'' = Some 1"
    by (simp add: GetAddr2ShardMap_def)
  moreover have "IsBroker ?b ''a''"
    by (simp add: NewBroker_def Let_def)
  ultimately show ?thesis
    using withdraw_both_coins_overpays [of ?b "''a''" 4 "\<lparr> addr2ShardMap = [''a'' \<mapsto> 1] \<rparr>" 1, OF _ _ _ w w, of "\<lambda>tx. []"]
    by (fastforce simp: Transaction_Types_def)
qed

end
