(* ===== verification/Committee.thy ===== *)
theory Committee
  imports Broker
begin

text \<open>
  The broker committee of \<open>supervisor/committee/committee_broker_b2e.go\<close>: how a cross-shard
  transaction is split into two transactions through a broker, how the broker's liquidity is
  moved between shards, locked and released, and how the confirmations of the two halves are
  followed.

  Parameters: \<open>H\<close> the digest of a transaction, \<open>D\<close> the digest of a raw message, the number of
  shards \<open>ShardNum\<close> and the batch length \<open>InjectSpeed\<close>. Where the program ranges over a Go map the
  order is an argument. Messages to shards are returned as a list.
\<close>

section \<open>State\<close>

record Mag1Confirm =
  Tx1Hash :: bytes
  RawMeg1 :: BrokerRawMeg

record Mag2Confirm =
  Tx2Hash :: bytes
  RawMeg2 :: BrokerRawMeg

record BrokerType1Meg =
  T1RawMeg :: BrokerRawMeg
  T1Broker :: Address

record BrokerType2Meg =
  T2RawMeg :: BrokerRawMeg
  T2Broker :: Address

record committee =
  nowDataNum :: nat
  CBroker :: Broker
  brokerConfirm1Pool :: "bytes \<rightharpoonup> Mag1Confirm"
  brokerConfirm2Pool :: "bytes \<rightharpoonup> Mag2Confirm"
  restBrokerRawMegPool :: "string \<Rightarrow> BrokerRawMeg list"

definition NewBrokerCommitteeMod_b2e :: "nat \<Rightarrow> string list \<Rightarrow> int \<Rightarrow> committee" where
  "NewBrokerCommitteeMod_b2e ShardNum file_lines BrokerNum =
     \<lparr> nowDataNum = 0, CBroker = NewBroker ShardNum file_lines BrokerNum,
       brokerConfirm1Pool = Map.empty, brokerConfirm2Pool = Map.empty,
       restBrokerRawMegPool = (\<lambda>ty. []) \<rparr>"

record BlockInfoMsg =
  BlockBodyLength :: int
  ExcutedTxs :: "Transaction list"
  Epoch :: int
  ProposeTime :: go_time
  CommitTime :: go_time
  SenderShardID :: nat
  Relay1TxNum :: uint64
  Relay1Txs :: "Transaction list"
  Broker1TxNum :: uint64
  Broker1Txs :: "Transaction list"
  Broker2TxNum :: uint64
  Broker2Txs :: "Transaction list"
  AllocatedTxs :: "Transaction list"

section \<open>Sending transactions to shards\<close>

text \<open>One round of messages: every shard gets the transactions collected for it.\<close>

definition flush_shards :: "nat \<Rightarrow> (nat \<Rightarrow> Transaction list) \<Rightarrow> send list" where
  "flush_shards ShardNum sendToShard =
     map (\<lambda>sid. SendInject ''inject'' \<lparr> Txs = sendToShard sid, ToShardID = sid \<rparr> (sid, 0)) [0..<ShardNum]"

definition target_shard :: "nat \<Rightarrow> Transaction \<Rightarrow> nat panics" where
  "target_shard ShardNum tx =
     do { sendersid \<leftarrow> fetchModifiedMap ShardNum (Sender tx);
          if Isbrokertx2 tx then fetchModifiedMap ShardNum (Recipient tx) else Some sendersid }"

fun tx_sending_from ::
  "nat \<Rightarrow> nat \<Rightarrow> nat \<Rightarrow> Transaction list \<Rightarrow> (nat \<Rightarrow> Transaction list) \<Rightarrow> send list panics" where
  "tx_sending_from ShardNum InjectSpeed idx [] m =
     (if idx = 0 then Some []
      else if InjectSpeed = 0 then panic else Some (flush_shards ShardNum m))"
| "tx_sending_from ShardNum InjectSpeed idx (tx # txs) m =
     (if 0 < idx \<and> InjectSpeed = 0 then panic
      else do {
        let flush = (0 < idx \<and> idx mod InjectSpeed = 0);
        let m1 = (if flush then (\<lambda>_. []) else m);
        sid \<leftarrow> target_shard ShardNum tx;
        rest \<leftarrow> tx_sending_from ShardNum InjectSpeed (Suc idx) txs (m1(sid := m1 sid @ [tx]));
        Some ((if flush then flush_shards ShardNum m else []) @ rest) })"

definition txSending :: "nat \<Rightarrow> nat \<Rightarrow> Transaction list \<Rightarrow> send list panics" where
  "txSending ShardNum InjectSpeed txlist = tx_sending_from ShardNum InjectSpeed 0 txlist (\<lambda>_. [])"

section \<open>The two halves of a broker transaction\<close>

definition make_tx1 :: "(Transaction \<Rightarrow> bytes) \<Rightarrow> BrokerType1Meg \<Rightarrow> Transaction" where
  "make_tx1 H m =
     (let ctx = Tx (T1RawMeg m) in
      (NewTransaction H (Sender ctx) (T1Broker m) (Value ctx) (Nonce ctx) (Fee ctx) (Txtype ctx))
        \<lparr> OriginalSender := Sender ctx, FinalRecipient := Recipient ctx, RawTxHash := TxHash ctx,
          Isbrokertx1 := True, Isbrokertx2 := False \<rparr>)"

definition make_tx2 :: "(Transaction \<Rightarrow> bytes) \<Rightarrow> BrokerType2Meg \<Rightarrow> Transaction" where
  "make_tx2 H m =
     (let ctx = Tx (T2RawMeg m) in
      (NewTransaction H (T2Broker m) (Recipient ctx) (Value ctx) (Nonce ctx) (Fee ctx) (Txtype ctx))
        \<lparr> OriginalSender := Sender ctx, FinalRecipient := Recipient ctx, RawTxHash := TxHash ctx,
          Isbrokertx2 := True, Isbrokertx1 := False \<rparr>)"

fun add_confirm1 ::
  "(Transaction \<Rightarrow> bytes) \<Rightarrow> BrokerType1Meg list \<Rightarrow> committee \<Rightarrow> Transaction list \<Rightarrow> Transaction list \<times> committee" where
  "add_confirm1 H [] c tx1s = (tx1s, c)"
| "add_confirm1 H (m # ms) c tx1s =
     (let tx1 = make_tx1 H m in
      add_confirm1 H ms
        (c\<lparr> brokerConfirm1Pool := (brokerConfirm1Pool c)(TxHash tx1 \<mapsto> \<lparr> Tx1Hash = TxHash tx1, RawMeg1 = T1RawMeg m \<rparr>) \<rparr>)
        (tx1s @ [tx1]))"

definition handleBrokerType1Mes ::
  "(Transaction \<Rightarrow> bytes) \<Rightarrow> nat \<Rightarrow> nat \<Rightarrow> BrokerType1Meg list \<Rightarrow> committee \<Rightarrow> (send list \<times> committee) panics" where
  "handleBrokerType1Mes H ShardNum InjectSpeed ms c =
     (let (tx1s, c1) = add_confirm1 H ms c [] in
      do { sends \<leftarrow> txSending ShardNum InjectSpeed tx1s; Some (sends, c1) })"

fun add_confirm2 ::
  "(Transaction \<Rightarrow> bytes) \<Rightarrow> BrokerType2Meg list \<Rightarrow> committee \<Rightarrow> Transaction list \<Rightarrow> Transaction list \<times> committee" where
  "add_confirm2 H [] c tx2s = (tx2s, c)"
| "add_confirm2 H (m # ms) c tx2s =
     (let tx2 = make_tx2 H m in
      add_confirm2 H ms
        (c\<lparr> brokerConfirm2Pool := (brokerConfirm2Pool c)(TxHash tx2 \<mapsto> \<lparr> Tx2Hash = TxHash tx2, RawMeg2 = T2RawMeg m \<rparr>) \<rparr>)
        (tx2s @ [tx2]))"

definition handleBrokerType2Mes ::
  "(Transaction \<Rightarrow> bytes) \<Rightarrow> nat \<Rightarrow> nat \<Rightarrow> BrokerType2Meg list \<Rightarrow> committee \<Rightarrow> (send list \<times> committee) panics" where
  "handleBrokerType2Mes H ShardNum InjectSpeed ms c =
     (let (tx2s, c1) = add_confirm2 H ms c [] in
      do { sends \<leftarrow> txSending ShardNum InjectSpeed tx2s; Some (sends, c1) })"

fun record_raw_megs ::
  "(BrokerRawMeg \<Rightarrow> bytes) \<Rightarrow> BrokerRawMeg list \<Rightarrow> Broker \<Rightarrow> BrokerType1Meg list \<Rightarrow> BrokerType1Meg list \<times> Broker" where
  "record_raw_megs D [] b acc = (acc, b)"
| "record_raw_megs D (meg # megs) b acc =
     record_raw_megs D megs (b\<lparr> BrokerRawMegs := (BrokerRawMegs b)(D meg \<mapsto> meg) \<rparr>)
       (acc @ [\<lparr> T1RawMeg = meg, T1Broker = RawBroker meg \<rparr>])"

definition handleBrokerRawMag ::
  "(Transaction \<Rightarrow> bytes) \<Rightarrow> (BrokerRawMeg \<Rightarrow> bytes) \<Rightarrow> nat \<Rightarrow> nat \<Rightarrow> BrokerRawMeg list \<Rightarrow> committee
     \<Rightarrow> (send list \<times> committee) panics" where
  "handleBrokerRawMag H D ShardNum InjectSpeed megs c =
     (let (ms, b) = record_raw_megs D megs (CBroker c) [] in
      handleBrokerType1Mes H ShardNum InjectSpeed ms (c\<lparr> CBroker := b \<rparr>))"

section \<open>Confirmations\<close>

fun confirm_tx1s ::
  "(BrokerRawMeg \<Rightarrow> bytes) \<Rightarrow> Mag1Confirm list \<Rightarrow> Broker \<Rightarrow> BrokerType2Meg list \<Rightarrow> BrokerType2Meg list \<times> Broker" where
  "confirm_tx1s D [] b acc = (acc, b)"
| "confirm_tx1s D (m # ms) b acc =
     (let RawMeg = RawMeg1 m; key = TxHash (Tx RawMeg) in
      if BrokerRawMegs b (D RawMeg) = None then confirm_tx1s D ms b acc
      else confirm_tx1s D ms
             (b\<lparr> RawTx2BrokerTx := (RawTx2BrokerTx b)(key := RawTx2BrokerTx b key @ [Tx1Hash m]) \<rparr>)
             (acc @ [\<lparr> T2RawMeg = RawMeg, T2Broker = RawBroker RawMeg \<rparr>]))"

definition handleTx1ConfirmMag ::
  "(Transaction \<Rightarrow> bytes) \<Rightarrow> (BrokerRawMeg \<Rightarrow> bytes) \<Rightarrow> nat \<Rightarrow> nat \<Rightarrow> Mag1Confirm list \<Rightarrow> committee
     \<Rightarrow> (send list \<times> committee) panics" where
  "handleTx1ConfirmMag H D ShardNum InjectSpeed ms c =
     (let (t2s, b) = confirm_tx1s D ms (CBroker c) [] in
      handleBrokerType2Mes H ShardNum InjectSpeed t2s (c\<lparr> CBroker := b \<rparr>))"

fun confirm_tx2s :: "Mag2Confirm list \<Rightarrow> Broker \<Rightarrow> Broker" where
  "confirm_tx2s [] b = b"
| "confirm_tx2s (m # ms) b =
     (let key = TxHash (Tx (RawMeg2 m)) in
      confirm_tx2s ms (b\<lparr> RawTx2BrokerTx := (RawTx2BrokerTx b)(key := RawTx2BrokerTx b key @ [Tx2Hash m]) \<rparr>))"

definition handleTx2ConfirmMag :: "Mag2Confirm list \<Rightarrow> committee \<Rightarrow> committee" where
  "handleTx2ConfirmMag ms c = c\<lparr> CBroker := confirm_tx2s ms (CBroker c) \<rparr>"

fun pool_hits :: "(bytes \<rightharpoonup> 'a) \<Rightarrow> Transaction list \<Rightarrow> 'a list" where
  "pool_hits pool [] = []"
| "pool_hits pool (tx # txs) =
     (case pool (TxHash tx) of None \<Rightarrow> pool_hits pool txs | Some x \<Rightarrow> x # pool_hits pool txs)"

definition createConfirm ::
  "(Transaction \<Rightarrow> bytes) \<Rightarrow> (BrokerRawMeg \<Rightarrow> bytes) \<Rightarrow> nat \<Rightarrow> nat \<Rightarrow> Transaction list \<Rightarrow> committee
     \<Rightarrow> (send list \<times> committee) panics" where
  "createConfirm H D ShardNum InjectSpeed txs c =
     (let confirm1s = pool_hits (brokerConfirm1Pool c) txs;
          confirm2s = pool_hits (brokerConfirm2Pool c) txs
      in do {
        (sends, c1) \<leftarrow> (if confirm1s \<noteq> [] then handleTx1ConfirmMag H D ShardNum InjectSpeed confirm1s c
                        else Some ([], c));
        Some (sends, if confirm2s \<noteq> [] then handleTx2ConfirmMag confirm2s c1 else c1) })"

section \<open>Settling executed broker transactions\<close>

definition int64_of :: "int \<Rightarrow> int" where
  "int64_of n = sint (word_of_int n :: 64 word)"

fun settle_broker1 :: "nat \<Rightarrow> Transaction list \<Rightarrow> Broker \<Rightarrow> Broker panics" where
  "settle_broker1 ShardNum [] b = Some b"
| "settle_broker1 ShardNum (tx # txs) b = do {
     sSid \<leftarrow> fetchModifiedMap ShardNum (OriginalSender tx);
     rSid \<leftarrow> fetchModifiedMap ShardNum (FinalRecipient tx);
     if \<not> IsBroker b (Recipient tx) then settle_broker1 ShardNum txs b
     else do {
       locked \<leftarrow> cell (LockBalance b (Txtype tx)) (Recipient tx) rSid;
       if locked < Value tx then settle_broker1 ShardNum txs b
       else do {
         lk \<leftarrow> cell_add (LockBalance b (Txtype tx)) (Recipient tx) rSid (- Value tx);
         bl \<leftarrow> cell_add (BrokerBalance b (Txtype tx)) (Recipient tx) sSid (Value tx);
         pr \<leftarrow> cell_add (ProfitBalance b (Txtype tx)) (Recipient tx) sSid
                 (rat_of_int (int64_of (Fee tx)) * Brokerage b);
         settle_broker1 ShardNum txs
           (b\<lparr> LockBalance := (LockBalance b)(Txtype tx := lk),
              BrokerBalance := (BrokerBalance b)(Txtype tx := bl),
              ProfitBalance := (ProfitBalance b)(Txtype tx := pr) \<rparr>) } } }"

definition HandleBlockInfo ::
  "(Transaction \<Rightarrow> bytes) \<Rightarrow> (BrokerRawMeg \<Rightarrow> bytes) \<Rightarrow> nat \<Rightarrow> nat \<Rightarrow> BlockInfoMsg \<Rightarrow> committee
     \<Rightarrow> (send list \<times> committee) panics" where
  "HandleBlockInfo H D ShardNum InjectSpeed m c =
     (if BlockBodyLength m = 0 then Some ([], c)
      else do {
        b \<leftarrow> settle_broker1 ShardNum (Broker1Txs m) (CBroker c);
        createConfirm H D ShardNum InjectSpeed (Broker1Txs m @ Broker2Txs m) (c\<lparr> CBroker := b \<rparr>) })"

section \<open>Delivery\<close>

text \<open>What shard \<open>sid\<close> receives from a list of messages.\<close>

definition delivered :: "nat \<Rightarrow> send list \<Rightarrow> Transaction list" where
  "delivered sid sends = concat (map (\<lambda>s. case s of SendInject ty m dest \<Rightarrow> if fst dest = sid then Txs m else []) sends)"

lemma delivered_simps [simp]:
  "delivered sid [] = []" "delivered sid (xs @ ys) = delivered sid xs @ delivered sid ys"
  by (simp_all add: delivered_def)

lemma delivered_flush:
  assumes "sid < n"
  shows "delivered sid (flush_shards n m) = m sid"
proof -
  have "delivered sid (map (\<lambda>s. SendInject ''inject'' \<lparr> Txs = m s, ToShardID = s \<rparr> (s, 0)) [0..<k]) =
        (if sid < k then m sid else [])" for k
    by (induction k) (auto simp: delivered_def)
  then show ?thesis
    using assms by (simp add: flush_shards_def)
qed

lemma target_shard_less: "target_shard n tx = Some sid \<Longrightarrow> sid < n"
  by (auto simp: target_shard_def fetchModifiedMap_def bind_eq_Some_iff dest: Addr2Shard_less split: if_splits)

lemma tx_sending_from_spec:
  assumes "0 < sp" "\<forall>tx \<in> set txs. target_shard n tx \<noteq> None" "idx = 0 \<longrightarrow> m = (\<lambda>_. [])"
  shows "\<exists>sends. tx_sending_from n sp idx txs m = Some sends \<and>
    (\<forall>sid<n. delivered sid sends = m sid @ filter (\<lambda>tx. target_shard n tx = Some sid) txs)"
  using assms(2,3)
proof (induction txs arbitrary: idx m)
  case Nil
  then show ?case
    using assms(1) by (auto simp: delivered_flush)
next
  case (Cons tx txs)
  then obtain t where t: "target_shard n tx = Some t"
    by auto
  define flush where "flush \<longleftrightarrow> 0 < idx \<and> idx mod sp = 0"
  define m1 where "m1 = (if flush then (\<lambda>_. []) else m)"
  define m2 where "m2 = m1(t := m1 t @ [tx])"
  obtain rest where rest: "tx_sending_from n sp (Suc idx) txs m2 = Some rest"
    "\<forall>sid<n. delivered sid rest = m2 sid @ filter (\<lambda>tx. target_shard n tx = Some sid) txs"
    using Cons.IH [of "Suc idx" m2] Cons.prems(1) by auto
  have "tx_sending_from n sp idx (tx # txs) m = Some ((if flush then flush_shards n m else []) @ rest)"
    using assms(1) t rest(1) by (simp add: Let_def flush_def [symmetric] m1_def [symmetric] m2_def [symmetric])
  then show ?case
    using rest(2) t by (auto simp: delivered_flush m1_def m2_def)
qed

text \<open>batching loses nothing. For every list of transactions whose target shards exist and any
  positive injection speed, \<open>txSending\<close> succeeds, and what each shard receives, over all rounds of
  messages, is exactly the sublist of transactions for that shard in their original order
  (second halves go to the recipient's shard, all others to the sender's).\<close>
theorem txSending_delivers:
  assumes "0 < InjectSpeed" "\<forall>tx \<in> set txlist. target_shard ShardNum tx \<noteq> None"
  shows "\<exists>sends. txSending ShardNum InjectSpeed txlist = Some sends \<and>
    (\<forall>sid<ShardNum. delivered sid sends = filter (\<lambda>tx. target_shard ShardNum tx = Some sid) txlist) \<and>
    (\<forall>tx \<in> set txlist. \<exists>sid<ShardNum. tx \<in> set (delivered sid sends))"
proof -
  obtain sends where s: "txSending ShardNum InjectSpeed txlist = Some sends"
    "\<forall>sid<ShardNum. delivered sid sends = filter (\<lambda>tx. target_shard ShardNum tx = Some sid) txlist"
    using tx_sending_from_spec [OF assms, of 0 "\<lambda>_. []"] by (auto simp: txSending_def)
  moreover have "\<exists>sid<ShardNum. tx \<in> set (delivered sid sends)" if mem: "tx \<in> set txlist" for tx
  proof -
    obtain sid where t: "target_shard ShardNum tx = Some sid"
      using assms(2) mem by auto
    then show ?thesis
      using s(2) target_shard_less [OF t] mem by auto
  qed
  ultimately show ?thesis
    by blast
qed

theorem txSending_delivers_witness:
  "\<exists>sends. txSending 2 1 [zeroTransaction\<lparr> Sender := ''00000001'' \<rparr>, zeroTransaction\<lparr> Sender := ''00000000'' \<rparr>] = Some sends \<and>
     delivered 1 sends = [zeroTransaction\<lparr> Sender := ''00000001'' \<rparr>]"
proof -
  have t: "target_shard 2 (zeroTransaction\<lparr> Sender := ''00000001'' \<rparr>) = Some 1"
    "target_shard 2 (zeroTransaction\<lparr> Sender := ''00000000'' \<rparr>) = Some 0"
    by (simp_all add: target_shard_def zeroTransaction_def fetchModifiedMap_def Addr2Shard_def ParseUint16_def hex_digit_def Let_def)
  obtain sends where s: "txSending 2 1 [zeroTransaction\<lparr> Sender := ''00000001'' \<rparr>, zeroTransaction\<lparr> Sender := ''00000000'' \<rparr>] = Some sends"
    "\<forall>sid<2. delivered sid sends = filter (\<lambda>tx. target_shard 2 tx = Some sid)
        [zeroTransaction\<lparr> Sender := ''00000001'' \<rparr>, zeroTransaction\<lparr> Sender := ''00000000'' \<rparr>]"
    using txSending_delivers [OF zero_less_one, where ShardNum = 2
        and txlist = "[zeroTransaction\<lparr> Sender := ''00000001'' \<rparr>, zeroTransaction\<lparr> Sender := ''00000000'' \<rparr>]"] t
    by (metis list.set_cases option.distinct(1) set_ConsD list.distinct(1))
  have "delivered 1 sends = [zeroTransaction\<lparr> Sender := ''00000001'' \<rparr>]"
    using spec [OF s(2), of 1] t by simp
  with s(1) show ?thesis
    by blast
qed

section \<open>The life of a cross-shard transaction\<close>

lemma make_tx1_fields [simp]:
  "Sender (make_tx1 H m) = Sender (Tx (T1RawMeg m))" "Recipient (make_tx1 H m) = T1Broker m"
  "Value (make_tx1 H m) = Value (Tx (T1RawMeg m))" "Isbrokertx1 (make_tx1 H m)" "\<not> Isbrokertx2 (make_tx1 H m)"
  "OriginalSender (make_tx1 H m) = Sender (Tx (T1RawMeg m))" "FinalRecipient (make_tx1 H m) = Recipient (Tx (T1RawMeg m))"
  "RawTxHash (make_tx1 H m) = TxHash (Tx (T1RawMeg m))"
  by (simp_all add: make_tx1_def Let_def NewTransaction_def zeroTransaction_def)

lemma make_tx2_fields [simp]:
  "Sender (make_tx2 H m) = T2Broker m" "Recipient (make_tx2 H m) = Recipient (Tx (T2RawMeg m))"
  "Value (make_tx2 H m) = Value (Tx (T2RawMeg m))" "\<not> Isbrokertx1 (make_tx2 H m)" "Isbrokertx2 (make_tx2 H m)"
  "OriginalSender (make_tx2 H m) = Sender (Tx (T2RawMeg m))" "FinalRecipient (make_tx2 H m) = Recipient (Tx (T2RawMeg m))"
  "RawTxHash (make_tx2 H m) = TxHash (Tx (T2RawMeg m))"
  by (simp_all add: make_tx2_def Let_def NewTransaction_def zeroTransaction_def)

lemma txSending_single:
  assumes "0 < sp" "target_shard n tx = Some sid"
  shows "txSending n sp [tx] = Some (flush_shards n ((\<lambda>_. [])(sid := [tx])))"
  using assms by (simp add: txSending_def Let_def)

text \<open>C33: a cross-shard transaction goes through in two halves and is then recorded as complete. When
  the raw message is handled, the first half (original sender to broker, same value) goes to the
  sender's shard and nowhere else. When a block confirms it, the second half (broker to final
  recipient, same value) goes to the recipient's shard. When a block confirms that, the
  committee has recorded exactly the digests of the two halves for the raw transaction. The
  digests of the two halves are assumed different and not yet used.\<close>
theorem cross_shard_two_halves:
  assumes tx1_def: "tx1 = make_tx1 H \<lparr> T1RawMeg = meg, T1Broker = RawBroker meg \<rparr>"
    and tx2_def: "tx2 = make_tx2 H \<lparr> T2RawMeg = meg, T2Broker = RawBroker meg \<rparr>"
    and "0 < sp" "fetchModifiedMap n (Sender (Tx meg)) = Some s1" "fetchModifiedMap n (Recipient (Tx meg)) = Some s2"
    "fetchModifiedMap n (RawBroker meg) \<noteq> None"
    "TxHash tx1 \<noteq> TxHash tx2" "brokerConfirm2Pool c (TxHash tx1) = None" "brokerConfirm1Pool c (TxHash tx2) = None"
    "RawTx2BrokerTx (CBroker c) (TxHash (Tx meg)) = []"
  shows "\<exists>sends1 c1 sends2 c2 c3.
    handleBrokerRawMag H D n sp [meg] c = Some (sends1, c1) \<and>
    (\<forall>sid<n. delivered sid sends1 = (if sid = s1 then [tx1] else [])) \<and>
    createConfirm H D n sp [tx1] c1 = Some (sends2, c2) \<and>
    (\<forall>sid<n. delivered sid sends2 = (if sid = s2 then [tx2] else [])) \<and>
    createConfirm H D n sp [tx2] c2 = Some ([], c3) \<and>
    Value tx1 = Value (Tx meg) \<and> Value tx2 = Value (Tx meg) \<and> Recipient tx1 = Sender tx2 \<and>
    RawTx2BrokerTx (CBroker c3) (TxHash (Tx meg)) = [TxHash tx1, TxHash tx2]"
proof -
  let ?m1 = "\<lparr> Tx1Hash = TxHash tx1, RawMeg1 = meg \<rparr>" and ?m2 = "\<lparr> Tx2Hash = TxHash tx2, RawMeg2 = meg \<rparr>"
  have t1: "target_shard n tx1 = Some s1"
    using assms(4) by (simp add: target_shard_def tx1_def)
  have t2: "target_shard n tx2 = Some s2"
    using assms(5,6) by (auto simp: target_shard_def tx2_def)
  let ?b1 = "(CBroker c)\<lparr> BrokerRawMegs := (BrokerRawMegs (CBroker c))(D meg \<mapsto> meg) \<rparr>"
  let ?c1 = "c\<lparr> CBroker := ?b1, brokerConfirm1Pool := (brokerConfirm1Pool c)(TxHash tx1 \<mapsto> ?m1) \<rparr>"
  have h1: "handleBrokerRawMag H D n sp [meg] c = Some (flush_shards n ((\<lambda>_. [])(s1 := [tx1])), ?c1)"
    using txSending_single [OF assms(3) t1]
    by (simp add: handleBrokerRawMag_def handleBrokerType1Mes_def tx1_def [symmetric] Let_def)
  let ?b2 = "?b1\<lparr> RawTx2BrokerTx := (RawTx2BrokerTx (CBroker c))(TxHash (Tx meg) := [TxHash tx1]) \<rparr>"
  let ?c2 = "c\<lparr> CBroker := ?b2, brokerConfirm1Pool := (brokerConfirm1Pool c)(TxHash tx1 \<mapsto> ?m1),
                 brokerConfirm2Pool := (brokerConfirm2Pool c)(TxHash tx2 \<mapsto> ?m2) \<rparr>"
  have h2: "createConfirm H D n sp [tx1] ?c1 = Some (flush_shards n ((\<lambda>_. [])(s2 := [tx2])), ?c2)"
    using txSending_single [OF assms(3) t2] assms(8,10)
    by (simp add: createConfirm_def handleTx1ConfirmMag_def handleBrokerType2Mes_def tx2_def [symmetric] Let_def)
  let ?b3 = "?b2\<lparr> RawTx2BrokerTx := (RawTx2BrokerTx (CBroker c))(TxHash (Tx meg) := [TxHash tx1, TxHash tx2]) \<rparr>"
  have h3: "createConfirm H D n sp [tx2] ?c2 = Some ([], ?c2\<lparr> CBroker := ?b3 \<rparr>)"
    using assms(7,9) by (simp add: createConfirm_def handleTx2ConfirmMag_def Let_def)
  show ?thesis
    using h1 h2 h3 by (auto simp: delivered_flush tx1_def tx2_def
        intro!: exI [of _ "flush_shards n ((\<lambda>_. [])(s1 := [tx1]))"] exI [of _ ?c1])
qed

theorem cross_shard_two_halves_witness:
  "\<exists>sends1 c1. handleBrokerRawMag (\<lambda>tx. bytes_of_string (Sender tx)) (\<lambda>m. []) 2 1
      [\<lparr> TxPtr = 0, Tx = zeroTransaction\<lparr> Sender := ''00000000'', Recipient := ''00000001'', Value := 7 \<rparr>, RawBroker = ''00000002'' \<rparr>]
      (NewBrokerCommitteeMod_b2e 2 [''00000002''] 1) = Some (sends1, c1) \<and> length (delivered 0 sends1) = 1"
proof -
  let ?H = "\<lambda>tx. bytes_of_string (Sender tx)"
  let ?meg = "\<lparr> TxPtr = 0, Tx = zeroTransaction\<lparr> Sender := ''00000000'', Recipient := ''00000001'', Value := 7 \<rparr>, RawBroker = ''00000002'' \<rparr>"
  let ?c = "NewBrokerCommitteeMod_b2e 2 [''00000002''] 1"
  let ?tx1 = "make_tx1 ?H \<lparr> T1RawMeg = ?meg, T1Broker = RawBroker ?meg \<rparr>"
  let ?tx2 = "make_tx2 ?H \<lparr> T2RawMeg = ?meg, T2Broker = RawBroker ?meg \<rparr>"
  have f: "fetchModifiedMap 2 (Sender (Tx ?meg)) = Some 0" "fetchModifiedMap 2 (Recipient (Tx ?meg)) = Some 1"
    "fetchModifiedMap 2 (RawBroker ?meg) \<noteq> None"
    by (simp_all add: zeroTransaction_def fetchModifiedMap_def Addr2Shard_def ParseUint16_def hex_digit_def Let_def)
  have d: "TxHash ?tx1 \<noteq> TxHash ?tx2"
    by (simp add: make_tx1_def make_tx2_def NewTransaction_def zeroTransaction_def Let_def bytes_of_string_def byte_of_char_def)
  have p: "brokerConfirm2Pool ?c (TxHash ?tx1) = None" "brokerConfirm1Pool ?c (TxHash ?tx2) = None"
    "RawTx2BrokerTx (CBroker ?c) (TxHash (Tx ?meg)) = []"
    by (simp_all add: NewBrokerCommitteeMod_b2e_def NewBroker_def Let_def)
  from cross_shard_two_halves [OF refl refl zero_less_one f d p, of "\<lambda>m. []"]
  obtain sends1 c1 where "handleBrokerRawMag ?H (\<lambda>m. []) 2 1 [?meg] ?c = Some (sends1, c1)"
    "\<forall>sid<2. delivered sid sends1 = (if sid = 0 then [?tx1] else [])"
    by blast
  then show ?thesis
    by auto
qed

end
