(* ===== verification/Liquidity.thy ===== *)
theory Liquidity
  imports Committee
begin

text \<open>
  How the committee moves a broker's liquidity for a batch of cross-shard transactions
  (\<open>GenerateAllocatedTx\<close>, \<open>handleAllocatedTx\<close>, \<open>lockToken\<close> of
  \<open>supervisor/committee/committee_broker_b2e.go\<close>): the batch drains the broker's balance in the
  recipients' shards; where that would leave a shard in deficit, balance is taken from the
  broker's other shards, and the value of each transaction is then locked.

  Go ranges over maps in an unspecified order; the orders are the fields of \<open>range_orders\<close> and
  the theorems hold for all of them.
\<close>

section \<open>Definitions\<close>

record alloc_state =
  brokerNewBalance :: ShardBalanceInt
  brokerChange :: ShardBalanceInt
  brokerPeekChange :: ShardBalanceInt

record range_orders =
  ro_brokers :: "string list"
  ro_shards :: "string \<Rightarrow> nat list"
  ro_inner :: "string \<Rightarrow> nat \<Rightarrow> nat list"
  ro_gen_brokers :: "string list"
  ro_gen_shards :: "string \<Rightarrow> nat list"

definition init_alloc :: "ShardBalanceInt \<Rightarrow> alloc_state" where
  "init_alloc BB =
     \<lparr> brokerNewBalance = BB,
       brokerChange = (\<lambda>a. map_option (\<lambda>m sid. map_option (\<lambda>_. 0) (m sid)) (BB a)),
       brokerPeekChange = BB \<rparr>"

fun drain_megs :: "nat \<Rightarrow> BrokerRawMeg list \<Rightarrow> alloc_state \<Rightarrow> alloc_state panics" where
  "drain_megs ShardNum [] st = Some st"
| "drain_megs ShardNum (m # ms) st = do {
     sSid \<leftarrow> fetchModifiedMap ShardNum (Sender (Tx m));
     rSid \<leftarrow> fetchModifiedMap ShardNum (Recipient (Tx m));
     n1 \<leftarrow> cell_add (brokerNewBalance st) (RawBroker m) sSid (Value (Tx m));
     n2 \<leftarrow> cell_add n1 (RawBroker m) rSid (- Value (Tx m));
     p \<leftarrow> cell_add (brokerPeekChange st) (RawBroker m) rSid (- Value (Tx m));
     drain_megs ShardNum ms (st\<lparr> brokerNewBalance := n2, brokerPeekChange := p \<rparr>) }"

text \<open>Moving \<open>v\<close> of broker \<open>a\<close> from shard \<open>i\<close> to shard \<open>s\<close> in one of the three tables.\<close>

definition move_cell :: "ShardBalanceInt \<Rightarrow> string \<Rightarrow> nat \<Rightarrow> nat \<Rightarrow> int \<Rightarrow> ShardBalanceInt panics" where
  "move_cell B a i s v = do { b1 \<leftarrow> cell_add B a i (- v); cell_add b1 a s v }"

text \<open>The inner loop: other shards with a positive balance cover the deficit of shard \<open>s\<close>.\<close>

fun cover :: "string \<Rightarrow> nat \<Rightarrow> nat list \<Rightarrow> int \<Rightarrow> alloc_state \<Rightarrow> alloc_state panics" where
  "cover a s [] deficit st = Some st"
| "cover a s (i # ids) deficit st =
     (if deficit = 0 then Some st
      else do {
        balance \<leftarrow> cell (brokerPeekChange st) a i;
        if i \<noteq> s \<and> balance > 0 then do {
          let tmpValue = (if balance < deficit then balance else deficit);
          let deficit1 = (if balance < deficit then deficit - balance else 0);
          n \<leftarrow> move_cell (brokerNewBalance st) a i s tmpValue;
          p \<leftarrow> move_cell (brokerPeekChange st) a i s tmpValue;
          ch \<leftarrow> move_cell (brokerChange st) a i s tmpValue;
          cover a s ids deficit1 \<lparr> brokerNewBalance = n, brokerChange = ch, brokerPeekChange = p \<rparr> }
        else cover a s ids deficit st })"

fun cover_shards :: "(nat \<Rightarrow> nat list) \<Rightarrow> string \<Rightarrow> nat list \<Rightarrow> alloc_state \<Rightarrow> alloc_state panics" where
  "cover_shards inner a [] st = Some st"
| "cover_shards inner a (s # ss) st = do {
     peekBalance \<leftarrow> cell (brokerPeekChange st) a s;
     st1 \<leftarrow> (if peekBalance < 0 then cover a s (inner s) \<bar>peekBalance\<bar> st else Some st);
     cover_shards inner a ss st1 }"

fun cover_brokers :: "range_orders \<Rightarrow> string list \<Rightarrow> alloc_state \<Rightarrow> alloc_state panics" where
  "cover_brokers ro [] st = Some st"
| "cover_brokers ro (a # as) st = do {
     st1 \<leftarrow> cover_shards (ro_inner ro a) a (ro_shards ro a) st;
     cover_brokers ro as st1 }"

definition allocated_tx :: "(Transaction \<Rightarrow> bytes) \<Rightarrow> string \<Rightarrow> string \<Rightarrow> nat \<Rightarrow> int \<Rightarrow> Transaction" where
  "allocated_tx H a tx_type num diff =
     (let tx = NewTransaction H a a \<bar>diff\<bar> (word_of_nat num) 0 tx_type in
      if diff < 0 then tx\<lparr> IsAllocatedSender := True \<rparr> else tx\<lparr> IsAllocatedRecipent := True \<rparr>)"

fun gen_shards ::
  "(Transaction \<Rightarrow> bytes) \<Rightarrow> ShardBalanceInt \<Rightarrow> string \<Rightarrow> string \<Rightarrow> nat list \<Rightarrow> nat \<Rightarrow> (nat \<Rightarrow> Transaction list)
     \<Rightarrow> (nat \<times> (nat \<Rightarrow> Transaction list)) panics" where
  "gen_shards H chg tx_type a [] num out = Some (num, out)"
| "gen_shards H chg tx_type a (s # ss) num out = do {
     diff \<leftarrow> cell chg a s;
     if diff = 0 then gen_shards H chg tx_type a ss num out
     else gen_shards H chg tx_type a ss (Suc num) (out(s := out s @ [allocated_tx H a tx_type num diff])) }"

fun gen_brokers ::
  "(Transaction \<Rightarrow> bytes) \<Rightarrow> range_orders \<Rightarrow> ShardBalanceInt \<Rightarrow> string \<Rightarrow> string list \<Rightarrow> nat \<Rightarrow> (nat \<Rightarrow> Transaction list)
     \<Rightarrow> (nat \<times> (nat \<Rightarrow> Transaction list)) panics" where
  "gen_brokers H ro chg tx_type [] num out = Some (num, out)"
| "gen_brokers H ro chg tx_type (a # as) num out = do {
     (num1, out1) \<leftarrow> gen_shards H chg tx_type a (ro_gen_shards ro a) num out;
     gen_brokers H ro chg tx_type as num1 out1 }"

definition GenerateAllocatedTx ::
  "(Transaction \<Rightarrow> bytes) \<Rightarrow> nat \<Rightarrow> range_orders \<Rightarrow> BrokerRawMeg list \<Rightarrow> string \<Rightarrow> committee
     \<Rightarrow> ((nat \<Rightarrow> Transaction list) \<times> committee) panics" where
  "GenerateAllocatedTx H ShardNum ro megs tx_type c = do {
     st1 \<leftarrow> drain_megs ShardNum megs (init_alloc (BrokerBalance (CBroker c) tx_type));
     st2 \<leftarrow> cover_brokers ro (ro_brokers ro) st1;
     (num, out) \<leftarrow> gen_brokers H ro (brokerChange st2) tx_type (ro_gen_brokers ro) (nowDataNum c) (\<lambda>_. []);
     Some (out, c\<lparr> nowDataNum := num \<rparr>) }"

fun apply_allocated :: "nat \<Rightarrow> Transaction list \<Rightarrow> ShardBalanceInt \<Rightarrow> ShardBalanceInt panics" where
  "apply_allocated sid [] B = Some B"
| "apply_allocated sid (tx # txs) B = do {
     B1 \<leftarrow> (if IsAllocatedSender tx then cell_add B (Sender tx) sid (- Value tx) else Some B);
     B2 \<leftarrow> (if IsAllocatedRecipent tx then cell_add B1 (Recipient tx) sid (Value tx) else Some B1);
     apply_allocated sid txs B2 }"

fun handle_allocated_shards :: "(nat \<Rightarrow> Transaction list) \<Rightarrow> nat list \<Rightarrow> ShardBalanceInt \<Rightarrow> ShardBalanceInt panics" where
  "handle_allocated_shards out [] B = Some B"
| "handle_allocated_shards out (sid # sids) B = do {
     B1 \<leftarrow> apply_allocated sid (out sid) B;
     handle_allocated_shards out sids B1 }"

definition handleAllocatedTx :: "nat list \<Rightarrow> (nat \<Rightarrow> Transaction list) \<Rightarrow> string \<Rightarrow> Broker \<Rightarrow> Broker panics" where
  "handleAllocatedTx sids out tx_type b = do {
     B \<leftarrow> handle_allocated_shards out sids (BrokerBalance b tx_type);
     Some (b\<lparr> BrokerBalance := (BrokerBalance b)(tx_type := B) \<rparr>) }"

fun lockToken :: "nat \<Rightarrow> BrokerRawMeg list \<Rightarrow> string \<Rightarrow> Broker \<Rightarrow> Broker panics" where
  "lockToken ShardNum [] tx_type b = Some b"
| "lockToken ShardNum (m # ms) tx_type b = do {
     rSid \<leftarrow> fetchModifiedMap ShardNum (Recipient (Tx m));
     if \<not> IsBroker b (RawBroker m) then lockToken ShardNum ms tx_type b
     else do {
       lk \<leftarrow> cell_add (LockBalance b tx_type) (RawBroker m) rSid (Value (Tx m));
       bl \<leftarrow> cell_add (BrokerBalance b tx_type) (RawBroker m) rSid (- Value (Tx m));
       lockToken ShardNum ms tx_type
         (b\<lparr> LockBalance := (LockBalance b)(tx_type := lk), BrokerBalance := (BrokerBalance b)(tx_type := bl) \<rparr>) } }"

section \<open>Balances as functions\<close>

definition bal :: "(string \<rightharpoonup> ('v::zero) shard_map) \<Rightarrow> string \<Rightarrow> nat \<Rightarrow> 'v" where
  "bal B a sid = (case cell B a sid of None \<Rightarrow> 0 | Some x \<Rightarrow> x)"

definition shape :: "(string \<rightharpoonup> 'v shard_map) \<Rightarrow> string \<Rightarrow> nat set option" where
  "shape B a = map_option dom (B a)"

text \<open>Every known broker has an entry for each of the \<open>n\<close> shards, and for no other.\<close>

definition full :: "nat \<Rightarrow> (string \<rightharpoonup> 'v shard_map) \<Rightarrow> bool" where
  "full n B \<longleftrightarrow> (\<forall>a m. B a = Some m \<longrightarrow> dom m = {..<n})"

lemma cell_full:
  "full n B \<Longrightarrow> B a \<noteq> None \<Longrightarrow> sid < n \<Longrightarrow> cell B a sid = Some (bal B a sid)"
proof -
  assume "full n B" "B a \<noteq> None" "sid < n"
  then obtain m where "B a = Some m" "sid \<in> dom m"
    by (auto simp: full_def)
  then show ?thesis
    by (auto simp: cell_def bal_def)
qed

lemma cell_add_full:
  fixes B :: "string \<rightharpoonup> ('v::monoid_add) shard_map"
  assumes "full n B" "B a \<noteq> None" "sid < n"
  shows "\<exists>B'. cell_add B a sid v = Some B' \<and> full n B' \<and> dom B' = dom B \<and>
           bal B' = (bal B)(a := (bal B a)(sid := bal B a sid + v))"
proof -
  obtain m where m: "B a = Some m" "dom m = {..<n}"
    using assms by (auto simp: full_def)
  then obtain x where x: "m sid = Some x"
    using assms(3) by (metis domD lessThan_iff)
  let ?B = "B(a \<mapsto> m(sid \<mapsto> x + v))"
  have "full n ?B"
    using assms(1,3) m by (auto simp: full_def)
  moreover have "bal ?B = (bal B)(a := (bal B a)(sid := bal B a sid + v))"
    using m x by (auto simp: bal_def cell_def fun_eq_iff)
  ultimately show ?thesis
    using m x by (auto simp: cell_add_def)
qed

lemma move_cell_full:
  assumes "full n B" "B a \<noteq> None" "i < n" "s < n"
  shows "\<exists>B'. move_cell B a i s v = Some B' \<and> full n B' \<and> dom B' = dom B \<and>
    bal B' = (bal B)(a := (\<lambda>x. bal B a x - (if x = i then v else 0) + (if x = s then v else 0)))"
proof -
  obtain B1 where B1: "cell_add B a i (- v) = Some B1" "full n B1" "dom B1 = dom B"
    "bal B1 = (bal B)(a := (bal B a)(i := bal B a i + - v))"
    using cell_add_full [OF assms(1-3)] by blast
  have "B1 a \<noteq> None"
    using B1(3) assms(2) by (metis domIff)
  then obtain B2 where "cell_add B1 a s v = Some B2" "full n B2" "dom B2 = dom B1"
    "bal B2 = (bal B1)(a := (bal B1 a)(s := bal B1 a s + v))"
    using cell_add_full [OF B1(2) _ assms(4)] by blast
  then show ?thesis
    using B1 by (auto simp: move_cell_def fun_eq_iff)
qed

section \<open>Covering deficits\<close>

definition alloc_ok :: "nat \<Rightarrow> string set \<Rightarrow> alloc_state \<Rightarrow> bool" where
  "alloc_ok n A st \<longleftrightarrow>
     full n (brokerNewBalance st) \<and> full n (brokerChange st) \<and> full n (brokerPeekChange st) \<and>
     dom (brokerNewBalance st) = A \<and> dom (brokerChange st) = A \<and> dom (brokerPeekChange st) = A"

abbreviation peek :: "alloc_state \<Rightarrow> string \<Rightarrow> nat \<Rightarrow> int" where
  "peek st \<equiv> bal (brokerPeekChange st)"

abbreviation chg :: "alloc_state \<Rightarrow> string \<Rightarrow> nat \<Rightarrow> int" where
  "chg st \<equiv> bal (brokerChange st)"

text \<open>What a step of the covering loops may do to broker \<open>a\<close>: peek balances and changes move
  together, totals are kept, balances that are not negative stay so and no shard but \<open>s\<close> grows.\<close>

definition rebalanced :: "nat \<Rightarrow> string \<Rightarrow> alloc_state \<Rightarrow> alloc_state \<Rightarrow> bool" where
  "rebalanced n a st st' \<longleftrightarrow>
     (\<forall>b. b \<noteq> a \<longrightarrow> peek st' b = peek st b \<and> chg st' b = chg st b) \<and>
     (\<forall>x. peek st' a x - peek st a x = chg st' a x - chg st a x) \<and>
     (\<Sum>x<n. peek st' a x) = (\<Sum>x<n. peek st a x) \<and>
     (\<forall>x. 0 \<le> peek st a x \<longrightarrow> 0 \<le> peek st' a x)"

lemma rebalanced_refl [simp]: "rebalanced n a st st"
  by (simp add: rebalanced_def)

lemma rebalanced_trans: "rebalanced n a st st1 \<Longrightarrow> rebalanced n a st1 st2 \<Longrightarrow> rebalanced n a st st2"
  unfolding rebalanced_def
proof (elim conjE, intro conjI)
  assume *: "\<forall>x. peek st1 a x - peek st a x = chg st1 a x - chg st a x"
    "\<forall>x. peek st2 a x - peek st1 a x = chg st2 a x - chg st1 a x"
  show "\<forall>x. peek st2 a x - peek st a x = chg st2 a x - chg st a x"
  proof
    fix x show "peek st2 a x - peek st a x = chg st2 a x - chg st a x"
      using spec [OF *(1), of x] spec [OF *(2), of x] by linarith
  qed
qed simp_all

lemma move_alloc:
  assumes ok: "alloc_ok n A st" and a: "a \<in> A" and i: "i < n" "s < n"
    and v: "0 \<le> v" "v \<le> peek st a i"
  shows "\<exists>nb p ch. move_cell (brokerNewBalance st) a i s v = Some nb \<and>
    move_cell (brokerPeekChange st) a i s v = Some p \<and>
    move_cell (brokerChange st) a i s v = Some ch \<and>
    alloc_ok n A \<lparr> brokerNewBalance = nb, brokerChange = ch, brokerPeekChange = p \<rparr> \<and>
    bal p = (peek st)(a := (\<lambda>x. peek st a x - (if x = i then v else 0) + (if x = s then v else 0))) \<and>
    rebalanced n a st \<lparr> brokerNewBalance = nb, brokerChange = ch, brokerPeekChange = p \<rparr>"
proof -
  have dom: "brokerNewBalance st a \<noteq> None" "brokerChange st a \<noteq> None" "brokerPeekChange st a \<noteq> None"
    using ok a unfolding alloc_ok_def by blast+
  have fl: "full n (brokerNewBalance st)" "full n (brokerChange st)" "full n (brokerPeekChange st)"
    using ok by (simp_all add: alloc_ok_def)
  obtain nb where nb: "move_cell (brokerNewBalance st) a i s v = Some nb" "full n nb" "dom nb = dom (brokerNewBalance st)"
    using move_cell_full [OF fl(1) dom(1) i, of v] by blast
  obtain p where p: "move_cell (brokerPeekChange st) a i s v = Some p" "full n p" "dom p = dom (brokerPeekChange st)"
    "bal p = (peek st)(a := (\<lambda>x. peek st a x - (if x = i then v else 0) + (if x = s then v else 0)))"
    using move_cell_full [OF fl(3) dom(3) i, of v] by blast
  obtain ch where ch: "move_cell (brokerChange st) a i s v = Some ch" "full n ch" "dom ch = dom (brokerChange st)"
    "bal ch = (chg st)(a := (\<lambda>x. chg st a x - (if x = i then v else 0) + (if x = s then v else 0)))"
    using move_cell_full [OF fl(2) dom(2) i, of v] by blast
  have "(\<Sum>x<n. peek st a x - (if x = i then v else 0) + (if x = s then v else 0)) = (\<Sum>x<n. peek st a x)"
    using i by (simp add: sum.distrib sum_subtractf)
  then have "rebalanced n a st \<lparr> brokerNewBalance = nb, brokerChange = ch, brokerPeekChange = p \<rparr>"
    using v by (simp add: rebalanced_def p(4) ch(4))
  moreover have "alloc_ok n A \<lparr> brokerNewBalance = nb, brokerChange = ch, brokerPeekChange = p \<rparr>"
    using nb p ch ok by (simp add: alloc_ok_def)
  ultimately show ?thesis
    using nb(1) p(1,4) ch(1) by blast
qed

text \<open>The inner loop removes \<open>min deficit (positive balances of the listed shards)\<close> of the deficit.\<close>

lemma cover_spec:
  assumes "alloc_ok n A st" "a \<in> A" "s < n" "distinct ids" "set ids \<subseteq> {..<n}" "0 \<le> d"
  shows "\<exists>st'. cover a s ids d st = Some st' \<and> alloc_ok n A st' \<and> rebalanced n a st st' \<and>
    peek st' a s = peek st a s + min d (\<Sum>x \<in> set ids - {s}. max 0 (peek st a x))"
  using assms
proof (induction ids arbitrary: d st)
  case Nil
  then show ?case
    by auto
next
  case (Cons i ids)
  have nonneg: "0 \<le> (\<Sum>x \<in> set (i # ids) - {s}. max 0 (peek st a x))" "0 \<le> (\<Sum>x \<in> set ids - {s}. max 0 (peek st a x))"
    by (auto intro: sum_nonneg)
  show ?case
  proof (cases "d = 0")
    case True
    then show ?thesis
      using Cons.prems nonneg by auto
  next
    case False
    have c: "cell (brokerPeekChange st) a i = Some (peek st a i)"
      using Cons.prems by (intro cell_full) (auto simp: alloc_ok_def dom_def)
    show ?thesis
    proof (cases "i \<noteq> s \<and> 0 < peek st a i")
      case True
      define v where "v = (if peek st a i < d then peek st a i else d)"
      have v: "0 \<le> v" "v \<le> peek st a i" "v \<le> d"
        using True Cons.prems(6) by (auto simp: v_def)
      obtain nb p ch where mv:
        "move_cell (brokerNewBalance st) a i s v = Some nb"
        "move_cell (brokerPeekChange st) a i s v = Some p"
        "move_cell (brokerChange st) a i s v = Some ch"
        "alloc_ok n A \<lparr> brokerNewBalance = nb, brokerChange = ch, brokerPeekChange = p \<rparr>"
        "bal p = (peek st)(a := (\<lambda>x. peek st a x - (if x = i then v else 0) + (if x = s then v else 0)))"
        "rebalanced n a st \<lparr> brokerNewBalance = nb, brokerChange = ch, brokerPeekChange = p \<rparr>"
        using move_alloc [OF Cons.prems(1,2) _ Cons.prems(3) v(1,2)] Cons.prems(5) by auto
      let ?st = "\<lparr> brokerNewBalance = nb, brokerChange = ch, brokerPeekChange = p \<rparr>"
      have "\<exists>st'. cover a s ids (d - v) ?st = Some st' \<and> alloc_ok n A st' \<and> rebalanced n a ?st st' \<and>
          peek st' a s = peek ?st a s + min (d - v) (\<Sum>x \<in> set ids - {s}. max 0 (peek ?st a x))"
        using Cons.prems v by (intro Cons.IH mv(4)) auto
      then obtain st' where st': "cover a s ids (d - v) ?st = Some st'" "alloc_ok n A st'" "rebalanced n a ?st st'"
        "peek st' a s = peek ?st a s + min (d - v) (\<Sum>x \<in> set ids - {s}. max 0 (peek ?st a x))"
        by blast
      have rest: "(\<Sum>x \<in> set ids - {s}. max 0 (peek ?st a x)) = (\<Sum>x \<in> set ids - {s}. max 0 (peek st a x))"
        using Cons.prems(4) by (intro sum.cong) (auto simp: mv(5))
      have all: "(\<Sum>x \<in> set (i # ids) - {s}. max 0 (peek st a x)) = peek st a i + (\<Sum>x \<in> set ids - {s}. max 0 (peek st a x))"
        using True Cons.prems(4) by (simp add: insert_Diff_if)
      have "peek ?st a s = peek st a s + v"
        using True by (simp add: mv(5))
      then have "peek st' a s = peek st a s + min d (\<Sum>x \<in> set (i # ids) - {s}. max 0 (peek st a x))"
        using st'(4) rest all v nonneg(2) by (auto simp: v_def split: if_splits)
      moreover have "cover a s (i # ids) d st = Some st'"
        using True False c mv(1-3) st'(1) by (simp add: v_def Let_def split: if_splits)
      ultimately show ?thesis
        using st' rebalanced_trans [OF mv(6)] by blast
    next
      case skip: False
      have "(\<Sum>x \<in> set (i # ids) - {s}. max 0 (peek st a x)) = (\<Sum>x \<in> set ids - {s}. max 0 (peek st a x))"
        using skip Cons.prems(4) by (cases "i = s") (auto simp: insert_Diff_if)
      then show ?thesis
        using Cons.IH [of st d] Cons.prems skip False c by auto
    qed
  qed
qed

lemma deficit_is_coverable:
  fixes p :: "nat \<Rightarrow> int"
  assumes "s < n" "0 \<le> (\<Sum>x<n. p x)"
  shows "- p s \<le> (\<Sum>x \<in> {..<n} - {s}. max 0 (p x))"
proof -
  have "(\<Sum>x<n. p x) = p s + (\<Sum>x \<in> {..<n} - {s}. p x)"
    using assms(1) by (simp add: sum.remove)
  moreover have "(\<Sum>x \<in> {..<n} - {s}. p x) \<le> (\<Sum>x \<in> {..<n} - {s}. max 0 (p x))"
    by (intro sum_mono) simp
  ultimately show ?thesis
    using assms(2) by linarith
qed

lemma cover_shards_spec:
  assumes "alloc_ok n A st" "a \<in> A" "set ss \<subseteq> {..<n}"
    and inner: "\<forall>s<n. distinct (inner s) \<and> set (inner s) = {..<n}"
  shows "\<exists>st'. cover_shards inner a ss st = Some st' \<and> alloc_ok n A st' \<and> rebalanced n a st st' \<and>
    (0 \<le> (\<Sum>x<n. peek st a x) \<longrightarrow> (\<forall>s \<in> set ss. 0 \<le> peek st' a s))"
  using assms(1-3)
proof (induction ss arbitrary: st)
  case (Cons s ss)
  then have s: "s < n"
    by simp
  have c: "cell (brokerPeekChange st) a s = Some (peek st a s)"
    using Cons.prems by (intro cell_full) (auto simp: alloc_ok_def dom_def)
  have "\<exists>st1. (if peek st a s < 0 then cover a s (inner s) \<bar>peek st a s\<bar> st else Some st) = Some st1 \<and>
      alloc_ok n A st1 \<and> rebalanced n a st st1 \<and> (0 \<le> (\<Sum>x<n. peek st a x) \<longrightarrow> 0 \<le> peek st1 a s)"
  proof (cases "peek st a s < 0")
    case True
    obtain st1 where st1: "cover a s (inner s) \<bar>peek st a s\<bar> st = Some st1" "alloc_ok n A st1" "rebalanced n a st st1"
      "peek st1 a s = peek st a s + min \<bar>peek st a s\<bar> (\<Sum>x \<in> {..<n} - {s}. max 0 (peek st a x))"
      using cover_spec [OF Cons.prems(1,2) s, of "inner s" "\<bar>peek st a s\<bar>"] inner s by auto
    then show ?thesis
      using True deficit_is_coverable [OF s, of "peek st a"] by auto
  qed (use Cons.prems in auto)
  then obtain st1 where st1: "(if peek st a s < 0 then cover a s (inner s) \<bar>peek st a s\<bar> st else Some st) = Some st1"
    "alloc_ok n A st1" "rebalanced n a st st1" "0 \<le> (\<Sum>x<n. peek st a x) \<longrightarrow> 0 \<le> peek st1 a s"
    by blast
  obtain st2 where st2: "cover_shards inner a ss st1 = Some st2" "alloc_ok n A st2" "rebalanced n a st1 st2"
    "0 \<le> (\<Sum>x<n. peek st1 a x) \<longrightarrow> (\<forall>s \<in> set ss. 0 \<le> peek st2 a s)"
    using Cons.IH [OF st1(2)] Cons.prems by auto
  have "(\<Sum>x<n. peek st1 a x) = (\<Sum>x<n. peek st a x)" "0 \<le> peek st1 a s \<Longrightarrow> 0 \<le> peek st2 a s"
    using st1(3) st2(3) by (auto simp: rebalanced_def)
  then have "0 \<le> (\<Sum>x<n. peek st a x) \<longrightarrow> (\<forall>s \<in> set (s # ss). 0 \<le> peek st2 a s)"
    using st1(4) st2(4) by auto
  then show ?case
    using c st1(1) st2(1,2) rebalanced_trans [OF st1(3) st2(3)] by auto
qed simp

text \<open>The orders in which the maps may be traversed: each enumerates the keys once.\<close>

definition orders_ok :: "nat \<Rightarrow> string set \<Rightarrow> range_orders \<Rightarrow> bool" where
  "orders_ok n A ro \<longleftrightarrow>
     distinct (ro_brokers ro) \<and> set (ro_brokers ro) = A \<and>
     distinct (ro_gen_brokers ro) \<and> set (ro_gen_brokers ro) = A \<and>
     (\<forall>a \<in> A. set (ro_shards ro a) = {..<n} \<and> distinct (ro_gen_shards ro a) \<and> set (ro_gen_shards ro a) = {..<n} \<and>
        (\<forall>s<n. distinct (ro_inner ro a s) \<and> set (ro_inner ro a s) = {..<n}))"

definition covered :: "nat \<Rightarrow> alloc_state \<Rightarrow> alloc_state \<Rightarrow> string \<Rightarrow> bool" where
  "covered n st st' a \<longleftrightarrow>
     (\<forall>x. peek st' a x - peek st a x = chg st' a x - chg st a x) \<and>
     (\<Sum>x<n. peek st' a x) = (\<Sum>x<n. peek st a x) \<and>
     (0 \<le> (\<Sum>x<n. peek st a x) \<longrightarrow> (\<forall>s<n. 0 \<le> peek st' a s))"

lemma cover_brokers_spec:
  assumes "alloc_ok n A st" "set as \<subseteq> A" "distinct as"
    and ord: "\<forall>a \<in> A. set (ro_shards ro a) = {..<n} \<and> (\<forall>s<n. distinct (ro_inner ro a s) \<and> set (ro_inner ro a s) = {..<n})"
  shows "\<exists>st'. cover_brokers ro as st = Some st' \<and> alloc_ok n A st' \<and> (\<forall>a \<in> set as. covered n st st' a) \<and>
    (\<forall>a. a \<notin> set as \<longrightarrow> peek st' a = peek st a \<and> chg st' a = chg st a)"
  using assms(1-3)
proof (induction as arbitrary: st)
  case (Cons a as)
  then have a: "a \<in> A"
    by simp
  obtain st1 where st1: "cover_shards (ro_inner ro a) a (ro_shards ro a) st = Some st1" "alloc_ok n A st1"
    "rebalanced n a st st1" "0 \<le> (\<Sum>x<n. peek st a x) \<longrightarrow> (\<forall>s \<in> {..<n}. 0 \<le> peek st1 a s)"
    using cover_shards_spec [OF Cons.prems(1) a, of "ro_shards ro a" "ro_inner ro a"] ord a by auto
  obtain st2 where st2: "cover_brokers ro as st1 = Some st2" "alloc_ok n A st2" "\<forall>a \<in> set as. covered n st1 st2 a"
    "\<forall>a. a \<notin> set as \<longrightarrow> peek st2 a = peek st1 a \<and> chg st2 a = chg st1 a"
    using Cons.IH [OF st1(2)] Cons.prems by auto
  have same: "peek st2 a = peek st1 a" "chg st2 a = chg st1 a"
    using st2(4) Cons.prems(3) by auto
  have "covered n st st2 a"
    using st1(3,4) by (auto simp: covered_def same rebalanced_def)
  moreover have other: "peek st1 b = peek st b" "chg st1 b = chg st b" if "b \<noteq> a" for b
    using st1(3) that by (auto simp: rebalanced_def)
  moreover have "covered n st1 st2 b = covered n st st2 b" if "b \<noteq> a" for b
    using other [OF that] by (simp add: covered_def)
  then have "\<forall>b \<in> set as. covered n st st2 b"
    using st2(3) Cons.prems(3) by (metis distinct.simps(2))
  ultimately show ?case
    using st1(1) st2 other by auto
qed simp

section \<open>Demand of a batch\<close>

definition demand :: "nat \<Rightarrow> BrokerRawMeg list \<Rightarrow> string \<Rightarrow> nat \<Rightarrow> int" where
  "demand n megs a x =
     (\<Sum>m\<leftarrow>megs. if RawBroker m = a \<and> fetchModifiedMap n (Recipient (Tx m)) = Some x then Value (Tx m) else 0)"

definition placed :: "nat \<Rightarrow> string set \<Rightarrow> BrokerRawMeg \<Rightarrow> bool" where
  "placed n A m \<longleftrightarrow> RawBroker m \<in> A \<and> fetchModifiedMap n (Sender (Tx m)) \<noteq> None \<and>
     fetchModifiedMap n (Recipient (Tx m)) \<noteq> None"

lemma placedE:
  assumes "placed n A m"
  obtains sS rS where "fetchModifiedMap n (Sender (Tx m)) = Some sS" "sS < n"
    "fetchModifiedMap n (Recipient (Tx m)) = Some rS" "rS < n" "RawBroker m \<in> A"
  using assms by (auto simp: placed_def fetchModifiedMap_def dest: Addr2Shard_less)

lemma drain_megs_spec:
  assumes "alloc_ok n A st" "\<forall>m \<in> set megs. placed n A m"
  shows "\<exists>st'. drain_megs n megs st = Some st' \<and> alloc_ok n A st' \<and> brokerChange st' = brokerChange st \<and>
    (\<forall>a x. peek st' a x = peek st a x - demand n megs a x)"
  using assms
proof (induction megs arbitrary: st)
  case (Cons m ms)
  from Cons.prems(2) have "placed n A m"
    by simp
  then obtain sS rS where pl: "fetchModifiedMap n (Sender (Tx m)) = Some sS" "sS < n"
    "fetchModifiedMap n (Recipient (Tx m)) = Some rS" "rS < n" "RawBroker m \<in> A"
    by (rule placedE)
  let ?a = "RawBroker m" and ?v = "Value (Tx m)"
  have ok: "full n (brokerNewBalance st)" "full n (brokerPeekChange st)" "full n (brokerChange st)"
    "dom (brokerNewBalance st) = A" "dom (brokerPeekChange st) = A" "dom (brokerChange st) = A"
    using Cons.prems(1) by (auto simp: alloc_ok_def)
  obtain n1 where n1: "cell_add (brokerNewBalance st) ?a sS ?v = Some n1" "full n n1" "dom n1 = A"
    using cell_add_full [OF ok(1) _ pl(2), of ?a ?v] ok(4) pl(5) by auto
  obtain n2 where n2: "cell_add n1 ?a rS (- ?v) = Some n2" "full n n2" "dom n2 = A"
    using cell_add_full [OF n1(2) _ pl(4), of ?a "- ?v"] n1(3) pl(5) by auto
  obtain p where p: "cell_add (brokerPeekChange st) ?a rS (- ?v) = Some p" "full n p" "dom p = A"
    "bal p = (peek st)(?a := (peek st ?a)(rS := peek st ?a rS + - ?v))"
    using cell_add_full [OF ok(2) _ pl(4), of ?a "- ?v"] ok(5) pl(5) by auto
  let ?st = "st\<lparr> brokerNewBalance := n2, brokerPeekChange := p \<rparr>"
  have "alloc_ok n A ?st"
    using ok n2 p by (simp add: alloc_ok_def)
  then obtain st' where "drain_megs n ms ?st = Some st'" "alloc_ok n A st'" "brokerChange st' = brokerChange ?st"
    "\<forall>a x. peek st' a x = peek ?st a x - demand n ms a x"
    using Cons.IH [of ?st] Cons.prems(2) by auto
  then show ?case
    using pl n1(1) n2(1) p(1,4) by (auto simp: demand_def)
qed (simp add: demand_def)

section \<open>Generated and applied transfers\<close>

text \<open>The net effect of a list of allocated transactions on broker \<open>b\<close> in the shard they are for.\<close>

definition eff :: "Transaction list \<Rightarrow> string \<Rightarrow> int" where
  "eff txs b = (\<Sum>tx\<leftarrow>txs. (if IsAllocatedSender tx \<and> Sender tx = b then - Value tx else 0) +
                          (if IsAllocatedRecipent tx \<and> Recipient tx = b then Value tx else 0))"

lemma eff_simps [simp]:
  "eff [] b = 0" "eff (xs @ ys) b = eff xs b + eff ys b"
  by (simp_all add: eff_def)

lemma eff_allocated_tx [simp]: "eff [allocated_tx H a ty num d] b = (if b = a then d else 0)"
  by (auto simp: eff_def allocated_tx_def NewTransaction_def zeroTransaction_def Let_def)

definition between :: "string set \<Rightarrow> Transaction list \<Rightarrow> bool" where
  "between A txs \<longleftrightarrow> (\<forall>tx \<in> set txs. Sender tx \<in> A \<and> Recipient tx \<in> A)"

lemma between_append [simp]: "between A (xs @ ys) \<longleftrightarrow> between A xs \<and> between A ys"
  by (auto simp: between_def)

lemma between_allocated_tx [simp]: "between A [allocated_tx H a ty num d] \<longleftrightarrow> a \<in> A"
  by (simp add: between_def allocated_tx_def NewTransaction_def zeroTransaction_def Let_def)

lemma gen_shards_spec:
  assumes "full n C" "a \<in> dom C" "set ss \<subseteq> {..<n}" "distinct ss" "\<forall>s. between (dom C) (out s)"
  shows "\<exists>num' out'. gen_shards H C ty a ss num out = Some (num', out') \<and> (\<forall>s. between (dom C) (out' s)) \<and>
    (\<forall>s b. eff (out' s) b = eff (out s) b + (if b = a \<and> s \<in> set ss then bal C a s else 0))"
  using assms(3-5)
proof (induction ss arbitrary: num out)
  case (Cons s ss)
  have c: "cell C a s = Some (bal C a s)"
    using Cons.prems(1) assms(1,2) by (intro cell_full) auto
  show ?case
  proof (cases "bal C a s = 0")
    case True
    then show ?thesis
      using Cons.IH [of out num] Cons.prems c by (fastforce split: if_splits)
  next
    case False
    define out2 where "out2 = out(s := out s @ [allocated_tx H a ty num (bal C a s)])"
    have "\<forall>x. between (dom C) (out2 x)"
      using Cons.prems(3) assms(2) by (auto simp: out2_def)
    then obtain num' out' where "gen_shards H C ty a ss (Suc num) out2 = Some (num', out')"
      "\<forall>s. between (dom C) (out' s)"
      "\<forall>s' b. eff (out' s') b = eff (out2 s') b + (if b = a \<and> s' \<in> set ss then bal C a s' else 0)"
      using Cons.IH [of out2 "Suc num"] Cons.prems(1,2) by auto
    then show ?thesis
      using c False Cons.prems(2) by (auto simp: out2_def)
  qed
qed simp

lemma gen_brokers_spec:
  assumes "full n C" "set as \<subseteq> dom C" "distinct as" "\<forall>s. between (dom C) (out s)"
    and ord: "\<forall>a \<in> dom C. distinct (ro_gen_shards ro a) \<and> set (ro_gen_shards ro a) = {..<n}"
  shows "\<exists>num' out'. gen_brokers H ro C ty as num out = Some (num', out') \<and> (\<forall>s. between (dom C) (out' s)) \<and>
    (\<forall>s b. eff (out' s) b = eff (out s) b + (if b \<in> set as \<and> s < n then bal C b s else 0))"
  using assms(2-4)
proof (induction as arbitrary: num out)
  case (Cons a as)
  then have a: "a \<in> dom C"
    by simp
  obtain num1 out1 where g: "gen_shards H C ty a (ro_gen_shards ro a) num out = Some (num1, out1)"
    "\<forall>s. between (dom C) (out1 s)"
    "\<forall>s b. eff (out1 s) b = eff (out s) b + (if b = a \<and> s \<in> {..<n} then bal C a s else 0)"
    using gen_shards_spec [OF assms(1) a _ _ Cons.prems(3), of "ro_gen_shards ro a" H ty num] ord a by auto
  obtain num2 out2 where "gen_brokers H ro C ty as num1 out1 = Some (num2, out2)"
    "\<forall>s. between (dom C) (out2 s)"
    "\<forall>s b. eff (out2 s) b = eff (out1 s) b + (if b \<in> set as \<and> s < n then bal C b s else 0)"
    using Cons.IH [of out1 num1] Cons.prems g(2) by auto
  then show ?case
    using g Cons.prems(2) by auto
qed simp

lemma cell_add_if:
  fixes B :: "string \<rightharpoonup> ('v::monoid_add) shard_map"
  assumes "full n B" "c \<Longrightarrow> a \<in> dom B" "sid < n"
  shows "\<exists>B'. (if c then cell_add B a sid v else Some B) = Some B' \<and> full n B' \<and> dom B' = dom B \<and>
    (\<forall>b x. bal B' b x = bal B b x + (if x = sid \<and> c \<and> a = b then v else 0))"
proof (cases c)
  case True
  then have "B a \<noteq> None"
    using assms(2) by auto
  then obtain B' where "cell_add B a sid v = Some B'" "full n B'" "dom B' = dom B"
    "bal B' = (bal B)(a := (bal B a)(sid := bal B a sid + v))"
    using cell_add_full [OF assms(1) _ assms(3)] by blast
  then show ?thesis
    using True by auto
qed (use assms(1) in simp)

lemma apply_allocated_spec:
  assumes "full n B" "between (dom B) txs" "sid < n"
  shows "\<exists>B'. apply_allocated sid txs B = Some B' \<and> full n B' \<and> dom B' = dom B \<and>
    (\<forall>b x. bal B' b x = bal B b x + (if x = sid then eff txs b else 0))"
  using assms
proof (induction txs arbitrary: B)
  case (Cons tx txs)
  have d: "Sender tx \<in> dom B" "Recipient tx \<in> dom B" "between (dom B) txs"
    using Cons.prems(2) by (auto simp: between_def)
  obtain B1 where B1: "(if IsAllocatedSender tx then cell_add B (Sender tx) sid (- Value tx) else Some B) = Some B1"
      "full n B1" "dom B1 = dom B"
      "\<forall>b x. bal B1 b x = bal B b x + (if x = sid \<and> IsAllocatedSender tx \<and> Sender tx = b then - Value tx else 0)"
    using cell_add_if [OF Cons.prems(1) d(1) Cons.prems(3)] by blast
  have d1: "Recipient tx \<in> dom B1"
    using d(2) B1(3) by simp
  obtain B2 where B2: "(if IsAllocatedRecipent tx then cell_add B1 (Recipient tx) sid (Value tx) else Some B1) = Some B2"
      "full n B2" "dom B2 = dom B1"
      "\<forall>b x. bal B2 b x = bal B1 b x + (if x = sid \<and> IsAllocatedRecipent tx \<and> Recipient tx = b then Value tx else 0)"
    using cell_add_if [OF B1(2) d1 Cons.prems(3)] by blast
  obtain B3 where B3: "apply_allocated sid txs B2 = Some B3" "full n B3" "dom B3 = dom B2"
    "\<forall>b x. bal B3 b x = bal B2 b x + (if x = sid then eff txs b else 0)"
    using Cons.IH [OF B2(2)] Cons.prems(3) B1(3) B2(3) d(3) by auto
  have "bal B3 b x = bal B b x + (if x = sid then eff (tx # txs) b else 0)" for b x
    using B1(4) B2(4) B3(4) by (simp add: eff_def)
  then show ?case
    using B1(1,3) B2(1,3) B3 by simp
qed simp

lemma handle_allocated_shards_spec:
  assumes "full n B" "\<forall>s. between (dom B) (out s)" "set sids \<subseteq> {..<n}" "distinct sids"
  shows "\<exists>B'. handle_allocated_shards out sids B = Some B' \<and> full n B' \<and> dom B' = dom B \<and>
    (\<forall>b x. bal B' b x = bal B b x + (if x \<in> set sids then eff (out x) b else 0))"
  using assms
proof (induction sids arbitrary: B)
  case (Cons sid sids)
  obtain B1 where B1: "apply_allocated sid (out sid) B = Some B1" "full n B1" "dom B1 = dom B"
    "\<forall>b x. bal B1 b x = bal B b x + (if x = sid then eff (out sid) b else 0)"
    using apply_allocated_spec [OF Cons.prems(1), of "out sid" sid] Cons.prems by auto
  obtain B2 where "handle_allocated_shards out sids B1 = Some B2" "full n B2" "dom B2 = dom B1"
    "\<forall>b x. bal B2 b x = bal B1 b x + (if x \<in> set sids then eff (out x) b else 0)"
    using Cons.IH [OF B1(2)] Cons.prems B1(3) by auto
  then show ?case
    using B1 Cons.prems(4) by auto
qed simp

definition with_tok :: "Broker \<Rightarrow> string \<Rightarrow> ShardBalanceInt \<Rightarrow> ShardBalanceInt \<Rightarrow> Broker" where
  "with_tok b ty LL BB = b\<lparr> LockBalance := (LockBalance b)(ty := LL), BrokerBalance := (BrokerBalance b)(ty := BB) \<rparr>"

lemma with_tok_simps [simp]:
  "LockBalance (with_tok b ty LL BB) ty = LL" "BrokerBalance (with_tok b ty LL BB) ty = BB"
  "BrokerAddress (with_tok b ty LL BB) = BrokerAddress b" "ProfitBalance (with_tok b ty LL BB) = ProfitBalance b"
  "with_tok (with_tok b ty LL BB) ty LL' BB' = with_tok b ty LL' BB'"
  "with_tok b ty (LockBalance b ty) (BrokerBalance b ty) = b"
  by (simp_all add: with_tok_def)

lemma lockToken_spec:
  assumes "full n (BrokerBalance b ty)" "full n (LockBalance b ty)"
    "\<forall>m \<in> set megs. placed n (dom (BrokerBalance b ty)) m"
    "dom (LockBalance b ty) = dom (BrokerBalance b ty)" "dom (BrokerBalance b ty) \<subseteq> set (BrokerAddress b)"
  shows "\<exists>BB LL. lockToken n megs ty b = Some (with_tok b ty LL BB) \<and>
    full n BB \<and> full n LL \<and> dom BB = dom (BrokerBalance b ty) \<and> dom LL = dom (BrokerBalance b ty) \<and>
    (\<forall>a x. bal BB a x = bal (BrokerBalance b ty) a x - demand n megs a x) \<and>
    (\<forall>a x. bal LL a x = bal (LockBalance b ty) a x + demand n megs a x)"
  using assms
proof (induction megs arbitrary: b)
  case Nil
  show ?case
    by (rule exI [of _ "BrokerBalance b ty"], rule exI [of _ "LockBalance b ty"])
       (use Nil in \<open>simp add: demand_def\<close>)
next
  case (Cons m ms)
  let ?a = "RawBroker m" and ?v = "Value (Tx m)" and ?A = "dom (BrokerBalance b ty)"
  from Cons.prems(3) have "placed n ?A m"
    by simp
  then obtain rS where pl: "fetchModifiedMap n (Recipient (Tx m)) = Some rS" "rS < n" "?a \<in> ?A"
    by (blast elim: placedE)
  then have dom: "LockBalance b ty ?a \<noteq> None" "BrokerBalance b ty ?a \<noteq> None" and br: "?a \<in> set (BrokerAddress b)"
    using Cons.prems(4,5) by blast+
  obtain LK where LK: "cell_add (LockBalance b ty) ?a rS ?v = Some LK" "full n LK" "dom LK = dom (LockBalance b ty)"
    "bal LK = (bal (LockBalance b ty))(?a := (bal (LockBalance b ty) ?a)(rS := bal (LockBalance b ty) ?a rS + ?v))"
    using cell_add_full [OF Cons.prems(2) dom(1) pl(2)] by blast
  obtain BK where BK: "cell_add (BrokerBalance b ty) ?a rS (- ?v) = Some BK" "full n BK" "dom BK = ?A"
    "bal BK = (bal (BrokerBalance b ty))(?a := (bal (BrokerBalance b ty) ?a)(rS := bal (BrokerBalance b ty) ?a rS + - ?v))"
    using cell_add_full [OF Cons.prems(1) dom(2) pl(2)] by blast
  have step: "lockToken n (m # ms) ty b = lockToken n ms ty (with_tok b ty LK BK)"
    using pl br LK(1) BK(1) by (simp add: with_tok_def)
  obtain BB LL where r: "lockToken n ms ty (with_tok b ty LK BK) = Some (with_tok b ty LL BB)"
    "full n BB" "full n LL" "dom BB = ?A" "dom LL = ?A"
    "\<forall>a x. bal BB a x = bal BK a x - demand n ms a x" "\<forall>a x. bal LL a x = bal LK a x + demand n ms a x"
    using Cons.IH [of "with_tok b ty LK BK"] Cons.prems LK(2,3) BK(2,3) by auto
  have "bal BB a x = bal (BrokerBalance b ty) a x - demand n (m # ms) a x"
    "bal LL a x = bal (LockBalance b ty) a x + demand n (m # ms) a x" for a x
    using r(6,7) LK(4) BK(4) pl(1) by (auto simp: demand_def)
  then show ?case
    unfolding step r(1) using r(2-5) by blast
qed

section \<open>The batch as a whole\<close>

text \<open>The balance updates \<open>dealTxByBroker\<close> performs for a batch the allocation accepted.\<close>

definition allocate_and_lock ::
  "(Transaction \<Rightarrow> bytes) \<Rightarrow> nat \<Rightarrow> range_orders \<Rightarrow> nat list \<Rightarrow> BrokerRawMeg list \<Rightarrow> string \<Rightarrow> committee \<Rightarrow> committee panics" where
  "allocate_and_lock H ShardNum ro sids megs tx_type c = do {
     (allocatedTxs, c1) \<leftarrow> GenerateAllocatedTx H ShardNum ro megs tx_type c;
     b1 \<leftarrow> handleAllocatedTx sids allocatedTxs tx_type (CBroker c1);
     b2 \<leftarrow> lockToken ShardNum megs tx_type b1;
     Some (c1\<lparr> CBroker := b2 \<rparr>) }"

text \<open>The registry is consistent for a coin: every broker with a balance is listed, and has balance
  and lock entries for exactly the existing shards.\<close>

definition registry_ok :: "nat \<Rightarrow> string \<Rightarrow> Broker \<Rightarrow> bool" where
  "registry_ok n ty b \<longleftrightarrow>
     full n (BrokerBalance b ty) \<and> full n (LockBalance b ty) \<and> full n (ProfitBalance b ty) \<and>
     dom (LockBalance b ty) = dom (BrokerBalance b ty) \<and> dom (ProfitBalance b ty) = dom (BrokerBalance b ty) \<and>
     dom (BrokerBalance b ty) \<subseteq> set (BrokerAddress b)"

abbreviation bbal :: "committee \<Rightarrow> string \<Rightarrow> string \<Rightarrow> nat \<Rightarrow> int" where
  "bbal c ty \<equiv> bal (BrokerBalance (CBroker c) ty)"

abbreviation block :: "committee \<Rightarrow> string \<Rightarrow> string \<Rightarrow> nat \<Rightarrow> int" where
  "block c ty \<equiv> bal (LockBalance (CBroker c) ty)"

lemma init_alloc_ok:
  assumes "full n BB"
  shows "alloc_ok n (dom BB) (init_alloc BB)" "chg (init_alloc BB) a x = 0" "peek (init_alloc BB) = bal BB"
proof -
  have "dom (\<lambda>sid. map_option (\<lambda>_. 0 :: int) (z sid)) = {..<n}" if "BB a = Some z" for a z
  proof -
    have "dom (\<lambda>sid. map_option (\<lambda>_. 0 :: int) (z sid)) = dom z"
      by (simp add: dom_def)
    then show ?thesis
      using assms that by (simp add: full_def)
  qed
  then have "full n (\<lambda>a. map_option (\<lambda>m sid. map_option (\<lambda>_. 0) (m sid)) (BB a) :: int shard_map option)"
    unfolding full_def by (metis (no_types, lifting) map_option_eq_Some)
  then show "alloc_ok n (dom BB) (init_alloc BB)"
    using assms by (simp add: alloc_ok_def init_alloc_def dom_def)
  show "chg (init_alloc BB) a x = 0"
    by (auto simp: init_alloc_def bal_def cell_def split: option.splits)
qed (simp add: init_alloc_def)

lemma GenerateAllocatedTx_spec:
  assumes "full n (BrokerBalance (CBroker c) ty)" "\<forall>m \<in> set megs. placed n (dom (BrokerBalance (CBroker c) ty)) m"
    "orders_ok n (dom (BrokerBalance (CBroker c) ty)) ro"
  shows "\<exists>out num ch. GenerateAllocatedTx H n ro megs ty c = Some (out, c\<lparr> nowDataNum := num \<rparr>) \<and>
    (\<forall>s. between (dom (BrokerBalance (CBroker c) ty)) (out s)) \<and>
    (\<forall>a \<in> dom (BrokerBalance (CBroker c) ty). \<forall>s<n. eff (out s) a = ch a s) \<and>
    (\<forall>a \<in> dom (BrokerBalance (CBroker c) ty). (\<Sum>s<n. ch a s) = 0 \<and>
       ((\<Sum>s<n. demand n megs a s) \<le> (\<Sum>s<n. bbal c ty a s) \<longrightarrow>
          (\<forall>s<n. 0 \<le> bbal c ty a s - demand n megs a s + ch a s)))"
proof -
  let ?A = "dom (BrokerBalance (CBroker c) ty)" and ?st0 = "init_alloc (BrokerBalance (CBroker c) ty)"
  note st0 = init_alloc_ok [OF assms(1)]
  obtain st1 where st1: "drain_megs n megs ?st0 = Some st1" "alloc_ok n ?A st1" "brokerChange st1 = brokerChange ?st0"
    "\<forall>a x. peek st1 a x = peek ?st0 a x - demand n megs a x"
    using drain_megs_spec [OF st0(1) assms(2)] by blast
  obtain st2 where st2: "cover_brokers ro (ro_brokers ro) st1 = Some st2" "alloc_ok n ?A st2" "\<forall>a \<in> ?A. covered n st1 st2 a"
    using cover_brokers_spec [OF st1(2), of "ro_brokers ro" ro] assms(3) by (auto simp: orders_ok_def)
  have C: "full n (brokerChange st2)" "dom (brokerChange st2) = ?A"
    using st2(2) by (auto simp: alloc_ok_def)
  obtain num out where g: "gen_brokers H ro (brokerChange st2) ty (ro_gen_brokers ro) (nowDataNum c) (\<lambda>_. []) = Some (num, out)"
    "\<forall>s. between ?A (out s)" "\<forall>s b. eff (out s) b = (if b \<in> ?A \<and> s < n then chg st2 b s else 0)"
    using gen_brokers_spec [OF C(1), of "ro_gen_brokers ro" "\<lambda>_. []" ro H ty "nowDataNum c"] C(2) assms(3)
    by (auto simp: orders_ok_def between_def)
  have p1: "peek st1 a x = bbal c ty a x - demand n megs a x" for a x
    using st1(4) st0(3) by simp
  have c1: "chg st1 a x = 0" for a x
    using st1(3) st0(2) by simp
  have p2: "peek st2 a x = bbal c ty a x - demand n megs a x + chg st2 a x" if "a \<in> ?A" for a x
  proof -
    have "peek st2 a x - peek st1 a x = chg st2 a x - chg st1 a x"
      using st2(3) that by (simp add: covered_def)
    then show ?thesis
      using p1 [of a x] c1 [of a x] by linarith
  qed
  have sum0: "(\<Sum>s<n. chg st2 a s) = 0" if "a \<in> ?A" for a
  proof -
    have "(\<Sum>s<n. peek st2 a s) = (\<Sum>s<n. peek st1 a s)"
      using st2(3) that by (simp add: covered_def)
    then show ?thesis
      by (simp add: p2 [OF that] p1 sum.distrib)
  qed
  have "0 \<le> bbal c ty a s - demand n megs a s + chg st2 a s"
    if "a \<in> ?A" "(\<Sum>s<n. demand n megs a s) \<le> (\<Sum>s<n. bbal c ty a s)" "s < n" for a s
  proof -
    have "0 \<le> (\<Sum>x<n. peek st1 a x)"
      using that(2) by (simp add: p1 sum_subtractf)
    then have "0 \<le> peek st2 a s"
      using st2(3) that(1,3) unfolding covered_def by blast
    then show ?thesis
      using p2 [OF that(1), of s] by simp
  qed
  moreover have "GenerateAllocatedTx H n ro megs ty c = Some (out, c\<lparr> nowDataNum := num \<rparr>)"
    using st1(1) st2(1) g(1) by (simp add: GenerateAllocatedTx_def)
  ultimately show ?thesis
    using g(2,3) sum0 by (intro exI [of _ out] exI [of _ num] exI [of _ "chg st2"]) auto
qed

lemma allocate_and_lock_spec:
  assumes "registry_ok n ty (CBroker c)"
    "\<forall>m \<in> set megs. placed n (dom (BrokerBalance (CBroker c) ty)) m"
    "orders_ok n (dom (BrokerBalance (CBroker c) ty)) ro" "distinct sids" "set sids = {..<n}"
    "\<forall>a \<in> dom (BrokerBalance (CBroker c) ty). (\<Sum>s<n. demand n megs a s) \<le> (\<Sum>s<n. bbal c ty a s)"
  shows "\<exists>c'. allocate_and_lock H n ro sids megs ty c = Some c' \<and> registry_ok n ty (CBroker c') \<and>
    (\<forall>a \<in> dom (BrokerBalance (CBroker c) ty).
       (\<forall>s<n. 0 \<le> bbal c' ty a s \<and> block c' ty a s = block c ty a s + demand n megs a s) \<and>
       (\<Sum>s<n. bbal c' ty a s + block c' ty a s) = (\<Sum>s<n. bbal c ty a s + block c ty a s))"
proof -
  let ?b = "CBroker c"
  let ?A = "dom (BrokerBalance ?b ty)"
  note reg = assms(1) [unfolded registry_ok_def]
  obtain out num ch where g: "GenerateAllocatedTx H n ro megs ty c = Some (out, c\<lparr> nowDataNum := num \<rparr>)"
    "\<forall>s. between ?A (out s)" "\<forall>a \<in> ?A. \<forall>s<n. eff (out s) a = ch a s"
    and bal: "\<forall>a \<in> ?A. (\<Sum>s<n. ch a s) = 0 \<and>
       ((\<Sum>s<n. demand n megs a s) \<le> (\<Sum>s<n. bbal c ty a s) \<longrightarrow>
          (\<forall>s<n. 0 \<le> bbal c ty a s - demand n megs a s + ch a s))"
    using GenerateAllocatedTx_spec [OF conjunct1 [OF reg] assms(2,3), of H] by blast
  have ch: "\<forall>a \<in> ?A. (\<Sum>s<n. ch a s) = 0"
    "\<forall>a \<in> ?A. \<forall>s<n. 0 \<le> bbal c ty a s - demand n megs a s + ch a s"
    using bal assms(6) by blast+
  obtain B1 where B1: "handle_allocated_shards out sids (BrokerBalance ?b ty) = Some B1" "full n B1" "dom B1 = ?A"
    "\<forall>a x. bal B1 a x = bbal c ty a x + (if x \<in> set sids then eff (out x) a else 0)"
    using handle_allocated_shards_spec [of n "BrokerBalance ?b ty" out sids] g(2) assms(4,5) reg by auto
  let ?b1 = "with_tok ?b ty (LockBalance ?b ty) B1"
  obtain BB LL where l: "lockToken n megs ty ?b1 = Some (with_tok ?b ty LL BB)" "full n BB" "full n LL" "dom BB = ?A" "dom LL = ?A"
    "\<forall>a x. bal BB a x = bal B1 a x - demand n megs a x" "\<forall>a x. bal LL a x = block c ty a x + demand n megs a x"
    using lockToken_spec [of n ?b1 ty megs] B1(2,3) assms(2) reg by auto
  let ?c = "c\<lparr> nowDataNum := num, CBroker := with_tok ?b ty LL BB \<rparr>"
  have run: "allocate_and_lock H n ro sids megs ty c = Some ?c"
    using g(1) B1(1) l(1) by (simp add: allocate_and_lock_def handleAllocatedTx_def with_tok_def)
  have BBv: "bal BB a s = bbal c ty a s - demand n megs a s + ch a s" if "a \<in> ?A" "s < n" for a s
    using B1(4) l(6) g(3) that assms(5) by simp
  have sums: "(\<Sum>s<n. bal BB a s + bal LL a s) = (\<Sum>s<n. bbal c ty a s + block c ty a s)" if "a \<in> ?A" for a
    using ch(1) that by (simp add: l(7) BBv [OF that] sum.distrib)
  have "registry_ok n ty (CBroker ?c)"
    using reg l(2-5) by (simp add: registry_ok_def)
  moreover have "0 \<le> bal BB a s" if "a \<in> ?A" "s < n" for a s
    using ch(2) that by (simp add: BBv)
  ultimately show ?thesis
    using run sums l(7) by (intro exI [of _ ?c]) simp
qed

text \<open>C12: a batch of cross-shard transactions never overdraws a broker. Whatever the order in which
  the maps are traversed, if the registry is consistent, every transaction of the batch is
  assigned to a broker with balances and has shards, and each broker's total balance covers the
  total value assigned to it, then generating the rebalancing transfers, applying them and
  locking the values succeeds; afterwards no balance of any broker in any shard is negative,
  the locked amount of each shard grew by exactly the value assigned there, and balance plus
  locked amount, summed over the shards, is what it was for every broker.\<close>
theorem batch_never_overdraws:
  assumes "registry_ok n ty (CBroker c)"
    "\<forall>m \<in> set megs. placed n (dom (BrokerBalance (CBroker c) ty)) m"
    "orders_ok n (dom (BrokerBalance (CBroker c) ty)) ro" "distinct sids" "set sids = {..<n}"
    "\<forall>a \<in> dom (BrokerBalance (CBroker c) ty). (\<Sum>s<n. demand n megs a s) \<le> (\<Sum>s<n. bbal c ty a s)"
  shows "\<exists>c'. allocate_and_lock H n ro sids megs ty c = Some c' \<and> registry_ok n ty (CBroker c') \<and>
    (\<forall>a \<in> dom (BrokerBalance (CBroker c) ty).
       (\<forall>s<n. 0 \<le> bbal c' ty a s \<and> block c' ty a s = block c ty a s + demand n megs a s) \<and>
       (\<Sum>s<n. bbal c' ty a s + block c' ty a s) = (\<Sum>s<n. bbal c ty a s + block c ty a s))"
  using allocate_and_lock_spec [OF assms] .

text \<open>A concrete instance: one broker with 10000 in each of two shards, and one transaction of 15000
  from shard 0 to shard 1, which needs 5000 to be moved first.\<close>

definition example_meg :: BrokerRawMeg where
  "example_meg = \<lparr> TxPtr = 0, Tx = zeroTransaction\<lparr> Sender := ''00000000'', Recipient := ''00000001'', Value := 15000, Txtype := ''BKC'' \<rparr>,
     RawBroker = ''b'' \<rparr>"

definition example_orders :: range_orders where
  "example_orders = \<lparr> ro_brokers = [''b''], ro_shards = (\<lambda>a. [1, 0]), ro_inner = (\<lambda>a s. [0, 1]),
     ro_gen_brokers = [''b''], ro_gen_shards = (\<lambda>a. [0, 1]) \<rparr>"

definition example_committee :: committee where
  "example_committee = NewBrokerCommitteeMod_b2e 2 [''b''] 1"

lemma example_balances:
  "BrokerBalance (CBroker example_committee) ''BKC'' = [''b'' \<mapsto> fill_shards 2 10000]"
  "LockBalance (CBroker example_committee) ''BKC'' = [''b'' \<mapsto> fill_shards 2 0]"
  "ProfitBalance (CBroker example_committee) ''BKC'' = [''b'' \<mapsto> fill_shards 2 0]"
  "BrokerAddress (CBroker example_committee) = [''b'']"
  by (simp_all add: example_committee_def NewBrokerCommitteeMod_b2e_def NewBroker_def initBrokerBalance_def
      Init_broker_Balance_def Transaction_Types_def Let_def)

lemma full_fill: "full n [a \<mapsto> fill_shards n v]"
  by (auto simp: full_def fill_shards_apply dom_def split: if_splits)

lemma example_shards: "fetchModifiedMap 2 ''00000000'' = Some 0" "fetchModifiedMap 2 ''00000001'' = Some 1"
  by (simp_all add: fetchModifiedMap_def Addr2Shard_def ParseUint16_def hex_digit_def Let_def)

lemma upto_2: "{..<2} = {0, 1 :: nat}" "{..<2} = {1, 0 :: nat}"
  by auto

theorem batch_never_overdraws_witness:
  "\<exists>c'. allocate_and_lock (\<lambda>tx. []) 2 example_orders [0, 1] [example_meg] ''BKC'' example_committee = Some c' \<and>
     (\<forall>s<2. 0 \<le> bbal c' ''BKC'' ''b'' s)"
proof -
  have h1: "registry_ok 2 ''BKC'' (CBroker example_committee)"
    by (simp add: registry_ok_def example_balances full_fill)
  have h2: "\<forall>m \<in> set [example_meg]. placed 2 (dom (BrokerBalance (CBroker example_committee) ''BKC'')) m"
    by (simp add: placed_def example_meg_def example_balances example_shards zeroTransaction_def)
  have h3: "orders_ok 2 (dom (BrokerBalance (CBroker example_committee) ''BKC'')) example_orders"
    by (simp add: orders_ok_def example_orders_def example_balances) (use upto_2 in auto)
  have h4: "distinct [0, 1 :: nat]" "set [0, 1 :: nat] = {..<2}"
    by auto
  have h5: "\<forall>a \<in> dom (BrokerBalance (CBroker example_committee) ''BKC'').
      (\<Sum>s<2. demand 2 [example_meg] a s) \<le> (\<Sum>s<2. bbal example_committee ''BKC'' a s)"
    by (simp add: example_balances demand_def example_meg_def example_shards zeroTransaction_def upto_2 bal_def cell_def fill_shards_apply)
  obtain c' where r: "allocate_and_lock (\<lambda>tx. []) 2 example_orders [0, 1] [example_meg] ''BKC'' example_committee = Some c'"
    "\<forall>a \<in> dom (BrokerBalance (CBroker example_committee) ''BKC''). \<forall>s<2. 0 \<le> bbal c' ''BKC'' a s"
    using batch_never_overdraws [OF h1 h2 h3 h4 h5, of "\<lambda>tx. []"] by blast
  then show ?thesis
    by (simp add: example_balances)
qed

section \<open>Settlement\<close>

definition token_total :: "nat \<Rightarrow> Broker \<Rightarrow> string \<Rightarrow> string \<Rightarrow> int" where
  "token_total n b ty a = (\<Sum>s<n. bal (BrokerBalance b ty) a s + bal (LockBalance b ty) a s)"

definition solvent :: "Broker \<Rightarrow> bool" where
  "solvent b \<longleftrightarrow> (\<forall>ty a s. 0 \<le> bal (LockBalance b ty) a s \<and> 0 \<le> bal (BrokerBalance b ty) a s)"

text \<open>An executed first half that the committee can account: its parties have shards, its coin is
  consistent in the registry, and a listed broker has balances in that coin.\<close>

definition settle_ready :: "nat \<Rightarrow> Broker \<Rightarrow> Transaction \<Rightarrow> bool" where
  "settle_ready n b tx \<longleftrightarrow>
     fetchModifiedMap n (OriginalSender tx) \<noteq> None \<and> fetchModifiedMap n (FinalRecipient tx) \<noteq> None \<and>
     registry_ok n (Txtype tx) b \<and> 0 \<le> Value tx \<and>
     (Recipient tx \<in> set (BrokerAddress b) \<longrightarrow> Recipient tx \<in> dom (BrokerBalance b (Txtype tx)))"

definition same_registry :: "nat \<Rightarrow> Broker \<Rightarrow> Broker \<Rightarrow> bool" where
  "same_registry n b b' \<longleftrightarrow> BrokerAddress b' = BrokerAddress b \<and> Brokerage b' = Brokerage b \<and>
     (\<forall>ty. dom (BrokerBalance b' ty) = dom (BrokerBalance b ty)) \<and>
     (\<forall>ty. registry_ok n ty b \<longrightarrow> registry_ok n ty b')"

lemma settle_one:
  assumes "settle_ready n b tx" "Recipient tx \<in> set (BrokerAddress b)"
    and sS: "fetchModifiedMap n (OriginalSender tx) = Some sS" and rS: "fetchModifiedMap n (FinalRecipient tx) = Some rS"
    and fit: "Value tx \<le> bal (LockBalance b (Txtype tx)) (Recipient tx) rS"
  shows "\<exists>b'. settle_broker1 n (tx # txs) b = settle_broker1 n txs b' \<and> same_registry n b b' \<and>
    (solvent b \<longrightarrow> solvent b') \<and> (\<forall>ty a. token_total n b' ty a = token_total n b ty a)"
proof -
  let ?ty = "Txtype tx" and ?a = "Recipient tx" and ?v = "Value tx"
  let ?f = "rat_of_int (int64_of (Fee tx)) * Brokerage b"
  have lt: "sS < n" "rS < n"
    using sS rS by (auto simp: fetchModifiedMap_def dest: Addr2Shard_less)
  have reg: "full n (BrokerBalance b ?ty)" "full n (LockBalance b ?ty)" "full n (ProfitBalance b ?ty)"
    "dom (LockBalance b ?ty) = dom (BrokerBalance b ?ty)" "dom (ProfitBalance b ?ty) = dom (BrokerBalance b ?ty)"
    "dom (BrokerBalance b ?ty) \<subseteq> set (BrokerAddress b)" "?a \<in> dom (BrokerBalance b ?ty)" "0 \<le> ?v"
    using assms(1,2) by (auto simp: settle_ready_def registry_ok_def)
  have dom: "BrokerBalance b ?ty ?a \<noteq> None" "LockBalance b ?ty ?a \<noteq> None" "ProfitBalance b ?ty ?a \<noteq> None"
    using reg(4,5,7) by blast+
  obtain lk where lk: "cell_add (LockBalance b ?ty) ?a rS (- ?v) = Some lk" "full n lk" "dom lk = dom (LockBalance b ?ty)"
    "bal lk = (bal (LockBalance b ?ty))(?a := (bal (LockBalance b ?ty) ?a)(rS := bal (LockBalance b ?ty) ?a rS + - ?v))"
    using cell_add_full [OF reg(2) dom(2) lt(2)] by blast
  obtain bl where bl: "cell_add (BrokerBalance b ?ty) ?a sS ?v = Some bl" "full n bl" "dom bl = dom (BrokerBalance b ?ty)"
    "bal bl = (bal (BrokerBalance b ?ty))(?a := (bal (BrokerBalance b ?ty) ?a)(sS := bal (BrokerBalance b ?ty) ?a sS + ?v))"
    using cell_add_full [OF reg(1) dom(1) lt(1)] by blast
  obtain pr where pr: "cell_add (ProfitBalance b ?ty) ?a sS ?f = Some pr" "full n pr" "dom pr = dom (ProfitBalance b ?ty)"
    using cell_add_full [OF reg(3) dom(3) lt(1)] by blast
  let ?b = "b\<lparr> LockBalance := (LockBalance b)(?ty := lk), BrokerBalance := (BrokerBalance b)(?ty := bl),
              ProfitBalance := (ProfitBalance b)(?ty := pr) \<rparr>"
  have "settle_broker1 n (tx # txs) b = settle_broker1 n txs ?b"
    using sS rS assms(2) cell_full [OF reg(2) dom(2) lt(2)] fit lk(1) bl(1) pr(1) by simp
  moreover have "same_registry n b ?b"
    using lk bl pr reg by (auto simp: same_registry_def registry_ok_def)
  moreover have "solvent b \<longrightarrow> solvent ?b"
    using fit reg(8) by (auto simp: solvent_def lk(4) bl(4))
  moreover have "token_total n ?b ty a = token_total n b ty a" for ty a
  proof (cases "ty = ?ty \<and> a = ?a")
    case True
    have "(\<Sum>s<n. bal bl ?a s) = (\<Sum>s<n. bal (BrokerBalance b ?ty) ?a s) + ?v"
      "(\<Sum>s<n. bal lk ?a s) = (\<Sum>s<n. bal (LockBalance b ?ty) ?a s) + - ?v"
      using sum_bump [OF lt(1), of "bal (BrokerBalance b ?ty) ?a" ?v] sum_bump [OF lt(2), of "bal (LockBalance b ?ty) ?a" "- ?v"]
      by (simp_all only: lk(4) bl(4) fun_upd_same)
    then show ?thesis
      using True by (simp add: token_total_def sum.distrib)
  qed (auto simp: token_total_def lk(4) bl(4))
  ultimately show ?thesis
    by blast
qed

lemma same_registry_trans: "same_registry n b b1 \<Longrightarrow> same_registry n b1 b2 \<Longrightarrow> same_registry n b b2"
  by (simp add: same_registry_def)

lemma same_registry_ready: "same_registry n b b' \<Longrightarrow> settle_ready n b tx \<Longrightarrow> settle_ready n b' tx"
  by (auto simp: same_registry_def settle_ready_def)

lemma settle_broker1_spec:
  assumes "\<forall>tx \<in> set txs. settle_ready n b tx"
  shows "\<exists>b'. settle_broker1 n txs b = Some b' \<and> same_registry n b b' \<and> (solvent b \<longrightarrow> solvent b') \<and>
    (\<forall>ty a. token_total n b' ty a = token_total n b ty a)"
  using assms
proof (induction txs arbitrary: b)
  case Nil
  show ?case
    by (simp add: same_registry_def)
next
  case (Cons tx txs)
  then have ready: "settle_ready n b tx"
    by simp
  then obtain sS rS where f: "fetchModifiedMap n (OriginalSender tx) = Some sS" "fetchModifiedMap n (FinalRecipient tx) = Some rS"
    by (auto simp: settle_ready_def)
  show ?case
  proof (cases "Recipient tx \<in> set (BrokerAddress b) \<and> Value tx \<le> bal (LockBalance b (Txtype tx)) (Recipient tx) rS")
    case True
    obtain b1 where b1: "settle_broker1 n (tx # txs) b = settle_broker1 n txs b1" "same_registry n b b1"
      "solvent b \<longrightarrow> solvent b1" "\<forall>ty a. token_total n b1 ty a = token_total n b ty a"
      using settle_one [OF ready conjunct1 [OF True] f conjunct2 [OF True]] by blast
    have "\<forall>tx \<in> set txs. settle_ready n b1 tx"
      using Cons.prems same_registry_ready [OF b1(2)] by simp
    from Cons.IH [OF this] obtain b2 where b2: "settle_broker1 n txs b1 = Some b2" "same_registry n b1 b2"
      "solvent b1 \<longrightarrow> solvent b2" "\<forall>ty a. token_total n b2 ty a = token_total n b1 ty a"
      by blast
    then show ?thesis
      using b1 same_registry_trans [OF b1(2) b2(2)] by auto
  next
    case False
    have "settle_broker1 n (tx # txs) b = settle_broker1 n txs b"
    proof (cases "Recipient tx \<in> set (BrokerAddress b)")
      case True
      have "cell (LockBalance b (Txtype tx)) (Recipient tx) rS = Some (bal (LockBalance b (Txtype tx)) (Recipient tx) rS)"
      proof (rule cell_full)
        show "full n (LockBalance b (Txtype tx))"
          using ready by (simp add: settle_ready_def registry_ok_def)
        show "LockBalance b (Txtype tx) (Recipient tx) \<noteq> None"
          using ready True by (auto simp: settle_ready_def registry_ok_def dom_def)
        show "rS < n"
          using f(2) by (auto simp: fetchModifiedMap_def dest: Addr2Shard_less)
      qed
      then show ?thesis
        using True False f by simp
    qed (use f in simp)
    then show ?thesis
      using Cons.IH [of b] Cons.prems by simp
  qed
qed



end
