(* ===== verification/B2E.thy ===== *)
theory B2E
  imports Liquidity "HOL-Library.List_Lexorder" "HOL-Library.Char_ord"
begin

text \<open>
  The broker assignment of \<open>supervisor/Broker2Earn/\<close>: the linear relaxation (\<open>URFA.go\<close>), its
  randomised rounding (\<open>rounding.go\<close>) and the iteration around them (\<open>B2E.go\<close>), followed by
  \<open>dealTxByBroker\<close> of the committee, which feeds cross-shard transactions to it and then moves
  and locks the brokers' liquidity.

  Transactions are compared by pointer in the program: \<open>TxPtr\<close> is that pointer. The random numbers
  are a function \<open>rnd\<close> of the iteration and the draw, \<open>srt\<close> is the sort, and \<open>ord\<close> gives the order in
  which a map with a given key set is ranged over at a given point; \<open>float64\<close> and \<open>big.Float\<close>
  values are exact rationals.
\<close>

section \<open>Definitions\<close>

type_synonym range_order = "nat \<times> nat \<times> nat \<Rightarrow> string set \<Rightarrow> string list"

record RatioBrokerRawMeg =
  RTxPtr :: nat
  RTx :: Transaction
  BrokerRatio :: "string \<rightharpoonup> rat"

record urfa_state =
  u_now :: "string \<Rightarrow> int"
  u_idx :: nat
  u_res :: "RatioBrokerRawMeg list"

text \<open>The inner loop of \<open>URFA_Linear\<close>. The balances it looks at are those of \<open>brokerIndex\<close>, not of \<open>j\<close>.\<close>

fun rest_ratio ::
  "(string \<Rightarrow> int) \<Rightarrow> (string \<Rightarrow> int) \<Rightarrow> string \<Rightarrow> int \<Rightarrow> rat \<Rightarrow> string list \<Rightarrow> (string \<rightharpoonup> rat) \<Rightarrow> (string \<rightharpoonup> rat)" where
  "rest_ratio now BB cur sub ratio [] m = m"
| "rest_ratio now BB cur sub ratio (j # js) m =
     (if BB cur < now cur + sub then rest_ratio now BB cur sub ratio js m else m(j \<mapsto> ratio))"

fun urfa_loop ::
  "string list \<Rightarrow> (string \<Rightarrow> int) \<Rightarrow> (nat \<times> Transaction) list \<Rightarrow> urfa_state \<Rightarrow> RatioBrokerRawMeg list" where
  "urfa_loop addrs BB [] st = u_res st"
| "urfa_loop addrs BB ((p, tx) # txs) st =
     (if length addrs \<le> u_idx st then u_res st
      else
        let cur = addrs ! u_idx st; brokerB = u_now st cur; brokerC = BB cur in
        if brokerC < Value tx then urfa_loop addrs BB txs st
        else if brokerB < brokerC \<and> brokerC \<le> brokerB + Value tx then
          let now1 = (u_now st)(cur := brokerC);
              sub = brokerB + Value tx - brokerC;
              ratio = rat_of_int sub / rat_of_int (Value tx);
              idx1 = Suc (u_idx st)
          in if length addrs \<le> idx1 then u_res st
             else
               let m = rest_ratio now1 BB (addrs ! idx1) sub ratio (drop idx1 addrs) [cur \<mapsto> 1 - ratio]
               in urfa_loop addrs BB txs
                    \<lparr> u_now = now1, u_idx = idx1, u_res = u_res st @ [\<lparr> RTxPtr = p, RTx = tx, BrokerRatio = m \<rparr>] \<rparr>
        else
          urfa_loop addrs BB txs
            (st\<lparr> u_now := (u_now st)(cur := brokerB + Value tx),
                 u_res := u_res st @ [\<lparr> RTxPtr = p, RTx = tx, BrokerRatio = [cur \<mapsto> 1] \<rparr>] \<rparr>))"

definition fee_ratio :: "Transaction \<Rightarrow> rat" where
  "fee_ratio tx = rat_of_int (Fee tx) / (rat_of_int (Value tx) + 1 / 1000000)"

definition URFA_Linear ::
  "((nat \<times> Transaction) list \<Rightarrow> (nat \<times> Transaction) list) \<Rightarrow> string list \<Rightarrow> BrokerRawMeg list \<Rightarrow> (string \<Rightarrow> int)
     \<Rightarrow> RatioBrokerRawMeg list" where
  "URFA_Linear srt brokerAddresses megs BB =
     urfa_loop brokerAddresses BB (srt (map (\<lambda>m. (TxPtr m, Tx m)) megs))
       \<lparr> u_now = (\<lambda>_. 0), u_idx = 0, u_res = [] \<rparr>"

text \<open>\<open>Random_choice\<close>: \<open>None\<close> is the result -1.\<close>

fun random_choice_from :: "rat \<Rightarrow> nat \<Rightarrow> rat \<Rightarrow> rat list \<Rightarrow> nat option" where
  "random_choice_from r i cum [] = None"
| "random_choice_from r i cum (p # ps) =
     (if r \<le> cum + p then Some i else random_choice_from r (Suc i) (cum + p) ps)"

definition Random_choice :: "rat \<Rightarrow> rat list \<Rightarrow> nat option" where
  "Random_choice r probility = random_choice_from r 0 0 probility"

text \<open>The ways the rounding can fail: the draw exceeds every cumulative probability and the index -1 is
  used, a slice expression is out of range, or the loop does not end within its fuel.\<close>

datatype rounding_error = NegativeChoice | SliceOutOfRange | OutOfFuel

record rounding_state =
  r_now :: "string \<Rightarrow> int"
  broker2Tx :: "string \<Rightarrow> (nat \<times> Transaction) list"
  broker2Ratio :: "string \<Rightarrow> rat list"
  tx2broker :: "nat \<Rightarrow> (string \<rightharpoonup> int)"
  r_res :: "BrokerRawMeg list"
  r_draws :: nat

text \<open>Step 1: the transactions of each broker, and the position of each transaction in them.\<close>

fun index_brokers :: "RatioBrokerRawMeg \<Rightarrow> string list \<Rightarrow> rounding_state \<Rightarrow> rounding_state" where
  "index_brokers m [] st = st"
| "index_brokers m (a # as) st =
     index_brokers m as
       (st\<lparr> broker2Tx := (broker2Tx st)(a := broker2Tx st a @ [(RTxPtr m, RTx m)]),
            broker2Ratio := (broker2Ratio st)(a := broker2Ratio st a @ [the (BrokerRatio m a)]),
            tx2broker := (tx2broker st)(RTxPtr m := (tx2broker st (RTxPtr m))(a \<mapsto> int (length (broker2Tx st a)))) \<rparr>)"

fun index_megs :: "range_order \<Rightarrow> nat \<Rightarrow> nat \<Rightarrow> RatioBrokerRawMeg list \<Rightarrow> rounding_state \<Rightarrow> rounding_state" where
  "index_megs ord it k [] st = st"
| "index_megs ord it k (m # ms) st =
     index_megs ord it (Suc k) ms (index_brokers m (ord (it, 1, k) (dom (BrokerRatio m))) st)"

text \<open>Deleting the chosen transaction from the list of one broker; later positions move down. A
  position outside the list is a slice panic.\<close>

fun shift_down :: "string \<Rightarrow> (nat \<times> Transaction) list \<Rightarrow> (nat \<Rightarrow> (string \<rightharpoonup> int)) \<Rightarrow> (nat \<Rightarrow> (string \<rightharpoonup> int))" where
  "shift_down bd [] t2b = t2b"
| "shift_down bd ((p, tx) # txs) t2b =
     shift_down bd txs (t2b(p := (t2b p)(bd \<mapsto> (case t2b p bd of None \<Rightarrow> 0 | Some x \<Rightarrow> x) - 1)))"

fun delete_from :: "(string \<rightharpoonup> int) \<Rightarrow> string list \<Rightarrow> rounding_state \<Rightarrow> rounding_error + rounding_state" where
  "delete_from idx [] st = Inr st"
| "delete_from idx (bd # bds) st =
     (let index = the (idx bd); i = nat index; l = broker2Tx st bd; rl = broker2Ratio st bd in
      if index < 0 \<or> length l \<le> i \<or> length rl \<le> i then Inl SliceOutOfRange
      else
        let l1 = take i l @ drop (Suc i) l;
            rl1 = take i rl @ drop (Suc i) rl
        in delete_from idx bds
             (st\<lparr> broker2Tx := (broker2Tx st)(bd := l1),
                  broker2Ratio := (broker2Ratio st)(bd := rl1),
                  tx2broker := shift_down bd (drop i l1) (tx2broker st) \<rparr>))"

text \<open>One pass of the selection loop for broker \<open>a\<close>: normalise the ratios in place, draw, accept the
  transaction if it fits, and delete it everywhere.\<close>

definition normalise :: "rat list \<Rightarrow> rat list" where
  "normalise p = (let sumP = sum_list p + 1 / 10 ^ 19 in map (\<lambda>v. v / sumP) p)"

definition choose_tx :: "rat \<Rightarrow> string \<Rightarrow> rounding_state \<Rightarrow> nat option" where
  "choose_tx r a st =
     (if 1 < length (broker2Tx st a) then Random_choice r (normalise (broker2Ratio st a)) else Some 0)"

definition accept_tx :: "(string \<Rightarrow> int) \<Rightarrow> string \<Rightarrow> nat \<Rightarrow> Transaction \<Rightarrow> rounding_state \<Rightarrow> rounding_state" where
  "accept_tx BB a ptr tx st =
     (if r_now st a + Value tx \<le> BB a
      then st\<lparr> r_now := (r_now st)(a := r_now st a + Value tx),
               r_res := r_res st @ [\<lparr> TxPtr = ptr, Tx = tx, RawBroker = a \<rparr>] \<rparr>
      else st)"

definition start_pass :: "string \<Rightarrow> rounding_state \<Rightarrow> rounding_state" where
  "start_pass a st = st\<lparr> broker2Ratio := (broker2Ratio st)(a := normalise (broker2Ratio st a)), r_draws := Suc (r_draws st) \<rparr>"

definition select_one ::
  "(nat \<times> nat \<Rightarrow> rat) \<Rightarrow> range_order \<Rightarrow> nat \<Rightarrow> (string \<Rightarrow> int) \<Rightarrow> string \<Rightarrow> rounding_state \<Rightarrow> rounding_error + rounding_state" where
  "select_one rnd ord it BB a st =
     (case choose_tx (rnd (it, r_draws st)) a st of
        None \<Rightarrow> Inl NegativeChoice
      | Some i \<Rightarrow>
          (case broker2Tx st a ! i of (ptr, tx) \<Rightarrow>
             let st2 = accept_tx BB a ptr tx (start_pass a st) in
             delete_from (tx2broker st2 ptr) (ord (it, 2, r_draws st) (dom (tx2broker st2 ptr))) st2))"

text \<open>The loop \<open>for len(broker2Tx[brokerAddress]) != 0\<close>, with fuel.\<close>

fun select_loop ::
  "(nat \<times> nat \<Rightarrow> rat) \<Rightarrow> range_order \<Rightarrow> nat \<Rightarrow> (string \<Rightarrow> int) \<Rightarrow> string \<Rightarrow> nat \<Rightarrow> rounding_state
     \<Rightarrow> rounding_error + rounding_state" where
  "select_loop rnd ord it BB a 0 st = (if broker2Tx st a = [] then Inr st else Inl OutOfFuel)"
| "select_loop rnd ord it BB a (Suc fuel) st =
     (if broker2Tx st a = [] then Inr st
      else case select_one rnd ord it BB a st of
             Inl e \<Rightarrow> Inl e
           | Inr st1 \<Rightarrow> select_loop rnd ord it BB a fuel st1)"

fun select_brokers ::
  "(nat \<times> nat \<Rightarrow> rat) \<Rightarrow> range_order \<Rightarrow> nat \<Rightarrow> (string \<Rightarrow> int) \<Rightarrow> nat \<Rightarrow> string list \<Rightarrow> rounding_state
     \<Rightarrow> rounding_error + rounding_state" where
  "select_brokers rnd ord it BB fuel [] st = Inr st"
| "select_brokers rnd ord it BB fuel (a # as) st =
     (case select_loop rnd ord it BB a fuel st of
        Inl e \<Rightarrow> Inl e
      | Inr st1 \<Rightarrow> select_brokers rnd ord it BB fuel as st1)"

definition empty_rounding :: rounding_state where
  "empty_rounding = \<lparr> r_now = (\<lambda>_. 0), broker2Tx = (\<lambda>_. []), broker2Ratio = (\<lambda>_. []), tx2broker = (\<lambda>_. Map.empty),
     r_res = [], r_draws = 0 \<rparr>"

definition B2E_Rounding ::
  "(nat \<times> nat \<Rightarrow> rat) \<Rightarrow> range_order \<Rightarrow> nat \<Rightarrow> string list \<Rightarrow> RatioBrokerRawMeg list \<Rightarrow> (string \<Rightarrow> int)
     \<Rightarrow> rounding_error + BrokerRawMeg list" where
  "B2E_Rounding rnd ord it brokerAddresses rmegs BB =
     (case select_brokers rnd ord it BB (length rmegs) brokerAddresses (index_megs ord it 0 rmegs empty_rounding) of
        Inl e \<Rightarrow> Inl e
      | Inr st \<Rightarrow> Inr (r_res st))"

definition difference :: "BrokerRawMeg list \<Rightarrow> BrokerRawMeg list \<Rightarrow> BrokerRawMeg list" where
  "difference xs ys = filter (\<lambda>item. TxPtr item \<notin> TxPtr ` set ys) xs"

fun charge :: "BrokerRawMeg list \<Rightarrow> (string \<Rightarrow> int) \<Rightarrow> (string \<Rightarrow> int)" where
  "charge [] now = now"
| "charge (m # ms) now = charge ms (now(RawBroker m := now (RawBroker m) - Value (Tx m)))"

fun b2e_iterations ::
  "(nat \<times> nat \<Rightarrow> rat) \<Rightarrow> range_order \<Rightarrow> ((nat \<times> Transaction) list \<Rightarrow> (nat \<times> Transaction) list) \<Rightarrow> string set \<Rightarrow> nat
     \<Rightarrow> BrokerRawMeg list \<Rightarrow> (string \<Rightarrow> int) \<Rightarrow> BrokerRawMeg list \<Rightarrow> rounding_error + BrokerRawMeg list" where
  "b2e_iterations rnd ord srt A 0 todo now result = Inr result"
| "b2e_iterations rnd ord srt A (Suc k) todo now result =
     (case B2E_Rounding rnd ord k (ord (k, 0, 1) A) (URFA_Linear srt (ord (k, 0, 0) A) todo now) now of
        Inl e \<Rightarrow> Inl e
      | Inr rounded \<Rightarrow>
          b2e_iterations rnd ord srt A k (difference todo rounded) (charge rounded now) (result @ rounded))"

definition IterNum_B2E :: nat where
  "IterNum_B2E = 5"

fun cross_shard_megs :: "nat \<Rightarrow> BrokerRawMeg list \<Rightarrow> BrokerRawMeg list panics" where
  "cross_shard_megs ShardNum [] = Some []"
| "cross_shard_megs ShardNum (m # ms) = do {
     r \<leftarrow> Addr2Shard ShardNum (Recipient (Tx m));
     s \<leftarrow> Addr2Shard ShardNum (Sender (Tx m));
     rest \<leftarrow> cross_shard_megs ShardNum ms;
     Some (if r \<noteq> s then m # rest else rest) }"

definition total_balance :: "ShardBalanceInt \<Rightarrow> string \<Rightarrow> int" where
  "total_balance BB a = (case BB a of None \<Rightarrow> 0 | Some m \<Rightarrow> (\<Sum>s\<in>dom m. the (m s)))"

definition B2E ::
  "(nat \<times> nat \<Rightarrow> rat) \<Rightarrow> range_order \<Rightarrow> ((nat \<times> Transaction) list \<Rightarrow> (nat \<times> Transaction) list) \<Rightarrow> nat
     \<Rightarrow> BrokerRawMeg list \<Rightarrow> ShardBalanceInt \<Rightarrow> (BrokerRawMeg list \<times> BrokerRawMeg list) panics" where
  "B2E rnd ord srt ShardNum megs BB = do {
     todo \<leftarrow> cross_shard_megs ShardNum megs;
     case b2e_iterations rnd ord srt (dom BB) IterNum_B2E todo (total_balance BB) [] of
       Inl e \<Rightarrow> panic
     | Inr result \<Rightarrow> Some (result, difference megs result) }"

section \<open>No broker is over-allocated\<close>

definition alloc_value :: "BrokerRawMeg list \<Rightarrow> string \<Rightarrow> int" where
  "alloc_value res a = (\<Sum>m\<leftarrow>res. if RawBroker m = a then Value (Tx m) else 0)"

lemma alloc_value_simps [simp]:
  "alloc_value [] a = 0" "alloc_value (xs @ ys) a = alloc_value xs a + alloc_value ys a"
  "alloc_value (m # ms) a = (if RawBroker m = a then Value (Tx m) else 0) + alloc_value ms a"
  by (simp_all add: alloc_value_def)

lemma charge_conv: "charge ms now a = now a - alloc_value ms a"
  by (induction ms arbitrary: now) auto

definition in_budget :: "(string \<Rightarrow> int) \<Rightarrow> string set \<Rightarrow> rounding_state \<Rightarrow> bool" where
  "in_budget BB A st \<longleftrightarrow> (\<forall>a. r_now st a = alloc_value (r_res st) a) \<and>
     (\<forall>a. alloc_value (r_res st) a \<le> BB a) \<and> (\<forall>m \<in> set (r_res st). RawBroker m \<in> A)"

lemma delete_from_frame:
  "delete_from idx bds st = Inr st' \<Longrightarrow> r_now st' = r_now st \<and> r_res st' = r_res st \<and> r_draws st' = r_draws st"
  by (induction idx bds st rule: delete_from.induct) (auto simp: Let_def split: if_splits)

lemma index_brokers_frame [simp]:
  "r_now (index_brokers m as st) = r_now st" "r_res (index_brokers m as st) = r_res st"
  by (induction m as st rule: index_brokers.induct) simp_all

lemma index_megs_frame [simp]:
  "r_now (index_megs ord it k ms st) = r_now st" "r_res (index_megs ord it k ms st) = r_res st"
  by (induction ord it k ms st rule: index_megs.induct) simp_all

lemma accept_tx_in_budget: "in_budget BB A st \<Longrightarrow> a \<in> A \<Longrightarrow> in_budget BB A (accept_tx BB a ptr tx st)"
  by (auto simp: in_budget_def accept_tx_def)

lemma start_pass_in_budget [simp]: "in_budget BB A (start_pass a st) = in_budget BB A st"
  by (simp add: in_budget_def start_pass_def)

lemma select_one_in_budget:
  assumes "in_budget BB A st" "a \<in> A" "select_one rnd ord it BB a st = Inr st'"
  shows "in_budget BB A st'"
proof -
  obtain i ptr tx where "delete_from (tx2broker (accept_tx BB a ptr tx (start_pass a st)) ptr)
      (ord (it, 2, r_draws st) (dom (tx2broker (accept_tx BB a ptr tx (start_pass a st)) ptr)))
      (accept_tx BB a ptr tx (start_pass a st)) = Inr st'"
    using assms(3) by (auto simp: select_one_def Let_def split: option.splits prod.splits)
  from delete_from_frame [OF this]
  have "in_budget BB A st' = in_budget BB A (accept_tx BB a ptr tx (start_pass a st))"
    by (simp add: in_budget_def)
  then show ?thesis
    using accept_tx_in_budget [of BB A "start_pass a st" a ptr tx] assms(1,2) by simp
qed

lemma select_loop_in_budget:
  "in_budget BB A st \<Longrightarrow> a \<in> A \<Longrightarrow> select_loop rnd ord it BB a fuel st = Inr st' \<Longrightarrow> in_budget BB A st'"
proof (induction fuel arbitrary: st)
  case (Suc fuel)
  then show ?case
    by (auto split: if_splits sum.splits dest: select_one_in_budget)
qed (auto split: if_splits)

lemma select_brokers_in_budget:
  "in_budget BB A st \<Longrightarrow> set as \<subseteq> A \<Longrightarrow> select_brokers rnd ord it BB fuel as st = Inr st' \<Longrightarrow> in_budget BB A st'"
proof (induction as arbitrary: st)
  case (Cons a as)
  then obtain st1 where "select_loop rnd ord it BB a fuel st = Inr st1" "select_brokers rnd ord it BB fuel as st1 = Inr st'"
    by (auto split: sum.splits)
  then show ?case
    using Cons select_loop_in_budget by (metis insert_subset list.simps(15))
qed simp

lemma B2E_Rounding_in_budget:
  assumes "B2E_Rounding rnd ord it as rmegs BB = Inr res" "set as \<subseteq> A" "\<forall>a. 0 \<le> BB a"
  shows "\<forall>a. alloc_value res a \<le> BB a" "\<forall>m \<in> set res. RawBroker m \<in> A"
proof -
  obtain st where st: "select_brokers rnd ord it BB (length rmegs) as (index_megs ord it 0 rmegs empty_rounding) = Inr st" "res = r_res st"
    using assms(1) by (auto simp: B2E_Rounding_def split: sum.splits)
  have "in_budget BB A (index_megs ord it 0 rmegs empty_rounding)"
    using assms(3) by (simp add: in_budget_def empty_rounding_def)
  from select_brokers_in_budget [OF this assms(2) st(1)]
  show "\<forall>a. alloc_value res a \<le> BB a" "\<forall>m \<in> set res. RawBroker m \<in> A"
    by (simp_all add: in_budget_def st(2))
qed

definition range_order_ok :: "range_order \<Rightarrow> bool" where
  "range_order_ok ord \<longleftrightarrow> (\<forall>k S. finite S \<longrightarrow> distinct (ord k S) \<and> set (ord k S) = S)"

lemma b2e_iterations_in_budget:
  assumes "b2e_iterations rnd ord srt A k todo now result = Inr res" "\<forall>a. 0 \<le> now a" "range_order_ok ord" "finite A"
  shows "\<forall>a. alloc_value res a \<le> alloc_value result a + now a"
    "(\<forall>m \<in> set result. RawBroker m \<in> A) \<Longrightarrow> \<forall>m \<in> set res. RawBroker m \<in> A"
proof -
  have "(\<forall>a. alloc_value res a \<le> alloc_value result a + now a) \<and>
    ((\<forall>m \<in> set result. RawBroker m \<in> A) \<longrightarrow> (\<forall>m \<in> set res. RawBroker m \<in> A))"
    using assms(1,2)
  proof (induction k arbitrary: todo now result)
    case (Suc k)
    let ?lin = "URFA_Linear srt (ord (k, 0, 0) A) todo now"
    obtain rd where rd: "B2E_Rounding rnd ord k (ord (k, 0, 1) A) ?lin now = Inr rd"
      "b2e_iterations rnd ord srt A k (difference todo rd) (charge rd now) (result @ rd) = Inr res"
      using Suc.prems(1) by (auto split: sum.splits)
    have sub: "set (ord (k, 0, 1) A) \<subseteq> A"
      using assms(3,4) by (simp add: range_order_ok_def)
    note w = B2E_Rounding_in_budget [OF rd(1) sub Suc.prems(2)]
    have "\<forall>a. 0 \<le> charge rd now a"
      using w(1) by (simp add: charge_conv)
    from Suc.IH [OF rd(2) this] show ?case
      using w(2) by (auto simp: charge_conv)
  qed auto
  then show "\<forall>a. alloc_value res a \<le> alloc_value result a + now a"
    "(\<forall>m \<in> set result. RawBroker m \<in> A) \<Longrightarrow> \<forall>m \<in> set res. RawBroker m \<in> A"
    by blast+
qed

section \<open>The position tables of the rounding\<close>

text \<open>The column of broker \<open>b\<close> is consistent: no transaction twice, as many ratios as transactions, and
  \<open>tx2broker\<close> gives the position of each.\<close>

definition col_ok :: "rounding_state \<Rightarrow> string \<Rightarrow> bool" where
  "col_ok st b \<longleftrightarrow> distinct (map fst (broker2Tx st b)) \<and> length (broker2Ratio st b) = length (broker2Tx st b) \<and>
     (\<forall>i<length (broker2Tx st b). tx2broker st (fst (broker2Tx st b ! i)) b = Some (int i))"

definition listed :: "rounding_state \<Rightarrow> nat \<Rightarrow> string \<Rightarrow> bool" where
  "listed st p b \<longleftrightarrow> p \<in> fst ` set (broker2Tx st b)"

definition book :: "rounding_state \<Rightarrow> bool" where
  "book st \<longleftrightarrow> (\<forall>b. col_ok st b) \<and> (\<forall>p. (\<exists>b. listed st p b) \<longrightarrow> (\<forall>b. tx2broker st p b \<noteq> None \<longrightarrow> listed st p b)) \<and>
     (\<forall>p. finite (dom (tx2broker st p)))"

lemma shift_down_conv:
  "distinct (map fst l) \<Longrightarrow> shift_down bd l t p b =
     (if b = bd \<and> p \<in> fst ` set l then Some ((case t p bd of None \<Rightarrow> 0 | Some x \<Rightarrow> x) - 1) else t p b)"
proof (induction l arbitrary: t)
  case (Cons x l)
  obtain q tx where x: "x = (q, tx)"
    by (cases x)
  define t1 where "t1 = t(q := (t q)(bd \<mapsto> (case t q bd of None \<Rightarrow> 0 | Some x \<Rightarrow> x) - 1))"
  have e: "shift_down bd (x # l) t = shift_down bd l t1"
    by (simp add: x t1_def)
  have u: "t1 r c = (if r = q \<and> c = bd then Some ((case t q bd of None \<Rightarrow> 0 | Some x \<Rightarrow> x) - 1) else t r c)" for r c
    by (simp add: t1_def)
  have "distinct (map fst l)"
    using Cons.prems by simp
  note IH = Cons.IH [OF this, of t1]
  show ?case
    unfolding e IH u using Cons.prems by (auto simp: x image_iff)
qed simp

lemma remove_nth_filter:
  assumes "distinct (map fst l)" "i < length l" "fst (l ! i) = p"
  shows "take i l @ drop (Suc i) l = filter (\<lambda>x. fst x \<noteq> p) l"
proof -
  have l: "l = take i l @ l ! i # drop (Suc i) l"
    using assms(2) by (simp add: id_take_nth_drop)
  have "distinct (map fst (take i l @ l ! i # drop (Suc i) l))"
    using assms(1) l by simp
  then have "\<forall>x \<in> set (take i l). fst x \<noteq> p" "\<forall>x \<in> set (drop (Suc i) l). fst x \<noteq> p"
    using assms(3) by (auto simp: image_iff)
  then show ?thesis
    using assms(3) by (subst (3) l) (simp add: filter_id_conv [THEN iffD2])
qed

definition delete_col :: "string \<Rightarrow> nat \<Rightarrow> rounding_state \<Rightarrow> rounding_state" where
  "delete_col bd i st =
     st\<lparr> broker2Tx := (broker2Tx st)(bd := take i (broker2Tx st bd) @ drop (Suc i) (broker2Tx st bd)),
         broker2Ratio := (broker2Ratio st)(bd := take i (broker2Ratio st bd) @ drop (Suc i) (broker2Ratio st bd)),
         tx2broker := shift_down bd (drop i (take i (broker2Tx st bd) @ drop (Suc i) (broker2Tx st bd))) (tx2broker st) \<rparr>"

lemma delete_from_step:
  assumes "idx bd = Some (int i)" "i < length (broker2Tx st bd)" "length (broker2Ratio st bd) = length (broker2Tx st bd)"
  shows "delete_from idx (bd # bds) st = delete_from idx bds (delete_col bd i st)"
  using assms by (simp add: Let_def delete_col_def)

lemma delete_col_spec:
  assumes ok: "col_ok st bd" and i: "i < length (broker2Tx st bd)" and p: "fst (broker2Tx st bd ! i) = p"
  shows "broker2Tx (delete_col bd i st) = (broker2Tx st)(bd := filter (\<lambda>x. fst x \<noteq> p) (broker2Tx st bd))"
    "col_ok (delete_col bd i st) bd"
    "b \<noteq> bd \<Longrightarrow> col_ok (delete_col bd i st) b = col_ok st b"
    "b \<noteq> bd \<Longrightarrow> tx2broker (delete_col bd i st) q b = tx2broker st q b"
    "tx2broker (delete_col bd i st) q b = None \<longleftrightarrow> tx2broker st q b = None"
proof -
  let ?l = "broker2Tx st bd" and ?t = "tx2broker st"
  let ?l1 = "take i ?l @ drop (Suc i) ?l"
  have d: "distinct (map fst ?l)" "length (broker2Ratio st bd) = length ?l"
    and pos: "\<And>j. j < length ?l \<Longrightarrow> ?t (fst (?l ! j)) bd = Some (int j)"
    using ok by (auto simp: col_ok_def)
  have l1: "?l1 = filter (\<lambda>x. fst x \<noteq> p) ?l"
    using remove_nth_filter [OF d(1) i p] .
  have dd: "distinct (map fst (drop (Suc i) ?l))"
    using d(1) by (metis distinct_drop drop_map)
  have t1: "tx2broker (delete_col bd i st) q b =
      (if b = bd \<and> q \<in> fst ` set (drop (Suc i) ?l) then Some ((case ?t q bd of None \<Rightarrow> 0 | Some x \<Rightarrow> x) - 1) else ?t q b)" for q b
  proof -
    have "tx2broker (delete_col bd i st) = shift_down bd (drop (Suc i) ?l) ?t"
      using i by (simp add: delete_col_def min_def)
    then show ?thesis
      using shift_down_conv [OF dd] by simp
  qed
  show "broker2Tx (delete_col bd i st) = (broker2Tx st)(bd := filter (\<lambda>x. fst x \<noteq> p) ?l)"
    by (simp add: delete_col_def l1)
  show "b \<noteq> bd \<Longrightarrow> tx2broker (delete_col bd i st) q b = ?t q b"
    by (simp add: t1)
  show "b \<noteq> bd \<Longrightarrow> col_ok (delete_col bd i st) b = col_ok st b"
    by (simp add: col_ok_def t1) (simp add: delete_col_def)
  have some: "?t q bd \<noteq> None" if mem: "q \<in> fst ` set ?l" for q
  proof -
    obtain x where "x \<in> set ?l" "fst x = q"
      using mem by auto
    then obtain j where "j < length ?l" "fst (?l ! j) = q"
      by (auto simp: in_set_conv_nth)
    then show ?thesis
      using pos by force
  qed
  show "tx2broker (delete_col bd i st) q b = None \<longleftrightarrow> ?t q b = None"
    using some [of q] by (auto simp: t1 dest: in_set_dropD)
  have "tx2broker (delete_col bd i st) (fst (?l1 ! j)) bd = Some (int j)" if j: "j < length ?l1" for j
  proof (cases "j < i")
    case True
    then have n: "?l1 ! j = ?l ! j"
      using i by (simp add: nth_append)
    have "fst (?l ! j) \<notin> fst ` set (drop (Suc i) ?l)"
    proof
      assume "fst (?l ! j) \<in> fst ` set (drop (Suc i) ?l)"
      then obtain k where "k < length ?l - Suc i" "fst (?l ! j) = fst (?l ! (Suc i + k))"
        by (auto simp: in_set_conv_nth)
      moreover from this(1) have "Suc i + k < length ?l"
        by linarith
      ultimately have "j = Suc i + k"
        using i True nth_eq_iff_index_eq [OF d(1), of j "Suc i + k"] by simp
      with True show False
        by simp
    qed
    then show ?thesis
      using pos [of j] True i by (simp add: t1 n)
  next
    case False
    then have n: "?l1 ! j = ?l ! Suc j"
      using i j by (simp add: nth_append)
    have "?l ! Suc j \<in> set (drop (Suc i) ?l)"
      using False j i by (auto simp: in_set_conv_nth intro!: exI [of _ "j - i"])
    then show ?thesis
      using pos [of "Suc j"] j i by (auto simp: t1 n)
  qed
  moreover have "broker2Tx (delete_col bd i st) bd = ?l1"
    by (simp add: delete_col_def)
  moreover have "distinct (map fst ?l1)"
    unfolding l1 using d(1) by (simp add: distinct_map_filter)
  moreover have "length (broker2Ratio (delete_col bd i st) bd) = length ?l1"
    using d(2) by (simp add: delete_col_def)
  ultimately show "col_ok (delete_col bd i st) bd"
    by (simp only: col_ok_def) blast
qed

definition at_pos :: "rounding_state \<Rightarrow> (string \<rightharpoonup> int) \<Rightarrow> nat \<Rightarrow> string \<Rightarrow> bool" where
  "at_pos st idx p b \<longleftrightarrow> (\<exists>i. idx b = Some (int i) \<and> i < length (broker2Tx st b) \<and> fst (broker2Tx st b ! i) = p)"

lemma delete_from_spec:
  assumes "distinct bds" "\<forall>b. col_ok st b" "\<forall>b \<in> set bds. at_pos st idx p b"
  shows "\<exists>st'. delete_from idx bds st = Inr st' \<and> (\<forall>b. col_ok st' b) \<and>
    (\<forall>b. broker2Tx st' b = (if b \<in> set bds then filter (\<lambda>x. fst x \<noteq> p) (broker2Tx st b) else broker2Tx st b)) \<and>
    (\<forall>q b. tx2broker st' q b = None \<longleftrightarrow> tx2broker st q b = None)"
  using assms
proof (induction bds arbitrary: st)
  case (Cons bd bds)
  then obtain i where i: "idx bd = Some (int i)" "i < length (broker2Tx st bd)" "fst (broker2Tx st bd ! i) = p"
    by (auto simp: at_pos_def)
  have ok: "col_ok st bd" "length (broker2Ratio st bd) = length (broker2Tx st bd)"
    using Cons.prems(2) by (auto simp: col_ok_def)
  note d = delete_col_spec [OF ok(1) i(2,3)]
  have "\<forall>b. col_ok (delete_col bd i st) b"
    using d(2,3) Cons.prems(2) by metis
  moreover have "\<forall>b \<in> set bds. at_pos (delete_col bd i st) idx p b"
    using Cons.prems(1,3) by (auto simp: at_pos_def d(1))
  ultimately obtain st' where "delete_from idx bds (delete_col bd i st) = Inr st'" "\<forall>b. col_ok st' b"
    "\<forall>b. broker2Tx st' b = (if b \<in> set bds then filter (\<lambda>x. fst x \<noteq> p) (broker2Tx (delete_col bd i st) b) else broker2Tx (delete_col bd i st) b)"
    "\<forall>q b. tx2broker st' q b = None \<longleftrightarrow> tx2broker (delete_col bd i st) q b = None"
    using Cons.IH [of "delete_col bd i st"] Cons.prems(1) by auto
  then show ?case
    using delete_from_step [where idx = idx and st = st, OF i(1,2) ok(2), of bds] Cons.prems(1) d(1,5) by auto
qed simp

lemma random_choice_from_less: "random_choice_from r i cum ps = Some j \<Longrightarrow> j < i + length ps"
  by (induction r i cum ps rule: random_choice_from.induct) (auto split: if_splits)

lemma choose_tx_less:
  assumes "col_ok st a" "broker2Tx st a \<noteq> []" "choose_tx r a st = Some i"
  shows "i < length (broker2Tx st a)"
  using assms random_choice_from_less [of r 0 0 "normalise (broker2Ratio st a)" i]
  by (auto simp: choose_tx_def Random_choice_def normalise_def col_ok_def Let_def split: if_splits)

definition round_ok :: "(nat \<times> Transaction) set \<Rightarrow> rounding_state \<Rightarrow> bool" where
  "round_ok S st \<longleftrightarrow> book st \<and> (\<forall>b. set (broker2Tx st b) \<subseteq> S) \<and> distinct (map TxPtr (r_res st)) \<and>
     (\<forall>m \<in> set (r_res st). (TxPtr m, Tx m) \<in> S \<and> (\<forall>b. \<not> listed st (TxPtr m) b))"

lemma pass_frame [simp]:
  "broker2Tx (accept_tx BB a ptr tx (start_pass a st)) = broker2Tx st"
  "tx2broker (accept_tx BB a ptr tx (start_pass a st)) = tx2broker st"
  "length (broker2Ratio (accept_tx BB a ptr tx (start_pass a st)) b) = length (broker2Ratio st b)"
  by (simp_all add: accept_tx_def start_pass_def normalise_def Let_def)

lemma pass_col_ok [simp]: "col_ok (accept_tx BB a ptr tx (start_pass a st)) b = col_ok st b"
  by (simp add: col_ok_def)

lemma select_one_ok:
  assumes ok: "round_ok S st" and ne: "broker2Tx st a \<noteq> []" and ord: "range_order_ok ord"
  shows "select_one rnd ord it BB a st = Inl NegativeChoice \<or>
    (\<exists>st'. select_one rnd ord it BB a st = Inr st' \<and> round_ok S st' \<and>
       length (broker2Tx st' a) < length (broker2Tx st a) \<and> (\<forall>b. length (broker2Tx st' b) \<le> length (broker2Tx st b)))"
proof (cases "choose_tx (rnd (it, r_draws st)) a st")
  case None
  then show ?thesis
    by (simp add: select_one_def)
next
  case (Some i)
  have bk: "\<forall>b. col_ok st b" "\<And>p b b'. listed st p b' \<Longrightarrow> tx2broker st p b \<noteq> None \<Longrightarrow> listed st p b"
    "\<And>p. finite (dom (tx2broker st p))"
    using ok by (auto simp: round_ok_def book_def)
  have i: "i < length (broker2Tx st a)"
    using choose_tx_less [OF _ ne Some] bk(1) by blast
  obtain p tx where e: "broker2Tx st a ! i = (p, tx)"
    by (cases "broker2Tx st a ! i")
  have mem: "(p, tx) \<in> set (broker2Tx st a)"
    using i e nth_mem by metis
  then have pa: "listed st p a"
    by (force simp: listed_def)
  let ?st2 = "accept_tx BB a p tx (start_pass a st)" and ?bds = "ord (it, 2, r_draws st) (dom (tx2broker st p))"
  have bds: "distinct ?bds" "set ?bds = dom (tx2broker st p)"
    using ord bk(3) by (auto simp: range_order_ok_def)
  have pos: "tx2broker st q b \<noteq> None \<and> at_pos st (tx2broker st q) q b" if li: "listed st q b" for q b
  proof -
    obtain x where "x \<in> set (broker2Tx st b)" "fst x = q"
      using li by (auto simp: listed_def)
    then obtain j where "j < length (broker2Tx st b)" "fst (broker2Tx st b ! j) = q"
      by (auto simp: in_set_conv_nth)
    then show ?thesis
      using bk(1) by (auto simp: col_ok_def at_pos_def)
  qed
  have "\<forall>b \<in> set ?bds. at_pos ?st2 (tx2broker st p) p b"
  proof
    fix b assume "b \<in> set ?bds"
    then have "listed st p b"
      using bds(2) bk(2) [OF pa] by auto
    from pos [OF this] show "at_pos ?st2 (tx2broker st p) p b"
      by (simp add: at_pos_def)
  qed
  then obtain st' where st': "delete_from (tx2broker st p) ?bds ?st2 = Inr st'" "\<forall>b. col_ok st' b"
    "\<forall>b. broker2Tx st' b = (if b \<in> set ?bds then filter (\<lambda>x. fst x \<noteq> p) (broker2Tx st b) else broker2Tx st b)"
    "\<forall>q b. tx2broker st' q b = None \<longleftrightarrow> tx2broker st q b = None"
    using delete_from_spec [OF bds(1), of ?st2 "tx2broker st p" p] bk(1) by auto
  have txs: "broker2Tx st' b = filter (\<lambda>x. fst x \<noteq> p) (broker2Tx st b)" for b
  proof (cases "listed st p b")
    case True
    then show ?thesis
      using pos st'(3) bds(2) by auto
  next
    case False
    then have "filter (\<lambda>x. fst x \<noteq> p) (broker2Tx st b) = broker2Tx st b"
      by (auto simp: listed_def filter_id_conv)
    then show ?thesis
      using st'(3) by simp
  qed
  have li: "listed st' q b \<longleftrightarrow> q \<noteq> p \<and> listed st q b" for q b
    by (force simp: listed_def txs)
  have "dom (tx2broker st' q) = dom (tx2broker st q)" for q
    using st'(4) by (auto simp: dom_def)
  then have "book st'"
    using st'(2,4) bk(2,3) li by (auto simp: book_def)
  moreover have "r_res st' = r_res ?st2"
    using delete_from_frame [OF st'(1)] by blast
  ultimately have "round_ok S st'"
    using ok mem pa li by (auto simp: round_ok_def txs accept_tx_def start_pass_def)
  moreover have "length (broker2Tx st' a) < length (broker2Tx st a)"
    using mem by (auto simp: txs intro!: length_filter_less)
  moreover have "select_one rnd ord it BB a st = Inr st'"
    using st'(1) Some e by (simp add: select_one_def Let_def)
  ultimately show ?thesis
    by (simp add: txs)
qed

section \<open>The rounding terminates\<close>

lemma select_loop_ok:
  assumes "round_ok S st" "range_order_ok ord" "length (broker2Tx st a) \<le> fuel"
  shows "select_loop rnd ord it BB a fuel st = Inl NegativeChoice \<or>
    (\<exists>st'. select_loop rnd ord it BB a fuel st = Inr st' \<and> round_ok S st' \<and>
       (\<forall>b. length (broker2Tx st' b) \<le> length (broker2Tx st b)))"
  using assms(1,3)
proof (induction fuel arbitrary: st)
  case (Suc fuel)
  show ?case
  proof (cases "broker2Tx st a = []")
    case False
    from select_one_ok [OF Suc.prems(1) False assms(2), of rnd it BB] show ?thesis
    proof (elim disjE exE conjE)
      fix st1 assume st1: "select_one rnd ord it BB a st = Inr st1" "round_ok S st1"
        "length (broker2Tx st1 a) < length (broker2Tx st a)" "\<forall>b. length (broker2Tx st1 b) \<le> length (broker2Tx st b)"
      then have "length (broker2Tx st1 a) \<le> fuel"
        using Suc.prems(2) by linarith
      from Suc.IH [OF st1(2) this] show ?thesis
        using st1(1,4) False by (simp, meson order_trans)
    qed (use False in simp)
  qed (use Suc.prems in auto)
qed auto

lemma select_brokers_ok:
  assumes "round_ok S st" "range_order_ok ord" "\<forall>b. length (broker2Tx st b) \<le> fuel"
  shows "select_brokers rnd ord it BB fuel as st = Inl NegativeChoice \<or>
    (\<exists>st'. select_brokers rnd ord it BB fuel as st = Inr st' \<and> round_ok S st')"
  using assms(1,3)
proof (induction as arbitrary: st)
  case (Cons a as)
  from select_loop_ok [OF Cons.prems(1) assms(2) spec [OF Cons.prems(2), of a], of rnd it BB] show ?case
  proof (elim disjE exE conjE)
    fix st1 assume st1: "select_loop rnd ord it BB a fuel st = Inr st1" "round_ok S st1"
      "\<forall>b. length (broker2Tx st1 b) \<le> length (broker2Tx st b)"
    then have "\<forall>b. length (broker2Tx st1 b) \<le> fuel"
      using Cons.prems(2) order_trans by blast
    from Cons.IH [OF st1(2) this] show ?thesis
      using st1(1) by simp
  qed simp_all
qed simp

text \<open>Indexing one more transaction keeps the tables consistent.\<close>

definition push_tx :: "RatioBrokerRawMeg \<Rightarrow> string \<Rightarrow> rounding_state \<Rightarrow> rounding_state" where
  "push_tx m a st =
     st\<lparr> broker2Tx := (broker2Tx st)(a := broker2Tx st a @ [(RTxPtr m, RTx m)]),
         broker2Ratio := (broker2Ratio st)(a := broker2Ratio st a @ [the (BrokerRatio m a)]),
         tx2broker := (tx2broker st)(RTxPtr m := (tx2broker st (RTxPtr m))(a \<mapsto> int (length (broker2Tx st a)))) \<rparr>"

definition own_listed :: "rounding_state \<Rightarrow> nat \<Rightarrow> bool" where
  "own_listed st p \<longleftrightarrow> (\<forall>b. tx2broker st p b \<noteq> None \<longrightarrow> listed st p b)"

lemma push_tx_listed: "listed (push_tx m a st) p b \<longleftrightarrow> listed st p b \<or> (p = RTxPtr m \<and> b = a)"
  by (auto simp: listed_def push_tx_def)

lemma push_tx_t2b:
  "tx2broker (push_tx m a st) p b = (if p = RTxPtr m \<and> b = a then Some (int (length (broker2Tx st a))) else tx2broker st p b)"
  by (simp add: push_tx_def)

lemma push_tx_ok:
  assumes ok: "round_ok S st" and res: "r_res st = []" and new: "\<not> listed st (RTxPtr m) a" "own_listed st (RTxPtr m)"
    and S: "(RTxPtr m, RTx m) \<in> S"
  shows "round_ok S (push_tx m a st)" "own_listed (push_tx m a st) (RTxPtr m)"
proof -
  let ?l = "broker2Tx st a" and ?p = "RTxPtr m"
  have bk: "\<forall>b. col_ok st b" "\<And>p b b'. listed st p b' \<Longrightarrow> tx2broker st p b \<noteq> None \<Longrightarrow> listed st p b"
    "\<And>p. finite (dom (tx2broker st p))"
    using ok by (auto simp: round_ok_def book_def)
  have fresh: "fst (?l ! i) \<noteq> ?p" if "i < length ?l" for i
    using new(1) nth_mem [OF that] by (force simp: listed_def)
  have "col_ok (push_tx m a st) b" for b
  proof (cases "b = a")
    case True
    have "tx2broker (push_tx m a st) (fst ((?l @ [(?p, RTx m)]) ! i)) a = Some (int i)" if "i < Suc (length ?l)" for i
    proof (cases "i = length ?l")
      case False
      then have "i < length ?l"
        using that by simp
      then show ?thesis
        using fresh bk(1) by (auto simp: push_tx_t2b nth_append col_ok_def)
    qed (simp add: push_tx_t2b)
    moreover have "?p \<notin> fst ` set ?l"
      using new(1) by (simp add: listed_def)
    ultimately show ?thesis
      using bk(1) True by (simp add: col_ok_def) (auto simp: push_tx_def)
  next
    case False
    then show ?thesis
      using bk(1) by (simp add: col_ok_def push_tx_t2b) (simp add: push_tx_def)
  qed
  moreover have own: "own_listed (push_tx m a st) ?p"
    using new(2) by (auto simp: own_listed_def push_tx_t2b push_tx_listed split: if_splits)
  moreover have "finite (dom (tx2broker (push_tx m a st) p))" for p
  proof -
    have "dom (tx2broker (push_tx m a st) p) \<subseteq> insert a (dom (tx2broker st p))"
      by (auto simp: push_tx_t2b split: if_splits)
    then show ?thesis
      using bk(3) finite_subset by blast
  qed
  moreover have "listed (push_tx m a st) p b"
    if "listed (push_tx m a st) p b'" "tx2broker (push_tx m a st) p b \<noteq> None" for p b b'
    using that bk(2) [of p b' b] own by (cases "p = ?p") (auto simp: own_listed_def push_tx_listed push_tx_t2b)
  ultimately have "book (push_tx m a st)"
    by (auto simp: book_def)
  then show "round_ok S (push_tx m a st)"
    using ok res S by (auto simp: round_ok_def push_tx_def split: if_splits)
  show "own_listed (push_tx m a st) ?p"
    by (fact own)
qed

lemma index_brokers_ok:
  assumes "round_ok S st" "r_res st = []" "own_listed st (RTxPtr m)" "(RTxPtr m, RTx m) \<in> S" "distinct as"
    "\<forall>a \<in> set as. \<not> listed st (RTxPtr m) a"
  shows "round_ok S (index_brokers m as st) \<and>
    (\<forall>b. length (broker2Tx (index_brokers m as st) b) \<le> Suc (length (broker2Tx st b))) \<and>
    (\<forall>p. p \<noteq> RTxPtr m \<longrightarrow> tx2broker (index_brokers m as st) p = tx2broker st p \<and> (\<forall>b. listed (index_brokers m as st) p b = listed st p b))"
proof -
  have "round_ok S (index_brokers m as st) \<and>
    (\<forall>b. length (broker2Tx (index_brokers m as st) b) = length (broker2Tx st b) + (if b \<in> set as then 1 else 0)) \<and>
    (\<forall>p. p \<noteq> RTxPtr m \<longrightarrow> tx2broker (index_brokers m as st) p = tx2broker st p \<and> (\<forall>b. listed (index_brokers m as st) p b = listed st p b))"
    using assms
  proof (induction as arbitrary: st)
    case (Cons a as)
    have step: "index_brokers m (a # as) st = index_brokers m as (push_tx m a st)"
      by (simp add: push_tx_def)
    note push = push_tx_ok [OF Cons.prems(1,2) _ Cons.prems(3,4), of a]
    have "r_res (push_tx m a st) = []"
      using Cons.prems(2) by (simp add: push_tx_def)
    moreover have "\<forall>b \<in> set as. \<not> listed (push_tx m a st) (RTxPtr m) b"
      using Cons.prems(5,6) by (auto simp: push_tx_listed)
    ultimately have IH: "round_ok S (index_brokers m as (push_tx m a st)) \<and>
      (\<forall>b. length (broker2Tx (index_brokers m as (push_tx m a st)) b) = length (broker2Tx (push_tx m a st) b) + (if b \<in> set as then 1 else 0)) \<and>
      (\<forall>p. p \<noteq> RTxPtr m \<longrightarrow> tx2broker (index_brokers m as (push_tx m a st)) p = tx2broker (push_tx m a st) p \<and>
         (\<forall>b. listed (index_brokers m as (push_tx m a st)) p b = listed (push_tx m a st) p b))"
      using Cons.prems push by (intro Cons.IH) auto
    have len: "length (broker2Tx (push_tx m a st) b) = length (broker2Tx st b) + (if b = a then 1 else 0)" for b
      by (simp add: push_tx_def)
    have "tx2broker (push_tx m a st) p = tx2broker st p" if "p \<noteq> RTxPtr m" for p
      using that by (auto simp: push_tx_t2b)
    then show ?case
      unfolding step using IH Cons.prems(5) by (auto simp: len push_tx_listed)
  qed simp
  then show ?thesis
    by auto
qed

lemma index_megs_ok:
  assumes "round_ok S st" "r_res st = []" "range_order_ok ord" "distinct (map RTxPtr ms)"
    "\<forall>m \<in> set ms. (RTxPtr m, RTx m) \<in> S \<and> finite (dom (BrokerRatio m)) \<and> tx2broker st (RTxPtr m) = Map.empty \<and>
       (\<forall>b. \<not> listed st (RTxPtr m) b)"
  shows "round_ok S (index_megs ord it k ms st) \<and>
    (\<forall>b. length (broker2Tx (index_megs ord it k ms st) b) \<le> length (broker2Tx st b) + length ms)"
  using assms
proof (induction ms arbitrary: st k)
  case (Cons m ms)
  let ?as = "ord (it, 1, k) (dom (BrokerRatio m))"
  let ?st = "index_brokers m ?as st"
  have "distinct ?as"
    using Cons.prems(3,5) by (simp add: range_order_ok_def)
  then have one: "round_ok S ?st" "\<forall>b. length (broker2Tx ?st b) \<le> Suc (length (broker2Tx st b))"
    "\<forall>p. p \<noteq> RTxPtr m \<longrightarrow> tx2broker ?st p = tx2broker st p \<and> (\<forall>b. listed ?st p b = listed st p b)"
    using index_brokers_ok [OF Cons.prems(1,2), of m ?as] Cons.prems(5) by (simp_all add: own_listed_def)
  have "RTxPtr m' \<noteq> RTxPtr m" if "m' \<in> set ms" for m'
    using Cons.prems(4) that by (metis distinct.simps(2) image_eqI list.simps(9) set_map)
  then have rest: "\<forall>m' \<in> set ms. (RTxPtr m', RTx m') \<in> S \<and> finite (dom (BrokerRatio m')) \<and> tx2broker ?st (RTxPtr m') = Map.empty \<and>
       (\<forall>b. \<not> listed ?st (RTxPtr m') b)"
    using Cons.prems(5) one(3) by simp
  have r: "r_res ?st = []" and d: "distinct (map RTxPtr ms)"
    using Cons.prems(2,4) by simp_all
  note IH = Cons.IH [OF one(1) r Cons.prems(3) d rest, of "Suc k"]
  have "length (broker2Tx (index_megs ord it (Suc k) ms ?st) b) \<le> length (broker2Tx st b) + length (m # ms)" for b
    using spec [OF conjunct2 [OF IH], of b] spec [OF one(2), of b] by simp
  then show ?case
    using IH by simp
qed simp

lemma empty_rounding_ok: "round_ok S empty_rounding"
  by (simp add: round_ok_def empty_rounding_def book_def col_ok_def listed_def)

lemma B2E_Rounding_ok:
  assumes "range_order_ok ord" "distinct (map RTxPtr rmegs)" "\<forall>m \<in> set rmegs. finite (dom (BrokerRatio m))"
  shows "B2E_Rounding rnd ord it as rmegs BB = Inl NegativeChoice \<or>
    (\<exists>res. B2E_Rounding rnd ord it as rmegs BB = Inr res \<and> distinct (map TxPtr res) \<and>
       (\<forall>m \<in> set res. (TxPtr m, Tx m) \<in> (\<lambda>r. (RTxPtr r, RTx r)) ` set rmegs))"
proof -
  let ?S = "(\<lambda>r. (RTxPtr r, RTx r)) ` set rmegs" and ?st = "index_megs ord it 0 rmegs empty_rounding"
  have "round_ok ?S ?st \<and> (\<forall>b. length (broker2Tx ?st b) \<le> length (broker2Tx empty_rounding b) + length rmegs)"
    using assms by (intro index_megs_ok empty_rounding_ok) (auto simp: empty_rounding_def listed_def)
  then have "round_ok ?S ?st" "\<forall>b. length (broker2Tx ?st b) \<le> length rmegs"
    by (simp_all add: empty_rounding_def)
  from select_brokers_ok [OF this(1) assms(1) this(2), of rnd it BB as] show ?thesis
    by (auto simp: B2E_Rounding_def round_ok_def)
qed

section \<open>The iteration\<close>

lemma finite_rest_ratio: "finite (dom m) \<Longrightarrow> finite (dom (rest_ratio now BB cur sub ratio js m))"
  by (induction now BB cur sub ratio js m rule: rest_ratio.induct) auto

definition urfa_ok :: "(nat \<times> Transaction) set \<Rightarrow> (nat \<times> Transaction) list \<Rightarrow> RatioBrokerRawMeg list \<Rightarrow> bool" where
  "urfa_ok S txs rs \<longleftrightarrow> distinct (map RTxPtr rs @ map fst txs) \<and> set txs \<subseteq> S \<and>
     (\<forall>r \<in> set rs. (RTxPtr r, RTx r) \<in> S \<and> finite (dom (BrokerRatio r)))"

lemma urfa_ok_push:
  "urfa_ok S ((p, tx) # txs) rs \<Longrightarrow> finite (dom m) \<Longrightarrow> urfa_ok S txs (rs @ [\<lparr> RTxPtr = p, RTx = tx, BrokerRatio = m \<rparr>])"
  by (auto simp: urfa_ok_def)

lemma urfa_ok_skip: "urfa_ok S (x # txs) rs \<Longrightarrow> urfa_ok S txs rs"
  by (auto simp: urfa_ok_def)

lemma urfa_ok_stop: "urfa_ok S txs rs \<Longrightarrow> urfa_ok S [] rs"
  by (auto simp: urfa_ok_def)

lemma urfa_loop_ok: "urfa_ok S txs (u_res st) \<Longrightarrow> urfa_ok S [] (urfa_loop addrs BB txs st)"
proof (induction addrs BB txs st rule: urfa_loop.induct)
  case (2 addrs BB p tx txs st)
  note push = urfa_ok_push [OF "2.prems"] and skip = urfa_ok_skip [OF "2.prems"] and stop = urfa_ok_stop [OF "2.prems"]
  show ?case
    using "2.IH" push skip stop
    by (simp add: Let_def finite_rest_ratio del: rest_ratio.simps)
qed simp

lemma URFA_Linear_ok:
  assumes "mset (srt (map (\<lambda>m. (TxPtr m, Tx m)) megs)) = mset (map (\<lambda>m. (TxPtr m, Tx m)) megs)" "distinct (map TxPtr megs)"
  shows "distinct (map RTxPtr (URFA_Linear srt as megs BB))"
    "\<forall>m \<in> set (URFA_Linear srt as megs BB). finite (dom (BrokerRatio m))"
    "(\<lambda>r. (RTxPtr r, RTx r)) ` set (URFA_Linear srt as megs BB) \<subseteq> (\<lambda>m. (TxPtr m, Tx m)) ` set megs"
proof -
  let ?l = "map (\<lambda>m. (TxPtr m, Tx m)) megs"
  have "mset (map fst (srt ?l)) = mset (map fst ?l)"
    using assms(1) by (metis mset_map)
  moreover have "distinct (map fst ?l)"
    using assms(2) by (simp add: o_def)
  ultimately have "distinct (map fst (srt ?l))"
    by (metis mset_eq_imp_distinct_iff)
  moreover have "set (srt ?l) = set ?l"
    using assms(1) by (metis set_mset_mset)
  ultimately have "urfa_ok ((\<lambda>m. (TxPtr m, Tx m)) ` set megs) (srt ?l) (u_res \<lparr> u_now = (\<lambda>_. 0), u_idx = 0, u_res = [] \<rparr>)"
    by (simp add: urfa_ok_def)
  from urfa_loop_ok [OF this, of as BB]
  show "distinct (map RTxPtr (URFA_Linear srt as megs BB))"
    "\<forall>m \<in> set (URFA_Linear srt as megs BB). finite (dom (BrokerRatio m))"
    "(\<lambda>r. (RTxPtr r, RTx r)) ` set (URFA_Linear srt as megs BB) \<subseteq> (\<lambda>m. (TxPtr m, Tx m)) ` set megs"
    by (auto simp: URFA_Linear_def urfa_ok_def)
qed

lemma difference_facts:
  "set (difference xs ys) \<subseteq> set xs" "distinct (map TxPtr xs) \<Longrightarrow> distinct (map TxPtr (difference xs ys))"
  "m \<in> set (difference xs ys) \<Longrightarrow> TxPtr m \<notin> TxPtr ` set ys"
  by (auto simp: difference_def distinct_map_filter)

definition sort_ok :: "((nat \<times> Transaction) list \<Rightarrow> (nat \<times> Transaction) list) \<Rightarrow> bool" where
  "sort_ok srt \<longleftrightarrow> (\<forall>xs. mset (srt xs) = mset xs \<and>
     sorted_wrt (\<lambda>a b. fee_ratio (snd b) \<le> fee_ratio (snd a)) (srt xs))"

lemma distinct_three:
  assumes "distinct r" "set r \<inter> T = {}" "distinct d" "set d \<subseteq> T" "distinct e" "set e \<subseteq> T" "set e \<inter> set d = {}"
  shows "distinct (r @ d @ e)"
  using assms by auto

lemma b2e_iterations_ok:
  assumes "range_order_ok ord" "sort_ok srt" "distinct (map TxPtr (result @ todo))"
    "(\<lambda>m. (TxPtr m, Tx m)) ` set (result @ todo) \<subseteq> S"
  shows "b2e_iterations rnd ord srt A k todo now result = Inl NegativeChoice \<or>
    (\<exists>res. b2e_iterations rnd ord srt A k todo now result = Inr res \<and> distinct (map TxPtr res) \<and>
       (\<lambda>m. (TxPtr m, Tx m)) ` set res \<subseteq> S)"
  using assms(3,4)
proof (induction k arbitrary: todo now result)
  case (Suc k)
  let ?lin = "URFA_Linear srt (ord (k, 0, 0) A) todo now"
  have perm: "mset (srt (map (\<lambda>m. (TxPtr m, Tx m)) todo)) = mset (map (\<lambda>m. (TxPtr m, Tx m)) todo)"
    using assms(2) by (simp add: sort_ok_def)
  have dt: "distinct (map TxPtr todo)"
    using Suc.prems(1) by simp
  note lin = URFA_Linear_ok [where srt = srt and megs = todo and as = "ord (k, 0, 0) A" and BB = now, OF perm dt]
  from B2E_Rounding_ok [where rnd = rnd and it = k and as = "ord (k, 0, 1) A" and BB = now, OF assms(1) lin(1,2)] show ?case
  proof (elim disjE exE conjE)
    fix rd assume rd: "B2E_Rounding rnd ord k (ord (k, 0, 1) A) ?lin now = Inr rd" "distinct (map TxPtr rd)"
      "\<forall>m \<in> set rd. (TxPtr m, Tx m) \<in> (\<lambda>r. (RTxPtr r, RTx r)) ` set ?lin"
    have sub: "(\<lambda>m. (TxPtr m, Tx m)) ` set rd \<subseteq> (\<lambda>m. (TxPtr m, Tx m)) ` set todo"
      using rd(3) lin(3) by blast
    then have ptrs: "TxPtr ` set rd \<subseteq> TxPtr ` set todo"
      by (force simp: image_iff)
    have r: "distinct (map TxPtr result)" "set (map TxPtr result) \<inter> TxPtr ` set todo = {}"
      using Suc.prems(1) by (simp_all only: map_append distinct_append set_map)
    have d: "set (map TxPtr rd) \<subseteq> TxPtr ` set todo"
      using ptrs by simp
    have e: "set (map TxPtr (difference todo rd)) \<subseteq> TxPtr ` set todo" "set (map TxPtr (difference todo rd)) \<inter> set (map TxPtr rd) = {}"
      by (auto simp: difference_def)
    have "distinct (map TxPtr ((result @ rd) @ difference todo rd))"
      using distinct_three [OF r rd(2) d difference_facts(2) [OF dt] e] by simp
    moreover have "(\<lambda>m. (TxPtr m, Tx m)) ` set ((result @ rd) @ difference todo rd) \<subseteq> S"
    proof -
      have "(\<lambda>m. (TxPtr m, Tx m)) ` set result \<subseteq> S" "(\<lambda>m. (TxPtr m, Tx m)) ` set todo \<subseteq> S"
        using Suc.prems(2) by (simp_all add: image_Un)
      moreover have "(\<lambda>m. (TxPtr m, Tx m)) ` set (difference todo rd) \<subseteq> (\<lambda>m. (TxPtr m, Tx m)) ` set todo"
        by (rule image_mono) (rule difference_facts(1))
      ultimately show ?thesis
        using sub unfolding set_append image_Un Un_subset_iff by (meson subset_trans)
    qed
    ultimately show ?thesis
      using Suc.IH [of "result @ rd" "difference todo rd" "charge rd now"] rd(1) by simp
  qed simp
qed auto

lemma cross_shard_megs_total:
  assumes "\<forall>m \<in> set megs. Addr2Shard n (Recipient (Tx m)) \<noteq> None \<and> Addr2Shard n (Sender (Tx m)) \<noteq> None"
  shows "cross_shard_megs n megs =
    Some (filter (\<lambda>m. Addr2Shard n (Recipient (Tx m)) \<noteq> Addr2Shard n (Sender (Tx m))) megs)"
  using assms by (induction megs) auto

lemma distinct_pairs_filter: "distinct (map f xs) \<Longrightarrow> distinct (map f (filter P xs))"
  by (induction xs) auto

lemma B2E_spec:
  assumes "range_order_ok ord" "sort_ok srt" "distinct (map TxPtr megs)" "finite (dom BB)" "\<forall>a. 0 \<le> total_balance BB a"
    "\<forall>m \<in> set megs. Addr2Shard n (Recipient (Tx m)) \<noteq> None \<and> Addr2Shard n (Sender (Tx m)) \<noteq> None"
  shows "(\<exists>result rest. B2E rnd ord srt n megs BB = Some (result, rest) \<and>
      (\<forall>m \<in> set result. RawBroker m \<in> dom BB) \<and> distinct (map TxPtr result) \<and>
      (\<forall>m \<in> set result. (TxPtr m, Tx m) \<in> (\<lambda>m. (TxPtr m, Tx m)) ` set megs) \<and>
      (\<forall>a. (\<Sum>m\<leftarrow>result. if RawBroker m = a then Value (Tx m) else 0) \<le> total_balance BB a) \<and>
      rest = filter (\<lambda>m. TxPtr m \<notin> TxPtr ` set result) megs) \<or>
    (\<exists>todo. cross_shard_megs n megs = Some todo \<and>
       b2e_iterations rnd ord srt (dom BB) IterNum_B2E todo (total_balance BB) [] = Inl NegativeChoice)"
proof -
  let ?todo = "filter (\<lambda>m. Addr2Shard n (Recipient (Tx m)) \<noteq> Addr2Shard n (Sender (Tx m))) megs"
  let ?S = "(\<lambda>m. (TxPtr m, Tx m)) ` set megs" and ?it = "b2e_iterations rnd ord srt (dom BB) IterNum_B2E ?todo (total_balance BB) []"
  have todo: "cross_shard_megs n megs = Some ?todo"
    by (rule cross_shard_megs_total [OF assms(6)])
  have "distinct (map TxPtr ([] @ ?todo))" "(\<lambda>m. (TxPtr m, Tx m)) ` set ([] @ ?todo) \<subseteq> ?S"
    using distinct_pairs_filter [OF assms(3)] by auto
  from b2e_iterations_ok [OF assms(1,2) this, of rnd "dom BB" IterNum_B2E "total_balance BB"] show ?thesis
  proof (elim disjE exE conjE)
    fix res assume res: "?it = Inr res" "distinct (map TxPtr res)" "(\<lambda>m. (TxPtr m, Tx m)) ` set res \<subseteq> ?S"
    note bud = b2e_iterations_in_budget [OF res(1) assms(5,1,4)]
    have "B2E rnd ord srt n megs BB = Some (res, difference megs res)"
      by (simp add: B2E_def todo res(1))
    moreover have "\<forall>m \<in> set res. RawBroker m \<in> dom BB"
      using bud(2) by simp
    moreover have "\<forall>a. (\<Sum>m\<leftarrow>res. if RawBroker m = a then Value (Tx m) else 0) \<le> total_balance BB a"
      using bud(1) by (simp add: alloc_value_def)
    ultimately show ?thesis
      using res(2,3) by (intro disjI1) (auto simp: difference_def)
  qed (use todo in auto)
qed

text \<open>C35: the assignment of transactions to brokers is sound and the rounding always ends. For every
  order of map traversal, every sort by fee ratio and all random numbers, and for a batch of
  pairwise different transactions whose parties have shards, either a random draw exceeds every
  cumulative probability (the program then indexes with -1), or \<open>B2E\<close> returns: every broker is
  known, no transaction is assigned twice, only transactions of the batch are assigned, the
  total value assigned to each broker is at most its total balance, and the rest is exactly the
  batch without the assigned transactions. No slice is ever out of range and the selection
  loops end within as many passes as there are transactions.\<close>
theorem B2E_sound:
  assumes "range_order_ok ord" "sort_ok srt" "distinct (map TxPtr megs)" "finite (dom BB)" "\<forall>a. 0 \<le> total_balance BB a"
    "\<forall>m \<in> set megs. Addr2Shard n (Recipient (Tx m)) \<noteq> None \<and> Addr2Shard n (Sender (Tx m)) \<noteq> None"
  shows "(\<exists>result rest. B2E rnd ord srt n megs BB = Some (result, rest) \<and>
      (\<forall>m \<in> set result. RawBroker m \<in> dom BB) \<and> distinct (map TxPtr result) \<and>
      (\<forall>m \<in> set result. (TxPtr m, Tx m) \<in> (\<lambda>m. (TxPtr m, Tx m)) ` set megs) \<and>
      (\<forall>a. (\<Sum>m\<leftarrow>result. if RawBroker m = a then Value (Tx m) else 0) \<le> total_balance BB a) \<and>
      rest = filter (\<lambda>m. TxPtr m \<notin> TxPtr ` set result) megs) \<or>
    (\<exists>todo. cross_shard_megs n megs = Some todo \<and>
       b2e_iterations rnd ord srt (dom BB) IterNum_B2E todo (total_balance BB) [] = Inl NegativeChoice)"
  using B2E_spec [OF assms] .

text \<open>Concrete orders: maps traversed in lexicographic order, and a stable sort by fee ratio.\<close>

definition lex_order :: range_order where
  "lex_order k S = sorted_list_of_set S"

definition fee_sort :: "(nat \<times> Transaction) list \<Rightarrow> (nat \<times> Transaction) list" where
  "fee_sort xs = sort_key (\<lambda>x. - fee_ratio (snd x)) xs"

lemma lex_order_ok: "range_order_ok lex_order"
  by (simp add: range_order_ok_def lex_order_def)

lemma fee_sort_ok: "sort_ok fee_sort"
proof -
  have "sorted_wrt (\<lambda>a b. fee_ratio (snd b) \<le> fee_ratio (snd a)) (fee_sort xs)" for xs
    using sorted_sort_key [of "\<lambda>x. - fee_ratio (snd x)" xs] by (simp add: fee_sort_def sorted_map)
  then show ?thesis
    by (simp add: sort_ok_def fee_sort_def)
qed

theorem B2E_sound_witness:
  "(\<exists>result rest. B2E (\<lambda>k. 1 / 2) lex_order fee_sort 2 [example_meg] [''b'' \<mapsto> fill_shards 2 10000] = Some (result, rest) \<and>
      distinct (map TxPtr result)) \<or>
    (\<exists>todo. cross_shard_megs 2 [example_meg] = Some todo \<and>
       b2e_iterations (\<lambda>k. 1 / 2) lex_order fee_sort (dom [''b'' \<mapsto> fill_shards 2 (10000 :: int)]) IterNum_B2E todo
         (total_balance [''b'' \<mapsto> fill_shards 2 10000]) [] = Inl NegativeChoice)"
proof -
  have d: "distinct (map TxPtr [example_meg])" "finite (dom [''b'' \<mapsto> fill_shards 2 (10000 :: int)])"
    by simp_all
  have dm: "dom (fill_shards 2 (10000 :: int)) = {..<2}"
    by (auto simp: fill_shards_apply split: if_splits)
  have t: "\<forall>a. 0 \<le> total_balance [''b'' \<mapsto> fill_shards 2 10000] a"
    by (simp add: total_balance_def dm) (simp add: fill_shards_apply upto_2)
  have "Addr2Shard 2 (Sender (Tx example_meg)) = Some 0" "Addr2Shard 2 (Recipient (Tx example_meg)) = Some 1"
    using example_shards by (simp_all add: fetchModifiedMap_def example_meg_def)
  then have s: "\<forall>m \<in> set [example_meg]. Addr2Shard 2 (Recipient (Tx m)) \<noteq> None \<and> Addr2Shard 2 (Sender (Tx m)) \<noteq> None"
    by simp
  from B2E_sound [OF lex_order_ok fee_sort_ok d t s, of "\<lambda>k. 1 / 2"] show ?thesis
    by blast
qed

section \<open>The draw\<close>

lemma random_choice_None_iff:
  assumes "\<forall>x \<in> set ps. 0 \<le> x"
  shows "random_choice_from r i cum ps = None \<longleftrightarrow> ps = [] \<or> cum + sum_list ps < r"
  using assms
proof (induction ps arbitrary: i cum)
  case (Cons p ps)
  have "0 \<le> sum_list ps"
    using Cons.prems by (intro sum_list_nonneg) auto
  then show ?case
    using Cons.IH [of "Suc i" "cum + p"] Cons.prems by (cases "ps = []") (auto simp: add.assoc)
qed simp

text \<open>The draw of the rounding can fail. On two or more candidates with non-negative ratios of sum
  \<open>S\<close>, the choice returns an index exactly when the random number is at most \<open>S / (S + 1e-19)\<close>,
  which is below 1; for a larger random number it returns -1, which the caller uses as an index.\<close>
theorem draw_fails_above_total:
  assumes "\<forall>x \<in> set p. 0 \<le> x" "p \<noteq> []"
  shows "(Random_choice r (normalise p) = None \<longleftrightarrow> sum_list p / (sum_list p + 1 / 10 ^ 19) < r) \<and>
    sum_list p / (sum_list p + 1 / 10 ^ 19) < 1"
proof -
  have S: "0 \<le> sum_list p"
    using assms(1) by (intro sum_list_nonneg) auto
  have "sum_list (normalise p) = sum_list p / (sum_list p + 1 / 10 ^ 19)"
  proof -
    have "sum_list (map (\<lambda>v. v / c) p) = sum_list p / c" for c :: rat
      by (induction p) (simp_all add: add_divide_distrib)
    then show ?thesis
      by (simp add: normalise_def Let_def)
  qed
  moreover have "\<forall>x \<in> set (normalise p). 0 \<le> x"
    using assms(1) S by (auto simp: normalise_def Let_def)
  moreover have "normalise p \<noteq> []"
    using assms(2) by (simp add: normalise_def Let_def)
  ultimately show ?thesis
    using random_choice_None_iff [of "normalise p" r 0 0] S by (simp add: Random_choice_def)
qed

theorem draw_fails_above_total_witness:
  "Random_choice (1 / 2) (normalise [0, 0]) = None"
  using draw_fails_above_total [of "[0, 0]" "1 / 2"] by simp

end
