(* ===== verification/Dealing.thy ===== *)
theory Dealing
  imports B2E
begin

text \<open>
  \<open>dealTxByBroker\<close> of \<open>supervisor/committee/committee_broker_b2e.go\<close>: the whole handling of a batch
  of fresh transactions. Intra-shard transactions are returned to the caller; cross-shard ones
  join those left over from earlier batches, are assigned to brokers, and for the assigned ones
  the liquidity is moved and locked and the first halves are sent.
\<close>

section \<open>Definition\<close>

record deal_env =
  de_H :: "Transaction \<Rightarrow> bytes"
  de_D :: "BrokerRawMeg \<Rightarrow> bytes"
  de_rnd :: "nat \<times> nat \<Rightarrow> rat"
  de_ord :: range_order
  de_srt :: "(nat \<times> Transaction) list \<Rightarrow> (nat \<times> Transaction) list"
  de_ro :: range_orders
  de_sids :: "nat list"
  de_ShardNum :: nat
  de_InjectSpeed :: nat

text \<open>The loop over the batch: addresses are normalised, malformed and self transfers are dropped, the
  rest is split into raw messages for brokers and intra-shard transactions.\<close>

fun split_txs ::
  "nat \<Rightarrow> Broker \<Rightarrow> (nat \<times> Transaction) list \<Rightarrow> BrokerRawMeg list \<Rightarrow> Transaction list
     \<Rightarrow> (BrokerRawMeg list \<times> Transaction list) panics" where
  "split_txs n b [] megs itxs = Some (megs, itxs)"
| "split_txs n b ((p, tx0) # txs) megs itxs =
     (let tx1 = tx0\<lparr> Recipient := FormatStringToLength (Recipient tx0) 40 \<rparr> in
      if Recipient tx1 = ''error'' then split_txs n b txs megs itxs
      else
        let tx2 = tx1\<lparr> Sender := FormatStringToLength (Sender tx1) 40 \<rparr> in
        if Sender tx2 = ''error'' then split_txs n b txs megs itxs
        else if Recipient tx2 = Sender tx2 then split_txs n b txs megs itxs
        else do {
          rSid \<leftarrow> fetchModifiedMap n (Recipient tx2);
          sSid \<leftarrow> fetchModifiedMap n (Sender tx2);
          if rSid \<noteq> sSid then
            (case BrokerAddress b of
               [] \<Rightarrow> panic
             | first # _ \<Rightarrow> split_txs n b txs (megs @ [\<lparr> TxPtr = p, Tx = tx2, RawBroker = first \<rparr>]) itxs)
          else
            let tx3 = (if IsBroker b (Recipient tx2) \<or> IsBroker b (Sender tx2)
                       then tx2\<lparr> HasBroker := True, SenderIsBroker := IsBroker b (Sender tx2) \<rparr> else tx2)
            in split_txs n b txs megs (itxs @ [tx3]) })"

definition dealTxByBroker ::
  "deal_env \<Rightarrow> (nat \<times> Transaction) list \<Rightarrow> string \<Rightarrow> committee \<Rightarrow> (Transaction list \<times> send list \<times> committee) panics" where
  "dealTxByBroker e txs tx_type c = do {
     (megs, itxs) \<leftarrow> split_txs (de_ShardNum e) (CBroker c) txs (restBrokerRawMegPool c tx_type) [];
     let megs1 = (if 1000 < length megs then take 1000 megs else megs);
     (alloc, rest) \<leftarrow> B2E (de_rnd e) (de_ord e) (de_srt e) (de_ShardNum e) megs1 (BrokerBalance (CBroker c) tx_type);
     let c1 = c\<lparr> restBrokerRawMegPool := (restBrokerRawMegPool c)(tx_type := rest) \<rparr>;
     (allocatedTxs, c2) \<leftarrow> GenerateAllocatedTx (de_H e) (de_ShardNum e) (de_ro e) alloc tx_type c1;
     if alloc \<noteq> [] then do {
       b1 \<leftarrow> handleAllocatedTx (de_sids e) allocatedTxs tx_type (CBroker c2);
       b2 \<leftarrow> lockToken (de_ShardNum e) alloc tx_type b1;
       (sends, c3) \<leftarrow> handleBrokerRawMag (de_H e) (de_D e) (de_ShardNum e) (de_InjectSpeed e) alloc (c2\<lparr> CBroker := b2 \<rparr>);
       Some (itxs, sends, c3) }
     else Some (itxs, [], c2) }"

section \<open>Lemmas\<close>

definition addressed :: "nat \<Rightarrow> BrokerRawMeg \<Rightarrow> bool" where
  "addressed n m \<longleftrightarrow> fetchModifiedMap n (Sender (Tx m)) \<noteq> None \<and> fetchModifiedMap n (Recipient (Tx m)) \<noteq> None"

lemma formatted_fetch:
  assumes "0 < n" "FormatStringToLength s 40 \<noteq> ''error''"
  shows "\<exists>sid. fetchModifiedMap n (FormatStringToLength s 40) = Some sid"
proof -
  let ?a = "FormatStringToLength s 40"
  have v: "list_all isValidHexChar s"
    using assms(2) by (auto simp: FormatStringToLength_def split: if_splits)
  then have "8 \<le> length ?a \<and> list_all isValidHexChar (drop (length ?a - 8) ?a)"
    using valid_FormatStringToLength [OF v, of 40]
    by (auto simp: length_FormatStringToLength list_all_iff dest: in_set_dropD)
  then show ?thesis
    using Addr2Shard_defined_iff [OF assms(1)] by (auto simp: fetchModifiedMap_def)
qed

lemma split_txs_total:
  assumes "0 < n" "BrokerAddress b \<noteq> []" "\<forall>m \<in> set megs. addressed n m"
    "distinct (map TxPtr megs @ map fst txs)"
  shows "\<exists>megs' itxs'. split_txs n b txs megs itxs = Some (megs', itxs') \<and> (\<forall>m \<in> set megs'. addressed n m) \<and>
    distinct (map TxPtr megs')"
  using assms(3,4)
proof (induction txs arbitrary: megs itxs)
  case (Cons x txs)
  obtain p tx0 where x: "x = (p, tx0)"
    by (cases x)
  define r where "r = FormatStringToLength (Recipient tx0) 40"
  define s where "s = FormatStringToLength (Sender tx0) 40"
  obtain first bs where f: "BrokerAddress b = first # bs"
    using assms(2) by (cases "BrokerAddress b") auto
  have skip: "\<exists>megs' itxs'. split_txs n b txs megs itxs = Some (megs', itxs') \<and> (\<forall>m \<in> set megs'. addressed n m) \<and> distinct (map TxPtr megs')" for itxs
    using Cons.IH [of megs itxs] Cons.prems by auto
  show ?case
  proof (cases "r = ''error'' \<or> s = ''error'' \<or> r = s")
    case True
    then show ?thesis
      using skip [of itxs] by (auto simp: x r_def s_def Let_def)
  next
    case False
    then obtain rS sS where fS: "fetchModifiedMap n r = Some rS" "fetchModifiedMap n s = Some sS"
      using formatted_fetch [OF assms(1)] by (metis r_def s_def)
    let ?m = "\<lparr> TxPtr = p, Tx = tx0\<lparr> Recipient := r, Sender := s \<rparr>, RawBroker = first \<rparr>"
    show ?thesis
    proof (cases "rS = sS")
      case True
      then show ?thesis
        using False fS skip by (simp add: x Let_def r_def [symmetric] s_def [symmetric] del: IsBroker_iff)
    next
      case ne: False
      have "\<forall>m \<in> set (megs @ [?m]). addressed n m"
        using Cons.prems(1) fS by (auto simp: addressed_def)
      moreover have "distinct (map TxPtr (megs @ [?m]) @ map fst txs)"
        using Cons.prems(2) by (auto simp: x)
      ultimately show ?thesis
        using Cons.IH [of "megs @ [?m]" itxs] False ne fS
        by (simp add: x f Let_def r_def [symmetric] s_def [symmetric] del: IsBroker_iff)
    qed
  qed
qed auto

lemma total_balance_full:
  assumes "full n BB"
  shows "total_balance BB a = (\<Sum>s<n. bal BB a s)"
proof (cases "BB a")
  case (Some m)
  then have "dom m = {..<n}"
    using assms by (simp add: full_def)
  moreover have "the (m s) = bal BB a s" if "s \<in> dom m" for s
    using that Some by (auto simp: bal_def cell_def)
  ultimately show ?thesis
    using Some by (simp add: total_balance_def)
qed (simp add: total_balance_def bal_def cell_def)

lemma demand_total:
  assumes "\<forall>m \<in> set megs. addressed n m"
  shows "(\<Sum>s<n. demand n megs a s) = alloc_value megs a"
  using assms
proof (induction megs)
  case (Cons m ms)
  obtain x where x: "fetchModifiedMap n (Recipient (Tx m)) = Some x"
    using Cons.prems by (auto simp: addressed_def)
  have "x < n"
    using x by (auto simp: fetchModifiedMap_def dest: Addr2Shard_less)
  then have "(\<Sum>s<n. if RawBroker m = a \<and> fetchModifiedMap n (Recipient (Tx m)) = Some s then Value (Tx m) else 0) =
      (if RawBroker m = a then Value (Tx m) else 0)"
    by (simp add: x)
  then show ?case
    using Cons by (simp add: demand_def sum.distrib)
qed (simp add: demand_def)

lemma record_raw_megs_conv:
  "\<exists>M. record_raw_megs D megs b acc =
     (acc @ map (\<lambda>m. \<lparr> T1RawMeg = m, T1Broker = RawBroker m \<rparr>) megs, b\<lparr> BrokerRawMegs := M \<rparr>)"
proof (induction megs arbitrary: b acc)
  case Nil
  show ?case
    by (rule exI [of _ "BrokerRawMegs b"]) simp
next
  case (Cons m ms)
  then show ?case
    using Cons.IH [of "b\<lparr> BrokerRawMegs := (BrokerRawMegs b)(D m \<mapsto> m) \<rparr>" "acc @ [\<lparr> T1RawMeg = m, T1Broker = RawBroker m \<rparr>]"]
    by auto
qed

lemma add_confirm1_conv:
  "\<exists>P. add_confirm1 H ms c acc = (acc @ map (make_tx1 H) ms, c\<lparr> brokerConfirm1Pool := P \<rparr>)"
proof (induction ms arbitrary: c acc)
  case Nil
  show ?case
    by (rule exI [of _ "brokerConfirm1Pool c"]) simp
next
  case (Cons m ms)
  let ?t = "make_tx1 H m"
  show ?case
    using Cons.IH [of "c\<lparr> brokerConfirm1Pool := (brokerConfirm1Pool c)(TxHash ?t \<mapsto> \<lparr> Tx1Hash = TxHash ?t, RawMeg1 = T1RawMeg m \<rparr>) \<rparr>" "acc @ [?t]"]
    by (auto simp: Let_def)
qed

lemma handleBrokerRawMag_total:
  assumes "0 < sp" "\<forall>m \<in> set megs. addressed n m"
  shows "\<exists>sends M P. handleBrokerRawMag H D n sp megs c =
    Some (sends, c\<lparr> CBroker := (CBroker c)\<lparr> BrokerRawMegs := M \<rparr>, brokerConfirm1Pool := P \<rparr>)"
proof -
  let ?ms = "map (\<lambda>m. \<lparr> T1RawMeg = m, T1Broker = RawBroker m \<rparr>) megs"
  obtain M where M: "record_raw_megs D megs (CBroker c) [] = (?ms, (CBroker c)\<lparr> BrokerRawMegs := M \<rparr>)"
    using record_raw_megs_conv [of D megs "CBroker c" "[]"] by auto
  let ?c = "c\<lparr> CBroker := (CBroker c)\<lparr> BrokerRawMegs := M \<rparr> \<rparr>"
  obtain P where P: "add_confirm1 H ?ms ?c [] = (map (make_tx1 H) ?ms, ?c\<lparr> brokerConfirm1Pool := P \<rparr>)"
    using add_confirm1_conv [of H ?ms ?c "[]"] by auto
  have "\<forall>tx \<in> set (map (make_tx1 H) ?ms). target_shard n tx \<noteq> None"
    using assms(2) by (auto simp: target_shard_def addressed_def)
  then obtain sends where "txSending n sp (map (make_tx1 H) ?ms) = Some sends"
    using tx_sending_from_spec [OF assms(1), of _ n 0 "\<lambda>_. []"] unfolding txSending_def by blast
  then show ?thesis
    using M P by (auto simp: handleBrokerRawMag_def handleBrokerType1Mes_def)
qed

definition deal_env_ok :: "deal_env \<Rightarrow> string set \<Rightarrow> bool" where
  "deal_env_ok e A \<longleftrightarrow> 0 < de_ShardNum e \<and> 0 < de_InjectSpeed e \<and> range_order_ok (de_ord e) \<and> sort_ok (de_srt e) \<and>
     orders_ok (de_ShardNum e) A (de_ro e) \<and> distinct (de_sids e) \<and> set (de_sids e) = {..<de_ShardNum e} \<and> finite A"

lemma deal_after_assignment:
  assumes env: "deal_env_ok e (dom (BrokerBalance (CBroker c) ty))" and n: "n = de_ShardNum e"
    and reg: "registry_ok n ty (CBroker c)" and pos: "\<forall>a s. 0 \<le> bbal c ty a s"
    and alloc: "\<forall>m \<in> set alloc. placed n (dom (BrokerBalance (CBroker c) ty)) m"
      "\<forall>a. alloc_value alloc a \<le> total_balance (BrokerBalance (CBroker c) ty) a" "alloc \<noteq> []"
  shows "\<exists>allocatedTxs c2 b1 b2 sends c3.
     GenerateAllocatedTx (de_H e) n (de_ro e) alloc ty c = Some (allocatedTxs, c2) \<and>
     handleAllocatedTx (de_sids e) allocatedTxs ty (CBroker c2) = Some b1 \<and> lockToken n alloc ty b1 = Some b2 \<and>
     handleBrokerRawMag (de_H e) (de_D e) n (de_InjectSpeed e) alloc (c2\<lparr> CBroker := b2 \<rparr>) = Some (sends, c3) \<and>
     registry_ok n ty (CBroker c3) \<and> restBrokerRawMegPool c3 = restBrokerRawMegPool c \<and>
     (\<forall>a \<in> dom (BrokerBalance (CBroker c) ty). (\<forall>s<n. 0 \<le> bbal c3 ty a s) \<and> token_total n (CBroker c3) ty a = token_total n (CBroker c) ty a)"
proof -
  let ?A = "dom (BrokerBalance (CBroker c) ty)"
  have addr: "\<forall>m \<in> set alloc. addressed n m"
    using alloc(1) by (auto simp: placed_def addressed_def)
  have full: "full n (BrokerBalance (CBroker c) ty)"
    using reg by (simp add: registry_ok_def)
  have bud: "\<forall>a \<in> ?A. (\<Sum>s<n. demand n alloc a s) \<le> (\<Sum>s<n. bbal c ty a s)"
    using alloc(2) by (simp add: demand_total [OF addr] total_balance_full [OF full])
  have ord: "orders_ok n ?A (de_ro e)" "distinct (de_sids e)" "set (de_sids e) = {..<n}" "0 < de_InjectSpeed e"
    using env n by (auto simp: deal_env_ok_def)
  obtain c' where c': "allocate_and_lock (de_H e) n (de_ro e) (de_sids e) alloc ty c = Some c'" "registry_ok n ty (CBroker c')"
    "\<forall>a \<in> ?A. (\<forall>s<n. 0 \<le> bbal c' ty a s \<and> block c' ty a s = block c ty a s + demand n alloc a s) \<and>
       (\<Sum>s<n. bbal c' ty a s + block c' ty a s) = (\<Sum>s<n. bbal c ty a s + block c ty a s)"
    using allocate_and_lock_spec [OF reg alloc(1) ord(1,2,3) bud, of "de_H e"] by blast
  obtain allocatedTxs c2 b1 b2 where run: "GenerateAllocatedTx (de_H e) n (de_ro e) alloc ty c = Some (allocatedTxs, c2)"
    "handleAllocatedTx (de_sids e) allocatedTxs ty (CBroker c2) = Some b1" "lockToken n alloc ty b1 = Some b2"
    "c' = c2\<lparr> CBroker := b2 \<rparr>"
    using c'(1) by (auto simp: allocate_and_lock_def bind_eq_Some_iff)
  obtain num where c2: "c2 = c\<lparr> nowDataNum := num \<rparr>"
    using run(1) by (auto simp: GenerateAllocatedTx_def bind_eq_Some_iff)
  obtain sends M P where h: "handleBrokerRawMag (de_H e) (de_D e) n (de_InjectSpeed e) alloc c' =
    Some (sends, c'\<lparr> CBroker := (CBroker c')\<lparr> BrokerRawMegs := M \<rparr>, brokerConfirm1Pool := P \<rparr>)"
    using handleBrokerRawMag_total [OF ord(4) addr] by blast
  let ?c3 = "c'\<lparr> CBroker := (CBroker c')\<lparr> BrokerRawMegs := M \<rparr>, brokerConfirm1Pool := P \<rparr>"
  have "registry_ok n ty (CBroker ?c3)"
    using c'(2) by (simp add: registry_ok_def)
  moreover have "\<forall>a \<in> ?A. (\<forall>s<n. 0 \<le> bbal ?c3 ty a s) \<and> token_total n (CBroker ?c3) ty a = token_total n (CBroker c) ty a"
  proof -
    have "\<forall>a \<in> ?A. (\<forall>s<n. 0 \<le> bbal c' ty a s) \<and> token_total n (CBroker c') ty a = token_total n (CBroker c) ty a"
      unfolding token_total_def using c'(3) by blast
    then show ?thesis
      by (simp add: token_total_def)
  qed
  moreover have "restBrokerRawMegPool ?c3 = restBrokerRawMegPool c"
    using run(4) c2 by simp
  ultimately show ?thesis
    using run h by blast
qed

lemma B2E_rest_addressed:
  "B2E rnd ord srt n megs BB = Some (result, rest) \<Longrightarrow> set rest \<subseteq> set megs"
proof -
  assume B: "B2E rnd ord srt n megs BB = Some (result, rest)"
  then obtain todo where t: "(case b2e_iterations rnd ord srt (dom BB) IterNum_B2E todo (total_balance BB) [] of
       Inl e \<Rightarrow> panic | Inr res \<Rightarrow> Some (res, difference megs res)) = Some (result, rest)"
    unfolding B2E_def bind_eq_Some_iff by blast
  then have "rest = difference megs result"
    by (cases "b2e_iterations rnd ord srt (dom BB) IterNum_B2E todo (total_balance BB) []") auto
  then show ?thesis
    by (auto simp: difference_def)
qed

lemma assigned_placed:
  assumes "\<forall>m \<in> set megs. addressed n m" "\<forall>m \<in> set result. RawBroker m \<in> A"
    "\<forall>m \<in> set result. (TxPtr m, Tx m) \<in> (\<lambda>m. (TxPtr m, Tx m)) ` set megs"
  shows "\<forall>m \<in> set result. placed n A m"
proof
  fix m assume m: "m \<in> set result"
  then obtain m' where "m' \<in> set megs" "Tx m = Tx m'"
    using assms(3) by auto
  then show "placed n A m"
    using assms(1,2) m by (auto simp: placed_def addressed_def)
qed



end
