(* ===== verification/TxPool.thy ===== *)
theory TxPool
  imports Core
begin

text \<open>
  The transaction pool of \<open>core/txpool.go\<close>: a FIFO queue that consensus packs blocks from, and
  per-shard relay queues. The pool's mutex makes every method atomic, so a run of the pool is a
  sequence of method calls. A nil relay map (what \<open>ClearRelayPool\<close> leaves behind) is \<open>None\<close>;
  the order in which Go ranges over the relay map is the argument \<open>ks\<close>.
\<close>

record TxPool =
  TxQueue :: "Transaction list"
  RelayPool :: "(uint64 \<rightharpoonup> Transaction list) option"

definition NewTxPool :: TxPool where
  "NewTxPool = \<lparr> TxQueue = [], RelayPool = Some Map.empty \<rparr>"

definition stamp :: "go_time \<Rightarrow> Transaction \<Rightarrow> Transaction" where
  "stamp now tx = (if Time tx = 0 then tx\<lparr> Time := now \<rparr> else tx)"

definition AddTx2Pool :: "go_time \<Rightarrow> Transaction \<Rightarrow> TxPool \<Rightarrow> TxPool" where
  "AddTx2Pool now tx p = p\<lparr> TxQueue := TxQueue p @ [stamp now tx] \<rparr>"

text \<open>The loop of \<open>AddTxs2Pool\<close>; the clock is read once per transaction.\<close>

fun AddTxs2Pool :: "(nat \<Rightarrow> go_time) \<Rightarrow> nat \<Rightarrow> Transaction list \<Rightarrow> TxPool \<Rightarrow> TxPool" where
  "AddTxs2Pool clk i [] p = p"
| "AddTxs2Pool clk i (tx # txs) p =
     AddTxs2Pool clk (Suc i) txs (p\<lparr> TxQueue := TxQueue p @ [stamp (clk i) tx] \<rparr>)"

definition AddTxs2Pool_Head :: "Transaction list \<Rightarrow> TxPool \<Rightarrow> TxPool" where
  "AddTxs2Pool_Head txs p = p\<lparr> TxQueue := txs @ TxQueue p \<rparr>"

definition PackTxs :: "uint64 \<Rightarrow> TxPool \<Rightarrow> Transaction list \<times> TxPool" where
  "PackTxs max_txs p =
     (let txNum = (if length (TxQueue p) < unat max_txs then length (TxQueue p) else unat max_txs) in
      (take txNum (TxQueue p), p\<lparr> TxQueue := drop txNum (TxQueue p) \<rparr>))"

text \<open>The update both \<open>AddRelayTx\<close> and \<open>TransferTxs\<close> perform on a relay map: create the queue of
  the shard when it is missing, then append.\<close>

definition relay_append ::
  "(uint64 \<rightharpoonup> Transaction list) \<Rightarrow> uint64 \<Rightarrow> Transaction \<Rightarrow> (uint64 \<rightharpoonup> Transaction list)" where
  "relay_append m sid tx =
     (let m1 = (if m sid = None then m(sid \<mapsto> []) else m) in m1(sid \<mapsto> the (m1 sid) @ [tx]))"

definition AddRelayTx :: "Transaction \<Rightarrow> uint64 \<Rightarrow> TxPool \<Rightarrow> TxPool panics" where
  "AddRelayTx tx shardID p =
     (case RelayPool p of
        None \<Rightarrow> panic
      | Some m \<Rightarrow> Some (p\<lparr> RelayPool := Some (relay_append m shardID tx) \<rparr>))"

definition GetTxQueueLen :: "TxPool \<Rightarrow> nat" where
  "GetTxQueueLen p = length (TxQueue p)"

definition ClearRelayPool :: "TxPool \<Rightarrow> TxPool" where
  "ClearRelayPool p = p\<lparr> RelayPool := None \<rparr>"

definition relay_lookup :: "TxPool \<Rightarrow> uint64 \<Rightarrow> Transaction list option" where
  "relay_lookup p sid = (case RelayPool p of None \<Rightarrow> None | Some m \<Rightarrow> m sid)"

text \<open>\<open>PackRelayTxs\<close> compares the length with \<open>int(minRelaySize)\<close>, a signed conversion, and returns
  \<open>nil, false\<close> when the shard has no queue or too few transactions.\<close>

definition PackRelayTxs ::
  "uint64 \<Rightarrow> uint64 \<Rightarrow> uint64 \<Rightarrow> TxPool \<Rightarrow> Transaction list option \<times> TxPool" where
  "PackRelayTxs shardID minRelaySize maxRelaySize p =
     (case relay_lookup p shardID of
        None \<Rightarrow> (None, p)
      | Some q \<Rightarrow>
          if int (length q) < sint minRelaySize then (None, p)
          else
            let txNum = (if length q < unat maxRelaySize then length q else unat maxRelaySize) in
            (Some (take txNum q),
             p\<lparr> RelayPool := map_option (\<lambda>m. m(shardID \<mapsto> drop txNum q)) (RelayPool p) \<rparr>))"

text \<open>\<open>TransferTxs\<close>: the queue loop, then the nested loop over the relay map in the order \<open>ks\<close>.\<close>

fun transfer_queue ::
  "Address \<Rightarrow> Transaction list \<Rightarrow> Transaction list \<Rightarrow> Transaction list \<Rightarrow> Transaction list \<times> Transaction list" where
  "transfer_queue addr [] moved kept = (moved, kept)"
| "transfer_queue addr (tx # txs) moved kept =
     (if Sender tx = addr then transfer_queue addr txs (moved @ [tx]) kept
      else transfer_queue addr txs moved (kept @ [tx]))"

fun transfer_shard ::
  "Address \<Rightarrow> uint64 \<Rightarrow> Transaction list \<Rightarrow> Transaction list \<Rightarrow> (uint64 \<rightharpoonup> Transaction list)
     \<Rightarrow> Transaction list \<times> (uint64 \<rightharpoonup> Transaction list)" where
  "transfer_shard addr sid [] moved pool = (moved, pool)"
| "transfer_shard addr sid (tx # txs) moved pool =
     (if Sender tx = addr then transfer_shard addr sid txs (moved @ [tx]) pool
      else transfer_shard addr sid txs moved (relay_append pool sid tx))"

fun transfer_relay ::
  "Address \<Rightarrow> (uint64 \<rightharpoonup> Transaction list) \<Rightarrow> uint64 list \<Rightarrow> Transaction list \<Rightarrow> (uint64 \<rightharpoonup> Transaction list)
     \<Rightarrow> Transaction list \<times> (uint64 \<rightharpoonup> Transaction list)" where
  "transfer_relay addr m [] moved pool = (moved, pool)"
| "transfer_relay addr m (sid # sids) moved pool =
     (let (moved1, pool1) = transfer_shard addr sid (case m sid of None \<Rightarrow> [] | Some q \<Rightarrow> q) moved pool in
      transfer_relay addr m sids moved1 pool1)"

definition TransferTxs :: "uint64 list \<Rightarrow> Address \<Rightarrow> TxPool \<Rightarrow> Transaction list \<times> TxPool" where
  "TransferTxs ks addr p =
     (let (moved, kept) = transfer_queue addr (TxQueue p) [] [];
          (moved1, pool) = transfer_relay addr (case RelayPool p of None \<Rightarrow> Map.empty | Some m \<Rightarrow> m) ks moved Map.empty
      in (moved1, p\<lparr> TxQueue := kept, RelayPool := Some pool \<rparr>))"

section \<open>Runs of the queue\<close>

text \<open>The calls that reach the queue: injection at the tail (\<open>handleInjectTx\<close>), injection at the
  head (\<open>handleInjectTxHead\<close>) and packing by the leader.\<close>

datatype pool_op =
    OpAddTx go_time Transaction
  | OpAddTxs "nat \<Rightarrow> go_time" "Transaction list"
  | OpAddHead "Transaction list"
  | OpPack uint64

fun pool_step :: "pool_op \<Rightarrow> TxPool \<Rightarrow> Transaction list \<times> TxPool" where
  "pool_step (OpAddTx now tx) p = ([], AddTx2Pool now tx p)"
| "pool_step (OpAddTxs clk txs) p = ([], AddTxs2Pool clk 0 txs p)"
| "pool_step (OpAddHead txs) p = ([], AddTxs2Pool_Head txs p)"
| "pool_step (OpPack n) p = PackTxs n p"

definition untimed :: "Transaction \<Rightarrow> Transaction" where
  "untimed tx = tx\<lparr> Time := 0 \<rparr>"

fun submitted :: "pool_op \<Rightarrow> Transaction list" where
  "submitted (OpAddTx now tx) = [tx]"
| "submitted (OpAddTxs clk txs) = txs"
| "submitted (OpAddHead txs) = txs"
| "submitted (OpPack n) = []"

fun at_tail :: "pool_op \<Rightarrow> bool" where
  "at_tail (OpAddHead txs) = False"
| "at_tail _ = True"

lemma untimed_stamp [simp]: "untimed (stamp now tx) = untimed tx"
  by (simp add: untimed_def stamp_def)

lemma AddTxs2Pool_queue:
  "map untimed (TxQueue (AddTxs2Pool clk i txs p)) = map untimed (TxQueue p @ txs)"
  by (induction clk i txs p rule: AddTxs2Pool.induct) simp_all

lemma PackTxs_split: "PackTxs n p = (txs, p') \<Longrightarrow> txs @ TxQueue p' = TxQueue p"
  by (auto simp: PackTxs_def Let_def)

lemma PackTxs_length: "PackTxs n p = (txs, p') \<Longrightarrow> length txs = min (unat n) (length (TxQueue p))"
  by (auto simp: PackTxs_def Let_def)

lemma pool_step_tail:
  assumes "at_tail x" "pool_step x p = (r, p')"
  shows "map untimed (r @ TxQueue p') = map untimed (TxQueue p @ submitted x)"
proof (cases x)
  case (OpPack n)
  with assms PackTxs_split show ?thesis
    by (metis append_Nil2 pool_step.simps(4) submitted.simps(4))
qed (use assms in \<open>auto simp: AddTx2Pool_def AddTxs2Pool_queue\<close>)

interpretation pool: conserving_step pool_step
  "\<lambda>p. image_mset untimed (mset (TxQueue p))"
  "\<lambda>x. image_mset untimed (mset (submitted x))"
  "\<lambda>r. image_mset untimed (mset r)"
proof
  fix x p r p' assume step: "pool_step x p = (r, p')"
  show "image_mset untimed (mset r) + image_mset untimed (mset (TxQueue p')) =
        image_mset untimed (mset (TxQueue p)) + image_mset untimed (mset (submitted x))"
  proof (cases "at_tail x")
    case True
    from pool_step_tail [OF this step] have
      "mset (map untimed (r @ TxQueue p')) = mset (map untimed (TxQueue p @ submitted x))"
      by simp
    then show ?thesis
      by simp
  next
    case False
    then obtain txs where "x = OpAddHead txs"
      by (cases x) auto
    with step show ?thesis
      by (auto simp: AddTxs2Pool_Head_def)
  qed
qed

lemma sum_list_mset_map: "(\<Sum>x\<leftarrow>xs. image_mset f (mset (g x))) = image_mset f (mset (concat (map g xs)))"
  by (induction xs) simp_all

text \<open>C27: no transaction is lost, invented or duplicated by the pool. Over any sequence of tail
  insertions, head insertions and packings, the transactions packed and the ones still queued
  are together exactly the initial queue and the submitted ones (up to the arrival time that
  insertion stamps), as multisets.\<close>
theorem pool_conserves_transactions:
  assumes "run_ops pool_step ops p = (packed, p')"
  shows "image_mset untimed (mset (concat packed) + mset (TxQueue p')) =
         image_mset untimed (mset (TxQueue p) + mset (concat (map submitted ops)))"
  using pool.run_conserves [OF assms] by (simp add: sum_list_mset_map [where g = "\<lambda>x. x", simplified] sum_list_mset_map)

theorem pool_conserves_transactions_witness:
  "\<exists>packed p'. run_ops pool_step [OpAddTxs (\<lambda>i. 7) [zeroTransaction], OpPack 2] NewTxPool = (packed, p') \<and>
     image_mset untimed (mset (concat packed) + mset (TxQueue p')) =
     image_mset untimed (mset (TxQueue NewTxPool) + mset (concat (map submitted [OpAddTxs (\<lambda>i. 7) [zeroTransaction], OpPack 2])))"
proof -
  obtain packed p' where run:
    "run_ops pool_step [OpAddTxs (\<lambda>i. 7) [zeroTransaction], OpPack 2] NewTxPool = (packed, p')"
    by (cases "run_ops pool_step [OpAddTxs (\<lambda>i. 7) [zeroTransaction], OpPack 2] NewTxPool")
  with pool_conserves_transactions [OF run] show ?thesis
    by blast
qed

text \<open>the pool is first-in first-out. Over any sequence of tail insertions and packings, the
  packed batches in order, followed by what is still queued, are the initial queue followed by
  the submitted transactions in submission order; and every packing returns
  \<open>min max_txs (length of the queue)\<close> transactions.\<close>
theorem pool_fifo:
  assumes "run_ops pool_step ops p = (packed, p')" "list_all at_tail ops"
  shows "map untimed (concat packed @ TxQueue p') =
         map untimed (TxQueue p @ concat (map submitted ops)) \<and>
         (\<forall>n q. length (fst (PackTxs n q)) = min (unat n) (GetTxQueueLen q))"
proof
  show "\<forall>n q. length (fst (PackTxs n q)) = min (unat n) (GetTxQueueLen q)"
    using PackTxs_length by (metis GetTxQueueLen_def prod.collapse)
  show "map untimed (concat packed @ TxQueue p') = map untimed (TxQueue p @ concat (map submitted ops))"
    using assms
  proof (induction ops arbitrary: p packed)
    case (Cons x xs)
    obtain r p1 where one: "pool_step x p = (r, p1)"
      by (cases "pool_step x p")
    then obtain rs where "run_ops pool_step xs p1 = (rs, p')" "packed = r # rs"
      using Cons.prems(1) by (auto split: prod.splits)
    with Cons.IH [of p1 rs] Cons.prems(2) pool_step_tail [OF _ one] show ?case
      by simp
  qed simp
qed

theorem pool_fifo_witness:
  "\<exists>packed p'. run_ops pool_step [OpAddTx 5 zeroTransaction, OpPack 1] NewTxPool = (packed, p') \<and>
     map untimed (concat packed @ TxQueue p') =
     map untimed (TxQueue NewTxPool @ concat (map submitted [OpAddTx 5 zeroTransaction, OpPack 1]))"
proof -
  obtain packed p' where run: "run_ops pool_step [OpAddTx 5 zeroTransaction, OpPack 1] NewTxPool = (packed, p')"
    by (cases "run_ops pool_step [OpAddTx 5 zeroTransaction, OpPack 1] NewTxPool")
  with pool_fifo [OF run] show ?thesis
    by simp
qed

section \<open>The relay pool\<close>

lemma transfer_queue_conv:
  "transfer_queue addr txs moved kept =
     (moved @ filter (\<lambda>tx. Sender tx = addr) txs, kept @ filter (\<lambda>tx. Sender tx \<noteq> addr) txs)"
  by (induction addr txs moved kept rule: transfer_queue.induct) auto

definition relay_of :: "(uint64 \<rightharpoonup> Transaction list) \<Rightarrow> uint64 \<Rightarrow> Transaction list" where
  "relay_of m sid = (case m sid of None \<Rightarrow> [] | Some q \<Rightarrow> q)"

definition relay_cell :: "Transaction list \<Rightarrow> Transaction list option" where
  "relay_cell q = (if q = [] then None else Some q)"

lemma relay_append_conv: "relay_append m sid tx = m(sid \<mapsto> relay_of m sid @ [tx])"
  by (auto simp: relay_append_def relay_of_def Let_def)

lemma transfer_shard_moved:
  "fst (transfer_shard addr sid txs moved pool) = moved @ filter (\<lambda>tx. Sender tx = addr) txs"
  by (induction addr sid txs moved pool rule: transfer_shard.induct) auto

lemma transfer_shard_other:
  "s \<noteq> sid \<Longrightarrow> snd (transfer_shard addr sid txs moved pool) s = pool s"
  by (induction addr sid txs moved pool rule: transfer_shard.induct) (auto simp: relay_append_conv)

lemma transfer_shard_self:
  "pool sid = relay_cell q \<Longrightarrow>
     snd (transfer_shard addr sid txs moved pool) sid = relay_cell (q @ filter (\<lambda>tx. Sender tx \<noteq> addr) txs)"
proof (induction txs arbitrary: moved pool q)
  case (Cons tx txs)
  show ?case
  proof (cases "Sender tx = addr")
    case False
    have "relay_append pool sid tx sid = relay_cell (q @ [tx])"
      using Cons.prems by (auto simp: relay_append_conv relay_of_def relay_cell_def)
    from Cons.IH [of "relay_append pool sid tx", OF this] False show ?thesis
      by simp
  qed (use Cons in simp)
qed simp

lemma transfer_relay_conv:
  assumes "distinct sids" "\<forall>s \<in> set sids. pool s = None"
  shows "fst (transfer_relay addr m sids moved pool) =
           moved @ concat (map (\<lambda>s. filter (\<lambda>tx. Sender tx = addr) (relay_of m s)) sids) \<and>
         (\<forall>s. snd (transfer_relay addr m sids moved pool) s =
           (if s \<in> set sids then relay_cell (filter (\<lambda>tx. Sender tx \<noteq> addr) (relay_of m s)) else pool s))"
  using assms
proof (induction sids arbitrary: moved pool)
  case (Cons sid sids)
  let ?r = "transfer_shard addr sid (relay_of m sid) moved pool"
  have self: "snd ?r sid = relay_cell (filter (\<lambda>tx. Sender tx \<noteq> addr) (relay_of m sid))"
    using transfer_shard_self [of pool sid "[]"] Cons.prems(2) by (simp add: relay_cell_def)
  have "\<forall>s \<in> set sids. snd ?r s = None"
    using Cons.prems by (metis distinct.simps(2) list.set_intros(2) transfer_shard_other)
  then have IH: "fst (transfer_relay addr m sids (fst ?r) (snd ?r)) =
           fst ?r @ concat (map (\<lambda>s. filter (\<lambda>tx. Sender tx = addr) (relay_of m s)) sids) \<and>
         (\<forall>s. snd (transfer_relay addr m sids (fst ?r) (snd ?r)) s =
           (if s \<in> set sids then relay_cell (filter (\<lambda>tx. Sender tx \<noteq> addr) (relay_of m s)) else snd ?r s))"
    using Cons.prems(1) by (intro Cons.IH) auto
  have "transfer_relay addr m (sid # sids) moved pool = transfer_relay addr m sids (fst ?r) (snd ?r)"
    by (simp add: relay_of_def split: prod.splits)
  then show ?case
    using IH self Cons.prems(1) by (auto simp: transfer_shard_moved transfer_shard_other)
qed simp

text \<open>when an account is re-sharded, \<open>TransferTxs\<close> takes out exactly its transactions: the queue
  and every relay queue keep the others in order, a relay queue that becomes empty disappears,
  and the result lists the removed ones, queue first, then relay queues in the order in which
  the map is traversed, whatever that order is.\<close>
theorem TransferTxs_functional:
  assumes "RelayPool p = Some m" "distinct ks" "set ks = dom m"
    and "TransferTxs ks addr p = (moved, p')"
  shows "moved = filter (\<lambda>tx. Sender tx = addr) (TxQueue p @ concat (map (relay_of m) ks)) \<and>
         TxQueue p' = filter (\<lambda>tx. Sender tx \<noteq> addr) (TxQueue p) \<and>
         (\<forall>s. relay_lookup p' s = relay_cell (filter (\<lambda>tx. Sender tx \<noteq> addr) (relay_of m s)))"
proof -
  have outside: "relay_of m s = []" if "s \<notin> set ks" for s
    using that assms(3) by (auto simp: relay_of_def domIff split: option.splits)
  obtain mv pool where r: "transfer_relay addr m ks (filter (\<lambda>tx. Sender tx = addr) (TxQueue p)) Map.empty = (mv, pool)"
    by (cases "transfer_relay addr m ks (filter (\<lambda>tx. Sender tx = addr) (TxQueue p)) Map.empty")
  have "p' = p\<lparr> TxQueue := filter (\<lambda>tx. Sender tx \<noteq> addr) (TxQueue p), RelayPool := Some pool \<rparr>" "moved = mv"
    using assms(1,4) r by (auto simp: TransferTxs_def transfer_queue_conv Let_def)
  moreover note transfer_relay_conv [of ks Map.empty addr m "filter (\<lambda>tx. Sender tx = addr) (TxQueue p)"]
  ultimately show ?thesis
    using assms(2) r outside
    by (auto simp: relay_lookup_def relay_cell_def filter_concat o_def)
qed

theorem TransferTxs_functional_witness:
  "\<exists>moved p'. TransferTxs [3] ''a'' \<lparr> TxQueue = [zeroTransaction], RelayPool = Some [3 \<mapsto> [zeroTransaction\<lparr> Sender := ''a'' \<rparr>]] \<rparr> = (moved, p') \<and>
     moved = [zeroTransaction\<lparr> Sender := ''a'' \<rparr>] \<and> TxQueue p' = [zeroTransaction]"
proof -
  let ?p = "\<lparr> TxQueue = [zeroTransaction], RelayPool = Some [3 \<mapsto> [zeroTransaction\<lparr> Sender := ''a'' \<rparr>]] \<rparr>"
  obtain moved p' where r: "TransferTxs [3] ''a'' ?p = (moved, p')"
    by (cases "TransferTxs [3] ''a'' ?p")
  have "RelayPool ?p = Some [3 \<mapsto> [zeroTransaction\<lparr> Sender := ''a'' \<rparr>]]" "distinct [3 :: uint64]"
    "set [3 :: uint64] = dom [3 \<mapsto> [zeroTransaction\<lparr> Sender := ''a'' \<rparr>]]"
    by simp_all
  from TransferTxs_functional [OF this r] r show ?thesis
    by (simp add: relay_of_def zeroTransaction_def)
qed

text \<open>Relaying works until the relay pool is cleared: on a pool with a relay map \<open>AddRelayTx\<close>
  appends to the queue of that shard only and leaves the transaction queue alone; after
  \<open>ClearRelayPool\<close>, which stores a nil map, every \<open>AddRelayTx\<close> panics.\<close>
theorem relay_after_clear_panics:
  "AddRelayTx tx sid (ClearRelayPool p) = None \<and>
   (\<forall>m. RelayPool p = Some m \<longrightarrow>
      (\<exists>p'. AddRelayTx tx sid p = Some p' \<and> TxQueue p' = TxQueue p \<and>
         relay_lookup p' sid = Some (relay_of m sid @ [tx]) \<and>
         (\<forall>s. s \<noteq> sid \<longrightarrow> relay_lookup p' s = m s)))"
  by (auto simp: AddRelayTx_def ClearRelayPool_def relay_lookup_def relay_append_conv split: option.splits)

theorem relay_after_clear_panics_witness:
  "\<exists>p'. AddRelayTx zeroTransaction 2 NewTxPool = Some p' \<and> relay_lookup p' 2 = Some [zeroTransaction]"
  using relay_after_clear_panics [of zeroTransaction 2 NewTxPool]
  by (auto simp: NewTxPool_def relay_of_def)

end
