(* ===== verification/AccessList.thy ===== *)
theory AccessList
  imports Prelude
begin

text \<open>
  The two per-transaction side tables of the state: \<open>vm/state/access_list.go\<close> (addresses with an
  index into a slice of slot sets, \<open>-1\<close> for an address without slots) and
  \<open>vm/state/transient_storage.go\<close> (EIP-1153 storage, where a zero value deletes). A slot set is
  \<open>map[common.Hash]struct{}\<close> in the code and a set here; an index out of the slice panics.
\<close>

section \<open>Access list\<close>

record accessList =
  addresses :: "common_Address \<rightharpoonup> int"
  slots :: "common_Hash set list"

definition newAccessList :: accessList where
  "newAccessList = \<lparr> addresses = Map.empty, slots = [] \<rparr>"

definition ContainsAddress :: "accessList \<Rightarrow> common_Address \<Rightarrow> bool" where
  "ContainsAddress al a = (addresses al a \<noteq> None)"

definition slots_at :: "accessList \<Rightarrow> int \<Rightarrow> common_Hash set panics" where
  "slots_at al idx = (if 0 \<le> idx \<and> nat idx < length (slots al) then Some (slots al ! nat idx) else panic)"

definition Contains :: "accessList \<Rightarrow> common_Address \<Rightarrow> common_Hash \<Rightarrow> (bool \<times> bool) panics" where
  "Contains al a slot = (case addresses al a of
       None \<Rightarrow> Some (False, False)
     | Some idx \<Rightarrow> if idx = -1 then Some (True, False)
                   else do { m \<leftarrow> slots_at al idx; Some (True, slot \<in> m) })"

definition AddAddress :: "accessList \<Rightarrow> common_Address \<Rightarrow> bool \<times> accessList" where
  "AddAddress al a = (if addresses al a \<noteq> None then (False, al)
     else (True, al\<lparr> addresses := (addresses al)(a \<mapsto> -1) \<rparr>))"

definition AddSlot :: "accessList \<Rightarrow> common_Address \<Rightarrow> common_Hash \<Rightarrow> ((bool \<times> bool) \<times> accessList) panics" where
  "AddSlot al a slot =
     (if addresses al a = None \<or> addresses al a = Some (-1)
      then Some ((addresses al a = None, True),
             \<lparr> addresses = (addresses al)(a \<mapsto> int (length (slots al))), slots = slots al @ [{slot}] \<rparr>)
      else do {
        m \<leftarrow> slots_at al (the (addresses al a));
        if slot \<notin> m
        then Some ((False, True), al\<lparr> slots := (slots al)[nat (the (addresses al a)) := insert slot m] \<rparr>)
        else Some ((False, False), al) })"

definition DeleteSlot :: "accessList \<Rightarrow> common_Address \<Rightarrow> common_Hash \<Rightarrow> accessList panics" where
  "DeleteSlot al a slot = (case addresses al a of
       None \<Rightarrow> panic
     | Some idx \<Rightarrow> do {
         m \<leftarrow> slots_at al idx;
         let m1 = m - {slot};
         let al1 = al\<lparr> slots := (slots al)[nat idx := m1] \<rparr>;
         if m1 = {} then Some \<lparr> addresses = (addresses al)(a \<mapsto> -1), slots = take (nat idx) (slots al) \<rparr>
         else Some al1 })"

definition DeleteAddress :: "accessList \<Rightarrow> common_Address \<Rightarrow> accessList" where
  "DeleteAddress al a = al\<lparr> addresses := (addresses al)(a := None) \<rparr>"

text \<open>Every index an address carries is \<open>-1\<close> or points into the slice, no two addresses share one,
  and no slot set is empty.\<close>

definition access_list_ok :: "accessList \<Rightarrow> bool" where
  "access_list_ok al \<longleftrightarrow> (\<forall>a idx. addresses al a = Some idx \<longrightarrow> idx = -1 \<or> 0 \<le> idx \<and> nat idx < length (slots al)) \<and>
     (\<forall>a b idx. addresses al a = Some idx \<longrightarrow> addresses al b = Some idx \<longrightarrow> idx \<noteq> -1 \<longrightarrow> a = b) \<and>
     {} \<notin> set (slots al)"

lemma access_list_ok_new: "access_list_ok newAccessList"
  by (simp add: access_list_ok_def newAccessList_def)

lemma AddAddress_ok: "access_list_ok al \<Longrightarrow> access_list_ok (snd (AddAddress al a))"
  by (auto simp: access_list_ok_def AddAddress_def)

lemma slots_at_ok:
  assumes "access_list_ok al" "addresses al a = Some idx" "idx \<noteq> -1"
  shows "0 \<le> idx" "nat idx < length (slots al)" "slots_at al idx = Some (slots al ! nat idx)"
  using assms by (auto simp: access_list_ok_def slots_at_def)

lemma index_unique:
  assumes "access_list_ok al" "addresses al a = Some (int i)" "addresses al b = Some (int i)"
  shows "a = b"
  using assms unfolding access_list_ok_def by (metis int_nat_eq nat_int of_nat_0_le_iff zero_le_numeral neg_0_le_iff_le not_one_le_zero)

text \<open>The three branches of \<open>AddSlot\<close> on a well-formed list.\<close>

lemma AddSlot_cases:
  assumes ok: "access_list_ok al"
  obtains
    (fresh) "addresses al a = None \<or> addresses al a = Some (-1)"
      "AddSlot al a slot = Some ((addresses al a = None, True),
         \<lparr> addresses = (addresses al)(a \<mapsto> int (length (slots al))), slots = slots al @ [{slot}] \<rparr>)"
  | (more) i where "addresses al a = Some (int i)" "i < length (slots al)" "slot \<notin> slots al ! i"
      "AddSlot al a slot = Some ((False, True), al\<lparr> slots := (slots al)[i := insert slot (slots al ! i)] \<rparr>)"
  | (known) i where "addresses al a = Some (int i)" "i < length (slots al)" "slot \<in> slots al ! i"
      "AddSlot al a slot = Some ((False, False), al)"
proof (cases "addresses al a = None \<or> addresses al a = Some (-1)")
  case True
  then show ?thesis
    using fresh by (simp add: AddSlot_def)
next
  case False
  then obtain idx where idx: "addresses al a = Some idx" "idx \<noteq> -1"
    by auto
  note at = slots_at_ok [OF ok idx]
  have i: "addresses al a = Some (int (nat idx))" "AddSlot al a slot =
      (if slot \<notin> slots al ! nat idx
       then Some ((False, True), al\<lparr> slots := (slots al)[nat idx := insert slot (slots al ! nat idx)] \<rparr>)
       else Some ((False, False), al))"
    using idx at by (simp_all add: AddSlot_def)
  then show ?thesis
    using more [OF i(1) at(2)] known [OF i(1) at(2)] by auto
qed

lemma in_set_upd: "x \<in> set (xs[i := y]) \<Longrightarrow> x = y \<or> x \<in> set xs"
  using set_update_subset_insert [of xs i y] by blast

lemma access_list_ok_fresh:
  assumes "access_list_ok al"
  shows "access_list_ok \<lparr> addresses = (addresses al)(a \<mapsto> int (length (slots al))), slots = slots al @ [{slot}] \<rparr>"
proof -
  have "idx = -1 \<or> 0 \<le> idx \<and> nat idx < length (slots al)" if "addresses al b = Some idx" for b idx
    using assms that unfolding access_list_ok_def by blast
  moreover have "b = c" if "addresses al b = Some idx" "addresses al c = Some idx" "idx \<noteq> -1" for b c idx
    using assms that unfolding access_list_ok_def by blast
  moreover have "b = a" if "addresses al b = Some (int (length (slots al)))" for b
    using assms that by (fastforce simp: access_list_ok_def)
  moreover have "{} \<notin> set (slots al)"
    using assms by (simp add: access_list_ok_def)
  ultimately show ?thesis
    unfolding access_list_ok_def by (auto simp: less_Suc_eq)
qed

lemma AddSlot_total:
  assumes "access_list_ok al"
  shows "\<exists>r al'. AddSlot al a slot = Some (r, al') \<and> access_list_ok al'"
  using assms
proof (cases rule: AddSlot_cases [of al a slot])
  case fresh
  then show ?thesis
    using access_list_ok_fresh [OF assms] by auto
next
  case (more i)
  then show ?thesis
    using assms by (auto simp: access_list_ok_def dest: in_set_upd)
qed (use assms in auto)

text \<open>the access list keeps its indices valid and remembers what is added. On a well-formed
  list, adding an address and slot never panics, the result is well formed, contains the pair, and
  answers every other query as before, except that the address itself is now present.\<close>
theorem access_list_add_slot:
  assumes ok: "access_list_ok al"
  shows "\<exists>r al'. AddSlot al a slot = Some (r, al') \<and> access_list_ok al' \<and> Contains al' a slot = Some (True, True) \<and>
     (\<forall>b sl. (b, sl) \<noteq> (a, slot) \<longrightarrow>
        Contains al' b sl = map_option (\<lambda>(p, q). (p \<or> b = a, q)) (Contains al b sl))"
  using ok
proof (cases rule: AddSlot_cases [of al a slot])
  case fresh
  let ?al = "\<lparr> addresses = (addresses al)(a \<mapsto> int (length (slots al))), slots = slots al @ [{slot}] \<rparr>"
  have old: "b \<noteq> a \<Longrightarrow> addresses al b = Some idx \<Longrightarrow> idx \<noteq> -1 \<Longrightarrow> 0 \<le> idx \<and> nat idx < length (slots al)" for b idx
    using ok by (auto simp: access_list_ok_def)
  have "access_list_ok ?al"
    using ok by (rule access_list_ok_fresh)
  moreover have "Contains ?al a slot = Some (True, True)"
    by (simp add: Contains_def slots_at_def)
  moreover have "Contains ?al b sl = map_option (\<lambda>(p, q). (p \<or> b = a, q)) (Contains al b sl)" if "(b, sl) \<noteq> (a, slot)" for b sl
  proof (cases "b = a")
    case True
    then show ?thesis
      using that fresh(1) by (auto simp: Contains_def slots_at_def)
  next
    case False
    then show ?thesis
      using old [OF False] by (cases "addresses al b"; cases "addresses al b = Some (-1)")
        (auto simp: Contains_def slots_at_def nth_append)
  qed
  ultimately show ?thesis
    using fresh(2) by blast
next
  case (more i)
  let ?al = "al\<lparr> slots := (slots al)[i := insert slot (slots al ! i)] \<rparr>"
  have "access_list_ok ?al"
    using ok by (auto simp: access_list_ok_def dest: in_set_upd)
  moreover have "Contains ?al a slot = Some (True, True)"
    using more by (simp add: Contains_def slots_at_def)
  moreover have "Contains ?al b sl = map_option (\<lambda>(p, q). (p \<or> b = a, q)) (Contains al b sl)" if ne: "(b, sl) \<noteq> (a, slot)" for b sl
  proof (cases "addresses al b")
    case (Some idx)
    have "idx = int i \<longrightarrow> b = a"
      using more(1) Some index_unique [OF ok] by auto
    then show ?thesis
      using Some ne more slots_at_ok [OF ok Some] by (auto simp: Contains_def slots_at_def nth_list_update)
  qed (use more in \<open>auto simp: Contains_def\<close>)
  ultimately show ?thesis
    using more(4) by blast
next
  case (known i)
  have "Contains al a slot = Some (True, True)"
    using known by (simp add: Contains_def slots_at_def)
  moreover have "Contains al b sl = map_option (\<lambda>(p, q). (p \<or> b = a, q)) (Contains al b sl)" for b sl
    using known by (auto simp: Contains_def slots_at_def split: option.split)
  ultimately show ?thesis
    using known(4) ok by blast
qed

theorem access_list_add_slot_witness:
  "access_list_ok newAccessList \<and>
   (\<exists>r al'. AddSlot newAccessList 7 9 = Some (r, al') \<and> Contains al' 7 9 = Some (True, True))"
  using access_list_add_slot [OF access_list_ok_new, of 7 9] access_list_ok_new by blast

text \<open>Removing in the reverse order undoes an addition.\<close>

lemma DeleteSlot_undoes_AddSlot:
  assumes ok: "access_list_ok al" and add: "AddSlot al a slot = Some ((p, True), al')"
  shows "\<exists>al''. DeleteSlot al' a slot = Some al'' \<and> slots al'' = slots al \<and>
     addresses al'' = (if p then (addresses al)(a \<mapsto> -1) else addresses al)"
  using ok
proof (cases rule: AddSlot_cases [of al a slot])
  case fresh
  then show ?thesis
    using add by (auto simp: DeleteSlot_def slots_at_def fun_upd_idem)
next
  case (more i)
  have m: "insert slot (slots al ! i) - {slot} = slots al ! i"
    using more(3) by simp
  have ne: "slots al ! i \<noteq> {}"
    using ok more(2) unfolding access_list_ok_def by (metis nth_mem)
  have ns: "\<not> slots al ! i \<subseteq> {slot}"
    using ne more(3) by blast
  have al': "al' = al\<lparr> slots := (slots al)[i := insert slot (slots al ! i)] \<rparr>" "\<not> p"
    using add more(4) by auto
  have "DeleteSlot al' a slot = Some al"
    unfolding DeleteSlot_def using more(1,2) ns by (simp add: al'(1) slots_at_def m Let_def)
  then show ?thesis
    using al'(2) by simp
next
  case (known i)
  then show ?thesis
    using add by simp
qed

section \<open>Transient storage\<close>

type_synonym Storage = "common_Hash \<rightharpoonup> common_Hash"
type_synonym transientStorage = "common_Address \<rightharpoonup> Storage"

definition newTransientStorage :: transientStorage where
  "newTransientStorage = Map.empty"

definition Set_transient :: "common_Address \<Rightarrow> common_Hash \<Rightarrow> common_Hash \<Rightarrow> transientStorage \<Rightarrow> transientStorage" where
  "Set_transient a key val t =
     (if val = 0
      then (case t a of
              None \<Rightarrow> t
            | Some m \<Rightarrow> if m(key := None) = Map.empty then t(a := None) else t(a \<mapsto> m(key := None)))
      else (case t a of
              None \<Rightarrow> t(a \<mapsto> Map.empty(key \<mapsto> val))
            | Some m \<Rightarrow> t(a \<mapsto> m(key \<mapsto> val))))"

definition Get_transient :: "common_Address \<Rightarrow> common_Hash \<Rightarrow> transientStorage \<Rightarrow> common_Hash" where
  "Get_transient a key t = (case t a of None \<Rightarrow> 0 | Some m \<Rightarrow> (case m key of None \<Rightarrow> 0 | Some v \<Rightarrow> v))"

lemma Get_Set_transient [simp]:
  "Get_transient b k (Set_transient a key val t) = (if b = a \<and> k = key then val else Get_transient b k t)"
proof (cases "t a")
  case None
  then show ?thesis
    by (auto simp: Get_transient_def Set_transient_def)
next
  case (Some m)
  have "m k = None" if "m(key := None) = Map.empty" "k \<noteq> key"
    using that by (metis fun_upd_other)
  then show ?thesis
    using Some by (auto simp: Get_transient_def Set_transient_def split: option.split)
qed

end
