(* ===== verification/StateDB.thy ===== *)
theory StateDB
  imports Journal AccessList
begin

text \<open>
  The account state of the virtual machine: \<open>vm/state/statedb.go\<close>, \<open>vm/state/state_object.go\<close> and
  the \<open>Execute\<close> and \<open>Revert\<close> methods of \<open>vm/state/journal.go\<close>.

  The backing database is the Go interface \<open>Reader\<close> (accounts and storage slots) with the contract
  code lookup; it is a parameter, as are \<open>crypto.Keccak256Hash\<close>, the two geth constants for empty
  code and an empty trie, the node table and \<open>global.ShardID\<close>. No caller in the repository installs
  the trie prefetcher or the tracing hooks, so the branches that call them are not in the model, nor
  are the duration and load counters kept for measurements.
\<close>

section \<open>Data\<close>

record StateAccount =
  SNonce :: uint64
  SBalance :: uint256
  SRoot :: common_Hash
  SCodeHash :: common_Hash

record stateObject =
  address :: common_Address
  origin :: "StateAccount option"
  data :: StateAccount
  code :: bytes
  originStorage :: Storage
  dirtyStorage :: Storage
  pendingStorage :: Storage
  uncommittedStorage :: Storage
  dirtyCode :: bool
  selfDestructed :: bool
  newContract :: bool

datatype mutationType = update | deletion

record mutation =
  mtyp :: mutationType
  applied :: bool

text \<open>The fields of geth's \<open>types.Log\<close> that the state writes, and its payload.\<close>

record LogRec =
  L_Payload :: bytes
  L_TxHash :: common_Hash
  L_TxIndex :: uint64
  L_Index :: uint64
  L_BlockNumber :: uint64
  L_BlockHash :: common_Hash

record StateDB =
  stateObjects :: "common_Address \<rightharpoonup> stateObject"
  stateObjectsDestruct :: "common_Address \<rightharpoonup> stateObject"
  mutations :: "common_Address \<rightharpoonup> mutation"
  dbErr :: "string option"
  refund :: uint64
  thash :: common_Hash
  txIndex :: uint64
  logs :: "common_Hash \<rightharpoonup> LogRec list"
  logSize :: uint64
  preimages :: "common_Hash \<rightharpoonup> bytes"
  accList :: accessList
  transient :: transientStorage
  jrnl :: journal

text \<open>What the state relies on: the database reader and the other parameters.\<close>

record StateEnv =
  env_ShardID :: uint64
  Keccak256Hash :: "bytes \<Rightarrow> common_Hash"
  EmptyCodeHash :: common_Hash
  EmptyRootHash :: common_Hash
  reader_Account :: "common_Address \<Rightarrow> string + StateAccount option"
  reader_Storage :: "common_Address \<Rightarrow> common_Hash \<Rightarrow> string + common_Hash"
  ContractCode :: "common_Address \<Rightarrow> common_Hash \<Rightarrow> bytes \<times> string option"
  Ip_nodeTable :: "uint64 \<Rightarrow> string list"

definition Init_Balance :: int where
  "Init_Balance = 10000"

definition New2 :: StateDB where
  "New2 = \<lparr> stateObjects = Map.empty, stateObjectsDestruct = Map.empty, mutations = Map.empty, dbErr = None,
     refund = 0, thash = 0, txIndex = 0, logs = Map.empty, logSize = 0, preimages = Map.empty,
     accList = newAccessList, transient = newTransientStorage, jrnl = newJournal \<rparr>"

text \<open>\<open>New\<close>: the process-wide state when there is one, a fresh one otherwise, and which it was.\<close>

definition New :: "StateDB option \<Rightarrow> StateDB \<times> string" where
  "New GlobalStateDB = (case GlobalStateDB of Some s \<Rightarrow> (s, ''old'') | None \<Rightarrow> (New2, ''new''))"

section \<open>State objects\<close>

definition NewEmptyStateAccount :: "StateEnv \<Rightarrow> StateAccount" where
  "NewEmptyStateAccount env = \<lparr> SNonce = 0, SBalance = 0, SRoot = EmptyRootHash env, SCodeHash = EmptyCodeHash env \<rparr>"

definition newObject :: "StateEnv \<Rightarrow> common_Address \<Rightarrow> StateAccount option \<Rightarrow> stateObject" where
  "newObject env a acct =
     \<lparr> address = a, origin = acct,
       data = (case acct of None \<Rightarrow> NewEmptyStateAccount env | Some d \<Rightarrow> d),
       code = [], originStorage = Map.empty, dirtyStorage = Map.empty, pendingStorage = Map.empty,
       uncommittedStorage = Map.empty, dirtyCode = False, selfDestructed = False, newContract = False \<rparr>"

definition empty_obj :: "StateEnv \<Rightarrow> stateObject \<Rightarrow> bool" where
  "empty_obj env ob \<longleftrightarrow> SNonce (data ob) = 0 \<and> SBalance (data ob) = 0 \<and> SCodeHash (data ob) = EmptyCodeHash env"

definition markSelfdestructed :: "stateObject \<Rightarrow> stateObject" where
  "markSelfdestructed ob = ob\<lparr> selfDestructed := True \<rparr>"

definition setBalance :: "uint256 \<Rightarrow> stateObject \<Rightarrow> stateObject" where
  "setBalance amount ob = ob\<lparr> data := (data ob)\<lparr> SBalance := amount \<rparr> \<rparr>"

definition setNonce :: "uint64 \<Rightarrow> stateObject \<Rightarrow> stateObject" where
  "setNonce nonce ob = ob\<lparr> data := (data ob)\<lparr> SNonce := nonce \<rparr> \<rparr>"

definition setCode :: "common_Hash \<Rightarrow> bytes \<Rightarrow> stateObject \<Rightarrow> stateObject" where
  "setCode codeHash c ob = ob\<lparr> code := c, data := (data ob)\<lparr> SCodeHash := codeHash \<rparr>, dirtyCode := True \<rparr>"

definition setState :: "common_Hash \<Rightarrow> common_Hash \<Rightarrow> common_Hash \<Rightarrow> stateObject \<Rightarrow> stateObject" where
  "setState key val orig ob =
     (if val = orig then ob\<lparr> dirtyStorage := (dirtyStorage ob)(key := None) \<rparr>
      else ob\<lparr> dirtyStorage := (dirtyStorage ob)(key \<mapsto> val) \<rparr>)"

text \<open>\<open>GetCommittedState\<close> caches what it reads: it returns the value, the object with the cache
  filled and the reader's error, if any.\<close>

definition GetCommittedState_obj ::
  "StateEnv \<Rightarrow> StateDB \<Rightarrow> stateObject \<Rightarrow> common_Hash \<Rightarrow> common_Hash \<times> stateObject \<times> string option" where
  "GetCommittedState_obj env s ob key =
     (case pendingStorage ob key of
        Some v \<Rightarrow> (v, ob, None)
      | None \<Rightarrow> (case originStorage ob key of
          Some v \<Rightarrow> (v, ob, None)
        | None \<Rightarrow>
            if stateObjectsDestruct s (address ob) \<noteq> None
            then (0, ob\<lparr> originStorage := (originStorage ob)(key \<mapsto> 0) \<rparr>, None)
            else (case reader_Storage env (address ob) key of
                    Inl e \<Rightarrow> (0, ob, Some e)
                  | Inr v \<Rightarrow> (v, ob\<lparr> originStorage := (originStorage ob)(key \<mapsto> v) \<rparr>, None))))"

definition getState_obj ::
  "StateEnv \<Rightarrow> StateDB \<Rightarrow> stateObject \<Rightarrow> common_Hash \<Rightarrow> (common_Hash \<times> common_Hash) \<times> stateObject \<times> string option" where
  "getState_obj env s ob key =
     (let (orig, ob1, e) = GetCommittedState_obj env s ob key in
      case dirtyStorage ob1 key of
        Some v \<Rightarrow> ((v, orig), ob1, e)
      | None \<Rightarrow> ((orig, orig), ob1, e))"

definition setError :: "string option \<Rightarrow> StateDB \<Rightarrow> StateDB" where
  "setError e s = (if dbErr s = None then s\<lparr> dbErr := e \<rparr> else s)"

definition setStateObject :: "stateObject \<Rightarrow> StateDB \<Rightarrow> StateDB" where
  "setStateObject ob s = s\<lparr> stateObjects := (stateObjects s)(address ob \<mapsto> ob) \<rparr>"

abbreviation jappend :: "(journal \<Rightarrow> journal) \<Rightarrow> StateDB \<Rightarrow> StateDB" where
  "jappend f s \<equiv> s\<lparr> jrnl := f (jrnl s) \<rparr>"

text \<open>\<open>getStateObject\<close>: the live object, or the reader's account, which becomes live.\<close>

definition getStateObject :: "StateEnv \<Rightarrow> common_Address \<Rightarrow> StateDB \<Rightarrow> stateObject option \<times> StateDB" where
  "getStateObject env a s =
     (case stateObjects s a of
        Some ob \<Rightarrow> (Some ob, s)
      | None \<Rightarrow>
          if stateObjectsDestruct s a \<noteq> None then (None, s)
          else (case reader_Account env a of
                  Inl e \<Rightarrow> (None, setError (Some e) s)
                | Inr None \<Rightarrow> (None, s)
                | Inr (Some acct) \<Rightarrow> (let ob = newObject env a (Some acct) in (Some ob, setStateObject ob s))))"

definition createObject :: "StateEnv \<Rightarrow> common_Address \<Rightarrow> StateDB \<Rightarrow> stateObject \<times> StateDB" where
  "createObject env a s =
     (let ob = setBalance (word_of_int Init_Balance) (newObject env a None)
      in (ob, setStateObject ob (jappend (createObject_j (env_ShardID env) a) s)))"

definition getOrNewStateObject :: "StateEnv \<Rightarrow> common_Address \<Rightarrow> StateDB \<Rightarrow> stateObject \<times> StateDB" where
  "getOrNewStateObject env a s =
     (case getStateObject env a s of
        (Some ob, s1) \<Rightarrow> (ob, s1)
      | (None, s1) \<Rightarrow> createObject env a s1)"

text \<open>The methods of a live object that journal: they write the object back at its address.\<close>

definition touch :: "StateEnv \<Rightarrow> stateObject \<Rightarrow> StateDB \<Rightarrow> StateDB" where
  "touch env ob = jappend (touchChange (env_ShardID env) (address ob))"

definition SetBalance_obj :: "StateEnv \<Rightarrow> uint256 \<Rightarrow> stateObject \<Rightarrow> StateDB \<Rightarrow> StateDB" where
  "SetBalance_obj env amount ob s =
     setStateObject (setBalance amount ob)
       (jappend (balanceChange (env_ShardID env) (address ob) (ucast (SBalance (data ob))) (ucast amount)) s)"

definition AddBalance_obj :: "StateEnv \<Rightarrow> uint256 \<Rightarrow> stateObject \<Rightarrow> StateDB \<Rightarrow> StateDB" where
  "AddBalance_obj env amount ob s =
     (if amount = 0 then (if empty_obj env ob then touch env ob s else s)
      else SetBalance_obj env (SBalance (data ob) + amount) ob s)"

definition SubBalance_obj :: "StateEnv \<Rightarrow> uint256 \<Rightarrow> stateObject \<Rightarrow> StateDB \<Rightarrow> StateDB" where
  "SubBalance_obj env amount ob s =
     (if amount = 0 then s else SetBalance_obj env (SBalance (data ob) - amount) ob s)"

definition SetNonce_obj :: "StateEnv \<Rightarrow> uint64 \<Rightarrow> stateObject \<Rightarrow> StateDB \<Rightarrow> StateDB" where
  "SetNonce_obj env nonce ob s =
     setStateObject (setNonce nonce ob)
       (jappend (nonceChange (env_ShardID env) (address ob) (SNonce (data ob)) nonce) s)"

definition SetCode_obj :: "StateEnv \<Rightarrow> common_Hash \<Rightarrow> bytes \<Rightarrow> stateObject \<Rightarrow> StateDB \<Rightarrow> StateDB" where
  "SetCode_obj env codeHash c ob s =
     setStateObject (setCode codeHash c ob) (jappend (setCode_j (env_ShardID env) (address ob) codeHash c) s)"

definition SetState_obj :: "StateEnv \<Rightarrow> common_Hash \<Rightarrow> common_Hash \<Rightarrow> stateObject \<Rightarrow> StateDB \<Rightarrow> StateDB" where
  "SetState_obj env key val ob s =
     (let ((prev, orig), ob1, e) = getState_obj env s ob key;
          s1 = setStateObject ob1 (setError e s) in
      if prev = val then s1
      else setStateObject (setState key val orig ob1)
             (jappend (storageChange (env_ShardID env) (address ob1) key prev orig val) s1))"

definition Code_obj :: "StateEnv \<Rightarrow> stateObject \<Rightarrow> StateDB \<Rightarrow> bytes \<times> StateDB" where
  "Code_obj env ob s =
     (if code ob \<noteq> [] then (code ob, s)
      else if SCodeHash (data ob) = EmptyCodeHash env then ([], s)
      else (let (c, e) = ContractCode env (address ob) (SCodeHash (data ob)) in
            (c, setStateObject (ob\<lparr> code := c \<rparr>) (setError e s))))"

definition CodeSize_obj :: "StateEnv \<Rightarrow> stateObject \<Rightarrow> StateDB \<Rightarrow> nat \<times> StateDB" where
  "CodeSize_obj env ob s =
     (if code ob \<noteq> [] then (length (code ob), s)
      else if SCodeHash (data ob) = EmptyCodeHash env then (0, s)
      else (let (c, e) = ContractCode env (address ob) (SCodeHash (data ob)) in (length c, setError e s)))"

text \<open>\<open>finalise\<close>: every dirty slot moves to the pending area, and the value it had before the
  first uncommitted change is remembered. The keys are independent of each other, so the loop over
  the dirty map is written key by key.\<close>

definition finalise :: "StateEnv \<Rightarrow> StateDB \<Rightarrow> stateObject \<Rightarrow> stateObject" where
  "finalise env s ob = ob\<lparr>
     uncommittedStorage := (\<lambda>key. case dirtyStorage ob key of
         None \<Rightarrow> uncommittedStorage ob key
       | Some v \<Rightarrow> (case uncommittedStorage ob key of
           Some orig \<Rightarrow> if orig = v then None else Some orig
         | None \<Rightarrow> Some (fst (GetCommittedState_obj env s ob key)))),
     originStorage := (\<lambda>key. if dirtyStorage ob key \<noteq> None \<and> uncommittedStorage ob key = None
         then originStorage (fst (snd (GetCommittedState_obj env s ob key))) key
         else originStorage ob key),
     pendingStorage := (\<lambda>key. case dirtyStorage ob key of None \<Rightarrow> pendingStorage ob key | Some v \<Rightarrow> Some v),
     dirtyStorage := Map.empty,
     newContract := False \<rparr>"

section \<open>Queries\<close>

definition Exist :: "StateEnv \<Rightarrow> common_Address \<Rightarrow> StateDB \<Rightarrow> bool \<times> StateDB" where
  "Exist env a s = (let (ob, s1) = getStateObject env a s in (ob \<noteq> None, s1))"

definition Empty_db :: "StateEnv \<Rightarrow> common_Address \<Rightarrow> StateDB \<Rightarrow> bool \<times> StateDB" where
  "Empty_db env a s = (let (so, s1) = getStateObject env a s in
     (case so of None \<Rightarrow> True | Some ob \<Rightarrow> empty_obj env ob, s1))"

definition GetBalance :: "StateEnv \<Rightarrow> common_Address \<Rightarrow> StateDB \<Rightarrow> uint256 \<times> StateDB" where
  "GetBalance env a s = (let (ob, s1) = getOrNewStateObject env a s in (SBalance (data ob), s1))"

definition GetNonce :: "StateEnv \<Rightarrow> common_Address \<Rightarrow> StateDB \<Rightarrow> uint64 \<times> StateDB" where
  "GetNonce env a s = (let (so, s1) = getStateObject env a s in
     (case so of None \<Rightarrow> 0 | Some ob \<Rightarrow> SNonce (data ob), s1))"

definition GetStorageRoot :: "StateEnv \<Rightarrow> common_Address \<Rightarrow> StateDB \<Rightarrow> common_Hash \<times> StateDB" where
  "GetStorageRoot env a s = (let (so, s1) = getStateObject env a s in
     (case so of None \<Rightarrow> 0 | Some ob \<Rightarrow> SRoot (data ob), s1))"

definition GetCode :: "StateEnv \<Rightarrow> common_Address \<Rightarrow> StateDB \<Rightarrow> bytes \<times> StateDB" where
  "GetCode env a s = (case getStateObject env a s of (None, s1) \<Rightarrow> ([], s1) | (Some ob, s1) \<Rightarrow> Code_obj env ob s1)"

definition GetCodeSize :: "StateEnv \<Rightarrow> common_Address \<Rightarrow> StateDB \<Rightarrow> nat \<times> StateDB" where
  "GetCodeSize env a s = (case getStateObject env a s of (None, s1) \<Rightarrow> (0, s1) | (Some ob, s1) \<Rightarrow> CodeSize_obj env ob s1)"

definition GetCodeHash :: "StateEnv \<Rightarrow> common_Address \<Rightarrow> StateDB \<Rightarrow> common_Hash \<times> StateDB" where
  "GetCodeHash env a s = (let (so, s1) = getStateObject env a s in
     (case so of None \<Rightarrow> 0 | Some ob \<Rightarrow> SCodeHash (data ob), s1))"

definition GetState :: "StateEnv \<Rightarrow> common_Address \<Rightarrow> common_Hash \<Rightarrow> StateDB \<Rightarrow> common_Hash \<times> StateDB" where
  "GetState env a key s = (case getStateObject env a s of
       (None, s1) \<Rightarrow> (0, s1)
     | (Some ob, s1) \<Rightarrow> (let ((v, orig), ob1, e) = getState_obj env s1 ob key in (v, setStateObject ob1 (setError e s1))))"

definition GetCommittedState :: "StateEnv \<Rightarrow> common_Address \<Rightarrow> common_Hash \<Rightarrow> StateDB \<Rightarrow> common_Hash \<times> StateDB" where
  "GetCommittedState env a key s = (case getStateObject env a s of
       (None, s1) \<Rightarrow> (0, s1)
     | (Some ob, s1) \<Rightarrow> (let (v, ob1, e) = GetCommittedState_obj env s1 ob key in (v, setStateObject ob1 (setError e s1))))"

definition HasSelfDestructed :: "StateEnv \<Rightarrow> common_Address \<Rightarrow> StateDB \<Rightarrow> bool \<times> StateDB" where
  "HasSelfDestructed env a s = (let (so, s1) = getStateObject env a s in
     (case so of None \<Rightarrow> False | Some ob \<Rightarrow> selfDestructed ob, s1))"

definition GetTransientState :: "common_Address \<Rightarrow> common_Hash \<Rightarrow> StateDB \<Rightarrow> common_Hash" where
  "GetTransientState a key s = Get_transient a key (transient s)"

definition GetLogs :: "common_Hash \<Rightarrow> uint64 \<Rightarrow> common_Hash \<Rightarrow> StateDB \<Rightarrow> LogRec list \<times> StateDB" where
  "GetLogs h blockNumber blockHash s = (case logs s h of
       None \<Rightarrow> ([], s)
     | Some ls \<Rightarrow> (let ls1 = map (\<lambda>l. l\<lparr> L_BlockNumber := blockNumber, L_BlockHash := blockHash \<rparr>) ls in
         (ls1, s\<lparr> logs := (logs s)(h \<mapsto> ls1) \<rparr>)))"

section \<open>Updates\<close>

definition logs_of :: "StateDB \<Rightarrow> common_Hash \<Rightarrow> LogRec list" where
  "logs_of s h = (case logs s h of None \<Rightarrow> [] | Some ls \<Rightarrow> ls)"

definition AddLog :: "StateEnv \<Rightarrow> LogRec \<Rightarrow> StateDB \<Rightarrow> StateDB" where
  "AddLog env lg s =
     (let s1 = jappend (logChange (env_ShardID env) (thash s)) s;
          lg1 = lg\<lparr> L_TxHash := thash s, L_TxIndex := txIndex s, L_Index := logSize s \<rparr>
      in s1\<lparr> logs := (logs s1)(thash s \<mapsto> logs_of s (thash s) @ [lg1]), logSize := logSize s + 1 \<rparr>)"

definition AddPreimage :: "common_Hash \<Rightarrow> bytes \<Rightarrow> StateDB \<Rightarrow> StateDB" where
  "AddPreimage h p s = (if preimages s h = None then s\<lparr> preimages := (preimages s)(h \<mapsto> p) \<rparr> else s)"

definition AddRefund :: "StateEnv \<Rightarrow> uint64 \<Rightarrow> StateDB \<Rightarrow> StateDB" where
  "AddRefund env gas s = (jappend (refundChange (env_ShardID env) (refund s) gas) s)\<lparr> refund := refund s + gas \<rparr>"

definition SubRefund :: "StateEnv \<Rightarrow> uint64 \<Rightarrow> StateDB \<Rightarrow> StateDB panics" where
  "SubRefund env gas s =
     (let s1 = jappend (refundChange (env_ShardID env) (refund s) (- gas)) s in
      if refund s < gas then panic else Some (s1\<lparr> refund := refund s - gas \<rparr>))"

definition AddBalance :: "StateEnv \<Rightarrow> common_Address \<Rightarrow> uint256 \<Rightarrow> StateDB \<Rightarrow> StateDB" where
  "AddBalance env a amount s = (let (ob, s1) = getOrNewStateObject env a s in AddBalance_obj env amount ob s1)"

definition SubBalance :: "StateEnv \<Rightarrow> common_Address \<Rightarrow> uint256 \<Rightarrow> StateDB \<Rightarrow> StateDB" where
  "SubBalance env a amount s = (let (ob, s1) = getOrNewStateObject env a s in SubBalance_obj env amount ob s1)"

definition SetBalance :: "StateEnv \<Rightarrow> common_Address \<Rightarrow> uint256 \<Rightarrow> StateDB \<Rightarrow> StateDB" where
  "SetBalance env a amount s = (let (ob, s1) = getOrNewStateObject env a s in SetBalance_obj env amount ob s1)"

definition SetNonce :: "StateEnv \<Rightarrow> common_Address \<Rightarrow> uint64 \<Rightarrow> StateDB \<Rightarrow> StateDB" where
  "SetNonce env a nonce s = (let (ob, s1) = getOrNewStateObject env a s in SetNonce_obj env nonce ob s1)"

definition SetCode :: "StateEnv \<Rightarrow> common_Address \<Rightarrow> bytes \<Rightarrow> StateDB \<Rightarrow> StateDB" where
  "SetCode env a c s = (let (ob, s1) = getOrNewStateObject env a s in SetCode_obj env (Keccak256Hash env c) c ob s1)"

definition SetState :: "StateEnv \<Rightarrow> common_Address \<Rightarrow> common_Hash \<Rightarrow> common_Hash \<Rightarrow> StateDB \<Rightarrow> StateDB" where
  "SetState env a key val s = (let (ob, s1) = getOrNewStateObject env a s in SetState_obj env key val ob s1)"

text \<open>\<open>SelfDestruct\<close> works on the object it fetched: the balance is cleared and journalled first.\<close>

definition SelfDestruct :: "StateEnv \<Rightarrow> common_Address \<Rightarrow> StateDB \<Rightarrow> StateDB" where
  "SelfDestruct env a s = (case getStateObject env a s of
       (None, s1) \<Rightarrow> s1
     | (Some ob, s1) \<Rightarrow>
         (let cleared = SBalance (data ob) \<noteq> 0;
              ob1 = (if cleared then setBalance 0 ob else ob);
              s2 = (if cleared then SetBalance_obj env 0 ob s1 else s1)
          in if \<not> selfDestructed ob
             then setStateObject (markSelfdestructed ob1) (jappend (destruct_j (env_ShardID env) a) s2)
             else s2))"

definition Selfdestruct6780 :: "StateEnv \<Rightarrow> common_Address \<Rightarrow> StateDB \<Rightarrow> StateDB" where
  "Selfdestruct6780 env a s = (case getStateObject env a s of
       (None, s1) \<Rightarrow> s1
     | (Some ob, s1) \<Rightarrow> if newContract ob then SelfDestruct env a s1 else s1)"

definition setTransientState :: "common_Address \<Rightarrow> common_Hash \<Rightarrow> common_Hash \<Rightarrow> StateDB \<Rightarrow> StateDB" where
  "setTransientState a key val s = s\<lparr> transient := Set_transient a key val (transient s) \<rparr>"

definition SetTransientState :: "StateEnv \<Rightarrow> common_Address \<Rightarrow> common_Hash \<Rightarrow> common_Hash \<Rightarrow> StateDB \<Rightarrow> StateDB" where
  "SetTransientState env a key val s =
     (let prev = GetTransientState a key s in
      if prev = val then s
      else setTransientState a key val (jappend (transientStateChange (env_ShardID env) a key prev val) s))"

definition CreateAccount :: "StateEnv \<Rightarrow> common_Address \<Rightarrow> StateDB \<Rightarrow> StateDB" where
  "CreateAccount env a s = snd (createObject env a s)"

text \<open>\<open>CreateContract\<close> dereferences the object without a nil check.\<close>

definition CreateContract :: "StateEnv \<Rightarrow> common_Address \<Rightarrow> StateDB \<Rightarrow> StateDB panics" where
  "CreateContract env a s = (case getStateObject env a s of
       (None, s1) \<Rightarrow> panic
     | (Some ob, s1) \<Rightarrow>
         Some (if \<not> newContract ob
               then jappend (createContract_j (env_ShardID env) a) (setStateObject (ob\<lparr> newContract := True \<rparr>) s1)
               else s1))"

definition AddAddressToAccessList :: "StateEnv \<Rightarrow> common_Address \<Rightarrow> StateDB \<Rightarrow> StateDB" where
  "AddAddressToAccessList env a s = (let (ch, al) = AddAddress (accList s) a; s1 = s\<lparr> accList := al \<rparr> in
     if ch then jappend (accessListAddAccount (env_ShardID env) a) s1 else s1)"

definition AddSlotToAccessList :: "StateEnv \<Rightarrow> common_Address \<Rightarrow> common_Hash \<Rightarrow> StateDB \<Rightarrow> StateDB panics" where
  "AddSlotToAccessList env a slot s = do {
     ((addrMod, slotMod), al) \<leftarrow> AddSlot (accList s) a slot;
     let s1 = s\<lparr> accList := al \<rparr>;
     let s2 = (if addrMod then jappend (accessListAddAccount (env_ShardID env) a) s1 else s1);
     Some (if slotMod then jappend (accessListAddSlot (env_ShardID env) a slot) s2 else s2) }"

definition SetTxContext :: "common_Hash \<Rightarrow> uint64 \<Rightarrow> StateDB \<Rightarrow> StateDB" where
  "SetTxContext h ti s = s\<lparr> thash := h, txIndex := ti \<rparr>"

definition Prepare :: "StateDB \<Rightarrow> StateDB" where
  "Prepare s = s\<lparr> transient := newTransientStorage \<rparr>"

section \<open>Executing and reverting journal entries\<close>

text \<open>\<open>with_object\<close>: apply \<open>f\<close> to the object at an address; \<open>dflt\<close> is what the caller does
  without one.\<close>

definition with_object ::
  "StateEnv \<Rightarrow> common_Address \<Rightarrow> (stateObject \<Rightarrow> stateObject) \<Rightarrow> (StateDB \<Rightarrow> StateDB panics) \<Rightarrow> StateDB \<Rightarrow> StateDB panics" where
  "with_object env a f dflt s = (case getStateObject env a s of
       (None, s1) \<Rightarrow> dflt s1
     | (Some ob, s1) \<Rightarrow> Some (setStateObject (f ob) s1))"

fun Revert :: "StateEnv \<Rightarrow> JournalEntry \<Rightarrow> StateDB \<Rightarrow> StateDB panics" where
  "Revert env (CreateObjectChange a sh) s = Some (s\<lparr> stateObjects := (stateObjects s)(a := None) \<rparr>)"
| "Revert env (CreateContractChange a sh) s = with_object env a (\<lambda>ob. ob\<lparr> newContract := False \<rparr>) Some s"
| "Revert env (SelfDestructChange a sh) s = with_object env a (\<lambda>ob. ob\<lparr> selfDestructed := False \<rparr>) Some s"
| "Revert env (BalanceChange a prev cur sh) s = with_object env a (setBalance (ucast prev)) Some s"
| "Revert env (NonceChange a prev cur sh) s = with_object env a (setNonce prev) Some s"
| "Revert env (StorageChange a key prev orig cur sh) s = with_object env a (setState key prev orig) Some s"
| "Revert env (CodeChange a h c sh) s = with_object env a (setCode (EmptyCodeHash env) []) Some s"
| "Revert env (RefundChange prev incr sh) s = Some (s\<lparr> refund := prev \<rparr>)"
| "Revert env (AddLogChange h sh) s = (let ls = logs_of s h in
     if length ls = 1 then Some (s\<lparr> logs := (logs s)(h := None), logSize := logSize s - 1 \<rparr>)
     else if ls = [] then panic
     else Some (s\<lparr> logs := (logs s)(h \<mapsto> butlast ls), logSize := logSize s - 1 \<rparr>))"
| "Revert env (TouchChange a sh) s = Some s"
| "Revert env (AccessListAddAccountChange a sh) s = Some s"
| "Revert env (AccessListAddSlotChange a slot sh) s = Some s"
| "Revert env (TransientStorageChange a key prev val sh) s = Some (setTransientState a key prev s)"

fun Execute :: "StateEnv \<Rightarrow> JournalEntry \<Rightarrow> StateDB \<Rightarrow> StateDB panics" where
  "Execute env (CreateObjectChange a sh) s =
     Some (setStateObject (setBalance (word_of_int Init_Balance) (newObject env a None)) s)"
| "Execute env (CreateContractChange a sh) s =
     with_object env a (\<lambda>ob. if newContract ob then ob else ob\<lparr> newContract := True \<rparr>) (\<lambda>s. panic) s"
| "Execute env (SelfDestructChange a sh) s = (case getStateObject env a s of
       (None, s1) \<Rightarrow> Some s1
     | (Some ob, s1) \<Rightarrow>
         (let cleared = SBalance (data ob) \<noteq> 0;
              ob1 = (if cleared then setBalance 0 ob else ob);
              s2 = (if cleared then SetBalance_obj env 0 ob s1 else s1)
          in Some (if \<not> selfDestructed ob then setStateObject (markSelfdestructed ob1) s2 else s2)))"
| "Execute env (BalanceChange a prev cur sh) s = with_object env a (setBalance (ucast cur)) (\<lambda>s. panic) s"
| "Execute env (NonceChange a prev cur sh) s = with_object env a (setNonce cur) (\<lambda>s. panic) s"
| "Execute env (StorageChange a key prev orig cur sh) s = (case getStateObject env a s of
       (None, s1) \<Rightarrow> panic
     | (Some ob, s1) \<Rightarrow>
         (let ((prev1, orig1), ob1, e) = getState_obj env s1 ob key;
              s2 = setStateObject ob1 (setError e s1)
          in Some (if prev1 = cur then s2 else setStateObject (setState key cur orig1 ob1) s2)))"
| "Execute env (CodeChange a h c sh) s = with_object env a (setCode h c) (\<lambda>s. panic) s"
| "Execute env (RefundChange prev incr sh) s = Some (s\<lparr> refund := refund s + incr \<rparr>)"
| "Execute env (AddLogChange h sh) s = Some s"
| "Execute env (TouchChange a sh) s = Some s"
| "Execute env (AccessListAddAccountChange a sh) s = Some s"
| "Execute env (AccessListAddSlotChange a slot sh) s = Some s"
| "Execute env (TransientStorageChange a key prev val sh) s =
     Some (if GetTransientState a key s = val then s else setTransientState a key val s)"

text \<open>The loop of \<open>journal.revert\<close>, over the entries from the last one down to the snapshot. An
  entry of another shard is not reverted here: each node of that shard is sent a rollback message.\<close>

definition rollback_messages :: "StateEnv \<Rightarrow> JournalEntry \<Rightarrow> (string \<times> ExeLogOrRollback) list" where
  "rollback_messages env e =
     map (\<lambda>node. (node, \<lparr> ELog = [wrap e], Rollback = True \<rparr>)) (Ip_nodeTable env (GetShardID e))"

fun revert_loop ::
  "StateEnv \<Rightarrow> JournalEntry list \<Rightarrow> StateDB \<Rightarrow> ((string \<times> ExeLogOrRollback) list \<times> StateDB) panics" where
  "revert_loop env [] s = Some ([], s)"
| "revert_loop env (e # es) s = do {
     (out, s1) \<leftarrow> (if GetShardID e \<noteq> env_ShardID env then Some (rollback_messages env e, s)
                    else do { s1 \<leftarrow> Revert env e s; Some ([], s1) });
     let s2 = s1\<lparr> jrnl := undirty e (jrnl s1) \<rparr>;
     (outs, s3) \<leftarrow> revert_loop env es s2;
     Some (out @ outs, s3) }"

definition revert_journal :: "StateEnv \<Rightarrow> nat \<Rightarrow> StateDB \<Rightarrow> ((string \<times> ExeLogOrRollback) list \<times> StateDB) panics" where
  "revert_journal env snap s = do {
     guard_panic (snap \<le> length (Entries (jrnl s)));
     (out, s1) \<leftarrow> revert_loop env (rev (drop snap (Entries (jrnl s)))) s;
     Some (out, s1\<lparr> jrnl := (jrnl s1)\<lparr> Entries := take snap (Entries (jrnl s1)) \<rparr> \<rparr>) }"

definition Snapshot :: "StateDB \<Rightarrow> nat \<times> StateDB" where
  "Snapshot s = (let (rid, j) = snapshot (jrnl s) in (rid, s\<lparr> jrnl := j \<rparr>))"

definition RevertToSnapshot :: "StateEnv \<Rightarrow> nat \<Rightarrow> StateDB \<Rightarrow> ((string \<times> ExeLogOrRollback) list \<times> StateDB) panics" where
  "RevertToSnapshot env revid s = do {
     idx \<leftarrow> find_revision revid (jrnl s);
     (out, s1) \<leftarrow> revert_journal env (JournalIndex (ValidRevisions (jrnl s) ! idx)) s;
     Some (out, s1\<lparr> jrnl := (jrnl s1)\<lparr> ValidRevisions := take idx (ValidRevisions (jrnl s1)) \<rparr> \<rparr>) }"

section \<open>Finalising a transaction\<close>

definition markDelete :: "common_Address \<Rightarrow> StateDB \<Rightarrow> StateDB" where
  "markDelete a s = s\<lparr> mutations := (mutations s)(a \<mapsto> \<lparr> mtyp = deletion, applied = False \<rparr>) \<rparr>"

definition markUpdate :: "common_Address \<Rightarrow> StateDB \<Rightarrow> StateDB" where
  "markUpdate a s = s\<lparr> mutations := (mutations s)(a \<mapsto> \<lparr> mtyp = update, applied = False \<rparr>) \<rparr>"

definition clearJournalAndRefund :: "StateDB \<Rightarrow> StateDB" where
  "clearJournalAndRefund s = s\<lparr> jrnl := reset_journal (jrnl s), refund := 0 \<rparr>"

text \<open>One dirty address; the addresses of \<open>dirties\<close> are visited in the order \<open>addrs\<close>.\<close>

definition finalise_address :: "StateEnv \<Rightarrow> bool \<Rightarrow> common_Address \<Rightarrow> StateDB \<Rightarrow> StateDB" where
  "finalise_address env deleteEmptyObjects a s = (case stateObjects s a of
       None \<Rightarrow> s
     | Some ob \<Rightarrow>
         if selfDestructed ob \<or> deleteEmptyObjects \<and> empty_obj env ob
         then (let s1 = markDelete a (s\<lparr> stateObjects := (stateObjects s)(address ob := None) \<rparr>) in
               if stateObjectsDestruct s1 (address ob) = None
               then s1\<lparr> stateObjectsDestruct := (stateObjectsDestruct s1)(address ob \<mapsto> ob) \<rparr> else s1)
         else markUpdate a (s\<lparr> stateObjects := (stateObjects s)(a \<mapsto> finalise env s ob) \<rparr>))"

definition Finalise :: "StateEnv \<Rightarrow> bool \<Rightarrow> common_Address list \<Rightarrow> StateDB \<Rightarrow> StateDB" where
  "Finalise env deleteEmptyObjects addrs s =
     clearJournalAndRefund (fold (finalise_address env deleteEmptyObjects) addrs s)"

text \<open>\<open>handleCOpExeLogOrRollback\<close> of \<open>consensus_shard/pbft_all/pbft.go\<close>: node 0 of a shard replays
  the entries it was sent, backwards for a rollback. The process-wide state of \<open>global3\<close> is used
  when a transaction is running; otherwise a fresh one is made, committed (the trie commit is the
  parameter \<open>Commit\<close>, which gives the new root) and dropped.\<close>

record VMGlobals =
  GlobalStateDB :: "StateDB option"
  GRoot :: common_Hash

fun replay :: "(JournalEntry \<Rightarrow> StateDB \<Rightarrow> StateDB panics) \<Rightarrow> JournalEntry list \<Rightarrow> StateDB \<Rightarrow> StateDB panics" where
  "replay f [] s = Some s"
| "replay f (e # es) s = do { s1 \<leftarrow> f e s; replay f es s1 }"

definition handleCOpExeLogOrRollback ::
  "StateEnv \<Rightarrow> (StateDB \<Rightarrow> common_Hash) \<Rightarrow> uint64 \<Rightarrow> ExeLogOrRollback \<Rightarrow> VMGlobals \<Rightarrow> VMGlobals panics" where
  "handleCOpExeLogOrRollback env Commit NodeID m g =
     (if NodeID \<noteq> 0 then Some g
      else do {
        let (s, sn) = New (GlobalStateDB g);
        s1 \<leftarrow> (if Rollback m then replay (Revert env) (rev (map OriginalObj (ELog m))) s
               else replay (Execute env) (map OriginalObj (ELog m)) s);
        Some (if sn = ''new'' then \<lparr> GlobalStateDB = None, GRoot = Commit s1 \<rparr>
              else g\<lparr> GlobalStateDB := Some s1 \<rparr>) })"

end
