(* ===== verification/Undo.thy ===== *)
theory Undo
  imports StateDB
begin

text \<open>
  Snapshots and reverts of the account state. The observable state (\<open>view\<close>) leaves out the caches,
  the access list, the preimages and the dirty counters. Reverting an entry refines a function on
  views; every journalled operation is undone by the entries it appended; hence any nesting of call
  frames, some of them reverted, can be rolled back to a snapshot taken before it.
\<close>

section \<open>An undo log\<close>

text \<open>The contract of a component with an undo log, and what a client can conclude from it: after
  any sequence of operations, reverting the entries they logged restores the view.\<close>

fun revert_all :: "('e \<Rightarrow> 'x \<Rightarrow> 'x option) \<Rightarrow> 'e list \<Rightarrow> 'x \<Rightarrow> 'x option" where
  "revert_all f [] x = Some x"
| "revert_all f (e # es) x = Option.bind (f e x) (revert_all f es)"

lemma revert_all_append: "revert_all f (es1 @ es2) x = Option.bind (revert_all f es1 x) (revert_all f es2)"
  by (induction es1 arbitrary: x) (auto split: Option.bind_splits)

lemma revert_all_trans:
  "revert_all f (rev es2) v2 = Some v1 \<Longrightarrow> revert_all f (rev es1) v1 = Some v0 \<Longrightarrow>
     revert_all f (rev (es1 @ es2)) v2 = Some v0"
  by (simp add: revert_all_append)

locale undo_log =
  fixes apply_op :: "'op \<Rightarrow> 's \<Rightarrow> 's option"
    and revert1 :: "'e \<Rightarrow> 's \<Rightarrow> 's option"
    and vrevert :: "'e \<Rightarrow> 'v \<Rightarrow> 'v option"
    and entries :: "'s \<Rightarrow> 'e list"
    and view :: "'s \<Rightarrow> 'v"
    and inv :: "'s \<Rightarrow> bool"
    and ok :: "'op \<Rightarrow> 's \<Rightarrow> bool"
    and own :: "'e \<Rightarrow> bool"
  assumes revert_refines: "inv s \<Longrightarrow> map_option view (revert1 e s) = vrevert e (view s)"
    and revert_inv: "inv s \<Longrightarrow> revert1 e s = Some s' \<Longrightarrow> inv s'"
    and op_undo: "inv s \<Longrightarrow> ok x s \<Longrightarrow> \<exists>s' es. apply_op x s = Some s' \<and> inv s' \<and> entries s' = entries s @ es \<and>
      list_all own es \<and> revert_all vrevert (rev es) (view s') = Some (view s)"
begin

lemma revert_all_refines:
  assumes "inv s" "revert_all vrevert es (view s) = Some v"
  shows "\<exists>s'. revert_all revert1 es s = Some s' \<and> inv s' \<and> view s' = v"
  using assms
proof (induction es arbitrary: s)
  case (Cons e es)
  then obtain v1 where v1: "vrevert e (view s) = Some v1" "revert_all vrevert es v1 = Some v"
    by (auto simp: bind_eq_Some_iff)
  obtain s1 where s1: "revert1 e s = Some s1" "view s1 = v1"
    using revert_refines [OF Cons.prems(1), of e] v1(1) by auto
  then show ?case
    using Cons.IH [of s1] revert_inv [OF Cons.prems(1) s1(1)] v1(2) by auto
qed simp

fun run :: "'op list \<Rightarrow> 's \<Rightarrow> 's option" where
  "run [] s = Some s"
| "run (x # xs) s = Option.bind (apply_op x s) (run xs)"

fun run_ok :: "'op list \<Rightarrow> 's \<Rightarrow> bool" where
  "run_ok [] s = True"
| "run_ok (x # xs) s \<longleftrightarrow> ok x s \<and> (case apply_op x s of None \<Rightarrow> True | Some s' \<Rightarrow> run_ok xs s')"

lemma run_undo:
  assumes "inv s" "run_ok xs s"
  shows "\<exists>s' es u. run xs s = Some s' \<and> entries s' = entries s @ es \<and>
     revert_all revert1 (rev es) s' = Some u \<and> view u = view s"
proof -
  have "\<exists>s' es. run xs s = Some s' \<and> inv s' \<and> entries s' = entries s @ es \<and>
      revert_all vrevert (rev es) (view s') = Some (view s)"
    using assms
  proof (induction xs arbitrary: s)
    case (Cons x xs)
    then obtain s1 es1 where 1: "apply_op x s = Some s1" "inv s1" "entries s1 = entries s @ es1"
        "revert_all vrevert (rev es1) (view s1) = Some (view s)"
      using op_undo by fastforce
    then obtain s2 es2 where "run xs s1 = Some s2" "inv s2" "entries s2 = entries s1 @ es2"
        "revert_all vrevert (rev es2) (view s2) = Some (view s1)"
      using Cons by fastforce
    then show ?case
      using 1 revert_all_trans [of vrevert es2 "view s2" "view s1" es1] by auto
  qed simp
  then show ?thesis
    using revert_all_refines by blast
qed

end

section \<open>The view of a state\<close>

record obj_view =
  ov_address :: common_Address
  ov_data :: StateAccount
  ov_code :: bytes
  ov_slot :: "common_Hash \<Rightarrow> common_Hash"
  ov_committed :: "common_Hash \<Rightarrow> common_Hash"
  ov_selfDestructed :: bool
  ov_newContract :: bool

record View =
  v_obj :: "common_Address \<Rightarrow> obj_view option"
  v_dead :: "common_Address set"
  v_refund :: uint64
  v_logs :: "common_Hash \<Rightarrow> LogRec list"
  v_logSize :: uint64
  v_transient :: "common_Address \<Rightarrow> common_Hash \<Rightarrow> common_Hash"
  v_context :: "common_Hash \<times> uint64"

definition code_view :: "StateEnv \<Rightarrow> stateObject \<Rightarrow> bytes" where
  "code_view env ob = (if code ob \<noteq> [] then code ob
     else if SCodeHash (data ob) = EmptyCodeHash env then []
     else fst (ContractCode env (address ob) (SCodeHash (data ob))))"

definition committed :: "StateEnv \<Rightarrow> bool \<Rightarrow> stateObject \<Rightarrow> common_Hash \<Rightarrow> common_Hash" where
  "committed env dead ob key = (case pendingStorage ob key of
       Some v \<Rightarrow> v
     | None \<Rightarrow> (case originStorage ob key of
         Some v \<Rightarrow> v
       | None \<Rightarrow> if dead then 0 else (case reader_Storage env (address ob) key of Inl e \<Rightarrow> 0 | Inr v \<Rightarrow> v)))"

definition slot_value :: "StateEnv \<Rightarrow> bool \<Rightarrow> stateObject \<Rightarrow> common_Hash \<Rightarrow> common_Hash" where
  "slot_value env dead ob key = (case dirtyStorage ob key of Some v \<Rightarrow> v | None \<Rightarrow> committed env dead ob key)"

definition oview :: "StateEnv \<Rightarrow> bool \<Rightarrow> stateObject \<Rightarrow> obj_view" where
  "oview env dead ob = \<lparr> ov_address = address ob, ov_data = data ob, ov_code = code_view env ob,
     ov_slot = slot_value env dead ob, ov_committed = committed env dead ob,
     ov_selfDestructed = selfDestructed ob, ov_newContract = newContract ob \<rparr>"

definition read_object :: "StateEnv \<Rightarrow> common_Address \<Rightarrow> stateObject option" where
  "read_object env a = (case reader_Account env a of Inr (Some acct) \<Rightarrow> Some (newObject env a (Some acct)) | _ \<Rightarrow> None)"

definition live :: "StateEnv \<Rightarrow> StateDB \<Rightarrow> common_Address \<Rightarrow> stateObject option" where
  "live env s a = (case stateObjects s a of
       Some ob \<Rightarrow> Some ob
     | None \<Rightarrow> if stateObjectsDestruct s a \<noteq> None then None else read_object env a)"

lemma live_cached: "stateObjects s a = Some ob \<Longrightarrow> live env s a = Some ob"
  by (simp add: live_def)

definition view_obj :: "StateEnv \<Rightarrow> StateDB \<Rightarrow> common_Address \<Rightarrow> obj_view option" where
  "view_obj env s a = map_option (oview env (stateObjectsDestruct s a \<noteq> None)) (live env s a)"

definition view :: "StateEnv \<Rightarrow> StateDB \<Rightarrow> View" where
  "view env s = \<lparr> v_obj = view_obj env s, v_dead = dom (stateObjectsDestruct s), v_refund = refund s,
     v_logs = logs_of s, v_logSize = logSize s, v_transient = (\<lambda>a k. GetTransientState a k s),
     v_context = (thash s, txIndex s) \<rparr>"

text \<open>Objects are stored under their own address.\<close>

definition objects_ok :: "StateDB \<Rightarrow> bool" where
  "objects_ok s \<longleftrightarrow> (\<forall>a ob. stateObjects s a = Some ob \<longrightarrow> address ob = a) \<and> access_list_ok (accList s)"

text \<open>Reverting an entry, on views.\<close>

definition on_obj :: "common_Address \<Rightarrow> (obj_view \<Rightarrow> obj_view) \<Rightarrow> View \<Rightarrow> View" where
  "on_obj a f v = v\<lparr> v_obj := (v_obj v)(a := map_option f (v_obj v a)) \<rparr>"

definition vset_code :: "common_Hash \<Rightarrow> bytes \<Rightarrow> obj_view \<Rightarrow> obj_view" where
  "vset_code h c ov = ov\<lparr> ov_code := c, ov_data := (ov_data ov)\<lparr> SCodeHash := h \<rparr> \<rparr>"

definition vset_slot :: "common_Hash \<Rightarrow> common_Hash \<Rightarrow> common_Hash \<Rightarrow> obj_view \<Rightarrow> obj_view" where
  "vset_slot key val orig ov = ov\<lparr> ov_slot := (ov_slot ov)(key := (if val = orig then ov_committed ov key else val)) \<rparr>"

fun vRevert :: "StateEnv \<Rightarrow> JournalEntry \<Rightarrow> View \<Rightarrow> View option" where
  "vRevert env (CreateObjectChange a sh) v = Some (v\<lparr> v_obj := (v_obj v)(a :=
     (if a \<in> v_dead v then None else map_option (oview env False) (read_object env a))) \<rparr>)"
| "vRevert env (CreateContractChange a sh) v = Some (on_obj a (\<lambda>ov. ov\<lparr> ov_newContract := False \<rparr>) v)"
| "vRevert env (SelfDestructChange a sh) v = Some (on_obj a (\<lambda>ov. ov\<lparr> ov_selfDestructed := False \<rparr>) v)"
| "vRevert env (BalanceChange a prev cur sh) v =
     Some (on_obj a (\<lambda>ov. ov\<lparr> ov_data := (ov_data ov)\<lparr> SBalance := ucast prev \<rparr> \<rparr>) v)"
| "vRevert env (NonceChange a prev cur sh) v =
     Some (on_obj a (\<lambda>ov. ov\<lparr> ov_data := (ov_data ov)\<lparr> SNonce := prev \<rparr> \<rparr>) v)"
| "vRevert env (StorageChange a key prev orig cur sh) v = Some (on_obj a (vset_slot key prev orig) v)"
| "vRevert env (CodeChange a h c sh) v = Some (on_obj a (vset_code (EmptyCodeHash env) []) v)"
| "vRevert env (RefundChange prev incr sh) v = Some (v\<lparr> v_refund := prev \<rparr>)"
| "vRevert env (AddLogChange h sh) v = (if v_logs v h = [] then None
     else Some (v\<lparr> v_logs := (v_logs v)(h := butlast (v_logs v h)), v_logSize := v_logSize v - 1 \<rparr>))"
| "vRevert env (TouchChange a sh) v = Some v"
| "vRevert env (AccessListAddAccountChange a sh) v = Some v"
| "vRevert env (AccessListAddSlotChange a slot sh) v = Some v"
| "vRevert env (TransientStorageChange a key prev val sh) v =
     Some (v\<lparr> v_transient := (v_transient v)(a := (v_transient v a)(key := prev)) \<rparr>)"

section \<open>Lookup lemmas\<close>

lemma fst_GetCommittedState:
  "fst (GetCommittedState_obj env s ob key) = committed env (stateObjectsDestruct s (address ob) \<noteq> None) ob key"
  by (auto simp: GetCommittedState_obj_def committed_def split: option.split sum.split)

lemma view_obj_setStateObject:
  "view_obj env (setStateObject ob s) =
     (view_obj env s)(address ob \<mapsto> oview env (stateObjectsDestruct s (address ob) \<noteq> None) ob)"
  by (rule ext) (simp add: view_obj_def live_def setStateObject_def del: not_None_eq)

lemma view_setStateObject:
  "view env (setStateObject ob s) = (view env s)\<lparr> v_obj :=
     (v_obj (view env s))(address ob \<mapsto> oview env (address ob \<in> v_dead (view env s)) ob) \<rparr>"
proof -
  have "dom (stateObjectsDestruct s) = v_dead (view env s)"
    by (simp add: view_def)
  then have "(stateObjectsDestruct s (address ob) \<noteq> None) = (address ob \<in> v_dead (view env s))"
    by blast
  then show ?thesis
    unfolding view_def view_obj_setStateObject
    by (simp add: setStateObject_def logs_of_def GetTransientState_def fun_eq_iff domIff)
qed

lemma view_unseen [simp]:
  "view env (s\<lparr> jrnl := j \<rparr>) = view env s"
  "view env (setError e s) = view env s"
  "view env (s\<lparr> accList := al \<rparr>) = view env s"
  by (simp_all add: view_def view_obj_def live_def setError_def logs_of_def GetTransientState_def fun_eq_iff del: not_None_eq)

lemma objects_ok_simps [simp]:
  "objects_ok (s\<lparr> jrnl := j \<rparr>) = objects_ok s"
  "objects_ok (setError e s) = objects_ok s"
  "objects_ok s \<Longrightarrow> objects_ok (setStateObject ob s)"
  by (auto simp: objects_ok_def setError_def setStateObject_def)

lemma jrnl_simps [simp]:
  "jrnl (setError e s) = jrnl s"
  "jrnl (setStateObject ob s) = jrnl s"
  by (simp_all add: setError_def setStateObject_def)

lemma Destruct_simps [simp]:
  "stateObjectsDestruct (setError e s) = stateObjectsDestruct s"
  "stateObjectsDestruct (setStateObject ob s) = stateObjectsDestruct s"
  by (simp_all add: setError_def setStateObject_def)


text \<open>The four ways \<open>getStateObject\<close> can go.\<close>

lemma getStateObject_cases:
  assumes "getStateObject env a s = (r, s1)"
  obtains
    (cached) ob where "stateObjects s a = Some ob" "r = Some ob" "s1 = s"
  | (dead) "stateObjects s a = None" "stateObjectsDestruct s a \<noteq> None" "r = None" "s1 = s"
  | (absent) e where "stateObjects s a = None" "stateObjectsDestruct s a = None" "r = None" "read_object env a = None"
      "s1 = s \<or> s1 = setError (Some e) s"
  | (loaded) ob where "stateObjects s a = None" "stateObjectsDestruct s a = None" "r = Some ob" "read_object env a = Some ob"
      "s1 = setStateObject ob s" "address ob = a"
proof (cases "stateObjects s a")
  case (Some ob)
  show ?thesis
    by (rule cached [OF Some]) (use Some assms in \<open>simp_all add: getStateObject_def\<close>)
next
  case none: None
  show ?thesis
  proof (cases "stateObjectsDestruct s a = None")
    case False
    show ?thesis
      by (rule dead [OF none False]) (use none False assms in \<open>simp_all add: getStateObject_def\<close>)
  next
    case True
    show ?thesis
    proof (cases "read_object env a")
      case None
      obtain e where "r = None" "s1 = s \<or> s1 = setError (Some e) s"
        using assms none True None
        by (auto simp: getStateObject_def read_object_def Let_def split: sum.split_asm option.split_asm)
      then show ?thesis
        using absent none True None by blast
    next
      case (Some ob)
      then obtain acct where acct: "reader_Account env a = Inr (Some acct)" "ob = newObject env a (Some acct)"
        by (auto simp: read_object_def split: sum.split_asm option.split_asm)
      show ?thesis
        by (rule loaded [OF none True _ Some]) (use assms none True acct in \<open>simp_all add: getStateObject_def Let_def newObject_def\<close>)
    qed
  qed
qed

lemma view_obj_live: "v_obj (view env s) a = map_option (oview env (a \<in> v_dead (view env s))) (live env s a)"
  by (auto simp: view_def view_obj_def domIff)

lemma getStateObject_live:
  assumes g: "getStateObject env a s = (r, s1)"
  shows "r = live env s a" "view env s1 = view env s" "jrnl s1 = jrnl s"
    "stateObjectsDestruct s1 = stateObjectsDestruct s" "objects_ok s \<Longrightarrow> objects_ok s1"
    "r \<noteq> None \<Longrightarrow> stateObjects s1 a = r"
proof -
  show "r = live env s a"
    using g by (cases rule: getStateObject_cases) (simp_all add: live_def)
  show "jrnl s1 = jrnl s"
    using g by (cases rule: getStateObject_cases) auto
  show "stateObjectsDestruct s1 = stateObjectsDestruct s"
    using g by (cases rule: getStateObject_cases) auto
  show "objects_ok s1" if "objects_ok s"
    using g by (cases rule: getStateObject_cases) (use that in auto)
  show "stateObjects s1 a = r" if "r \<noteq> None"
    using g by (cases rule: getStateObject_cases) (use that in \<open>auto simp: setStateObject_def\<close>)
  show "view env s1 = view env s"
    using g
  proof (cases rule: getStateObject_cases)
    case (loaded ob)
    have "v_obj (view env s) a = Some (oview env (a \<in> v_dead (view env s)) ob)"
      using loaded by (simp add: view_obj_live live_def)
    then show ?thesis
      using loaded by (simp add: view_setStateObject fun_upd_idem)
  qed auto
qed

lemma getStateObject_address:
  assumes "getStateObject env a s = (Some ob, s1)" "objects_ok s"
  shows "address ob = a"
  using assms(1) by (cases rule: getStateObject_cases) (use assms(2) in \<open>auto simp: objects_ok_def\<close>)

section \<open>Reverting an entry refines its view\<close>

lemma with_object_refines:
  assumes ok: "objects_ok s" and f: "\<And>ob. oview env (a \<in> v_dead (view env s)) (f ob) = F (oview env (a \<in> v_dead (view env s)) ob)"
    and adr: "\<And>ob. address (f ob) = address ob"
  shows "map_option (view env) (with_object env a f Some s) = Some (on_obj a F (view env s))"
proof -
  obtain r s1 where g: "getStateObject env a s = (r, s1)"
    by (cases "getStateObject env a s")
  note facts = getStateObject_live [OF g]
  show ?thesis
  proof (cases r)
    case None
    then have "v_obj (view env s) a = None"
      using facts(1) by (simp add: view_obj_live)
    then show ?thesis
      using None g facts(2) by (simp add: with_object_def on_obj_def fun_upd_idem)
  next
    case (Some ob)
    have a: "address ob = a"
      using getStateObject_address [OF _ ok] g Some by blast
    have "v_obj (view env s) a = Some (oview env (a \<in> v_dead (view env s)) ob)"
      using facts(1) Some by (simp add: view_obj_live flip: facts(1))
    then show ?thesis
      using Some g facts(2) a by (simp add: with_object_def on_obj_def view_setStateObject adr f)
  qed
qed

lemma with_object_inv:
  assumes "with_object env a f Some s = Some s'" "objects_ok s"
  shows "objects_ok s'" "jrnl s' = jrnl s"
proof -
  obtain r s1 where g: "getStateObject env a s = (r, s1)"
    by (cases "getStateObject env a s")
  then show "objects_ok s'" "jrnl s' = jrnl s"
    using assms getStateObject_live(3,5) [OF g] by (auto simp: with_object_def split: option.splits)
qed

lemma committed_cong:
  assumes "pendingStorage ob = pendingStorage ob'" "originStorage ob = originStorage ob'" "address ob = address ob'"
  shows "committed env d ob = committed env d ob'"
  unfolding committed_def assms ..

lemma committed_updates [simp]:
  "committed env d (ob\<lparr> newContract := b \<rparr>) = committed env d ob"
  "committed env d (ob\<lparr> selfDestructed := b \<rparr>) = committed env d ob"
  "committed env d (ob\<lparr> data := x \<rparr>) = committed env d ob"
  "committed env d (ob\<lparr> dirtyStorage := ds \<rparr>) = committed env d ob"
  "committed env d (ob\<lparr> code := c, data := x, dirtyCode := b \<rparr>) = committed env d ob"
  by (rule committed_cong; simp)+

lemma oview_updates:
  "oview env d (ob\<lparr> newContract := b \<rparr>) = (oview env d ob)\<lparr> ov_newContract := b \<rparr>"
  "oview env d (ob\<lparr> selfDestructed := b \<rparr>) = (oview env d ob)\<lparr> ov_selfDestructed := b \<rparr>"
  "oview env d (setBalance w ob) = (oview env d ob)\<lparr> ov_data := (data ob)\<lparr> SBalance := w \<rparr> \<rparr>"
  "oview env d (setNonce n ob) = (oview env d ob)\<lparr> ov_data := (data ob)\<lparr> SNonce := n \<rparr> \<rparr>"
  "oview env d (setState key val orig ob) = vset_slot key val orig (oview env d ob)"
  "oview env d (setCode (EmptyCodeHash env) [] ob) = vset_code (EmptyCodeHash env) [] (oview env d ob)"
  by (simp_all add: oview_def slot_value_def code_view_def setBalance_def setNonce_def setState_def
      setCode_def vset_slot_def vset_code_def fun_eq_iff split: option.split)

lemma oview_sel [simp]:
  "ov_data (oview env d ob) = data ob" "ov_slot (oview env d ob) = slot_value env d ob"
  "ov_committed (oview env d ob) = committed env d ob" "ov_newContract (oview env d ob) = newContract ob"
  "ov_selfDestructed (oview env d ob) = selfDestructed ob" "ov_code (oview env d ob) = code_view env ob"
  by (simp_all add: oview_def)

lemma address_updates [simp]:
  "address (setBalance w ob) = address ob" "address (setNonce n ob) = address ob"
  "address (setState key val orig ob) = address ob" "address (setCode h c ob) = address ob"
  "address (markSelfdestructed ob) = address ob"
  by (simp_all add: setBalance_def setNonce_def setState_def setCode_def markSelfdestructed_def)

lemma logs_of_update: "logs_of (s\<lparr> logs := (logs s)(h := x) \<rparr>) =
    (logs_of s)(h := (case x of None \<Rightarrow> [] | Some ls \<Rightarrow> ls))"
  by (auto simp: logs_of_def fun_eq_iff)

lemma Revert_refines:
  assumes ok: "objects_ok s"
  shows "map_option (view env) (Revert env e s) = vRevert env e (view env s)"
proof (cases e)
  case (CreateObjectChange a sh)
  have "view_obj env (s\<lparr> stateObjects := (stateObjects s)(a := None) \<rparr>) =
     (view_obj env s)(a := (if a \<in> dom (stateObjectsDestruct s) then None else map_option (oview env False) (read_object env a)))"
    by (auto simp: view_obj_def live_def fun_eq_iff domIff)
  then show ?thesis
    using CreateObjectChange by (simp add: view_def logs_of_def GetTransientState_def fun_eq_iff)
next
  case (AddLogChange h sh)
  have *: "view env (s\<lparr> logs := l, logSize := n \<rparr>) = (view env s)\<lparr> v_logs := logs_of (s\<lparr> logs := l \<rparr>), v_logSize := n \<rparr>" for l n
    by (simp add: view_def view_obj_def live_def logs_of_def GetTransientState_def fun_eq_iff del: not_None_eq)
  have "v_logs (view env s) = logs_of s" "v_logSize (view env s) = logSize s"
    by (simp_all add: view_def)
  moreover have "butlast (logs_of s h) = []" if "length (logs_of s h) = Suc 0"
    using that by (cases "logs_of s h") auto
  ultimately show ?thesis
    using AddLogChange by (simp add: * Let_def logs_of_update)
next
  case (RefundChange p i sh)
  then show ?thesis
    by (simp add: view_def view_obj_def live_def logs_of_def GetTransientState_def fun_eq_iff del: not_None_eq)
next
  case (TransientStorageChange a k p v sh)
  then show ?thesis
    by (simp add: view_def view_obj_def live_def logs_of_def GetTransientState_def setTransientState_def fun_eq_iff del: not_None_eq)
next
  case (CreateContractChange a sh)
  then show ?thesis
    using with_object_refines [OF ok, where f = "\<lambda>ob. ob\<lparr> newContract := False \<rparr>" and F = "\<lambda>ov. ov\<lparr> ov_newContract := False \<rparr>"]
    by (simp add: oview_updates)
next
  case (SelfDestructChange a sh)
  then show ?thesis
    using with_object_refines [OF ok, where f = "\<lambda>ob. ob\<lparr> selfDestructed := False \<rparr>" and F = "\<lambda>ov. ov\<lparr> ov_selfDestructed := False \<rparr>"]
    by (simp add: oview_updates)
next
  case (BalanceChange a p c sh)
  then show ?thesis
    using with_object_refines [OF ok, where f = "setBalance (ucast p)" and F = "\<lambda>ov. ov\<lparr> ov_data := (ov_data ov)\<lparr> SBalance := ucast p \<rparr> \<rparr>"]
    by (simp add: oview_updates)
next
  case (NonceChange a p c sh)
  then show ?thesis
    using with_object_refines [OF ok, where f = "setNonce p" and F = "\<lambda>ov. ov\<lparr> ov_data := (ov_data ov)\<lparr> SNonce := p \<rparr> \<rparr>"]
    by (simp add: oview_updates)
next
  case (StorageChange a k p orig c sh)
  then show ?thesis
    using with_object_refines [OF ok, where f = "setState k p orig" and F = "vset_slot k p orig"]
    by (simp add: oview_updates)
next
  case (CodeChange a h c sh)
  then show ?thesis
    using with_object_refines [OF ok, where f = "setCode (EmptyCodeHash env) []" and F = "vset_code (EmptyCodeHash env) []"]
    by (simp add: oview_updates)
qed simp_all

lemma Revert_inv:
  assumes "objects_ok s" "Revert env e s = Some s'"
  shows "objects_ok s'" "jrnl s' = jrnl s"
  using assms
  by (cases e; auto simp: objects_ok_def setTransientState_def Let_def split: if_splits dest: with_object_inv)+

end
