(* ===== verification/Snapshots.thy ===== *)
theory Snapshots
  imports Undo
begin

text \<open>
  Every state-changing operation of the state database as one command, the proof that the entries it
  journals undo it, and the theorem about snapshots: any nesting of call frames can be rolled back.
\<close>

datatype db_op =
    OpGetBalance common_Address
  | OpGetState common_Address common_Hash
  | OpAddBalance common_Address uint256
  | OpSubBalance common_Address uint256
  | OpSetBalance common_Address uint256
  | OpSetNonce common_Address uint64
  | OpSetCode common_Address bytes
  | OpSetState common_Address common_Hash common_Hash
  | OpSetTransientState common_Address common_Hash common_Hash
  | OpSelfDestruct common_Address
  | OpSelfdestruct6780 common_Address
  | OpCreateAccount common_Address
  | OpCreateContract common_Address
  | OpAddRefund uint64
  | OpSubRefund uint64
  | OpAddLog LogRec
  | OpAddAddress common_Address
  | OpAddSlot common_Address common_Hash

fun apply_op :: "StateEnv \<Rightarrow> db_op \<Rightarrow> StateDB \<Rightarrow> StateDB panics" where
  "apply_op env (OpGetBalance a) s = Some (snd (GetBalance env a s))"
| "apply_op env (OpGetState a k) s = Some (snd (GetState env a k s))"
| "apply_op env (OpAddBalance a v) s = Some (AddBalance env a v s)"
| "apply_op env (OpSubBalance a v) s = Some (SubBalance env a v s)"
| "apply_op env (OpSetBalance a v) s = Some (SetBalance env a v s)"
| "apply_op env (OpSetNonce a n) s = Some (SetNonce env a n s)"
| "apply_op env (OpSetCode a c) s = Some (SetCode env a c s)"
| "apply_op env (OpSetState a k v) s = Some (SetState env a k v s)"
| "apply_op env (OpSetTransientState a k v) s = Some (SetTransientState env a k v s)"
| "apply_op env (OpSelfDestruct a) s = Some (SelfDestruct env a s)"
| "apply_op env (OpSelfdestruct6780 a) s = Some (Selfdestruct6780 env a s)"
| "apply_op env (OpCreateAccount a) s = Some (CreateAccount env a s)"
| "apply_op env (OpCreateContract a) s = CreateContract env a s"
| "apply_op env (OpAddRefund g) s = Some (AddRefund env g s)"
| "apply_op env (OpSubRefund g) s = SubRefund env g s"
| "apply_op env (OpAddLog l) s = Some (AddLog env l s)"
| "apply_op env (OpAddAddress a) s = Some (AddAddressToAccessList env a s)"
| "apply_op env (OpAddSlot a sl) s = AddSlotToAccessList env a sl s"

text \<open>Where an operation can be undone: a journalled balance must fit the 64 bits the journal keeps
  of it, code is only set on an account without code, and accounts are not created twice.\<close>

definition small_balance :: "StateEnv \<Rightarrow> StateDB \<Rightarrow> common_Address \<Rightarrow> bool" where
  "small_balance env s a = (case live env s a of None \<Rightarrow> True | Some ob \<Rightarrow> SBalance (data ob) < 2 ^ 64)"

fun op_ok :: "StateEnv \<Rightarrow> db_op \<Rightarrow> StateDB \<Rightarrow> bool" where
  "op_ok env (OpAddBalance a v) s = small_balance env s a"
| "op_ok env (OpSubBalance a v) s = small_balance env s a"
| "op_ok env (OpSetBalance a v) s = small_balance env s a"
| "op_ok env (OpSelfDestruct a) s = small_balance env s a"
| "op_ok env (OpSelfdestruct6780 a) s = small_balance env s a"
| "op_ok env (OpSetCode a c) s =
     (case live env s a of None \<Rightarrow> True | Some ob \<Rightarrow> SCodeHash (data ob) = EmptyCodeHash env \<and> code ob = [])"
| "op_ok env (OpCreateAccount a) s = (live env s a = None)"
| "op_ok env (OpCreateContract a) s = (live env s a \<noteq> None)"
| "op_ok env (OpSubRefund g) s = (g \<le> refund s)"
| "op_ok env _ s = True"

definition own_entry :: "StateEnv \<Rightarrow> JournalEntry \<Rightarrow> bool" where
  "own_entry env e = (GetShardID e = env_ShardID env)"

text \<open>One step of the state that its own entries undo.\<close>

definition undone :: "StateEnv \<Rightarrow> StateDB \<Rightarrow> StateDB \<Rightarrow> bool" where
  "undone env s s' \<longleftrightarrow> objects_ok s' \<and> ValidRevisions (jrnl s') = ValidRevisions (jrnl s) \<and>
     nextRevisionId (jrnl s') = nextRevisionId (jrnl s) \<and>
     (\<exists>es. Entries (jrnl s') = Entries (jrnl s) @ es \<and> list_all (own_entry env) es \<and>
        revert_all (vRevert env) (rev es) (view env s') = Some (view env s))"

lemma undone_silent:
  "objects_ok s' \<Longrightarrow> jrnl s' = jrnl s \<Longrightarrow> view env s' = view env s \<Longrightarrow> undone env s s'"
  unfolding undone_def by (auto intro!: exI [of _ "[]"])

lemma undone_trans:
  assumes "undone env s s1" "undone env s1 s2"
  shows "undone env s s2"
proof -
  obtain es1 es2 where "Entries (jrnl s1) = Entries (jrnl s) @ es1" "list_all (own_entry env) es1"
    "revert_all (vRevert env) (rev es1) (view env s1) = Some (view env s)"
    "Entries (jrnl s2) = Entries (jrnl s1) @ es2" "list_all (own_entry env) es2"
    "revert_all (vRevert env) (rev es2) (view env s2) = Some (view env s1)"
    using assms unfolding undone_def by blast
  moreover from this have "revert_all (vRevert env) (rev (es1 @ es2)) (view env s2) = Some (view env s)"
    by (metis revert_all_trans)
  ultimately show ?thesis
    using assms unfolding undone_def by (intro conjI exI [of _ "es1 @ es2"]) auto
qed

lemma undone_one:
  assumes "objects_ok s'" "jrnl s' = j" "Entries j = Entries (jrnl s) @ [e]" "ValidRevisions j = ValidRevisions (jrnl s)"
    "nextRevisionId j = nextRevisionId (jrnl s)" "own_entry env e" "vRevert env e (view env s') = Some (view env s)"
  shows "undone env s s'"
  using assms unfolding undone_def by (auto intro!: exI [of _ "[e]"])

text \<open>An update of the object at its address, with the entry \<open>e\<close> whose reversal restores it.\<close>

lemma undone_object:
  assumes ok: "objects_ok s" and ob: "stateObjects s (address ob) = Some ob" and adr: "address ob' = address ob"
    and sh: "own_entry env e"
    and rv: "\<And>v. vRevert env e v = Some (on_obj (address ob) F v)"
    and F: "\<And>d. d = (address ob \<in> v_dead (view env s)) \<Longrightarrow> F (oview env d ob') = oview env d ob"
  shows "undone env s (setStateObject ob' (jappend (append_entry e) s))"
proof (rule undone_one [where e = e and j = "append_entry e (jrnl s)"])
  have "v_obj (view env s) (address ob) = Some (oview env (address ob \<in> v_dead (view env s)) ob)"
    using ob by (simp add: view_obj_live live_def)
  then show "vRevert env e (view env (setStateObject ob' (jappend (append_entry e) s))) = Some (view env s)"
    using F [OF refl] by (simp add: rv on_obj_def view_setStateObject adr fun_upd_idem)
qed (use ok sh in \<open>auto simp: append_entry_facts\<close>)

lemma small_ucast: "(w :: uint256) < 2 ^ 64 \<Longrightarrow> ucast (ucast w :: uint64) = w"
proof -
  assume "w < 2 ^ 64"
  then have "unat w < 2 ^ 64"
    by (simp add: word_less_nat_alt)
  then show ?thesis
    by (simp add: word_unat_eq_iff unsigned_ucast_eq unsigned_take_bit_eq take_bit_nat_eq_self)
qed


lemmas own_entry_simps [simp] = own_entry_def

lemma address_newObject [simp]: "address (newObject env a x) = a"
  by (simp add: newObject_def)

lemma record_restore:
  "(x :: StateAccount)\<lparr> SBalance := SBalance x \<rparr> = x" "(x :: StateAccount)\<lparr> SNonce := SNonce x \<rparr> = x"
  "(oview env d ob)\<lparr> ov_data := data ob \<rparr> = oview env d ob"
  "newContract ob = b \<Longrightarrow> (oview env d ob)\<lparr> ov_newContract := b \<rparr> = oview env d ob"
  "selfDestructed ob = b \<Longrightarrow> (oview env d ob)\<lparr> ov_selfDestructed := b \<rparr> = oview env d ob"
  by (simp_all add: oview_def)

lemma getOrNew_undone:
  assumes ok: "objects_ok s" and g: "getOrNewStateObject env a s = (ob, s1)"
  shows "undone env s s1" "stateObjects s1 a = Some ob" "address ob = a" "objects_ok s1"
    "live env s a = None \<Longrightarrow> data ob = (NewEmptyStateAccount env)\<lparr> SBalance := word_of_int Init_Balance \<rparr> \<and> code ob = []"
    "live env s a \<noteq> None \<Longrightarrow> live env s a = Some ob"
proof -
  obtain r s0 where r: "getStateObject env a s = (r, s0)"
    by (cases "getStateObject env a s")
  note facts = getStateObject_live [OF r]
  have all: "undone env s s1 \<and> stateObjects s1 a = Some ob \<and> address ob = a \<and>
    (live env s a = None \<longrightarrow> data ob = (NewEmptyStateAccount env)\<lparr> SBalance := word_of_int Init_Balance \<rparr> \<and> code ob = []) \<and>
    (live env s a \<noteq> None \<longrightarrow> live env s a = Some ob)"
  proof (cases r)
    case (Some x)
    then have "ob = x" "s1 = s0"
      using g r by (auto simp: getOrNewStateObject_def)
    then show ?thesis
      using Some facts r getStateObject_address [of env a s x s0] ok by (auto intro: undone_silent)
  next
    case None
    let ?ob = "setBalance (word_of_int Init_Balance) (newObject env a None)"
    have s1: "ob = ?ob" "s1 = setStateObject ?ob (jappend (append_entry (CreateObjectChange a (env_ShardID env))) s0)"
      using g r None by (auto simp: getOrNewStateObject_def createObject_def createObject_j_def Let_def)
    have adr: "address ?ob = a"
      by (simp add: newObject_def)
    have gone: "v_obj (view env s0) a = (if a \<in> v_dead (view env s0) then None else map_option (oview env False) (read_object env a))"
    proof -
      have none: "live env s a = None"
        using facts(1) None by simp
      then have "a \<notin> v_dead (view env s) \<Longrightarrow> read_object env a = None"
        by (auto simp: live_def view_def domIff split: option.splits if_splits)
      then show ?thesis
        using none facts(2) by (simp add: view_obj_live)
    qed
    have "undone env s0 s1"
    proof (rule undone_one [where e = "CreateObjectChange a (env_ShardID env)" and j = "append_entry (CreateObjectChange a (env_ShardID env)) (jrnl s0)"])
      show "vRevert env (CreateObjectChange a (env_ShardID env)) (view env s1) = Some (view env s0)"
        using gone by (simp add: s1(2) view_setStateObject adr fun_upd_idem)
    qed (use facts(5) [OF ok] in \<open>simp_all add: s1\<close>)
    moreover have "undone env s s0"
      using facts ok by (intro undone_silent)
    ultimately have "undone env s s1"
      by (metis undone_trans)
    then show ?thesis
      using adr facts(1) None by (simp add: s1 setStateObject_def setBalance_def newObject_def)
  qed
  then show "undone env s s1" "stateObjects s1 a = Some ob" "address ob = a" "objects_ok s1"
    "live env s a = None \<Longrightarrow> data ob = (NewEmptyStateAccount env)\<lparr> SBalance := word_of_int Init_Balance \<rparr> \<and> code ob = []"
    "live env s a \<noteq> None \<Longrightarrow> live env s a = Some ob"
    by (auto simp: undone_def)
qed

section \<open>Each operation is undone by its entries\<close>

lemma undone_SetBalance_obj:
  assumes "objects_ok s" "stateObjects s (address ob) = Some ob" "SBalance (data ob) < 2 ^ 64"
  shows "undone env s (SetBalance_obj env amount ob s)"
  unfolding SetBalance_obj_def balanceChange_def
  by (rule undone_object [OF assms(1,2), where F = "\<lambda>ov. ov\<lparr> ov_data := (ov_data ov)\<lparr> SBalance := SBalance (data ob) \<rparr> \<rparr>"])
    (use assms in \<open>simp_all add: oview_updates small_ucast record_restore\<close>)

lemma undone_SetNonce_obj:
  assumes "objects_ok s" "stateObjects s (address ob) = Some ob"
  shows "undone env s (SetNonce_obj env n ob s)"
  unfolding SetNonce_obj_def nonceChange_def
  by (rule undone_object [OF assms(1,2), where F = "\<lambda>ov. ov\<lparr> ov_data := (ov_data ov)\<lparr> SNonce := SNonce (data ob) \<rparr> \<rparr>"])
    (simp_all add: oview_updates record_restore)

lemma undone_SetCode_obj:
  assumes "objects_ok s" "stateObjects s (address ob) = Some ob" "SCodeHash (data ob) = EmptyCodeHash env" "code ob = []"
  shows "undone env s (SetCode_obj env h c ob s)"
  unfolding SetCode_obj_def setCode_j_def
proof (rule undone_object [OF assms(1,2), where F = "vset_code (EmptyCodeHash env) []"])
  have "code_view env ob = []"
    using assms by (simp add: code_view_def)
  moreover have "(data ob)\<lparr> SCodeHash := EmptyCodeHash env \<rparr> = data ob"
    using assms(3) by (metis StateAccount.surjective StateAccount.update_convs(4))
  ultimately show "vset_code (EmptyCodeHash env) [] (oview env d (setCode h c ob)) = oview env d ob" for d
    by (simp add: vset_code_def oview_def setCode_def slot_value_def fun_eq_iff split: option.split)
qed simp_all

lemma committed_cache:
  assumes "originStorage ob key = None"
  shows "committed env d (ob\<lparr> originStorage := (originStorage ob)(key \<mapsto> committed env d ob key) \<rparr>) = committed env d ob"
proof
  fix x
  show "committed env d (ob\<lparr> originStorage := (originStorage ob)(key \<mapsto> committed env d ob key) \<rparr>) x = committed env d ob x"
  proof (cases "x = key")
    case True
    then show ?thesis
      using assms by (cases "pendingStorage ob key") (simp_all add: committed_def)
  next
    case False
    then show ?thesis
      by (cases "pendingStorage ob x"; cases "originStorage ob x") (simp_all add: committed_def)
  qed
qed

lemma GetCommittedState_obj_cached:
  assumes "GetCommittedState_obj env s ob key = (v, ob1, e)"
  shows "v = committed env (stateObjectsDestruct s (address ob) \<noteq> None) ob key" "address ob1 = address ob"
    "data ob1 = data ob" "code ob1 = code ob" "selfDestructed ob1 = selfDestructed ob" "newContract ob1 = newContract ob"
    "dirtyStorage ob1 = dirtyStorage ob"
    "committed env (stateObjectsDestruct s (address ob) \<noteq> None) ob1 = committed env (stateObjectsDestruct s (address ob) \<noteq> None) ob"
proof -
  show "v = committed env (stateObjectsDestruct s (address ob) \<noteq> None) ob key"
    using fst_GetCommittedState [of env s ob key] assms by simp
  have "ob1 = ob \<or> (pendingStorage ob key = None \<and> originStorage ob key = None \<and>
      ob1 = ob\<lparr> originStorage := (originStorage ob)(key \<mapsto> v) \<rparr> \<and> v = committed env (stateObjectsDestruct s (address ob) \<noteq> None) ob key)"
    using assms by (auto simp: GetCommittedState_obj_def committed_def split: option.splits sum.splits if_splits)
  then have ob1: "ob1 = ob \<or> (originStorage ob key = None \<and> ob1 = ob\<lparr> originStorage := (originStorage ob)(key \<mapsto>
      committed env (stateObjectsDestruct s (address ob) \<noteq> None) ob key) \<rparr>)"
    by blast
  then show "address ob1 = address ob" "data ob1 = data ob" "code ob1 = code ob" "selfDestructed ob1 = selfDestructed ob"
    "newContract ob1 = newContract ob" "dirtyStorage ob1 = dirtyStorage ob"
    by auto
  show "committed env (stateObjectsDestruct s (address ob) \<noteq> None) ob1 = committed env (stateObjectsDestruct s (address ob) \<noteq> None) ob"
    using ob1 committed_cache by blast
qed

lemma getState_obj_cached:
  assumes "getState_obj env s ob key = ((prev, orig), ob1, e)" and d: "d = (stateObjectsDestruct s (address ob) \<noteq> None)"
  shows "oview env d ob1 = oview env d ob" "address ob1 = address ob" "prev = slot_value env d ob key" "orig = committed env d ob key"
proof -
  obtain v ob' e' where g': "GetCommittedState_obj env s ob key = (v, ob', e')"
    by (metis prod.exhaust)
  then have g: "GetCommittedState_obj env s ob key = (v, ob1, e)"
    and pv: "orig = v" "prev = (case dirtyStorage ob1 key of Some x \<Rightarrow> x | None \<Rightarrow> v)"
    using assms(1) unfolding getState_obj_def g' by (cases "dirtyStorage ob' key"; simp)+
  note c = GetCommittedState_obj_cached [OF g]
  show "address ob1 = address ob" "prev = slot_value env d ob key" "orig = committed env d ob key"
    using c pv by (simp_all add: d slot_value_def split: option.split)
  have "committed env d ob1 = committed env d ob"
    unfolding d by (rule c(8))
  then show "oview env d ob1 = oview env d ob"
    using c by (simp add: oview_def slot_value_def code_view_def fun_eq_iff split: option.split)
qed

lemma undone_put_same:
  assumes "objects_ok s" "stateObjects s (address ob) = Some ob" "address ob1 = address ob"
    "\<And>d. d = (stateObjectsDestruct s (address ob) \<noteq> None) \<Longrightarrow> oview env d ob1 = oview env d ob"
  shows "undone env s (setStateObject ob1 (setError e s))"
proof (rule undone_silent)
  have "v_obj (view env s) (address ob) = Some (oview env (address ob \<in> v_dead (view env s)) ob)"
    using assms(2) by (simp add: view_obj_live live_def)
  moreover have "(address ob \<in> v_dead (view env s)) = (stateObjectsDestruct s (address ob) \<noteq> None)"
    by (auto simp: view_def)
  ultimately show "view env (setStateObject ob1 (setError e s)) = view env s"
    using assms(3,4) by (simp add: view_setStateObject fun_upd_idem)
qed (use assms in auto)

lemma undone_SetState_obj:
  assumes ok: "objects_ok s" and ob: "stateObjects s (address ob) = Some ob"
  shows "undone env s (SetState_obj env key val ob s)"
proof -
  obtain prev orig ob1 e where g: "getState_obj env s ob key = ((prev, orig), ob1, e)"
    by (metis prod.exhaust)
  let ?s1 = "setStateObject ob1 (setError e s)"
  note c = getState_obj_cached [OF g refl]
  have 1: "undone env s ?s1"
    using c by (intro undone_put_same [OF ok ob]) auto
  have "undone env ?s1 (setStateObject (setState key val orig ob1)
     (jappend (append_entry (StorageChange (address ob1) key prev orig val (env_ShardID env))) ?s1))"
  proof (rule undone_object [where F = "vset_slot key prev orig"])
    show "objects_ok ?s1"
      using 1 by (simp add: undone_def)
    show "stateObjects ?s1 (address ob1) = Some ob1"
      by (simp add: setStateObject_def)
    show "vset_slot key prev orig (oview env d (setState key val orig ob1)) = oview env d ob1"
      if "d = (address ob1 \<in> v_dead (view env ?s1))" for d
    proof -
      have "d = (stateObjectsDestruct s (address ob) \<noteq> None)"
        using that 1 c(2) by (auto simp: view_def)
      then have "oview env d ob1 = oview env d ob" "prev = slot_value env d ob key" "orig = committed env d ob key"
        using c by auto
      then have "prev = ov_slot (oview env d ob1) key" "orig = ov_committed (oview env d ob1) key"
        by simp_all
      then show ?thesis
        by (simp add: oview_updates vset_slot_def fun_upd_idem)
    qed
  qed simp_all
  then show ?thesis
    using 1 g undone_trans by (auto simp: SetState_obj_def Let_def storageChange_def)
qed


lemma undone_SelfDestruct:
  assumes ok: "objects_ok s" and small: "small_balance env s a"
  shows "undone env s (SelfDestruct env a s)"
proof -
  obtain r s1 where g: "getStateObject env a s = (r, s1)"
    by (cases "getStateObject env a s")
  note facts = getStateObject_live [OF g]
  have 1: "undone env s s1"
    using facts ok by (intro undone_silent)
  show ?thesis
  proof (cases r)
    case None
    then show ?thesis
      using 1 g by (simp add: SelfDestruct_def)
  next
    case (Some ob)
    have ob: "address ob = a" "stateObjects s1 (address ob) = Some ob" "SBalance (data ob) < 2 ^ 64"
      using getStateObject_address [OF _ ok] g Some facts(1,6) small by (auto simp: small_balance_def)
    define cleared where "cleared = (SBalance (data ob) \<noteq> 0)"
    define ob1 where "ob1 = (if cleared then setBalance 0 ob else ob)"
    define s2 where "s2 = (if cleared then SetBalance_obj env 0 ob s1 else s1)"
    have 2: "undone env s1 s2"
      using undone_SetBalance_obj [OF facts(5) [OF ok] ob(2,3)] facts(5) [OF ok] by (auto simp: s2_def intro: undone_silent)
    have ob1: "stateObjects s2 (address ob1) = Some ob1" "address ob1 = a" "selfDestructed ob1 = selfDestructed ob"
      using ob by (auto simp: ob1_def s2_def SetBalance_obj_def setStateObject_def setBalance_def)
    have "undone env s2 (setStateObject (markSelfdestructed ob1) (jappend (append_entry (SelfDestructChange a (env_ShardID env))) s2))"
      if "\<not> selfDestructed ob"
      by (rule undone_object [where F = "\<lambda>ov. ov\<lparr> ov_selfDestructed := False \<rparr>", OF _ ob1(1)])
        (use 2 ob1 that in \<open>auto simp: undone_def markSelfdestructed_def oview_updates record_restore\<close>)
    then have "undone env s2 (SelfDestruct env a s)"
      using 2 Some g by (auto simp: SelfDestruct_def Let_def s2_def ob1_def cleared_def destruct_j_def undone_def intro: undone_silent)
    then show ?thesis
      using 1 2 undone_trans by metis
  qed
qed

lemma undone_CreateContract:
  assumes ok: "objects_ok s" and ex: "live env s a \<noteq> None"
  shows "\<exists>s'. CreateContract env a s = Some s' \<and> undone env s s'"
proof -
  obtain r s1 where g: "getStateObject env a s = (r, s1)"
    by (cases "getStateObject env a s")
  note facts = getStateObject_live [OF g]
  obtain ob where r: "r = Some ob"
    using ex facts(1) by auto
  have 1: "undone env s s1"
    using facts ok by (intro undone_silent)
  have ob: "address ob = a" "stateObjects s1 (address ob) = Some ob"
    using getStateObject_address [OF _ ok] g r facts(6) by auto
  have "undone env s1 (setStateObject (ob\<lparr> newContract := True \<rparr>) (jappend (append_entry (CreateContractChange a (env_ShardID env))) s1))"
    if "\<not> newContract ob"
    by (rule undone_object [where F = "\<lambda>ov. ov\<lparr> ov_newContract := False \<rparr>", OF facts(5) [OF ok] ob(2)])
      (use ob that in \<open>auto simp: oview_updates record_restore\<close>)
  moreover have "jappend f (setStateObject x t) = setStateObject x (jappend f t)" for f x t
    by (simp add: setStateObject_def)
  ultimately show ?thesis
    using 1 g r undone_trans by (auto simp: CreateContract_def createContract_j_def)
qed

lemma undone_view_entry:
  assumes "objects_ok s" "own_entry env e" "objects_ok s'" "jrnl s' = append_entry e (jrnl s)"
    "vRevert env e (view env s') = Some (view env s)"
  shows "undone env s s'"
  using assms by (intro undone_one [where e = e and j = "append_entry e (jrnl s)"]) auto

lemma undone_AddLog: "objects_ok s \<Longrightarrow> undone env s (AddLog env l s)"
proof (rule undone_view_entry [where e = "AddLogChange (thash s) (env_ShardID env)"])
  have "v_logs (view env (AddLog env l s)) = (logs_of s)(thash s := logs_of s (thash s) @
      [l\<lparr> L_TxHash := thash s, L_TxIndex := txIndex s, L_Index := logSize s \<rparr>])"
    by (auto simp: view_def AddLog_def Let_def logs_of_def fun_eq_iff)
  moreover have "view env s = (view env (AddLog env l s))\<lparr> v_logs := logs_of s, v_logSize := logSize s \<rparr>"
    by (simp add: view_def AddLog_def Let_def view_obj_def live_def GetTransientState_def fun_eq_iff del: not_None_eq)
  moreover have "v_logSize (view env (AddLog env l s)) = logSize s + 1"
    by (simp add: view_def AddLog_def Let_def)
  ultimately show "vRevert env (AddLogChange (thash s) (env_ShardID env)) (view env (AddLog env l s)) = Some (view env s)"
    by simp
qed (simp_all add: AddLog_def Let_def logChange_def objects_ok_def)

lemma undone_refund:
  "objects_ok s \<Longrightarrow> undone env s ((jappend (refundChange (env_ShardID env) (refund s) d) s)\<lparr> refund := r \<rparr>)"
  by (rule undone_view_entry [where e = "RefundChange (refund s) d (env_ShardID env)"])
    (simp_all add: refundChange_def objects_ok_def view_def view_obj_def live_def logs_of_def GetTransientState_def fun_eq_iff
      del: not_None_eq)

lemma undone_SetTransientState: "objects_ok s \<Longrightarrow> undone env s (SetTransientState env a k v s)"
proof (cases "GetTransientState a k s = v")
  case True
  then show "objects_ok s \<Longrightarrow> ?thesis"
    by (simp add: SetTransientState_def undone_silent)
next
  case False
  show "objects_ok s \<Longrightarrow> ?thesis"
    by (rule undone_view_entry [where e = "TransientStorageChange a k (GetTransientState a k s) v (env_ShardID env)"])
      (use False in \<open>simp_all add: SetTransientState_def Let_def transientStateChange_def objects_ok_def setTransientState_def
        view_def view_obj_def live_def logs_of_def GetTransientState_def fun_eq_iff del: not_None_eq\<close>)
qed


text \<open>A query or a change of the object that \<open>getOrNewStateObject\<close> returns.\<close>

lemma undone_on_object:
  assumes ok: "objects_ok s" and step: "\<And>ob s1. getOrNewStateObject env a s = (ob, s1) \<Longrightarrow> objects_ok s1 \<Longrightarrow>
    stateObjects s1 (address ob) = Some ob \<Longrightarrow> address ob = a \<Longrightarrow> undone env s1 (f ob s1)"
  shows "undone env s (let (ob, s1) = getOrNewStateObject env a s in f ob s1)"
proof -
  obtain ob s1 where g: "getOrNewStateObject env a s = (ob, s1)"
    by (cases "getOrNewStateObject env a s")
  note new = getOrNew_undone [OF ok g]
  have "undone env s1 (f ob s1)"
    using step [OF g new(4)] new(2,3) by simp
  then show ?thesis
    using new(1) g undone_trans by (metis case_prod_conv)
qed

lemma balance_small:
  assumes "objects_ok s" "small_balance env s a" "getOrNewStateObject env a s = (ob, s1)"
  shows "SBalance (data ob) < 2 ^ 64"
  using assms(2) getOrNew_undone(5,6) [OF assms(1,3)]
  by (cases "live env s a") (auto simp: small_balance_def Init_Balance_def)

lemma undone_GetState: "objects_ok s \<Longrightarrow> undone env s (snd (GetState env a k s))"
proof -
  assume ok: "objects_ok s"
  obtain r s1 where g: "getStateObject env a s = (r, s1)"
    by (cases "getStateObject env a s")
  note facts = getStateObject_live [OF g]
  have 1: "undone env s s1"
    using facts ok by (intro undone_silent)
  show ?thesis
  proof (cases r)
    case (Some ob)
    obtain v orig ob1 e where st: "getState_obj env s1 ob k = ((v, orig), ob1, e)"
      by (metis prod.exhaust)
    have "address ob = a" "stateObjects s1 (address ob) = Some ob"
      using getStateObject_address [OF _ ok] g Some facts(6) by auto
    then have "undone env s1 (setStateObject ob1 (setError e s1))"
      using getState_obj_cached [OF st refl] facts(5) [OF ok] by (intro undone_put_same [where ob = ob]) auto
    then show ?thesis
      using 1 undone_trans g Some st by (auto simp: GetState_def)
  qed (use 1 g in \<open>simp add: GetState_def\<close>)
qed

lemma undone_AddSlot:
  assumes ok: "objects_ok s"
  shows "\<exists>s'. AddSlotToAccessList env a sl s = Some s' \<and> undone env s s'"
proof -
  obtain p q al where r: "AddSlot (accList s) a sl = Some ((p, q), al)" "access_list_ok al"
    using AddSlot_total ok unfolding objects_ok_def by (metis prod.exhaust)
  let ?s1 = "s\<lparr> accList := al \<rparr>"
  have ok1: "objects_ok ?s1"
    using ok r(2) by (simp add: objects_ok_def)
  have 1: "undone env s ?s1"
    using ok1 by (intro undone_silent) simp_all
  have touch: "undone env t (jappend (append_entry e) t)" if "objects_ok t" "own_entry env e" "\<And>v. vRevert env e v = Some v" for t e
    using that by (intro undone_view_entry [where e = e]) simp_all
  define s2 where "s2 = (if p then jappend (accessListAddAccount (env_ShardID env) a) ?s1 else ?s1)"
  define s3 where "s3 = (if q then jappend (accessListAddSlot (env_ShardID env) a sl) s2 else s2)"
  have 2: "undone env ?s1 s2"
    using touch [OF ok1] ok1 by (auto simp: s2_def accessListAddAccount_def intro: undone_silent)
  then have ok2: "objects_ok s2"
    by (simp add: undone_def)
  have 3: "undone env s2 s3"
    using touch [OF ok2] ok2 by (auto simp: s3_def accessListAddSlot_def intro: undone_silent)
  have "AddSlotToAccessList env a sl s = Some s3"
    by (simp add: AddSlotToAccessList_def r(1) s2_def s3_def Let_def)
  then show ?thesis
    using undone_trans [OF undone_trans [OF 1 2] 3] by blast
qed

lemma undone_AddBalance_obj:
  assumes "objects_ok s" "stateObjects s (address ob) = Some ob" "SBalance (data ob) < 2 ^ 64"
  shows "undone env s (AddBalance_obj env v ob s)"
proof (cases "v = 0")
  case True
  have "undone env s (touch env ob s)"
    unfolding touch_def touchChange_def Let_def
    by (rule undone_one [where e = "TouchChange (address ob) (env_ShardID env)", OF _ refl]) (use assms(1) in simp_all)
  then show ?thesis
    using True assms(1) by (simp add: AddBalance_obj_def undone_silent)
next
  case False
  then show ?thesis
    using undone_SetBalance_obj [OF assms] by (simp add: AddBalance_obj_def)
qed

lemma undone_SubBalance_obj:
  assumes "objects_ok s" "stateObjects s (address ob) = Some ob" "SBalance (data ob) < 2 ^ 64"
  shows "undone env s (SubBalance_obj env v ob s)"
  using undone_SetBalance_obj [OF assms] assms(1) by (simp add: SubBalance_obj_def undone_silent)

lemma apply_op_undone:
  assumes ok: "objects_ok s" and op: "op_ok env x s"
  shows "\<exists>s'. apply_op env x s = Some s' \<and> undone env s s'"
proof (cases x)
  case (OpGetBalance a)
  have "undone env s (let (ob, s1) = getOrNewStateObject env a s in s1)"
    by (rule undone_on_object [OF ok]) (simp add: undone_silent)
  then show ?thesis
    using OpGetBalance by (simp add: GetBalance_def split_def Let_def)
next
  case (OpAddBalance a v)
  have "undone env s (AddBalance env a v s)"
    unfolding AddBalance_def
    by (rule undone_on_object [OF ok]) (use balance_small [OF ok] OpAddBalance op in \<open>auto intro!: undone_AddBalance_obj\<close>)
  then show ?thesis
    using OpAddBalance by simp
next
  case (OpSubBalance a v)
  have "undone env s (SubBalance env a v s)"
    unfolding SubBalance_def
    by (rule undone_on_object [OF ok]) (use balance_small [OF ok] OpSubBalance op in \<open>auto intro!: undone_SubBalance_obj\<close>)
  then show ?thesis
    using OpSubBalance by simp
next
  case (OpSetBalance a v)
  have "undone env s (SetBalance env a v s)"
    unfolding SetBalance_def
    by (rule undone_on_object [OF ok]) (use balance_small [OF ok] OpSetBalance op in \<open>auto intro!: undone_SetBalance_obj\<close>)
  then show ?thesis
    using OpSetBalance by simp
next
  case (OpSetNonce a n)
  have "undone env s (SetNonce env a n s)"
    unfolding SetNonce_def by (rule undone_on_object [OF ok]) (rule undone_SetNonce_obj)
  then show ?thesis
    using OpSetNonce by simp
next
  case (OpSetState a k v)
  have "undone env s (SetState env a k v s)"
    unfolding SetState_def by (rule undone_on_object [OF ok]) (rule undone_SetState_obj)
  then show ?thesis
    using OpSetState by simp
next
  case (OpSetCode a c)
  have "SCodeHash (data ob) = EmptyCodeHash env \<and> code ob = []" if "getOrNewStateObject env a s = (ob, s1)" for ob s1
    using getOrNew_undone(5,6) [OF ok that] op OpSetCode
    by (cases "live env s a") (auto simp: NewEmptyStateAccount_def)
  then have "undone env s (SetCode env a c s)"
    unfolding SetCode_def by (intro undone_on_object [OF ok] undone_SetCode_obj) auto
  then show ?thesis
    using OpSetCode by simp
next
  case (OpSelfdestruct6780 a)
  obtain r s1 where g: "getStateObject env a s = (r, s1)"
    by (cases "getStateObject env a s")
  note facts = getStateObject_live [OF g]
  have 1: "undone env s s1"
    using facts ok by (intro undone_silent)
  have "small_balance env s1 a" if "r = Some ob" for ob
  proof -
    have "live env s1 a = live env s a"
    proof -
      have "stateObjects s1 a = Some ob"
        using facts(6) that by simp
      then show ?thesis
        using facts(1) that live_cached by metis
    qed
    then show ?thesis
      using op OpSelfdestruct6780 by (simp add: small_balance_def)
  qed
  then have "undone env s (Selfdestruct6780 env a s)"
    using 1 g undone_SelfDestruct [OF facts(5) [OF ok]] undone_trans
    by (auto simp: Selfdestruct6780_def split: option.split)
  then show ?thesis
    using OpSelfdestruct6780 by simp
next
  case (OpCreateAccount a)
  obtain r s1 where g: "getStateObject env a s = (r, s1)"
    by (cases "getStateObject env a s")
  obtain ob s2 where c: "createObject env a s = (ob, s2)"
    by (cases "createObject env a s")
  have "undone env s s2"
  proof (rule undone_view_entry [where e = "CreateObjectChange a (env_ShardID env)", OF ok])
    have s2: "s2 = setStateObject ob (jappend (append_entry (CreateObjectChange a (env_ShardID env))) s)" "address ob = a"
      using c by (auto simp: createObject_def createObject_j_def Let_def)
    have none: "live env s a = None"
      using op OpCreateAccount by simp
    then have "a \<notin> v_dead (view env s) \<Longrightarrow> read_object env a = None"
      by (auto simp: live_def view_def domIff split: option.splits if_splits)
    then show "vRevert env (CreateObjectChange a (env_ShardID env)) (view env s2) = Some (view env s)"
      using none by (auto simp: s2 view_setStateObject view_obj_live fun_upd_idem)
    show "objects_ok s2" "jrnl s2 = append_entry (CreateObjectChange a (env_ShardID env)) (jrnl s)"
      using ok by (simp_all add: s2(1))
  qed simp
  then show ?thesis
    using OpCreateAccount c by (simp add: CreateAccount_def)
next
  case (OpAddAddress a)
  have "undone env s (AddAddressToAccessList env a s)"
  proof (cases "addresses (accList s) a")
    case None
    then show ?thesis
      using ok by (intro undone_view_entry [where e = "AccessListAddAccountChange a (env_ShardID env)"])
        (auto simp: AddAddressToAccessList_def AddAddress_def accessListAddAccount_def objects_ok_def AddAddress_ok [simplified AddAddress_def] access_list_ok_def)
  next
    case (Some i)
    then show ?thesis
      using ok by (intro undone_silent) (simp_all add: AddAddressToAccessList_def AddAddress_def)
  qed
  then show ?thesis
    using OpAddAddress by simp
qed (use ok op undone_GetState undone_SelfDestruct undone_CreateContract undone_AddLog undone_SetTransientState undone_AddSlot
      undone_refund in \<open>auto simp: AddRefund_def SubRefund_def Let_def\<close>)


section \<open>The undo log of the state database\<close>

text \<open>The journal discharges the contract of an undo log: entries, views and the conditions above.\<close>

interpretation jl: undo_log
  "apply_op env" "Revert env" "vRevert env" "\<lambda>s. Entries (jrnl s)" "view env" objects_ok "op_ok env" "own_entry env"
  for env
proof
  show "map_option (view env) (Revert env e s) = vRevert env e (view env s)" if "objects_ok s" for s e
    using that by (rule Revert_refines)
  show "objects_ok s'" if "objects_ok s" "Revert env e s = Some s'" for s e s'
    using that by (rule Revert_inv)
  show "\<exists>s' es. apply_op env x s = Some s' \<and> objects_ok s' \<and> Entries (jrnl s') = Entries (jrnl s) @ es \<and>
      list_all (own_entry env) es \<and> revert_all (vRevert env) (rev es) (view env s') = Some (view env s)"
    if "objects_ok s" "op_ok env x s" for s x
    using apply_op_undone [OF that] unfolding undone_def by blast
qed

text \<open>On entries of its own shard the loop of \<open>revert\<close> sends nothing and reverts one entry after the
  other; the journal itself only loses dirty counts.\<close>

definition same_log :: "journal \<Rightarrow> journal \<Rightarrow> bool" where
  "same_log j j' \<longleftrightarrow> Entries j' = Entries j \<and> ValidRevisions j' = ValidRevisions j \<and> nextRevisionId j' = nextRevisionId j"

lemma revert_loop_own:
  assumes "objects_ok s" "list_all (own_entry env) es" "revert_all (vRevert env) es (view env s) = Some v"
  shows "\<exists>s'. revert_loop env es s = Some ([], s') \<and> objects_ok s' \<and> view env s' = v \<and> same_log (jrnl s) (jrnl s')"
  using assms
proof (induction es arbitrary: s)
  case (Cons e es)
  then obtain v1 where v1: "vRevert env e (view env s) = Some v1" "revert_all (vRevert env) es v1 = Some v"
    by (auto simp: bind_eq_Some_iff)
  obtain s1 where s1: "Revert env e s = Some s1" "view env s1 = v1"
    using Revert_refines [OF Cons.prems(1), of env e] v1(1) by auto
  let ?s2 = "s1\<lparr> jrnl := undirty e (jrnl s1) \<rparr>"
  have "objects_ok ?s2" "view env ?s2 = v1" "same_log (jrnl s) (jrnl ?s2)"
    using Revert_inv [OF Cons.prems(1) s1(1)] s1(2) by (simp_all add: same_log_def)
  then obtain s' where "revert_loop env es ?s2 = Some ([], s')" "objects_ok s'" "view env s' = v" "same_log (jrnl s) (jrnl s')"
    using Cons.IH [of ?s2] Cons.prems(2) v1(2) by (auto simp: same_log_def)
  then show ?case
    using Cons.prems(2) s1(1) by simp
qed (simp add: same_log_def)

section \<open>Call frames\<close>

text \<open>A call frame takes a snapshot, runs its body and reverts to the snapshot if the call failed,
  as \<open>vm/evm.go\<close> and the handlers of \<open>pbft.go\<close> do; bodies nest.\<close>

datatype cmd = Do db_op | Frame "cmd list" bool

fun exec :: "StateEnv \<Rightarrow> cmd \<Rightarrow> StateDB \<Rightarrow> StateDB panics"
  and execs :: "StateEnv \<Rightarrow> cmd list \<Rightarrow> StateDB \<Rightarrow> StateDB panics" where
  "exec env (Do x) s = apply_op env x s"
| "exec env (Frame cs failed) s = (let (rid, s1) = Snapshot s in do {
     s2 \<leftarrow> execs env cs s1;
     if failed then map_option snd (RevertToSnapshot env rid s2) else Some s2 })"
| "execs env [] s = Some s"
| "execs env (c # cs) s = do { s1 \<leftarrow> exec env c s; execs env cs s1 }"

fun cmd_ok :: "StateEnv \<Rightarrow> cmd \<Rightarrow> StateDB \<Rightarrow> bool"
  and cmds_ok :: "StateEnv \<Rightarrow> cmd list \<Rightarrow> StateDB \<Rightarrow> bool" where
  "cmd_ok env (Do x) s = op_ok env x s"
| "cmd_ok env (Frame cs failed) s = cmds_ok env cs (snd (Snapshot s))"
| "cmds_ok env [] s = True"
| "cmds_ok env (c # cs) s = (cmd_ok env c s \<and> (case exec env c s of None \<Rightarrow> True | Some s1 \<Rightarrow> cmds_ok env cs s1))"

text \<open>\<open>extends\<close>: the journal grew by entries that undo the step, and revisions were added with
  fresh ids.\<close>

definition extends :: "StateEnv \<Rightarrow> StateDB \<Rightarrow> StateDB \<Rightarrow> bool" where
  "extends env s s' \<longleftrightarrow> objects_ok s' \<and> revisions_ok (jrnl s') \<and> nextRevisionId (jrnl s) \<le> nextRevisionId (jrnl s') \<and>
     (\<exists>rs. ValidRevisions (jrnl s') = ValidRevisions (jrnl s) @ rs) \<and>
     (\<exists>es. Entries (jrnl s') = Entries (jrnl s) @ es \<and> list_all (own_entry env) es \<and>
        revert_all (vRevert env) (rev es) (view env s') = Some (view env s))"

lemma extends_undone:
  "undone env s s' \<Longrightarrow> revisions_ok (jrnl s) \<Longrightarrow> extends env s s'"
  by (auto simp: undone_def extends_def revisions_ok_def)

lemma extends_trans:
  assumes "extends env s s1" "extends env s1 s2"
  shows "extends env s s2"
proof -
  obtain es1 es2 where "Entries (jrnl s1) = Entries (jrnl s) @ es1" "list_all (own_entry env) es1"
    "revert_all (vRevert env) (rev es1) (view env s1) = Some (view env s)"
    "Entries (jrnl s2) = Entries (jrnl s1) @ es2" "list_all (own_entry env) es2"
    "revert_all (vRevert env) (rev es2) (view env s2) = Some (view env s1)"
    using assms unfolding extends_def by blast
  moreover from this have "revert_all (vRevert env) (rev (es1 @ es2)) (view env s2) = Some (view env s)"
    by (metis revert_all_trans)
  ultimately have "\<exists>es. Entries (jrnl s2) = Entries (jrnl s) @ es \<and> list_all (own_entry env) es \<and>
      revert_all (vRevert env) (rev es) (view env s2) = Some (view env s)"
    by (intro exI [of _ "es1 @ es2"]) auto
  then show ?thesis
    using assms unfolding extends_def by (metis append.assoc le_trans)
qed

lemma Snapshot_facts:
  assumes "Snapshot s = (rid, s1)"
  shows "rid = nextRevisionId (jrnl s)" "view env s1 = view env s" "Entries (jrnl s1) = Entries (jrnl s)"
    "ValidRevisions (jrnl s1) = ValidRevisions (jrnl s) @ [\<lparr> RevId = rid, JournalIndex = length (Entries (jrnl s)) \<rparr>]"
    "objects_ok s \<Longrightarrow> objects_ok s1" "revisions_ok (jrnl s) \<Longrightarrow> revisions_ok (jrnl s1)"
    "nextRevisionId (jrnl s1) = Suc (nextRevisionId (jrnl s))"
  using assms by (auto simp: Snapshot_def snapshot_def journal_length_def revisions_ok_def sorted_wrt_append less_Suc_eq)

lemma extends_Snapshot:
  assumes "Snapshot s = (rid, s1)" "objects_ok s" "revisions_ok (jrnl s)"
  shows "extends env s s1"
  using Snapshot_facts [OF assms(1)] assms(2,3) by (auto simp: extends_def intro!: exI [of _ "[]"])

text \<open>Reverting to the snapshot taken before an extension restores the view and the journal.\<close>

lemma RevertToSnapshot_extends:
  assumes sn: "Snapshot s = (rid, s1)" and ok: "objects_ok s" "revisions_ok (jrnl s)" and ext: "extends env s1 s2"
  shows "\<exists>s3. RevertToSnapshot env rid s2 = Some ([], s3) \<and> objects_ok s3 \<and> revisions_ok (jrnl s3) \<and> view env s3 = view env s \<and>
    Entries (jrnl s3) = Entries (jrnl s) \<and> ValidRevisions (jrnl s3) = ValidRevisions (jrnl s) \<and>
    nextRevisionId (jrnl s) \<le> nextRevisionId (jrnl s3)"
proof -
  note sf = Snapshot_facts [OF sn]
  obtain es rs where es: "Entries (jrnl s2) = Entries (jrnl s) @ es" "list_all (own_entry env) es"
      "revert_all (vRevert env) (rev es) (view env s2) = Some (view env s)"
    and rs: "ValidRevisions (jrnl s2) = ValidRevisions (jrnl s) @ \<lparr> RevId = rid, JournalIndex = length (Entries (jrnl s)) \<rparr> # rs"
    using ext sf(2,3,4) unfolding extends_def by auto
  have ok2: "objects_ok s2" "revisions_ok (jrnl s2)" "nextRevisionId (jrnl s) \<le> nextRevisionId (jrnl s2)"
    using ext sf(7) by (auto simp: extends_def)
  have fr: "find_revision rid (jrnl s2) = Some (length (ValidRevisions (jrnl s)))"
    using find_revision_hit [OF ok2(2) rs] by simp
  have "list_all (own_entry env) (rev es)"
    using es(2) by (simp add: list_all_iff)
  from revert_loop_own [OF ok2(1) this es(3)]
  obtain t where t: "revert_loop env (rev es) s2 = Some ([], t)" "objects_ok t" "view env t = view env s" "same_log (jrnl s2) (jrnl t)"
    by blast
  define s3 where "s3 = t\<lparr> jrnl := (jrnl t)\<lparr> Entries := Entries (jrnl s), ValidRevisions := ValidRevisions (jrnl s) \<rparr> \<rparr>"
  have "RevertToSnapshot env rid s2 = Some ([], s3)"
    using t(1,4) es(1) rs by (simp add: RevertToSnapshot_def fr revert_journal_def same_log_def s3_def)
  moreover have "revisions_ok (jrnl s3)"
    using ok(2) ok2(3) t(4) by (auto simp: s3_def revisions_ok_def same_log_def intro: less_le_trans)
  ultimately show ?thesis
    using t ok2(3) by (simp add: s3_def same_log_def)
qed

lemma exec_extends:
  "objects_ok s \<Longrightarrow> revisions_ok (jrnl s) \<Longrightarrow> cmd_ok env c s \<Longrightarrow> \<exists>s'. exec env c s = Some s' \<and> extends env s s'"
  "objects_ok s \<Longrightarrow> revisions_ok (jrnl s) \<Longrightarrow> cmds_ok env cs s \<Longrightarrow> \<exists>s'. execs env cs s = Some s' \<and> extends env s s'"
proof (induction env c s and env cs s rule: exec_execs.induct)
  case (1 env x s)
  then show ?case
    using apply_op_undone extends_undone by fastforce
next
  case (2 env cs failed s)
  obtain rid s1 where sn: "Snapshot s = (rid, s1)"
    by (cases "Snapshot s")
  note sf = Snapshot_facts [OF sn]
  obtain s2 where s2: "execs env cs s1 = Some s2" "extends env s1 s2"
    using "2.IH" [OF sn [symmetric] refl] sf(5,6) "2.prems" sn by auto
  show ?case
  proof (cases failed)
    case True
    obtain s3 where "RevertToSnapshot env rid s2 = Some ([], s3)" "objects_ok s3" "revisions_ok (jrnl s3)" "view env s3 = view env s"
      "Entries (jrnl s3) = Entries (jrnl s)" "ValidRevisions (jrnl s3) = ValidRevisions (jrnl s)"
      "nextRevisionId (jrnl s) \<le> nextRevisionId (jrnl s3)"
      using RevertToSnapshot_extends [OF sn "2.prems"(1,2) s2(2)] by blast
    then show ?thesis
      using True sn s2(1) by (auto simp: extends_def intro!: exI [of _ "[]"])
  next
    case False
    then show ?thesis
      using extends_trans [OF extends_Snapshot [OF sn "2.prems"(1,2)] s2(2)] sn s2(1) by simp
  qed
next
  case (3 env s)
  then show ?case
    by (auto simp: extends_def intro!: exI [of _ "[]"])
next
  case (4 env c cs s)
  then obtain s1 where s1: "exec env c s = Some s1" "extends env s s1"
    by auto
  then obtain s2 where "execs env cs s1 = Some s2" "extends env s1 s2"
    using "4.IH"(2) "4.prems" by (auto simp: extends_def)
  then show ?case
    using s1 extends_trans by fastforce
qed


text \<open>C7: snapshots restore the state. From any state with objects stored under their addresses and
  increasing revision ids, take a snapshot and run any sequence of state operations and nested call
  frames, each frame reverted or kept: if every operation meets its condition (journalled balances
  below 2 to the 64, code set only on accounts without code, accounts created once), the run does not
  panic, reverting to the snapshot succeeds without sending a message, and every observable (balances,
  nonces, code, storage slots, self-destruct and new-contract flags, refund, logs, transient storage) and the
  journal are those at the snapshot.\<close>
theorem nested_calls_roll_back:
  assumes "objects_ok s" "revisions_ok (jrnl s)" "Snapshot s = (rid, s1)" "cmds_ok env cs s1"
  shows "\<exists>s2 s3. execs env cs s1 = Some s2 \<and> RevertToSnapshot env rid s2 = Some ([], s3) \<and> view env s3 = view env s \<and>
    Entries (jrnl s3) = Entries (jrnl s) \<and> ValidRevisions (jrnl s3) = ValidRevisions (jrnl s)"
proof -
  note sf = Snapshot_facts [OF assms(3)]
  obtain s2 where s2: "execs env cs s1 = Some s2" "extends env s1 s2"
    using exec_extends(2) [OF sf(5) [OF assms(1)] sf(6) [OF assms(2)] assms(4)] by blast
  then show ?thesis
    using RevertToSnapshot_extends [OF assms(3,1,2) s2(2)] by blast
qed

definition example_env :: StateEnv where
  "example_env = \<lparr> env_ShardID = 1, Keccak256Hash = (\<lambda>b. of_nat (length b) + 7), EmptyCodeHash = 7, EmptyRootHash = 8,
     reader_Account = (\<lambda>a. if a = 1 then Inr (Some \<lparr> SNonce = 1, SBalance = 2 ^ 64 + 5, SRoot = 8, SCodeHash = 7 \<rparr>) else Inr None),
     reader_Storage = (\<lambda>a k. Inr 0), ContractCode = (\<lambda>a h. ([], None)), Ip_nodeTable = (\<lambda>sh. [''n0'', ''n1'']) \<rparr>"

lemma New2_ok: "objects_ok New2" "revisions_ok (jrnl New2)"
  by (simp_all add: objects_ok_def New2_def access_list_ok_new revisions_ok_def newJournal_def)

theorem nested_calls_roll_back_witness:
  "\<exists>s2 s3. execs example_env [Do (OpAddBalance 5 100), Frame [Do (OpSetState 5 1 2), Do (OpAddRefund 4)] True, Do (OpSetNonce 5 9)]
      (snd (Snapshot New2)) = Some s2 \<and>
    RevertToSnapshot example_env 0 s2 = Some ([], s3) \<and> view example_env s3 = view example_env New2"
proof -
  have sn: "Snapshot New2 = (0, snd (Snapshot New2))"
    by (simp add: Snapshot_def snapshot_def New2_def newJournal_def)
  have "cmds_ok example_env [Do (OpAddBalance 5 100), Frame [Do (OpSetState 5 1 2), Do (OpAddRefund 4)] True, Do (OpSetNonce 5 9)]
      (snd (Snapshot New2))"
    by (simp add: small_balance_def live_def Snapshot_def snapshot_def New2_def newJournal_def read_object_def example_env_def
        split: option.split)
  from nested_calls_roll_back [OF New2_ok sn this] show ?thesis
    by blast
qed

section \<open>Where reverting does not restore\<close>

text \<open>C37: a reverted balance keeps only its low 64 bits. For an account in the state, setting its
  balance after a snapshot and reverting to it leaves the old balance modulo 2 to the 64, because
  the journal records balances as 64-bit integers; above that bound the revert changes the account.\<close>
theorem reverted_balance_is_truncated:
  assumes ok: "objects_ok s" "revisions_ok (jrnl s)" and ob: "stateObjects s a = Some ob" and sn: "Snapshot s = (rid, s1)"
  shows "\<exists>s3 ob'. RevertToSnapshot env rid (SetBalance env a v s1) = Some ([], s3) \<and> live env s3 a = Some ob' \<and>
    unat (SBalance (data ob')) = unat (SBalance (data ob)) mod 2 ^ 64"
proof -
  note sf = Snapshot_facts [OF sn]
  let ?e = "BalanceChange a (ucast (SBalance (data ob))) (ucast v) (env_ShardID env)"
  have a: "address ob = a"
    using ok(1) ob by (simp add: objects_ok_def)
  have s1: "stateObjects s1 a = Some ob"
    using sn ob by (auto simp: Snapshot_def snapshot_def)
  define s2 where "s2 = SetBalance env a v s1"
  have s2: "s2 = setStateObject (setBalance v ob) (jappend (append_entry ?e) s1)"
    using s1 a by (simp add: s2_def SetBalance_def getOrNewStateObject_def getStateObject_def SetBalance_obj_def balanceChange_def)
  have ok2: "objects_ok s2" "Entries (jrnl s2) = Entries (jrnl s) @ [?e]"
    "ValidRevisions (jrnl s2) = ValidRevisions (jrnl s) @ [\<lparr> RevId = rid, JournalIndex = length (Entries (jrnl s)) \<rparr>]"
    using sf ok by (simp_all add: s2)
  have "revisions_ok (jrnl s2)"
    using sf(6) [OF ok(2)] by (simp add: s2 revisions_ok_def)
  then have fr: "find_revision rid (jrnl s2) = Some (length (ValidRevisions (jrnl s)))"
    using find_revision_hit [of "jrnl s2" "ValidRevisions (jrnl s)" _ "[]"] ok2(3) by force
  have "v_obj (view env s2) a = Some (oview env (a \<in> v_dead (view env s2)) (setBalance v ob))"
    using a by (simp add: view_obj_live live_def s2 setStateObject_def)
  then obtain ov where ov: "vRevert env ?e (view env s2) = Some (on_obj a (\<lambda>ov. ov\<lparr> ov_data := (ov_data ov)\<lparr> SBalance :=
      ucast (ucast (SBalance (data ob)) :: uint64) \<rparr> \<rparr>) (view env s2))"
     "v_obj (view env s2) a = Some ov"
    by simp
  then have "revert_all (vRevert env) [?e] (view env s2) = Some (on_obj a (\<lambda>ov. ov\<lparr> ov_data := (ov_data ov)\<lparr> SBalance :=
      ucast (ucast (SBalance (data ob)) :: uint64) \<rparr> \<rparr>) (view env s2))" (is "_ = Some ?v")
    by simp
  from revert_loop_own [OF ok2(1) _ this]
  obtain t where t: "revert_loop env [?e] s2 = Some ([], t)" "view env t = ?v" "same_log (jrnl s2) (jrnl t)"
    by auto
  define s3 where "s3 = t\<lparr> jrnl := (jrnl t)\<lparr> Entries := Entries (jrnl s), ValidRevisions := ValidRevisions (jrnl s) \<rparr> \<rparr>"
  have run: "RevertToSnapshot env rid s2 = Some ([], s3)"
    using t(1,3) ok2 by (simp add: RevertToSnapshot_def fr revert_journal_def same_log_def s3_def)
  have "v_obj (view env s3) a = Some (ov\<lparr> ov_data := (ov_data ov)\<lparr> SBalance := ucast (ucast (SBalance (data ob)) :: uint64) \<rparr> \<rparr>)"
    using t(2) ov(2) by (simp add: s3_def on_obj_def)
  then obtain ob' where ob': "live env s3 a = Some ob'" "SBalance (data ob') = ucast (ucast (SBalance (data ob)) :: uint64)"
    unfolding view_obj_live by (auto dest: arg_cong [where f = ov_data])
  have "unat (ucast (ucast (SBalance (data ob)) :: uint64) :: uint256) = unat (SBalance (data ob)) mod 2 ^ 64"
    using unsigned_less [of "SBalance (data ob)", where 'a = nat]
    by (simp only: unsigned_ucast_eq unsigned_take_bit_eq) (simp add: take_bit_eq_mod)
  then show ?thesis
    using run ob' unfolding s2_def by metis
qed

theorem reverted_balance_is_truncated_witness:
  "\<exists>s rid s1 s3 ob'. Snapshot s = (rid, s1) \<and> RevertToSnapshot example_env rid (SetBalance example_env 1 3 s1) = Some ([], s3) \<and>
     live example_env s3 1 = Some ob' \<and> unat (SBalance (data ob')) = 5 \<and>
     (\<exists>ob. stateObjects s 1 = Some ob \<and> unat (SBalance (data ob)) = 2 ^ 64 + 5)"
proof -
  define ob where "ob = newObject example_env 1 (Some \<lparr> SNonce = 1, SBalance = 2 ^ 64 + 5, SRoot = 8, SCodeHash = 7 \<rparr>)"
  define s where "s = setStateObject ob New2"
  obtain rid s1 where sn: "Snapshot s = (rid, s1)"
    by (cases "Snapshot s")
  have ok: "objects_ok s" "revisions_ok (jrnl s)" "stateObjects s 1 = Some ob"
    using New2_ok by (simp_all add: s_def setStateObject_def ob_def objects_ok_def New2_def)
  have "unat (SBalance (data ob)) = 2 ^ 64 + 5"
    by (simp add: ob_def newObject_def)
  moreover obtain s3 ob' where "RevertToSnapshot example_env rid (SetBalance example_env 1 3 s1) = Some ([], s3)"
    "live example_env s3 1 = Some ob'" "unat (SBalance (data ob')) = unat (SBalance (data ob)) mod 2 ^ 64"
    using reverted_balance_is_truncated [OF ok sn, of example_env 3] by blast
  ultimately show ?thesis
    by (intro exI conjI) (use sn ok(3) in \<open>assumption | simp\<close>)+
qed

text \<open>reading a balance creates the account. \<open>GetBalance\<close> of an address the state does not hold
  answers the initial balance 10000, journals the creation, and leaves an account with that balance
  behind; for an address it holds it answers the account's balance and changes nothing observable.\<close>
theorem get_balance_creates_account:
  assumes "objects_ok s"
  shows "case live env s a of
      None \<Rightarrow> (\<exists>s' ob. GetBalance env a s = (10000, s') \<and> live env s' a = Some ob \<and> SBalance (data ob) = 10000 \<and>
                Entries (jrnl s') = Entries (jrnl s) @ [CreateObjectChange a (env_ShardID env)])
    | Some ob \<Rightarrow> (\<exists>s'. GetBalance env a s = (SBalance (data ob), s') \<and> view env s' = view env s)"
proof -
  obtain r s1 where g: "getStateObject env a s = (r, s1)"
    by (cases "getStateObject env a s")
  note facts = getStateObject_live [OF g]
  show ?thesis
  proof (cases r)
    case None
    have "getOrNewStateObject env a s = createObject env a s1"
      using g None by (simp add: getOrNewStateObject_def)
    then show ?thesis
      using None facts(1,3)
      by (auto simp: GetBalance_def createObject_def createObject_j_def Let_def setStateObject_def
          setBalance_def Init_Balance_def live_cached split: option.split)
  next
    case (Some ob)
    then have "GetBalance env a s = (SBalance (data ob), s1)"
      using g by (simp add: GetBalance_def getOrNewStateObject_def)
    then show ?thesis
      using Some facts(1,2) by (auto split: option.split)
  qed
qed

theorem get_balance_creates_account_witness:
  "live example_env New2 6 = None \<and> (\<exists>s'. GetBalance example_env 6 New2 = (10000, s'))"
proof -
  have "live example_env New2 6 = None"
    by (simp add: live_def New2_def read_object_def example_env_def)
  then show ?thesis
    using get_balance_creates_account [OF New2_ok(1), of example_env 6] by auto
qed

end
