(* ===== verification/Finalisation.thy ===== *)
theory Finalisation
  imports Snapshots
begin

text \<open>
  The end of a transaction: \<open>Finalise\<close> of \<open>vm/state/statedb.go\<close> with \<open>finalise\<close> of
  \<open>vm/state/state_object.go\<close>, and the effect of a rollback message on the shard that receives it.
\<close>

lemma finalise_slots:
  assumes "d = (stateObjectsDestruct s (address ob) \<noteq> None)"
  shows "slot_value env d (finalise env s ob) = slot_value env d ob"
    "data (finalise env s ob) = data ob" "dirtyStorage (finalise env s ob) = Map.empty" "address (finalise env s ob) = address ob"
proof -
  show "data (finalise env s ob) = data ob" "dirtyStorage (finalise env s ob) = Map.empty" "address (finalise env s ob) = address ob"
    by (simp_all add: finalise_def)
  show "slot_value env d (finalise env s ob) = slot_value env d ob"
  proof
    fix key
    show "slot_value env d (finalise env s ob) key = slot_value env d ob key"
    proof (cases "dirtyStorage ob key")
      case None
      then show ?thesis
        by (cases "pendingStorage ob key"; cases "originStorage ob key") (simp_all add: slot_value_def finalise_def committed_def)
    next
      case (Some v)
      then show ?thesis
        by (simp add: slot_value_def finalise_def committed_def)
    qed
  qed
qed

lemma finalise_address_other:
  assumes "objects_ok s" "b \<noteq> a"
  shows "stateObjects (finalise_address env del b s) a = stateObjects s a"
    "stateObjectsDestruct (finalise_address env del b s) a = stateObjectsDestruct s a"
  using assms by (auto simp: finalise_address_def markDelete_def markUpdate_def Let_def objects_ok_def split: option.split)

lemma finalise_address_ok: "objects_ok s \<Longrightarrow> objects_ok (finalise_address env del b s)"
  by (auto simp: finalise_address_def markDelete_def markUpdate_def Let_def objects_ok_def finalise_def split: option.split if_splits)

lemma fold_finalise_ok: "objects_ok s \<Longrightarrow> objects_ok (fold (finalise_address env del) addrs s)"
  by (induction addrs arbitrary: s) (simp_all add: finalise_address_ok)

lemma fold_finalise_other:
  assumes "objects_ok s" "a \<notin> set addrs"
  shows "stateObjects (fold (finalise_address env del) addrs s) a = stateObjects s a \<and>
    stateObjectsDestruct (fold (finalise_address env del) addrs s) a = stateObjectsDestruct s a"
  using assms
proof (induction addrs arbitrary: s)
  case (Cons b addrs)
  then have "b \<noteq> a"
    by auto
  then show ?case
    using Cons.IH [OF finalise_address_ok [OF Cons.prems(1)]] Cons.prems finalise_address_other [OF Cons.prems(1)] by simp
qed simp

text \<open>finalising a transaction keeps the accounts it should. Whatever order the dirty addresses
  are visited in, the journal is empty afterwards, the refund is zero, an untouched account is as it
  was, a dirty account that destroyed itself (or is empty, where empty accounts are deleted) is gone
  and recorded as destructed, and every other dirty account has the same balance, nonce and code hash,
  the same value in every storage slot, and no dirty slot left.\<close>
theorem finalise_keeps_accounts:
  assumes ok: "objects_ok s" and d: "distinct addrs" and ob: "stateObjects s a = Some ob"
  shows "Entries (jrnl (Finalise env del addrs s)) = [] \<and> refund (Finalise env del addrs s) = 0 \<and>
    (if a \<notin> set addrs then stateObjects (Finalise env del addrs s) a = Some ob
     else if selfDestructed ob \<or> del \<and> empty_obj env ob
     then stateObjects (Finalise env del addrs s) a = None \<and> stateObjectsDestruct (Finalise env del addrs s) a \<noteq> None
     else \<exists>ob'. stateObjects (Finalise env del addrs s) a = Some ob' \<and> data ob' = data ob \<and> dirtyStorage ob' = Map.empty \<and>
       slot_value env (stateObjectsDestruct s a \<noteq> None) ob' = slot_value env (stateObjectsDestruct s a \<noteq> None) ob)"
proof -
  let ?t = "fold (finalise_address env del) addrs s"
  have sel: "stateObjects (Finalise env del addrs s) = stateObjects ?t" "stateObjectsDestruct (Finalise env del addrs s) = stateObjectsDestruct ?t"
    "Entries (jrnl (Finalise env del addrs s)) = []" "refund (Finalise env del addrs s) = 0"
    by (simp_all add: Finalise_def clearJournalAndRefund_def reset_journal_def)
  show ?thesis
  proof (cases "a \<in> set addrs")
    case False
    then show ?thesis
      using fold_finalise_other [OF ok False] ob by (simp add: sel)
  next
    case True
    then obtain xs ys where split: "addrs = xs @ a # ys" "a \<notin> set xs" "a \<notin> set ys"
      using d split_list by fastforce
    let ?s1 = "fold (finalise_address env del) xs s"
    let ?s2 = "finalise_address env del a ?s1"
    have s1: "objects_ok ?s1" "stateObjects ?s1 a = Some ob" "stateObjectsDestruct ?s1 a = stateObjectsDestruct s a"
      using fold_finalise_other [OF ok split(2)] fold_finalise_ok [OF ok] ob by simp_all
    have t: "stateObjects ?t a = stateObjects ?s2 a" "stateObjectsDestruct ?t a = stateObjectsDestruct ?s2 a"
      using fold_finalise_other [OF finalise_address_ok [OF s1(1)] split(3)] by (simp_all add: split(1))
    have a: "address ob = a"
      using s1 by (simp add: objects_ok_def)
    show ?thesis
    proof (cases "selfDestructed ob \<or> del \<and> empty_obj env ob")
      case gone: True
      then have "stateObjects ?s2 a = None \<and> stateObjectsDestruct ?s2 a \<noteq> None"
        using s1(2) a by (auto simp: finalise_address_def markDelete_def Let_def)
      then show ?thesis
        using True gone t sel by simp
    next
      case kept: False
      then have "stateObjects ?s2 a = Some (finalise env ?s1 ob)"
        using s1(2) by (auto simp: finalise_address_def markUpdate_def)
      then show ?thesis
        using True kept t sel finalise_slots [of "stateObjectsDestruct s a \<noteq> None" ?s1 ob env] s1(3) a by auto
    qed
  qed
qed

theorem finalise_keeps_accounts_witness:
  "\<exists>s ob ob'. stateObjects s 1 = Some ob \<and> stateObjects (Finalise example_env False [1] s) 1 = Some ob' \<and> data ob' = data ob"
proof -
  define ob where "ob = newObject example_env 1 (Some \<lparr> SNonce = 1, SBalance = 9, SRoot = 8, SCodeHash = 7 \<rparr>)"
  define s where "s = setStateObject ob New2"
  have ok: "objects_ok s" "stateObjects s 1 = Some ob" "distinct [1 :: common_Address]" "\<not> selfDestructed ob"
    using New2_ok by (simp_all add: s_def setStateObject_def ob_def objects_ok_def newObject_def)
  then show ?thesis
    using finalise_keeps_accounts [OF ok(1,3,2), of example_env False] by auto
qed

section \<open>Rollback across shards\<close>

text \<open>a rollback sent to another shard does not undo the change there. The node that reverts
  an entry of another shard leaves its own state alone and sends the entry to each node of that
  shard; what node 0 of that shard decodes is the blank entry, so it reverts account zero and leaves
  every other account, and every other node ignores the message.\<close>
theorem cross_shard_rollback_hits_account_zero:
  assumes other: "GetShardID e \<noteq> env_ShardID env" and bal: "e = BalanceChange a prev cur sh" and a: "a \<noteq> 0"
    and ok: "objects_ok t"
  shows "revert_loop env [e] s = Some (rollback_messages env e, s\<lparr> jrnl := undirty e (jrnl s) \<rparr>) \<and>
    (\<exists>w. UnmarshalJSON (MarshalJSON (wrap e)) = Inr w \<and>
      (\<exists>t'. handleCOpExeLogOrRollback env' Commit 0 \<lparr> ELog = [w], Rollback = True \<rparr> \<lparr> GlobalStateDB = Some t, GRoot = r \<rparr>
              = Some \<lparr> GlobalStateDB = Some t', GRoot = r \<rparr> \<and> live env' t' a = live env' t a) \<and>
      (n \<noteq> 0 \<longrightarrow> handleCOpExeLogOrRollback env' Commit n \<lparr> ELog = [w], Rollback = True \<rparr> g = Some g))"
proof -
  let ?w = "wrap (BalanceChange 0 0 0 sh)"
  have w: "UnmarshalJSON (MarshalJSON (wrap e)) = Inr ?w"
    using Unmarshal_Marshal_wrap [of e] bal by simp
  obtain r0 t1 where g: "getStateObject env' 0 t = (r0, t1)"
    by (cases "getStateObject env' 0 t")
  have live1: "live env' t1 a = live env' t a"
    using g by (cases rule: getStateObject_cases) (use a in \<open>auto simp: live_def setStateObject_def setError_def\<close>)
  obtain t' where t': "Revert env' (BalanceChange 0 0 0 sh) t = Some t'" "live env' t' a = live env' t a"
  proof (cases r0)
    case None
    then show ?thesis
      using that [of t1] g live1 by (simp add: with_object_def)
  next
    case (Some ob)
    have "address ob = 0"
      using getStateObject_address g Some ok by blast
    then have "live env' (setStateObject (setBalance 0 ob) t1) a = live env' t1 a"
      using a by (auto simp: live_def setStateObject_def split: option.split)
    then show ?thesis
      using that [of "setStateObject (setBalance 0 ob) t1"] g Some live1 by (simp add: with_object_def)
  qed
  have "handleCOpExeLogOrRollback env' Commit 0 \<lparr> ELog = [?w], Rollback = True \<rparr> \<lparr> GlobalStateDB = Some t, GRoot = r \<rparr>
      = Some \<lparr> GlobalStateDB = Some t', GRoot = r \<rparr>"
    using t'(1) by (simp add: handleCOpExeLogOrRollback_def New_def wrap_def)
  moreover have "handleCOpExeLogOrRollback env' Commit n \<lparr> ELog = [?w], Rollback = True \<rparr> g = Some g" if "n \<noteq> 0"
    using that by (simp add: handleCOpExeLogOrRollback_def)
  moreover have "revert_loop env [e] s = Some (rollback_messages env e, s\<lparr> jrnl := undirty e (jrnl s) \<rparr>)"
    using other by simp
  ultimately show ?thesis
    using w t'(2) by blast
qed

theorem cross_shard_rollback_hits_account_zero_witness:
  "\<exists>w t'. UnmarshalJSON (MarshalJSON (wrap (BalanceChange 9 5 6 2))) = Inr w \<and>
     handleCOpExeLogOrRollback example_env (\<lambda>s. 0) 0 \<lparr> ELog = [w], Rollback = True \<rparr> \<lparr> GlobalStateDB = Some New2, GRoot = 3 \<rparr>
       = Some \<lparr> GlobalStateDB = Some t', GRoot = 3 \<rparr> \<and> live example_env t' 9 = live example_env New2 9"
proof -
  have "GetShardID (BalanceChange 9 5 6 2) \<noteq> env_ShardID example_env" "(9 :: common_Address) \<noteq> 0"
    by (simp_all add: example_env_def)
  from cross_shard_rollback_hits_account_zero [OF this(1) refl this(2) New2_ok(1), of New2 example_env "\<lambda>s. 0" 3]
  show ?thesis
    by blast
qed

end
