(* ===== verification/BlockStore.thy ===== *)
theory BlockStore
  imports Core
begin

text \<open>
  The block store of \<open>storage/storage.go\<close>: four buckets of a bolt database. The database and the gob
  codecs of blocks and headers (\<open>core/block.go\<close> \<open>Encode\<close>, \<open>DecodeB\<close>, \<open>DecodeBH\<close>) are parameters;
  what is relied on is stated as \<open>bolt_laws\<close> and \<open>codec_laws\<close>. A failed write panics.
\<close>

text \<open>A bolt database: \<open>Put\<close> in a bucket may fail, \<open>Get\<close> is \<open>None\<close> for a missing key.\<close>

record 'db bolt =
  bolt_Put :: "'db \<Rightarrow> string \<Rightarrow> bytes \<Rightarrow> bytes \<Rightarrow> string + 'db"
  bolt_Get :: "'db \<Rightarrow> string \<Rightarrow> bytes \<Rightarrow> bytes option"

record codec =
  Encode_B :: "Block \<Rightarrow> bytes"
  DecodeB :: "bytes \<Rightarrow> Block"
  Encode_BH :: "BlockHeader \<Rightarrow> bytes"
  DecodeBH :: "bytes \<Rightarrow> BlockHeader"

definition blockBucket :: string where "blockBucket = ''block''"
definition blockHeaderBucket :: string where "blockHeaderBucket = ''blockHeader''"
definition newestBlockHashBucket :: string where "newestBlockHashBucket = ''newestBlockHash''"
definition contractResBucket :: string where "contractResBucket = ''contractRes''"

text \<open>\<open>DataBase.Update\<close> with one \<open>Put\<close>, whose error the callers turn into a panic.\<close>

definition put_or_panic :: "'db bolt \<Rightarrow> string \<Rightarrow> bytes \<Rightarrow> bytes \<Rightarrow> 'db \<Rightarrow> 'db panics" where
  "put_or_panic bo bucket key val db = (case bolt_Put bo db bucket key val of Inl e \<Rightarrow> panic | Inr db' \<Rightarrow> Some db')"

definition UpdateNewestBlock :: "'db bolt \<Rightarrow> bytes \<Rightarrow> 'db \<Rightarrow> 'db panics" where
  "UpdateNewestBlock bo newestbhash db =
     put_or_panic bo newestBlockHashBucket (bytes_of_string ''OnlyNewestBlock'') newestbhash db"

definition AddBlockHeader :: "'db bolt \<Rightarrow> codec \<Rightarrow> bytes \<Rightarrow> BlockHeader \<Rightarrow> 'db \<Rightarrow> 'db panics" where
  "AddBlockHeader bo cd blockhash bh db = put_or_panic bo blockHeaderBucket blockhash (Encode_BH cd bh) db"

definition AddContractRes :: "'db bolt \<Rightarrow> string \<Rightarrow> bytes \<Rightarrow> 'db \<Rightarrow> 'db panics" where
  "AddContractRes bo uuid res db = put_or_panic bo contractResBucket (bytes_of_string uuid) res db"

definition GetContractRes :: "'db bolt \<Rightarrow> string \<Rightarrow> 'db \<Rightarrow> string + bytes" where
  "GetContractRes bo uuid db = (case bolt_Get bo db contractResBucket (bytes_of_string uuid) of
       None \<Rightarrow> Inl ''the contract res is not existed''
     | Some b \<Rightarrow> Inr b)"

definition AddBlock_store :: "'db bolt \<Rightarrow> codec \<Rightarrow> Block \<Rightarrow> 'db \<Rightarrow> 'db panics" where
  "AddBlock_store bo cd b db = do {
     db1 \<leftarrow> put_or_panic bo blockBucket (Hash b) (Encode_B cd b) db;
     db2 \<leftarrow> AddBlockHeader bo cd (Hash b) (Header b) db1;
     UpdateNewestBlock bo (Hash b) db2 }"

definition GetBlockHeader :: "'db bolt \<Rightarrow> codec \<Rightarrow> bytes \<Rightarrow> 'db \<Rightarrow> string + BlockHeader" where
  "GetBlockHeader bo cd bhash db = (case bolt_Get bo db blockHeaderBucket bhash of
       None \<Rightarrow> Inl ''the block is not existed''
     | Some e \<Rightarrow> Inr (DecodeBH cd e))"

definition GetBlock :: "'db bolt \<Rightarrow> codec \<Rightarrow> bytes \<Rightarrow> 'db \<Rightarrow> string + Block" where
  "GetBlock bo cd bhash db = (case bolt_Get bo db blockBucket bhash of
       None \<Rightarrow> Inl ''the block is not existed''
     | Some e \<Rightarrow> Inr (DecodeB cd e))"

definition GetNewestBlockHash :: "'db bolt \<Rightarrow> 'db \<Rightarrow> string + bytes" where
  "GetNewestBlockHash bo db = (case bolt_Get bo db newestBlockHashBucket (bytes_of_string ''OnlyNewestBlock'') of
       None \<Rightarrow> Inl ''cannot find the newest block hash''
     | Some h \<Rightarrow> Inr h)"

section \<open>What is relied on\<close>

text \<open>Documented behaviour of bolt: a blank key or one over 32768 bytes is an error, any other write
  succeeds (values stay below the 2 GiB limit), a read returns the last value written under the bucket
  and key.\<close>

definition good_key :: "bytes \<Rightarrow> bool" where
  "good_key k \<longleftrightarrow> k \<noteq> [] \<and> length k \<le> 32768"

definition bolt_laws :: "'db bolt \<Rightarrow> bool" where
  "bolt_laws bo \<longleftrightarrow>
     (\<forall>db bucket k v. if good_key k
        then (\<exists>db'. bolt_Put bo db bucket k v = Inr db' \<and>
               (\<forall>b' k'. bolt_Get bo db' b' k' = (if b' = bucket \<and> k' = k then Some v else bolt_Get bo db b' k')))
        else (\<exists>e. bolt_Put bo db bucket k v = Inl e))"

text \<open>gob decodes what it encoded, for the block at hand and its header.\<close>

definition codec_laws :: "codec \<Rightarrow> Block \<Rightarrow> bool" where
  "codec_laws cd b \<longleftrightarrow> DecodeB cd (Encode_B cd b) = b \<and> DecodeBH cd (Encode_BH cd (Header b)) = Header b"

lemma put_or_panic_good:
  assumes "bolt_laws bo" "good_key k"
  obtains db' where "put_or_panic bo bucket k v db = Some db'"
    "\<And>b' k'. bolt_Get bo db' b' k' = (if b' = bucket \<and> k' = k then Some v else bolt_Get bo db b' k')"
proof -
  obtain db' where "bolt_Put bo db bucket k v = Inr db'"
      "\<forall>b' k'. bolt_Get bo db' b' k' = (if b' = bucket \<and> k' = k then Some v else bolt_Get bo db b' k')"
    using assms unfolding bolt_laws_def by (metis (no_types, lifting))
  then show ?thesis
    using that by (simp add: put_or_panic_def)
qed

lemma put_or_panic_bad: "bolt_laws bo \<Longrightarrow> \<not> good_key k \<Longrightarrow> put_or_panic bo bucket k v db = None"
  unfolding bolt_laws_def put_or_panic_def by (metis (no_types, lifting) old.sum.simps(5))

lemma good_newest: "good_key (bytes_of_string ''OnlyNewestBlock'')"
  by (simp add: good_key_def bytes_of_string_def)

lemmas bucket_names = blockBucket_def blockHeaderBucket_def newestBlockHashBucket_def contractResBucket_def

lemma AddBlock_store_total:
  assumes "bolt_laws bo" "good_key (Hash b)"
  shows "\<exists>db'. AddBlock_store bo cd b db = Some db'"
proof -
  have "\<exists>db'. put_or_panic bo bu (Hash b) v d = Some db'" for bu v d
    using put_or_panic_good [OF assms, of bu v d] by blast
  moreover have "\<exists>db'. put_or_panic bo newestBlockHashBucket (bytes_of_string ''OnlyNewestBlock'') v d = Some db'" for v d
    using put_or_panic_good [OF assms(1) good_newest, of newestBlockHashBucket v d] by blast
  ultimately show ?thesis
    unfolding AddBlock_store_def AddBlockHeader_def UpdateNewestBlock_def by (metis Option.bind.bind_lunit)
qed

text \<open>a stored block can be read back. With a database and codecs that keep their contracts, storing a
  block with a non-empty hash succeeds; afterwards the block, its header and the newest hash are the
  ones stored, and every other block, header and contract result is unchanged.\<close>
theorem stored_block_is_found:
  assumes bo: "bolt_laws bo" and cd: "codec_laws cd b" and h: "good_key (Hash b)"
  shows "\<exists>db'. AddBlock_store bo cd b db = Some db' \<and> GetBlock bo cd (Hash b) db' = Inr b \<and>
    GetBlockHeader bo cd (Hash b) db' = Inr (Header b) \<and> GetNewestBlockHash bo db' = Inr (Hash b) \<and>
    (\<forall>k. k \<noteq> Hash b \<longrightarrow> GetBlock bo cd k db' = GetBlock bo cd k db \<and> GetBlockHeader bo cd k db' = GetBlockHeader bo cd k db) \<and>
    (\<forall>u. GetContractRes bo u db' = GetContractRes bo u db)"
proof -
  obtain db1 where 1: "put_or_panic bo blockBucket (Hash b) (Encode_B cd b) db = Some db1"
    "\<And>b' k'. bolt_Get bo db1 b' k' = (if b' = blockBucket \<and> k' = Hash b then Some (Encode_B cd b) else bolt_Get bo db b' k')"
    using put_or_panic_good [OF bo h, of blockBucket "Encode_B cd b" db] by blast
  obtain db2 where 2: "put_or_panic bo blockHeaderBucket (Hash b) (Encode_BH cd (Header b)) db1 = Some db2"
    "\<And>b' k'. bolt_Get bo db2 b' k' = (if b' = blockHeaderBucket \<and> k' = Hash b then Some (Encode_BH cd (Header b)) else bolt_Get bo db1 b' k')"
    using put_or_panic_good [OF bo h, of blockHeaderBucket "Encode_BH cd (Header b)" db1] by blast
  obtain db3 where 3: "put_or_panic bo newestBlockHashBucket (bytes_of_string ''OnlyNewestBlock'') (Hash b) db2 = Some db3"
    "\<And>b' k'. bolt_Get bo db3 b' k' = (if b' = newestBlockHashBucket \<and> k' = bytes_of_string ''OnlyNewestBlock'' then Some (Hash b) else bolt_Get bo db2 b' k')"
    using put_or_panic_good [OF bo good_newest, of newestBlockHashBucket "Hash b" db2] by blast
  have "AddBlock_store bo cd b db = Some db3"
    using 1(1) 2(1) 3(1) by (simp add: AddBlock_store_def AddBlockHeader_def UpdateNewestBlock_def)
  moreover have "DecodeB cd (Encode_B cd b) = b" "DecodeBH cd (Encode_BH cd (Header b)) = Header b"
    using cd by (simp_all add: codec_laws_def)
  ultimately show ?thesis
    by (simp add: GetBlock_def GetBlockHeader_def GetNewestBlockHash_def GetContractRes_def 1(2) 2(2) 3(2) bucket_names)
qed

text \<open>A concrete database: a map from buckets and keys.\<close>

definition map_bolt :: "(string \<times> bytes \<rightharpoonup> bytes) bolt" where
  "map_bolt = \<lparr> bolt_Put = (\<lambda>db bu k v. if good_key k then Inr (db((bu, k) \<mapsto> v)) else Inl ''key required''),
     bolt_Get = (\<lambda>db bu k. db (bu, k)) \<rparr>"

lemma map_bolt_laws: "bolt_laws map_bolt"
  by (auto simp: bolt_laws_def map_bolt_def)

definition example_block :: Block where
  "example_block = \<lparr> Header = zeroBlockHeader\<lparr> Number := 4 \<rparr>, Body = [], Hash = [1, 2] \<rparr>"

definition example_codec :: codec where
  "example_codec = \<lparr> Encode_B = (\<lambda>b. [1]), DecodeB = (\<lambda>e. if e = [1] then example_block else NewBlock zeroBlockHeader []),
     Encode_BH = (\<lambda>h. [2]), DecodeBH = (\<lambda>e. if e = [2] then Header example_block else zeroBlockHeader) \<rparr>"

theorem stored_block_is_found_witness:
  "\<exists>db'. AddBlock_store map_bolt example_codec example_block Map.empty = Some db' \<and>
     GetBlock map_bolt example_codec [1, 2] db' = Inr example_block \<and> GetNewestBlockHash map_bolt db' = Inr [1, 2]"
proof -
  have "codec_laws example_codec example_block" "good_key (Hash example_block)" "Hash example_block = [1, 2]"
    by (simp_all add: codec_laws_def example_codec_def example_block_def good_key_def)
  then show ?thesis
    using stored_block_is_found [OF map_bolt_laws, of example_codec example_block Map.empty] by auto
qed

text \<open>A contract result without an id stops the node. Storing the result of a contract call
  whose transaction has an empty UUID panics, because the id is the database key; with a non-empty id
  of at most 32768 bytes the result is stored and read back.\<close>
theorem contract_result_needs_uuid:
  assumes bo: "bolt_laws bo"
  shows "AddContractRes bo [] res db = None \<and>
    (uuid \<noteq> [] \<and> length uuid \<le> 32768 \<longrightarrow>
       (\<exists>db'. AddContractRes bo uuid res db = Some db' \<and> GetContractRes bo uuid db' = Inr res))"
proof -
  have "AddContractRes bo [] res db = None"
    using put_or_panic_bad [OF bo] by (simp add: AddContractRes_def good_key_def bytes_of_string_def)
  moreover have "\<exists>db'. AddContractRes bo uuid res db = Some db' \<and> GetContractRes bo uuid db' = Inr res"
    if "uuid \<noteq> []" "length uuid \<le> 32768"
  proof -
    have "good_key (bytes_of_string uuid)"
      using that by (simp add: good_key_def bytes_of_string_def)
    from put_or_panic_good [OF bo this, of contractResBucket res db]
    obtain db' where "put_or_panic bo contractResBucket (bytes_of_string uuid) res db = Some db'"
      "\<And>b' k'. bolt_Get bo db' b' k' = (if b' = contractResBucket \<and> k' = bytes_of_string uuid then Some res else bolt_Get bo db b' k')"
      by blast
    then show ?thesis
      by (simp add: AddContractRes_def GetContractRes_def)
  qed
  ultimately show ?thesis
    by blast
qed

theorem contract_result_needs_uuid_witness:
  "AddContractRes map_bolt [] [7] Map.empty = None \<and> (\<exists>db'. AddContractRes map_bolt ''u'' [7] Map.empty = Some db' \<and> GetContractRes map_bolt ''u'' db' = Inr [7])"
  using contract_result_needs_uuid [OF map_bolt_laws, of "[7]" Map.empty "''u''"] by simp

end
