(* ===== verification/Chain.thy ===== *)
theory Chain
  imports TxPool Finalisation BlockStore
begin

text \<open>
  The blockchain of a node, \<open>chain/blockchain.go\<close>: the account balances the nodes of a shard keep per
  token, the execution of a block's transactions on the state database, block production and
  block insertion.

  The EVM (\<open>vm.ApplyMessage\<close>), the Merkle tries (roots, commits, existence of a root), the block hash
  and the clock are parameters, collected in \<open>ChainEnv\<close>. Console output is left out.
\<close>

section \<open>Data\<close>

record 'db BlockChain =
  CC_ShardID :: uint64
  CC_BlockSize :: uint64
  CC_ShardNum :: nat
  CurrentBlock :: Block
  Store :: 'db
  Txpool :: TxPool
  BalanceMap :: "string \<rightharpoonup> (Address \<rightharpoonup> int)"

text \<open>The process-wide variables of \<open>global\<close>, \<open>global2\<close> and \<open>global3\<close>.\<close>

record Globals =
  g_vm :: VMGlobals
  PartitionMap :: "Address \<rightharpoonup> uint64"
  GlobalLockMap :: "string set"
  g_NodeID :: uint64
  NodeAccount :: string

record ExecutionResult =
  UsedGas :: uint64
  RefundedGas :: uint64
  ResErr :: "string option"
  ReturnData :: bytes
  ContractAddr :: common_Address

record EvmMessage =
  msg_Nonce :: uint64
  msg_GasLimit :: uint64
  msg_GasPrice :: int
  msg_GasFeeCap :: int
  msg_GasTipCap :: int
  msg_To :: common_Address
  msg_From :: common_Address
  msg_Value :: int
  msg_Data :: bytes

record TxInfo =
  ti_TxHash :: bytes
  ti_IsContract :: bool
  ti_GasUsed :: uint64
  ti_GasPrice :: uint64
  ti_GasLimit :: uint64
  ti_IsSuccess :: bool
  ti_ExecuteTime :: go_time
  ti_From :: common_Address
  ti_To :: common_Address
  ti_Input :: bytes
  ti_Value :: int
  ti_UUID :: string
  ti_Res :: bytes

datatype chain_msg =
    MTxInfo TxInfo
  | MContractCreateSuccess uint64 string
  | MContractExecuteSuccess uint64 string
  | MExeLogOrRollback string ExeLogOrRollback

text \<open>The parameters. \<open>ApplyMessage\<close> runs a message on a state with the given gas pool and answers the
  result or an error, the state and the gas pool afterwards; \<open>senv r\<close> is the state environment whose
  reader reads the trie of root \<open>r\<close>; \<open>CommitRoot\<close> is the root \<open>Commit\<close> returns.\<close>

record 'db ChainEnv =
  ce_bolt :: "'db bolt"
  ce_codec :: codec
  ApplyMessage :: "EvmMessage \<Rightarrow> uint64 \<Rightarrow> string \<Rightarrow> BlockHeader \<Rightarrow> StateDB \<Rightarrow> (string + ExecutionResult) \<times> StateDB \<times> uint64"
  senv :: "common_Hash \<Rightarrow> StateEnv"
  CommitRoot :: "StateDB \<Rightarrow> common_Hash"
  trie_exists :: "common_Hash \<Rightarrow> bool"
  TxTreeRoot :: "Transaction list \<Rightarrow> bytes"
  HeaderHash :: "BlockHeader \<Rightarrow> bytes"
  now :: go_time

section \<open>Placement and balances\<close>

definition Update_PartitionMap :: "Address \<Rightarrow> uint64 \<Rightarrow> Globals \<Rightarrow> Globals" where
  "Update_PartitionMap key val g = g\<lparr> PartitionMap := (PartitionMap g)(key \<mapsto> val) \<rparr>"

definition Get_PartitionMap :: "nat \<Rightarrow> Address \<Rightarrow> Globals \<Rightarrow> uint64 panics" where
  "Get_PartitionMap ShardNum key g = (case PartitionMap g key of
       None \<Rightarrow> do { n \<leftarrow> Addr2Shard ShardNum key; Some (of_nat n) }
     | Some s \<Rightarrow> Some s)"

definition SendTx2Pool :: "(nat \<Rightarrow> go_time) \<Rightarrow> Transaction list \<Rightarrow> 'db BlockChain \<Rightarrow> 'db BlockChain" where
  "SendTx2Pool clock txs bc = bc\<lparr> Txpool := AddTxs2Pool clock 0 txs (Txpool bc) \<rparr>"

text \<open>\<open>changeAccBalance\<close>: an account without an entry starts from the initial balance; a token without a
  map is a write to a nil map.\<close>

definition changeAccBalance ::
  "Address \<Rightarrow> int \<Rightarrow> bool \<Rightarrow> string \<Rightarrow> (string \<rightharpoonup> (Address \<rightharpoonup> int)) \<Rightarrow> (string \<rightharpoonup> (Address \<rightharpoonup> int)) panics" where
  "changeAccBalance addr val deal_type tx_type bm = (case bm tx_type of
       None \<Rightarrow> panic
     | Some m \<Rightarrow>
         (let b = (case m addr of None \<Rightarrow> Init_Balance | Some b \<Rightarrow> b) in
          Some (bm(tx_type \<mapsto> m(addr \<mapsto> (if deal_type then b + val else b - val))))))"

definition dealAccountBalance :: "Transaction \<Rightarrow> (string \<rightharpoonup> (Address \<rightharpoonup> int)) \<Rightarrow> (string \<rightharpoonup> (Address \<rightharpoonup> int)) panics" where
  "dealAccountBalance tx bm =
     (if \<not> ShouldHandleInBlock tx then Some bm
      else if Sender tx = Recipient tx
      then (if IncreaseOrDecrease tx = 2 then changeAccBalance (Sender tx) (Value tx) True (Txtype tx) bm
            else if IncreaseOrDecrease tx = 1 then changeAccBalance (Sender tx) (Value tx) False (Txtype tx) bm
            else Some bm)
      else do {
        bm1 \<leftarrow> changeAccBalance (Sender tx) (Value tx) False (Txtype tx) bm;
        changeAccBalance (Recipient tx) (Value tx) True (Txtype tx) bm1 })"

definition CanTransfer :: "StateEnv \<Rightarrow> common_Address \<Rightarrow> uint256 \<Rightarrow> StateDB \<Rightarrow> bool \<times> StateDB" where
  "CanTransfer env a amount s = (let (b, s1) = GetBalance env a s in (amount \<le> b, s1))"

definition Transfer :: "StateEnv \<Rightarrow> common_Address \<Rightarrow> common_Address \<Rightarrow> uint256 \<Rightarrow> StateDB \<Rightarrow> StateDB" where
  "Transfer env sender recipient amount s = AddBalance env recipient amount (SubBalance env sender amount s)"

section \<open>Executing a transaction\<close>

text \<open>\<open>ApplyTransactionWithEVM\<close>: an error of the message or of its result is an error.\<close>

definition ApplyTransactionWithEVM ::
  "'db ChainEnv \<Rightarrow> EvmMessage \<Rightarrow> uint64 \<Rightarrow> string \<Rightarrow> BlockHeader \<Rightarrow> StateDB \<Rightarrow> (string + ExecutionResult) \<times> StateDB \<times> uint64" where
  "ApplyTransactionWithEVM ce msg gp uuid bh s =
     (case ApplyMessage ce msg gp uuid bh s of
        (Inl e, s1, gp1) \<Rightarrow> (Inl e, s1, gp1)
      | (Inr r, s1, gp1) \<Rightarrow>
          (case ResErr r of
             Some e \<Rightarrow> if e \<noteq> [] then (Inl e, s1, gp1) else (Inr r, s1, gp1)
           | None \<Rightarrow> (Inr r, s1, gp1)))"

definition tx_message :: "Transaction \<Rightarrow> EvmMessage" where
  "tx_message tx = \<lparr> msg_Nonce = Nonce tx, msg_GasLimit = Gas tx, msg_GasPrice = GasPrice tx, msg_GasFeeCap = GasPrice tx,
     msg_GasTipCap = GasPrice tx, msg_To = To tx, msg_From = From tx, msg_Value = Value tx, msg_Data = Data tx \<rparr>"

text \<open>The conversion of a slice to a hash panics when it is too short; \<open>hex.EncodeToString\<close>.\<close>

definition Hash_of_slice :: "bytes \<Rightarrow> common_Hash panics" where
  "Hash_of_slice bs = (if length bs < 32 then panic else Some (word_of_nat (be_nat (take 32 bs))))"

definition hex_char :: "nat \<Rightarrow> char" where
  "hex_char n = char_of (if n < 10 then 48 + n else 87 + n)"

definition hex_EncodeToString :: "bytes \<Rightarrow> string" where
  "hex_EncodeToString bs = concat (map (\<lambda>b. [hex_char (unat b div 16), hex_char (unat b mod 16)]) bs)"

text \<open>The wrapped journal entries from the snapshot on, taken from a copy of the journal, whose
  entries lose their shard. A revision that is not found is an index out of range.\<close>

definition journal_log :: "nat \<Rightarrow> journal \<Rightarrow> Wrapper list panics" where
  "journal_log snap j0 = (let j = Copy_journal j0; rs = ValidRevisions j;
       idx = Search (length rs) (\<lambda>i. snap \<le> RevId (rs ! i)) in
     if idx < length rs then Some (map wrap (drop (JournalIndex (rs ! idx)) (Entries j))) else panic)"

definition contract_result :: "string + ExecutionResult \<Rightarrow> bytes" where
  "contract_result res = (case res of
       Inl e \<Rightarrow> bytes_of_string e
     | Inr r \<Rightarrow> if ContractAddr r \<noteq> 0 then address_bytes (ContractAddr r) else ReturnData r)"

definition tx_info :: "go_time \<Rightarrow> Transaction \<Rightarrow> string + ExecutionResult \<Rightarrow> TxInfo" where
  "tx_info t tx res = \<lparr> ti_TxHash = TxHash tx, ti_IsContract = True,
     ti_GasUsed = (case res of Inl e \<Rightarrow> 0 | Inr r \<Rightarrow> UsedGas r), ti_GasPrice = of_int \<bar>GasPrice tx\<bar>, ti_GasLimit = Gas tx,
     ti_IsSuccess = (case res of Inl e \<Rightarrow> False | Inr r \<Rightarrow> ResErr r = None), ti_ExecuteTime = t,
     ti_From = From tx, ti_To = To tx, ti_Input = Data tx, ti_Value = Value tx, ti_UUID = UUID tx,
     ti_Res = contract_result res \<rparr>"

text \<open>The messages about a broker contract; the code reads the result without a nil check.\<close>

definition broker_contract_msgs :: "uint64 \<Rightarrow> Transaction \<Rightarrow> string + ExecutionResult \<Rightarrow> chain_msg list panics" where
  "broker_contract_msgs shard tx res =
     (if \<not> IsBrokerContract tx then Some []
      else case res of
        Inl e \<Rightarrow> panic
      | Inr r \<Rightarrow>
          if To tx = 0 then Some [MContractCreateSuccess shard (hex_EncodeToString (address_bytes (ContractAddr r)))]
          else if ResErr r = None then Some [MContractExecuteSuccess shard (hex_EncodeToString (address_bytes (From tx)))]
          else Some [])"

text \<open>The contract branch of \<open>ExeTx\<close> on node 0: run the EVM between a snapshot and, on an error, a
  revert; record the result under the transaction's UUID; on success attach the journal to the
  transaction for the other nodes.\<close>

definition ExeTx_contract ::
  "'db ChainEnv \<Rightarrow> StateEnv \<Rightarrow> BlockHeader \<Rightarrow> nat \<Rightarrow> Transaction \<Rightarrow> uint64 \<Rightarrow> 'db BlockChain \<Rightarrow> StateDB
     \<Rightarrow> (Transaction \<times> chain_msg list \<times> uint64 \<times> 'db BlockChain \<times> StateDB) panics" where
  "ExeTx_contract ce env bh idx tx gp bc s = do {
     let (snap, s1) = Snapshot s;
     h \<leftarrow> Hash_of_slice (TxHash tx);
     let s2 = SetTxContext h (of_nat idx) s1;
     let (res, s3, gp1) = ApplyTransactionWithEVM ce (tx_message tx) gp (UUID tx) bh s2;
     db1 \<leftarrow> AddContractRes (ce_bolt ce) (UUID tx) (contract_result res) (Store bc);
     (tx1, out, s4) \<leftarrow> (case res of
         Inl e \<Rightarrow> do {
           (ms, s4) \<leftarrow> RevertToSnapshot env snap s3;
           Some (tx\<lparr> Log := [] \<rparr>, map (\<lambda>(node, m). MExeLogOrRollback node m) ms, s4) }
       | Inr r \<Rightarrow>
           if Entries (jrnl s3) \<noteq> []
           then do { w \<leftarrow> journal_log snap (jrnl s3); Some (tx\<lparr> Log := w \<rparr>, [], s3) }
           else Some (tx, [], s3));
     ms2 \<leftarrow> broker_contract_msgs (CC_ShardID bc) tx res;
     Some (tx1, out @ MTxInfo (tx_info (now ce) tx res) # ms2, gp1, bc\<lparr> Store := db1 \<rparr>, s4) }"

text \<open>The transfers of \<open>ExeTx\<close>: brokers' rebalancing first, then the sender's and the recipient's side,
  each only in its shard (or for a broker transaction). The recipient's balance is read twice for
  the log, which creates the account.\<close>

definition address_of :: "Address \<Rightarrow> common_Address panics" where
  "address_of a = Address_of_slice (hex_DecodeString a)"

definition debit :: "StateEnv \<Rightarrow> Address \<Rightarrow> int \<Rightarrow> StateDB \<Rightarrow> StateDB panics" where
  "debit env a v s = do { x \<leftarrow> address_of a; Some (SubBalance env x (word_of_int v) s) }"

definition credit :: "StateEnv \<Rightarrow> Address \<Rightarrow> int \<Rightarrow> StateDB \<Rightarrow> StateDB panics" where
  "credit env a v s = do { x \<leftarrow> address_of a; Some (AddBalance env x (word_of_int v) s) }"

definition ExeTx_transfer :: "StateEnv \<Rightarrow> nat \<Rightarrow> uint64 \<Rightarrow> Globals \<Rightarrow> Transaction \<Rightarrow> StateDB \<Rightarrow> StateDB panics" where
  "ExeTx_transfer env ShardNum shard g tx s =
     (if IsAllocatedSender tx \<or> IsAllocatedRecipent tx
      then do {
        s1 \<leftarrow> (if IsAllocatedSender tx then debit env (Sender tx) (Value tx) s else Some s);
        if IsAllocatedRecipent tx then credit env (Recipient tx) (Value tx) s1 else Some s1 }
      else do {
        here \<leftarrow> (if Relayed tx then Some False
                 else do { p \<leftarrow> Get_PartitionMap ShardNum (Sender tx) g; Some (p = shard \<or> HasBroker tx) });
        s1 \<leftarrow> (if here \<and> \<not> Isbrokertx2 tx
               then do { s0 \<leftarrow> debit env (Sender tx) (Value tx) s; debit env (Sender tx) (Fee tx) s0 }
               else Some s);
        q \<leftarrow> Get_PartitionMap ShardNum (Recipient tx) g;
        if (q = shard \<or> HasBroker tx) \<and> \<not> Isbrokertx1 tx
        then do {
          x \<leftarrow> address_of (Recipient tx);
          let s2 = AddBalance env x (word_of_int (Value tx)) (snd (GetBalance env x s1));
          Some (snd (GetBalance env x s2)) }
        else Some s1 })"

definition ExeTx ::
  "'db ChainEnv \<Rightarrow> StateEnv \<Rightarrow> BlockHeader \<Rightarrow> nat \<Rightarrow> Globals \<Rightarrow> Transaction \<Rightarrow> uint64 \<Rightarrow> 'db BlockChain \<Rightarrow> StateDB
     \<Rightarrow> (Transaction \<times> chain_msg list \<times> uint64 \<times> 'db BlockChain \<times> StateDB) panics" where
  "ExeTx ce env bh idx g tx gp bc s =
     (if IsContract tx \<and> g_NodeID g = 0 then ExeTx_contract ce env bh idx tx gp bc s
      else if IsContract tx \<and> Log tx \<noteq> []
      then do { s1 \<leftarrow> replay (Execute env) (map OriginalObj (Log tx)) s; Some (tx, [], gp, bc, s1) }
      else if IsContract tx then Some (tx, [], gp, bc, s)
      else do { s1 \<leftarrow> ExeTx_transfer env (CC_ShardNum bc) (CC_ShardID bc) g tx s; Some (tx, [], gp, bc, s1) })"

section \<open>Executing a block\<close>

text \<open>One transaction under its two account locks. The code spins while another thread holds one of
  them; with nobody left to release it the loop does not end, which is \<open>None\<close> here.\<close>

definition locked_tx ::
  "'db ChainEnv \<Rightarrow> StateEnv \<Rightarrow> BlockHeader \<Rightarrow> nat \<Rightarrow> Transaction \<Rightarrow> uint64 \<times> Globals \<times> 'db BlockChain \<times> StateDB
     \<Rightarrow> (Transaction \<times> chain_msg list \<times> uint64 \<times> Globals \<times> 'db BlockChain \<times> StateDB) panics" where
  "locked_tx ce env bh idx tx = (\<lambda>(gp, g, bc, s). do {
     let FromStr = hex_EncodeToString (address_bytes (From tx));
     let ToStr = hex_EncodeToString (address_bytes (To tx));
     guard_panic (FromStr \<notin> GlobalLockMap g \<and> ToStr \<notin> GlobalLockMap g);
     let g1 = g\<lparr> GlobalLockMap := insert FromStr (insert ToStr (GlobalLockMap g)) \<rparr>;
     bm \<leftarrow> dealAccountBalance tx (BalanceMap bc);
     (tx1, out, gp1, bc1, s1) \<leftarrow> ExeTx ce env bh idx g1 tx gp (bc\<lparr> BalanceMap := bm \<rparr>) s;
     Some (tx1, out, gp1, g1\<lparr> GlobalLockMap := GlobalLockMap g1 - {FromStr, ToStr} \<rparr>, bc1, s1) })"

fun exe_txs ::
  "'db ChainEnv \<Rightarrow> StateEnv \<Rightarrow> BlockHeader \<Rightarrow> nat \<Rightarrow> Transaction list \<Rightarrow> uint64 \<times> Globals \<times> 'db BlockChain \<times> StateDB
     \<Rightarrow> (Transaction list \<times> chain_msg list \<times> Globals \<times> 'db BlockChain \<times> StateDB) panics" where
  "exe_txs ce env bh idx [] (gp, g, bc, s) = Some ([], [], g, bc, s)"
| "exe_txs ce env bh idx (tx # txs) (gp, g, bc, s) = do {
     (tx1, out, gp1, g1, bc1, s1) \<leftarrow> locked_tx ce env bh idx tx (gp, g, bc, s);
     (txs1, outs, r) \<leftarrow> exe_txs ce env bh (idx + 1) txs (gp1, g1, bc1, s1);
     Some (tx1 # txs1, out @ outs, r) }"

definition GetUpdateStatusTrie ::
  "'db ChainEnv \<Rightarrow> Transaction list \<Rightarrow> BlockHeader \<Rightarrow> Globals \<Rightarrow> 'db BlockChain
     \<Rightarrow> (Transaction list \<times> chain_msg list \<times> Globals \<times> 'db BlockChain) panics" where
  "GetUpdateStatusTrie ce txs bh g bc = do {
     let (s, sn) = New (GlobalStateDB (g_vm g));
     let env = senv ce (GRoot (g_vm g));
     (txs1, out, g1, bc1, s1) \<leftarrow> exe_txs ce env bh 0 txs (GasLimit bh, g\<lparr> g_vm := (g_vm g)\<lparr> GlobalStateDB := Some s \<rparr> \<rparr>, bc, s);
     Some (txs1, out,
       (if sn = ''new'' then g1\<lparr> g_vm := \<lparr> GlobalStateDB = None, GRoot = CommitRoot ce s1 \<rparr> \<rparr>
        else g1\<lparr> g_vm := (g_vm g1)\<lparr> GlobalStateDB := Some s1 \<rparr> \<rparr>),
       bc1) }"

definition GenerateBlock ::
  "'db ChainEnv \<Rightarrow> Globals \<Rightarrow> 'db BlockChain \<Rightarrow> (Block \<times> chain_msg list \<times> Globals \<times> 'db BlockChain) panics" where
  "GenerateBlock ce g bc = do {
     let (txs, pool) = PackTxs (CC_BlockSize bc) (Txpool bc);
     coinbase \<leftarrow> Address_of_slice (hex_DecodeString (NodeAccount g));
     let bh = zeroBlockHeader\<lparr> ParentBlockHash := Hash (CurrentBlock bc), Number := Number (Header (CurrentBlock bc)) + 1,
                BH_Time := now ce, GasLimit := 1000000000, Coinbase := coinbase \<rparr>;
     (txs1, out, g1, bc1) \<leftarrow> GetUpdateStatusTrie ce txs bh g (bc\<lparr> Txpool := pool \<rparr>);
     let root = GRoot (g_vm g1);
     let bh1 = bh\<lparr> StateRoot := hash_bytes root, Root := root, TxRoot := TxTreeRoot ce txs1, Miner := 0 \<rparr>;
     let b = (NewBlock bh1 txs1)\<lparr> Hash := HeaderHash ce bh1 \<rparr>;
     Some (b, out, g1\<lparr> g_vm := (g_vm g1)\<lparr> GlobalStateDB := None \<rparr> \<rparr>, bc1) }"

text \<open>\<open>AddBlock\<close> re-executes the block only when the trie of the node's own root is missing.\<close>

definition AddBlock ::
  "'db ChainEnv \<Rightarrow> Block \<Rightarrow> Globals \<Rightarrow> 'db BlockChain \<Rightarrow> (chain_msg list \<times> Globals \<times> 'db BlockChain) panics" where
  "AddBlock ce b g bc = do {
     (b1, out, g1, bc1) \<leftarrow> (if trie_exists ce (GRoot (g_vm g)) then Some (b, [], g, bc)
        else do {
          (txs1, out, g1, bc1) \<leftarrow> GetUpdateStatusTrie ce (Body b) (Header b) g bc;
          Some (b\<lparr> Body := txs1 \<rparr>, out, g1, bc1) });
     db \<leftarrow> AddBlock_store (ce_bolt ce) (ce_codec ce) b1 (Store bc1);
     Some (out, g1, bc1\<lparr> CurrentBlock := b1, Store := db \<rparr>) }"

definition NewGenisisBlock :: "'db ChainEnv \<Rightarrow> common_Hash \<Rightarrow> Globals \<Rightarrow> Block \<times> Globals" where
  "NewGenisisBlock ce emptyRoot g =
     (let bh = zeroBlockHeader\<lparr> Number := 0, StateRoot := hash_bytes emptyRoot, TxRoot := TxTreeRoot ce [] \<rparr>
      in ((NewBlock bh [])\<lparr> Hash := HeaderHash ce bh \<rparr>, g\<lparr> g_vm := (g_vm g)\<lparr> GRoot := emptyRoot \<rparr> \<rparr>))"

definition AddGenisisBlock :: "'db ChainEnv \<Rightarrow> Block \<Rightarrow> 'db BlockChain \<Rightarrow> 'db BlockChain panics" where
  "AddGenisisBlock ce gb bc = do {
     db \<leftarrow> AddBlock_store (ce_bolt ce) (ce_codec ce) gb (Store bc);
     case GetNewestBlockHash (ce_bolt ce) db of
       Inl e \<Rightarrow> panic
     | Inr h \<Rightarrow> (case GetBlock (ce_bolt ce) (ce_codec ce) h db of
         Inl e \<Rightarrow> panic
       | Inr curb \<Rightarrow> Some (bc\<lparr> CurrentBlock := curb, Store := db \<rparr>)) }"

section \<open>Block hashes for the EVM\<close>

definition GetHeader :: "'db bolt \<Rightarrow> codec \<Rightarrow> 'db \<Rightarrow> common_Hash \<Rightarrow> BlockHeader option" where
  "GetHeader bo cd db h = (case GetBlock bo cd (hash_bytes h) db of Inl e \<Rightarrow> None | Inr b \<Rightarrow> Some (Header b))"

text \<open>The loop of \<open>GetHashFn\<close>; \<open>None\<close> when it does not end.\<close>

partial_function (option) hash_loop :: "(common_Hash \<Rightarrow> BlockHeader option) \<Rightarrow> uint64 \<Rightarrow> common_Hash \<Rightarrow> common_Hash option" where
  "hash_loop hdr n known = (case hdr known of
       None \<Rightarrow> Some 0
     | Some h \<Rightarrow> if n = Number h - 1 then Some (ParentHash h) else hash_loop hdr n (ParentHash h))"

definition GetHashFn :: "BlockHeader \<Rightarrow> (common_Hash \<Rightarrow> BlockHeader option) \<Rightarrow> uint64 \<Rightarrow> common_Hash option" where
  "GetHashFn ref hdr n = (if Number ref \<le> n then Some 0 else hash_loop hdr n (ParentHash ref))"

text \<open>\<open>FetchAccounts2\<close> reads balances from a fresh state on the current root.\<close>

fun fetch_balances :: "StateEnv \<Rightarrow> Address list \<Rightarrow> StateDB \<Rightarrow> AccountState list panics" where
  "fetch_balances env [] s = Some []"
| "fetch_balances env (a # as) s = do {
     x \<leftarrow> address_of a;
     let (b, s1) = GetBalance env x s;
     rest \<leftarrow> fetch_balances env as s1;
     Some (\<lparr> AcAddress = [], AS_Nonce = 0, Balance = (if b = 0 then Init_Balance else uint b), StorageRoot = [], CodeHash = [] \<rparr> # rest) }"

definition FetchAccounts2 ::
  "'db ChainEnv \<Rightarrow> Address list \<Rightarrow> Globals \<Rightarrow> 'db BlockChain \<Rightarrow> (AccountState list \<times> nat \<times> nat \<times> bytes \<times> bytes) panics" where
  "FetchAccounts2 ce addrs g bc = do {
     res \<leftarrow> fetch_balances (senv ce (GRoot (g_vm g))) addrs New2;
     Some (res, unat (CC_ShardID bc), unat (Number (Header (CurrentBlock bc))), Hash (CurrentBlock bc),
       StateRoot (Header (CurrentBlock bc))) }"

section \<open>Token balances\<close>

definition eff :: "(string \<rightharpoonup> (Address \<rightharpoonup> int)) \<Rightarrow> string \<Rightarrow> Address \<Rightarrow> int" where
  "eff bm ty a = (case bm ty of None \<Rightarrow> 0 | Some m \<Rightarrow> (case m a of None \<Rightarrow> Init_Balance | Some b \<Rightarrow> b))"

text \<open>What a transaction does to a balance: nothing unless it is handled in the block, a mint or burn
  when sender and recipient are the same, a transfer otherwise.\<close>

definition delta :: "Transaction \<Rightarrow> string \<Rightarrow> Address \<Rightarrow> int" where
  "delta tx ty a =
     (if \<not> ShouldHandleInBlock tx \<or> ty \<noteq> Txtype tx then 0
      else if Sender tx = Recipient tx
      then (if a \<noteq> Sender tx then 0 else if IncreaseOrDecrease tx = 2 then Value tx
            else if IncreaseOrDecrease tx = 1 then - Value tx else 0)
      else (if a = Recipient tx then Value tx else 0) - (if a = Sender tx then Value tx else 0))"

definition minted :: "Transaction \<Rightarrow> string \<Rightarrow> int" where
  "minted tx ty =
     (if ShouldHandleInBlock tx \<and> ty = Txtype tx \<and> Sender tx = Recipient tx
      then (if IncreaseOrDecrease tx = 2 then Value tx else if IncreaseOrDecrease tx = 1 then - Value tx else 0)
      else 0)"

lemma changeAccBalance_spec:
  assumes "bm ty \<noteq> None"
  shows "\<exists>bm'. changeAccBalance a v up ty bm = Some bm' \<and> dom bm' = dom bm \<and>
    (\<forall>t x. eff bm' t x = eff bm t x + (if t = ty \<and> x = a then (if up then v else - v) else 0))"
  using assms by (auto simp: changeAccBalance_def eff_def Let_def split: option.split)

lemma changeAccBalance_missing: "bm ty = None \<Longrightarrow> changeAccBalance a v up ty bm = None"
  by (simp add: changeAccBalance_def)

lemma dealAccountBalance_spec:
  assumes "ShouldHandleInBlock tx \<longrightarrow> bm (Txtype tx) \<noteq> None"
  shows "\<exists>bm'. dealAccountBalance tx bm = Some bm' \<and> dom bm' = dom bm \<and> (\<forall>t x. eff bm' t x = eff bm t x + delta tx t x)"
proof (cases "ShouldHandleInBlock tx")
  case False
  then show ?thesis
    by (simp add: dealAccountBalance_def delta_def)
next
  case True
  then have some: "bm (Txtype tx) \<noteq> None"
    using assms by simp
  show ?thesis
  proof (cases "Sender tx = Recipient tx")
    case same: True
    obtain bp where bp: "changeAccBalance (Sender tx) (Value tx) True (Txtype tx) bm = Some bp" "dom bp = dom bm"
      "\<forall>t x. eff bp t x = eff bm t x + (if t = Txtype tx \<and> x = Sender tx then Value tx else 0)"
      using changeAccBalance_spec [where bm = bm and ty = "Txtype tx" and a = "Sender tx" and v = "Value tx" and up = True, OF some] by auto
    obtain bn where bn: "changeAccBalance (Sender tx) (Value tx) False (Txtype tx) bm = Some bn" "dom bn = dom bm"
      "\<forall>t x. eff bn t x = eff bm t x + (if t = Txtype tx \<and> x = Sender tx then - Value tx else 0)"
      using changeAccBalance_spec [where bm = bm and ty = "Txtype tx" and a = "Sender tx" and v = "Value tx" and up = False, OF some] by auto
    consider "IncreaseOrDecrease tx = 2" | "IncreaseOrDecrease tx = 1" | "IncreaseOrDecrease tx \<noteq> 2" "IncreaseOrDecrease tx \<noteq> 1"
      by blast
    then show ?thesis
      using True same bp bn by cases (auto simp: dealAccountBalance_def delta_def)
  next
    case False
    obtain b1 where b1: "changeAccBalance (Sender tx) (Value tx) False (Txtype tx) bm = Some b1" "dom b1 = dom bm"
      "\<forall>t x. eff b1 t x = eff bm t x + (if t = Txtype tx \<and> x = Sender tx then - Value tx else 0)"
      using changeAccBalance_spec [where bm = bm and ty = "Txtype tx" and a = "Sender tx" and v = "Value tx" and up = False, OF some] by auto
    have "b1 (Txtype tx) \<noteq> None"
      using b1(2) some by blast
    from changeAccBalance_spec [where bm = b1 and ty = "Txtype tx" and a = "Recipient tx" and v = "Value tx" and up = True, OF this]
    obtain b2 where b2: "changeAccBalance (Recipient tx) (Value tx) True (Txtype tx) b1 = Some b2" "dom b2 = dom b1"
      "\<forall>t x. eff b2 t x = eff b1 t x + (if t = Txtype tx \<and> x = Recipient tx then Value tx else 0)"
      by auto
    then show ?thesis
      using True False b1 by (auto simp: dealAccountBalance_def delta_def)
  qed
qed

lemma sum_delta:
  assumes "finite A" "ShouldHandleInBlock tx \<longrightarrow> Sender tx \<in> A \<and> Recipient tx \<in> A"
  shows "(\<Sum>a\<in>A. delta tx ty a) = minted tx ty"
proof (cases "ShouldHandleInBlock tx \<and> ty = Txtype tx")
  case False
  then show ?thesis
    by (auto simp: delta_def minted_def)
next
  case True
  show ?thesis
  proof (cases "Sender tx = Recipient tx")
    case False
    then have "(\<Sum>a\<in>A. delta tx ty a) = (\<Sum>a\<in>A. if a = Recipient tx then Value tx else 0) - (\<Sum>a\<in>A. if a = Sender tx then Value tx else 0)"
      using True by (simp add: delta_def sum_subtractf)
    then show ?thesis
      using True False assms by (simp add: minted_def)
  next
    case same: True
    have "(\<Sum>a\<in>A. delta tx ty a) = (\<Sum>a\<in>A. if a = Sender tx then minted tx ty else 0)"
      by (rule sum.cong) (use True same in \<open>auto simp: delta_def minted_def\<close>)
    then show ?thesis
      using True assms by simp
  qed
qed

section \<open>A block of transfers\<close>

definition good_address :: "Address \<Rightarrow> bool" where
  "good_address a \<longleftrightarrow> list_all isValidHexChar a \<and> 40 \<le> length a"

definition plain_tx :: "(string \<rightharpoonup> (Address \<rightharpoonup> int)) \<Rightarrow> Transaction \<Rightarrow> bool" where
  "plain_tx bm tx \<longleftrightarrow> \<not> IsContract tx \<and> good_address (Sender tx) \<and> good_address (Recipient tx) \<and>
     (ShouldHandleInBlock tx \<longrightarrow> Txtype tx \<in> dom bm)"

lemma good_address_of: "good_address a \<Longrightarrow> \<exists>x. address_of a = Some x"
  by (simp add: good_address_def address_of_def Address_of_slice_def hex_DecodeString_length
      not_less less_eq_div_iff_mult_less_eq)

lemma good_partition:
  assumes "good_address a" "0 < n"
  shows "\<exists>p. Get_PartitionMap n a g = Some p"
proof -
  have "list_all isValidHexChar (drop (length a - 8) a)"
    using assms(1) by (auto simp: good_address_def list_all_iff dest: in_set_dropD)
  then obtain sh where "Addr2Shard n a = Some sh"
    using assms Addr2Shard_defined_iff [of n a] by (auto simp: good_address_def)
  then show ?thesis
    by (cases "PartitionMap g a") (auto simp: Get_PartitionMap_def)
qed

lemma ExeTx_transfer_total:
  assumes "good_address (Sender tx)" "good_address (Recipient tx)" "0 < n"
  shows "\<exists>s1. ExeTx_transfer env n shard g tx s = Some s1"
proof -
  obtain x y where xy: "address_of (Sender tx) = Some x" "address_of (Recipient tx) = Some y"
    using assms good_address_of by meson
  obtain p q where pq: "Get_PartitionMap n (Sender tx) g = Some p" "Get_PartitionMap n (Recipient tx) g = Some q"
    using assms good_partition by meson
  show ?thesis
    by (simp add: ExeTx_transfer_def debit_def credit_def xy pq Let_def)
qed

lemma locked_tx_plain:
  assumes p: "plain_tx (BalanceMap bc) tx" and n: "0 < CC_ShardNum bc" and free: "GlobalLockMap g = {}"
  obtains g1 bc1 s1 where "locked_tx ce env bh idx tx (gp, g, bc, s) = Some (tx, [], gp, g1, bc1, s1)"
    "GlobalLockMap g1 = {}" "CC_ShardNum bc1 = CC_ShardNum bc" "dom (BalanceMap bc1) = dom (BalanceMap bc)"
    "\<forall>t x. eff (BalanceMap bc1) t x = eff (BalanceMap bc) t x + delta tx t x"
proof -
  have "ShouldHandleInBlock tx \<longrightarrow> BalanceMap bc (Txtype tx) \<noteq> None"
    using p unfolding plain_tx_def by blast
  from dealAccountBalance_spec [where bm = "BalanceMap bc" and tx = tx, OF this]
  obtain bm where bm: "dealAccountBalance tx (BalanceMap bc) = Some bm" "dom bm = dom (BalanceMap bc)"
    "\<forall>t x. eff bm t x = eff (BalanceMap bc) t x + delta tx t x"
    by blast
  let ?F = "hex_EncodeToString (address_bytes (From tx))" and ?T = "hex_EncodeToString (address_bytes (To tx))"
  let ?g1 = "g\<lparr> GlobalLockMap := insert ?F (insert ?T (GlobalLockMap g)) \<rparr>"
  obtain s1 where s1: "ExeTx_transfer env (CC_ShardNum bc) (CC_ShardID bc) ?g1 tx s = Some s1"
    using ExeTx_transfer_total [of tx "CC_ShardNum bc"] p n unfolding plain_tx_def by meson
  have "locked_tx ce env bh idx tx (gp, g, bc, s) = Some (tx, [], gp,
      ?g1\<lparr> GlobalLockMap := GlobalLockMap ?g1 - {?F, ?T} \<rparr>, bc\<lparr> BalanceMap := bm \<rparr>, s1)"
    using p s1 bm(1) free by (simp add: locked_tx_def ExeTx_def plain_tx_def Let_def)
  then show ?thesis
    using that bm(2,3) free by fastforce
qed

lemma exe_txs_plain:
  assumes "\<forall>tx \<in> set txs. plain_tx (BalanceMap bc) tx" "0 < CC_ShardNum bc" "GlobalLockMap g = {}"
    "finite A" "\<forall>tx \<in> set txs. Sender tx \<in> A \<and> Recipient tx \<in> A"
  shows "\<exists>g1 bc1 s1. exe_txs ce env bh idx txs (gp, g, bc, s) = Some (txs, [], g1, bc1, s1) \<and>
    (\<forall>t. (\<Sum>a\<in>A. eff (BalanceMap bc1) t a) = (\<Sum>a\<in>A. eff (BalanceMap bc) t a) + (\<Sum>tx\<leftarrow>txs. minted tx t)) \<and>
    (\<forall>t a. a \<notin> A \<longrightarrow> eff (BalanceMap bc1) t a = eff (BalanceMap bc) t a)"
  using assms
proof (induction txs arbitrary: idx gp g bc s)
  case (Cons tx txs)
  have p: "plain_tx (BalanceMap bc) tx"
    using Cons.prems(1) by simp
  obtain g1 bc1 s1 where 1: "locked_tx ce env bh idx tx (gp, g, bc, s) = Some (tx, [], gp, g1, bc1, s1)"
    "GlobalLockMap g1 = {}" "CC_ShardNum bc1 = CC_ShardNum bc" "dom (BalanceMap bc1) = dom (BalanceMap bc)"
    "\<forall>t x. eff (BalanceMap bc1) t x = eff (BalanceMap bc) t x + delta tx t x"
    using locked_tx_plain [OF p Cons.prems(2,3), where ce = ce and env = env and bh = bh and idx = idx and gp = gp and s = s] by metis
  have "\<forall>tx \<in> set txs. plain_tx (BalanceMap bc1) tx"
    using Cons.prems(1) 1(4) by (auto simp: plain_tx_def)
  then obtain g2 bc2 s2 where 2: "exe_txs ce env bh (idx + 1) txs (gp, g1, bc1, s1) = Some (txs, [], g2, bc2, s2)"
    "\<forall>t. (\<Sum>a\<in>A. eff (BalanceMap bc2) t a) = (\<Sum>a\<in>A. eff (BalanceMap bc1) t a) + (\<Sum>tx\<leftarrow>txs. minted tx t)"
    "\<forall>t a. a \<notin> A \<longrightarrow> eff (BalanceMap bc2) t a = eff (BalanceMap bc1) t a"
    using Cons.IH [where idx = "idx + 1" and gp = gp and g = g1 and bc = bc1 and s = s1] 1(2,3) Cons.prems by auto
  have in_A: "Sender tx \<in> A" "Recipient tx \<in> A"
    using Cons.prems(5) by simp_all
  have "(\<Sum>a\<in>A. eff (BalanceMap bc1) t a) = (\<Sum>a\<in>A. eff (BalanceMap bc) t a) + minted tx t" for t
    using 1(5) sum_delta [OF Cons.prems(4), of tx t] in_A by (simp add: sum.distrib)
  moreover have "delta tx t a = 0" if "a \<notin> A" for t a
    using that in_A by (auto simp: delta_def)
  ultimately show ?case
    using 1(1,5) 2 by simp
qed simp

text \<open>C15: executing a block of transfers returns and conserves every token. For transactions that are not
  contract calls, with well-formed addresses and known tokens, and with no account locked,
  \<open>GetUpdateStatusTrie\<close> returns; for every token the sum of the balances over any finite set of accounts
  containing all senders and recipients grows exactly by what the handled self-transactions mint
  (or burn), every other account keeps its balance, and no transaction is changed.\<close>
theorem block_execution_conserves_tokens:
  assumes "\<forall>tx \<in> set txs. plain_tx (BalanceMap bc) tx" "0 < CC_ShardNum bc" "GlobalLockMap g = {}"
    "finite A" "\<forall>tx \<in> set txs. Sender tx \<in> A \<and> Recipient tx \<in> A"
  shows "\<exists>g1 bc1. GetUpdateStatusTrie ce txs bh g bc = Some (txs, [], g1, bc1) \<and>
    (\<forall>t. (\<Sum>a\<in>A. eff (BalanceMap bc1) t a) = (\<Sum>a\<in>A. eff (BalanceMap bc) t a) + (\<Sum>tx\<leftarrow>txs. minted tx t)) \<and>
    (\<forall>t a. a \<notin> A \<longrightarrow> eff (BalanceMap bc1) t a = eff (BalanceMap bc) t a)"
proof -
  obtain s sn where n: "New (GlobalStateDB (g_vm g)) = (s, sn)"
    by (cases "New (GlobalStateDB (g_vm g))")
  let ?g = "g\<lparr> g_vm := (g_vm g)\<lparr> GlobalStateDB := Some s \<rparr> \<rparr>"
  obtain g1 bc1 s1 where "exe_txs ce (senv ce (GRoot (g_vm g))) bh 0 txs (GasLimit bh, ?g, bc, s) = Some (txs, [], g1, bc1, s1)"
    "(\<forall>t. (\<Sum>a\<in>A. eff (BalanceMap bc1) t a) = (\<Sum>a\<in>A. eff (BalanceMap bc) t a) + (\<Sum>tx\<leftarrow>txs. minted tx t))"
    "(\<forall>t a. a \<notin> A \<longrightarrow> eff (BalanceMap bc1) t a = eff (BalanceMap bc) t a)"
    using exe_txs_plain [OF assms(1,2) _ assms(4,5), of ?g ce "senv ce (GRoot (g_vm g))" bh 0 "GasLimit bh" s] assms(3) by auto
  then show ?thesis
    by (simp add: GetUpdateStatusTrie_def n Let_def)
qed


definition example_ce :: "(string \<times> bytes \<rightharpoonup> bytes) ChainEnv" where
  "example_ce = \<lparr> ce_bolt = map_bolt, ce_codec = example_codec, ApplyMessage = (\<lambda>m gp u bh s. (Inl ''none'', s, gp)),
     senv = (\<lambda>r. example_env), CommitRoot = (\<lambda>s. 5), trie_exists = (\<lambda>r. True), TxTreeRoot = (\<lambda>txs. []),
     HeaderHash = (\<lambda>h. [1, 2]), now = 0 \<rparr>"

definition example_bc :: "(string \<times> bytes \<rightharpoonup> bytes) BlockChain" where
  "example_bc = \<lparr> CC_ShardID = 0, CC_BlockSize = 10, CC_ShardNum = 2, CurrentBlock = example_block, Store = Map.empty,
     Txpool = NewTxPool, BalanceMap = [''BKC'' \<mapsto> Map.empty, ''Badge'' \<mapsto> Map.empty] \<rparr>"

definition example_globals :: Globals where
  "example_globals = \<lparr> g_vm = \<lparr> GlobalStateDB = None, GRoot = 0 \<rparr>, PartitionMap = Map.empty, GlobalLockMap = {}, g_NodeID = 0,
     NodeAccount = replicate 40 (CHR ''0'') \<rparr>"

definition example_transfer :: Transaction where
  "example_transfer = zeroTransaction\<lparr> Sender := replicate 40 (CHR ''2''), Recipient := replicate 40 (CHR ''4''), Value := 30,
     Fee := 2, Txtype := ''BKC'', ShouldHandleInBlock := True \<rparr>"

lemma example_addresses: "good_address (replicate 40 (CHR ''2''))" "good_address (replicate 40 (CHR ''4''))"
  by (simp_all add: good_address_def list_all_iff isValidHexChar_def)

theorem block_execution_conserves_tokens_witness:
  "\<exists>g1 bc1. GetUpdateStatusTrie example_ce [example_transfer] zeroBlockHeader example_globals example_bc = Some ([example_transfer], [], g1, bc1) \<and>
     eff (BalanceMap bc1) ''BKC'' (replicate 40 (CHR ''2'')) + eff (BalanceMap bc1) ''BKC'' (replicate 40 (CHR ''4'')) = 20000"
proof -
  let ?a = "replicate 40 (CHR ''2'')" and ?b = "replicate 40 (CHR ''4'')"
  have ne: "?a \<noteq> ?b"
    by (simp add: replicate_eq_replicate)
  have p: "\<forall>tx \<in> set [example_transfer]. plain_tx (BalanceMap example_bc) tx"
    using example_addresses by (simp add: plain_tx_def example_transfer_def example_bc_def zeroTransaction_def)
  have A: "\<forall>tx \<in> set [example_transfer]. Sender tx \<in> {?a, ?b} \<and> Recipient tx \<in> {?a, ?b}"
    by (simp add: example_transfer_def)
  have g: "0 < CC_ShardNum example_bc" "GlobalLockMap example_globals = {}" "finite {?a, ?b}"
    by (simp_all add: example_bc_def example_globals_def)
  obtain g1 bc1 where r: "GetUpdateStatusTrie example_ce [example_transfer] zeroBlockHeader example_globals example_bc = Some ([example_transfer], [], g1, bc1)"
    "(\<Sum>a\<in>{?a, ?b}. eff (BalanceMap bc1) ''BKC'' a) = (\<Sum>a\<in>{?a, ?b}. eff (BalanceMap example_bc) ''BKC'' a) + (\<Sum>tx\<leftarrow>[example_transfer]. minted tx ''BKC'')"
    using block_execution_conserves_tokens [OF p g(1,2,3) A, of example_ce zeroBlockHeader] by blast
  have "minted example_transfer ''BKC'' = 0" "eff (BalanceMap example_bc) ''BKC'' a = 10000" for a
    using ne by (simp_all add: minted_def example_transfer_def eff_def example_bc_def Init_Balance_def)
  then show ?thesis
    using r ne by auto
qed

section \<open>A transfer on the account state\<close>

definition bal_db :: "StateEnv \<Rightarrow> StateDB \<Rightarrow> common_Address \<Rightarrow> uint256" where
  "bal_db env s a = (case live env s a of None \<Rightarrow> word_of_int Init_Balance | Some ob \<Rightarrow> SBalance (data ob))"

lemma bal_db_unseen [simp]: "bal_db env (s\<lparr> jrnl := j \<rparr>) a = bal_db env s a"
  by (simp add: bal_db_def live_def del: not_None_eq)

lemma bal_db_put: "bal_db env (setStateObject ob s) b = (if b = address ob then SBalance (data ob) else bal_db env s b)"
  by (auto simp: bal_db_def live_def setStateObject_def)

lemma bal_db_getStateObject:
  assumes "getStateObject env a s = (r, s1)"
  shows "bal_db env s1 b = bal_db env s b"
  using assms
proof (cases rule: getStateObject_cases)
  case (absent e)
  then show ?thesis
    by (auto simp: bal_db_def live_def setError_def)
next
  case (loaded ob)
  then show ?thesis
    by (auto simp: bal_db_put) (simp add: bal_db_def live_def)
qed simp_all

lemma getOrNew_bal:
  assumes "objects_ok s" "getOrNewStateObject env a s = (ob, s1)"
  shows "bal_db env s1 b = bal_db env s b" "SBalance (data ob) = bal_db env s a" "address ob = a" "objects_ok s1"
proof -
  note new = getOrNew_undone [OF assms]
  show "address ob = a" "objects_ok s1"
    using new by simp_all
  show bal: "SBalance (data ob) = bal_db env s a"
    using new(5,6) by (cases "live env s a") (auto simp: bal_db_def)
  obtain r s0 where g: "getStateObject env a s = (r, s0)"
    by (cases "getStateObject env a s")
  show "bal_db env s1 b = bal_db env s b"
  proof (cases r)
    case None
    then have "s1 = setStateObject ob (jappend (createObject_j (env_ShardID env) a) s0)"
      using assms(2) g by (auto simp: getOrNewStateObject_def createObject_def Let_def)
    then show ?thesis
      using bal new(3) bal_db_getStateObject [OF g] by (simp add: bal_db_put)
  next
    case (Some x)
    then show ?thesis
      using assms(2) g bal_db_getStateObject [OF g] by (simp add: getOrNewStateObject_def)
  qed
qed

lemma touch_bal: "bal_db env (touch env ob s) b = bal_db env s b" "objects_ok s \<Longrightarrow> objects_ok (touch env ob s)"
  by (simp_all add: touch_def)

lemma AddBalance_bal:
  assumes "objects_ok s"
  shows "bal_db env (AddBalance env a v s) b = bal_db env s b + (if b = a then v else 0)" "objects_ok (AddBalance env a v s)"
proof -
  obtain ob s1 where g: "getOrNewStateObject env a s = (ob, s1)"
    by (cases "getOrNewStateObject env a s")
  note n = getOrNew_bal [OF assms g]
  show "bal_db env (AddBalance env a v s) b = bal_db env s b + (if b = a then v else 0)"
    using g n by (auto simp: AddBalance_def AddBalance_obj_def SetBalance_obj_def bal_db_put touch_bal setBalance_def)
  show "objects_ok (AddBalance env a v s)"
    using g n by (simp add: AddBalance_def AddBalance_obj_def SetBalance_obj_def touch_bal)
qed

lemma SubBalance_bal:
  assumes "objects_ok s"
  shows "bal_db env (SubBalance env a v s) b = bal_db env s b - (if b = a then v else 0)" "objects_ok (SubBalance env a v s)"
proof -
  obtain ob s1 where g: "getOrNewStateObject env a s = (ob, s1)"
    by (cases "getOrNewStateObject env a s")
  note n = getOrNew_bal [OF assms g]
  show "bal_db env (SubBalance env a v s) b = bal_db env s b - (if b = a then v else 0)"
    using g n by (auto simp: SubBalance_def SubBalance_obj_def SetBalance_obj_def bal_db_put setBalance_def)
  show "objects_ok (SubBalance env a v s)"
    using g n by (simp add: SubBalance_def SubBalance_obj_def SetBalance_obj_def)
qed

lemma GetBalance_bal:
  assumes "objects_ok s"
  shows "bal_db env (snd (GetBalance env a s)) b = bal_db env s b" "objects_ok (snd (GetBalance env a s))"
    "fst (GetBalance env a s) = bal_db env s a"
proof -
  obtain ob s1 where g: "getOrNewStateObject env a s = (ob, s1)"
    by (cases "getOrNewStateObject env a s")
  note n = getOrNew_bal [OF assms g]
  show "bal_db env (snd (GetBalance env a s)) b = bal_db env s b" "objects_ok (snd (GetBalance env a s))"
    "fst (GetBalance env a s) = bal_db env s a"
    using g n by (simp_all add: GetBalance_def)
qed

text \<open>C16: a transfer inside a shard moves the value and burns the fee, without a balance check. For an
  ordinary transaction whose sender and recipient both live in this shard, the state execution returns;
  the sender's 256-bit balance drops by value plus fee, the recipient's grows by the value, all other
  balances stay. The arithmetic wraps: a sender without enough funds ends with a huge balance.\<close>
theorem local_transfer_moves_value:
  assumes ok: "objects_ok s" and plain: "\<not> IsAllocatedSender tx" "\<not> IsAllocatedRecipent tx" "\<not> Relayed tx" "\<not> Isbrokertx1 tx" "\<not> Isbrokertx2 tx"
    and x: "address_of (Sender tx) = Some x" and y: "address_of (Recipient tx) = Some y"
    and here: "Get_PartitionMap n (Sender tx) g = Some shard" "Get_PartitionMap n (Recipient tx) g = Some shard"
  shows "\<exists>s'. ExeTx_transfer env n shard g tx s = Some s' \<and>
    (\<forall>b. bal_db env s' b = bal_db env s b - (if b = x then word_of_int (Value tx + Fee tx) else 0) + (if b = y then word_of_int (Value tx) else 0))"
proof -
  define s1 where "s1 = SubBalance env x (word_of_int (Fee tx)) (SubBalance env x (word_of_int (Value tx)) s)"
  have s1: "objects_ok s1" "bal_db env s1 b = bal_db env s b - (if b = x then word_of_int (Value tx + Fee tx) else 0)" for b
    using SubBalance_bal [OF ok] SubBalance_bal [OF SubBalance_bal(2) [OF ok]] by (simp_all add: s1_def)
  define s2 where "s2 = AddBalance env y (word_of_int (Value tx)) (snd (GetBalance env y s1))"
  have s2: "objects_ok s2" "bal_db env s2 b = bal_db env s1 b + (if b = y then word_of_int (Value tx) else 0)" for b
    using GetBalance_bal [OF s1(1)] AddBalance_bal [OF GetBalance_bal(2) [OF s1(1)]] by (simp_all add: s2_def)
  have "ExeTx_transfer env n shard g tx s = Some (snd (GetBalance env y s2))"
    using plain x y here by (simp add: ExeTx_transfer_def debit_def s1_def s2_def Let_def)
  then show ?thesis
    using GetBalance_bal(1) [OF s2(1)] s1(2) s2(2) by simp
qed

theorem local_transfer_moves_value_witness:
  "\<exists>env g x y s'. address_of (replicate 40 (CHR ''2'')) = Some x \<and> address_of (replicate 40 (CHR ''4'')) = Some y \<and>
     ExeTx_transfer env 2 0 g (example_transfer\<lparr> Value := 20000 \<rparr>) New2 = Some s' \<and>
     bal_db env s' x = - 10002 + (if x = y then 20000 else 0)"
proof -
  let ?tx = "example_transfer\<lparr> Value := 20000 \<rparr>"
  define env where "env = example_env\<lparr> reader_Account := (\<lambda>a. Inr None) \<rparr>"
  define g where "g = example_globals\<lparr> PartitionMap := (\<lambda>a. Some 0) \<rparr>"
  have snd: "Sender ?tx = replicate 40 (CHR ''2'')" "Recipient ?tx = replicate 40 (CHR ''4'')" "Value ?tx = 20000" "Fee ?tx = 2"
    by (simp_all add: example_transfer_def)
  obtain x where x: "address_of (Sender ?tx) = Some x"
    using good_address_of [OF example_addresses(1)] unfolding snd by blast
  obtain y where y: "address_of (Recipient ?tx) = Some y"
    using good_address_of [OF example_addresses(2)] unfolding snd by blast
  have flags: "\<not> IsAllocatedSender ?tx" "\<not> IsAllocatedRecipent ?tx" "\<not> Relayed ?tx" "\<not> Isbrokertx1 ?tx" "\<not> Isbrokertx2 ?tx"
    by (simp_all add: example_transfer_def zeroTransaction_def)
  have here: "Get_PartitionMap 2 (Sender ?tx) g = Some 0" "Get_PartitionMap 2 (Recipient ?tx) g = Some 0"
    by (simp_all add: Get_PartitionMap_def g_def)
  have b: "bal_db env New2 x = 10000"
    by (simp add: bal_db_def live_def New2_def read_object_def env_def Init_Balance_def)
  obtain s' where s': "ExeTx_transfer env 2 0 g ?tx New2 = Some s'"
    "bal_db env s' x = bal_db env New2 x - word_of_int (Value ?tx + Fee ?tx) + (if x = y then word_of_int (Value ?tx) else 0)"
    using local_transfer_moves_value [OF New2_ok(1) flags x y here, of env] by auto
  have "bal_db env s' x = - 10002 + (if x = y then 20000 else 0)"
    unfolding s'(2) b snd by simp
  then show ?thesis
    using x y s'(1) unfolding snd by blast
qed

section \<open>Blocks of other nodes, block hashes\<close>

lemma AddBlock_receives:
  assumes root: "trie_exists ce (GRoot (g_vm g))" and bo: "bolt_laws (ce_bolt ce)" and h: "good_key (Hash b)"
  shows "\<exists>bc'. AddBlock ce b g bc = Some ([], g, bc') \<and> CurrentBlock bc' = b \<and> BalanceMap bc' = BalanceMap bc \<and> Txpool bc' = Txpool bc"
proof -
  have "\<exists>db'. AddBlock_store (ce_bolt ce) (ce_codec ce) b (Store bc) = Some db'"
    using AddBlock_store_total [OF bo h] by blast
  then show ?thesis
    using root by (auto simp: AddBlock_def)
qed

text \<open>a node that receives a block does not execute it. As long as the trie of the node's own root
  exists, \<open>AddBlock\<close> stores the block and makes it current, and leaves the token balances, the state
  root, the shared state, the locks and the transaction pool as they were, whatever the block holds.\<close>
theorem received_block_is_not_executed:
  assumes root: "trie_exists ce (GRoot (g_vm g))" and bo: "bolt_laws (ce_bolt ce)" and h: "good_key (Hash b)"
  shows "\<exists>bc'. AddBlock ce b g bc = Some ([], g, bc') \<and> CurrentBlock bc' = b \<and> BalanceMap bc' = BalanceMap bc \<and> Txpool bc' = Txpool bc"
  by (rule AddBlock_receives [OF assms])

theorem received_block_is_not_executed_witness:
  "\<exists>bc'. AddBlock example_ce (example_block\<lparr> Body := [example_transfer] \<rparr>) example_globals example_bc = Some ([], example_globals, bc') \<and>
     BalanceMap bc' = BalanceMap example_bc"
proof -
  have "trie_exists example_ce (GRoot (g_vm example_globals))" "bolt_laws (ce_bolt example_ce)"
    "good_key (Hash (example_block\<lparr> Body := [example_transfer] \<rparr>))"
    using map_bolt_laws by (simp_all add: example_ce_def example_block_def good_key_def)
  from received_block_is_not_executed [OF this, of example_bc] show ?thesis
    by blast
qed

text \<open>the EVM never sees the hash of a produced block. \<open>GetHashFn\<close> follows \<open>ParentHash\<close>, which
  \<open>GenerateBlock\<close> leaves zero (it sets \<open>ParentBlockHash\<close>), so for every block it produces, with no block
  stored under the zero hash, the lookup ends and returns the zero hash for every height.\<close>
theorem block_hash_is_zero_for_produced_blocks:
  assumes gen: "GenerateBlock ce g bc = Some (b, out, g1, bc1)" and none: "hdr 0 = None"
  shows "GetHashFn (Header b) hdr n = Some 0"
proof -
  have "ParentHash (Header b) = 0"
    using gen by (auto simp: GenerateBlock_def bind_eq_Some_iff NewBlock_def zeroBlockHeader_def Let_def split: prod.splits)
  then show ?thesis
    using none by (subst GetHashFn_def) (simp add: hash_loop.simps)
qed

theorem block_hash_is_zero_for_produced_blocks_witness:
  "\<exists>b out g1 bc1. GenerateBlock example_ce example_globals example_bc = Some (b, out, g1, bc1) \<and>
     GetHashFn (Header b) (\<lambda>h. None) 3 = Some 0"
proof -
  have "good_address (NodeAccount example_globals)"
    by (simp add: good_address_def list_all_iff isValidHexChar_def example_globals_def)
  then obtain x where "Address_of_slice (hex_DecodeString (NodeAccount example_globals)) = Some x"
    using good_address_of unfolding address_of_def by blast
  then obtain b out g1 bc1 where g: "GenerateBlock example_ce example_globals example_bc = Some (b, out, g1, bc1)"
    by (cases "New (GlobalStateDB (g_vm example_globals))")
      (auto simp: GenerateBlock_def GetUpdateStatusTrie_def example_bc_def PackTxs_def NewTxPool_def Let_def)
  show ?thesis
    using block_hash_is_zero_for_produced_blocks [OF g, of "\<lambda>h. None" 3] g by blast
qed

end
