(* ===== verification/Pbft.thy ===== *)
theory Pbft
  imports Chain Committee
begin

text \<open>
  The consensus of a shard: \<open>consensus_shard/pbft_all/messageHandle.go\<close>, \<open>toolFuncs.go\<close>,
  \<open>pbftInside_moduleBroker_forB2E.go\<close>, \<open>pbftOutside_moduleBroker_forB2E.go\<close> and the node record of \<open>pbft.go\<close>.

  The handlers of the three phases hold \<open>pbftLock\<close> for their whole body, so each of them is one step
  on the node's record. A handler that waits on the condition variable of that lock is not enabled:
  \<open>must_wait\<close> is the condition of its loop. The two mutexes that outlive a handler, \<open>sequenceLock\<close> and
  \<open>askForLock\<close>, are fields; to lock a held one is to wait, to unlock a free one ends the process.
  \<open>handleRequestOldSeq\<close>, \<open>handleSendOldSeq\<close> and the body of \<open>Propose\<close> do not take \<open>pbftLock\<close>; they are steps
  too, so data races between them and the other handlers are not part of the model.

  The digest (SHA-256 of the JSON text of a request) is a parameter. The vote tables are keyed by the
  pointer of the decoded \<open>SenderNode\<close>: every decoded message has a fresh one, a JSON null is nil.
\<close>

section \<open>Data\<close>

record shard_Node =
  sn_NodeID :: uint64
  sn_ShardID :: uint64
  IPaddr :: string

record Request =
  RequestType :: string
  Content :: bytes
  ReqTime :: go_time

record PrePrepare =
  RequestMsg :: "Request option"
  pp_Digest :: bytes
  pp_SeqID :: uint64

record PrepareMsg =
  pr_Digest :: bytes
  pr_SeqID :: uint64
  pr_SenderNode :: "shard_Node option"

record Commit =
  co_Digest :: bytes
  co_SeqID :: uint64
  co_SenderNode :: "shard_Node option"

record RequestOldMessage =
  ro_SeqStartHeight :: uint64
  ro_SeqEndHeight :: uint64
  ServerNode :: "shard_Node option"
  ro_SenderNode :: "shard_Node option"

record SendOldMessage =
  so_SeqStartHeight :: uint64
  so_SeqEndHeight :: uint64
  OldRequest :: "Request option list"
  so_SenderNode :: "shard_Node option"

record SeqIDinfo =
  SenderShard :: uint64
  SenderSeq :: uint64

datatype pbft_msg =
    CPrePrepare PrePrepare
  | CPrepare PrepareMsg
  | CCommit Commit
  | CRequestOldrequest RequestOldMessage
  | CSendOldrequest SendOldMessage
  | CSeqIDinfo SeqIDinfo
  | CBlockInfo BlockInfoMsg
  | CInject InjectTxs
  | CInjectHead InjectTxs
  | DAccountBalanceQuery Address string
  | DAccountBalanceReply Address int string

text \<open>What a handler sends: a message dialled to an address, or a message of the chain.\<close>

datatype pbft_out = Dial string pbft_msg | FromChain chain_msg

type_synonym votes = "bytes \<rightharpoonup> nat option list"

record 'db PbftConsensusNode =
  RunningNode :: shard_Node
  p_ShardID :: uint64
  p_NodeID :: uint64
  CurChain :: "'db BlockChain"
  ShardNums :: uint64
  ip_nodeTable :: "uint64 \<Rightarrow> (uint64 \<times> string) list"
  node_nums :: uint64
  malicious_nums :: uint64
  p_view :: uint64
  sequenceID :: uint64
  requestPool :: "bytes \<rightharpoonup> Request option"
  cntPrepareConfirm :: votes
  cntCommitConfirm :: votes
  isCommitBordcast :: "bytes \<Rightarrow> bool"
  isReply :: "bytes \<Rightarrow> bool"
  height2Digest :: "uint64 \<rightharpoonup> bytes"
  sequenceLock :: bool
  askForLock :: bool
  seqIDMap :: "uint64 \<rightharpoonup> uint64"
  pbftStage :: "32 word"
  next_ptr :: nat

text \<open>The parameters: the chain's, the digest, the clock read for each injected transaction.\<close>

record 'db PbftEnv =
  pe_chain :: "'db ChainEnv"
  getDigest :: "Request option \<Rightarrow> bytes"
  pe_clock :: "nat \<Rightarrow> go_time"

type_synonym 'db pbft_state = "Globals \<times> 'db PbftConsensusNode"

definition BlockRequest :: string where "BlockRequest = ''Block''"
definition DeciderShard :: uint64 where "DeciderShard = 0xffffffff"
definition SupervisorAddr :: string where "SupervisorAddr = ''127.0.0.1:18800''"

definition NewPbftNode ::
  "uint64 \<Rightarrow> uint64 \<Rightarrow> uint64 \<Rightarrow> uint64 \<Rightarrow> (uint64 \<Rightarrow> (uint64 \<times> string) list) \<Rightarrow> 'db BlockChain \<Rightarrow> 'db PbftConsensusNode" where
  "NewPbftNode shardID nodeID Nodes_perShard shards table bc =
     \<lparr> RunningNode = \<lparr> sn_NodeID = nodeID, sn_ShardID = shardID,
         IPaddr = (case map_of (table shardID) nodeID of None \<Rightarrow> [] | Some ip \<Rightarrow> ip) \<rparr>,
       p_ShardID = shardID, p_NodeID = nodeID, CurChain = bc, ShardNums = shards, ip_nodeTable = table,
       node_nums = Nodes_perShard, malicious_nums = (Nodes_perShard - 1) div 3, p_view = 0,
       sequenceID = Number (Header (CurrentBlock bc)) + 1, requestPool = Map.empty,
       cntPrepareConfirm = Map.empty, cntCommitConfirm = Map.empty, isCommitBordcast = (\<lambda>d. False),
       isReply = (\<lambda>d. False), height2Digest = Map.empty, sequenceLock = False, askForLock = False,
       seqIDMap = Map.empty, pbftStage = 1, next_ptr = 0 \<rparr>"

section \<open>Tools\<close>

definition getNeighborNodes :: "'db PbftConsensusNode \<Rightarrow> string list" where
  "getNeighborNodes p = map snd (ip_nodeTable p (p_ShardID p))"

definition node_ip :: "'db PbftConsensusNode \<Rightarrow> uint64 \<Rightarrow> uint64 \<Rightarrow> string" where
  "node_ip p sid nid = (case map_of (ip_nodeTable p sid) nid of None \<Rightarrow> [] | Some ip \<Rightarrow> ip)"

definition Broadcast :: "string \<Rightarrow> string list \<Rightarrow> pbft_msg \<Rightarrow> pbft_out list" where
  "Broadcast sender receivers m = map (\<lambda>ip. Dial ip m) (filter (\<lambda>ip. ip \<noteq> sender) receivers)"

definition broadcast_from :: "'db PbftConsensusNode \<Rightarrow> pbft_msg \<Rightarrow> pbft_out list" where
  "broadcast_from p m = Broadcast (IPaddr (RunningNode p)) (getNeighborNodes p) m"

text \<open>The pointer of a decoded sender.\<close>

definition decode_sender :: "shard_Node option \<Rightarrow> 'db PbftConsensusNode \<Rightarrow> nat option \<times> 'db PbftConsensusNode" where
  "decode_sender sn p = (case sn of
       None \<Rightarrow> (None, p)
     | Some n \<Rightarrow> (Some (next_ptr p), p\<lparr> next_ptr := Suc (next_ptr p) \<rparr>))"

definition add_vote :: "votes \<Rightarrow> bytes \<Rightarrow> nat option \<Rightarrow> votes" where
  "add_vote vs key val = vs(key \<mapsto> List.insert val (case vs key of None \<Rightarrow> [] | Some l \<Rightarrow> l))"

definition set2DMap :: "bool \<Rightarrow> bytes \<Rightarrow> nat option \<Rightarrow> 'db PbftConsensusNode \<Rightarrow> 'db PbftConsensusNode" where
  "set2DMap isPrePareConfirm key val p =
     (if isPrePareConfirm then p\<lparr> cntPrepareConfirm := add_vote (cntPrepareConfirm p) key val \<rparr>
      else p\<lparr> cntCommitConfirm := add_vote (cntCommitConfirm p) key val \<rparr>)"

definition count_votes :: "votes \<Rightarrow> bytes \<Rightarrow> nat" where
  "count_votes vs key = (case vs key of None \<Rightarrow> 0 | Some l \<Rightarrow> length l)"

section \<open>The module of the broker chain\<close>

definition HandleinPropose :: "'db PbftEnv \<Rightarrow> 'db pbft_state \<Rightarrow> (Request \<times> pbft_out list \<times> 'db pbft_state) panics" where
  "HandleinPropose pe = (\<lambda>(g, p). do {
     (b, out, g1, bc1) \<leftarrow> GenerateBlock (pe_chain pe) g (CurChain p);
     Some (\<lparr> RequestType = BlockRequest, Content = Encode_B (ce_codec (pe_chain pe)) b, ReqTime = now (pe_chain pe) \<rparr>,
           map FromChain out, g1, p\<lparr> CurChain := bc1 \<rparr>) })"

definition HandleinPrePrepare :: "PrePrepare \<Rightarrow> 'db PbftConsensusNode \<Rightarrow> 'db PbftConsensusNode" where
  "HandleinPrePrepare m p = p\<lparr> requestPool := (requestPool p)(pp_Digest m \<mapsto> RequestMsg m) \<rparr>"

text \<open>The four lists a committed block is sorted into: executed, first and second halves of broker
  transactions, transfers between the accounts of a broker.\<close>

fun sort_body ::
  "Transaction list \<Rightarrow> Transaction list \<times> Transaction list \<times> Transaction list \<times> Transaction list
     \<Rightarrow> Transaction list \<times> Transaction list \<times> Transaction list \<times> Transaction list" where
  "sort_body [] acc = acc"
| "sort_body (tx # txs) (txExcuted, broker1Txs, broker2Txs, allocatedTxs) =
     sort_body txs
       (if IsAllocatedRecipent tx \<or> IsAllocatedSender tx then (txExcuted, broker1Txs, broker2Txs, allocatedTxs @ [tx])
        else if Isbrokertx2 tx then (txExcuted, broker1Txs, broker2Txs @ [tx], allocatedTxs)
        else if Isbrokertx1 tx then (txExcuted, broker1Txs @ [tx], broker2Txs, allocatedTxs)
        else (txExcuted @ [tx], broker1Txs, broker2Txs, allocatedTxs))"

definition block_info :: "go_time \<Rightarrow> Request \<Rightarrow> Block \<Rightarrow> 'db PbftConsensusNode \<Rightarrow> BlockInfoMsg" where
  "block_info t r b p =
     (let (txExcuted, broker1Txs, broker2Txs, allocatedTxs) = sort_body (Body b) ([], [], [], []) in
      \<lparr> BlockBodyLength = int (length (Body b)), ExcutedTxs = txExcuted, Epoch = 0, ProposeTime = ReqTime r,
        CommitTime = t, SenderShardID = unat (p_ShardID p), Relay1TxNum = 0, Relay1Txs = [],
        Broker1TxNum = of_nat (length broker1Txs), Broker1Txs = broker1Txs,
        Broker2TxNum = of_nat (length broker2Txs), Broker2Txs = broker2Txs, AllocatedTxs = allocatedTxs \<rparr>)"

definition seq_infos :: "'db PbftConsensusNode \<Rightarrow> pbft_out list" where
  "seq_infos p = map (\<lambda>sid. Dial (node_ip p sid 0) (CSeqIDinfo \<lparr> SenderShard = p_ShardID p, SenderSeq = sequenceID p \<rparr>))
     (filter (\<lambda>sid. sid \<noteq> p_ShardID p) (map of_nat [0..<unat (ShardNums p)]))"

text \<open>\<open>HandleinCommit\<close> reads the request without a check: a missing or nil one is a nil dereference.\<close>

definition HandleinCommit :: "'db PbftEnv \<Rightarrow> Commit \<Rightarrow> 'db pbft_state \<Rightarrow> (pbft_out list \<times> 'db pbft_state) panics" where
  "HandleinCommit pe m = (\<lambda>(g, p). case requestPool p (co_Digest m) of
       Some (Some r) \<Rightarrow> do {
         let b = DecodeB (ce_codec (pe_chain pe)) (Content r);
         (out, g1, bc1) \<leftarrow> AddBlock (pe_chain pe) b g (CurChain p);
         let p1 = p\<lparr> CurChain := bc1 \<rparr>;
         Some (map FromChain out @
               (if p_NodeID p = p_view p
                then seq_infos p1 @ [Dial (node_ip p1 DeciderShard 0) (CBlockInfo (block_info (now (pe_chain pe)) r b p1))]
                else []),
               g1, p1) }
     | _ \<Rightarrow> panic)"

text \<open>\<open>HandleforSequentialRequest\<close>. The test compares \<open>SeqStartHeight - SeqEndHeight\<close> with the number of
  requests; the loop indexes the requests from 0, and an index out of range panics.\<close>

fun add_old :: "'db ChainEnv \<Rightarrow> uint64 \<Rightarrow> uint64 \<Rightarrow> Request option list \<Rightarrow> Globals \<times> 'db BlockChain
     \<Rightarrow> (pbft_out list \<times> Globals \<times> 'db BlockChain) panics" where
  "add_old ce height SeqEnd [] (g, bc) = (if height \<le> SeqEnd then panic else Some ([], g, bc))"
| "add_old ce height SeqEnd (r # rs) (g, bc) =
     (if height \<le> SeqEnd
      then (case r of
          None \<Rightarrow> panic
        | Some r1 \<Rightarrow> do {
            (out, g1, bc1) \<leftarrow> (if RequestType r1 = BlockRequest
               then AddBlock ce (DecodeB (ce_codec ce) (Content r1)) g bc else Some ([], g, bc));
            (outs, s2) \<leftarrow> add_old ce (height + 1) SeqEnd rs (g1, bc1);
            Some (map FromChain out @ outs, s2) })
      else Some ([], g, bc))"

definition HandleforSequentialRequest ::
  "'db PbftEnv \<Rightarrow> SendOldMessage \<Rightarrow> 'db pbft_state \<Rightarrow> (pbft_out list \<times> 'db pbft_state) panics" where
  "HandleforSequentialRequest pe m = (\<lambda>(g, p).
     if sint (so_SeqStartHeight m - so_SeqEndHeight m) \<noteq> int (length (OldRequest m)) then Some ([], g, p)
     else do {
       (out, g1, bc1) \<leftarrow> add_old (pe_chain pe) (so_SeqStartHeight m) (so_SeqEndHeight m) (OldRequest m) (g, CurChain p);
       Some (out, g1, p\<lparr> CurChain := bc1, sequenceID := so_SeqEndHeight m + 1 \<rparr>) })"

section \<open>The phases\<close>

text \<open>One round of \<open>Propose\<close>, after its pause and with \<open>sequenceLock\<close> free.\<close>

definition Propose :: "'db PbftEnv \<Rightarrow> 'db pbft_state \<Rightarrow> (pbft_out list \<times> 'db pbft_state) panics" where
  "Propose pe = (\<lambda>(g, p).
     if p_view p \<noteq> p_NodeID p then Some ([], g, p)
     else do {
       (r, out, g1, p1) \<leftarrow> HandleinPropose pe (g, p\<lparr> sequenceLock := True \<rparr>);
       let digest = getDigest pe (Some r);
       let p2 = p1\<lparr> requestPool := (requestPool p1)(digest \<mapsto> Some r) \<rparr>;
       let ppmsg = \<lparr> RequestMsg = Some r, pp_Digest = digest, pp_SeqID = sequenceID p2 \<rparr>;
       let p3 = p2\<lparr> height2Digest := (height2Digest p2)(sequenceID p2 \<mapsto> digest) \<rparr>;
       Some (out @ broadcast_from p3 (CPrePrepare ppmsg), g1, p3\<lparr> pbftStage := 2 \<rparr>) })"

definition handlePrePrepare :: "'db PbftEnv \<Rightarrow> PrePrepare \<Rightarrow> 'db PbftConsensusNode \<Rightarrow> pbft_out list \<times> 'db PbftConsensusNode" where
  "handlePrePrepare pe m p =
     (let digest = getDigest pe (RequestMsg m);
          pooled = (\<lambda>q. q\<lparr> requestPool := (requestPool q)(digest \<mapsto> RequestMsg m),
                          height2Digest := (height2Digest q)(pp_SeqID m \<mapsto> digest) \<rparr>);
          p1 = (if digest \<noteq> pp_Digest m then p
                else if sequenceID p < pp_SeqID m then pooled p
                else pooled (HandleinPrePrepare m p))
      in (broadcast_from p1 (CPrepare \<lparr> pr_Digest = pp_Digest m, pr_SeqID = pp_SeqID m, pr_SenderNode = Some (RunningNode p1) \<rparr>),
          p1\<lparr> pbftStage := pbftStage p1 + 1 \<rparr>))"

text \<open>The count a prepare needs: \<open>2f\<close>, one less at a node that is not the main node.\<close>

definition specifiedcnt :: "'db PbftConsensusNode \<Rightarrow> int" where
  "specifiedcnt p = sint (2 * malicious_nums p - (if p_NodeID p \<noteq> p_view p then 1 else 0))"

definition handlePrepare :: "PrepareMsg \<Rightarrow> 'db PbftConsensusNode \<Rightarrow> pbft_out list \<times> 'db PbftConsensusNode" where
  "handlePrepare m p =
     (let (ptr, p0) = decode_sender (pr_SenderNode m) p in
      if pr_SeqID m < sequenceID p0 then ([], p0)
      else if requestPool p0 (pr_Digest m) = None then ([], p0)
      else if sequenceID p0 < pr_SeqID m then ([], p0)
      else
        let p1 = set2DMap True (pr_Digest m) ptr p0;
            cnt = count_votes (cntPrepareConfirm p1) (pr_Digest m) in
        if specifiedcnt p1 \<le> int cnt \<and> \<not> isCommitBordcast p1 (pr_Digest m)
        then (broadcast_from p1 (CCommit \<lparr> co_Digest = pr_Digest m, co_SeqID = pr_SeqID m, co_SenderNode = Some (RunningNode p1) \<rparr>),
              p1\<lparr> isCommitBordcast := (isCommitBordcast p1)(pr_Digest m := True), pbftStage := pbftStage p1 + 1 \<rparr>)
        else ([], p1))"

definition required_cnt :: "'db PbftConsensusNode \<Rightarrow> int" where
  "required_cnt p = sint (2 * malicious_nums p)"

text \<open>The node after it has counted a commit, and whether the count lets it go on.\<close>

definition commit_counted :: "Commit \<Rightarrow> 'db PbftConsensusNode \<Rightarrow> 'db PbftConsensusNode" where
  "commit_counted m p = (let (ptr, p0) = decode_sender (co_SenderNode m) p in set2DMap False (co_Digest m) ptr p0)"

definition commit_ready :: "Commit \<Rightarrow> 'db PbftConsensusNode \<Rightarrow> bool" where
  "commit_ready m p = (let p1 = commit_counted m p in
     required_cnt p1 \<le> int (count_votes (cntCommitConfirm p1) (co_Digest m)) \<and> \<not> isReply p1 (co_Digest m))"

definition old_request :: "Commit \<Rightarrow> 'db PbftConsensusNode \<Rightarrow> RequestOldMessage" where
  "old_request m p = \<lparr> ro_SeqStartHeight = sequenceID p + 1, ro_SeqEndHeight = co_SeqID m,
     ServerNode = Some \<lparr> sn_NodeID = p_view p, sn_ShardID = p_ShardID p, IPaddr = node_ip p (p_ShardID p) (p_view p) \<rparr>,
     ro_SenderNode = Some (RunningNode p) \<rparr>"

text \<open>The end of a round: back to the first stage; the main node lets \<open>Propose\<close> go on.\<close>

definition end_round :: "'db PbftConsensusNode \<Rightarrow> 'db PbftConsensusNode panics" where
  "end_round p =
     (let p1 = p\<lparr> pbftStage := 1 \<rparr> in
      if p_NodeID p1 = p_view p1 then (if sequenceLock p1 then Some (p1\<lparr> sequenceLock := False \<rparr>) else panic) else Some p1)"

definition handleCommit :: "'db PbftEnv \<Rightarrow> Commit \<Rightarrow> 'db pbft_state \<Rightarrow> (pbft_out list \<times> 'db pbft_state) panics" where
  "handleCommit pe m = (\<lambda>(g, p).
     let p1 = commit_counted m p; d = co_Digest m in
     if \<not> commit_ready m p then Some ([], g, p1)
     else do {
       (out, g2, p2) \<leftarrow> (if requestPool p1 d = None
          then Some ([Dial (node_ip p1 (p_ShardID p1) (p_view p1)) (CRequestOldrequest (old_request m p1))], g,
                     p1\<lparr> isReply := (isReply p1)(d := True), askForLock := True \<rparr>)
          else do {
            (out, g2, q) \<leftarrow> HandleinCommit pe m (g, p1);
            Some (out, g2, q\<lparr> isReply := (isReply q)(d := True), sequenceID := sequenceID q + 1,
                              requestPool := (requestPool q)(d := None) \<rparr>) });
       p3 \<leftarrow> end_round p2;
       Some (out, g2, p3) })"

section \<open>Catching up\<close>

text \<open>The loop of \<open>handleRequestOldSeq\<close>: the requests of the heights asked for, up to the first height
  whose digest or request is missing. It would go on for ever only over a table of all heights.\<close>

partial_function (option) old_requests ::
  "'db PbftConsensusNode \<Rightarrow> uint64 \<Rightarrow> uint64 \<Rightarrow> Request option list option" where
  "old_requests p height SeqEnd =
     (if SeqEnd < height then Some []
      else case height2Digest p height of
        None \<Rightarrow> Some []
      | Some d \<Rightarrow>
          (case requestPool p d of
             None \<Rightarrow> Some []
           | Some r \<Rightarrow> Option.bind (old_requests p (height + 1) SeqEnd) (\<lambda>rs. Some (r # rs))))"

definition handleRequestOldSeq :: "RequestOldMessage \<Rightarrow> 'db PbftConsensusNode \<Rightarrow> pbft_out list panics" where
  "handleRequestOldSeq m p =
     (if p_view p \<noteq> p_NodeID p then Some []
      else case ro_SenderNode m of
        None \<Rightarrow> panic
      | Some n \<Rightarrow> do {
          oldR \<leftarrow> old_requests p (ro_SeqStartHeight m) (ro_SeqEndHeight m);
          Some [Dial (IPaddr n) (CSendOldrequest \<lparr> so_SeqStartHeight = ro_SeqStartHeight m, so_SeqEndHeight = ro_SeqEndHeight m,
                  OldRequest = oldR, so_SenderNode = Some (RunningNode p) \<rparr>)] })"

fun pool_old :: "'db PbftEnv \<Rightarrow> uint64 \<Rightarrow> Request option list \<Rightarrow> 'db PbftConsensusNode \<Rightarrow> 'db PbftConsensusNode" where
  "pool_old pe height [] p = p"
| "pool_old pe height (r # rs) p =
     (let d = getDigest pe r in
      pool_old pe (height + 1) rs
        (p\<lparr> requestPool := (requestPool p)(d \<mapsto> r), height2Digest := (height2Digest p)(height \<mapsto> d),
            isReply := (isReply p)(d := True) \<rparr>))"

text \<open>The end of \<open>handleSendOldSeq\<close>: when the request of the next height is already known, prepare it.\<close>

definition prepare_next :: "'db PbftEnv \<Rightarrow> 'db PbftConsensusNode \<Rightarrow> pbft_out list \<times> 'db PbftConsensusNode" where
  "prepare_next pe p = (case height2Digest p (sequenceID p) of
       None \<Rightarrow> ([], p)
     | Some rDigest \<Rightarrow>
         (case requestPool p rDigest of
            None \<Rightarrow> ([], p)
          | Some r \<Rightarrow>
              let ppmsg = \<lparr> RequestMsg = r, pp_Digest = getDigest pe r, pp_SeqID = sequenceID p \<rparr>;
                  q = HandleinPrePrepare ppmsg p
              in (broadcast_from q (CPrepare \<lparr> pr_Digest = pp_Digest ppmsg, pr_SeqID = pp_SeqID ppmsg,
                                               pr_SenderNode = Some (RunningNode q) \<rparr>), q)))"

definition handleSendOldSeq :: "'db PbftEnv \<Rightarrow> SendOldMessage \<Rightarrow> 'db pbft_state \<Rightarrow> (pbft_out list \<times> 'db pbft_state) panics" where
  "handleSendOldSeq pe m = (\<lambda>(g, p). do {
     (out, g1, p1) \<leftarrow> HandleforSequentialRequest pe m (g, p);
     let p2 = (pool_old pe (so_SeqStartHeight m) (OldRequest m) p1)\<lparr> sequenceID := so_SeqEndHeight m + 1 \<rparr>;
     let (out2, p3) = prepare_next pe p2;
     guard_panic (askForLock p3);
     Some (out @ out2, g1, p3\<lparr> askForLock := False \<rparr>) })"

section \<open>Messages from outside the shard\<close>

definition handleSeqIDinfos :: "SeqIDinfo \<Rightarrow> 'db PbftConsensusNode \<Rightarrow> 'db PbftConsensusNode" where
  "handleSeqIDinfos m p = p\<lparr> seqIDMap := (seqIDMap p)(SenderShard m \<mapsto> SenderSeq m) \<rparr>"

definition handleInjectTx :: "'db PbftEnv \<Rightarrow> InjectTxs \<Rightarrow> 'db PbftConsensusNode \<Rightarrow> 'db PbftConsensusNode" where
  "handleInjectTx pe m p = p\<lparr> CurChain := (CurChain p)\<lparr> Txpool := AddTxs2Pool (pe_clock pe) 0 (Txs m) (Txpool (CurChain p)) \<rparr> \<rparr>"

definition handleInjectTxHead :: "InjectTxs \<Rightarrow> 'db PbftConsensusNode \<Rightarrow> 'db PbftConsensusNode" where
  "handleInjectTxHead m p = p\<lparr> CurChain := (CurChain p)\<lparr> Txpool := AddTxs2Pool_Head (Txs m) (Txpool (CurChain p)) \<rparr> \<rparr>"

definition handleAccQuery :: "Address \<Rightarrow> string \<Rightarrow> 'db PbftConsensusNode \<Rightarrow> pbft_out list" where
  "handleAccQuery addr ty p =
     (let balance = (case BalanceMap (CurChain p) ty of
          None \<Rightarrow> Init_Balance
        | Some m \<Rightarrow> (case m addr of None \<Rightarrow> Init_Balance | Some b \<Rightarrow> b))
      in [Dial SupervisorAddr (DAccountBalanceReply addr balance ty)])"

definition HandleMessageOutsidePBFT :: "'db PbftEnv \<Rightarrow> pbft_msg \<Rightarrow> 'db PbftConsensusNode \<Rightarrow> pbft_out list \<times> 'db PbftConsensusNode" where
  "HandleMessageOutsidePBFT pe m p = (case m of
       CSeqIDinfo i \<Rightarrow> ([], handleSeqIDinfos i p)
     | CInject i \<Rightarrow> ([], handleInjectTx pe i p)
     | CInjectHead i \<Rightarrow> ([], handleInjectTxHead i p)
     | DAccountBalanceQuery a ty \<Rightarrow> (handleAccQuery a ty p, p)
     | _ \<Rightarrow> ([], p))"

section \<open>The node as a whole\<close>

text \<open>\<open>handleMessage\<close>: the handler of a decoded message.\<close>

definition handleMessage :: "'db PbftEnv \<Rightarrow> pbft_msg \<Rightarrow> 'db pbft_state \<Rightarrow> (pbft_out list \<times> 'db pbft_state) panics" where
  "handleMessage pe m = (\<lambda>(g, p). case m of
       CPrePrepare x \<Rightarrow> (let (out, p1) = handlePrePrepare pe x p in Some (out, g, p1))
     | CPrepare x \<Rightarrow> (let (out, p1) = handlePrepare x p in Some (out, g, p1))
     | CCommit x \<Rightarrow> handleCommit pe x (g, p)
     | CRequestOldrequest x \<Rightarrow> do { out \<leftarrow> handleRequestOldSeq x p; Some (out, g, p) }
     | CSendOldrequest x \<Rightarrow> handleSendOldSeq pe x (g, p)
     | _ \<Rightarrow> (let (out, p1) = HandleMessageOutsidePBFT pe m p in Some (out, g, p1)))"

text \<open>What a node does: handle a received message, or propose.\<close>

datatype event = Receive pbft_msg | Proposing

definition must_wait :: "event \<Rightarrow> 'db PbftConsensusNode \<Rightarrow> bool" where
  "must_wait e p = (case e of
       Receive (CPrePrepare m) \<Rightarrow> sint (pbftStage p) < 1 \<and> sequenceID p \<le> pp_SeqID m
     | Receive (CPrepare m) \<Rightarrow> sint (pbftStage p) < 2 \<and> sequenceID p \<le> pr_SeqID m
     | Receive (CCommit m) \<Rightarrow> (sint (pbftStage p) < 3 \<and> sequenceID p \<le> co_SeqID m)
         \<or> (commit_ready m p \<and> requestPool p (co_Digest m) = None \<and> askForLock p)
     | Proposing \<Rightarrow> p_view p = p_NodeID p \<and> sequenceLock p
     | _ \<Rightarrow> False)"

definition pbft_step :: "'db PbftEnv \<Rightarrow> event \<Rightarrow> 'db pbft_state \<Rightarrow> (pbft_out list \<times> 'db pbft_state) option" where
  "pbft_step pe e s =
     (if must_wait e (snd s) then None
      else case e of Receive m \<Rightarrow> handleMessage pe m s | Proposing \<Rightarrow> Propose pe s)"

text \<open>The digest whose block the node adds when it handles an event.\<close>

definition executes :: "event \<Rightarrow> 'db PbftConsensusNode \<Rightarrow> bytes option" where
  "executes e p = (case e of
       Receive (CCommit m) \<Rightarrow>
         if commit_ready m p \<and> requestPool p (co_Digest m) \<noteq> None then Some (co_Digest m) else None
     | _ \<Rightarrow> None)"

end
