(* ===== verification/Consensus.thy ===== *)
theory Consensus
  imports Pbft
begin

text \<open>
  What the consensus of \<open>Pbft\<close> guarantees. The locale \<open>quorum_log\<close> is the contract of a node that counts
  votes and acts on a digest once its count reaches a quorum; its lemmas hold for every sequence of
  events in any order. It is interpreted on the node's own step function.
\<close>

section \<open>Sequences of events\<close>

fun run_steps :: "('e \<Rightarrow> 's \<Rightarrow> ('o list \<times> 's) option) \<Rightarrow> 'e list \<Rightarrow> 's \<Rightarrow> ('o list \<times> 's) option" where
  "run_steps step [] s = Some ([], s)"
| "run_steps step (e # es) s = do { (out, s1) \<leftarrow> step e s; (outs, s2) \<leftarrow> run_steps step es s1; Some (out @ outs, s2) }"

fun executed :: "('e \<Rightarrow> 's \<Rightarrow> ('o list \<times> 's) option) \<Rightarrow> ('e \<Rightarrow> 's \<Rightarrow> 'd option) \<Rightarrow> 'e list \<Rightarrow> 's \<Rightarrow> 'd list" where
  "executed step act [] s = []"
| "executed step act (e # es) s =
     (case act e s of None \<Rightarrow> [] | Some d \<Rightarrow> [d]) @
     (case step e s of None \<Rightarrow> [] | Some (out, s1) \<Rightarrow> executed step act es s1)"

lemma run_steps_Cons_E:
  assumes "run_steps step (e # es) s = Some (outs, s')"
  obtains out s1 outs1 where "step e s = Some (out, s1)" "run_steps step es s1 = Some (outs1, s')" "outs = out @ outs1"
    "executed step act (e # es) s = (case act e s of None \<Rightarrow> [] | Some d \<Rightarrow> [d]) @ executed step act es s1"
  using assms by (auto simp: bind_eq_Some_iff split: prod.splits)

locale quorum_log =
  fixes step :: "'e \<Rightarrow> 's \<Rightarrow> ('o list \<times> 's) option"
    and act :: "'e \<Rightarrow> 's \<Rightarrow> 'd option"
    and vote :: "'e \<Rightarrow> 'd option"
    and nvotes :: "'s \<Rightarrow> 'd \<Rightarrow> nat"
    and finished :: "'s \<Rightarrow> 'd \<Rightarrow> bool"
    and quorum :: "'s \<Rightarrow> int"
  assumes nvotes_step: "step e s = Some (out, s') \<Longrightarrow> nvotes s' d \<le> nvotes s d + (if vote e = Some d then 1 else 0)"
    and finished_step: "step e s = Some (out, s') \<Longrightarrow> finished s d \<Longrightarrow> finished s' d"
    and quorum_step: "step e s = Some (out, s') \<Longrightarrow> quorum s' = quorum s"
    and act_once: "step e s = Some (out, s') \<Longrightarrow> act e s = Some d \<Longrightarrow> \<not> finished s d \<and> finished s' d"
    and act_quorum: "step e s = Some (out, s') \<Longrightarrow> act e s = Some d \<Longrightarrow> quorum s \<le> int (nvotes s' d)"
begin

lemma executed_fresh:
  assumes "run_steps step es s = Some (outs, s')" and "d \<in> set (executed step act es s)"
  shows "\<not> finished s d"
  using assms
proof (induction es arbitrary: s outs)
  case (Cons e es)
  from Cons.prems(1) obtain out s1 outs1
    where s1: "step e s = Some (out, s1)" and r: "run_steps step es s1 = Some (outs1, s')"
      and ex: "executed step act (e # es) s = (case act e s of None \<Rightarrow> [] | Some d \<Rightarrow> [d]) @ executed step act es s1"
    by (rule run_steps_Cons_E [where act = act])
  show ?case
  proof (cases "act e s = Some d")
    case True
    then show ?thesis using act_once [OF s1] by blast
  next
    case False
    then have "d \<in> set (executed step act es s1)"
      using Cons.prems(2) unfolding ex by (auto split: option.splits)
    then show ?thesis
      using Cons.IH [OF r] finished_step [OF s1] by blast
  qed
qed simp

lemma executed_distinct:
  assumes "run_steps step es s = Some (outs, s')"
  shows "distinct (executed step act es s)"
  using assms
proof (induction es arbitrary: s outs)
  case (Cons e es)
  from Cons.prems obtain out s1 outs1
    where s1: "step e s = Some (out, s1)" and r: "run_steps step es s1 = Some (outs1, s')"
      and ex: "executed step act (e # es) s = (case act e s of None \<Rightarrow> [] | Some d \<Rightarrow> [d]) @ executed step act es s1"
    by (rule run_steps_Cons_E [where act = act])
  show ?case
    unfolding ex using Cons.IH [OF r] executed_fresh [OF r] act_once [OF s1] by (auto split: option.split)
qed simp

lemma executed_quorum:
  assumes "run_steps step es s = Some (outs, s')" and "d \<in> set (executed step act es s)"
  shows "quorum s \<le> int (nvotes s d + length (filter (\<lambda>e. vote e = Some d) es))"
  using assms
proof (induction es arbitrary: s outs)
  case (Cons e es)
  from Cons.prems(1) obtain out s1 outs1
    where s1: "step e s = Some (out, s1)" and r: "run_steps step es s1 = Some (outs1, s')"
      and ex: "executed step act (e # es) s = (case act e s of None \<Rightarrow> [] | Some d \<Rightarrow> [d]) @ executed step act es s1"
    by (rule run_steps_Cons_E [where act = act])
  note n = nvotes_step [OF s1, of d]
  show ?case
  proof (cases "act e s = Some d")
    case True
    then show ?thesis using act_quorum [OF s1 True] n by (auto split: if_splits)
  next
    case False
    then have "d \<in> set (executed step act es s1)"
      using Cons.prems(2) unfolding ex by (auto split: option.splits)
    from Cons.IH [OF r this] n show ?thesis
      unfolding quorum_step [OF s1] by (auto split: if_splits)
  qed
qed simp

end

section \<open>One step of the node\<close>

text \<open>What a step keeps: the configuration; what it may do to votes and marks.\<close>

definition config :: "'db PbftConsensusNode \<Rightarrow> shard_Node \<times> uint64 \<times> uint64 \<times> uint64 \<times> uint64 \<times> uint64" where
  "config p = (RunningNode p, p_ShardID p, p_NodeID p, node_nums p, malicious_nums p, p_view p)"

definition keeps :: "'db PbftConsensusNode \<Rightarrow> 'db PbftConsensusNode \<Rightarrow> bool" where
  "keeps p p' \<longleftrightarrow> config p' = config p \<and> (\<forall>d. isReply p d \<longrightarrow> isReply p' d) \<and> cntCommitConfirm p' = cntCommitConfirm p"

definition pool_ok :: "'db PbftEnv \<Rightarrow> 'db PbftConsensusNode \<Rightarrow> bool" where
  "pool_ok pe p \<longleftrightarrow> (\<forall>d r. requestPool p d = Some r \<longrightarrow> getDigest pe r = d)"

lemma decode_sender_frame [simp]:
  "config (snd (decode_sender sn p)) = config p" "isReply (snd (decode_sender sn p)) = isReply p"
  "cntCommitConfirm (snd (decode_sender sn p)) = cntCommitConfirm p" "cntPrepareConfirm (snd (decode_sender sn p)) = cntPrepareConfirm p"
  "requestPool (snd (decode_sender sn p)) = requestPool p" "sequenceID (snd (decode_sender sn p)) = sequenceID p"
  "pbftStage (snd (decode_sender sn p)) = pbftStage p" "isCommitBordcast (snd (decode_sender sn p)) = isCommitBordcast p"
  "CurChain (snd (decode_sender sn p)) = CurChain p" "sequenceLock (snd (decode_sender sn p)) = sequenceLock p"
  "height2Digest (snd (decode_sender sn p)) = height2Digest p" "askForLock (snd (decode_sender sn p)) = askForLock p"
  by (auto simp: decode_sender_def config_def split: option.split)

lemma commit_counted_frame [simp]:
  "config (commit_counted m p) = config p" "isReply (commit_counted m p) = isReply p"
  "requestPool (commit_counted m p) = requestPool p" "sequenceID (commit_counted m p) = sequenceID p"
  "pbftStage (commit_counted m p) = pbftStage p" "CurChain (commit_counted m p) = CurChain p"
  "sequenceLock (commit_counted m p) = sequenceLock p" "askForLock (commit_counted m p) = askForLock p"
  "cntPrepareConfirm (commit_counted m p) = cntPrepareConfirm p" "isCommitBordcast (commit_counted m p) = isCommitBordcast p"
  by (auto simp: commit_counted_def set2DMap_def decode_sender_def config_def split: option.split)

lemma config_fields:
  "config p' = config p \<Longrightarrow> malicious_nums p' = malicious_nums p \<and> p_NodeID p' = p_NodeID p \<and> p_view p' = p_view p \<and> RunningNode p' = RunningNode p"
  by (simp add: config_def)

lemma config_upd [simp]:
  "config (p\<lparr> askForLock := b \<rparr>) = config p" "config (p\<lparr> sequenceID := n \<rparr>) = config p" "config (p\<lparr> CurChain := bc \<rparr>) = config p"
  "config (p\<lparr> isReply := ir \<rparr>) = config p" "config (p\<lparr> requestPool := rp \<rparr>) = config p" "config (p\<lparr> pbftStage := st \<rparr>) = config p"
  "config (p\<lparr> sequenceLock := b \<rparr>) = config p" "config (p\<lparr> height2Digest := hs \<rparr>) = config p"
  by (simp_all add: config_def)

lemma pool_ok_cong: "requestPool q = requestPool p \<Longrightarrow> pool_ok pe q = pool_ok pe p"
  by (simp add: pool_ok_def)

lemma required_cnt_config: "config p' = config p \<Longrightarrow> required_cnt p' = required_cnt p"
  by (simp add: required_cnt_def config_def)

lemma required_cnt_counted [simp]: "required_cnt (commit_counted m p) = required_cnt p"
  by (rule required_cnt_config) simp

lemma specifiedcnt_config: "config p' = config p \<Longrightarrow> specifiedcnt p' = specifiedcnt p"
  by (simp add: specifiedcnt_def config_def)

lemma HandleinCommit_frame:
  assumes "HandleinCommit pe m (g, p) = Some (out, g1, p1)"
  obtains r bc1 where "requestPool p (co_Digest m) = Some (Some r)" "p1 = p\<lparr> CurChain := bc1 \<rparr>"
    "\<exists>o1. AddBlock (pe_chain pe) (DecodeB (ce_codec (pe_chain pe)) (Content r)) g (CurChain p) = Some (o1, g1, bc1)"
  using assms by (auto simp: HandleinCommit_def bind_eq_Some_iff Let_def split: option.splits prod.splits)

lemma AddBlock_current: "AddBlock ce b g bc = Some (out, g', bc') \<Longrightarrow> Body (CurrentBlock bc') = Body b \<or> \<not> trie_exists ce (GRoot (g_vm g))"
  by (auto simp: AddBlock_def bind_eq_Some_iff split: if_splits prod.splits)

lemma pool_old_frame [simp]:
  "config (pool_old pe h rs p) = config p" "cntCommitConfirm (pool_old pe h rs p) = cntCommitConfirm p"
  "CurChain (pool_old pe h rs p) = CurChain p" "askForLock (pool_old pe h rs p) = askForLock p"
  by (induction pe h rs p rule: pool_old.induct) (simp_all add: config_def Let_def)

lemma pool_old_reply: "isReply p d \<Longrightarrow> isReply (pool_old pe h rs p) d"
  by (induction pe h rs p rule: pool_old.induct) (simp_all add: Let_def)

lemma pool_ok_upd: "pool_ok pe p \<Longrightarrow> getDigest pe r = d \<Longrightarrow> requestPool q = (requestPool p)(d \<mapsto> r) \<Longrightarrow> pool_ok pe q"
  by (simp add: pool_ok_def)

lemma pool_old_ok: "pool_ok pe p \<Longrightarrow> pool_ok pe (pool_old pe h rs p)"
proof (induction rs arbitrary: h p)
  case (Cons r rs)
  show ?case
    unfolding pool_old.simps Let_def by (rule Cons.IH, rule pool_ok_upd [OF Cons.prems]) simp_all
qed simp

text \<open>The message of an answer to a request for old blocks never adds a block: its length test holds only
  when there is nothing to loop over, or the loop runs out of requests.\<close>

lemma word_step_up:
  fixes a b :: "64 word"
  assumes "a < b"
  shows "a + 1 \<le> b" "unat (b - a) = Suc (unat (b - (a + 1)))"
proof -
  have s: "unat (a + 1) = Suc (unat a)"
  proof -
    have "a \<noteq> - 1"
      using assms word_order.extremum_strict [of b] by auto
    then have "1 + a \<noteq> 0"
      by (simp add: eq_neg_iff_add_eq_0 add.commute)
    then show ?thesis
      using unatSuc [of a] by (simp add: add.commute)
  qed
  show le: "a + 1 \<le> b"
    using assms s by (simp add: word_le_nat_alt word_less_nat_alt)
  have "unat (b - a) = unat b - unat a" "unat (b - (a + 1)) = unat b - unat (a + 1)"
    using assms le by (simp_all add: unat_sub)
  then show "unat (b - a) = Suc (unat (b - (a + 1)))"
    using s assms by (simp add: word_less_nat_alt)
qed

lemma add_old_outside: "SeqEnd < height \<Longrightarrow> add_old ce height SeqEnd rs (g, bc) = Some ([], g, bc)"
  by (cases rs) (auto simp: not_le)

lemma add_old_short:
  "length rs \<le> unat (SeqEnd - height) \<Longrightarrow> height \<le> SeqEnd \<Longrightarrow> add_old ce height SeqEnd rs (g, bc) = None"
proof (induction rs arbitrary: height g bc)
  case (Cons r rs)
  have "height < SeqEnd"
    using Cons.prems by (cases "height = SeqEnd") auto
  note up = word_step_up [OF this]
  have "add_old ce (height + 1) SeqEnd rs (g', bc') = None" for g' bc'
    using Cons.IH [OF _ up(1)] Cons.prems(1) up(2) by simp
  then show ?case
    using Cons.prems(2) by (auto split: option.split bind_splits)
qed simp

lemma sint_nonneg_nat:
  fixes w :: "64 word"
  assumes "sint w = int n"
  shows "uint w = int n" "int n < 2 ^ 63"
proof -
  show n: "int n < 2 ^ 63"
    using assms sint_lt [of w] by simp
  have "uint w = take_bit 64 (sint w)"
    by (simp add: uint_sint)
  then show "uint w = int n"
    using n assms by (simp add: take_bit_int_eq_self)
qed

lemma wrapped_length:
  fixes S E :: "64 word"
  assumes "sint (S - E) = int n" "S \<le> E"
  shows "n \<le> unat (E - S)"
proof (cases "E = S")
  case True
  then show ?thesis using assms(1) by simp
next
  case False
  note u = sint_nonneg_nat [OF assms(1)]
  have ne: "uint (E - S) \<noteq> 0"
    using False by (simp add: uint_0_iff)
  have b: "0 \<le> uint (E - S)" "uint (E - S) < 2 ^ 64"
    using uint_lt2p [of "E - S"] by simp_all
  have "S - E = - (E - S)"
    by simp
  then have "int n = (- uint (E - S)) mod 2 ^ 64"
    using u(1) uint_word_ariths(4) [of "E - S"] by simp
  then have "int n = 2 ^ 64 - uint (E - S)"
    using ne b by (simp add: zmod_zminus1_eq_if)
  then have "int n \<le> uint (E - S)"
    using u(2) by simp
  then show ?thesis
    unfolding unat_eq_nat_uint by linarith
qed

lemma HandleforSequentialRequest_adds_nothing:
  assumes "HandleforSequentialRequest pe m (g, p) = Some (out, g1, p1)"
  shows "out = []" "g1 = g" "p1 = p \<or> p1 = p\<lparr> sequenceID := so_SeqEndHeight m + 1 \<rparr>"
proof -
  let ?S = "so_SeqStartHeight m" and ?E = "so_SeqEndHeight m"
  have "out = [] \<and> g1 = g \<and> (p1 = p \<or> p1 = p\<lparr> sequenceID := ?E + 1 \<rparr>)"
  proof (cases "sint (?S - ?E) = int (length (OldRequest m)) \<and> ?S \<le> ?E")
    case True
    then have "add_old (pe_chain pe) ?S ?E (OldRequest m) (g, CurChain p) = None"
      using add_old_short wrapped_length by blast
    then show ?thesis
      using assms True by (simp add: HandleforSequentialRequest_def)
  next
    case False
    then show ?thesis
      using assms by (auto simp: HandleforSequentialRequest_def add_old_outside not_le split: if_splits)
  qed
  then show "out = []" "g1 = g" "p1 = p \<or> p1 = p\<lparr> sequenceID := ?E + 1 \<rparr>"
    by simp_all
qed

lemma keeps_refl [simp]: "keeps p p"
  by (simp add: keeps_def)

lemma prepare_next_frame:
  "config (snd (prepare_next pe p)) = config p" "isReply (snd (prepare_next pe p)) = isReply p"
  "cntCommitConfirm (snd (prepare_next pe p)) = cntCommitConfirm p" "CurChain (snd (prepare_next pe p)) = CurChain p"
  "sequenceID (snd (prepare_next pe p)) = sequenceID p" "askForLock (snd (prepare_next pe p)) = askForLock p"
  by (simp_all add: prepare_next_def Let_def HandleinPrePrepare_def config_def split: option.split)

lemma prepare_next_pool: "pool_ok pe p \<Longrightarrow> pool_ok pe (snd (prepare_next pe p))"
  by (auto simp: prepare_next_def Let_def HandleinPrePrepare_def pool_ok_def split: option.split)

lemma handleSendOldSeq_effect:
  assumes "handleSendOldSeq pe m (g, p) = Some (out, g1, p1)"
  shows "g1 = g" "CurChain p1 = CurChain p" "sequenceID p1 = so_SeqEndHeight m + 1" "askForLock p" "\<not> askForLock p1"
    "keeps p p1" "pool_ok pe p \<Longrightarrow> pool_ok pe p1"
proof -
  let ?next = "\<lambda>q. prepare_next pe ((pool_old pe (so_SeqStartHeight m) (OldRequest m) q)\<lparr> sequenceID := so_SeqEndHeight m + 1 \<rparr>)"
  from assms obtain o1 q where h: "HandleforSequentialRequest pe m (g, p) = Some (o1, g1, q)"
    and a: "askForLock (snd (?next q))" and p1: "p1 = (snd (?next q))\<lparr> askForLock := False \<rparr>"
    by (auto simp: handleSendOldSeq_def bind_eq_Some_iff Let_def split_beta split: if_splits)
  note H = HandleforSequentialRequest_adds_nothing [OF h]
  have q: "config q = config p" "isReply q = isReply p" "cntCommitConfirm q = cntCommitConfirm p" "CurChain q = CurChain p"
    "requestPool q = requestPool p" "askForLock q = askForLock p"
    using H(3) by (auto simp: config_def)
  show "g1 = g" by (rule H(2))
  show "CurChain p1 = CurChain p" "sequenceID p1 = so_SeqEndHeight m + 1" "askForLock p" "\<not> askForLock p1"
    using a q by (simp_all add: p1 prepare_next_frame)
  show "keeps p p1"
    using q pool_old_reply [where p = q] by (auto simp: p1 keeps_def prepare_next_frame)
  show "pool_ok pe p1" if "pool_ok pe p"
  proof -
    have "pool_ok pe (pool_old pe (so_SeqStartHeight m) (OldRequest m) q)"
      using that q(5) pool_old_ok pool_ok_cong by metis
    then have "pool_ok pe (snd (?next q))"
      by (intro prepare_next_pool) (simp add: pool_ok_def)
    then show ?thesis
      by (simp add: p1 pool_ok_def)
  qed
qed

lemma handlePrePrepare_keeps: "keeps p (snd (handlePrePrepare pe m p))"
  by (simp add: keeps_def handlePrePrepare_def Let_def HandleinPrePrepare_def config_def)

lemma handlePrePrepare_pool:
  "pool_ok pe p \<Longrightarrow> pool_ok pe (snd (handlePrePrepare pe m p))" "sequenceID (snd (handlePrePrepare pe m p)) = sequenceID p"
  by (auto simp: pool_ok_def handlePrePrepare_def Let_def HandleinPrePrepare_def split: if_splits)

lemma handlePrepare_keeps: "keeps p (snd (handlePrepare m p))"
  by (simp add: keeps_def handlePrepare_def Let_def set2DMap_def config_def decode_sender_def split: option.split)

lemma handlePrepare_pool:
  "pool_ok pe p \<Longrightarrow> pool_ok pe (snd (handlePrepare m p))" "sequenceID (snd (handlePrepare m p)) = sequenceID p"
  by (simp_all add: pool_ok_def handlePrepare_def Let_def set2DMap_def decode_sender_def split: option.split)

lemma Propose_keeps:
  assumes "Propose pe (g, p) = Some (out, g1, p1)"
  shows "keeps p p1" "pool_ok pe p \<Longrightarrow> pool_ok pe p1" "sequenceID p1 = sequenceID p"
  using assms by (auto simp: Propose_def HandleinPropose_def bind_eq_Some_iff Let_def keeps_def config_def pool_ok_def split: if_splits prod.splits)

lemma HandleMessageOutsidePBFT_frame:
  "keeps p (snd (HandleMessageOutsidePBFT pe m p))"
  "pool_ok pe p \<Longrightarrow> pool_ok pe (snd (HandleMessageOutsidePBFT pe' m p))"
  "sequenceID (snd (HandleMessageOutsidePBFT pe m p)) = sequenceID p"
  by (simp_all add: pool_ok_def HandleMessageOutsidePBFT_def keeps_def config_def handleSeqIDinfos_def handleInjectTx_def handleInjectTxHead_def
      split: pbft_msg.split)

lemma end_round_Some:
  assumes "end_round p = Some p1"
  obtains l where "p1 = p\<lparr> pbftStage := 1, sequenceLock := l \<rparr>" "l \<longrightarrow> p_NodeID p \<noteq> p_view p"
proof (cases "p_NodeID p = p_view p")
  case True
  then have "p1 = p\<lparr> pbftStage := 1, sequenceLock := False \<rparr>"
    using assms by (simp add: end_round_def split: if_splits)
  then show thesis by (rule that) simp
next
  case False
  then have "p1 = p\<lparr> pbftStage := 1 \<rparr>"
    using assms by (simp add: end_round_def)
  then have "p1 = p\<lparr> pbftStage := 1, sequenceLock := sequenceLock p \<rparr>"
    by simp
  then show thesis by (rule that) (use False in simp)
qed

text \<open>The three outcomes of a commit message.\<close>

lemma handleCommit_cases:
  assumes "handleCommit pe m (g, p) = Some (out, g1, p1)"
  obtains (counted) "\<not> commit_ready m p" "p1 = commit_counted m p" "g1 = g"
  | (behind) l where "commit_ready m p" "requestPool p (co_Digest m) = None" "g1 = g"
      "p1 = (commit_counted m p)\<lparr> isReply := (isReply p)(co_Digest m := True), askForLock := True, pbftStage := 1, sequenceLock := l \<rparr>"
  | (committed) r bc1 o1 l where "commit_ready m p" "requestPool p (co_Digest m) = Some (Some r)"
      "AddBlock (pe_chain pe) (DecodeB (ce_codec (pe_chain pe)) (Content r)) g (CurChain p) = Some (o1, g1, bc1)"
      "p1 = (commit_counted m p)\<lparr> CurChain := bc1, isReply := (isReply p)(co_Digest m := True), sequenceID := sequenceID p + 1,
         requestPool := (requestPool p)(co_Digest m := None), pbftStage := 1, sequenceLock := l \<rparr>"
proof (cases "commit_ready m p")
  case False
  then show ?thesis using assms by (intro counted) (simp_all add: handleCommit_def Let_def)
next
  case ready: True
  let ?c = "commit_counted m p"
  show ?thesis
  proof (cases "requestPool p (co_Digest m)")
    case None
    with assms ready have "end_round (?c\<lparr> isReply := (isReply p)(co_Digest m := True), askForLock := True \<rparr>) = Some p1" "g1 = g"
      by (auto simp: handleCommit_def Let_def bind_eq_Some_iff)
    from end_round_Some [OF this(1)] this(2) show ?thesis
      using behind ready None by metis
  next
    case (Some ro)
    with assms ready obtain o1 q where h: "HandleinCommit pe m (g, ?c) = Some (o1, g1, q)"
      and "end_round (q\<lparr> isReply := (isReply q)(co_Digest m := True), sequenceID := sequenceID q + 1,
         requestPool := (requestPool q)(co_Digest m := None) \<rparr>) = Some p1"
      by (auto simp: handleCommit_def Let_def bind_eq_Some_iff)
    from end_round_Some [OF this(2)] obtain l where p1: "p1 = q\<lparr> isReply := (isReply q)(co_Digest m := True),
         sequenceID := sequenceID q + 1, requestPool := (requestPool q)(co_Digest m := None), pbftStage := 1, sequenceLock := l \<rparr>"
      by blast
    from HandleinCommit_frame [OF h] obtain r bc1 o2 where r: "requestPool p (co_Digest m) = Some (Some r)"
      "q = ?c\<lparr> CurChain := bc1 \<rparr>"
      "AddBlock (pe_chain pe) (DecodeB (ce_codec (pe_chain pe)) (Content r)) g (CurChain p) = Some (o2, g1, bc1)"
      by (metis commit_counted_frame(3) commit_counted_frame(6))
    show ?thesis
      by (rule committed [OF ready r(1) r(3), where l = l]) (simp add: p1 r(2))
  qed
qed

lemma handleCommit_facts:
  assumes "handleCommit pe m (g, p) = Some (out, g1, p1)"
  shows "keeps (commit_counted m p) p1" "pool_ok pe p \<Longrightarrow> pool_ok pe p1"
    "sequenceID p1 = sequenceID p + (if executes (Receive (CCommit m)) p = None then 0 else 1)"
    "commit_ready m p \<Longrightarrow> isReply p1 (co_Digest m)"
proof -
  have "keeps (commit_counted m p) p1 \<and> (pool_ok pe p \<longrightarrow> pool_ok pe p1) \<and>
    sequenceID p1 = sequenceID p + (if executes (Receive (CCommit m)) p = None then 0 else 1) \<and>
    (commit_ready m p \<longrightarrow> isReply p1 (co_Digest m))"
    by (cases rule: handleCommit_cases [OF assms]) (auto simp: keeps_def pool_ok_def executes_def)
  then show "keeps (commit_counted m p) p1" "pool_ok pe p \<Longrightarrow> pool_ok pe p1"
    "sequenceID p1 = sequenceID p + (if executes (Receive (CCommit m)) p = None then 0 else 1)"
    "commit_ready m p \<Longrightarrow> isReply p1 (co_Digest m)"
    by auto
qed

section \<open>The node is a quorum log\<close>

definition commit_vote :: "event \<Rightarrow> bytes option" where
  "commit_vote e = (case e of Receive (CCommit m) \<Rightarrow> Some (co_Digest m) | _ \<Rightarrow> None)"

definition is_catch_up :: "event \<Rightarrow> bool" where
  "is_catch_up e = (case e of Receive (CSendOldrequest m) \<Rightarrow> True | _ \<Rightarrow> False)"

lemma step_facts:
  assumes "pbft_step pe e (g, p) = Some (out, g1, p1)"
  shows "keeps (case e of Receive (CCommit m) \<Rightarrow> commit_counted m p | _ \<Rightarrow> p) p1" "pool_ok pe p \<Longrightarrow> pool_ok pe p1"
    "\<not> is_catch_up e \<Longrightarrow> sequenceID p1 = sequenceID p + (if executes e p = None then 0 else 1)"
    "executes e p = Some d \<Longrightarrow> isReply p1 d"
proof -
  have "keeps (case e of Receive (CCommit m) \<Rightarrow> commit_counted m p | _ \<Rightarrow> p) p1 \<and> (pool_ok pe p \<longrightarrow> pool_ok pe p1) \<and>
    (\<not> is_catch_up e \<longrightarrow> sequenceID p1 = sequenceID p + (if executes e p = None then 0 else 1)) \<and>
    (executes e p = Some d \<longrightarrow> isReply p1 d)"
  proof (cases e)
    case Proposing
    with assms have "Propose pe (g, p) = Some (out, g1, p1)"
      by (simp add: pbft_step_def split: if_splits)
    from Propose_keeps [OF this] show ?thesis
      by (simp add: Proposing executes_def)
  next
    case (Receive m)
    with assms have h: "handleMessage pe m (g, p) = Some (out, g1, p1)"
      by (simp add: pbft_step_def split: if_splits)
    show ?thesis
    proof (cases m)
      case (CCommit c)
      then show ?thesis
        using h handleCommit_facts [where m = c and pe = pe and g = g and p = p]
        by (auto simp: handleMessage_def Receive executes_def split: if_splits)
    next
      case (CSendOldrequest c)
      then show ?thesis
        using h handleSendOldSeq_effect [where m = c and pe = pe and g = g and p = p]
        by (auto simp: handleMessage_def Receive executes_def is_catch_up_def)
    qed (use h handlePrePrepare_keeps handlePrePrepare_pool handlePrepare_keeps handlePrepare_pool HandleMessageOutsidePBFT_frame
        in \<open>auto simp: handleMessage_def Receive executes_def is_catch_up_def bind_eq_Some_iff split_beta\<close>)
  qed
  then show "keeps (case e of Receive (CCommit m) \<Rightarrow> commit_counted m p | _ \<Rightarrow> p) p1" "pool_ok pe p \<Longrightarrow> pool_ok pe p1"
    "\<not> is_catch_up e \<Longrightarrow> sequenceID p1 = sequenceID p + (if executes e p = None then 0 else 1)"
    "executes e p = Some d \<Longrightarrow> isReply p1 d"
    by auto
qed

lemma count_votes_add_le: "count_votes (add_vote vs key v) d \<le> count_votes vs d + (if key = d then 1 else 0)"
  by (auto simp: add_vote_def count_votes_def List.insert_def split: option.split)

lemma commit_counted_votes:
  "co_Digest m = d \<Longrightarrow> count_votes (cntCommitConfirm (commit_counted m p)) d \<le> Suc (count_votes (cntCommitConfirm p) d)"
  "co_Digest m \<noteq> d \<Longrightarrow> count_votes (cntCommitConfirm (commit_counted m p)) d \<le> count_votes (cntCommitConfirm p) d"
  using count_votes_add_le [of "cntCommitConfirm p" "co_Digest m" _ d]
  by (auto simp: commit_counted_def set2DMap_def decode_sender_def split: option.split)

lemma step_votes:
  assumes "pbft_step pe e (g, p) = Some (out, g1, p1)"
  shows "cntCommitConfirm p1 = cntCommitConfirm (case e of Receive (CCommit m) \<Rightarrow> commit_counted m p | _ \<Rightarrow> p)"
    "config p1 = config p" "isReply p d \<Longrightarrow> isReply p1 d"
  using step_facts(1) [OF assms] by (auto simp: keeps_def split: event.splits pbft_msg.splits)

interpretation pbft: quorum_log "pbft_step pe" "\<lambda>e s. executes e (snd s)" commit_vote
  "\<lambda>s. count_votes (cntCommitConfirm (snd s))" "\<lambda>s. isReply (snd s)" "\<lambda>s. required_cnt (snd s)" for pe :: "'db PbftEnv"
proof
  fix e out d and s s' :: "'db pbft_state"
  obtain g p g1 p1 where s: "s = (g, p)" "s' = (g1, p1)" by (cases s, cases s')
  assume st: "pbft_step pe e s = Some (out, s')"
  note F = step_votes [OF st [unfolded s]] and G = step_facts [OF st [unfolded s]]
  show "count_votes (cntCommitConfirm (snd s')) d \<le> count_votes (cntCommitConfirm (snd s)) d + (if commit_vote e = Some d then 1 else 0)"
    unfolding s using F(1) commit_counted_votes [where p = p and d = d]
    by (auto simp: commit_vote_def split: event.split pbft_msg.split)
  show "isReply (snd s) d \<Longrightarrow> isReply (snd s') d"
    unfolding s using F(3) by simp
  show "required_cnt (snd s') = required_cnt (snd s)"
    unfolding s using required_cnt_config [OF F(2)] by simp
  show "\<not> isReply (snd s) d \<and> isReply (snd s') d" if "executes e (snd s) = Some d"
    using that G(4) unfolding s
    by (auto simp: executes_def commit_ready_def Let_def split: event.splits pbft_msg.splits if_splits)
  show "required_cnt (snd s) \<le> int (count_votes (cntCommitConfirm (snd s')) d)" if "executes e (snd s) = Some d"
    using that F(1) unfolding s
    by (auto simp: executes_def commit_ready_def Let_def split: event.splits pbft_msg.splits if_splits)
qed

section \<open>Safety of every run\<close>

lemma NewPbftNode_simps [simp]:
  "cntCommitConfirm (NewPbftNode sh nd n ss tb bc) = Map.empty" "requestPool (NewPbftNode sh nd n ss tb bc) = Map.empty"
  "malicious_nums (NewPbftNode sh nd n ss tb bc) = (n - 1) div 3" "CurChain (NewPbftNode sh nd n ss tb bc) = bc"
  "p_NodeID (NewPbftNode sh nd n ss tb bc) = nd" "p_view (NewPbftNode sh nd n ss tb bc) = 0" "pbftStage (NewPbftNode sh nd n ss tb bc) = 1"
  "isReply (NewPbftNode sh nd n ss tb bc) = (\<lambda>d. False)" "sequenceID (NewPbftNode sh nd n ss tb bc) = Number (Header (CurrentBlock bc)) + 1"
  by (simp_all add: NewPbftNode_def)

lemma run_facts:
  assumes "run_steps (pbft_step pe) es (g, p) = Some (out, g1, p1)"
  shows "pool_ok pe p \<Longrightarrow> pool_ok pe p1" "config p1 = config p"
    "list_all (\<lambda>e. \<not> is_catch_up e) es \<Longrightarrow>
       sequenceID p1 = sequenceID p + of_nat (length (executed (pbft_step pe) (\<lambda>e s. executes e (snd s)) es (g, p)))"
proof -
  have "(pool_ok pe p \<longrightarrow> pool_ok pe p1) \<and> config p1 = config p \<and> (list_all (\<lambda>e. \<not> is_catch_up e) es \<longrightarrow>
       sequenceID p1 = sequenceID p + of_nat (length (executed (pbft_step pe) (\<lambda>e s. executes e (snd s)) es (g, p))))"
    using assms
  proof (induction es arbitrary: g p out)
    case (Cons e es)
    from Cons.prems obtain o1 g2 p2 o2 where s1: "pbft_step pe e (g, p) = Some (o1, g2, p2)"
      and r: "run_steps (pbft_step pe) es (g2, p2) = Some (o2, g1, p1)"
      by (auto simp: bind_eq_Some_iff split_beta)
    from Cons.IH [OF r] step_facts [OF s1] step_votes(2) [OF s1] s1 show ?case
      by (auto split: option.split)
  qed simp
  then show "pool_ok pe p \<Longrightarrow> pool_ok pe p1" "config p1 = config p"
    "list_all (\<lambda>e. \<not> is_catch_up e) es \<Longrightarrow>
       sequenceID p1 = sequenceID p + of_nat (length (executed (pbft_step pe) (\<lambda>e s. executes e (snd s)) es (g, p)))"
    by auto
qed


section \<open>A round that commits\<close>

definition fresh_votes :: "votes \<Rightarrow> bytes \<Rightarrow> nat \<Rightarrow> nat \<Rightarrow> bool" where
  "fresh_votes vs d c k \<longleftrightarrow> count_votes vs d = c \<and> (\<forall>l. vs d = Some l \<longrightarrow> (\<forall>j. Some j \<in> set l \<longrightarrow> j < k))"

lemma fresh_votes_add:
  "fresh_votes vs d c k \<Longrightarrow> fresh_votes (add_vote vs d (Some k)) d (Suc c) (Suc k)"
  by (auto simp: fresh_votes_def add_vote_def count_votes_def List.insert_def less_Suc_eq split: option.splits)

text \<open>The states of a round of a node that is not the main node: \<open>c\<close> prepares or commits counted.\<close>

definition preparing :: "Request \<Rightarrow> bytes \<Rightarrow> 'db PbftConsensusNode \<Rightarrow> nat \<Rightarrow> 'db PbftConsensusNode \<Rightarrow> bool" where
  "preparing r d p0 c p \<longleftrightarrow> config p = config p0 \<and> CurChain p = CurChain p0 \<and> sequenceID p = sequenceID p0 \<and>
     requestPool p d = Some (Some r) \<and> \<not> isReply p d \<and> \<not> isCommitBordcast p d \<and>
     fresh_votes (cntPrepareConfirm p) d c (next_ptr p) \<and> cntCommitConfirm p d = None \<and> pbftStage p = 2"

definition committing :: "Request \<Rightarrow> bytes \<Rightarrow> 'db PbftConsensusNode \<Rightarrow> nat \<Rightarrow> 'db PbftConsensusNode \<Rightarrow> bool" where
  "committing r d p0 c p \<longleftrightarrow> config p = config p0 \<and> CurChain p = CurChain p0 \<and> sequenceID p = sequenceID p0 \<and>
     requestPool p d = Some (Some r) \<and> \<not> isReply p d \<and>
     fresh_votes (cntCommitConfirm p) d c (next_ptr p) \<and> pbftStage p = 3"

lemma prepare_step:
  assumes P: "preparing r d p0 c p" and m: "pr_Digest m = d" "pr_SeqID m = sequenceID p0" "pr_SenderNode m = Some sn"
  shows "\<exists>o1 p1. pbft_step pe (Receive (CPrepare m)) (g, p) = Some (o1, g, p1) \<and>
     (if int (Suc c) < specifiedcnt p0 then preparing r d p0 (Suc c) p1 else committing r d p0 0 p1)"
proof -
  let ?p1 = "p\<lparr> next_ptr := Suc (next_ptr p), cntPrepareConfirm := add_vote (cntPrepareConfirm p) d (Some (next_ptr p)) \<rparr>"
  have f: "fresh_votes (cntPrepareConfirm ?p1) d (Suc c) (next_ptr ?p1)"
    using P fresh_votes_add by (simp add: preparing_def)
  then have cnt: "count_votes (cntPrepareConfirm ?p1) d = Suc c"
    by (simp add: fresh_votes_def)
  have cfg: "config ?p1 = config p0"
    using P by (simp add: preparing_def config_def)
  have "pbft_step pe (Receive (CPrepare m)) (g, p) = Some (fst (handlePrepare m p), g, snd (handlePrepare m p))"
    using P by (simp add: pbft_step_def must_wait_def handleMessage_def preparing_def split_beta)
  moreover have "snd (handlePrepare m p) = (if int (Suc c) < specifiedcnt p0 then ?p1
      else ?p1\<lparr> isCommitBordcast := (isCommitBordcast p)(d := True), pbftStage := pbftStage p + 1 \<rparr>)"
    using P m cnt specifiedcnt_config [OF cfg]
    by (simp add: handlePrepare_def decode_sender_def set2DMap_def preparing_def not_less split_beta Let_def)
  moreover have "preparing r d p0 (Suc c) ?p1"
    using P f cfg by (simp add: preparing_def)
  moreover have "committing r d p0 0 (?p1\<lparr> isCommitBordcast := (isCommitBordcast p)(d := True), pbftStage := pbftStage p + 1 \<rparr>)"
    using P cfg by (simp add: preparing_def committing_def fresh_votes_def count_votes_def config_def)
  ultimately show ?thesis
    by auto
qed

lemma commit_step:
  assumes C: "committing r d p0 c p" and m: "co_Digest m = d" "co_SeqID m = sequenceID p0" "co_SenderNode m = Some sn"
  shows "int (Suc c) < required_cnt p0 \<Longrightarrow>
      \<exists>p1. pbft_step pe (Receive (CCommit m)) (g, p) = Some ([], g, p1) \<and> committing r d p0 (Suc c) p1"
    "required_cnt p0 \<le> int (Suc c) \<Longrightarrow> p_NodeID p0 \<noteq> p_view p0 \<Longrightarrow>
      AddBlock (pe_chain pe) (DecodeB (ce_codec (pe_chain pe)) (Content r)) g (CurChain p0) = Some (o1, g1, bc1) \<Longrightarrow>
      \<exists>o2 p1. pbft_step pe (Receive (CCommit m)) (g, p) = Some (o2, g1, p1) \<and> CurChain p1 = bc1 \<and>
        sequenceID p1 = sequenceID p0 + 1 \<and> pbftStage p1 = 1 \<and> isReply p1 d"
proof -
  let ?p1 = "p\<lparr> next_ptr := Suc (next_ptr p), cntCommitConfirm := add_vote (cntCommitConfirm p) d (Some (next_ptr p)) \<rparr>"
  have cc: "commit_counted m p = ?p1"
    using m by (simp add: commit_counted_def decode_sender_def set2DMap_def)
  have f: "fresh_votes (cntCommitConfirm ?p1) d (Suc c) (next_ptr ?p1)"
    using C fresh_votes_add by (simp add: committing_def)
  then have cnt: "count_votes (cntCommitConfirm ?p1) d = Suc c"
    by (simp add: fresh_votes_def)
  have cfg: "config ?p1 = config p0"
    using C by (simp add: committing_def config_def)
  have ready: "commit_ready m p \<longleftrightarrow> required_cnt p0 \<le> int (Suc c)"
    using C m cnt required_cnt_config [OF cfg] by (simp add: commit_ready_def cc committing_def Let_def)
  have st: "pbft_step pe (Receive (CCommit m)) (g, p) = handleCommit pe m (g, p)"
    using C m by (simp add: pbft_step_def must_wait_def handleMessage_def committing_def)
  show "\<exists>p1. pbft_step pe (Receive (CCommit m)) (g, p) = Some ([], g, p1) \<and> committing r d p0 (Suc c) p1"
    if "int (Suc c) < required_cnt p0"
  proof -
    have "committing r d p0 (Suc c) ?p1"
      using C f cfg by (simp add: committing_def)
    then show ?thesis
      using that ready by (simp add: st handleCommit_def cc Let_def)
  qed
  show "\<exists>o2 p1. pbft_step pe (Receive (CCommit m)) (g, p) = Some (o2, g1, p1) \<and> CurChain p1 = bc1 \<and>
        sequenceID p1 = sequenceID p0 + 1 \<and> pbftStage p1 = 1 \<and> isReply p1 d"
    if "required_cnt p0 \<le> int (Suc c)" "p_NodeID p0 \<noteq> p_view p0"
      "AddBlock (pe_chain pe) (DecodeB (ce_codec (pe_chain pe)) (Content r)) g (CurChain p0) = Some (o1, g1, bc1)"
    using that C m ready config_fields [OF cfg]
    by (simp add: st handleCommit_def cc HandleinCommit_def end_round_def committing_def Let_def)
qed

lemma run_steps_append:
  assumes "run_steps step es s = Some (o1, s1)" "run_steps step fs s1 = Some (o2, s2)"
  shows "run_steps step (es @ fs) s = Some (o1 @ o2, s2)"
  using assms by (induction es arbitrary: s o1) (auto simp: bind_eq_Some_iff split_beta)

definition prepare_for :: "bytes \<Rightarrow> uint64 \<Rightarrow> PrepareMsg \<Rightarrow> bool" where
  "prepare_for d k m \<longleftrightarrow> pr_Digest m = d \<and> pr_SeqID m = k \<and> pr_SenderNode m \<noteq> None"

definition commit_for :: "bytes \<Rightarrow> uint64 \<Rightarrow> Commit \<Rightarrow> bool" where
  "commit_for d k m \<longleftrightarrow> co_Digest m = d \<and> co_SeqID m = k \<and> co_SenderNode m \<noteq> None"

lemma prepares_run:
  assumes "preparing r d p0 c p" "list_all (prepare_for d (sequenceID p0)) ps" "ps \<noteq> []" "specifiedcnt p0 = int (c + length ps)"
  shows "\<exists>o1 p1. run_steps (pbft_step pe) (map (\<lambda>m. Receive (CPrepare m)) ps) (g, p) = Some (o1, g, p1) \<and> committing r d p0 0 p1"
  using assms
proof (induction ps arbitrary: p c)
  case (Cons m ps)
  obtain sn where m: "pr_Digest m = d" "pr_SeqID m = sequenceID p0" "pr_SenderNode m = Some sn"
    using Cons.prems(2) by (auto simp: prepare_for_def)
  obtain o1 p1 where s1: "pbft_step pe (Receive (CPrepare m)) (g, p) = Some (o1, g, p1)"
    and p1: "if int (Suc c) < specifiedcnt p0 then preparing r d p0 (Suc c) p1 else committing r d p0 0 p1"
    using prepare_step [OF Cons.prems(1) m] by blast
  show ?case
  proof (cases "ps = []")
    case True
    then show ?thesis using s1 p1 Cons.prems(4) by simp
  next
    case False
    then have "preparing r d p0 (Suc c) p1"
      using p1 Cons.prems(4) by (simp split: if_splits)
    from Cons.IH [OF this _ False] Cons.prems show ?thesis
      using s1 by auto
  qed
qed simp

lemma commits_run:
  assumes "committing r d p0 c p" "list_all (commit_for d (sequenceID p0)) cs" "cs \<noteq> []" "required_cnt p0 = int (c + length cs)"
    "p_NodeID p0 \<noteq> p_view p0"
    "AddBlock (pe_chain pe) (DecodeB (ce_codec (pe_chain pe)) (Content r)) g (CurChain p0) = Some (o1, g1, bc1)"
  shows "\<exists>o2 p1. run_steps (pbft_step pe) (map (\<lambda>m. Receive (CCommit m)) cs) (g, p) = Some (o2, g1, p1) \<and> CurChain p1 = bc1 \<and>
        sequenceID p1 = sequenceID p0 + 1 \<and> pbftStage p1 = 1 \<and> isReply p1 d"
  using assms(1-4)
proof (induction cs arbitrary: p c)
  case (Cons m cs)
  obtain sn where m: "co_Digest m = d" "co_SeqID m = sequenceID p0" "co_SenderNode m = Some sn"
    using Cons.prems(2) by (auto simp: commit_for_def)
  note S = commit_step [OF Cons.prems(1) m]
  show ?case
  proof (cases "cs = []")
    case True
    then show ?thesis using S(2) [OF _ assms(5,6)] Cons.prems(4) by auto
  next
    case False
    then obtain p1 where s1: "pbft_step pe (Receive (CCommit m)) (g, p) = Some ([], g, p1)" and p1: "committing r d p0 (Suc c) p1"
      using S(1) [where g = g] Cons.prems(4) by auto
    from Cons.IH [OF p1 _ False] Cons.prems show ?thesis
      using s1 by auto
  qed
qed simp

lemma round_runs:
  assumes p: "p_NodeID p \<noteq> p_view p" "pbftStage p = 1" "\<not> isReply p d" "\<not> isCommitBordcast p d"
      "cntPrepareConfirm p d = None" "cntCommitConfirm p d = None"
    and r: "getDigest pe (Some r) = d" "DecodeB (ce_codec (pe_chain pe)) (Content r) = b"
    and store: "trie_exists (pe_chain pe) (GRoot (g_vm g))" "bolt_laws (ce_bolt (pe_chain pe))" "good_key (Hash b)"
    and ps: "list_all (prepare_for d (sequenceID p)) ps" "ps \<noteq> []" "specifiedcnt p = int (length ps)"
    and cs: "list_all (commit_for d (sequenceID p)) cs" "cs \<noteq> []" "required_cnt p = int (length cs)"
  shows "\<exists>out p1. run_steps (pbft_step pe)
      (Receive (CPrePrepare \<lparr> RequestMsg = Some r, pp_Digest = d, pp_SeqID = sequenceID p \<rparr>)
       # map (\<lambda>m. Receive (CPrepare m)) ps @ map (\<lambda>m. Receive (CCommit m)) cs) (g, p) = Some (out, g, p1) \<and>
     CurrentBlock (CurChain p1) = b \<and> sequenceID p1 = sequenceID p + 1 \<and> pbftStage p1 = 1 \<and> isReply p1 d"
proof -
  let ?pp = "\<lparr> RequestMsg = Some r, pp_Digest = d, pp_SeqID = sequenceID p \<rparr>"
  obtain bc1 where add: "AddBlock (pe_chain pe) (DecodeB (ce_codec (pe_chain pe)) (Content r)) g (CurChain p) = Some ([], g, bc1)"
    and cur: "CurrentBlock bc1 = b"
    unfolding r(2) using AddBlock_receives [OF store, of "CurChain p"] by blast
  obtain o1 p1 where s1: "pbft_step pe (Receive (CPrePrepare ?pp)) (g, p) = Some (o1, g, p1)" and p1: "preparing r d p 0 p1"
    using p r by (auto simp: pbft_step_def must_wait_def handleMessage_def handlePrePrepare_def HandleinPrePrepare_def Let_def
        preparing_def fresh_votes_def count_votes_def config_def)
  obtain o2 p2 where s2: "run_steps (pbft_step pe) (map (\<lambda>m. Receive (CPrepare m)) ps) (g, p1) = Some (o2, g, p2)"
    and p2: "committing r d p 0 p2"
    using prepares_run [OF p1 ps(1,2), where pe = pe and g = g] ps(3) by auto
  obtain o3 p3 where s3: "run_steps (pbft_step pe) (map (\<lambda>m. Receive (CCommit m)) cs) (g, p2) = Some (o3, g, p3)"
    and p3: "CurChain p3 = bc1 \<and> sequenceID p3 = sequenceID p + 1 \<and> pbftStage p3 = 1 \<and> isReply p3 d"
    using commits_run [OF p2 cs(1,2) _ p(1) add] cs(3) by auto
  have "run_steps (pbft_step pe) (Receive (CPrePrepare ?pp) # map (\<lambda>m. Receive (CPrepare m)) ps @ map (\<lambda>m. Receive (CCommit m)) cs) (g, p)
     = Some (o1 @ o2 @ o3, g, p3)"
    using s1 run_steps_append [OF s2 s3] by simp
  then show ?thesis
    using p3 cur by blast
qed


text \<open>A shard of four nodes, seen by node 1; node 3 repeats its votes.\<close>

definition example_pe :: "(string \<times> bytes \<rightharpoonup> bytes) PbftEnv" where
  "example_pe = \<lparr> pe_chain = example_ce, getDigest = (\<lambda>r. case r of None \<Rightarrow> [] | Some q \<Rightarrow> 7 # Content q), pe_clock = int \<rparr>"

definition example_node :: "(string \<times> bytes \<rightharpoonup> bytes) PbftConsensusNode" where
  "example_node = NewPbftNode 0 1 4 2 (\<lambda>s. [(0, ''a''), (1, ''b''), (2, ''c''), (3, ''d'')]) example_bc"

definition node3 :: shard_Node where
  "node3 = \<lparr> sn_NodeID = 3, sn_ShardID = 0, IPaddr = ''d'' \<rparr>"

definition example_request :: Request where
  "example_request = \<lparr> RequestType = BlockRequest, Content = [1], ReqTime = 0 \<rparr>"

definition example_prepare :: PrepareMsg where
  "example_prepare = \<lparr> pr_Digest = [7, 1], pr_SeqID = 5, pr_SenderNode = Some node3 \<rparr>"

definition example_commit :: Commit where
  "example_commit = \<lparr> co_Digest = [7, 1], co_SeqID = 5, co_SenderNode = Some node3 \<rparr>"

definition example_events :: "event list" where
  "example_events = [Receive (CPrePrepare \<lparr> RequestMsg = Some example_request, pp_Digest = [7, 1], pp_SeqID = 5 \<rparr>),
     Receive (CPrepare example_prepare), Receive (CCommit example_commit), Receive (CCommit example_commit)]"

lemma example_round_hyps:
  "p_NodeID example_node \<noteq> p_view example_node" "pbftStage example_node = 1" "\<not> isReply example_node [7, 1]"
  "\<not> isCommitBordcast example_node [7, 1]" "cntPrepareConfirm example_node [7, 1] = None" "cntCommitConfirm example_node [7, 1] = None"
  "getDigest example_pe (Some example_request) = [7, 1]"
  "DecodeB (ce_codec (pe_chain example_pe)) (Content example_request) = example_block"
  "trie_exists (pe_chain example_pe) (GRoot (g_vm example_globals))" "bolt_laws (ce_bolt (pe_chain example_pe))" "good_key (Hash example_block)"
  "list_all (prepare_for [7, 1] (sequenceID example_node)) [example_prepare]" "[example_prepare] \<noteq> []"
  "specifiedcnt example_node = int (length [example_prepare])"
  "list_all (commit_for [7, 1] (sequenceID example_node)) [example_commit, example_commit]" "[example_commit, example_commit] \<noteq> []"
  "required_cnt example_node = int (length [example_commit, example_commit])"
  using map_bolt_laws
  by (simp_all add: example_node_def NewPbftNode_def example_pe_def example_request_def example_ce_def example_codec_def example_block_def
      good_key_def example_prepare_def example_commit_def prepare_for_def commit_for_def node3_def example_bc_def specifiedcnt_def required_cnt_def)

lemma example_sequence: "sequenceID example_node = 5"
  by (simp add: example_node_def example_bc_def example_block_def)

lemma example_run:
  "\<exists>out p1. run_steps (pbft_step example_pe) example_events (example_globals, example_node) = Some (out, example_globals, p1) \<and>
     CurrentBlock (CurChain p1) = example_block"
  using round_runs [OF example_round_hyps] by (auto simp: example_sequence example_events_def)

text \<open>C4: a round ends. A node that is not the main node, at the first stage, that receives the
  pre-prepare of a new block with its right digest and current number, then as many prepares as it
  asks for and as many commits as it asks for, all with that digest and number, adds the block:
  it is the current block, the sequence number has advanced by one, the node is at the first stage
  again. Nothing is said of who sent the prepares and commits: a single sender that repeats its
  message is enough, since votes are counted by the address of the decoded sender.\<close>
theorem pbft_round_commits:
  assumes p: "p_NodeID p \<noteq> p_view p" "pbftStage p = 1" "\<not> isReply p d" "\<not> isCommitBordcast p d"
      "cntPrepareConfirm p d = None" "cntCommitConfirm p d = None"
    and r: "getDigest pe (Some r) = d" "DecodeB (ce_codec (pe_chain pe)) (Content r) = b"
    and store: "trie_exists (pe_chain pe) (GRoot (g_vm g))" "bolt_laws (ce_bolt (pe_chain pe))" "good_key (Hash b)"
    and ps: "list_all (prepare_for d (sequenceID p)) ps" "ps \<noteq> []" "specifiedcnt p = int (length ps)"
    and cs: "list_all (commit_for d (sequenceID p)) cs" "cs \<noteq> []" "required_cnt p = int (length cs)"
  shows "\<exists>out p1. run_steps (pbft_step pe)
      (Receive (CPrePrepare \<lparr> RequestMsg = Some r, pp_Digest = d, pp_SeqID = sequenceID p \<rparr>)
       # map (\<lambda>m. Receive (CPrepare m)) ps @ map (\<lambda>m. Receive (CCommit m)) cs) (g, p) = Some (out, g, p1) \<and>
     CurrentBlock (CurChain p1) = b \<and> sequenceID p1 = sequenceID p + 1 \<and> pbftStage p1 = 1 \<and> isReply p1 d"
  by (rule round_runs [OF assms])

theorem pbft_round_commits_witness:
  "\<exists>out p1. run_steps (pbft_step example_pe) example_events (example_globals, example_node) = Some (out, example_globals, p1) \<and>
     CurrentBlock (CurChain p1) = example_block \<and> sequenceID p1 = 6"
  using pbft_round_commits [OF example_round_hyps] by (auto simp: example_sequence example_events_def)


section \<open>Catching up\<close>

lemma pool_old_replies: "ro \<in> set rs \<Longrightarrow> isReply (pool_old pe h rs p) (getDigest pe ro)"
  by (induction pe h rs p rule: pool_old.induct) (auto simp: Let_def pool_old_reply)

lemma handleSendOldSeq_replies:
  assumes "handleSendOldSeq pe m (g, p) = Some (out, g1, p1)" "ro \<in> set (OldRequest m)"
  shows "isReply p1 (getDigest pe ro)"
  using assms pool_old_replies
  by (auto simp: handleSendOldSeq_def bind_eq_Some_iff Let_def split_beta prepare_next_frame split: if_splits)

text \<open>a node that has fallen behind never gets the blocks it misses. The main node has dropped the
  request of every height it has committed, so its answer for a range that starts with such a height
  holds no request; and whatever an answer holds, handling it either panics or leaves the chain as it
  was, moves the sequence number behind the range, and marks the digest of every request in the
  answer as done, so that no later commit adds that block.\<close>
theorem catch_up_adds_no_block:
  assumes main: "p_view q = p_NodeID q" "height2Digest q (ro_SeqStartHeight ro) = Some d" "requestPool q d = None" "ro_SenderNode ro = Some n"
    and answer: "handleSendOldSeq pe m (g, p) = Some (out, g1, p1)"
  shows "handleRequestOldSeq ro q = Some [Dial (IPaddr n) (CSendOldrequest \<lparr> so_SeqStartHeight = ro_SeqStartHeight ro,
       so_SeqEndHeight = ro_SeqEndHeight ro, OldRequest = [], so_SenderNode = Some (RunningNode q) \<rparr>)] \<and>
     CurChain p1 = CurChain p \<and> g1 = g \<and> sequenceID p1 = so_SeqEndHeight m + 1 \<and>
     (\<forall>r\<in>set (OldRequest m). isReply p1 (getDigest pe r))"
proof (intro conjI ballI)
  have "old_requests q (ro_SeqStartHeight ro) (ro_SeqEndHeight ro) = Some []"
    using main by (subst old_requests.simps) simp
  then show "handleRequestOldSeq ro q = Some [Dial (IPaddr n) (CSendOldrequest \<lparr> so_SeqStartHeight = ro_SeqStartHeight ro,
       so_SeqEndHeight = ro_SeqEndHeight ro, OldRequest = [], so_SenderNode = Some (RunningNode q) \<rparr>)]"
    using main by (simp add: handleRequestOldSeq_def)
qed (use handleSendOldSeq_effect [OF answer] handleSendOldSeq_replies [OF answer] in simp_all)

definition example_answer :: SendOldMessage where
  "example_answer = \<lparr> so_SeqStartHeight = 5, so_SeqEndHeight = 5, OldRequest = [Some example_request], so_SenderNode = Some node3 \<rparr>"

theorem catch_up_adds_no_block_witness:
  "\<exists>out p1. handleSendOldSeq example_pe example_answer (example_globals, example_node\<lparr> askForLock := True \<rparr>) = Some (out, example_globals, p1) \<and>
     CurChain p1 = example_bc \<and> sequenceID p1 = 6 \<and> isReply p1 [7, 1]"
proof -
  let ?p = "example_node\<lparr> askForLock := True \<rparr>"
  let ?q = "example_node\<lparr> p_NodeID := 0, height2Digest := [5 \<mapsto> [7, 1]] \<rparr>"
  let ?ro = "\<lparr> ro_SeqStartHeight = 5, ro_SeqEndHeight = 5, ServerNode = None, ro_SenderNode = Some node3 \<rparr>"
  have "handleSendOldSeq example_pe example_answer (example_globals, ?p) \<noteq> None"
    by (simp add: handleSendOldSeq_def HandleforSequentialRequest_def example_answer_def prepare_next_def example_node_def NewPbftNode_def Let_def)
  then obtain out g1 p1 where h: "handleSendOldSeq example_pe example_answer (example_globals, ?p) = Some (out, g1, p1)"
    by auto
  have "p_view ?q = p_NodeID ?q" "height2Digest ?q (ro_SeqStartHeight ?ro) = Some [7, 1]" "requestPool ?q [7, 1] = None"
    "ro_SenderNode ?ro = Some node3"
    by (simp_all add: example_node_def)
  from catch_up_adds_no_block [OF this h] h show ?thesis
    by (auto simp: example_answer_def example_pe_def example_request_def example_node_def)
qed

section \<open>What is reported of a block\<close>

lemma sort_body_filter:
  "sort_body txs (a, b, c, e) =
     (a @ filter (\<lambda>t. \<not> (IsAllocatedRecipent t \<or> IsAllocatedSender t) \<and> \<not> Isbrokertx2 t \<and> \<not> Isbrokertx1 t) txs,
      b @ filter (\<lambda>t. \<not> (IsAllocatedRecipent t \<or> IsAllocatedSender t) \<and> \<not> Isbrokertx2 t \<and> Isbrokertx1 t) txs,
      c @ filter (\<lambda>t. \<not> (IsAllocatedRecipent t \<or> IsAllocatedSender t) \<and> Isbrokertx2 t) txs,
      e @ filter (\<lambda>t. IsAllocatedRecipent t \<or> IsAllocatedSender t) txs)"
  by (induction txs arbitrary: a b c e) auto

lemma sort_body_mset:
  "mset (filter (\<lambda>t. \<not> P t \<and> \<not> Q t \<and> \<not> R t) txs) + mset (filter (\<lambda>t. \<not> P t \<and> \<not> Q t \<and> R t) txs) +
   mset (filter (\<lambda>t. \<not> P t \<and> Q t) txs) + mset (filter P txs) = mset txs"
  by (induction txs) auto

text \<open>the main node's report on a block accounts for every transaction. The four lists of the block
  information hold the transactions of the block's body, each exactly once and in the body's order,
  and the counts are those of the lists; the first halves of broker transactions are reported as
  such unless they are also marked as second halves or as transfers between a broker's accounts.\<close>
theorem block_info_accounts_for_body:
  "let m = block_info t r b p in
     mset (ExcutedTxs m) + mset (Broker1Txs m) + mset (Broker2Txs m) + mset (AllocatedTxs m) = mset (Body b) \<and>
     BlockBodyLength m = int (length (ExcutedTxs m) + length (Broker1Txs m) + length (Broker2Txs m) + length (AllocatedTxs m)) \<and>
     Broker1Txs m = filter (\<lambda>x. Isbrokertx1 x \<and> \<not> Isbrokertx2 x \<and> \<not> IsAllocatedSender x \<and> \<not> IsAllocatedRecipent x) (Body b) \<and>
     Broker2Txs m = filter (\<lambda>x. Isbrokertx2 x \<and> \<not> IsAllocatedSender x \<and> \<not> IsAllocatedRecipent x) (Body b)"
proof -
  let ?P = "\<lambda>t. IsAllocatedRecipent t \<or> IsAllocatedSender t"
  let ?m = "block_info t r b p"
  have lists: "ExcutedTxs ?m = filter (\<lambda>t. \<not> ?P t \<and> \<not> Isbrokertx2 t \<and> \<not> Isbrokertx1 t) (Body b)"
    "Broker1Txs ?m = filter (\<lambda>t. \<not> ?P t \<and> \<not> Isbrokertx2 t \<and> Isbrokertx1 t) (Body b)"
    "Broker2Txs ?m = filter (\<lambda>t. \<not> ?P t \<and> Isbrokertx2 t) (Body b)" "AllocatedTxs ?m = filter ?P (Body b)"
    "BlockBodyLength ?m = int (length (Body b))"
    by (simp_all add: block_info_def sort_body_filter)
  have parts: "mset (ExcutedTxs ?m) + mset (Broker1Txs ?m) + mset (Broker2Txs ?m) + mset (AllocatedTxs ?m) = mset (Body b)"
    unfolding lists by (rule sort_body_mset)
  then have "size (mset (ExcutedTxs ?m) + mset (Broker1Txs ?m) + mset (Broker2Txs ?m) + mset (AllocatedTxs ?m)) = length (Body b)"
    by simp
  then have "BlockBodyLength ?m = int (length (ExcutedTxs ?m) + length (Broker1Txs ?m) + length (Broker2Txs ?m) + length (AllocatedTxs ?m))"
    unfolding lists(5) by simp
  then show ?thesis
    unfolding Let_def using parts unfolding lists(2,3) by (auto intro!: filter_cong)
qed

end
