(* ===== verification/HexKeys.thy ===== *)
theory HexKeys
  imports Prelude
begin

unbundle bit_operations_syntax

text \<open>
  The three encodings of trie keys (\<open>vm/trie/encoding.go\<close>): key bytes, hex (one nibble per byte with an
  optional terminator 16) and compact (the hex prefix encoding). The compact form has an in-place
  variant that writes into the buffer it reads from; both are modelled as written, and the theory shows
  the round trips between the encodings and that the two compact encoders agree.
\<close>

section \<open>Encodings\<close>

definition hasTerm :: "bytes \<Rightarrow> bool" where
  "hasTerm s \<longleftrightarrow> 0 < length s \<and> s ! (length s - 1) = 16"

definition pack :: "byte \<Rightarrow> byte \<Rightarrow> byte" where
  "pack a b = push_bit 4 a OR b"

fun decodeNibbles :: "bytes \<Rightarrow> bytes panics" where
  "decodeNibbles [] = Some []"
| "decodeNibbles [a] = panic"
| "decodeNibbles (a # b # r) = do { bs \<leftarrow> decodeNibbles r; Some (pack a b # bs) }"

definition hexToCompact :: "bytes \<Rightarrow> bytes panics" where
  "hexToCompact hex0 =
     (let terminator = (if hasTerm hex0 then 1 else 0 :: byte);
          hex = (if hasTerm hex0 then butlast hex0 else hex0);
          flag = push_bit 5 terminator in
      if odd (length hex)
      then do { bs \<leftarrow> decodeNibbles (drop 1 hex); Some ((flag OR push_bit 4 1 OR hex ! 0) # bs) }
      else do { bs \<leftarrow> decodeNibbles hex; Some (flag # bs) })"

text \<open>The loop of the in-place variant, with the buffer as a list updated by index.\<close>

function compact_loop :: "nat \<Rightarrow> nat \<Rightarrow> nat \<Rightarrow> bytes \<Rightarrow> bytes panics" where
  "compact_loop hexLen ni bi hex =
     (if ni < hexLen
      then (if ni + 1 < length hex \<and> bi < length hex
            then compact_loop hexLen (ni + 2) (bi + 1) (hex[bi := pack (hex ! ni) (hex ! (ni + 1))])
            else panic)
      else Some hex)"
  by pat_completeness auto

termination
  by (relation "measure (\<lambda>(hexLen, ni, bi, hex). hexLen - ni)") auto

declare compact_loop.simps [simp del]

definition hexToCompactInPlace :: "bytes \<Rightarrow> bytes panics" where
  "hexToCompactInPlace hex =
     (let term = (0 < length hex \<and> hex ! (length hex - 1) = 16);
          hexLen = (if term then length hex - 1 else length hex);
          flag = (if term then push_bit 5 1 else 0 :: byte);
          binLen = hexLen div 2 + 1 in do {
      let (firstByte, ni) = (if odd hexLen then (flag OR push_bit 4 1 OR hex ! 0, 1) else (flag, 0));
      hex1 \<leftarrow> compact_loop hexLen ni 1 hex;
      guard_panic (0 < length hex1 \<and> binLen \<le> length hex1);
      Some (take binLen (hex1[0 := firstByte])) })"

fun nibbles_of :: "bytes \<Rightarrow> bytes" where
  "nibbles_of [] = []"
| "nibbles_of (b # bs) = (b div 16) # (b mod 16) # nibbles_of bs"

definition keybytesToHex :: "bytes \<Rightarrow> bytes" where
  "keybytesToHex str = nibbles_of str @ [16]"

definition compactToHex :: "bytes \<Rightarrow> bytes" where
  "compactToHex buf =
     (if length buf = 0 then buf
      else let base = keybytesToHex buf;
               base1 = (if base ! 0 < 2 then butlast base else base);
               chop = 2 - (base1 ! 0 AND 1)
           in drop (unat chop) base1)"

definition hexToKeybytes :: "bytes \<Rightarrow> bytes panics" where
  "hexToKeybytes hex0 =
     (let hex = (if hasTerm hex0 then butlast hex0 else hex0) in
      if odd (length hex) then panic else decodeNibbles hex)"

fun prefixLen :: "bytes \<Rightarrow> bytes \<Rightarrow> nat" where
  "prefixLen (x # a) (y # b) = (if x = y then Suc (prefixLen a b) else 0)"
| "prefixLen a b = 0"

section \<open>Nibbles\<close>

definition nibs :: "bytes \<Rightarrow> bool" where
  "nibs h \<longleftrightarrow> (\<forall>x \<in> set h. x < 16)"

lemma nibs_simps [simp]: "nibs []" "nibs (x # h) \<longleftrightarrow> x < 16 \<and> nibs h" "nibs (h @ k) \<longleftrightarrow> nibs h \<and> nibs k"
  by (auto simp: nibs_def)

lemma nibs_take_drop: "nibs h \<Longrightarrow> nibs (take n h)" "nibs h \<Longrightarrow> nibs (drop n h)"
  by (auto simp: nibs_def dest: in_set_takeD in_set_dropD)

lemma pack_add: "b < 16 \<Longrightarrow> pack a b = 16 * a + b"
proof -
  assume "b < 16"
  then have b: "take_bit 4 b = b"
    by (simp add: word_unat_eq_iff take_bit_eq_mod unat_mod word_less_nat_alt)
  have "\<not> bit b n" if "4 \<le> n" for n
    using that by (subst b [symmetric]) (simp add: bit_take_bit_iff)
  then have "push_bit 4 a OR b = push_bit 4 a + b"
    by (intro disjunctive_add_eq_or [symmetric] bit_eqI) (auto simp: bit_simps)
  then show ?thesis
    by (simp add: pack_def push_bit_eq_mult)
qed

lemma unat_nibble: "x < 16 \<longleftrightarrow> unat x < 16" for x :: byte
  by (simp add: word_less_nat_alt)

lemma unat_pack: "a < 16 \<Longrightarrow> b < 16 \<Longrightarrow> unat (pack a b) = 16 * unat a + unat b"
  by (simp add: pack_add unat_nibble unat_word_ariths)

lemma pack_div [simp]: "a < 16 \<Longrightarrow> b < 16 \<Longrightarrow> pack a b div 16 = a"
  by (simp add: word_unat_eq_iff unat_pack unat_div unat_nibble)

lemma pack_mod [simp]: "a < 16 \<Longrightarrow> b < 16 \<Longrightarrow> pack a b mod 16 = b"
  by (simp add: word_unat_eq_iff unat_pack unat_mod unat_nibble)

lemma div_nibble [simp]: "b div 16 < 16" "b mod 16 < 16" for b :: byte
  using unsigned_less [of b, where 'a = nat]
  by (simp_all add: unat_nibble unat_div unat_mod)

lemma pack_of_byte [simp]: "pack (b div 16) (b mod 16) = b"
  by (simp add: word_unat_eq_iff unat_pack unat_div unat_mod)

section \<open>Round trips\<close>

lemma nibs_nibbles_of [simp]: "nibs (nibbles_of b)"
  by (induction b) simp_all

lemma length_nibbles_of [simp]: "length (nibbles_of b) = 2 * length b"
  by (induction b) simp_all

lemma decode_nibbles_of [simp]: "decodeNibbles (nibbles_of b) = Some b"
  by (induction b) simp_all

lemma decodeNibbles_even:
  "nibs h \<Longrightarrow> even (length h) \<Longrightarrow> \<exists>bs. decodeNibbles h = Some bs \<and> nibbles_of bs = h"
  by (induction h rule: decodeNibbles.induct) auto

lemma hasTerm_snoc [simp]: "hasTerm (h @ [x]) \<longleftrightarrow> x = 16" "hasTerm (y # h @ [x]) \<longleftrightarrow> x = 16" "\<not> hasTerm []"
  by (simp_all add: hasTerm_def)

lemma nibs_not_term: "nibs h \<Longrightarrow> \<not> hasTerm h"
  by (cases h rule: rev_cases) auto

lemma keybytes_round_trip: "hexToKeybytes (keybytesToHex b) = Some b"
  by (simp add: hexToKeybytes_def keybytesToHex_def)

definition hex_key :: "bytes \<Rightarrow> bool" where
  "hex_key h \<longleftrightarrow> nibs h \<or> (h \<noteq> [] \<and> nibs (butlast h) \<and> last h = 16)"

lemma compactToHex_pack:
  assumes "f < 4" "x < 16"
  shows "compactToHex (pack f x # bs) =
     (let base = nibbles_of bs @ (if f < 2 then [] else [16]) in if f AND 1 = 0 then base else x # base)"
proof -
  have "f \<in> {0, 1, 2, 3}"
    using assms(1) by (auto simp: word_unat_eq_iff word_less_nat_alt)
  then show ?thesis
    using assms(2) by (auto simp: compactToHex_def keybytesToHex_def Let_def butlast_append)
qed

lemma compact_round_trip_core:
  assumes "nibs h"
  shows "\<exists>c. hexToCompact h = Some c \<and> compactToHex c = h"
    and "\<exists>c. hexToCompact (h @ [16]) = Some c \<and> compactToHex c = h @ [16]"
proof -
  have "(\<exists>c. hexToCompact h = Some c \<and> compactToHex c = h) \<and>
        (\<exists>c. hexToCompact (h @ [16]) = Some c \<and> compactToHex c = h @ [16])"
  proof (cases "even (length h)")
    case True
    then obtain bs where "decodeNibbles h = Some bs" "nibbles_of bs = h"
      using assms decodeNibbles_even by blast
    then show ?thesis
      using True assms compactToHex_pack [of 0 0 bs] compactToHex_pack [of 2 0 bs]
      by (simp add: hexToCompact_def nibs_not_term pack_def)
  next
    case False
    then obtain x r where h: "h = x # r"
      by (cases h) auto
    then obtain bs where "decodeNibbles r = Some bs" "nibbles_of bs = r"
      using assms False decodeNibbles_even [of r] by auto
    then show ?thesis
      using False assms nibs_not_term [of "x # r"] compactToHex_pack [of 1 x bs] compactToHex_pack [of 3 x bs]
      by (simp add: h hexToCompact_def pack_def or.assoc [symmetric])
  qed
  then show "\<exists>c. hexToCompact h = Some c \<and> compactToHex c = h"
    and "\<exists>c. hexToCompact (h @ [16]) = Some c \<and> compactToHex c = h @ [16]"
    by blast+
qed

section \<open>The in-place encoder\<close>

definition pairs_at :: "bytes \<Rightarrow> nat \<Rightarrow> nat \<Rightarrow> bytes" where
  "pairs_at h i n = map (\<lambda>j. pack (h ! (i + 2 * j)) (h ! (i + 2 * j + 1))) [0..<n]"

lemma pairs_at_Suc: "pairs_at h i (Suc n) = pack (h ! i) (h ! (i + 1)) # pairs_at h (i + 2) n"
  by (simp add: pairs_at_def upt_conv_Cons map_Suc_upt [symmetric] del: upt_Suc map_Suc_upt)

lemma pairs_at_update: "b < i \<Longrightarrow> pairs_at (h[b := x]) i n = pairs_at h i n"
  by (simp add: pairs_at_def)

lemma pairs_at_drop: "i + k + 2 * n \<le> length h \<Longrightarrow> pairs_at (drop k h) i n = pairs_at h (i + k) n"
  by (auto simp: pairs_at_def ac_simps)

lemma pairs_at_take: "i + 2 * n \<le> k \<Longrightarrow> pairs_at (take k h) i n = pairs_at h i n"
  by (auto simp: pairs_at_def)

lemma decodeNibbles_pairs: "length h = 2 * n \<Longrightarrow> decodeNibbles h = Some (pairs_at h 0 n)"
proof (induction h arbitrary: n rule: decodeNibbles.induct)
  case (3 a b r)
  then obtain m where "n = Suc m"
    by (cases n) auto
  with 3 show ?case
    using pairs_at_drop [of 0 2 m "a # b # r"] by (simp add: pairs_at_Suc)
qed (auto simp: pairs_at_def)

lemma compact_loop_pairs:
  assumes "hexLen = ni + 2 * n" "hexLen \<le> length hex" "bi \<le> ni + 1" "bi + n \<le> length hex"
  shows "compact_loop hexLen ni bi hex = Some (take bi hex @ pairs_at hex ni n @ drop (bi + n) hex)"
  using assms
proof (induction n arbitrary: ni bi hex)
  case 0
  then show ?case
    by (simp add: compact_loop.simps pairs_at_def)
next
  case (Suc n)
  let ?hex = "hex[bi := pack (hex ! ni) (hex ! (ni + 1))]"
  have "compact_loop hexLen ni bi hex = compact_loop hexLen (ni + 2) (bi + 1) ?hex"
    using Suc.prems by (subst compact_loop.simps) simp
  also have "\<dots> = Some (take (bi + 1) ?hex @ pairs_at ?hex (ni + 2) n @ drop (bi + 1 + n) ?hex)"
    using Suc.prems by (intro Suc.IH) auto
  also have "take (bi + 1) ?hex = take bi hex @ [pack (hex ! ni) (hex ! (ni + 1))]"
    using Suc.prems by (simp add: take_Suc_conv_app_nth)
  finally show ?case
    using Suc.prems by (simp add: pairs_at_Suc pairs_at_update)
qed

lemma in_place_core:
  assumes "hex \<noteq> []"
  shows "hexToCompactInPlace hex = hexToCompact hex"
proof -
  define h where "h = (if hasTerm hex then butlast hex else hex)"
  define n where "n = length h div 2"
  define i where "i = (if odd (length h) then 1 else 0 :: nat)"
  have len: "length h = i + 2 * n"
    by (simp add: i_def n_def)
  have sub: "h = take (length h) hex" "length h \<le> length hex"
    by (simp_all add: h_def butlast_conv_take)
  have bound: "1 + n \<le> length hex"
  proof -
    have "0 < length hex" "2 * n \<le> length hex"
      using assms len sub(2) by auto
    then show ?thesis
      by presburger
  qed
  have dec: "decodeNibbles (drop i h) = Some (pairs_at hex i n)"
    using len sub pairs_at_drop [of 0 i n h] pairs_at_take [of i n "length h" hex]
    by (subst decodeNibbles_pairs [of _ n]) auto
  have "compact_loop (length h) i 1 hex = Some (take 1 hex @ pairs_at hex i n @ drop (1 + n) hex)"
    using compact_loop_pairs [of "length h" i n hex 1] len sub(2) bound by simp
  moreover have "odd (length h) \<Longrightarrow> hex ! 0 = h ! 0"
    using sub by (metis nth_take odd_pos)
  ultimately show ?thesis
    using dec assms bound
    by (cases hex) (auto simp: hexToCompactInPlace_def hexToCompact_def hasTerm_def h_def i_def n_def pairs_at_def)
qed

text \<open>C29: The in-place compact encoder, which writes the packed bytes into the buffer it still reads the
  nibbles from, returns what the copying encoder returns on every non-empty hex key, well formed or not.\<close>
theorem in_place_encoder_agrees:
  assumes "hex \<noteq> []"
  shows "hexToCompactInPlace hex = hexToCompact hex"
  using assms by (rule in_place_core)

theorem in_place_encoder_agrees_witness:
  "hexToCompactInPlace [1, 2, 3, 16] = hexToCompact [1, 2, 3, 16] \<and> hexToCompact [1, 2, 3, 16] = Some [0x31, 0x23]"
  using in_place_encoder_agrees [of "[1, 2, 3, 16]"]
  by (simp add: hexToCompact_def hasTerm_def pack_def)

text \<open>C30: Key encodings are inverse to each other: decoding the compact form of a hex key with or without
  terminator gives the key back, and the hex form of key bytes decodes to the bytes.\<close>
theorem key_encodings_round_trip:
  assumes "hex_key h"
  shows "(\<exists>c. hexToCompact h = Some c \<and> compactToHex c = h) \<and> hexToKeybytes (keybytesToHex b) = Some b"
proof -
  have "h = butlast h @ [16]" if "\<not> nibs h"
    using assms that by (metis append_butlast_last_id hex_key_def)
  then show ?thesis
    using assms compact_round_trip_core [of h] compact_round_trip_core(2) [of "butlast h"] keybytes_round_trip
    by (metis hex_key_def)
qed

theorem key_encodings_round_trip_witness:
  "hex_key [10, 11, 12, 16] \<and> (\<exists>c. hexToCompact [10, 11, 12, 16] = Some c \<and> compactToHex c = [10, 11, 12, 16])"
  using key_encodings_round_trip [of "[10, 11, 12, 16]"] by (simp add: hex_key_def)

end
