(* ===== verification/TrieNode.thy ===== *)
theory TrieNode
  imports HexKeys
begin

unbundle bit_operations_syntax

text \<open>
  Trie nodes (\<open>vm/trie/node.go\<close>, \<open>node-enc.go\<close>), the tracer of a trie (\<open>tracer.go\<close>), its node reader
  (\<open>trie_reader.go\<close>, \<open>errors.go\<close>, \<open>trie_id.go\<close>) and the node sets a commit returns
  (\<open>trienode/node.go\<close>).

  The RLP library and the database behind the reader are parameters (\<open>Rlp\<close>, the reader function). The
  nil node is the constructor \<open>NilNode\<close>; a nil byte slice is the empty list, a nil hash is \<open>None\<close>.
\<close>

section \<open>Nodes\<close>

record nodeFlag =
  fl_hash :: "bytes option"
  fl_dirty :: bool

datatype node =
    NilNode
  | FullNode "node list" nodeFlag
  | ShortNode bytes node nodeFlag
  | HashNode bytes
  | ValueNode bytes

definition newFlag :: nodeFlag where
  "newFlag = \<lparr> fl_hash = None, fl_dirty = True \<rparr>"

text \<open>\<open>cache\<close> is a method call on the interface: on a nil node it panics.\<close>

fun node_cache :: "node \<Rightarrow> (bytes option \<times> bool) panics" where
  "node_cache NilNode = panic"
| "node_cache (FullNode cs fl) = Some (fl_hash fl, fl_dirty fl)"
| "node_cache (ShortNode k v fl) = Some (fl_hash fl, fl_dirty fl)"
| "node_cache (HashNode h) = Some (None, True)"
| "node_cache (ValueNode v) = Some (None, True)"

section \<open>Encoding and decoding\<close>

datatype rlp_kind = RByte | RString | RList

record Rlp =
  rlp_Split :: "bytes \<Rightarrow> string + rlp_kind \<times> bytes \<times> bytes"
  rlp_SplitString :: "bytes \<Rightarrow> string + bytes \<times> bytes"
  rlp_SplitList :: "bytes \<Rightarrow> string + bytes \<times> bytes"
  rlp_CountValues :: "bytes \<Rightarrow> nat"
  rlp_WriteBytes :: "bytes \<Rightarrow> bytes"
  rlp_List :: "bytes \<Rightarrow> bytes"

definition rlp_EmptyString :: bytes where
  "rlp_EmptyString = [0x80]"

fun node_encode :: "Rlp \<Rightarrow> node \<Rightarrow> bytes" where
  "node_encode R NilNode = rlp_EmptyString"
| "node_encode R (FullNode cs fl) = rlp_List R (concat (map (node_encode R) cs))"
| "node_encode R (ShortNode k v fl) = rlp_List R (rlp_WriteBytes R k @ node_encode R v)"
| "node_encode R (HashNode h) = rlp_WriteBytes R h"
| "node_encode R (ValueNode v) = rlp_WriteBytes R v"

text \<open>Errors of the decoder; \<open>wrapError\<close> collects the path of an error.\<close>

datatype decode_ctx = InShort | InFull | InVal | InChild nat

datatype decode_what =
    UnexpectedEOF
  | NotAList string
  | BadCount nat
  | RlpError string
  | InvalidValue string
  | Oversized nat
  | BadStringSize nat

datatype decode_error = Plain decode_what | DecodeError decode_what "decode_ctx list"

fun wrapError :: "decode_error \<Rightarrow> decode_ctx \<Rightarrow> decode_error" where
  "wrapError (DecodeError w stack) ctx = DecodeError w (stack @ [ctx])"
| "wrapError (Plain w) ctx = DecodeError w [ctx]"

abbreviation wrap_result :: "decode_ctx \<Rightarrow> decode_error + 'a \<Rightarrow> decode_error + 'a" where
  "wrap_result ctx r \<equiv> (case r of Inl e \<Rightarrow> Inl (wrapError e ctx) | Inr x \<Rightarrow> Inr x)"

definition hashLen :: nat where "hashLen = 32"

text \<open>The decoders call each other for embedded nodes; the recursive call of \<open>decodeNode\<close> is the argument
  \<open>dec\<close>, whose \<open>None\<close> is a recursion that does not end.\<close>

definition decodeRef :: "Rlp \<Rightarrow> (bytes \<Rightarrow> (decode_error + node) panics) \<Rightarrow> bytes \<Rightarrow> (decode_error + node \<times> bytes) panics" where
  "decodeRef R dec buf = (case rlp_Split R buf of
       Inl e \<Rightarrow> Some (Inl (Plain (RlpError e)))
     | Inr (kind, val, rest) \<Rightarrow>
         if kind = RList then
           (let size = length buf - length rest in
            if hashLen < size then Some (Inl (Plain (Oversized size)))
            else do { r \<leftarrow> dec buf; Some (case r of Inl e \<Rightarrow> Inl e | Inr n \<Rightarrow> Inr (n, rest)) })
         else if kind = RString \<and> length val = 0 then Some (Inr (NilNode, rest))
         else if kind = RString \<and> length val = 32 then Some (Inr (HashNode val, rest))
         else Some (Inl (Plain (BadStringSize (length val)))))"

definition decodeShort :: "Rlp \<Rightarrow> (bytes \<Rightarrow> (decode_error + node) panics) \<Rightarrow> bytes option \<Rightarrow> bytes \<Rightarrow> (decode_error + node) panics" where
  "decodeShort R dec hash elems = (case rlp_SplitString R elems of
       Inl e \<Rightarrow> Some (Inl (Plain (RlpError e)))
     | Inr (kbuf, rest) \<Rightarrow>
         (let flag = \<lparr> fl_hash = hash, fl_dirty = False \<rparr>; key = compactToHex kbuf in
          if hasTerm key then
            Some (case rlp_SplitString R rest of
                Inl e \<Rightarrow> Inl (Plain (InvalidValue e))
              | Inr (val, r) \<Rightarrow> Inr (ShortNode key (ValueNode val) flag))
          else do {
            r \<leftarrow> decodeRef R dec rest;
            Some (case r of Inl e \<Rightarrow> Inl (wrapError e InVal) | Inr (n, r2) \<Rightarrow> Inr (ShortNode key n flag)) }))"

text \<open>The loop over the sixteen children: \<open>i\<close> is the index, \<open>k\<close> the number of children left.\<close>

fun decode_children ::
  "Rlp \<Rightarrow> (bytes \<Rightarrow> (decode_error + node) panics) \<Rightarrow> nat \<Rightarrow> nat \<Rightarrow> bytes \<Rightarrow> (decode_error + node list \<times> bytes) panics" where
  "decode_children R dec i 0 elems = Some (Inr ([], elems))"
| "decode_children R dec i (Suc k) elems = do {
     r \<leftarrow> decodeRef R dec elems;
     case r of
       Inl e \<Rightarrow> Some (Inl (wrapError e (InChild i)))
     | Inr (cld, rest) \<Rightarrow> do {
         q \<leftarrow> decode_children R dec (Suc i) k rest;
         Some (case q of Inl e \<Rightarrow> Inl e | Inr (cs, rest2) \<Rightarrow> Inr (cld # cs, rest2)) } }"

definition decodeFull :: "Rlp \<Rightarrow> (bytes \<Rightarrow> (decode_error + node) panics) \<Rightarrow> bytes option \<Rightarrow> bytes \<Rightarrow> (decode_error + node) panics" where
  "decodeFull R dec hash elems = do {
     r \<leftarrow> decode_children R dec 0 16 elems;
     Some (case r of
         Inl e \<Rightarrow> Inl e
       | Inr (cs, rest) \<Rightarrow>
           (case rlp_SplitString R rest of
              Inl e \<Rightarrow> Inl (Plain (RlpError e))
            | Inr (val, r2) \<Rightarrow>
                Inr (FullNode (cs @ [if 0 < length val then ValueNode val else NilNode])
                       \<lparr> fl_hash = hash, fl_dirty = False \<rparr>))) }"

definition decodeNodeUnsafe :: "Rlp \<Rightarrow> (bytes \<Rightarrow> (decode_error + node) panics) \<Rightarrow> bytes option \<Rightarrow> bytes \<Rightarrow> (decode_error + node) panics" where
  "decodeNodeUnsafe R dec hash buf =
     (if length buf = 0 then Some (Inl (Plain UnexpectedEOF))
      else case rlp_SplitList R buf of
        Inl e \<Rightarrow> Some (Inl (Plain (NotAList e)))
      | Inr (elems, rest) \<Rightarrow>
          (let c = rlp_CountValues R elems in
           if c = 2 then do { r \<leftarrow> decodeShort R dec hash elems; Some (wrap_result InShort r) }
           else if c = 17 then do { r \<leftarrow> decodeFull R dec hash elems; Some (wrap_result InFull r) }
           else Some (Inl (Plain (BadCount c)))))"

text \<open>The recursion is cut after as many levels as the buffer has bytes: every level of embedding is a
  list inside the list above it, so it has at least one byte less.\<close>

fun decode_upto :: "Rlp \<Rightarrow> nat \<Rightarrow> bytes option \<Rightarrow> bytes \<Rightarrow> (decode_error + node) panics" where
  "decode_upto R 0 hash buf = panic"
| "decode_upto R (Suc k) hash buf = decodeNodeUnsafe R (decode_upto R k None) hash buf"

definition decodeNode :: "Rlp \<Rightarrow> bytes option \<Rightarrow> bytes \<Rightarrow> (decode_error + node) panics" where
  "decodeNode R hash buf = decode_upto R (Suc (length buf)) hash buf"

definition mustDecodeNode :: "Rlp \<Rightarrow> bytes option \<Rightarrow> bytes \<Rightarrow> node panics" where
  "mustDecodeNode R hash buf = do {
     r \<leftarrow> decodeNode R hash buf;
     case r of Inl e \<Rightarrow> panic | Inr n \<Rightarrow> Some n }"

section \<open>Reader\<close>

record TrieID =
  id_StateRoot :: common_Hash
  id_Owner :: common_Hash
  id_Root :: common_Hash

definition StateTrieID :: "common_Hash \<Rightarrow> TrieID" where
  "StateTrieID r = \<lparr> id_StateRoot = r, id_Owner = 0, id_Root = r \<rparr>"

definition StorageTrieID :: "common_Hash \<Rightarrow> common_Hash \<Rightarrow> common_Hash \<Rightarrow> TrieID" where
  "StorageTrieID stateRoot ow r = \<lparr> id_StateRoot = stateRoot, id_Owner = ow, id_Root = r \<rparr>"

record MissingNodeError =
  mne_Owner :: common_Hash
  mne_NodeHash :: common_Hash
  mne_Path :: bytes
  mne_err :: "string option"

datatype trie_error = MissingNode MissingNodeError | ErrCommitted | NonConsensusNode

type_synonym node_reader = "common_Hash \<Rightarrow> bytes \<Rightarrow> common_Hash \<Rightarrow> string + bytes"

record trieReader =
  rd_owner :: common_Hash
  rd_reader :: "node_reader option"
  rd_banned :: "bytes set"

definition newTrieReader ::
  "common_Hash \<Rightarrow> (common_Hash \<Rightarrow> string + node_reader) \<Rightarrow> common_Hash \<Rightarrow> common_Hash \<Rightarrow> trie_error + trieReader" where
  "newTrieReader emptyRoot db stateRoot ow =
     (if stateRoot = 0 \<or> stateRoot = emptyRoot then Inr \<lparr> rd_owner = ow, rd_reader = None, rd_banned = {} \<rparr>
      else case db stateRoot of
        Inl e \<Rightarrow> Inl (MissingNode \<lparr> mne_Owner = ow, mne_NodeHash = stateRoot, mne_Path = [], mne_err = Some e \<rparr>)
      | Inr rd \<Rightarrow> Inr \<lparr> rd_owner = ow, rd_reader = Some rd, rd_banned = {} \<rparr>)"

definition reader_node :: "trieReader \<Rightarrow> bytes \<Rightarrow> common_Hash \<Rightarrow> trie_error + bytes" where
  "reader_node r path h =
     (let missing = (\<lambda>e. Inl (MissingNode \<lparr> mne_Owner = rd_owner r, mne_NodeHash = h, mne_Path = path, mne_err = e \<rparr>)) in
      if path \<in> rd_banned r then missing None
      else case rd_reader r of
        None \<Rightarrow> missing None
      | Some rd \<Rightarrow> (case rd (rd_owner r) path h of
            Inl e \<Rightarrow> missing (Some e)
          | Inr blob \<Rightarrow> if length blob = 0 then missing None else Inr blob))"

section \<open>Tracer\<close>

record tracer =
  tr_inserts :: "bytes set"
  tr_deletes :: "bytes set"
  tr_accessList :: "bytes \<rightharpoonup> bytes"

definition newTracer :: tracer where
  "newTracer = \<lparr> tr_inserts = {}, tr_deletes = {}, tr_accessList = Map.empty \<rparr>"

definition onRead :: "bytes \<Rightarrow> bytes \<Rightarrow> tracer \<Rightarrow> tracer" where
  "onRead path val t = t\<lparr> tr_accessList := (tr_accessList t)(path \<mapsto> val) \<rparr>"

definition onInsert :: "bytes \<Rightarrow> tracer \<Rightarrow> tracer" where
  "onInsert path t =
     (if path \<in> tr_deletes t then t\<lparr> tr_deletes := tr_deletes t - {path} \<rparr>
      else t\<lparr> tr_inserts := tr_inserts t \<union> {path} \<rparr>)"

definition onDelete :: "bytes \<Rightarrow> tracer \<Rightarrow> tracer" where
  "onDelete path t =
     (if path \<in> tr_inserts t then t\<lparr> tr_inserts := tr_inserts t - {path} \<rparr>
      else t\<lparr> tr_deletes := tr_deletes t \<union> {path} \<rparr>)"

text \<open>\<open>deletedNodes\<close> ranges over the deletions in the order \<open>ks\<close>.\<close>

definition deletedNodes :: "bytes list \<Rightarrow> tracer \<Rightarrow> bytes list" where
  "deletedNodes ks t = filter (\<lambda>p. p \<in> tr_deletes t \<and> tr_accessList t p \<noteq> None) ks"

section \<open>Node sets\<close>

record trienode_Node =
  tn_Hash :: common_Hash
  tn_Blob :: bytes

definition IsDeleted :: "trienode_Node \<Rightarrow> bool" where
  "IsDeleted n \<longleftrightarrow> length (tn_Blob n) = 0"

definition NewDeleted :: trienode_Node where
  "NewDeleted = \<lparr> tn_Hash = 0, tn_Blob = [] \<rparr>"

record trie_leaf =
  lf_Blob :: bytes
  lf_Parent :: common_Hash

record NodeSet =
  ns_Owner :: common_Hash
  ns_Leaves :: "trie_leaf list"
  ns_Nodes :: "bytes \<rightharpoonup> trienode_Node"
  ns_updates :: int
  ns_deletes :: int

definition NewNodeSet :: "common_Hash \<Rightarrow> NodeSet" where
  "NewNodeSet ow = \<lparr> ns_Owner = ow, ns_Leaves = [], ns_Nodes = Map.empty, ns_updates = 0, ns_deletes = 0 \<rparr>"

definition AddNode :: "bytes \<Rightarrow> trienode_Node \<Rightarrow> NodeSet \<Rightarrow> NodeSet" where
  "AddNode path n s =
     (let s1 = (if IsDeleted n then s\<lparr> ns_deletes := ns_deletes s + 1 \<rparr> else s\<lparr> ns_updates := ns_updates s + 1 \<rparr>)
      in s1\<lparr> ns_Nodes := (ns_Nodes s1)(path \<mapsto> n) \<rparr>)"

definition AddLeaf :: "common_Hash \<Rightarrow> bytes \<Rightarrow> NodeSet \<Rightarrow> NodeSet" where
  "AddLeaf parent blob s = s\<lparr> ns_Leaves := ns_Leaves s @ [\<lparr> lf_Blob = blob, lf_Parent = parent \<rparr>] \<rparr>"

definition merge_one :: "bytes \<times> trienode_Node \<Rightarrow> NodeSet \<Rightarrow> NodeSet" where
  "merge_one = (\<lambda>(path, n) s.
     let s1 = (case ns_Nodes s path of
           None \<Rightarrow> s
         | Some prev \<Rightarrow> if IsDeleted prev then s\<lparr> ns_deletes := ns_deletes s - 1 \<rparr> else s\<lparr> ns_updates := ns_updates s - 1 \<rparr>)
     in AddNode path n s1)"

text \<open>\<open>Merge\<close> ranges over the other set's map, here as the list of its entries; the error
  names the two owners.\<close>

definition NodeSet_Merge :: "common_Hash \<Rightarrow> (bytes \<times> trienode_Node) list \<Rightarrow> NodeSet \<Rightarrow> common_Hash \<times> common_Hash + NodeSet" where
  "NodeSet_Merge ow nodes s = (if ns_Owner s \<noteq> ow then Inl (ns_Owner s, ow) else Inr (fold merge_one nodes s))"

end
