(* ===== verification/Mpt.thy ===== *)
theory Mpt
  imports TrieNode
begin

text \<open>
  The Merkle Patricia trie (\<open>vm/trie/trie.go\<close>): creation, lookup, insertion and deletion with nodes that
  are loaded from the database on the way down, and the key-hashing wrapper (\<open>secure_trie.go\<close>).

  A recursive function returns \<open>None\<close> when the code panics or does not return: a chain of nodes in a
  corrupted database can be endless. An error is returned in the result, as in the code. The tracer of
  the trie, which every load and every structural change writes to, is threaded through.
\<close>

section \<open>State\<close>

record TrieEnv =
  te_rlp :: Rlp
  te_reader :: trieReader

definition resolveAndTrack :: "TrieEnv \<Rightarrow> bytes \<Rightarrow> bytes \<Rightarrow> tracer \<Rightarrow> ((trie_error + node) \<times> tracer) panics" where
  "resolveAndTrack E n prefix t = (case reader_node (te_reader E) prefix (BytesToHash n) of
       Inl e \<Rightarrow> Some (Inl e, t)
     | Inr blob \<Rightarrow> do { nd \<leftarrow> mustDecodeNode (te_rlp E) (Some n) blob; Some (Inr nd, onRead prefix blob t) })"

definition resolve :: "TrieEnv \<Rightarrow> node \<Rightarrow> bytes \<Rightarrow> tracer \<Rightarrow> ((trie_error + node) \<times> tracer) panics" where
  "resolve E n prefix t = (case n of HashNode h \<Rightarrow> resolveAndTrack E h prefix t | _ \<Rightarrow> Some (Inr n, t))"

section \<open>Lookup\<close>

partial_function (option) trie_get ::
  "TrieEnv \<Rightarrow> node \<Rightarrow> bytes \<Rightarrow> nat \<Rightarrow> tracer \<Rightarrow> ((bytes \<times> node \<times> bool \<times> trie_error option) \<times> tracer) panics" where
  "trie_get E origNode key pos t = (case origNode of
       NilNode \<Rightarrow> Some (([], NilNode, False, None), t)
     | ValueNode v \<Rightarrow> Some ((v, origNode, False, None), t)
     | ShortNode k val fl \<Rightarrow>
         if int (length key) - int pos < int (length k) \<or> k \<noteq> take (length k) (drop pos key)
         then Some (([], origNode, False, None), t)
         else do {
           ((v, nn, didResolve, err), t1) \<leftarrow> trie_get E val key (pos + length k) t;
           Some ((v, if err = None \<and> didResolve then ShortNode k nn fl else origNode, didResolve, err), t1) }
     | FullNode cs fl \<Rightarrow> do {
         guard_panic (pos < length key \<and> unat (key ! pos) < length cs);
         ((v, nn, didResolve, err), t1) \<leftarrow> trie_get E (cs ! unat (key ! pos)) key (pos + 1) t;
         Some ((v, if err = None \<and> didResolve then FullNode (cs[unat (key ! pos) := nn]) fl else origNode, didResolve, err), t1) }
     | HashNode h \<Rightarrow> do {
         (r, t1) \<leftarrow> resolveAndTrack E h (take pos key) t;
         case r of
           Inl e \<Rightarrow> Some (([], origNode, True, Some e), t1)
         | Inr child \<Rightarrow> do {
             ((v, nn, b, err), t2) \<leftarrow> trie_get E child key pos t1;
             Some ((v, nn, True, err), t2) } })"

section \<open>Insertion\<close>

partial_function (option) trie_insert ::
  "TrieEnv \<Rightarrow> node \<Rightarrow> bytes \<Rightarrow> bytes \<Rightarrow> node \<Rightarrow> tracer \<Rightarrow> ((bool \<times> node \<times> trie_error option) \<times> tracer) panics" where
  "trie_insert E n prefix key val t =
     (if length key = 0 then
        (case n of
           ValueNode v \<Rightarrow> (case val of ValueNode w \<Rightarrow> Some ((v \<noteq> w, val, None), t) | _ \<Rightarrow> panic)
         | _ \<Rightarrow> Some ((True, val, None), t))
      else case n of
        ShortNode k v fl \<Rightarrow>
          (let m = prefixLen key k in
           if m = length k then do {
             ((dirty, nn, err), t1) \<leftarrow> trie_insert E v (prefix @ take m key) (drop m key) val t;
             Some (if \<not> dirty \<or> err \<noteq> None then ((False, n, err), t1)
                   else ((True, ShortNode k nn newFlag, None), t1)) }
           else do {
             let branch = replicate 17 NilNode;
             ((d1, n1, err1), t1) \<leftarrow> trie_insert E NilNode (prefix @ take (m + 1) k) (drop (m + 1) k) v t;
             guard_panic (unat (k ! m) < 17);
             if err1 \<noteq> None then Some ((False, NilNode, err1), t1)
             else do {
               guard_panic (m < length key);
               ((d2, n2, err2), t2) \<leftarrow> trie_insert E NilNode (prefix @ take (m + 1) key) (drop (m + 1) key) val t1;
               guard_panic (unat (key ! m) < 17);
               if err2 \<noteq> None then Some ((False, NilNode, err2), t2)
               else (let b = FullNode (branch[unat (k ! m) := n1, unat (key ! m) := n2]) newFlag in
                     if m = 0 then Some ((True, b, None), t2)
                     else Some ((True, ShortNode (take m key) b newFlag, None), onInsert (prefix @ take m key) t2)) } })
      | FullNode cs fl \<Rightarrow> do {
          let i = unat (key ! 0);
          guard_panic (i < length cs);
          ((dirty, nn, err), t1) \<leftarrow> trie_insert E (cs ! i) (prefix @ [key ! 0]) (drop 1 key) val t;
          Some (if \<not> dirty \<or> err \<noteq> None then ((False, n, err), t1)
                else ((True, FullNode (cs[i := nn]) newFlag, None), t1)) }
      | NilNode \<Rightarrow> Some ((True, ShortNode key val newFlag, None), onInsert prefix t)
      | HashNode h \<Rightarrow> do {
          (r, t1) \<leftarrow> resolveAndTrack E h prefix t;
          case r of
            Inl e \<Rightarrow> Some ((False, NilNode, Some e), t1)
          | Inr rn \<Rightarrow> do {
              ((dirty, nn, err), t2) \<leftarrow> trie_insert E rn prefix key val t1;
              Some (if \<not> dirty \<or> err \<noteq> None then ((False, rn, err), t2) else ((True, nn, None), t2)) } }
      | ValueNode v \<Rightarrow> panic)"

section \<open>Deletion\<close>

text \<open>The index of the only child, \<open>-1\<close> when there is none and \<open>-2\<close> when there are two: the loop of the
  reduction.\<close>

fun only_child :: "nat \<Rightarrow> int \<Rightarrow> node list \<Rightarrow> int" where
  "only_child i pos [] = pos"
| "only_child i pos (c # cs) =
     (if c \<noteq> NilNode then (if pos = -1 then only_child (Suc i) (int i) cs else -2) else only_child (Suc i) pos cs)"

text \<open>What is left of a full node after one of its children became nil.\<close>

definition reduce_full ::
  "TrieEnv \<Rightarrow> bytes \<Rightarrow> node list \<Rightarrow> tracer \<Rightarrow> ((bool \<times> node \<times> trie_error option) \<times> tracer) panics" where
  "reduce_full E prefix cs t =
     (let pos = only_child 0 (-1) cs; p = nat pos; pb = word_of_int pos in
      if pos \<ge> 0 then do {
        (r, t1) \<leftarrow> (if pos \<noteq> 16 then resolve E (cs ! p) (prefix @ [pb]) t else Some (Inr NilNode, t));
        case r of
          Inl e \<Rightarrow> Some ((False, NilNode, Some e), t1)
        | Inr (ShortNode k v fl) \<Rightarrow> Some ((True, ShortNode (pb # k) v newFlag, None), onDelete (prefix @ [pb]) t1)
        | Inr _ \<Rightarrow> Some ((True, ShortNode [pb] (cs ! p) newFlag, None), t1) }
      else Some ((True, FullNode cs newFlag, None), t))"

partial_function (option) trie_delete ::
  "TrieEnv \<Rightarrow> node \<Rightarrow> bytes \<Rightarrow> bytes \<Rightarrow> tracer \<Rightarrow> ((bool \<times> node \<times> trie_error option) \<times> tracer) panics" where
  "trie_delete E n prefix key t = (case n of
       ShortNode k v fl \<Rightarrow>
         (let m = prefixLen key k in
          if m < length k then Some ((False, n, None), t)
          else if m = length key then Some ((True, NilNode, None), onDelete prefix t)
          else do {
            ((dirty, child, err), t1) \<leftarrow> trie_delete E v (prefix @ take (length k) key) (drop (length k) key) t;
            Some (if \<not> dirty \<or> err \<noteq> None then ((False, n, err), t1)
                  else case child of
                    ShortNode k2 v2 fl2 \<Rightarrow> ((True, ShortNode (k @ k2) v2 newFlag, None), onDelete (prefix @ k) t1)
                  | _ \<Rightarrow> ((True, ShortNode k child newFlag, None), t1)) })
     | FullNode cs fl \<Rightarrow> do {
         guard_panic (0 < length key);
         let i = unat (key ! 0);
         guard_panic (i < length cs);
         ((dirty, nn, err), t1) \<leftarrow> trie_delete E (cs ! i) (prefix @ [key ! 0]) (drop 1 key) t;
         if \<not> dirty \<or> err \<noteq> None then Some ((False, n, err), t1)
         else if nn \<noteq> NilNode then Some ((True, FullNode (cs[i := nn]) newFlag, None), t1)
         else reduce_full E prefix (cs[i := nn]) t1 }
     | ValueNode v \<Rightarrow> Some ((True, NilNode, None), t)
     | NilNode \<Rightarrow> Some ((False, NilNode, None), t)
     | HashNode h \<Rightarrow> do {
         (r, t1) \<leftarrow> resolveAndTrack E h prefix t;
         case r of
           Inl e \<Rightarrow> Some ((False, NilNode, Some e), t1)
         | Inr rn \<Rightarrow> do {
             ((dirty, nn, err), t2) \<leftarrow> trie_delete E rn prefix key t1;
             Some (if \<not> dirty \<or> err \<noteq> None then ((False, rn, err), t2) else ((True, nn, None), t2)) } })"

section \<open>The trie object\<close>

record Trie =
  t_root :: node
  t_owner :: common_Hash
  t_committed :: bool
  t_unhashed :: int
  t_env :: TrieEnv
  t_tracer :: tracer

definition New_trie ::
  "Rlp \<Rightarrow> common_Hash \<Rightarrow> (common_Hash \<Rightarrow> string + node_reader) \<Rightarrow> (common_Hash \<Rightarrow> bytes) \<Rightarrow> TrieID \<Rightarrow> (trie_error + Trie) panics" where
  "New_trie R emptyRoot db to_bytes i = (case newTrieReader emptyRoot db (id_StateRoot i) (id_Owner i) of
       Inl e \<Rightarrow> Some (Inl e)
     | Inr rd \<Rightarrow>
         (let t = \<lparr> t_root = NilNode, t_owner = id_Owner i, t_committed = False, t_unhashed = 0,
                    t_env = \<lparr> te_rlp = R, te_reader = rd \<rparr>, t_tracer = newTracer \<rparr> in
          if id_Root i \<noteq> 0 \<and> id_Root i \<noteq> emptyRoot then do {
            (r, tr) \<leftarrow> resolveAndTrack (t_env t) (to_bytes (id_Root i)) [] (t_tracer t);
            Some (case r of Inl e \<Rightarrow> Inl e | Inr rootnode \<Rightarrow> Inr (t\<lparr> t_root := rootnode, t_tracer := tr \<rparr>)) }
          else Some (Inr t)))"

definition Trie_Get :: "bytes \<Rightarrow> Trie \<Rightarrow> ((trie_error + bytes) \<times> Trie) panics" where
  "Trie_Get key t =
     (if t_committed t then Some (Inl ErrCommitted, t)
      else do {
        ((v, newroot, didResolve, err), tr) \<leftarrow> trie_get (t_env t) (t_root t) (keybytesToHex key) 0 (t_tracer t);
        let t1 = t\<lparr> t_tracer := tr \<rparr>;
        Some (case err of
            None \<Rightarrow> (Inr v, if didResolve then t1\<lparr> t_root := newroot \<rparr> else t1)
          | Some e \<Rightarrow> (Inl e, t1)) })"

definition Trie_update :: "bytes \<Rightarrow> bytes \<Rightarrow> Trie \<Rightarrow> (trie_error option \<times> Trie) panics" where
  "Trie_update key val t0 =
     (let t = t0\<lparr> t_unhashed := t_unhashed t0 + 1 \<rparr>; k = keybytesToHex key in do {
      ((dirty, n, err), tr) \<leftarrow>
        (if length val \<noteq> 0 then trie_insert (t_env t) (t_root t) [] k (ValueNode val) (t_tracer t)
         else trie_delete (t_env t) (t_root t) [] k (t_tracer t));
      let t1 = t\<lparr> t_tracer := tr \<rparr>;
      Some (if err \<noteq> None then (err, t1) else (None, t1\<lparr> t_root := n \<rparr>)) })"

definition Trie_Update :: "bytes \<Rightarrow> bytes \<Rightarrow> Trie \<Rightarrow> (trie_error option \<times> Trie) panics" where
  "Trie_Update key val t = (if t_committed t then Some (Some ErrCommitted, t) else Trie_update key val t)"

definition Trie_Delete :: "bytes \<Rightarrow> Trie \<Rightarrow> (trie_error option \<times> Trie) panics" where
  "Trie_Delete key t0 =
     (if t_committed t0 then Some (Some ErrCommitted, t0)
      else let t = t0\<lparr> t_unhashed := t_unhashed t0 + 1 \<rparr> in do {
        ((dirty, n, err), tr) \<leftarrow> trie_delete (t_env t) (t_root t) [] (keybytesToHex key) (t_tracer t);
        let t1 = t\<lparr> t_tracer := tr \<rparr>;
        Some (if err \<noteq> None then (err, t1) else (None, t1\<lparr> t_root := n \<rparr>)) })"

definition Trie_Reset :: "Trie \<Rightarrow> Trie" where
  "Trie_Reset t = t\<lparr> t_root := NilNode, t_owner := 0, t_unhashed := 0, t_tracer := newTracer, t_committed := False \<rparr>"

end
