(* ===== verification/MptMap.thy ===== *)
theory MptMap
  imports Mpt
begin

text \<open>
  The Patricia trie is a map: \<open>sub E p n m\<close> says that the node \<open>n\<close>, at path \<open>p\<close>, is a well-formed reduced
  subtrie that holds exactly the entries of \<open>m\<close>, where nodes given by hash are those the database
  returns. Lookup, insertion and deletion are shown to return (no panic, no error, no endless descent) and
  to be lookup, update and removal on that map, and the form of a subtrie is shown to depend on its
  entries only.
\<close>

section \<open>Keys with terminator\<close>

fun tkey :: "bytes \<Rightarrow> bool" where
  "tkey [] \<longleftrightarrow> False"
| "tkey (x # k) \<longleftrightarrow> (if k = [] then x = 16 else x < 16 \<and> tkey k)"

lemma tkey_not_Nil [simp]: "tkey k \<Longrightarrow> k \<noteq> []"
  by auto

lemma tkey_append: "tkey (a @ b) \<longleftrightarrow> (if b = [] then tkey a else nibs a \<and> tkey b)"
  by (induction a) auto

lemma tkey_keybytesToHex [simp]: "tkey (keybytesToHex b)"
  by (simp add: keybytesToHex_def tkey_append)

lemma keybytesToHex_inj [simp]: "keybytesToHex a = keybytesToHex b \<longleftrightarrow> a = b"
  using keybytes_round_trip by (metis option.inject)

lemma nibble_index: "x < 16 \<Longrightarrow> unat x < 16" for x :: byte
  by (simp add: word_less_nat_alt)

lemma less_nibble_17: "x < 16 \<Longrightarrow> unat x < 17" for x :: byte
  using nibble_index [of x] by simp

lemma tkey_index: "tkey (x # k) \<Longrightarrow> unat x < 17" "tkey (x # k) \<Longrightarrow> unat x = 16 \<longleftrightarrow> k = []"
  by (auto dest: nibble_index split: if_splits)

section \<open>Common prefixes\<close>

lemma prefixLen_le [simp]: "prefixLen a b \<le> length a" "prefixLen a b \<le> length b"
  by (induction a b rule: prefixLen.induct) auto

lemma prefixLen_take: "take (prefixLen a b) a = take (prefixLen a b) b"
  by (induction a b rule: prefixLen.induct) auto

lemma prefixLen_full: "prefixLen (k @ a) k = length k"
  by (induction k) simp_all

lemma prefixLen_split: "x \<noteq> y \<Longrightarrow> prefixLen (c @ x # a) (c @ y # b) = length c"
  by (induction c) simp_all

lemma prefixLen_exists:
  assumes "tkey key" "nibs k \<or> tkey k"
  shows "(\<exists>r. key = k @ r) \<or> (\<exists>c x a y b. key = c @ x # a \<and> k = c @ y # b \<and> x \<noteq> y \<and> nibs c)"
  using assms
proof (induction key k rule: prefixLen.induct)
  case (1 x a y b)
  show ?case
  proof (cases "x = y")
    case False
    then show ?thesis
      by (metis append_Nil nibs_simps(1))
  next
    case True
    show ?thesis
    proof (cases "a = []")
      case True
      then show ?thesis
        using 1 \<open>x = y\<close> by (auto split: if_splits)
    next
      case False
      then have "(\<exists>r. a = b @ r) \<or> (\<exists>c u d v e. a = c @ u # d \<and> b = c @ v # e \<and> u \<noteq> v \<and> nibs c)" "y < 16"
        using 1 \<open>x = y\<close> by (auto split: if_splits)
      then show ?thesis
        using \<open>x = y\<close> by (metis append_Cons nibs_simps(2))
    qed
  qed
qed auto

lemma prefixLen_cases:
  assumes "tkey key" "nibs k \<or> tkey k"
  obtains (whole) r where "key = k @ r"
    | (part) c x a y b where "key = c @ x # a" "k = c @ y # b" "x \<noteq> y" "nibs c"
  using prefixLen_exists [OF assms] by blast

section \<open>Maps of subtries\<close>

definition extm :: "bytes \<Rightarrow> (bytes \<rightharpoonup> bytes) \<Rightarrow> (bytes \<rightharpoonup> bytes)" where
  "extm k m = (\<lambda>x. if take (length k) x = k then m (drop (length k) x) else None)"

definition branchm :: "(nat \<Rightarrow> bytes \<rightharpoonup> bytes) \<Rightarrow> (bytes \<rightharpoonup> bytes)" where
  "branchm ms = (\<lambda>x. case x of [] \<Rightarrow> None | i # y \<Rightarrow> if unat i < 17 then ms (unat i) y else None)"

lemma extm_Cons: "extm (i # k) m = extm [i] (extm k m)"
proof
  fix x
  show "extm (i # k) m x = extm [i] (extm k m) x"
    by (cases x) (auto simp: extm_def)
qed

lemma extm_append: "extm (a @ b) m = extm a (extm b m)"
proof (induction a)
  case (Cons i a)
  then show ?case
    by (metis append_Cons extm_Cons)
qed (simp add: extm_def fun_eq_iff)

lemma extm_app [simp]: "extm k m (k @ r) = m r"
  by (simp add: extm_def)

lemma extm_single: "extm a [b \<mapsto> v] = [a @ b \<mapsto> v]"
  by (auto simp: extm_def fun_eq_iff) (metis append_take_drop_id)+

lemma extm_upd: "(extm k m)(k @ r := y) = extm k (m(r := y))"
  by (auto simp: extm_def fun_eq_iff) (metis append_take_drop_id)+

lemma extm_other: "take (length k) x \<noteq> k \<Longrightarrow> extm k m x = None"
  by (simp add: extm_def)

lemma extm_empty [simp]: "extm k Map.empty = Map.empty"
  by (auto simp: extm_def)

lemma branchm_Cons [simp]: "unat i < 17 \<Longrightarrow> branchm ms (i # y) = ms (unat i) y"
  by (simp add: branchm_def)

lemma branchm_upd: "unat i < 17 \<Longrightarrow> (branchm ms)(i # y := z) = branchm (ms(unat i := (ms (unat i))(y := z)))"
  by (auto simp: branchm_def fun_eq_iff word_unat_eq_iff split: list.splits)

lemma branchm_single: "unat i < 17 \<Longrightarrow> branchm ((\<lambda>_. Map.empty)(unat i := m)) = extm [i] m"
  by (auto simp: branchm_def extm_def fun_eq_iff word_unat_eq_iff split: list.splits)

lemma branchm_two:
  "unat i < 17 \<Longrightarrow> unat j < 17 \<Longrightarrow> i \<noteq> j \<Longrightarrow>
   branchm ((\<lambda>_. Map.empty)(unat i := a, unat j := [b \<mapsto> v])) = (extm [i] a)(j # b \<mapsto> v)"
  by (auto simp: branchm_def extm_def fun_eq_iff word_unat_eq_iff split: list.splits)

section \<open>Well-formed subtries\<close>

definition resolves :: "TrieEnv \<Rightarrow> bytes \<Rightarrow> bytes \<Rightarrow> node \<Rightarrow> bool" where
  "resolves E p h n \<longleftrightarrow> (\<exists>blob. reader_node (te_reader E) p (BytesToHash h) = Inr blob \<and>
      mustDecodeNode (te_rlp E) (Some h) blob = Some n)"

definition branching :: "TrieEnv \<Rightarrow> bytes \<Rightarrow> node \<Rightarrow> bool" where
  "branching E p c \<longleftrightarrow> (\<exists>cs fl. c = FullNode cs fl \<or> (\<exists>h. c = HashNode h \<and> resolves E p h (FullNode cs fl)))"

text \<open>The seventeenth child of a full node: a value or nothing.\<close>

definition slot16 :: "node \<Rightarrow> (bytes \<rightharpoonup> bytes) \<Rightarrow> bool" where
  "slot16 c m \<longleftrightarrow> c = NilNode \<and> m = Map.empty \<or> (\<exists>v. c = ValueNode v \<and> v \<noteq> [] \<and> m = [[] \<mapsto> v])"

inductive sub :: "TrieEnv \<Rightarrow> bytes \<Rightarrow> node \<Rightarrow> (bytes \<rightharpoonup> bytes) \<Rightarrow> bool" for E where
  nil: "sub E p NilNode Map.empty"
| leaf: "tkey k \<Longrightarrow> v \<noteq> [] \<Longrightarrow> sub E p (ShortNode k (ValueNode v) fl) [k \<mapsto> v]"
| ext: "k \<noteq> [] \<Longrightarrow> nibs k \<Longrightarrow> branching E (p @ k) c \<Longrightarrow> sub E (p @ k) c m \<Longrightarrow> sub E p (ShortNode k c fl) (extm k m)"
| full: "length cs = 17 \<Longrightarrow> \<forall>i<16. sub E (p @ [word_of_nat i]) (cs ! i) (ms i) \<Longrightarrow> slot16 (cs ! 16) (ms 16) \<Longrightarrow>
     \<exists>i<17. \<exists>j<17. i \<noteq> j \<and> cs ! i \<noteq> NilNode \<and> cs ! j \<noteq> NilNode \<Longrightarrow> sub E p (FullNode cs fl) (branchm ms)"
| hash: "resolves E p h n \<Longrightarrow> n \<noteq> NilNode \<Longrightarrow> \<forall>h'. n \<noteq> HashNode h' \<Longrightarrow> sub E p n m \<Longrightarrow> sub E p (HashNode h) m"

inductive_cases sub_NilE: "sub E p NilNode m"
inductive_cases sub_ValueE: "sub E p (ValueNode v) m"
inductive_cases sub_ShortE: "sub E p (ShortNode k c fl) m"
inductive_cases sub_FullE: "sub E p (FullNode cs fl) m"
inductive_cases sub_HashE: "sub E p (HashNode h) m"

lemma resolves_resolveAndTrack:
  "resolves E p h n \<Longrightarrow> \<exists>t'. resolveAndTrack E h p t = Some (Inr n, t')"
  by (auto simp: resolves_def resolveAndTrack_def)

lemma resolves_unique: "resolves E p h n \<Longrightarrow> resolves E p h n' \<Longrightarrow> n = n'"
  by (auto simp: resolves_def)

lemma branching_simps [simp]:
  "branching E p (FullNode cs fl)" "\<not> branching E p NilNode" "\<not> branching E p (ValueNode v)" "\<not> branching E p (ShortNode k c fl)"
  "resolves E p h n \<Longrightarrow> branching E p (HashNode h) \<longleftrightarrow> (\<exists>cs fl. n = FullNode cs fl)"
  by (auto simp: branching_def dest: resolves_unique)

lemma slot16_Nil [simp]: "slot16 NilNode m \<longleftrightarrow> m = Map.empty" "slot16 (ValueNode v) m \<longleftrightarrow> v \<noteq> [] \<and> m = [[] \<mapsto> v]"
  by (auto simp: slot16_def)

text \<open>A child of a full node at index \<open>i\<close>, one notion for all seventeen.\<close>

definition slot :: "TrieEnv \<Rightarrow> bytes \<Rightarrow> nat \<Rightarrow> node \<Rightarrow> (bytes \<rightharpoonup> bytes) \<Rightarrow> bool" where
  "slot E p i c m \<longleftrightarrow> (if i < 16 then sub E (p @ [word_of_nat i]) c m else slot16 c m)"

lemma full_slots:
  assumes "length cs = 17" "\<forall>i<17. slot E p i (cs ! i) (ms i)" "i < 17" "j < 17" "i \<noteq> j" "cs ! i \<noteq> NilNode" "cs ! j \<noteq> NilNode"
  shows "sub E p (FullNode cs fl) (branchm ms)"
proof (rule sub.full)
  show "\<forall>i<16. sub E (p @ [word_of_nat i]) (cs ! i) (ms i)" "slot16 (cs ! 16) (ms 16)"
    using assms(2) by (auto simp: slot_def dest: spec [of _ "16 :: nat"])
qed (use assms in blast)+

lemma slots_of_full:
  "\<forall>i<16. sub E (p @ [word_of_nat i]) (cs ! i) (ms i) \<Longrightarrow> slot16 (cs ! 16) (ms 16) \<Longrightarrow> i < 17 \<Longrightarrow> slot E p i (cs ! i) (ms i)"
  by (cases "i = 16") (auto simp: slot_def)

lemma slot_Nil [simp]: "i < 17 \<Longrightarrow> slot E p i NilNode Map.empty"
  by (simp add: slot_def sub.nil)

lemma full_upd:
  assumes "length cs = 17" "\<forall>i<16. sub E (p @ [word_of_nat i]) (cs ! i) (ms i)" "slot16 (cs ! 16) (ms 16)"
    "\<exists>i<17. \<exists>j<17. i \<noteq> j \<and> cs ! i \<noteq> NilNode \<and> cs ! j \<noteq> NilNode" "i < 17" "slot E p i c m" "c \<noteq> NilNode"
  shows "sub E p (FullNode (cs[i := c]) fl) (branchm (ms(i := m)))"
proof -
  obtain j where j: "j < 17" "j \<noteq> i" "cs ! j \<noteq> NilNode"
    using assms(4) by metis
  show ?thesis
  proof (rule full_slots [of _ _ _ _ i j])
    show "\<forall>k<17. slot E p k (cs[i := c] ! k) ((ms(i := m)) k)"
      using assms slots_of_full [OF assms(2,3)] by (auto simp: nth_list_update)
  qed (use assms j in \<open>auto simp: nth_list_update\<close>)
qed

section \<open>Lookup\<close>

lemmas trie_get_simps =
  trie_get.simps [of _ NilNode, simplified]
  trie_get.simps [of _ "ValueNode v" for v, simplified]
  trie_get.simps [of _ "ShortNode k c fl" for k c fl, simplified]
  trie_get.simps [of _ "FullNode cs fl" for cs fl, simplified]
  trie_get.simps [of _ "HashNode h" for h, simplified]

definition value_or_nil :: "bytes option \<Rightarrow> bytes" where
  "value_or_nil r = (case r of None \<Rightarrow> [] | Some v \<Rightarrow> v)"

definition get_ok :: "TrieEnv \<Rightarrow> bytes \<Rightarrow> node \<Rightarrow> (bytes \<rightharpoonup> bytes) \<Rightarrow> bytes \<Rightarrow> tracer \<Rightarrow> bool" where
  "get_ok E p n m key t \<longleftrightarrow> (\<exists>nn res t'. trie_get E n (p @ key) (length p) t = Some ((value_or_nil (m key), nn, res, None), t') \<and>
     (if res then sub E p nn m \<and> nn \<noteq> NilNode \<and> (branching E p n \<longrightarrow> branching E p nn) else nn = n))"

lemma tkey_not_nibs: "tkey k \<Longrightarrow> \<not> nibs k"
  by (induction k) (auto split: if_splits)

lemma get_okI:
  "trie_get E n (p @ key) (length p) t = Some ((value_or_nil (m key), nn, res, None), t') \<Longrightarrow>
   (res \<Longrightarrow> sub E p nn m \<and> nn \<noteq> NilNode \<and> (branching E p n \<longrightarrow> branching E p nn)) \<Longrightarrow> (\<not> res \<Longrightarrow> nn = n) \<Longrightarrow> get_ok E p n m key t"
  by (auto simp: get_ok_def)

lemma get_short_other:
  assumes "take (length k) key \<noteq> k" "m key = None"
  shows "get_ok E p (ShortNode k c fl) m key t"
  using assms by (intro get_okI [where res = False]) (simp_all add: trie_get_simps value_or_nil_def)

lemma get_short_step:
  "trie_get E (ShortNode k c fl) (p @ k @ r) (length p) t = do {
     ((v, nn, didResolve, err), t1) \<leftarrow> trie_get E c ((p @ k) @ r) (length (p @ k)) t;
     Some ((v, if err = None \<and> didResolve then ShortNode k nn fl else ShortNode k c fl, didResolve, err), t1) }"
  by (simp add: trie_get_simps)

lemma part_other: "key = c @ x # a \<Longrightarrow> k = c @ y # b \<Longrightarrow> x \<noteq> y \<Longrightarrow> take (length k) key \<noteq> k"
  by simp

lemma get_correct: "sub E p n m \<Longrightarrow> tkey key \<Longrightarrow> get_ok E p n m key t"
proof (induction arbitrary: key t rule: sub.induct)
  case (nil p key t)
  then show ?case
    by (intro get_okI [where res = False]) (simp_all add: trie_get_simps value_or_nil_def)
next
  case (leaf k v p fl key t)
  have "nibs k \<or> tkey k"
    using leaf by simp
  with leaf(3) show ?case
  proof (cases rule: prefixLen_cases)
    case (whole r)
    then have "key = k"
      using leaf tkey_not_nibs by (auto simp: tkey_append split: if_splits)
    then show ?thesis
      using get_short_step [of E k "ValueNode v" fl p "[]" t]
      by (intro get_okI [where res = False]) (simp_all add: trie_get_simps(2) value_or_nil_def)
  next
    case (part c x a y b)
    then show ?thesis
      by (intro get_short_other) auto
  qed
next
  case (ext k p c m fl key t)
  have "nibs k \<or> tkey k"
    using ext by simp
  with ext.prems show ?case
  proof (cases rule: prefixLen_cases)
    case (whole r)
    then have "tkey r"
      using ext by (auto simp: tkey_append tkey_not_nibs split: if_splits)
    then have "get_ok E (p @ k) c m r t"
      by (rule ext.IH)
    then obtain nn res t' where "trie_get E c ((p @ k) @ r) (length (p @ k)) t = Some ((value_or_nil (m r), nn, res, None), t')"
      "res \<longrightarrow> sub E (p @ k) nn m \<and> nn \<noteq> NilNode \<and> (branching E (p @ k) c \<longrightarrow> branching E (p @ k) nn)"
      unfolding get_ok_def by metis
    then show ?thesis
      using ext.hyps whole by (intro get_okI [where res = res and nn = "if res then ShortNode k nn fl else ShortNode k c fl" and t' = t'])
         (auto simp: get_short_step simp del: append_assoc length_append intro: sub.ext)
  next
    case (part d x a y b)
    then show ?thesis
      by (intro get_short_other extm_other) auto
  qed
next
  case (full cs p ms fl key t)
  obtain i y where key: "key = i # y"
    using full.prems by (cases key) auto
  note idx = tkey_index [OF full.prems [unfolded key]]
  have "\<exists>nn res t'. trie_get E (cs ! unat i) ((p @ [i]) @ y) (length (p @ [i])) t =
      Some ((value_or_nil (ms (unat i) y), nn, res, None), t') \<and> (res \<longrightarrow> slot E p (unat i) nn (ms (unat i)) \<and> nn \<noteq> NilNode)"
  proof (cases "y = []")
    case True
    then have "slot16 (cs ! unat i) (ms (unat i))"
      using full.hyps idx by simp
    then show ?thesis
      using True by (auto simp: slot16_def trie_get_simps value_or_nil_def)
  next
    case False
    then have "unat i < 16" "tkey y"
      using full.prems key by (auto simp: nibble_index)
    then have "get_ok E (p @ [i]) (cs ! unat i) (ms (unat i)) y t"
      using full.IH by (auto dest!: spec [of _ "unat i"])
    then show ?thesis
      using \<open>unat i < 16\<close> by (auto simp: get_ok_def slot_def simp del: append_assoc length_append split: if_splits)
  qed
  then obtain nn res t' where got: "trie_get E (cs ! unat i) ((p @ [i]) @ y) (length (p @ [i])) t =
      Some ((value_or_nil (ms (unat i) y), nn, res, None), t')" "res \<longrightarrow> slot E p (unat i) nn (ms (unat i)) \<and> nn \<noteq> NilNode"
    by blast
  have "sub E p (FullNode (cs[unat i := nn]) fl) (branchm ms)" if res
    using full_upd [of cs E p ms "unat i" nn "ms (unat i)" fl] full.hyps full.IH got(2) that idx(1) by simp
  then show ?case
    using got key idx full.hyps(1) by (intro get_okI [where res = res and nn = "if res then FullNode (cs[unat i := nn]) fl else FullNode cs fl" and t' = t'])
       (auto simp: trie_get_simps)
next
  case (hash p h n m key t)
  obtain t1 where t1: "resolveAndTrack E h p t = Some (Inr n, t1)"
    using hash.hyps(1) resolves_resolveAndTrack by blast
  have "get_ok E p n m key t1"
    using hash by blast
  then obtain nn res t' where got: "trie_get E n (p @ key) (length p) t1 = Some ((value_or_nil (m key), nn, res, None), t')"
    "sub E p nn m" "nn \<noteq> NilNode" "branching E p n \<longrightarrow> branching E p nn"
    unfolding get_ok_def using hash.hyps by (metis (full_types))
  have "branching E p (HashNode h) \<longrightarrow> branching E p nn"
    using got(4) hash.hyps(1) by auto
  then show ?case
    using got t1 by (intro get_okI [where res = True and nn = nn and t' = t']) (simp_all add: trie_get_simps)
qed

section \<open>Insertion\<close>

lemmas trie_insert_simps =
  trie_insert.simps [of _ NilNode, simplified]
  trie_insert.simps [of _ "ValueNode v" for v, simplified]
  trie_insert.simps [of _ "ShortNode k c fl" for k c fl, simplified]
  trie_insert.simps [of _ "FullNode cs fl" for cs fl, simplified]
  trie_insert.simps [of _ "HashNode h" for h, simplified]

definition wrap_key :: "bytes \<Rightarrow> node \<Rightarrow> node" where
  "wrap_key k n = (if k = [] then n else ShortNode k n newFlag)"

lemma insert_nil: "\<exists>t'. trie_insert E NilNode p key val t = Some ((True, wrap_key key val, None), t')"
  by (simp add: trie_insert_simps wrap_key_def)

lemma insert_whole:
  "k \<noteq> [] \<Longrightarrow> trie_insert E (ShortNode k c fl) p (k @ r) val t = do {
     ((dirty, nn, err), t1) \<leftarrow> trie_insert E c (p @ k) r val t;
     Some (if \<not> dirty \<or> err \<noteq> None then ((False, ShortNode k c fl, err), t1) else ((True, ShortNode k nn newFlag, None), t1)) }"
  by (simp add: trie_insert_simps prefixLen_full)

definition split_node :: "bytes \<Rightarrow> byte \<Rightarrow> node \<Rightarrow> byte \<Rightarrow> node \<Rightarrow> node" where
  "split_node c y n1 x n2 = wrap_key c (FullNode ((replicate 17 NilNode)[unat y := n1, unat x := n2]) newFlag)"

lemma split_node_not_Nil [simp]: "split_node c y n1 x n2 \<noteq> NilNode"
  by (simp add: split_node_def wrap_key_def)

lemma insert_part:
  assumes "x \<noteq> y" "unat x < 17" "unat y < 17"
  shows "\<exists>t'. trie_insert E (ShortNode (c @ y # b) n fl) p (c @ x # a) val t =
     Some ((True, split_node c y (wrap_key b n) x (wrap_key a val), None), t')"
proof -
  obtain t1 where t1: "trie_insert E NilNode (p @ c @ [y]) b n t = Some ((True, wrap_key b n, None), t1)"
    using insert_nil by blast
  obtain t2 where t2: "trie_insert E NilNode (p @ c @ [x]) a val t1 = Some ((True, wrap_key a val, None), t2)"
    using insert_nil by blast
  show ?thesis
    using assms t1 t2
    by (simp add: trie_insert_simps(3) prefixLen_split split_node_def wrap_key_def Let_def take_Suc_conv_app_nth)
qed

lemma extm_Nil [simp]: "extm [] m = m"
  by (simp add: extm_def fun_eq_iff)

lemma slot_leaf: "tkey (y # b) \<Longrightarrow> v \<noteq> [] \<Longrightarrow> slot E q (unat y) (wrap_key b (ValueNode v)) [b \<mapsto> v]"
  by (auto simp: slot_def wrap_key_def nibble_index intro: sub.leaf split: if_splits)

lemma slot_ext:
  "y < 16 \<Longrightarrow> nibs b \<Longrightarrow> branching E (q @ y # b) n \<Longrightarrow> sub E (q @ y # b) n m \<Longrightarrow> slot E q (unat y) (wrap_key b n) (extm b m)"
  by (auto simp: slot_def wrap_key_def nibble_index intro!: sub.ext)

lemma split_sub:
  assumes "nibs c" "x \<noteq> y" "unat x < 17" "unat y < 17" "n1 \<noteq> NilNode" "n2 \<noteq> NilNode"
    "slot E (p @ c) (unat y) n1 m1" "slot E (p @ c) (unat x) n2 [a \<mapsto> v]"
  shows "sub E p (split_node c y n1 x n2) ((extm (c @ [y]) m1)(c @ x # a \<mapsto> v))"
proof -
  let ?cs = "(replicate 17 NilNode)[unat y := n1, unat x := n2]"
  have ne: "unat x \<noteq> unat y"
    using assms(2) by (simp add: word_unat_eq_iff)
  have "sub E (p @ c) (FullNode ?cs newFlag) (branchm ((\<lambda>_. Map.empty)(unat y := m1, unat x := [a \<mapsto> v])))"
    using assms ne by (intro full_slots [of _ _ _ _ "unat y" "unat x"]) (auto simp: nth_list_update)
  then have "sub E (p @ c) (FullNode ?cs newFlag) ((extm [y] m1)(x # a \<mapsto> v))"
    using assms by (simp add: branchm_two)
  then have "sub E p (split_node c y n1 x n2) (extm c ((extm [y] m1)(x # a \<mapsto> v)))"
    using assms(1) by (auto simp: split_node_def wrap_key_def intro: sub.ext)
  then show ?thesis
    by (simp add: extm_append extm_upd)
qed

definition ins_ok :: "TrieEnv \<Rightarrow> bytes \<Rightarrow> node \<Rightarrow> (bytes \<rightharpoonup> bytes) \<Rightarrow> bytes \<Rightarrow> bytes \<Rightarrow> tracer \<Rightarrow> bool" where
  "ins_ok E p n m key v t \<longleftrightarrow> (\<exists>d n' t'. trie_insert E n p key (ValueNode v) t = Some ((d, n', None), t') \<and>
     sub E p n' (m(key \<mapsto> v)) \<and> n' \<noteq> NilNode \<and> (branching E p n \<longrightarrow> branching E p n') \<and> (\<not> d \<longrightarrow> m key = Some v))"

lemma ins_okI:
  "trie_insert E n p key (ValueNode v) t = Some ((d, n', None), t') \<Longrightarrow> sub E p n' (m(key \<mapsto> v)) \<Longrightarrow> n' \<noteq> NilNode \<Longrightarrow>
   (branching E p n \<Longrightarrow> branching E p n') \<Longrightarrow> (\<not> d \<Longrightarrow> m key = Some v) \<Longrightarrow> ins_ok E p n m key v t"
  by (auto simp: ins_ok_def)

lemma insert_correct: "sub E p n m \<Longrightarrow> tkey key \<Longrightarrow> v \<noteq> [] \<Longrightarrow> ins_ok E p n m key v t"
proof (induction arbitrary: key t rule: sub.induct)
  case (nil p key t)
  then show ?case
    by (auto simp: ins_ok_def trie_insert_simps intro: sub.leaf)
next
  case (leaf k w p fl key t)
  have "nibs k \<or> tkey k"
    using leaf by simp
  with leaf(3) show ?case
  proof (cases rule: prefixLen_cases)
    case (whole r)
    then have "key = k"
      using leaf tkey_not_nibs by (auto simp: tkey_append split: if_splits)
    then show ?thesis
      using leaf insert_whole [of k E "ValueNode w" fl p "[]" "ValueNode v" t] sub.leaf [of k v E p]
      by (intro ins_okI [where d = "w \<noteq> v" and n' = "ShortNode k (ValueNode v) (if w \<noteq> v then newFlag else fl)" and t' = t])
         (simp_all add: trie_insert_simps(2) del: fun_upd_apply, simp)
  next
    case (part c x a y b)
    then have k: "tkey (x # a)" "tkey (y # b)"
      using leaf by (auto simp: tkey_append)
    obtain t' where "trie_insert E (ShortNode k (ValueNode w) fl) p key (ValueNode v) t =
        Some ((True, split_node c y (wrap_key b (ValueNode w)) x (wrap_key a (ValueNode v)), None), t')"
      using part insert_part k tkey_index(1) by metis
    moreover have "sub E p (split_node c y (wrap_key b (ValueNode w)) x (wrap_key a (ValueNode v))) ((extm (c @ [y]) [b \<mapsto> w])(c @ x # a \<mapsto> v))"
      using part leaf k by (intro split_sub slot_leaf) (auto simp: tkey_index wrap_key_def simp del: tkey.simps)
    ultimately show ?thesis
      using part by (intro ins_okI) (auto simp: extm_single simp del: fun_upd_apply)
  qed
next
  case (ext k p c m fl key t)
  have "nibs k \<or> tkey k"
    using ext by simp
  with ext.prems(1) show ?case
  proof (cases rule: prefixLen_cases)
    case (whole r)
    then have "tkey r"
      using ext by (auto simp: tkey_append tkey_not_nibs split: if_splits)
    then have "ins_ok E (p @ k) c m r v t"
      using ext by blast
    then obtain d n' t' where got: "trie_insert E c (p @ k) r (ValueNode v) t = Some ((d, n', None), t')"
      "sub E (p @ k) n' (m(r \<mapsto> v))" "branching E (p @ k) n'" "\<not> d \<Longrightarrow> m r = Some v"
      using ext.hyps by (auto simp: ins_ok_def)
    have "sub E p (ShortNode k (if d then n' else c) (if d then newFlag else fl)) (extm k (m(r \<mapsto> v)))"
      using got ext.hyps by (cases d) (auto intro: sub.ext simp: fun_upd_idem)
    then show ?thesis
      using got ext.hyps whole
      by (intro ins_okI [where d = d and n' = "ShortNode k (if d then n' else c) (if d then newFlag else fl)" and t' = t'])
         (auto simp: insert_whole extm_upd)
  next
    case (part d x a y b)
    then have k: "tkey (x # a)" "y < 16" "nibs b"
      using ext by (auto simp: tkey_append)
    obtain t' where ins: "trie_insert E (ShortNode k c fl) p key (ValueNode v) t =
        Some ((True, split_node d y (wrap_key b c) x (wrap_key a (ValueNode v)), None), t')"
      using part insert_part k tkey_index(1) by (metis less_nibble_17)
    have "sub E p (split_node d y (wrap_key b c) x (wrap_key a (ValueNode v))) ((extm (d @ [y]) (extm b m))(d @ x # a \<mapsto> v))"
      using part ext k nibble_index [OF k(2)]
      by (intro split_sub slot_leaf slot_ext) (auto simp: tkey_index wrap_key_def simp del: tkey.simps)
    then show ?thesis
      using ins part by (intro ins_okI) (auto simp: extm_append [symmetric])
  qed
next
  case (full cs p ms fl key t)
  obtain i y where key: "key = i # y"
    using full.prems by (cases key) auto
  note idx = tkey_index [OF full.prems(1) [unfolded key]]
  have "\<exists>d n' t'. trie_insert E (cs ! unat i) (p @ [i]) y (ValueNode v) t = Some ((d, n', None), t') \<and>
      slot E p (unat i) n' ((ms (unat i))(y \<mapsto> v)) \<and> n' \<noteq> NilNode \<and> (\<not> d \<longrightarrow> ms (unat i) y = Some v)"
  proof (cases "y = []")
    case True
    then have "slot16 (cs ! unat i) (ms (unat i))"
      using full.hyps idx by simp
    then show ?thesis
      using True full.prems idx by (auto simp: slot16_def slot_def trie_insert_simps)
  next
    case False
    then have "unat i < 16" "tkey y"
      using full.prems key by (auto simp: nibble_index)
    then have "ins_ok E (p @ [i]) (cs ! unat i) (ms (unat i)) y v t"
      using full.IH full.prems by (auto dest!: spec [of _ "unat i"])
    then show ?thesis
      using \<open>unat i < 16\<close> by (auto simp: ins_ok_def slot_def)
  qed
  then obtain d n' t' where got: "trie_insert E (cs ! unat i) (p @ [i]) y (ValueNode v) t = Some ((d, n', None), t')"
      "slot E p (unat i) n' ((ms (unat i))(y \<mapsto> v))" "n' \<noteq> NilNode" "\<not> d \<longrightarrow> ms (unat i) y = Some v"
    by blast
  have old: "sub E p (FullNode cs fl) (branchm ms)"
    using full.hyps full.IH by (intro sub.full) auto
  have new: "sub E p (FullNode (cs[unat i := n']) newFlag) ((branchm ms)(key \<mapsto> v))"
    using full_upd [of cs E p ms "unat i" n' _ newFlag, OF full.hyps(1) _ full.hyps(2,3) idx(1) got(2,3)] full.IH idx(1)
    by (simp add: key branchm_upd)
  have "d \<or> (branchm ms)(key \<mapsto> v) = branchm ms"
    using got(4) idx(1) key by (auto simp: fun_upd_idem_iff)
  then show ?case
    using got key idx full.hyps(1) old new
    by (intro ins_okI [where d = d and n' = "if d then FullNode (cs[unat i := n']) newFlag else FullNode cs fl" and t' = t'])
       (auto simp: trie_insert_simps)
next
  case (hash p h n m key t)
  obtain t1 where t1: "resolveAndTrack E h p t = Some (Inr n, t1)"
    using hash.hyps(1) resolves_resolveAndTrack by blast
  have "ins_ok E p n m key v t1"
    using hash by blast
  then obtain d n' t' where got: "trie_insert E n p key (ValueNode v) t1 = Some ((d, n', None), t')"
    "sub E p n' (m(key \<mapsto> v))" "n' \<noteq> NilNode" "branching E p n \<longrightarrow> branching E p n'" "\<not> d \<longrightarrow> m key = Some v"
    by (auto simp: ins_ok_def)
  have "sub E p (if d then n' else n) (m(key \<mapsto> v))"
    using got hash.hyps by (auto simp: fun_upd_idem)
  moreover have "branching E p (HashNode h) \<Longrightarrow> branching E p (if d then n' else n)"
    using got(4) hash.hyps(1) by auto
  ultimately show ?case
    using got t1 hash.hyps(2) hash.prems
    by (intro ins_okI [where d = d and n' = "if d then n' else n" and t' = t']) (simp_all add: trie_insert_simps)
qed

section \<open>Deletion\<close>

lemmas trie_delete_simps =
  trie_delete.simps [of _ NilNode, simplified]
  trie_delete.simps [of _ "ValueNode v" for v, simplified]
  trie_delete.simps [of _ "ShortNode k c fl" for k c fl, simplified]
  trie_delete.simps [of _ "FullNode cs fl" for cs fl, simplified]
  trie_delete.simps [of _ "HashNode h" for h, simplified]

lemma only_child_later: "0 \<le> pos \<Longrightarrow> only_child i pos cs = (if \<exists>c \<in> set cs. c \<noteq> NilNode then -2 else pos)"
  by (induction cs arbitrary: i) auto

lemma only_child_one:
  "j < length cs \<Longrightarrow> cs ! j \<noteq> NilNode \<Longrightarrow> \<forall>l<length cs. l \<noteq> j \<longrightarrow> cs ! l = NilNode \<Longrightarrow> only_child i (-1) cs = int (i + j)"
proof (induction cs arbitrary: i j)
  case (Cons c cs)
  show ?case
  proof (cases j)
    case 0
    then have "\<forall>d \<in> set cs. d = NilNode"
      using Cons.prems(3) by (force simp: in_set_conv_nth)
    then show ?thesis
      using 0 Cons.prems by (auto simp: only_child_later)
  next
    case (Suc k)
    then have "c = NilNode" "\<forall>l<length cs. l \<noteq> k \<longrightarrow> cs ! l = NilNode"
      using Cons.prems(3) by force+
    then show ?thesis
      using Suc Cons.prems Cons.IH [of k "Suc i"] by simp
  qed
qed simp

lemma only_child_two:
  "j < l \<Longrightarrow> l < length cs \<Longrightarrow> cs ! j \<noteq> NilNode \<Longrightarrow> cs ! l \<noteq> NilNode \<Longrightarrow> only_child i (-1) cs = -2"
proof (induction cs arbitrary: i j l)
  case (Cons c cs)
  obtain l' where l: "l = Suc l'"
    using Cons.prems(1) by (cases l) auto
  show ?case
  proof (cases "c = NilNode")
    case True
    then obtain j' where "j = Suc j'"
      using Cons.prems(3) by (cases j) auto
    then show ?thesis
      using True l Cons.prems Cons.IH [of j' l' "Suc i"] by simp
  next
    case False
    then show ?thesis
      using l Cons.prems nth_mem [of l' cs] by (auto simp: only_child_later)
  qed
qed simp

lemma slot_of_Nil: "slot E p i NilNode m \<Longrightarrow> m = Map.empty"
  by (auto simp: slot_def elim: sub_NilE split: if_splits)

lemma branchm_one:
  assumes "j < 17" "\<forall>l<17. l \<noteq> j \<longrightarrow> ms l = Map.empty"
  shows "branchm ms = extm [word_of_nat j] (ms j)"
proof -
  have "branchm ms = branchm ((\<lambda>_. Map.empty)(unat (word_of_nat j :: byte) := ms j))"
    using assms by (auto simp: branchm_def fun_eq_iff unat_of_nat split: list.splits)
  also have "\<dots> = extm [word_of_nat j] (ms j)"
    using assms(1) by (intro branchm_single) (simp add: unat_of_nat)
  finally show ?thesis .
qed

text \<open>Putting a nibble in front of a subtrie: what the reduction of a full node and the merge of short
  nodes produce.\<close>

lemma sub_merge:
  assumes "sub E (p @ k) (ShortNode k2 v fl) m" "nibs k"
  shows "sub E p (ShortNode (k @ k2) v fl2) (extm k m)"
  using assms(1)
proof (rule sub_ShortE)
  fix w assume "v = ValueNode w" "m = [k2 \<mapsto> w]" "tkey k2" "w \<noteq> []"
  then show ?thesis
    using assms(2) sub.leaf [of "k @ k2" w E p] by (simp add: extm_single tkey_append)
next
  fix m' assume "m = extm k2 m'" "k2 \<noteq> []" "nibs k2" "branching E ((p @ k) @ k2) v" "sub E ((p @ k) @ k2) v m'"
  then show ?thesis
    using assms(2) sub.ext [of "k @ k2" E p v m'] by (simp add: extm_append)
qed

lemma nibble_word: "j < 16 \<Longrightarrow> (word_of_nat j :: byte) < 16"
  by (simp add: word_less_nat_alt unat_of_nat)

definition solid :: "node \<Rightarrow> bool" where
  "solid n \<longleftrightarrow> (\<exists>k v fl. n = ShortNode k v fl) \<or> (\<exists>cs fl. n = FullNode cs fl)"

lemma solid_simps [simp]: "solid (ShortNode k v fl)" "solid (FullNode cs fl)" "\<not> solid NilNode" "\<not> solid (HashNode h)"
  by (auto simp: solid_def)

lemma reduce_one:
  assumes "j < 16" "only_child 0 (-1) cs = int j" "sub E (p @ [word_of_nat j]) (cs ! j) m" "cs ! j \<noteq> NilNode"
  shows "\<exists>n' t'. reduce_full E p cs t = Some ((True, n', None), t') \<and> sub E p n' (extm [word_of_nat j] m) \<and> solid n'"
proof -
  let ?w = "word_of_nat j :: byte"
  have nib: "nibs [?w]"
    using assms(1) by (simp add: nibble_word)
  have merged: "sub E p (ShortNode (?w # k) v newFlag) (extm [?w] m)" if "sub E (p @ [?w]) (ShortNode k v fl) m" for k v fl
    using sub_merge [OF that nib] by simp
  have single: "sub E p (ShortNode [?w] c newFlag) (extm [?w] m)" if "branching E (p @ [?w]) c" "sub E (p @ [?w]) c m" for c
    using nib that by (intro sub.ext) auto
  note red = reduce_full_def assms(2) Let_def resolve_def
  show ?thesis
  proof (cases "cs ! j")
    case (ShortNode k v fl)
    then show ?thesis
      using assms merged [of k v fl] by (simp add: red)
  next
    case (FullNode ds fl)
    then show ?thesis
      using assms single [of "cs ! j"] by (simp add: red)
  next
    case (HashNode h)
    then obtain n where n: "resolves E (p @ [?w]) h n" "sub E (p @ [?w]) n m" "n \<noteq> NilNode" "\<forall>h'. n \<noteq> HashNode h'"
      using assms(3) by (auto elim: sub_HashE)
    obtain t1 where "resolveAndTrack E h (p @ [?w]) t = Some (Inr n, t1)"
      using n(1) resolves_resolveAndTrack by blast
    then show ?thesis
      using n assms HashNode merged single [of "cs ! j"]
      by (cases n) (auto simp: red elim: sub_ValueE)
  qed (use assms in \<open>auto elim: sub_ValueE\<close>)
qed

lemma reduce_correct:
  assumes "length cs = 17" "\<forall>i<17. slot E p i (cs ! i) (ms i)" "j < 17" "cs ! j \<noteq> NilNode"
  shows "\<exists>n' t'. reduce_full E p cs t = Some ((True, n', None), t') \<and> sub E p n' (branchm ms) \<and> solid n'"
proof (cases "\<exists>l<17. l \<noteq> j \<and> cs ! l \<noteq> NilNode")
  case True
  then obtain l where l: "l < 17" "l \<noteq> j" "cs ! l \<noteq> NilNode"
    by blast
  have "only_child 0 (-1) cs = -2"
    using only_child_two [of j l cs 0] only_child_two [of l j cs 0] l assms by (cases "j < l") auto
  then have "reduce_full E p cs t = Some ((True, FullNode cs newFlag, None), t)"
    by (simp add: reduce_full_def)
  moreover have "sub E p (FullNode cs newFlag) (branchm ms)"
    using assms l by (intro full_slots [of _ _ _ _ j l]) auto
  ultimately show ?thesis
    by auto
next
  case False
  then have one: "only_child 0 (-1) cs = int j"
    using only_child_one [of j cs 0] assms by auto
  have "\<forall>l<17. l \<noteq> j \<longrightarrow> ms l = Map.empty"
    using False assms(2) slot_of_Nil by metis
  then have m: "branchm ms = extm [word_of_nat j] (ms j)"
    using assms(3) branchm_one by blast
  show ?thesis
  proof (cases "j < 16")
    case True
    then show ?thesis
      using reduce_one [OF True one] assms m by (simp add: slot_def)
  next
    case False
    then have "j = 16"
      using assms(3) by simp
    then have "slot16 (cs ! 16) (ms 16)"
      using assms(2,3) by (auto simp: slot_def dest: spec [of _ "16 :: nat"])
    then obtain v where "cs ! 16 = ValueNode v" "v \<noteq> []" "ms 16 = [[] \<mapsto> v]"
      using assms(4) \<open>j = 16\<close> by (auto simp: slot16_def)
    then show ?thesis
      using one m \<open>j = 16\<close> sub.leaf [of "[16]" v E p newFlag] by (simp add: reduce_full_def extm_single)
  qed
qed

definition del_ok :: "TrieEnv \<Rightarrow> bytes \<Rightarrow> node \<Rightarrow> (bytes \<rightharpoonup> bytes) \<Rightarrow> bytes \<Rightarrow> tracer \<Rightarrow> bool" where
  "del_ok E p n m key t \<longleftrightarrow> (\<exists>d n' t'. trie_delete E n p key t = Some ((d, n', None), t') \<and>
     sub E p n' (m(key := None)) \<and> (\<not> d \<longrightarrow> m key = None) \<and> (d \<longrightarrow> n' = NilNode \<or> solid n') \<and> (branching E p n \<and> d \<longrightarrow> solid n'))"

lemma del_okI:
  "trie_delete E n p key t = Some ((d, n', None), t') \<Longrightarrow> sub E p n' (m(key := None)) \<Longrightarrow> (\<not> d \<Longrightarrow> m key = None) \<Longrightarrow>
   (d \<Longrightarrow> n' = NilNode \<or> solid n') \<Longrightarrow> (branching E p n \<Longrightarrow> d \<Longrightarrow> solid n') \<Longrightarrow> del_ok E p n m key t"
  by (auto simp: del_ok_def)

lemma delete_whole:
  "r \<noteq> [] \<Longrightarrow> trie_delete E (ShortNode k c fl) p (k @ r) t = do {
     ((dirty, child, err), t1) \<leftarrow> trie_delete E c (p @ k) r t;
     Some (if \<not> dirty \<or> err \<noteq> None then ((False, ShortNode k c fl, err), t1)
           else case child of
             ShortNode k2 v2 fl2 \<Rightarrow> ((True, ShortNode (k @ k2) v2 newFlag, None), onDelete (p @ k) t1)
           | _ \<Rightarrow> ((True, ShortNode k child newFlag, None), t1)) }"
  by (simp add: trie_delete_simps prefixLen_full)

lemma delete_other:
  assumes "key = c @ x # a" "k = c @ y # b" "x \<noteq> y" "sub E p (ShortNode k n fl) m" "m key = None"
  shows "del_ok E p (ShortNode k n fl) m key t"
  using assms
  by (intro del_okI [where d = False and n' = "ShortNode k n fl" and t' = t]) (simp_all add: trie_delete_simps prefixLen_split fun_upd_idem)

lemma delete_full:
  assumes "length cs = 17" "\<forall>i<17. slot E p i (cs ! i) (ms i)"
    "\<exists>i<17. \<exists>j<17. i \<noteq> j \<and> cs ! i \<noteq> NilNode \<and> cs ! j \<noteq> NilNode" "unat i < 17"
    and child: "trie_delete E (cs ! unat i) (p @ [i]) y t = Some ((d, nn, None), t1)" "slot E p (unat i) nn ((ms (unat i))(y := None))"
      "\<not> d \<Longrightarrow> ms (unat i) y = None"
  shows "del_ok E p (FullNode cs fl) (branchm ms) (i # y) t"
proof -
  let ?ms = "ms(unat i := (ms (unat i))(y := None))"
  have m: "(branchm ms)(i # y := None) = branchm ?ms"
    by (rule branchm_upd) (rule assms(4))
  have slots: "\<forall>k<17. slot E p k (cs[unat i := nn] ! k) (?ms k)"
    using assms by (auto simp: nth_list_update)
  obtain j where j: "j < 17" "j \<noteq> unat i" "cs ! j \<noteq> NilNode"
    using assms(3) by metis
  have step: "trie_delete E (FullNode cs fl) p (i # y) t =
     (if \<not> d then Some ((False, FullNode cs fl, None), t1)
      else if nn \<noteq> NilNode then Some ((True, FullNode (cs[unat i := nn]) newFlag, None), t1)
      else reduce_full E p (cs[unat i := nn]) t1)"
    using assms by (simp add: trie_delete_simps)
  consider "\<not> d" | "d" "nn \<noteq> NilNode" | "d" "nn = NilNode"
    by blast
  then show ?thesis
  proof cases
    case 1
    then have "branchm ms (i # y) = None"
      using child(3) assms(4) by simp
    moreover have "sub E p (FullNode cs fl) (branchm ms)"
      using assms(1-3) full_slots by metis
    ultimately show ?thesis
      using 1 step by (intro del_okI [where d = False and n' = "FullNode cs fl" and t' = t1]) (simp_all add: fun_upd_idem)
  next
    case 2
    have "sub E p (FullNode (cs[unat i := nn]) newFlag) (branchm ?ms)"
      using 2 slots j assms by (intro full_slots [of _ _ _ _ "unat i" j]) auto
    then show ?thesis
      using 2 step m by (intro del_okI [where d = True and n' = "FullNode (cs[unat i := nn]) newFlag" and t' = t1]) simp_all
  next
    case 3
    then obtain n' t' where "reduce_full E p (cs[unat i := nn]) t1 = Some ((True, n', None), t')" "sub E p n' (branchm ?ms)" "solid n'"
      using reduce_correct [of "cs[unat i := nn]" E p ?ms j t1] slots j assms by auto
    then show ?thesis
      using 3 step m by (intro del_okI [where d = True and n' = n' and t' = t']) simp_all
  qed
qed

lemma delete_ext:
  assumes "k \<noteq> []" "nibs k" "branching E (p @ k) c" "sub E (p @ k) c m" "tkey r"
    and child: "trie_delete E c (p @ k) r t = Some ((d, n', None), t1)" "sub E (p @ k) n' (m(r := None))" "\<not> d \<Longrightarrow> m r = None" "d \<Longrightarrow> solid n'"
  shows "del_ok E p (ShortNode k c fl) (extm k m) (k @ r) t"
proof (cases d)
  case False
  then have "extm k m (k @ r) = None" "sub E p (ShortNode k c fl) (extm k m)"
    using child assms(1-4) by (auto intro: sub.ext)
  then show ?thesis
    using False assms delete_whole [of r E k c fl p t]
    by (intro del_okI [where d = False and n' = "ShortNode k c fl" and t' = t1]) (simp_all add: fun_upd_idem)
next
  case True
  have r: "r \<noteq> []"
    using assms(5) by auto
  show ?thesis
  proof (cases n')
    case (ShortNode k2 v2 fl2)
    have "sub E p (ShortNode (k @ k2) v2 newFlag) (extm k (m(r := None)))"
      using child(2) assms(2) ShortNode by (auto intro: sub_merge)
    then show ?thesis
      using True r child(1) ShortNode delete_whole [of r E k c fl p t]
      by (intro del_okI [where d = True and n' = "ShortNode (k @ k2) v2 newFlag" and t' = "onDelete (p @ k) t1"])
         (simp_all add: extm_upd)
  next
    case (FullNode cs fl2)
    have "sub E p (ShortNode k n' newFlag) (extm k (m(r := None)))"
      using child(2) assms(1,2) FullNode by (auto intro: sub.ext)
    then show ?thesis
      using True r child(1) FullNode delete_whole [of r E k c fl p t]
      by (intro del_okI [where d = True and n' = "ShortNode k n' newFlag" and t' = t1]) (simp_all add: extm_upd)
  qed (use child(4) True in \<open>auto simp: solid_def\<close>)
qed

lemma delete_correct: "sub E p n m \<Longrightarrow> tkey key \<Longrightarrow> del_ok E p n m key t"
proof (induction arbitrary: key t rule: sub.induct)
  case (nil p key t)
  then show ?case
    by (intro del_okI [where d = False and n' = NilNode and t' = t]) (simp_all add: trie_delete_simps sub.nil)
next
  case (leaf k w p fl key t)
  have "nibs k \<or> tkey k"
    using leaf by simp
  with leaf(3) show ?case
  proof (cases rule: prefixLen_cases)
    case (whole r)
    then have "key = k"
      using leaf tkey_not_nibs by (auto simp: tkey_append split: if_splits)
    then show ?thesis
      using prefixLen_full [of k "[]"]
      by (intro del_okI [where d = True and n' = NilNode and t' = "onDelete p t"]) (simp_all add: trie_delete_simps sub.nil del: fun_upd_apply)
  next
    case (part c x a y b)
    then show ?thesis
      using leaf by (intro delete_other [OF part(1-3)] sub.leaf) auto
  qed
next
  case (ext k p c m fl key t)
  have "nibs k \<or> tkey k"
    using ext by simp
  with ext.prems(1) show ?case
  proof (cases rule: prefixLen_cases)
    case (whole r)
    then have r: "tkey r"
      using ext by (auto simp: tkey_append tkey_not_nibs split: if_splits)
    then have "del_ok E (p @ k) c m r t"
      using ext by blast
    then show ?thesis
      using ext.hyps r whole unfolding del_ok_def by (metis delete_ext del_ok_def)
  next
    case (part d x a y b)
    then show ?thesis
      using ext by (intro delete_other [OF part(1-3)] sub.ext extm_other) auto
  qed
next
  case (full cs p ms fl key t)
  obtain i y where key: "key = i # y"
    using full.prems by (cases key) auto
  note idx = tkey_index [OF full.prems(1) [unfolded key]]
  have slots: "\<forall>i<17. slot E p i (cs ! i) (ms i)"
    using full slots_of_full by auto
  have "\<exists>d nn t'. trie_delete E (cs ! unat i) (p @ [i]) y t = Some ((d, nn, None), t') \<and>
      slot E p (unat i) nn ((ms (unat i))(y := None)) \<and> (\<not> d \<longrightarrow> ms (unat i) y = None)"
  proof (cases "y = []")
    case True
    then have "slot16 (cs ! unat i) (ms (unat i))"
      using full.hyps idx by simp
    then show ?thesis
      using True idx by (auto simp: slot16_def slot_def trie_delete_simps)
  next
    case False
    then have "unat i < 16" "tkey y"
      using full.prems key by (auto simp: nibble_index)
    then have "del_ok E (p @ [i]) (cs ! unat i) (ms (unat i)) y t"
      using full.IH full.prems by (auto dest!: spec [of _ "unat i"])
    then show ?thesis
      using \<open>unat i < 16\<close> by (auto simp: del_ok_def slot_def)
  qed
  then show ?case
    using delete_full [OF full.hyps(1) slots full.hyps(3) idx(1)] key by blast
next
  case (hash p h n m key t)
  obtain t1 where t1: "resolveAndTrack E h p t = Some (Inr n, t1)"
    using hash.hyps(1) resolves_resolveAndTrack by blast
  have "del_ok E p n m key t1"
    using hash by blast
  then obtain d n' t' where got: "trie_delete E n p key t1 = Some ((d, n', None), t')"
    "sub E p n' (m(key := None))" "\<not> d \<longrightarrow> m key = None" "d \<longrightarrow> n' = NilNode \<or> solid n'" "branching E p n \<and> d \<longrightarrow> solid n'"
    by (auto simp: del_ok_def)
  have "sub E p (if d then n' else n) (m(key := None))"
    using got hash.hyps by (auto simp: fun_upd_idem)
  moreover have "branching E p (HashNode h) \<Longrightarrow> d \<Longrightarrow> solid n'"
    using got(5) hash.hyps(1) by auto
  ultimately show ?case
    using got t1 by (intro del_okI [where d = d and n' = "if d then n' else n" and t' = t']) (simp_all add: trie_delete_simps)
qed

section \<open>The form of a subtrie is determined by its entries\<close>

fun strip :: "node \<Rightarrow> node" where
  "strip (FullNode cs fl) = FullNode (map strip cs) newFlag"
| "strip (ShortNode k v fl) = ShortNode k (strip v) newFlag"
| "strip n = n"

definition forks :: "(bytes \<rightharpoonup> bytes) \<Rightarrow> bool" where
  "forks m \<longleftrightarrow> (\<exists>x y a b. x \<noteq> y \<and> m (x # a) \<noteq> None \<and> m (y # b) \<noteq> None)"

lemma sub_nonempty: "sub E p n m \<Longrightarrow> n \<noteq> NilNode \<Longrightarrow> \<exists>k. m k \<noteq> None"
  and slot_nonempty: "slot E p i n m \<Longrightarrow> n \<noteq> NilNode \<Longrightarrow> \<exists>k. m k \<noteq> None"
proof -
  have main: "n \<noteq> NilNode \<longrightarrow> (\<exists>k. m k \<noteq> None)" if "sub E p n m" for p n m
    using that
  proof (induction rule: sub.induct)
    case (ext k p c m fl)
    then obtain r where "m r \<noteq> None"
      by (cases c) auto
    then show ?case
      by (metis extm_app)
  next
    case (full cs p ms fl)
    then obtain i j where ij: "i < 17" "j < 17" "i < j" "cs ! i \<noteq> NilNode"
      by (metis linorder_neqE_nat)
    then have "i < 16"
      by simp
    then obtain r where "ms i r \<noteq> None"
      using full.IH ij(4) by blast
    then have "branchm ms (word_of_nat i # r) \<noteq> None"
      using ij by (simp add: branchm_def unat_of_nat)
    then show ?case
      by blast
  qed auto
  then show "sub E p n m \<Longrightarrow> n \<noteq> NilNode \<Longrightarrow> \<exists>k. m k \<noteq> None"
    by blast
  show "slot E p i n m \<Longrightarrow> n \<noteq> NilNode \<Longrightarrow> \<exists>k. m k \<noteq> None"
    using main by (auto simp: slot_def slot16_def split: if_splits)
qed

lemma full_forks:
  assumes "sub E p (FullNode cs fl) m"
  shows "forks m"
proof -
  obtain ms where m: "m = branchm ms" and f: "\<forall>i<16. sub E (p @ [word_of_nat i]) (cs ! i) (ms i)" "slot16 (cs ! 16) (ms 16)"
    "\<exists>i<17. \<exists>j<17. i \<noteq> j \<and> cs ! i \<noteq> NilNode \<and> cs ! j \<noteq> NilNode"
    using assms by (rule sub_FullE) blast
  obtain i j where ij: "i < 17" "j < 17" "i \<noteq> j" "cs ! i \<noteq> NilNode" "cs ! j \<noteq> NilNode"
    using f(3) by blast
  then obtain a b where ab: "ms i a \<noteq> None" "ms j b \<noteq> None"
    using slots_of_full [OF f(1,2)] slot_nonempty by metis
  have "branchm ms (word_of_nat i # a) \<noteq> None" "branchm ms (word_of_nat j # b) \<noteq> None"
    using ij ab by (simp_all add: branchm_def unat_of_nat)
  moreover have "(word_of_nat i :: byte) \<noteq> word_of_nat j"
    using ij by (simp add: word_unat_eq_iff unat_of_nat)
  ultimately show ?thesis
    using m by (auto simp: forks_def)
qed

lemma branching_forks:
  assumes "branching E p c" "sub E p c m"
  shows "forks m"
proof (cases c)
  case (HashNode h)
  then obtain cs fl where "resolves E p h (FullNode cs fl)"
    using assms(1) by (auto simp: branching_def)
  moreover obtain n where "resolves E p h n" "sub E p n m"
    using assms(2) HashNode by (auto elim: sub_HashE)
  ultimately show ?thesis
    using resolves_unique full_forks by metis
qed (use assms full_forks in auto)

lemma extm_starts: "k \<noteq> [] \<Longrightarrow> extm k m (x # a) \<noteq> None \<Longrightarrow> x = hd k"
  by (cases k) (auto simp: extm_def split: if_splits)

lemma ext_not_forks: "k \<noteq> [] \<Longrightarrow> \<not> forks (extm k m)"
  unfolding forks_def using extm_starts by metis

lemma extm_Cons_Cons: "extm (x # k) m (x # z) = extm k m z"
  by (simp add: extm_def)

lemma extm_forks_cases:
  assumes "extm k m = extm k' m'" "forks m" "forks m'"
  shows "k = k' \<and> m = m'"
  using assms
proof (induction k arbitrary: k')
  case Nil
  then show ?case
    using ext_not_forks [of k' m'] by (cases "k' = []") auto
next
  case (Cons x k)
  show ?case
  proof (cases k')
    case Nil
    then show ?thesis
      using Cons.prems ext_not_forks [of "x # k" m] by auto
  next
    case (Cons y l)
    obtain r where r: "m r \<noteq> None"
      using Cons.prems(2) by (auto simp: forks_def)
    then have "extm k' m' (x # k @ r) \<noteq> None"
      using Cons.prems(1) extm_app [of "x # k" m r] by simp
    then have "x = y"
      using extm_starts [of k' m' x] local.Cons by simp
    have "extm k m z = extm l m' z" for z
      using Cons.prems(1) \<open>x = y\<close> local.Cons by (metis extm_Cons_Cons)
    then show ?thesis
      using Cons.IH [of l] Cons.prems \<open>x = y\<close> local.Cons by auto
  qed
qed

lemma single_not_forks: "\<not> forks [k \<mapsto> v]"
  by (auto simp: forks_def split: if_splits)

lemma extm_not_single: "forks m \<Longrightarrow> extm k m \<noteq> [k' \<mapsto> v]"
proof
  assume f: "forks m" and e: "extm k m = [k' \<mapsto> v]"
  obtain x y a b where xy: "x \<noteq> y" "m (x # a) \<noteq> None" "m (y # b) \<noteq> None"
    using f unfolding forks_def by blast
  then have "k @ x # a = k'" "k @ y # b = k'"
    using e extm_app [of k m] by (metis fun_upd_apply)+
  then show False
    using xy(1) by auto
qed

lemma sub_values: "sub E p n m \<Longrightarrow> m x = Some v \<Longrightarrow> v \<noteq> []"
proof (induction arbitrary: x rule: sub.induct)
  case (ext k p c m fl x)
  then show ?case
    by (auto simp: extm_def split: if_splits)
next
  case (full cs p ms fl x)
  then obtain i y where x: "x = i # y" "unat i < 17" "ms (unat i) y = Some v"
    by (auto simp: branchm_def split: list.splits if_splits)
  show ?case
  proof (cases "unat i = 16")
    case True
    then show ?thesis
      using x full.hyps(2) by (auto simp: slot16_def split: if_splits)
  next
    case False
    then have "unat i < 16"
      using x(2) by simp
    then show ?thesis
      using x(3) full.IH by blast
  qed
qed (auto split: if_splits)

lemma slot16_unique: "slot16 c m \<Longrightarrow> slot16 c' m \<Longrightarrow> c = c'"
  by (auto simp: slot16_def fun_eq_iff split: if_splits)

lemma branchm_inj: "branchm ms = branchm ms' \<Longrightarrow> i < 17 \<Longrightarrow> ms i = ms' i"
proof
  fix y assume "branchm ms = branchm ms'" "i < 17"
  then have "branchm ms (word_of_nat i # y) = branchm ms' (word_of_nat i # y)"
    by simp
  then show "ms i y = ms' i y"
    using \<open>i < 17\<close> by (simp add: branchm_def unat_of_nat)
qed

definition no_reader :: "TrieEnv \<Rightarrow> bool" where
  "no_reader E \<longleftrightarrow> rd_reader (te_reader E) = None"

lemma no_reader_resolves: "no_reader E \<Longrightarrow> \<not> resolves E p h n"
  by (auto simp: no_reader_def resolves_def reader_node_def Let_def split: if_splits)

lemma sub_forms:
  assumes "sub E p n m" "no_reader E"
  obtains "n = NilNode" "m = Map.empty"
  | k v fl where "n = ShortNode k (ValueNode v) fl" "m = [k \<mapsto> v]"
  | k c fl m' where "n = ShortNode k c fl" "m = extm k m'" "k \<noteq> []" "sub E (p @ k) c m'" "forks m'"
  | cs fl ms where "n = FullNode cs fl" "m = branchm ms" "length cs = 17" "\<forall>i<16. sub E (p @ [word_of_nat i]) (cs ! i) (ms i)"
      "slot16 (cs ! 16) (ms 16)" "forks m"
  using assms(1)
proof (cases rule: sub.cases)
  case (ext k c m' fl)
  then show thesis
    using that(3) branching_forks by metis
next
  case (full cs ms fl)
  then show thesis
    using that(4) full_forks assms(1) by metis
next
  case (hash h n)
  then show thesis
    using assms(2) no_reader_resolves by blast
qed (use that in blast)+

lemma forks_not_empty: "forks m \<Longrightarrow> m \<noteq> Map.empty" "forks m \<Longrightarrow> extm k m \<noteq> Map.empty"
proof -
  show "forks m \<Longrightarrow> m \<noteq> Map.empty"
    by (auto simp: forks_def)
  show "forks m \<Longrightarrow> extm k m \<noteq> Map.empty"
    unfolding forks_def by (metis extm_app)
qed

lemma sub_unique:
  assumes "no_reader E"
  shows "sub E p n m \<Longrightarrow> sub E p n' m \<Longrightarrow> strip n = strip n'"
proof (induction arbitrary: n' rule: sub.induct)
  case (nil p n')
  from nil assms show ?case
  proof (cases rule: sub_forms)
    case (2 k v fl)
    then show ?thesis
      by (metis map_upd_nonempty)
  next
    case (3 k c fl m')
    then show ?thesis
      using forks_not_empty(2) by metis
  next
    case (4 cs fl ms)
    then show ?thesis
      using forks_not_empty(1) by metis
  qed simp
next
  case (leaf k v p fl n')
  from leaf(3) assms show ?case
  proof (cases rule: sub_forms)
    case (2 k' v' fl')
    then have "[k \<mapsto> v] k' = Some v'"
      by (metis fun_upd_same)
    then have "k' = k" "v' = v"
      by (simp_all split: if_splits)
    then show ?thesis
      using 2(1) by simp
  qed (use extm_not_single single_not_forks in \<open>metis fun_upd_same option.distinct(1)\<close>)+
next
  case (ext k p c m fl n')
  have f: "forks m"
    using ext.hyps by (intro branching_forks)
  from ext.prems assms show ?case
  proof (cases rule: sub_forms)
    case (3 k' c' fl' m')
    then have "k = k'" "m = m'"
      using extm_forks_cases f by metis+
    then show ?thesis
      using 3 ext.IH [of c'] by simp
  qed (use f forks_not_empty extm_not_single ext_not_forks ext.hyps(1) in metis)+
next
  case (full cs p ms fl n')
  have f: "forks (branchm ms)"
    using full sub.full [of cs E p ms fl] full_forks by blast
  from full.prems assms show ?case
  proof (cases rule: sub_forms)
    case (4 cs' fl' ms')
    have "strip (cs ! i) = strip (cs' ! i)" if "i < 17" for i
    proof (cases "i = 16")
      case True
      then show ?thesis
        using full.hyps 4 branchm_inj [OF 4(2), of 16] slot16_unique [of "cs ! 16" "ms 16" "cs' ! 16"] by simp
    next
      case False
      then have "i < 16"
        using that by simp
      then show ?thesis
        using full.IH 4(4) branchm_inj [OF 4(2), of i] by simp
    qed
    then have "map strip cs = map strip cs'"
      using full.hyps(1) 4(3) by (intro nth_equalityI) auto
    then show ?thesis
      using 4(1) by simp
  qed (use f forks_not_empty single_not_forks ext_not_forks in metis)+
next
  case (hash p h n m n')
  then show ?case
    using assms no_reader_resolves by blast
qed

section \<open>A key-value store\<close>

text \<open>The contract a trie offers its clients, over an abstract map in which a missing key has the empty
  value: a lookup returns the value and a write changes one key, and both keep the representation.\<close>

fun writes :: "('k \<times> 'v) list \<Rightarrow> ('k \<Rightarrow> 'v) \<Rightarrow> ('k \<Rightarrow> 'v)" where
  "writes [] m = m"
| "writes ((k, v) # ops) m = writes ops (m(k := v))"

locale kv_store =
  fixes lookup :: "'k \<Rightarrow> 's \<Rightarrow> ('v \<times> 's) option"
    and put :: "'k \<Rightarrow> 'v \<Rightarrow> 's \<Rightarrow> 's option"
    and holds :: "'s \<Rightarrow> ('k \<Rightarrow> 'v) \<Rightarrow> bool"
  assumes lookup_ok: "holds s m \<Longrightarrow> \<exists>s'. lookup k s = Some (m k, s') \<and> holds s' m"
    and put_ok: "holds s m \<Longrightarrow> \<exists>s'. put k v s = Some s' \<and> holds s' (m(k := v))"
begin

fun puts :: "('k \<times> 'v) list \<Rightarrow> 's \<Rightarrow> 's option" where
  "puts [] s = Some s"
| "puts ((k, v) # ops) s = Option.bind (put k v s) (puts ops)"

lemma puts_ok: "holds s m \<Longrightarrow> \<exists>s'. puts ops s = Some s' \<and> holds s' (writes ops m)"
proof (induction ops arbitrary: s m)
  case (Cons op ops)
  obtain k v where op: "op = (k, v)"
    by (cases op)
  obtain s' where "put k v s = Some s'" "holds s' (m(k := v))"
    using put_ok [OF Cons.prems] by blast
  then show ?case
    using Cons.IH [of s' "m(k := v)"] op by (simp del: fun_upd_apply)
qed simp

lemma puts_lookup:
  assumes "holds s m"
  shows "\<exists>s1 s2. puts ops s = Some s1 \<and> lookup k s1 = Some (writes ops m k, s2)"
  using puts_ok [OF assms] lookup_ok by metis

end

definition trie_lookup :: "bytes \<Rightarrow> Trie \<Rightarrow> (bytes \<times> Trie) option" where
  "trie_lookup k t = do { (r, t1) \<leftarrow> Trie_Get k t; case r of Inl e \<Rightarrow> None | Inr v \<Rightarrow> Some (v, t1) }"

definition trie_put :: "bytes \<Rightarrow> bytes \<Rightarrow> Trie \<Rightarrow> Trie option" where
  "trie_put k v t = do { (err, t1) \<leftarrow> Trie_Update k v t; if err = None then Some t1 else None }"

definition trie_holds :: "Trie \<Rightarrow> (bytes \<Rightarrow> bytes) \<Rightarrow> bool" where
  "trie_holds t m \<longleftrightarrow> \<not> t_committed t \<and>
     (\<exists>M. sub (t_env t) [] (t_root t) M \<and> (\<forall>k. value_or_nil (M (keybytesToHex k)) = m k) \<and> dom M \<subseteq> range keybytesToHex)"

lemma trie_get_holds:
  assumes "trie_holds t m"
  shows "\<exists>t'. Trie_Get k t = Some (Inr (m k), t') \<and> trie_holds t' m \<and> t_env t' = t_env t"
proof -
  obtain M where M: "sub (t_env t) [] (t_root t) M" "\<forall>k. value_or_nil (M (keybytesToHex k)) = m k" "dom M \<subseteq> range keybytesToHex"
    and c: "\<not> t_committed t"
    using assms by (auto simp: trie_holds_def)
  obtain nn res tr where "trie_get (t_env t) (t_root t) (keybytesToHex k) 0 (t_tracer t) = Some ((m k, nn, res, None), tr)"
    "if res then sub (t_env t) [] nn M else nn = t_root t"
    using get_correct [OF M(1) tkey_keybytesToHex, of k "t_tracer t"] M(2) by (auto simp: get_ok_def split: if_splits)
  then show ?thesis
    using M c by (cases res) (auto simp: Trie_Get_def trie_holds_def Let_def)
qed

lemma trie_update_holds:
  assumes "trie_holds t m"
  shows "\<exists>t'. Trie_Update k v t = Some (None, t') \<and> trie_holds t' (m(k := v)) \<and> t_env t' = t_env t"
proof -
  obtain M where M: "sub (t_env t) [] (t_root t) M" "\<forall>k. value_or_nil (M (keybytesToHex k)) = m k" "dom M \<subseteq> range keybytesToHex"
    and c: "\<not> t_committed t"
    using assms by (auto simp: trie_holds_def)
  let ?M = "M(keybytesToHex k := if v = [] then None else Some v)"
  have "\<exists>d n tr. (if length v \<noteq> 0 then trie_insert (t_env t) (t_root t) [] (keybytesToHex k) (ValueNode v) (t_tracer t)
         else trie_delete (t_env t) (t_root t) [] (keybytesToHex k) (t_tracer t)) = Some ((d, n, None), tr) \<and> sub (t_env t) [] n ?M"
    using insert_correct [OF M(1) tkey_keybytesToHex, of v k "t_tracer t"] delete_correct [OF M(1) tkey_keybytesToHex, of k "t_tracer t"]
    by (auto simp: ins_ok_def del_ok_def)
  then obtain d n tr where upd: "(if length v \<noteq> 0 then trie_insert (t_env t) (t_root t) [] (keybytesToHex k) (ValueNode v) (t_tracer t)
         else trie_delete (t_env t) (t_root t) [] (keybytesToHex k) (t_tracer t)) = Some ((d, n, None), tr)" and n: "sub (t_env t) [] n ?M"
    by blast
  let ?t = "t\<lparr> t_unhashed := t_unhashed t + 1, t_tracer := tr, t_root := n \<rparr>"
  have "\<forall>j. value_or_nil (?M (keybytesToHex j)) = (m(k := v)) j" "dom ?M \<subseteq> range keybytesToHex"
    using M by (auto simp: value_or_nil_def)
  then have "trie_holds ?t (m(k := v))"
    using n c unfolding trie_holds_def by (intro conjI exI [of _ ?M]) simp_all
  moreover have "Trie_Update k v t = Some (None, ?t)"
    using upd c by (cases "length v \<noteq> 0") (simp_all add: Trie_Update_def Trie_update_def)
  ultimately show ?thesis
    by simp
qed

lemma trie_delete_is_update: "Trie_Delete k t = Trie_Update k [] t"
  by (simp add: Trie_Delete_def Trie_Update_def Trie_update_def Let_def)

interpretation mpt: kv_store trie_lookup trie_put trie_holds
proof
  show "trie_holds s m \<Longrightarrow> \<exists>s'. trie_lookup k s = Some (m k, s') \<and> trie_holds s' m" for s m k
    using trie_get_holds [of s m k] by (auto simp: trie_lookup_def)
  show "trie_holds s m \<Longrightarrow> \<exists>s'. trie_put k v s = Some s' \<and> trie_holds s' (m(k := v))" for s m k v
    using trie_update_holds [of s m k v] by (auto simp: trie_put_def)
qed

end
