(* ===== verification/Hasher.thy ===== *)
theory Hasher
  imports MptMap
begin

text \<open>
  Hashing and committing a trie (\<open>vm/trie/hasher.go\<close>, \<open>commiter.go\<close> and \<open>Hash\<close>, \<open>Commit\<close> of \<open>trie.go\<close>), the
  key-hashing state trie (\<open>secure_trie.go\<close>), and the two properties clients rely on: a trie is a map, and
  its root hash depends on the entries only, not on the order or the number of the writes. Keccak-256 is
  the parameter \<open>K\<close>. The goroutines of the parallel hasher write to distinct array cells and are joined
  before the result is used, so the sequential loop computes the same.
\<close>

section \<open>Hashing\<close>

definition to_hash :: "(bytes \<Rightarrow> bytes) \<Rightarrow> Rlp \<Rightarrow> bool \<Rightarrow> node \<Rightarrow> node" where
  "to_hash K R force n =
     (let enc = node_encode R n in if length enc < 32 \<and> \<not> force then n else HashNode (K enc))"

definition hash_of :: "node \<Rightarrow> bytes option" where
  "hash_of n = (case n of HashNode h \<Rightarrow> Some h | _ \<Rightarrow> None)"

fun all_some :: "'a option list \<Rightarrow> 'a list option" where
  "all_some [] = Some []"
| "all_some (x # xs) = do { y \<leftarrow> x; ys \<leftarrow> all_some xs; Some (y # ys) }"

lemma size_child: "c \<in> set cs \<Longrightarrow> size c < Suc (size_list size cs)"
  by (simp add: less_Suc_eq_le size_list_estimation')

function hasher_hash :: "(bytes \<Rightarrow> bytes) \<Rightarrow> Rlp \<Rightarrow> bool \<Rightarrow> node \<Rightarrow> (node \<times> node) panics" where
  "hasher_hash K R force NilNode = panic"
| "hasher_hash K R force (ValueNode v) = Some (ValueNode v, ValueNode v)"
| "hasher_hash K R force (HashNode h) = Some (HashNode h, HashNode h)"
| "hasher_hash K R force (ShortNode k v fl) = (case fl_hash fl of
       Some h \<Rightarrow> Some (HashNode h, ShortNode k v fl)
     | None \<Rightarrow> do {
         ck \<leftarrow> hexToCompact k;
         (cv, dv) \<leftarrow> (case v of
             FullNode cs f \<Rightarrow> hasher_hash K R False v
           | ShortNode k2 v2 f \<Rightarrow> hasher_hash K R False v
           | _ \<Rightarrow> Some (v, v));
         let hashed = to_hash K R force (ShortNode ck cv fl);
         Some (hashed, ShortNode k dv (fl\<lparr> fl_hash := hash_of hashed \<rparr>)) })"
| "hasher_hash K R force (FullNode cs fl) = (case fl_hash fl of
       Some h \<Rightarrow> Some (HashNode h, FullNode cs fl)
     | None \<Rightarrow> do {
         rs \<leftarrow> all_some (map (\<lambda>c. if c = NilNode then Some (ValueNode [], NilNode) else hasher_hash K R False c) (take 16 cs));
         let hashed = to_hash K R force (FullNode (map fst rs @ drop 16 cs) fl);
         Some (hashed, FullNode (map snd rs @ drop 16 cs) (fl\<lparr> fl_hash := hash_of hashed \<rparr>)) })"
  by pat_completeness auto

termination
  by (relation "measure (\<lambda>(K, R, force, n). size n)") (auto dest: in_set_takeD intro!: size_child)

definition Trie_Hash :: "(bytes \<Rightarrow> bytes) \<Rightarrow> common_Hash \<Rightarrow> Trie \<Rightarrow> (common_Hash \<times> Trie) panics" where
  "Trie_Hash K emptyRoot t =
     (if t_root t = NilNode then Some (emptyRoot, t)
      else do {
        (hashed, cached) \<leftarrow> hasher_hash K (te_rlp (t_env t)) True (t_root t);
        h \<leftarrow> hash_of hashed;
        Some (BytesToHash h, t\<lparr> t_root := cached, t_unhashed := 0 \<rparr>) })"

section \<open>Committing\<close>

definition committer_store ::
  "Rlp \<Rightarrow> tracer \<Rightarrow> bool \<Rightarrow> bytes \<Rightarrow> node \<Rightarrow> NodeSet \<Rightarrow> (node \<times> NodeSet) panics" where
  "committer_store R tr collectLeaf path n ns = do {
     (h, dirty) \<leftarrow> node_cache n;
     Some (case h of
         None \<Rightarrow> (n, if tr_accessList tr path \<noteq> None then AddNode path NewDeleted ns else ns)
       | Some hash \<Rightarrow>
           (let nhash = BytesToHash hash;
                ns1 = AddNode path \<lparr> tn_Hash = nhash, tn_Blob = node_encode R n \<rparr> ns in
            (HashNode hash,
             case n of
               ShortNode k (ValueNode val) fl \<Rightarrow> if collectLeaf then AddLeaf nhash val ns1 else ns1
             | _ \<Rightarrow> ns1))) }"

text \<open>The recursive call of \<open>commit\<close> is the argument \<open>com\<close> of the loop over the children.\<close>

fun commitChildren ::
  "(bytes \<Rightarrow> node \<Rightarrow> NodeSet \<Rightarrow> (node \<times> NodeSet) panics) \<Rightarrow> bytes \<Rightarrow> nat \<Rightarrow> node list \<Rightarrow> NodeSet \<Rightarrow> (node list \<times> NodeSet) panics" where
  "commitChildren com path i [] ns = Some ([], ns)"
| "commitChildren com path i (c # cs) ns = do {
     (c1, ns1) \<leftarrow> (case c of
         NilNode \<Rightarrow> Some (NilNode, ns)
       | HashNode h \<Rightarrow> Some (HashNode h, ns)
       | _ \<Rightarrow> if i < 16 then com (path @ [word_of_nat i]) c ns else Some (c, ns));
     (cs1, ns2) \<leftarrow> commitChildren com path (Suc i) cs ns1;
     Some (c1 # cs1, ns2) }"

lemma commitChildren_cong [fundef_cong]:
  assumes "path = path'" "i = i'" "cs = cs'" "ns = ns'" "\<And>p c n. c \<in> set cs' \<Longrightarrow> com p c n = com' p c n"
  shows "commitChildren com path i cs ns = commitChildren com' path' i' cs' ns'"
proof -
  have "commitChildren com path i cs ns = commitChildren com' path i cs ns"
    if "\<And>p c n. c \<in> set cs \<Longrightarrow> com p c n = com' p c n" for cs
    using that
  proof (induction cs arbitrary: i ns)
    case (Cons c cs)
    then have "com p c n = com' p c n" "commitChildren com path j cs n = commitChildren com' path j cs n" for p n j
      by auto
    then show ?case
      by (cases c) simp_all
  qed simp
  then show ?thesis
    using assms by simp
qed

function committer_commit :: "Rlp \<Rightarrow> tracer \<Rightarrow> bool \<Rightarrow> bytes \<Rightarrow> node \<Rightarrow> NodeSet \<Rightarrow> (node \<times> NodeSet) panics" where
  "committer_commit R tr collectLeaf path NilNode ns = panic"
| "committer_commit R tr collectLeaf path (ValueNode v) ns = panic"
| "committer_commit R tr collectLeaf path (HashNode h) ns = Some (HashNode h, ns)"
| "committer_commit R tr collectLeaf path (ShortNode k v fl) ns = (case (fl_hash fl, fl_dirty fl) of
       (Some h, False) \<Rightarrow> Some (HashNode h, ns)
     | _ \<Rightarrow> do {
         (v1, ns1) \<leftarrow> (case v of FullNode cs f \<Rightarrow> committer_commit R tr collectLeaf (path @ k) v ns | _ \<Rightarrow> Some (v, ns));
         ck \<leftarrow> hexToCompact k;
         committer_store R tr collectLeaf path (ShortNode ck v1 fl) ns1 })"
| "committer_commit R tr collectLeaf path (FullNode cs fl) ns = (case (fl_hash fl, fl_dirty fl) of
       (Some h, False) \<Rightarrow> Some (HashNode h, ns)
     | _ \<Rightarrow> do {
         (cs1, ns1) \<leftarrow> commitChildren (committer_commit R tr collectLeaf) path 0 cs ns;
         committer_store R tr collectLeaf path (FullNode cs1 fl) ns1 })"
  by pat_completeness auto

termination
  by (relation "measure (\<lambda>(R, tr, cl, path, n, ns). size n)")
     (auto dest!: size_child)

definition mark_deleted :: "bytes list \<Rightarrow> NodeSet \<Rightarrow> NodeSet" where
  "mark_deleted paths ns = fold (\<lambda>p. AddNode p NewDeleted) paths ns"

text \<open>\<open>Commit\<close>: the returned node set is \<open>None\<close> for a nil set; \<open>ks\<close> is the order in which the deletions are
  visited.\<close>

definition Trie_Commit ::
  "(bytes \<Rightarrow> bytes) \<Rightarrow> common_Hash \<Rightarrow> bytes list \<Rightarrow> bool \<Rightarrow> Trie \<Rightarrow> (common_Hash \<times> NodeSet option \<times> Trie) panics" where
  "Trie_Commit K emptyRoot ks collectLeaf t =
     (if t_root t = NilNode then
        (let paths = deletedNodes ks (t_tracer t) in
         Some (emptyRoot, if length paths = 0 then None else Some (mark_deleted paths (NewNodeSet (t_owner t))), t\<lparr> t_committed := True \<rparr>))
      else do {
        (rootHash, t1) \<leftarrow> Trie_Hash K emptyRoot t;
        (hashedNode, dirty) \<leftarrow> node_cache (t_root t1);
        if \<not> dirty then
          Some (rootHash, None, t1\<lparr> t_root := (case hashedNode of Some h \<Rightarrow> HashNode h | None \<Rightarrow> HashNode []), t_committed := True \<rparr>)
        else do {
          (n, ns) \<leftarrow> committer_commit (te_rlp (t_env t1)) (t_tracer t1) collectLeaf [] (t_root t1)
                       (mark_deleted (deletedNodes ks (t_tracer t1)) (NewNodeSet (t_owner t1)));
          h \<leftarrow> hash_of n;
          Some (rootHash, Some ns, t1\<lparr> t_root := HashNode h, t_committed := True \<rparr>) } })"

section \<open>Caches\<close>

text \<open>A node without cached hashes and without unresolved parts, as insertion and deletion build them.\<close>

fun uncached :: "node \<Rightarrow> bool" where
  "uncached NilNode \<longleftrightarrow> True"
| "uncached (ValueNode v) \<longleftrightarrow> True"
| "uncached (HashNode h) \<longleftrightarrow> False"
| "uncached (ShortNode k v fl) \<longleftrightarrow> fl = newFlag \<and> uncached v"
| "uncached (FullNode cs fl) \<longleftrightarrow> fl = newFlag \<and> list_all uncached cs"

lemma uncached_strip: "uncached n \<Longrightarrow> strip n = n"
  by (induction n rule: uncached.induct) (auto simp: list_all_iff intro: map_idI)

lemma uncached_child: "list_all uncached cs \<Longrightarrow> i < length cs \<Longrightarrow> uncached (cs ! i)"
  by (simp add: list_all_length)

lemma uncached_update: "list_all uncached cs \<Longrightarrow> uncached c \<Longrightarrow> list_all uncached (cs[i := c])"
  by (auto simp: list_all_iff dest: set_update_subset_insert [THEN subsetD])

lemma insert_uncached:
  "trie_insert E n p key val t = Some ((d, n', err), t') \<Longrightarrow> uncached n \<Longrightarrow> uncached val \<Longrightarrow> uncached n'"
proof -
  have "uncached n \<longrightarrow> uncached val \<longrightarrow> uncached (fst (snd (fst r)))" if "trie_insert E n p key val t = Some r" for r
  proof (rule trie_insert.raw_induct
      [where P = "\<lambda>E n p key val t r. uncached n \<longrightarrow> uncached val \<longrightarrow> uncached (fst (snd (fst r)))", OF _ that], goal_cases)
    case (1 f E n p key val t r)
    have IH: "uncached n' \<Longrightarrow> uncached val' \<Longrightarrow> uncached nn" if "f E n' p' key' val' t0 = Some ((d, nn, err), t')"
      for n' p' key' val' t0 d nn err t'
      using 1(1) [OF that] by simp
    show ?case
    proof (intro impI)
      assume u: "uncached n" "uncached val"
      show "uncached (fst (snd (fst r)))"
      proof (cases "key = []")
        case True
        then show ?thesis
          using 1(2) u by (auto split: node.splits)
      next
        case False
        show ?thesis
        proof (cases n)
          case (FullNode cs fl)
          then show ?thesis
            using 1(2) False u
            by (auto simp: bind_eq_Some_iff Let_def uncached_child split: if_splits dest!: IH intro!: uncached_update)
        next
          case (ShortNode k v fl)
          show ?thesis
          proof (cases "prefixLen key k = length k")
            case True
            then show ?thesis
              using 1(2) False ShortNode u by (auto simp: bind_eq_Some_iff Let_def split: if_splits dest!: IH)
          next
            case other: False
            show ?thesis
              using 1(2) other False ShortNode u
              by (auto simp: bind_eq_Some_iff Let_def list_all_iff split: if_splits dest!: IH set_update_subset_insert [THEN subsetD])
          qed
        qed (use 1(2) u False in auto)
      qed
    qed
  qed
  then show "trie_insert E n p key val t = Some ((d, n', err), t') \<Longrightarrow> uncached n \<Longrightarrow> uncached val \<Longrightarrow> uncached n'"
    by force
qed

lemma only_child_range: "only_child i pos cs = pos \<or> only_child i pos cs = -2 \<or> only_child i pos cs < int (i + length cs)"
  by (induction i pos cs rule: only_child.induct) auto

lemma reduce_uncached:
  assumes "reduce_full E p cs t = Some ((d, n', err), t')" "list_all uncached cs"
  shows "uncached n'"
proof (cases "0 \<le> only_child 0 (-1) cs")
  case True
  let ?j = "nat (only_child 0 (-1) cs)"
  have "uncached (cs ! ?j)"
    using True only_child_range [of 0 "-1" cs] assms(2) by (intro uncached_child) auto
  then show ?thesis
    using True assms(1)
    by (cases "cs ! ?j") (auto simp: reduce_full_def Let_def resolve_def split: if_splits)
next
  case False
  then show ?thesis
    using assms by (auto simp: reduce_full_def)
qed

lemma delete_uncached:
  "trie_delete E n p key t = Some ((d, n', err), t') \<Longrightarrow> uncached n \<Longrightarrow> uncached n'"
proof -
  have "uncached n \<longrightarrow> uncached (fst (snd (fst r)))" if "trie_delete E n p key t = Some r" for r
  proof (rule trie_delete.raw_induct [where P = "\<lambda>E n p key t r. uncached n \<longrightarrow> uncached (fst (snd (fst r)))", OF _ that], goal_cases)
    case (1 f E n p key t r)
    have IH: "uncached n' \<Longrightarrow> uncached nn" if "f E n' p' key' t0 = Some ((d, nn, err), t')" for n' p' key' t0 d nn err t'
      using 1(1) [OF that] by simp
    show ?case
    proof (intro impI)
      assume u: "uncached n"
      show "uncached (fst (snd (fst r)))"
      proof (cases n)
        case (FullNode cs fl)
        then show ?thesis
          using 1(2) u
          by (cases r) (auto simp: bind_eq_Some_iff Let_def uncached_child split: if_splits dest!: IH reduce_uncached intro!: uncached_update)
      next
        case (ShortNode k v fl)
        then show ?thesis
          using 1(2) u by (auto simp: bind_eq_Some_iff Let_def split: if_splits node.splits dest!: IH)
      qed (use 1(2) u in auto)
    qed
  qed
  then show "trie_delete E n p key t = Some ((d, n', err), t') \<Longrightarrow> uncached n \<Longrightarrow> uncached n'"
    by force
qed

section \<open>Hashing keeps the entries\<close>

lemma strip_simps [simp]:
  "strip n = NilNode \<longleftrightarrow> n = NilNode" "strip n = ValueNode v \<longleftrightarrow> n = ValueNode v" "strip n = HashNode h \<longleftrightarrow> n = HashNode h"
  "strip n = ShortNode k c fl \<longleftrightarrow> (\<exists>d f. n = ShortNode k d f \<and> strip d = c \<and> fl = newFlag)"
  "strip n = FullNode cs fl \<longleftrightarrow> (\<exists>ds f. n = FullNode ds f \<and> map strip ds = cs \<and> fl = newFlag)"
  by (cases n; auto)+

lemma strip_branching: "strip c = strip c' \<Longrightarrow> branching E p c \<Longrightarrow> branching E p c'"
  by (cases c; cases c') (simp_all add: branching_def)

lemma sub_strip: "sub E p n m \<Longrightarrow> strip n = strip n' \<Longrightarrow> sub E p n' m"
proof (induction arbitrary: n' rule: sub.induct)
  case (nil p n')
  then have "n' = NilNode"
    by (metis strip.simps(3) strip_simps(1))
  then show ?case
    by (simp add: sub.nil)
next
  case (leaf k v p fl n')
  then have "strip n' = ShortNode k (ValueNode v) newFlag"
    by simp
  then obtain f where "n' = ShortNode k (ValueNode v) f"
    by auto
  then show ?case
    using leaf sub.leaf [of k v E p f] by (simp del: fun_upd_apply)
next
  case (ext k p c m fl n')
  then have "strip n' = ShortNode k (strip c) newFlag"
    by simp
  then obtain c' f where "n' = ShortNode k c' f" "strip c' = strip c"
    by auto
  then show ?case
    using ext strip_branching [of c c'] by (auto intro!: sub.ext)
next
  case (full cs p ms fl n')
  then have "strip n' = FullNode (map strip cs) newFlag"
    by simp
  then obtain ds f where n': "n' = FullNode ds f" and ds: "map strip ds = map strip cs"
    by auto
  have len: "length ds = 17"
    using ds full.hyps(1) by (metis length_map)
  have eq: "strip (ds ! i) = strip (cs ! i)" if "i < 17" for i
    using ds len full.hyps(1) that by (metis nth_map)
  have nil: "ds ! i = NilNode \<longleftrightarrow> cs ! i = NilNode" if "i < 17" for i
    using eq [OF that] by (metis strip_simps(1))
  have "slot16 (ds ! 16) (ms 16)"
    using full.hyps(2) eq [of 16] by (auto simp: slot16_def)
  moreover have "\<forall>i<16. sub E (p @ [word_of_nat i]) (ds ! i) (ms i)"
    using full.IH eq by auto
  moreover have "\<exists>i<17. \<exists>j<17. i \<noteq> j \<and> ds ! i \<noteq> NilNode \<and> ds ! j \<noteq> NilNode"
    using full.hyps(3) nil by blast
  ultimately show ?case
    unfolding n' using len by (intro sub.full)
next
  case (hash p h n m n')
  then have "n' = HashNode h"
    by (metis strip.simps(4) strip_simps(3))
  then show ?case
    using hash by (auto intro: sub.hash)
qed

lemma all_some_map:
  "all_some (map f xs) = Some ys \<Longrightarrow> (\<And>x y. x \<in> set xs \<Longrightarrow> f x = Some y \<Longrightarrow> g y = h x) \<Longrightarrow> map g ys = map h xs"
  by (induction xs arbitrary: ys) (auto simp: bind_eq_Some_iff)

lemma hash_strip: "hasher_hash K R force n = Some (h, c) \<Longrightarrow> strip c = strip n"
proof (induction K R force n arbitrary: h c rule: hasher_hash.induct)
  case (4 K R force k v fl)
  show ?case
  proof (cases "fl_hash fl")
    case None
    obtain ck cv dv f where ck: "hexToCompact k = Some ck" and v: "(case v of FullNode cs f \<Rightarrow> hasher_hash K R False v
        | ShortNode k2 v2 f \<Rightarrow> hasher_hash K R False v | _ \<Rightarrow> Some (v, v)) = Some (cv, dv)" and c: "c = ShortNode k dv f"
      using "4.prems" None by (auto simp: bind_eq_Some_iff Let_def simp del: hasher_hash.simps(5))
    have "strip dv = strip v"
      using v "4.IH" [OF None ck] by (cases v) (auto simp del: hasher_hash.simps)
    then show ?thesis
      using c by simp
  qed (use "4.prems" in auto)
next
  case (5 K R force cs fl)
  show ?case
  proof (cases "fl_hash fl")
    case None
    then obtain rs where rs: "all_some (map (\<lambda>c. if c = NilNode then Some (ValueNode [], NilNode) else hasher_hash K R False c) (take 16 cs)) = Some rs"
      "c = FullNode (map snd rs @ drop 16 cs) (fl\<lparr> fl_hash := hash_of h \<rparr>)"
      using "5.prems" by (auto simp: bind_eq_Some_iff Let_def)
    have "map (\<lambda>y. strip (snd y)) rs = map strip (take 16 cs)"
      using rs(1) by (rule all_some_map) (use "5.IH" [OF None] in \<open>auto split: if_splits\<close>)
    then have "map strip (map snd rs @ drop 16 cs) = map strip (take 16 cs) @ map strip (drop 16 cs)"
      by (simp add: comp_def)
    also have "\<dots> = map strip cs"
      by (metis append_take_drop_id map_append)
    finally show ?thesis
      using rs(2) by simp
  qed (use "5.prems" in auto)
qed auto

lemma Trie_Hash_holds:
  assumes "trie_holds t m" "Trie_Hash K er t = Some (h, t')"
  shows "trie_holds t' m"
proof -
  have "strip (t_root t') = strip (t_root t)" "t_env t' = t_env t" "t_committed t' = t_committed t"
    using assms(2) by (auto simp: Trie_Hash_def bind_eq_Some_iff dest: hash_strip split: if_splits)
  moreover obtain M where "sub (t_env t) [] (t_root t) M" "\<forall>k. value_or_nil (M (keybytesToHex k)) = m k" "dom M \<subseteq> range keybytesToHex" "\<not> t_committed t"
    using assms(1) unfolding trie_holds_def by blast
  ultimately show ?thesis
    unfolding trie_holds_def using sub_strip [of "t_env t" "[]" "t_root t" M "t_root t'"] by auto
qed

lemma hexToCompact_total: "\<exists>c. hexToCompact h = Some c"
proof -
  let ?h = "if hasTerm h then butlast h else h"
  let ?g = "if odd (length ?h) then drop 1 ?h else ?h"
  have "even (length ?g)"
    by (cases "odd (length ?h)") simp_all
  then obtain bs where "decodeNibbles ?g = Some bs"
    using decodeNibbles_pairs [of ?g "length ?g div 2"] by (metis dvd_mult_div_cancel)
  then show ?thesis
    by (cases "odd (length ?h)") (simp_all add: hexToCompact_def Let_def)
qed

lemma all_some_total: "(\<And>x. x \<in> set xs \<Longrightarrow> \<exists>y. f x = Some y) \<Longrightarrow> \<exists>ys. all_some (map f xs) = Some ys"
proof (induction xs)
  case (Cons x xs)
  obtain y where "f x = Some y"
    using Cons.prems by auto
  moreover obtain ys where "all_some (map f xs) = Some ys"
    using Cons by auto
  ultimately show ?case
    by simp
qed simp

lemma hash_total: "sub E p n m \<Longrightarrow> n \<noteq> NilNode \<Longrightarrow> \<exists>h c. hasher_hash K R force n = Some (h, c) \<and> (force \<longrightarrow> hash_of h \<noteq> None)"
proof (induction arbitrary: force rule: sub.induct)
  case (leaf k v p fl)
  then show ?case
    using hexToCompact_total [of k] by (auto simp: to_hash_def hash_of_def Let_def split: option.split)
next
  case (ext k p c m fl)
  have "c \<noteq> NilNode"
    using ext.hyps by auto
  then obtain h d where "hasher_hash K R False c = Some (h, d)"
    using ext.IH by blast
  then show ?case
    using hexToCompact_total [of k] by (cases c) (auto simp: to_hash_def hash_of_def Let_def split: option.split)
next
  case (full cs p ms fl)
  let ?f = "\<lambda>c. if c = NilNode then Some (ValueNode [], NilNode) else hasher_hash K R False c"
  have "\<exists>rs. all_some (map ?f (take 16 cs)) = Some rs"
  proof (rule all_some_total)
    fix x assume "x \<in> set (take 16 cs)"
    then obtain i where "i < 16" "x = cs ! i"
      using full.hyps(1) by (auto simp: in_set_conv_nth)
    then show "\<exists>y. ?f x = Some y"
      using full.IH by (cases "x = NilNode") (simp, metis)
  qed
  then show ?case
    by (auto simp: to_hash_def hash_of_def Let_def split: option.split)
qed (auto simp: hash_of_def)

lemma Trie_Hash_total: "trie_holds t m \<Longrightarrow> \<exists>h t'. Trie_Hash K er t = Some (h, t')"
proof (cases "t_root t = NilNode")
  case False
  assume "trie_holds t m"
  then obtain h c y where "hasher_hash K (te_rlp (t_env t)) True (t_root t) = Some (h, c)" "hash_of h = Some y"
    using False hash_total [of "t_env t" "[]" "t_root t" _ K "te_rlp (t_env t)" True] unfolding trie_holds_def by blast
  then show ?thesis
    using False by (simp add: Trie_Hash_def)
qed (simp add: Trie_Hash_def)

section \<open>Histories\<close>

fun Trie_updates :: "(bytes \<times> bytes) list \<Rightarrow> Trie \<Rightarrow> Trie option" where
  "Trie_updates [] t = Some t"
| "Trie_updates ((k, v) # ops) t = do {
     (err, t1) \<leftarrow> Trie_Update k v t;
     if err = None then Trie_updates ops t1 else None }"

lemma Trie_updates_puts: "Trie_updates ops t = mpt.puts ops t"
proof (induction ops arbitrary: t)
  case (Cons op ops)
  obtain k v where op: "op = (k, v)"
    by (cases op)
  have "Option.bind (trie_put k v t) f = Option.bind (Trie_Update k v t) (\<lambda>(err, t1). if err = None then f t1 else None)" for f :: "Trie \<Rightarrow> Trie option"
    by (cases "Trie_Update k v t") (auto simp: trie_put_def)
  moreover have "Trie_updates ops = mpt.puts ops"
    using Cons.IH by auto
  ultimately show ?case
    by (simp add: op cong: if_cong)
qed simp

lemma update_uncached:
  "Trie_Update k v t = Some (None, t') \<Longrightarrow> uncached (t_root t) \<Longrightarrow> uncached (t_root t') \<and> t_env t' = t_env t"
  by (auto simp: Trie_Update_def Trie_update_def Let_def bind_eq_Some_iff split: if_splits dest: insert_uncached delete_uncached)

lemma updates_uncached:
  "Trie_updates ops t = Some t' \<Longrightarrow> uncached (t_root t) \<Longrightarrow> uncached (t_root t') \<and> t_env t' = t_env t"
  by (induction ops t rule: Trie_updates.induct) (auto simp: bind_eq_Some_iff split: if_splits dest!: update_uncached)

text \<open>The empty trie over the empty state root.\<close>

definition empty_trie :: "Rlp \<Rightarrow> Trie" where
  "empty_trie R = \<lparr> t_root = NilNode, t_owner = 0, t_committed = False, t_unhashed = 0,
     t_env = \<lparr> te_rlp = R, te_reader = \<lparr> rd_owner = 0, rd_reader = None, rd_banned = {} \<rparr> \<rparr>, t_tracer = newTracer \<rparr>"

lemma New_empty: "New_trie R emptyRoot db tb (StateTrieID emptyRoot) = Some (Inr (empty_trie R))"
  by (simp add: New_trie_def newTrieReader_def StateTrieID_def empty_trie_def)

lemma empty_trie_holds: "trie_holds (empty_trie R) (\<lambda>_. [])"
  by (auto simp: trie_holds_def empty_trie_def value_or_nil_def intro!: exI [of _ Map.empty] sub.nil)

text \<open>C5: The Patricia trie is a map. On a trie that holds the entries \<open>m\<close> (partly in memory, partly in the
  database), every sequence of updates, where an empty value deletes, returns without panic or error, and
  a lookup then returns what the last update of that key wrote, or what \<open>m\<close> had, or nothing.\<close>
theorem trie_implements_map:
  assumes "trie_holds t m"
  shows "\<exists>t1 t2. Trie_updates ops t = Some t1 \<and> Trie_Get k t1 = Some (Inr (writes ops m k), t2)"
proof -
  obtain t1 where "Trie_updates ops t = Some t1" "trie_holds t1 (writes ops m)"
    using mpt.puts_ok [OF assms] by (auto simp: Trie_updates_puts)
  then show ?thesis
    using trie_get_holds by blast
qed

theorem trie_implements_map_witness:
  "\<forall>R. trie_holds (empty_trie R) (\<lambda>_. []) \<and>
   (\<exists>t1 t2. Trie_updates [([0x12], [7]), ([0x13], [8]), ([0x12], []), ([0x21, 0x22], [9])] (empty_trie R) = Some t1 \<and>
      Trie_Get [0x13] t1 = Some (Inr [8], t2))"
  using trie_implements_map [OF empty_trie_holds, of "[([0x12], [7]), ([0x13], [8]), ([0x12], []), ([0x21, 0x22], [9])]" _ "[0x13]"]
  by (simp add: empty_trie_holds)

lemma value_or_nil_inj: "value_or_nil a = value_or_nil b \<Longrightarrow> a \<noteq> Some [] \<Longrightarrow> b \<noteq> Some [] \<Longrightarrow> a = b"
  by (auto simp: value_or_nil_def split: option.splits)

lemma same_map_same_root:
  assumes "trie_holds t m" "trie_holds t' m" "t_env t' = t_env t" "no_reader (t_env t)" "uncached (t_root t)" "uncached (t_root t')"
  shows "t_root t = t_root t'"
proof -
  obtain M where M: "sub (t_env t) [] (t_root t) M" "\<forall>k. value_or_nil (M (keybytesToHex k)) = m k" "dom M \<subseteq> range keybytesToHex"
    using assms(1) by (auto simp: trie_holds_def)
  obtain M' where M': "sub (t_env t) [] (t_root t') M'" "\<forall>k. value_or_nil (M' (keybytesToHex k)) = m k" "dom M' \<subseteq> range keybytesToHex"
    using assms(2,3) by (auto simp: trie_holds_def)
  have "M x = M' x" for x
  proof (cases "x \<in> range keybytesToHex")
    case True
    then have "value_or_nil (M x) = value_or_nil (M' x)"
      using M(2) M'(2) by auto
    then show ?thesis
      using sub_values [OF M(1)] sub_values [OF M'(1)] value_or_nil_inj by metis
  qed (use M(3) M'(3) in \<open>metis domIff subsetD\<close>)
  then have "M' = M"
    by auto
  then have "strip (t_root t) = strip (t_root t')"
    using sub_unique [OF assms(4) M(1)] M'(1) by simp
  then show ?thesis
    using assms by (simp add: uncached_strip)
qed

text \<open>C6: The root hash of a trie depends on its entries only. Two histories of updates of the empty trie
  (different orders, overwritten or deleted entries) that end in the same map build the same node tree and
  give the same root hash, whatever the hash function and the RLP encoding are.\<close>
theorem root_hash_is_history_independent:
  assumes "Trie_updates ops (empty_trie R) = Some t" "Trie_updates ops' (empty_trie R) = Some t'"
    "writes ops (\<lambda>_. []) = writes ops' (\<lambda>_. [])"
  shows "t_root t = t_root t' \<and> map_option fst (Trie_Hash K emptyRoot t) = map_option fst (Trie_Hash K emptyRoot t')"
proof -
  have "trie_holds t (writes ops (\<lambda>_. []))" "trie_holds t' (writes ops (\<lambda>_. []))"
    using assms mpt.puts_ok [OF empty_trie_holds] by (metis Trie_updates_puts option.inject)+
  moreover have "uncached (t_root t) \<and> t_env t = t_env (empty_trie R)" "uncached (t_root t') \<and> t_env t' = t_env (empty_trie R)"
    using assms updates_uncached by (force simp: empty_trie_def)+
  moreover have "no_reader (t_env (empty_trie R))"
    by (simp add: no_reader_def empty_trie_def)
  ultimately have "t_root t = t_root t'" "t_env t = t_env t'"
    using same_map_same_root by metis+
  then show ?thesis
    by (cases "hasher_hash K (te_rlp (t_env t')) True (t_root t')"; cases "hash_of (fst (the (hasher_hash K (te_rlp (t_env t')) True (t_root t'))))")
       (auto simp: Trie_Hash_def)
qed

theorem root_hash_is_history_independent_witness:
  "\<forall>R. \<exists>t t'. Trie_updates [([0x12], [7]), ([0x13], [8])] (empty_trie R) = Some t \<and>
     Trie_updates [([0x13], [8]), ([0x21], [9]), ([0x12], [7]), ([0x21], [])] (empty_trie R) = Some t' \<and> t_root t = t_root t'"
proof
  fix R
  let ?a = "[([0x12], [7]), ([0x13], [8])] :: (bytes \<times> bytes) list"
  let ?b = "[([0x13], [8]), ([0x21], [9]), ([0x12], [7]), ([0x21], [])] :: (bytes \<times> bytes) list"
  obtain t t' where t: "Trie_updates ?a (empty_trie R) = Some t" "Trie_updates ?b (empty_trie R) = Some t'"
    using mpt.puts_ok [OF empty_trie_holds] by (metis Trie_updates_puts)
  have "writes ?a (\<lambda>_. []) = writes ?b (\<lambda>_. [])"
    by (auto simp: fun_eq_iff)
  then show "\<exists>t t'. Trie_updates ?a (empty_trie R) = Some t \<and> Trie_updates ?b (empty_trie R) = Some t' \<and> t_root t = t_root t'"
    using root_hash_is_history_independent [OF t] t by blast
qed

end
