(* ===== verification/StateTrie.thy ===== *)
theory StateTrie
  imports Hasher StateDB
begin

text \<open>
  The account and storage tries of the state: the key-hashing trie (\<open>vm/trie/secure_trie.go\<close>), the readers
  above it (\<open>vm/state/reader.go\<close>, \<open>database.go\<close>) and the way the state database writes its mutations into
  the tries (\<open>updateTrie\<close>, \<open>updateRoot\<close> of \<open>state_object.go\<close>, \<open>updateStateObject\<close>, \<open>deleteStateObject\<close>,
  \<open>IntermediateRoot\<close> of \<open>statedb.go\<close>). The prefetcher and the witness are never set by this program and are
  nil, and the database is not a Verkle one.
\<close>

section \<open>The key-hashing trie\<close>

text \<open>The encodings of accounts and slot_keys are calls of the RLP library.\<close>

record TrieCodec =
  tc_K :: "bytes \<Rightarrow> bytes"
  tc_encAccount :: "StateAccount \<Rightarrow> bytes"
  tc_decAccount :: "bytes \<Rightarrow> string + StateAccount"
  tc_encBytes :: "bytes \<Rightarrow> bytes"
  tc_emptyRoot :: common_Hash
  tc_rlp :: Rlp
  tc_db :: "common_Hash \<Rightarrow> string + node_reader"

datatype state_error = TrieFailed trie_error | CodecFailed string

text \<open>\<open>st_owned\<close> says whether \<open>secKeyCacheOwner\<close> points to the trie itself.\<close>

record StateTrie =
  st_trie :: Trie
  st_preimages :: "(common_Hash \<rightharpoonup> bytes) option"
  st_cache :: "bytes \<rightharpoonup> bytes"
  st_owned :: bool

definition NewStateTrie :: "TrieCodec \<Rightarrow> TrieID \<Rightarrow> (state_error + StateTrie) panics" where
  "NewStateTrie c i = do {
     r \<leftarrow> New_trie (tc_rlp c) (tc_emptyRoot c) (tc_db c) hash_bytes i;
     Some (case r of
         Inl e \<Rightarrow> Inl (TrieFailed e)
       | Inr t \<Rightarrow> Inr \<lparr> st_trie = t, st_preimages = None, st_cache = Map.empty, st_owned = False \<rparr>) }"

definition getSecKeyCache :: "StateTrie \<Rightarrow> StateTrie" where
  "getSecKeyCache t = (if st_owned t then t else t\<lparr> st_owned := True, st_cache := Map.empty \<rparr>)"

definition cache_key :: "bytes \<Rightarrow> bytes \<Rightarrow> StateTrie \<Rightarrow> StateTrie" where
  "cache_key hk key t = (let t1 = getSecKeyCache t in t1\<lparr> st_cache := (st_cache t1)(hk \<mapsto> key) \<rparr>)"

definition uncache_key :: "bytes \<Rightarrow> StateTrie \<Rightarrow> StateTrie" where
  "uncache_key hk t = (let t1 = getSecKeyCache t in t1\<lparr> st_cache := (st_cache t1)(hk := None) \<rparr>)"

definition GetStorage :: "TrieCodec \<Rightarrow> bytes \<Rightarrow> StateTrie \<Rightarrow> ((state_error + bytes) \<times> StateTrie) panics" where
  "GetStorage c key t = do {
     (r, t1) \<leftarrow> Trie_Get (tc_K c key) (st_trie t);
     Some (case r of
         Inl e \<Rightarrow> Inl (TrieFailed e)
       | Inr enc \<Rightarrow>
           if length enc = 0 then Inr []
           else (case rlp_Split (tc_rlp c) enc of Inl e \<Rightarrow> Inl (CodecFailed e) | Inr (kind, content, rest) \<Rightarrow> Inr content),
       t\<lparr> st_trie := t1 \<rparr>) }"

definition GetAccount :: "TrieCodec \<Rightarrow> common_Address \<Rightarrow> StateTrie \<Rightarrow> ((state_error + StateAccount option) \<times> StateTrie) panics" where
  "GetAccount c a t = do {
     (r, t1) \<leftarrow> Trie_Get (tc_K c (address_bytes a)) (st_trie t);
     Some (case r of
         Inl e \<Rightarrow> Inl (TrieFailed e)
       | Inr res \<Rightarrow>
           if res = [] then Inr None
           else (case tc_decAccount c res of Inl e \<Rightarrow> Inl (CodecFailed e) | Inr acc \<Rightarrow> Inr (Some acc)),
       t\<lparr> st_trie := t1 \<rparr>) }"

definition UpdateStorage :: "TrieCodec \<Rightarrow> bytes \<Rightarrow> bytes \<Rightarrow> StateTrie \<Rightarrow> (state_error option \<times> StateTrie) panics" where
  "UpdateStorage c key val t = do {
     let hk = tc_K c key;
     (err, t1) \<leftarrow> Trie_Update hk (tc_encBytes c val) (st_trie t);
     let t2 = t\<lparr> st_trie := t1 \<rparr>;
     Some (case err of Some e \<Rightarrow> (Some (TrieFailed e), t2) | None \<Rightarrow> (None, cache_key hk key t2)) }"

definition UpdateAccount :: "TrieCodec \<Rightarrow> common_Address \<Rightarrow> StateAccount \<Rightarrow> StateTrie \<Rightarrow> (state_error option \<times> StateTrie) panics" where
  "UpdateAccount c a acc t = do {
     let hk = tc_K c (address_bytes a);
     (err, t1) \<leftarrow> Trie_Update hk (tc_encAccount c acc) (st_trie t);
     let t2 = t\<lparr> st_trie := t1 \<rparr>;
     Some (case err of Some e \<Rightarrow> (Some (TrieFailed e), t2) | None \<Rightarrow> (None, cache_key hk (address_bytes a) t2)) }"

definition DeleteStorage :: "TrieCodec \<Rightarrow> bytes \<Rightarrow> StateTrie \<Rightarrow> (state_error option \<times> StateTrie) panics" where
  "DeleteStorage c key t0 = do {
     let hk = tc_K c key;
     let t = uncache_key hk t0;
     (err, t1) \<leftarrow> Trie_Delete hk (st_trie t);
     Some (map_option TrieFailed err, t\<lparr> st_trie := t1 \<rparr>) }"

definition DeleteAccount :: "TrieCodec \<Rightarrow> common_Address \<Rightarrow> StateTrie \<Rightarrow> (state_error option \<times> StateTrie) panics" where
  "DeleteAccount c a t = DeleteStorage c (address_bytes a) t"

definition GetKey :: "bytes \<Rightarrow> StateTrie \<Rightarrow> bytes \<times> StateTrie" where
  "GetKey shaKey t0 = (let t = getSecKeyCache t0 in
     (case st_cache t shaKey of
        Some key \<Rightarrow> key
      | None \<Rightarrow> (case st_preimages t of
            None \<Rightarrow> []
          | Some P \<Rightarrow> (case P (BytesToHash shaKey) of None \<Rightarrow> [] | Some key \<Rightarrow> key)), t))"

definition StateTrie_Commit ::
  "TrieCodec \<Rightarrow> bytes list \<Rightarrow> bytes list \<Rightarrow> bool \<Rightarrow> StateTrie \<Rightarrow> (common_Hash \<times> NodeSet option \<times> StateTrie) panics" where
  "StateTrie_Commit c hks ks collectLeaf t0 =
     (let t = getSecKeyCache t0;
          t1 = (if st_cache t = Map.empty then t
                else t\<lparr> st_cache := Map.empty,
                        st_preimages := map_option (fold (\<lambda>hk P. case st_cache t hk of
                            None \<Rightarrow> P | Some key \<Rightarrow> P(BytesToHash hk \<mapsto> key)) hks) (st_preimages t) \<rparr>) in do {
      (rt, ns, tr) \<leftarrow> Trie_Commit (tc_K c) (tc_emptyRoot c) ks collectLeaf (st_trie t1);
      Some (rt, ns, t1\<lparr> st_trie := tr \<rparr>) })"

section \<open>Readers\<close>

record state_trieReader =
  sr_root :: common_Hash
  sr_main :: StateTrie
  sr_subRoots :: "common_Address \<rightharpoonup> common_Hash"
  sr_subTries :: "common_Address \<rightharpoonup> StateTrie"

definition new_state_trieReader :: "TrieCodec \<Rightarrow> common_Hash \<Rightarrow> (state_error + state_trieReader) panics" where
  "new_state_trieReader c rt = do {
     r \<leftarrow> NewStateTrie c (StateTrieID rt);
     Some (case r of Inl e \<Rightarrow> Inl e
       | Inr t \<Rightarrow> Inr \<lparr> sr_root = rt, sr_main = t, sr_subRoots = Map.empty, sr_subTries = Map.empty \<rparr>) }"

definition trieReader_Account ::
  "TrieCodec \<Rightarrow> common_Address \<Rightarrow> state_trieReader \<Rightarrow> ((state_error + StateAccount option) \<times> state_trieReader) panics" where
  "trieReader_Account c a r = do {
     (res, t) \<leftarrow> GetAccount c a (sr_main r);
     let r1 = r\<lparr> sr_main := t \<rparr>;
     Some (res, case res of
         Inl e \<Rightarrow> r1
       | Inr acc \<Rightarrow> r1\<lparr> sr_subRoots := (sr_subRoots r1)(a \<mapsto> (case acc of None \<Rightarrow> tc_emptyRoot c | Some x \<Rightarrow> SRoot x)) \<rparr>) }"

definition open_subtrie ::
  "TrieCodec \<Rightarrow> common_Address \<Rightarrow> state_trieReader \<Rightarrow> ((state_error + StateTrie) \<times> state_trieReader) panics" where
  "open_subtrie c a r = (case sr_subTries r a of
       Some t \<Rightarrow> Some (Inr t, r)
     | None \<Rightarrow> do {
         (e, r1) \<leftarrow> (if sr_subRoots r a \<noteq> None then Some (None, r)
                     else do { (res, r1) \<leftarrow> trieReader_Account c a r; Some (case res of Inl e \<Rightarrow> Some e | Inr x \<Rightarrow> None, r1) });
         case e of
           Some err \<Rightarrow> Some (Inl err, r1)
         | None \<Rightarrow> do {
             rt \<leftarrow> sr_subRoots r1 a;
             t \<leftarrow> NewStateTrie c (StorageTrieID (sr_root r1) (BytesToHash (tc_K c (address_bytes a))) rt);
             Some (t, case t of Inl err \<Rightarrow> r1 | Inr tr \<Rightarrow> r1\<lparr> sr_subTries := (sr_subTries r1)(a \<mapsto> tr) \<rparr>) } })"

definition trieReader_Storage ::
  "TrieCodec \<Rightarrow> common_Address \<Rightarrow> common_Hash \<Rightarrow> state_trieReader \<Rightarrow> ((state_error + common_Hash) \<times> state_trieReader) panics" where
  "trieReader_Storage c a key r = do {
     (t, r1) \<leftarrow> open_subtrie c a r;
     case t of
       Inl e \<Rightarrow> Some (Inl e, r1)
     | Inr tr \<Rightarrow> do {
         (ret, tr1) \<leftarrow> GetStorage c (hash_bytes key) tr;
         Some (case ret of Inl e \<Rightarrow> Inl e | Inr v \<Rightarrow> Inr (BytesToHash v),
               r1\<lparr> sr_subTries := (sr_subTries r1)(a \<mapsto> tr1) \<rparr>) } }"

text \<open>The readers of a \<open>multiReader\<close> are asked in order until one answers.\<close>

fun first_answer :: "('r \<Rightarrow> ('e + 'x) \<times> 'r) \<Rightarrow> 'r list \<Rightarrow> ('e list + 'x) \<times> 'r list" where
  "first_answer ask [] = (Inl [], [])"
| "first_answer ask (r # rs) = (case ask r of
       (Inr x, r1) \<Rightarrow> (Inr x, r1 # rs)
     | (Inl e, r1) \<Rightarrow> (case first_answer ask rs of (res, rs1) \<Rightarrow> (case res of Inl es \<Rightarrow> Inl (e # es) | Inr x \<Rightarrow> Inr x, r1 # rs1)))"

section \<open>Writing the mutations\<close>

record StateTries =
  main_trie :: StateTrie
  sub_tries :: "common_Address \<rightharpoonup> StateTrie"
  originalRoot :: common_Hash

text \<open>\<open>common.TrimLeftZeroes\<close>.\<close>

definition TrimLeftZeroes :: "bytes \<Rightarrow> bytes" where
  "TrimLeftZeroes bs = dropWhile (\<lambda>b. b = 0) bs"

definition getTrie :: "TrieCodec \<Rightarrow> stateObject \<Rightarrow> StateTries \<Rightarrow> (state_error + StateTrie) panics" where
  "getTrie c ob ts = (case sub_tries ts (address ob) of
       Some t \<Rightarrow> Some (Inr t)
     | None \<Rightarrow> NewStateTrie c (StorageTrieID (originalRoot ts) (BytesToHash (tc_K c (address_bytes (address ob)))) (SRoot (data ob))))"

text \<open>The loop of \<open>updateTrie\<close> over the slot_keys: writes at once, deletions collected for later.\<close>

fun update_slots ::
  "TrieCodec \<Rightarrow> stateObject \<Rightarrow> common_Hash list \<Rightarrow> StateTrie \<Rightarrow> (state_error option \<times> common_Hash list \<times> StateTrie) panics" where
  "update_slots c ob [] t = Some (None, [], t)"
| "update_slots c ob (k # ks) t =
     (case (uncommittedStorage ob k, pendingStorage ob k) of
        (Some orig, Some v) \<Rightarrow>
          if v = orig then update_slots c ob ks t
          else if v \<noteq> 0 then do {
            (err, t1) \<leftarrow> UpdateStorage c (hash_bytes k) (TrimLeftZeroes (hash_bytes v)) t;
            if err \<noteq> None then Some (err, [], t1) else update_slots c ob ks t1 }
          else do { (err, dels, t1) \<leftarrow> update_slots c ob ks t; Some (err, k # dels, t1) }
      | _ \<Rightarrow> update_slots c ob ks t)"

fun delete_slots :: "TrieCodec \<Rightarrow> common_Hash list \<Rightarrow> StateTrie \<Rightarrow> (state_error option \<times> StateTrie) panics" where
  "delete_slots c [] t = Some (None, t)"
| "delete_slots c (k # ks) t = do {
     (err, t1) \<leftarrow> DeleteStorage c (hash_bytes k) t;
     if err \<noteq> None then Some (err, t1) else delete_slots c ks t1 }"

text \<open>\<open>updateTrie\<close>: the mutated trie (nil when there is no change and none was opened), or an error.\<close>

definition updateTrie ::
  "TrieCodec \<Rightarrow> common_Hash list \<Rightarrow> stateObject \<Rightarrow> StateTries \<Rightarrow> ((state_error + StateTrie option) \<times> stateObject \<times> StateTries) panics" where
  "updateTrie c slot_keys ob ts =
     (if uncommittedStorage ob = Map.empty then Some (Inr (sub_tries ts (address ob)), ob, ts)
      else do {
        r \<leftarrow> getTrie c ob ts;
        case r of
          Inl e \<Rightarrow> Some (Inl e, ob, ts)
        | Inr tr \<Rightarrow> do {
            (err, dels, t1) \<leftarrow> update_slots c ob slot_keys tr;
            let ts1 = ts\<lparr> sub_tries := (sub_tries ts)(address ob \<mapsto> t1) \<rparr>;
            if err \<noteq> None then Some (Inl (the err), ob, ts1)
            else do {
              (err2, t2) \<leftarrow> delete_slots c dels t1;
              let ts2 = ts\<lparr> sub_tries := (sub_tries ts)(address ob \<mapsto> t2) \<rparr>;
              if err2 \<noteq> None then Some (Inl (the err2), ob, ts2)
              else Some (Inr (Some t2), ob\<lparr> uncommittedStorage := Map.empty \<rparr>, ts2) } } })"

definition updateRoot :: "TrieCodec \<Rightarrow> common_Hash list \<Rightarrow> stateObject \<Rightarrow> StateTries \<Rightarrow> (state_error option \<times> stateObject \<times> StateTries) panics" where
  "updateRoot c slot_keys ob ts = do {
     (r, ob1, ts1) \<leftarrow> updateTrie c slot_keys ob ts;
     case r of
       Inl e \<Rightarrow> Some (Some e, ob1, ts1)
     | Inr None \<Rightarrow> Some (None, ob1, ts1)
     | Inr (Some tr) \<Rightarrow> do {
         (h, t1) \<leftarrow> Trie_Hash (tc_K c) (tc_emptyRoot c) (st_trie tr);
         Some (None, ob1\<lparr> data := (data ob1)\<lparr> SRoot := h \<rparr> \<rparr>,
               ts1\<lparr> sub_tries := (sub_tries ts1)(address ob1 \<mapsto> tr\<lparr> st_trie := t1 \<rparr>) \<rparr>) } }"

text \<open>\<open>setError\<close> keeps the first error; its text is the parameter \<open>show\<close>.\<close>

definition set_db_error :: "(state_error \<Rightarrow> string) \<Rightarrow> state_error option \<Rightarrow> StateDB \<Rightarrow> StateDB" where
  "set_db_error shw err s = (case err of
       None \<Rightarrow> s
     | Some e \<Rightarrow> if dbErr s = None then s\<lparr> dbErr := Some (shw e) \<rparr> else s)"

text \<open>The workers of \<open>IntermediateRoot\<close>, one per updated object, in the order they run in.\<close>

fun update_roots ::
  "TrieCodec \<Rightarrow> (state_error \<Rightarrow> string) \<Rightarrow> (common_Address \<Rightarrow> common_Hash list) \<Rightarrow> common_Address list \<Rightarrow> StateDB \<times> StateTries
     \<Rightarrow> (StateDB \<times> StateTries) panics" where
  "update_roots c shw slot_keys [] st = Some st"
| "update_roots c shw slot_keys (a # as) (s, ts) = (case mutations s a of
       None \<Rightarrow> update_roots c shw slot_keys as (s, ts)
     | Some op \<Rightarrow>
         if applied op \<or> mtyp op = deletion then update_roots c shw slot_keys as (s, ts)
         else do {
           ob \<leftarrow> stateObjects s a;
           (err, ob1, ts1) \<leftarrow> updateRoot c (slot_keys a) ob ts;
           update_roots c shw slot_keys as (set_db_error shw err (s\<lparr> stateObjects := (stateObjects s)(a \<mapsto> ob1) \<rparr>), ts1) })"

fun write_accounts ::
  "TrieCodec \<Rightarrow> (state_error \<Rightarrow> string) \<Rightarrow> common_Address list \<Rightarrow> StateDB \<times> StateTries \<Rightarrow> (common_Address list \<times> StateDB \<times> StateTries) panics" where
  "write_accounts c shw [] st = Some ([], st)"
| "write_accounts c shw (a # as) (s, ts) = (case mutations s a of
       None \<Rightarrow> write_accounts c shw as (s, ts)
     | Some op \<Rightarrow>
         if applied op then write_accounts c shw as (s, ts)
         else (let s1 = s\<lparr> mutations := (mutations s)(a \<mapsto> op\<lparr> applied := True \<rparr>) \<rparr> in
           if mtyp op = deletion then do { (dels, st) \<leftarrow> write_accounts c shw as (s1, ts); Some (a # dels, st) }
           else do {
             ob \<leftarrow> stateObjects s1 a;
             (err, t) \<leftarrow> UpdateAccount c (address ob) (data ob) (main_trie ts);
             write_accounts c shw as (set_db_error shw err s1, ts\<lparr> main_trie := t \<rparr>) }))"

fun delete_accounts ::
  "TrieCodec \<Rightarrow> (state_error \<Rightarrow> string) \<Rightarrow> common_Address list \<Rightarrow> StateDB \<times> StateTries \<Rightarrow> (StateDB \<times> StateTries) panics" where
  "delete_accounts c shw [] st = Some st"
| "delete_accounts c shw (a # as) (s, ts) = do {
     (err, t) \<leftarrow> DeleteAccount c a (main_trie ts);
     delete_accounts c shw as (set_db_error shw err s, ts\<lparr> main_trie := t \<rparr>) }"

text \<open>\<open>IntermediateRoot\<close>: \<open>dorder\<close> is the order of \<open>Finalise\<close>, \<open>order1\<close> and \<open>order2\<close> are the two passes over
  the mutations.\<close>

definition IntermediateRoot ::
  "TrieCodec \<Rightarrow> (state_error \<Rightarrow> string) \<Rightarrow> StateEnv \<Rightarrow> bool \<Rightarrow> common_Address list \<Rightarrow> (common_Address \<Rightarrow> common_Hash list) \<Rightarrow> common_Address list
     \<Rightarrow> common_Address list \<Rightarrow> StateDB \<Rightarrow> StateTries \<Rightarrow> (common_Hash \<times> StateDB \<times> StateTries) panics" where
  "IntermediateRoot c shw env deleteEmptyObjects dorder slot_keys order1 order2 s0 ts0 = do {
     let s = Finalise env deleteEmptyObjects dorder s0;
     st1 \<leftarrow> update_roots c shw slot_keys order1 (s, ts0);
     (dels, st2) \<leftarrow> write_accounts c shw order2 st1;
     (s3, ts3) \<leftarrow> delete_accounts c shw dels st2;
     (h, t) \<leftarrow> Trie_Hash (tc_K c) (tc_emptyRoot c) (st_trie (main_trie ts3));
     Some (h, s3, ts3\<lparr> main_trie := (main_trie ts3)\<lparr> st_trie := t \<rparr> \<rparr>) }"

section \<open>Accounts in the trie\<close>

abbreviation account_key :: "TrieCodec \<Rightarrow> common_Address \<Rightarrow> bytes" where
  "account_key c a \<equiv> tc_K c (address_bytes a)"

lemma getSecKeyCache_trie [simp]: "st_trie (getSecKeyCache t) = st_trie t"
  by (simp add: getSecKeyCache_def)

lemma cache_trie [simp]: "st_trie (cache_key hk key t) = st_trie t" "st_trie (uncache_key hk t) = st_trie t"
  by (simp_all add: cache_key_def uncache_key_def Let_def)

lemma UpdateAccount_holds:
  "trie_holds (st_trie t) m \<Longrightarrow>
   \<exists>t'. UpdateAccount c a acc t = Some (None, t') \<and> trie_holds (st_trie t') (m(account_key c a := tc_encAccount c acc))"
  using trie_update_holds [of "st_trie t" m "account_key c a" "tc_encAccount c acc"]
  by (auto simp: UpdateAccount_def Let_def simp del: fun_upd_apply)

lemma DeleteAccount_holds:
  "trie_holds (st_trie t) m \<Longrightarrow> \<exists>t'. DeleteAccount c a t = Some (None, t') \<and> trie_holds (st_trie t') (m(account_key c a := []))"
  using trie_update_holds [of "st_trie t" m "account_key c a" "[]"]
  by (auto simp: DeleteAccount_def DeleteStorage_def trie_delete_is_update Let_def simp del: fun_upd_apply)

definition read_account :: "TrieCodec \<Rightarrow> bytes \<Rightarrow> state_error + StateAccount option" where
  "read_account c res = (if res = [] then Inr None
     else case tc_decAccount c res of Inl e \<Rightarrow> Inl (CodecFailed e) | Inr acc \<Rightarrow> Inr (Some acc))"

lemma GetAccount_holds:
  "trie_holds (st_trie t) m \<Longrightarrow> \<exists>t'. GetAccount c a t = Some (read_account c (m (account_key c a)), t') \<and> trie_holds (st_trie t') m"
  using trie_get_holds [of "st_trie t" m "account_key c a"]
  by (auto simp: GetAccount_def read_account_def)

text \<open>A mutation that still has to be written.\<close>

definition pending :: "StateDB \<Rightarrow> common_Address \<Rightarrow> mutationType \<Rightarrow> bool" where
  "pending s a ty \<longleftrightarrow> (\<exists>op. mutations s a = Some op \<and> \<not> applied op \<and> mtyp op = ty)"

definition objects_named :: "StateDB \<Rightarrow> bool" where
  "objects_named s \<longleftrightarrow> (\<forall>a ob. stateObjects s a = Some ob \<longrightarrow> address ob = a)"

lemma set_db_error_frame [simp]:
  "stateObjects (set_db_error shw err s) = stateObjects s" "mutations (set_db_error shw err s) = mutations s"
  "set_db_error shw None s = s"
  by (auto simp: set_db_error_def split: option.split)

fun written :: "TrieCodec \<Rightarrow> StateDB \<Rightarrow> common_Address list \<Rightarrow> (bytes \<Rightarrow> bytes) \<Rightarrow> (bytes \<Rightarrow> bytes)" where
  "written c s [] m = m"
| "written c s (a # as) m = written c s as
     (if pending s a update then m(account_key c a := tc_encAccount c (data (the (stateObjects s a)))) else m)"

lemma written_cong:
  "stateObjects s' = stateObjects s \<Longrightarrow> (\<forall>a \<in> set as. mutations s' a = mutations s a) \<Longrightarrow> written c s' as m = written c s as m"
  by (induction as arbitrary: m) (auto simp: pending_def)

lemma write_accounts_holds:
  assumes "trie_holds (st_trie (main_trie ts)) m" "distinct as" "objects_named s"
    "\<forall>a \<in> set as. pending s a update \<longrightarrow> stateObjects s a \<noteq> None"
  shows "\<exists>s' ts'. write_accounts c shw as (s, ts) = Some (filter (\<lambda>a. pending s a deletion) as, s', ts') \<and>
     trie_holds (st_trie (main_trie ts')) (written c s as m) \<and> stateObjects s' = stateObjects s"
  using assms
proof (induction as arbitrary: s ts m)
  case (Cons a as)
  show ?case
  proof (cases "\<exists>op. mutations s a = Some op \<and> \<not> applied op")
    case False
    then have "\<not> pending s a ty" "write_accounts c shw (a # as) (s, ts) = write_accounts c shw as (s, ts)" for ty
      by (auto simp: pending_def split: option.split)
    then show ?thesis
      using Cons by auto
  next
    case True
    then obtain op where op: "mutations s a = Some op" "\<not> applied op"
      by blast
    let ?s = "s\<lparr> mutations := (mutations s)(a \<mapsto> op\<lparr> applied := True \<rparr>) \<rparr>"
    have same: "pending ?s b ty = pending s b ty" if "b \<in> set as" for b ty
      using Cons.prems(2) that by (auto simp: pending_def)
    have IH: "\<exists>s' ts'. write_accounts c shw as (?s, ts1) = Some (filter (\<lambda>a. pending s a deletion) as, s', ts') \<and>
        trie_holds (st_trie (main_trie ts')) (written c s as m1) \<and> stateObjects s' = stateObjects s"
      if "trie_holds (st_trie (main_trie ts1)) m1" for ts1 m1
      using Cons.IH [of ts1 m1 ?s] Cons.prems that same written_cong [of ?s s as c m1]
      by (auto simp: objects_named_def cong: filter_cong)
    show ?thesis
    proof (cases "mtyp op")
      case update
      then have p: "pending s a update" "\<not> pending s a deletion"
        using op by (auto simp: pending_def)
      then obtain ob where ob: "stateObjects s a = Some ob" "address ob = a"
        using Cons.prems by (auto simp: objects_named_def)
      obtain t where t: "UpdateAccount c a (data ob) (main_trie ts) = Some (None, t)"
        "trie_holds (st_trie t) (m(account_key c a := tc_encAccount c (data ob)))"
        using UpdateAccount_holds [OF Cons.prems(1)] by blast
      have "write_accounts c shw (a # as) (s, ts) = write_accounts c shw as (?s, ts\<lparr> main_trie := t \<rparr>)"
        using op ob t update by simp
      then show ?thesis
        using IH [of "ts\<lparr> main_trie := t \<rparr>"] t p ob by (simp del: fun_upd_apply)
    next
      case deletion
      then have p: "\<not> pending s a update" "pending s a deletion"
        using op by (auto simp: pending_def)
      then show ?thesis
        using IH [OF Cons.prems(1)] op deletion by auto
    qed
  qed
qed simp

lemma delete_accounts_holds:
  "trie_holds (st_trie (main_trie ts)) m \<Longrightarrow>
   \<exists>ts'. delete_accounts c shw as (s, ts) = Some (s, ts') \<and>
     trie_holds (st_trie (main_trie ts')) (fold (\<lambda>a m. m(account_key c a := [])) as m)"
proof (induction as arbitrary: ts m)
  case (Cons a as)
  obtain t where t: "DeleteAccount c a (main_trie ts) = Some (None, t)" "trie_holds (st_trie t) (m(account_key c a := []))"
    using DeleteAccount_holds [OF Cons.prems] by blast
  then show ?case
    using Cons.IH [of "ts\<lparr> main_trie := t \<rparr>"] by (simp del: fun_upd_apply)
qed simp

section \<open>Storage tries\<close>

definition st_ok :: "StateTrie \<Rightarrow> bool" where
  "st_ok t \<longleftrightarrow> (\<exists>m. trie_holds (st_trie t) m)"

lemma UpdateStorage_ok: "st_ok t \<Longrightarrow> \<exists>t'. UpdateStorage c k v t = Some (None, t') \<and> st_ok t'"
  using trie_update_holds [of "st_trie t" _ "tc_K c k" "tc_encBytes c v"]
  by (fastforce simp: UpdateStorage_def st_ok_def Let_def simp del: fun_upd_apply)

lemma DeleteStorage_ok: "st_ok t \<Longrightarrow> \<exists>t'. DeleteStorage c k t = Some (None, t') \<and> st_ok t'"
  using trie_update_holds [of "st_trie t" _ "tc_K c k" "[]"]
  by (fastforce simp: DeleteStorage_def st_ok_def trie_delete_is_update Let_def simp del: fun_upd_apply)

lemma update_slots_ok: "st_ok t \<Longrightarrow> \<exists>dels t'. update_slots c ob ks t = Some (None, dels, t') \<and> st_ok t'"
proof (induction ks arbitrary: t)
  case (Cons k ks)
  show ?case
  proof (cases "\<exists>orig v. uncommittedStorage ob k = Some orig \<and> pendingStorage ob k = Some v \<and> v \<noteq> orig \<and> v \<noteq> 0")
    case True
    then obtain orig v where v: "uncommittedStorage ob k = Some orig" "pendingStorage ob k = Some v" "v \<noteq> orig" "v \<noteq> 0"
      by blast
    obtain t1 where "UpdateStorage c (hash_bytes k) (TrimLeftZeroes (hash_bytes v)) t = Some (None, t1)" "st_ok t1"
      using UpdateStorage_ok [OF Cons.prems] by blast
    then show ?thesis
      using Cons.IH v by simp
  next
    case False
    obtain dels t' where "update_slots c ob ks t = Some (None, dels, t')" "st_ok t'"
      using Cons by blast
    then show ?thesis
      using False by (auto split: option.split)
  qed
qed simp

lemma delete_slots_ok: "st_ok t \<Longrightarrow> \<exists>t'. delete_slots c ks t = Some (None, t') \<and> st_ok t'"
proof (induction ks arbitrary: t)
  case (Cons k ks)
  obtain t1 where "DeleteStorage c (hash_bytes k) t = Some (None, t1)" "st_ok t1"
    using DeleteStorage_ok [OF Cons.prems] by blast
  then show ?case
    using Cons.IH by simp
qed simp

definition storage_ready :: "TrieCodec \<Rightarrow> stateObject \<Rightarrow> StateTries \<Rightarrow> bool" where
  "storage_ready c ob ts \<longleftrightarrow> (\<forall>t. sub_tries ts (address ob) = Some t \<longrightarrow> st_ok t) \<and>
     (uncommittedStorage ob \<noteq> Map.empty \<longrightarrow> (\<exists>t. getTrie c ob ts = Some (Inr t) \<and> st_ok t))"

lemma updateTrie_ok:
  assumes "storage_ready c ob ts"
  shows "\<exists>r ob' ts'. updateTrie c ks ob ts = Some (Inr r, ob', ts') \<and> (\<forall>t. r = Some t \<longrightarrow> st_ok t) \<and> address ob' = address ob \<and>
     main_trie ts' = main_trie ts \<and> originalRoot ts' = originalRoot ts \<and> (\<forall>a. a \<noteq> address ob \<longrightarrow> sub_tries ts' a = sub_tries ts a)"
proof (cases "uncommittedStorage ob = Map.empty")
  case True
  then show ?thesis
    using assms by (simp add: updateTrie_def storage_ready_def)
next
  case False
  then obtain t dels t1 t2 where "getTrie c ob ts = Some (Inr t)" "update_slots c ob ks t = Some (None, dels, t1)"
    "delete_slots c dels t1 = Some (None, t2)" "st_ok t2"
    using assms update_slots_ok delete_slots_ok unfolding storage_ready_def by metis
  then show ?thesis
    using False by (simp add: updateTrie_def Let_def)
qed

lemma updateRoot_ok:
  assumes "storage_ready c ob ts"
  shows "\<exists>ob' ts'. updateRoot c ks ob ts = Some (None, ob', ts') \<and> address ob' = address ob \<and>
     main_trie ts' = main_trie ts \<and> originalRoot ts' = originalRoot ts \<and> (\<forall>a. a \<noteq> address ob \<longrightarrow> sub_tries ts' a = sub_tries ts a)"
proof -
  obtain r ob' ts' where u: "updateTrie c ks ob ts = Some (Inr r, ob', ts')" "\<forall>t. r = Some t \<longrightarrow> st_ok t" "address ob' = address ob"
    "main_trie ts' = main_trie ts" "originalRoot ts' = originalRoot ts" "\<forall>a. a \<noteq> address ob \<longrightarrow> sub_tries ts' a = sub_tries ts a"
    using updateTrie_ok [OF assms] by metis
  show ?thesis
  proof (cases r)
    case (Some t)
    then obtain h t1 where "Trie_Hash (tc_K c) (tc_emptyRoot c) (st_trie t) = Some (h, t1)"
      using u(2) Trie_Hash_total by (metis st_ok_def)
    then show ?thesis
      using u Some by (simp add: updateRoot_def)
  qed (use u in \<open>simp add: updateRoot_def\<close>)
qed

lemma storage_ready_frame:
  "sub_tries ts' (address ob) = sub_tries ts (address ob) \<Longrightarrow> originalRoot ts' = originalRoot ts \<Longrightarrow>
   storage_ready c ob ts' = storage_ready c ob ts"
  by (simp add: storage_ready_def getTrie_def cong: option.case_cong)

lemma update_roots_ok:
  assumes "distinct as" "objects_named s"
    "\<forall>a \<in> set as. pending s a update \<longrightarrow> (\<exists>ob. stateObjects s a = Some ob \<and> storage_ready c ob ts)"
  shows "\<exists>s' ts'. update_roots c shw ks as (s, ts) = Some (s', ts') \<and> main_trie ts' = main_trie ts \<and> mutations s' = mutations s \<and>
     objects_named s' \<and> dom (stateObjects s') = dom (stateObjects s)"
  using assms
proof (induction as arbitrary: s ts)
  case (Cons a as)
  show ?case
  proof (cases "pending s a update")
    case False
    then have "update_roots c shw ks (a # as) (s, ts) = update_roots c shw ks as (s, ts)"
      by (cases "mutations s a"; cases "mtyp (the (mutations s a))") (auto simp: pending_def)
    then show ?thesis
      using Cons by auto
  next
    case True
    then obtain op ob where op: "mutations s a = Some op" "\<not> applied op" "mtyp op = update"
      and ob: "stateObjects s a = Some ob" "storage_ready c ob ts" "address ob = a"
      using Cons.prems by (auto simp: pending_def objects_named_def)
    obtain ob' ts' where u: "updateRoot c (ks a) ob ts = Some (None, ob', ts')" "address ob' = a" "main_trie ts' = main_trie ts"
      "originalRoot ts' = originalRoot ts" "\<forall>b. b \<noteq> a \<longrightarrow> sub_tries ts' b = sub_tries ts b"
      using updateRoot_ok [OF ob(2)] ob(3) by blast
    let ?s = "s\<lparr> stateObjects := (stateObjects s)(a \<mapsto> ob') \<rparr>"
    have ready: "\<forall>b \<in> set as. pending ?s b update \<longrightarrow> (\<exists>ob. stateObjects ?s b = Some ob \<and> storage_ready c ob ts')"
    proof (intro ballI impI)
      fix b assume b: "b \<in> set as" "pending ?s b update"
      then have "b \<noteq> a" "pending s b update"
        using Cons.prems(1) by (auto simp: pending_def)
      then obtain ob2 where "stateObjects s b = Some ob2" "storage_ready c ob2 ts" "address ob2 = b"
        using Cons.prems(2,3) b(1) by (auto simp: objects_named_def)
      then show "\<exists>ob. stateObjects ?s b = Some ob \<and> storage_ready c ob ts'"
        using \<open>b \<noteq> a\<close> u(4,5) storage_ready_frame [of ts' ob2 ts c] by simp
    qed
    have "objects_named ?s"
      using Cons.prems(2) u(2) by (simp add: objects_named_def)
    then have "\<exists>s' t. update_roots c shw ks as (?s, ts') = Some (s', t) \<and> main_trie t = main_trie ts' \<and> mutations s' = mutations ?s \<and>
        objects_named s' \<and> dom (stateObjects s') = dom (stateObjects ?s)"
      using ready Cons.prems(1) by (intro Cons.IH) simp_all
    then show ?thesis
      using op ob u by auto
  qed
qed simp

section \<open>What the state root commits to\<close>

lemma key_inj [simp]: "inj (account_key c) \<Longrightarrow> account_key c a = account_key c b \<longleftrightarrow> a = b"
  by (auto dest: injD)

lemma written_value:
  "inj (account_key c) \<Longrightarrow> distinct as \<Longrightarrow> written c s as m (account_key c a) =
     (if a \<in> set as \<and> pending s a update then tc_encAccount c (data (the (stateObjects s a))) else m (account_key c a))"
  by (induction as arbitrary: m) auto

lemma deleted_value:
  "inj (account_key c) \<Longrightarrow> fold (\<lambda>a m. m(account_key c a := [])) as m (account_key c a) = (if a \<in> set as then [] else m (account_key c a))"
  by (induction as arbitrary: m) auto

definition codec_ok :: "TrieCodec \<Rightarrow> bool" where
  "codec_ok c \<longleftrightarrow> inj (account_key c) \<and> (\<forall>acc. tc_encAccount c acc \<noteq> [] \<and> tc_decAccount c (tc_encAccount c acc) = Inr acc)"

lemma pending_unique: "pending s a update \<Longrightarrow> \<not> pending s a deletion"
  by (auto simp: pending_def)

text \<open>C10: Computing the state root writes exactly the mutations. When the account trie holds \<open>m\<close>, the
  storage tries are readable and account keys do not collide, \<open>IntermediateRoot\<close> returns, and afterwards
  every account read from the trie is the object's account if it was updated, absent if it was deleted, and
  what it was before otherwise, whatever the orders in which the two loops range over the mutations.\<close>
theorem intermediate_root_writes_mutations:
  assumes "codec_ok c" "trie_holds (st_trie (main_trie ts)) m"
    "distinct order1" "distinct order2" "set order1 = dom (mutations sF)" "set order2 = dom (mutations sF)"
    "sF = Finalise env del dorder s" "objects_named sF"
    "\<forall>a. pending sF a update \<longrightarrow> (\<exists>ob. stateObjects sF a = Some ob \<and> storage_ready c ob ts)"
  shows "\<exists>h s' ts'. IntermediateRoot c shw env del dorder ks order1 order2 s ts = Some (h, s', ts') \<and>
     (\<forall>a. \<exists>t. GetAccount c a (main_trie ts') = Some
        (if pending sF a deletion then Inr None
         else if pending sF a update then Inr (Some (data (the (stateObjects s' a))))
         else read_account c (m (account_key c a)), t))"
proof -
  have inj: "inj (account_key c)" and dec: "\<And>acc. read_account c (tc_encAccount c acc) = Inr (Some acc)"
    using assms(1) by (simp_all add: codec_ok_def read_account_def)
  obtain s1 ts1 where r1: "update_roots c shw ks order1 (sF, ts) = Some (s1, ts1)" "main_trie ts1 = main_trie ts"
    "mutations s1 = mutations sF" "objects_named s1" "dom (stateObjects s1) = dom (stateObjects sF)"
    using update_roots_ok [OF assms(3,8), of c ts shw ks] assms(9) by blast
  have p: "pending s1 a ty = pending sF a ty" for a ty
    using r1(3) by (simp add: pending_def)
  have some: "\<forall>a \<in> set order2. pending s1 a update \<longrightarrow> stateObjects s1 a \<noteq> None"
    using p r1(5) assms(9) by (metis domIff domI)
  let ?dels = "filter (\<lambda>a. pending s1 a deletion) order2"
  obtain s2 ts2 where r2: "write_accounts c shw order2 (s1, ts1) = Some (?dels, s2, ts2)"
    "trie_holds (st_trie (main_trie ts2)) (written c s1 order2 m)" "stateObjects s2 = stateObjects s1"
    using write_accounts_holds [of ts1 m order2 s1 c shw] assms(2,4) r1 some by auto
  let ?m = "fold (\<lambda>a m. m(account_key c a := [])) ?dels (written c s1 order2 m)"
  obtain ts3 where r3: "delete_accounts c shw ?dels (s2, ts2) = Some (s2, ts3)" "trie_holds (st_trie (main_trie ts3)) ?m"
    using delete_accounts_holds [OF r2(2)] by blast
  obtain h t where r4: "Trie_Hash (tc_K c) (tc_emptyRoot c) (st_trie (main_trie ts3)) = Some (h, t)" "trie_holds t ?m"
    using Trie_Hash_total [OF r3(2)] Trie_Hash_holds [OF r3(2)] by metis
  let ?ts = "ts3\<lparr> main_trie := (main_trie ts3)\<lparr> st_trie := t \<rparr> \<rparr>"
  have "IntermediateRoot c shw env del dorder ks order1 order2 s ts = Some (h, s2, ?ts)"
    using r1(1) r2(1) r3(1) r4(1) by (simp add: IntermediateRoot_def assms(7) [symmetric])
  moreover have val: "read_account c (?m (account_key c a)) = (if pending sF a deletion then Inr None
       else if pending sF a update then Inr (Some (data (the (stateObjects s2 a))))
       else read_account c (m (account_key c a)))" for a
  proof -
    have "pending sF a ty \<Longrightarrow> a \<in> set order2" for ty
      using assms(6) by (auto simp: pending_def)
    then show ?thesis
      using p r2(3) dec by (auto simp: deleted_value [OF inj] written_value [OF inj assms(4)] read_account_def [of c "[]"])
  qed
  moreover have "\<exists>t'. GetAccount c a (main_trie ?ts) = Some (read_account c (?m (account_key c a)), t')" for a
    using GetAccount_holds [of "main_trie ?ts" ?m c a] r4(2) by auto
  ultimately show ?thesis
    unfolding val by blast
qed

section \<open>An example state\<close>

definition example_codec :: TrieCodec where
  "example_codec = \<lparr> tc_K = (\<lambda>b. b),
     tc_encAccount = (\<lambda>a. hash_bytes (ucast (SNonce a)) @ hash_bytes (SBalance a) @ hash_bytes (SRoot a) @ hash_bytes (SCodeHash a)),
     tc_decAccount = (\<lambda>b. Inr \<lparr> SNonce = ucast (BytesToHash (take 32 b)), SBalance = BytesToHash (take 32 (drop 32 b)),
        SRoot = BytesToHash (take 32 (drop 64 b)), SCodeHash = BytesToHash (drop 96 b) \<rparr>),
     tc_encBytes = (\<lambda>b. b), tc_emptyRoot = 0,
     tc_rlp = \<lparr> rlp_Split = (\<lambda>b. Inr (RString, b, [])), rlp_SplitString = (\<lambda>b. Inr (b, [])), rlp_SplitList = (\<lambda>b. Inr (b, [])),
                rlp_CountValues = (\<lambda>b. 0), rlp_WriteBytes = (\<lambda>b. b), rlp_List = (\<lambda>b. b) \<rparr>,
     tc_db = (\<lambda>r. Inl ''missing'') \<rparr>"

definition example_object :: stateObject where
  "example_object = \<lparr> address = 1, origin = None, data = \<lparr> SNonce = 3, SBalance = 500, SRoot = 0, SCodeHash = 7 \<rparr>, code = [],
     originStorage = Map.empty, dirtyStorage = Map.empty, pendingStorage = [5 \<mapsto> 6], uncommittedStorage = [5 \<mapsto> 0],
     dirtyCode = False, selfDestructed = False, newContract = False \<rparr>"

definition example_state :: StateDB where
  "example_state = New2\<lparr> stateObjects := [1 \<mapsto> example_object],
     mutations := [1 \<mapsto> \<lparr> mtyp = update, applied = False \<rparr>, 2 \<mapsto> \<lparr> mtyp = deletion, applied = False \<rparr>] \<rparr>"

definition example_tries :: StateTries where
  "example_tries = \<lparr> main_trie = \<lparr> st_trie = empty_trie (tc_rlp example_codec), st_preimages = None, st_cache = Map.empty, st_owned = False \<rparr>,
     sub_tries = Map.empty, originalRoot = 0 \<rparr>"

lemma example_codec_ok: "codec_ok example_codec"
proof -
  have "ucast (ucast n :: common_Hash) = n" for n :: uint64
    by (rule bit_word_eqI) (simp add: bit_simps)
  then show ?thesis
    using address_bytes_inj by (auto simp: codec_ok_def example_codec_def)
qed

lemma example_storage_ready: "storage_ready example_codec example_object example_tries"
  by (auto simp: storage_ready_def getTrie_def NewStateTrie_def New_trie_def newTrieReader_def StorageTrieID_def example_tries_def
      example_object_def example_codec_def st_ok_def trie_holds_def value_or_nil_def intro!: exI [of _ Map.empty] sub.nil)

theorem intermediate_root_writes_mutations_witness:
  "codec_ok example_codec \<and> trie_holds (st_trie (main_trie example_tries)) (\<lambda>_. []) \<and>
   (\<forall>env. \<exists>h s' ts' t1 t2. IntermediateRoot example_codec (\<lambda>_. []) env False [] (\<lambda>_. [5]) [1, 2] [2, 1] example_state example_tries = Some (h, s', ts') \<and>
      GetAccount example_codec 1 (main_trie ts') = Some (Inr (Some (data (the (stateObjects s' 1)))), t1) \<and>
      GetAccount example_codec 2 (main_trie ts') = Some (Inr None, t2))"
proof (intro conjI allI)
  show "codec_ok example_codec"
    by (rule example_codec_ok)
  show holds: "trie_holds (st_trie (main_trie example_tries)) (\<lambda>_. [])"
    by (simp add: example_tries_def empty_trie_holds)
  fix env
  let ?s = "Finalise env False [] example_state"
  have s: "mutations ?s = mutations example_state" "stateObjects ?s = [1 \<mapsto> example_object]"
    by (simp_all add: Finalise_def clearJournalAndRefund_def example_state_def)
  have p: "pending ?s 1 update" "\<not> pending ?s 1 deletion" "pending ?s 2 deletion" "pending ?s a update \<Longrightarrow> a = 1" for a
    unfolding pending_def s by (simp_all add: example_state_def split: if_splits)
  have d: "distinct [1, 2 :: common_Address]" "distinct [2, 1 :: common_Address]"
    by simp_all
  have n: "set [1, 2] = dom (mutations ?s)" "set [2, 1] = dom (mutations ?s)" "objects_named ?s"
    unfolding s objects_named_def by (auto simp: example_state_def example_object_def)
  have r: "\<forall>a. pending ?s a update \<longrightarrow> (\<exists>ob. stateObjects ?s a = Some ob \<and> storage_ready example_codec ob example_tries)"
    using p(4) example_storage_ready s(2) by auto
  obtain h s' ts' where "IntermediateRoot example_codec (\<lambda>_. []) env False [] (\<lambda>_. [5]) [1, 2] [2, 1] example_state example_tries = Some (h, s', ts')"
    and got: "\<forall>a. \<exists>t. GetAccount example_codec a (main_trie ts') = Some
        (if pending ?s a deletion then Inr None
         else if pending ?s a update then Inr (Some (data (the (stateObjects s' a))))
         else read_account example_codec ((\<lambda>_. []) (account_key example_codec a)), t)"
    using intermediate_root_writes_mutations [OF example_codec_ok holds d n(1,2) refl n(3) r] by blast
  moreover obtain t1 t2 where "GetAccount example_codec 1 (main_trie ts') = Some (Inr (Some (data (the (stateObjects s' 1)))), t1)"
    "GetAccount example_codec 2 (main_trie ts') = Some (Inr None, t2)"
    using spec [OF got, of 1] spec [OF got, of 2] p(1-3) by auto
  ultimately show "\<exists>h s' ts' t1 t2. IntermediateRoot example_codec (\<lambda>_. []) env False [] (\<lambda>_. [5]) [1, 2] [2, 1] example_state example_tries = Some (h, s', ts') \<and>
      GetAccount example_codec 1 (main_trie ts') = Some (Inr (Some (data (the (stateObjects s' 1)))), t1) \<and>
      GetAccount example_codec 2 (main_trie ts') = Some (Inr None, t2)"
    by blast
qed

end
