(* ===== verification/CrossShard.thy ===== *)
theory CrossShard
  imports Pbft
begin

text \<open>
  The handlers of \<open>consensus_shard/pbft_all/pbft.go\<close> for contract calls, creations and queries that another
  shard sends, and for their answers. The interpreter of the EVM is a parameter: \<open>Run\<close> takes the
  contract, the input, the read-only flag, the header the block context is made of and the state, and
  gives the returned bytes, the error if any, and the state afterwards.

  All handlers work on the process-wide state: \<open>New\<close> makes it when there is none and leaves it in
  \<open>global3.GlobalStateDB\<close>; the handlers that end with \<open>close_state\<close> commit and drop it in that case, the
  others leave it there. Printing is left out; a message is a pair of the address dialled and the payload.
\<close>

section \<open>Data\<close>

record Contract =
  CallerAddress :: common_Address
  Self :: common_Address
  c_Value :: uint256
  c_Gas :: uint64
  c_Code :: bytes
  CodeHash :: common_Hash
  CodeAddr :: "common_Address option"
  IsDeployment :: bool
  c_UUID :: string

type_synonym interpreter = "Contract \<Rightarrow> bytes \<Rightarrow> bool \<Rightarrow> BlockHeader \<Rightarrow> StateDB \<Rightarrow> bytes \<times> string option \<times> StateDB"

record OpCreateReq =
  cq_Caller :: bytes
  cq_Addr :: common_Address
  cq_Code :: bytes
  cq_Value :: uint64
  cq_Gas :: uint64
  cq_FromShardId :: uint64
  cq_FromNodeId :: uint64
  cq_Id :: string
  cq_UUID :: string

record OpCreateRes =
  cr_Addr :: common_Address
  cr_Ret :: bytes
  cr_Err :: string
  cr_Id :: string
  cr_Journal :: "Wrapper list"

text \<open>Requests for a call; a static call has no value.\<close>

record OpCallReq =
  oq_Caller :: bytes
  oq_Addr :: common_Address
  oq_Value :: uint64
  oq_Gas :: uint64
  oq_Input :: bytes
  oq_FromShardId :: uint64
  oq_FromNodeId :: uint64
  oq_Id :: string
  oq_UUID :: string

record OpStaticCallReq =
  sq_Caller :: bytes
  sq_Addr :: common_Address
  sq_Gas :: uint64
  sq_Input :: bytes
  sq_FromShardId :: uint64
  sq_FromNodeId :: uint64
  sq_Id :: string
  sq_UUID :: string

record OpCallRes =
  or_Journal :: "Wrapper list"
  or_Ret :: bytes
  or_Err :: string
  or_Id :: string
  or_UUID :: string

record OpStaticCallRes =
  sr_Ret :: bytes
  sr_Err :: string
  sr_Id :: string
  sr_UUID :: string

text \<open>A request for the code or the balance of an account, and the answers.\<close>

record OpAddressReq =
  aq_Address :: string
  aq_FromShardId :: uint64
  aq_FromNodeId :: uint64

record OpCodeRes =
  kr_Address :: string
  kr_CodeHash :: common_Hash
  kr_Code :: bytes

record OpBalanceRes =
  br_Address :: string
  br_Balance :: uint64

record AccountRes =
  ar_Account :: string
  ar_Balance :: uint64
  ar_Code :: bytes

datatype cross_msg =
    COpCreateRes OpCreateRes
  | COpCallRes OpCallRes
  | COpStaticCallRes OpStaticCallRes
  | COpDelegateCallRes OpCodeRes
  | COpCallCodeRes OpCodeRes
  | COpbalanceRes OpBalanceRes
  | COpExeLogOrRollback ExeLogOrRollback
  | CResponseAccount AccountRes
  | CResponseNodeAccount uint64 string
  | CQueryContractResultRes bool string bytes

type_synonym cross_out = "(string \<times> cross_msg) list"

text \<open>The tables in which the answers wait for the EVM, from \<open>vm/state/A.go\<close> and \<open>global/global.go\<close>. The
  entries of \<open>OpCallResMap\<close> have a gas field that the answers do not carry.\<close>

record StateOpCallRes =
  st_Journal :: "Wrapper list"
  st_Ret :: bytes
  st_Err :: string
  st_Gas :: uint64

record ResMaps =
  OpCreateResMap :: "string \<rightharpoonup> OpCreateRes"
  OpCallResMap :: "string \<rightharpoonup> StateOpCallRes"
  OpStaticCallResMap :: "string \<rightharpoonup> bytes \<times> string"
  OpDelegatecallResMap :: "string \<rightharpoonup> common_Hash \<times> bytes"
  OpCallCodeResMap :: "string \<rightharpoonup> common_Hash \<times> bytes"
  OpBalanceResMap :: "string \<rightharpoonup> uint64"
  NodeAccountMap :: "uint64 \<rightharpoonup> string"

section \<open>The process-wide state\<close>

definition keep_state :: "StateDB \<Rightarrow> Globals \<Rightarrow> Globals" where
  "keep_state s g = g\<lparr> g_vm := (g_vm g)\<lparr> GlobalStateDB := Some s \<rparr> \<rparr>"

definition close_state :: "'db ChainEnv \<Rightarrow> string \<Rightarrow> StateDB \<Rightarrow> Globals \<Rightarrow> Globals" where
  "close_state ce sn s g =
     (if sn = ''new'' then g\<lparr> g_vm := \<lparr> GlobalStateDB = None, GRoot = CommitRoot ce s \<rparr> \<rparr> else keep_state s g)"

definition state_env :: "'db ChainEnv \<Rightarrow> Globals \<Rightarrow> StateEnv" where
  "state_env ce g = senv ce (GRoot (g_vm g))"

definition rollbacks :: "(string \<times> ExeLogOrRollback) list \<Rightarrow> cross_out" where
  "rollbacks = map (\<lambda>(node, m). (node, COpExeLogOrRollback m))"

text \<open>The other nodes of the shard get the log of a successful call.\<close>

definition share_log :: "'db PbftConsensusNode \<Rightarrow> Wrapper list \<Rightarrow> cross_out" where
  "share_log p w1 = map (\<lambda>i. (node_ip p (p_ShardID p) (of_nat i), COpExeLogOrRollback \<lparr> ELog = w1, Rollback = False \<rparr>))
     [1..<length (ip_nodeTable p (p_ShardID p))]"

definition NewContract :: "common_Address \<Rightarrow> common_Address \<Rightarrow> uint256 \<Rightarrow> uint64 \<Rightarrow> Contract" where
  "NewContract caller object value gas = \<lparr> CallerAddress = caller, Self = object, c_Value = value, c_Gas = gas,
     c_Code = [], CodeHash = 0, CodeAddr = None, IsDeployment = False, c_UUID = [] \<rparr>"

definition SetCallCode :: "common_Address option \<Rightarrow> common_Hash \<Rightarrow> bytes \<Rightarrow> Contract \<Rightarrow> Contract" where
  "SetCallCode addr hash c k = k\<lparr> c_Code := c, CodeHash := hash, CodeAddr := addr \<rparr>"

definition InitNewContract :: "interpreter \<Rightarrow> StateEnv \<Rightarrow> BlockHeader \<Rightarrow> Contract \<Rightarrow> common_Address \<Rightarrow> StateDB
     \<Rightarrow> bytes \<times> string option \<times> StateDB" where
  "InitNewContract Run env bh k a s = (case Run k [] False bh s of
       (ret, Some e, s1) \<Rightarrow> (ret, Some e, s1)
     | (ret, None, s1) \<Rightarrow> (ret, None, SetCode env a ret s1))"

section \<open>Creations\<close>

text \<open>The three reads that decide whether the address is taken.\<close>

definition address_taken :: "StateEnv \<Rightarrow> common_Address \<Rightarrow> StateDB \<Rightarrow> bool \<times> StateDB" where
  "address_taken env a s =
     (let (contractHash, s1) = GetCodeHash env a s;
          (storageRoot, s2) = GetStorageRoot env a s1;
          (nonce, s3) = GetNonce env a s2
      in (nonce \<noteq> 0 \<or> (contractHash \<noteq> 0 \<and> contractHash \<noteq> EmptyCodeHash env) \<or>
          (storageRoot \<noteq> 0 \<and> storageRoot \<noteq> EmptyRootHash env), s3))"

definition handleOpCreateReq ::
  "interpreter \<Rightarrow> 'db ChainEnv \<Rightarrow> OpCreateReq \<Rightarrow> 'db pbft_state \<Rightarrow> (cross_out \<times> Globals) panics" where
  "handleOpCreateReq Run ce m = (\<lambda>(g, p). do {
     let env = state_env ce g;
     let bh = Header (CurrentBlock (CurChain p));
     let back = node_ip p (cq_FromShardId m) (cq_FromNodeId m);
     let (s, sn) = New (GlobalStateDB (g_vm g));
     let (taken, s1) = address_taken env (cq_Addr m) s;
     if taken
     then Some ([(back, COpCreateRes \<lparr> cr_Addr = 0, cr_Ret = [], cr_Err = ''contract address collision'',
                    cr_Id = cq_Id m, cr_Journal = [] \<rparr>)], keep_state s1 g)
     else do {
       let (snapshot, s2) = Snapshot s1;
       let (ex, s3) = Exist env (cq_Addr m) s2;
       let s4 = (if ex then s3 else CreateAccount env (cq_Addr m) s3);
       s5 \<leftarrow> CreateContract env (cq_Addr m) s4;
       let s6 = AddBalance env (cq_Addr m) (ucast (cq_Value m)) s5;
       caller \<leftarrow> Address_of_slice (cq_Caller m);
       let k = (NewContract caller (cq_Addr m) (ucast (cq_Value m)) (cq_Gas m))
                 \<lparr> c_Gas := 100000000, c_UUID := cq_UUID m, c_Code := cq_Code m, CodeAddr := Some (cq_Addr m), IsDeployment := True \<rparr>;
       (case InitNewContract Run env bh k (cq_Addr m) s6 of
          (ret, Some e, s7) \<Rightarrow> do {
            (ms, s8) \<leftarrow> RevertToSnapshot env snapshot s7;
            Some (rollbacks ms @ [(back, COpCreateRes \<lparr> cr_Addr = 0, cr_Ret = ret, cr_Err = e, cr_Id = cq_Id m, cr_Journal = [] \<rparr>)],
                  keep_state s8 g) }
        | (ret, None, s7) \<Rightarrow> do {
            w1 \<leftarrow> journal_log snapshot (jrnl s7);
            Some (share_log p w1 @ [(back, COpCreateRes \<lparr> cr_Addr = 0, cr_Ret = ret, cr_Err = [], cr_Id = cq_Id m,
                    cr_Journal = map wrap (Entries (jrnl s7)) \<rparr>)], close_state ce sn s7 g) }) } })"

definition handleOpCreateRes :: "OpCreateRes \<Rightarrow> ResMaps \<Rightarrow> ResMaps" where
  "handleOpCreateRes m rm = rm\<lparr> OpCreateResMap := (OpCreateResMap rm)(cr_Id m \<mapsto> m) \<rparr>"

section \<open>Calls\<close>

text \<open>The common part of the two call handlers: snapshot, read the code, credit the value (a static call
  credits nothing), run.\<close>

definition run_call ::
  "interpreter \<Rightarrow> StateEnv \<Rightarrow> BlockHeader \<Rightarrow> bytes \<Rightarrow> common_Address \<Rightarrow> uint64 option \<Rightarrow> uint64 \<Rightarrow> bytes \<Rightarrow> string \<Rightarrow> StateDB
     \<Rightarrow> (nat \<times> bytes \<times> string option \<times> StateDB) panics" where
  "run_call Run env bh callerBytes a value gas inp uuid s = do {
     let (snapshot, s1) = Snapshot s;
     let (c, s2) = GetCode env a s1;
     let s3 = (case value of None \<Rightarrow> s2 | Some v \<Rightarrow> AddBalance env a (ucast v) s2);
     caller \<leftarrow> Address_of_slice callerBytes;
     let (h, s4) = GetCodeHash env a s3;
     let k = SetCallCode (Some a) h c
        ((NewContract caller a (case value of None \<Rightarrow> 0 | Some v \<Rightarrow> ucast v) gas)\<lparr> c_UUID := uuid, c_Gas := 100000000 \<rparr>);
     let (ret, err, s5) = Run k inp (value = None) bh s4;
     Some (snapshot, ret, err, s5) }"

definition handleOpStaticCallReq ::
  "interpreter \<Rightarrow> 'db ChainEnv \<Rightarrow> OpStaticCallReq \<Rightarrow> 'db pbft_state \<Rightarrow> (cross_out \<times> Globals) panics" where
  "handleOpStaticCallReq Run ce m = (\<lambda>(g, p). do {
     let env = state_env ce g;
     let back = node_ip p (sq_FromShardId m) (sq_FromNodeId m);
     let (s, sn) = New (GlobalStateDB (g_vm g));
     (snapshot, ret, err, s1) \<leftarrow>
       run_call Run env (Header (CurrentBlock (CurChain p))) (sq_Caller m) (sq_Addr m) None (sq_Gas m) (sq_Input m) (sq_UUID m) s;
     (ms, s2) \<leftarrow> (case err of None \<Rightarrow> Some ([], s1) | Some e \<Rightarrow> RevertToSnapshot env snapshot s1);
     Some (rollbacks ms @ [(back, COpStaticCallRes \<lparr> sr_Ret = ret, sr_Err = (case err of None \<Rightarrow> [] | Some e \<Rightarrow> e),
             sr_Id = sq_Id m, sr_UUID = sq_UUID m \<rparr>)], close_state ce sn s2 g) })"

text \<open>\<open>handleOpCallReq\<close> first takes the lock of the account it calls, spinning while it is held; when
  nobody releases it the handler does not return, which is \<open>None\<close> here as for a panic.\<close>

definition handleOpCallReq ::
  "interpreter \<Rightarrow> 'db ChainEnv \<Rightarrow> OpCallReq \<Rightarrow> 'db pbft_state \<Rightarrow> (cross_out \<times> Globals) panics" where
  "handleOpCallReq Run ce m = (\<lambda>(g, p). do {
     let Str = hex_EncodeToString (address_bytes (oq_Addr m));
     guard_panic (Str \<notin> GlobalLockMap g);
     let env = state_env ce g;
     let back = node_ip p (oq_FromShardId m) (oq_FromNodeId m);
     let (s, sn) = New (GlobalStateDB (g_vm g));
     (snapshot, ret, err, s1) \<leftarrow>
       run_call Run env (Header (CurrentBlock (CurChain p))) (oq_Caller m) (oq_Addr m) (Some (oq_Value m)) (oq_Gas m) (oq_Input m) (oq_UUID m) s;
     (ms, s2, jr) \<leftarrow> (case err of
         Some e \<Rightarrow> do { (ms, s2) \<leftarrow> RevertToSnapshot env snapshot s1; Some (rollbacks ms, s2, []) }
       | None \<Rightarrow> do { w1 \<leftarrow> journal_log snapshot (jrnl s1); Some (share_log p w1, s1, map wrap (Entries (jrnl s1))) });
     Some (ms @ [(back, COpCallRes \<lparr> or_Journal = jr, or_Ret = ret, or_Err = (case err of None \<Rightarrow> [] | Some e \<Rightarrow> e),
             or_Id = oq_Id m, or_UUID = oq_UUID m \<rparr>)], close_state ce sn s2 g) })"

definition handleOpCallRes :: "OpCallRes \<Rightarrow> ResMaps \<Rightarrow> ResMaps" where
  "handleOpCallRes m rm = rm\<lparr> OpCallResMap := (OpCallResMap rm)(or_Id m \<mapsto>
     \<lparr> st_Journal = or_Journal m, st_Ret = or_Ret m, st_Err = or_Err m, st_Gas = 0 \<rparr>) \<rparr>"

definition handleOpStaticCallRes :: "OpStaticCallRes \<Rightarrow> ResMaps \<Rightarrow> ResMaps" where
  "handleOpStaticCallRes m rm = rm\<lparr> OpStaticCallResMap := (OpStaticCallResMap rm)(sr_Id m \<mapsto> (sr_Ret m, sr_Err m)) \<rparr>"

section \<open>Queries\<close>

text \<open>The code of an account, for the two requests that ask for it.\<close>

definition code_answer :: "'db ChainEnv \<Rightarrow> string \<Rightarrow> Globals \<Rightarrow> (OpCodeRes \<times> Globals) panics" where
  "code_answer ce addr g = do {
     let env = state_env ce g;
     let (s, sn) = New (GlobalStateDB (g_vm g));
     a \<leftarrow> Address_of_slice (hex_DecodeString addr);
     let (h, s1) = GetCodeHash env a s;
     let (c, s2) = GetCode env a s1;
     Some (\<lparr> kr_Address = addr, kr_CodeHash = h, kr_Code = c \<rparr>, keep_state s2 g) }"

definition handleOpDelegateCallReq :: "'db ChainEnv \<Rightarrow> OpAddressReq \<Rightarrow> 'db pbft_state \<Rightarrow> (cross_out \<times> Globals) panics" where
  "handleOpDelegateCallReq ce m = (\<lambda>(g, p). do {
     (r, g1) \<leftarrow> code_answer ce (aq_Address m) g;
     Some ([(node_ip p (aq_FromShardId m) (aq_FromNodeId m), COpDelegateCallRes r)], g1) })"

definition handleOpCallCodeReq :: "'db ChainEnv \<Rightarrow> OpAddressReq \<Rightarrow> 'db pbft_state \<Rightarrow> (cross_out \<times> Globals) panics" where
  "handleOpCallCodeReq ce m = (\<lambda>(g, p). do {
     (r, g1) \<leftarrow> code_answer ce (aq_Address m) g;
     Some ([(node_ip p (aq_FromShardId m) (aq_FromNodeId m), COpCallCodeRes r)], g1) })"

definition handleOpDelegateCallRes :: "OpCodeRes \<Rightarrow> ResMaps \<Rightarrow> ResMaps" where
  "handleOpDelegateCallRes m rm = rm\<lparr> OpDelegatecallResMap := (OpDelegatecallResMap rm)(kr_Address m \<mapsto> (kr_CodeHash m, kr_Code m)) \<rparr>"

definition handleOpCallCodeRes :: "OpCodeRes \<Rightarrow> ResMaps \<Rightarrow> ResMaps" where
  "handleOpCallCodeRes m rm = rm\<lparr> OpCallCodeResMap := (OpCallCodeResMap rm)(kr_Address m \<mapsto> (kr_CodeHash m, kr_Code m)) \<rparr>"

definition handleOpbanlanceReq :: "'db ChainEnv \<Rightarrow> OpAddressReq \<Rightarrow> 'db pbft_state \<Rightarrow> (cross_out \<times> Globals) panics" where
  "handleOpbanlanceReq ce m = (\<lambda>(g, p). do {
     let env = state_env ce g;
     let (s, sn) = New (GlobalStateDB (g_vm g));
     a \<leftarrow> Address_of_slice (hex_DecodeString (aq_Address m));
     let (ex, s1) = Exist env a s;
     let s2 = (if ex then s1 else CreateAccount env a s1);
     let (b, s3) = GetBalance env a s2;
     Some ([(node_ip p (aq_FromShardId m) (aq_FromNodeId m), COpbalanceRes \<lparr> br_Address = aq_Address m, br_Balance = ucast b \<rparr>)],
           keep_state s3 g) })"

definition handleOpbanlanceRes :: "OpBalanceRes \<Rightarrow> ResMaps \<Rightarrow> ResMaps" where
  "handleOpbanlanceRes m rm = rm\<lparr> OpBalanceResMap := (OpBalanceResMap rm)(br_Address m \<mapsto> br_Balance m) \<rparr>"

text \<open>An account query reads a state of its own at the current root.\<close>

definition handleQueryAcc :: "'db ChainEnv \<Rightarrow> OpAddressReq \<Rightarrow> 'db pbft_state \<Rightarrow> cross_out panics" where
  "handleQueryAcc ce m = (\<lambda>(g, p). do {
     let env = state_env ce g;
     a \<leftarrow> Address_of_slice (hex_DecodeString (aq_Address m));
     let (b, s1) = GetBalance env a New2;
     let (c, s2) = GetCode env a s1;
     Some [(node_ip p (aq_FromShardId m) (aq_FromNodeId m), CResponseAccount \<lparr> ar_Account = aq_Address m, ar_Balance = ucast b, ar_Code = c \<rparr>)] })"

definition handleQueryNodeAcc :: "uint64 \<Rightarrow> 'db pbft_state \<Rightarrow> cross_out" where
  "handleQueryNodeAcc FromNodeID = (\<lambda>(g, p). [(node_ip p (p_ShardID p) FromNodeID, CResponseNodeAccount (p_NodeID p) (NodeAccount g))])"

definition handleResponseNodeAcc :: "uint64 \<Rightarrow> string \<Rightarrow> ResMaps \<Rightarrow> ResMaps" where
  "handleResponseNodeAcc NodeId Account rm = rm\<lparr> NodeAccountMap := (NodeAccountMap rm)(NodeId \<mapsto> Account) \<rparr>"

text \<open>The query for a contract result polls the database until it finds one or ten seconds have passed;
  \<open>dbs\<close> are the contents of the database at the polls.\<close>

fun poll_result :: "'db bolt \<Rightarrow> string \<Rightarrow> 'db list \<Rightarrow> string + bytes \<Rightarrow> string + bytes" where
  "poll_result bo uuid [] r = r"
| "poll_result bo uuid (db # dbs) r = (case GetContractRes bo uuid db of
       Inr b \<Rightarrow> Inr b
     | Inl e \<Rightarrow> poll_result bo uuid dbs (Inl e))"

definition handleQueryContractResultReq ::
  "'db bolt \<Rightarrow> 'db list \<Rightarrow> string \<Rightarrow> uint64 \<Rightarrow> uint64 \<Rightarrow> 'db PbftConsensusNode \<Rightarrow> cross_out" where
  "handleQueryContractResultReq bo dbs uuid FromShardID FromNodeID p =
     [(node_ip p FromShardID FromNodeID, case poll_result bo uuid dbs (Inr []) of
         Inl e \<Rightarrow> CQueryContractResultRes False uuid []
       | Inr r \<Rightarrow> CQueryContractResultRes True uuid r)]"

end
