(* ===== verification/Remote.thy ===== *)
theory Remote
  imports CrossShard
begin

text \<open>
  What the cross-shard handlers of \<open>CrossShard\<close> guarantee: a failed remote call leaves the state it found,
  whatever journalled operations the interpreter performed; and what a query does to the next block.
\<close>

section \<open>Reads are silent\<close>

lemma undone_getStateObject: "objects_ok s \<Longrightarrow> undone env s (snd (getStateObject env a s))"
  using getStateObject_live [where env = env and a = a and s = s, OF prod.collapse [symmetric]] undone_silent by metis

lemma undone_GetCodeHash: "objects_ok s \<Longrightarrow> undone env s (snd (GetCodeHash env a s))"
  using undone_getStateObject [of s env a] by (simp add: GetCodeHash_def split_beta Let_def)

lemma undone_GetCode:
  assumes ok: "objects_ok s"
  shows "undone env s (snd (GetCode env a s))"
proof -
  obtain r s1 where g: "getStateObject env a s = (r, s1)"
    by (cases "getStateObject env a s")
  note facts = getStateObject_live [OF g]
  have 1: "undone env s s1"
    using undone_getStateObject [OF ok, of env a] g by simp
  show ?thesis
  proof (cases r)
    case (Some ob)
    have ob: "stateObjects s1 (address ob) = Some ob"
      using getStateObject_address [OF _ ok] g Some facts(6) by auto
    obtain c e where c: "ContractCode env (address ob) (SCodeHash (data ob)) = (c, e)"
      by (cases "ContractCode env (address ob) (SCodeHash (data ob))")
    show ?thesis
    proof (cases "code ob \<noteq> [] \<or> SCodeHash (data ob) = EmptyCodeHash env")
      case True
      then show ?thesis using 1 g Some by (auto simp: GetCode_def Code_obj_def)
    next
      case False
      have "committed env d (ob\<lparr> code := c' \<rparr>) = committed env d ob" for d c'
        by (rule committed_cong) simp_all
      then have "undone env s1 (setStateObject (ob\<lparr> code := c \<rparr>) (setError e s1))"
        using ob facts(5) [OF ok] False c
        by (intro undone_put_same [where ob = ob]) (simp_all add: oview_def code_view_def slot_value_def fun_eq_iff split: option.split)
      then show ?thesis
        using 1 undone_trans g Some c False by (auto simp: GetCode_def Code_obj_def)
    qed
  qed (use 1 g in \<open>simp add: GetCode_def\<close>)
qed

lemma small_balance_view: "view env s' = view env s \<Longrightarrow> small_balance env s' a = small_balance env s a"
proof -
  assume "view env s' = view env s"
  then have "v_obj (view env s') a = v_obj (view env s) a" "v_dead (view env s') = v_dead (view env s)"
    by simp_all
  then show ?thesis
    unfolding view_obj_live small_balance_def
    by (cases "live env s a"; cases "live env s' a") (auto simp: oview_def)
qed

section \<open>A failed call\<close>

text \<open>What is relied on of the interpreter: it changes the state only by the operations of the state
  database and by nested call frames that it keeps or reverts, under the conditions of those
  operations.\<close>

definition runs_on_journal :: "interpreter \<Rightarrow> StateEnv \<Rightarrow> bool" where
  "runs_on_journal Run env \<longleftrightarrow> (\<forall>k inp ro bh s. objects_ok s \<longrightarrow> revisions_ok (jrnl s) \<longrightarrow>
     (\<exists>cs. cmds_ok env cs s \<and> execs env cs s = Some (snd (snd (Run k inp ro bh s)))))"

lemma runs_on_journal_extends:
  assumes "runs_on_journal Run env" "objects_ok s" "revisions_ok (jrnl s)" "Run k inp ro bh s = (ret, err, s')"
  shows "extends env s s'"
proof -
  obtain cs where "cmds_ok env cs s" "execs env cs s = Some s'"
    using assms unfolding runs_on_journal_def by (metis snd_conv)
  then show ?thesis
    using exec_extends(2) [OF assms(2,3) \<open>cmds_ok env cs s\<close>] by simp
qed

lemma undone_keeps: "undone env s s' \<Longrightarrow> objects_ok s' \<and> (revisions_ok (jrnl s) \<longrightarrow> revisions_ok (jrnl s'))"
  using extends_undone by (auto simp: undone_def extends_def)

lemma run_call_extends:
  assumes R: "runs_on_journal Run env" and ok: "objects_ok s" "revisions_ok (jrnl s)"
    and small: "case vo of None \<Rightarrow> True | Some v \<Rightarrow> small_balance env (snd (GetCode env a (snd (Snapshot s)))) a"
    and caller: "Address_of_slice cb = Some caller"
  shows "\<exists>rid s1 ret err s2. Snapshot s = (rid, s1) \<and> run_call Run env bh cb a vo gas inp uuid s = Some (rid, ret, err, s2) \<and> extends env s1 s2"
proof -
  obtain rid s1 where sn: "Snapshot s = (rid, s1)"
    by (cases "Snapshot s")
  note sf = Snapshot_facts [OF sn]
  note ok1 = sf(5) [OF ok(1)] sf(6) [OF ok(2)]
  define s2 where "s2 = snd (GetCode env a s1)"
  define s3 where "s3 = (case vo of None \<Rightarrow> s2 | Some v \<Rightarrow> AddBalance env a (ucast v) s2)"
  define s4 where "s4 = snd (GetCodeHash env a s3)"
  have e2: "extends env s1 s2" and ok2: "objects_ok s2" "revisions_ok (jrnl s2)"
    using undone_GetCode [OF ok1(1), of env a] ok1(2) undone_keeps extends_undone unfolding s2_def by blast+
  have e3: "extends env s2 s3"
  proof (cases vo)
    case None
    then show ?thesis
      unfolding s3_def using extends_undone [OF undone_silent [OF ok2(1) refl refl] ok2(2)] by simp
  next
    case (Some v)
    then have "op_ok env (OpAddBalance a (ucast v)) s2"
      using small unfolding s2_def by (simp add: sn)
    from apply_op_undone [OF ok2(1) this] show ?thesis
      unfolding s3_def using extends_undone ok2(2) Some by auto
  qed
  then have ok3: "objects_ok s3" "revisions_ok (jrnl s3)"
    by (simp_all add: extends_def)
  have e4: "extends env s3 s4" and ok4: "objects_ok s4" "revisions_ok (jrnl s4)"
    using undone_GetCodeHash [OF ok3(1), of env a] ok3(2) undone_keeps extends_undone unfolding s4_def by blast+
  define k where "k = SetCallCode (Some a) (fst (GetCodeHash env a s3)) (fst (GetCode env a s1))
        ((NewContract caller a (case vo of None \<Rightarrow> 0 | Some v \<Rightarrow> ucast v) gas)\<lparr> c_UUID := uuid, c_Gas := 100000000 \<rparr>)"
  obtain ret err s5 where r: "Run k inp (vo = None) bh s4 = (ret, err, s5)"
    by (cases "Run k inp (vo = None) bh s4")
  have "extends env s4 s5"
    by (rule runs_on_journal_extends [OF R ok4 r])
  then have "extends env s1 s5"
    using e2 e3 e4 extends_trans by blast
  moreover have "run_call Run env bh cb a vo gas inp uuid s = Some (rid, ret, err, s5)"
    using r unfolding k_def s4_def s3_def s2_def
    by (cases vo) (simp_all add: run_call_def sn caller split_beta Let_def)
  ultimately show ?thesis
    using sn by blast
qed


definition failing_run :: interpreter where
  "failing_run k inp ro bh s = ([9], Some ''execution reverted'', SetNonce example_env 5 1 s)"

definition example_call :: OpCallReq where
  "example_call = \<lparr> oq_Caller = replicate 20 1, oq_Addr = 5, oq_Value = 77, oq_Gas = 9, oq_Input = [], oq_FromShardId = 1, oq_FromNodeId = 0,
     oq_Id = ''id'', oq_UUID = ''u'' \<rparr>"

definition example_pnode :: "(string \<times> bytes \<rightharpoonup> bytes) PbftConsensusNode" where
  "example_pnode = NewPbftNode 0 0 4 2 (\<lambda>s. [(0, ''a''), (1, ''b'')]) example_bc"


section \<open>A query and the next block\<close>

lemma exe_txs_root:
  "exe_txs ce env bh i txs (gp, g, bc, s) = Some (txs1, out, g1, bc1, s1) \<Longrightarrow> g_vm g1 = g_vm g"
proof (induction txs arbitrary: i gp g bc s txs1 out)
  case (Cons tx txs)
  then obtain tx1 o1 gp2 g2 bc2 s2 t2 o2 where l: "locked_tx ce env bh i tx (gp, g, bc, s) = Some (tx1, o1, gp2, g2, bc2, s2)"
    and r: "exe_txs ce env bh (i + 1) txs (gp2, g2, bc2, s2) = Some (t2, o2, g1, bc1, s1)"
    by (auto simp: bind_eq_Some_iff split_beta)
  have "g_vm g2 = g_vm g"
    using l by (auto simp: locked_tx_def bind_eq_Some_iff Let_def split_beta split: if_splits)
  then show ?case
    using Cons.IH [OF r] by simp
qed simp

lemma GenerateBlock_old:
  assumes "GlobalStateDB (g_vm g) = Some s" "GenerateBlock ce g bc = Some (b, out, g1, bc1)"
  shows "GRoot (g_vm g1) = GRoot (g_vm g)" "Root (Header b) = GRoot (g_vm g)" "GlobalStateDB (g_vm g1) = None"
  using assms
  by (auto simp: GenerateBlock_def GetUpdateStatusTrie_def New_def bind_eq_Some_iff Let_def NewBlock_def split_beta dest!: exe_txs_root)

text \<open>a balance query from another shard makes the node lose its next block's effect. The query
  leaves the state it opened as the process-wide one; the node that then produces a block executes it on
  that state, does not commit it because it did not open it, and drops it: the root of the node and
  the root in the block's header are the root before the query, whatever the block's transactions did,
  and no state is shared any more.\<close>
theorem query_discards_next_block:
  assumes idle: "GlobalStateDB (g_vm g) = None" and query: "handleOpbanlanceReq ce m (g, p) = Some (ms, g1)"
    and block: "GenerateBlock ce g1 bc = Some (b, out, g2, bc2)"
  shows "GRoot (g_vm g2) = GRoot (g_vm g) \<and> Root (Header b) = GRoot (g_vm g) \<and> GlobalStateDB (g_vm g2) = None"
proof -
  obtain s where "GlobalStateDB (g_vm g1) = Some s" "GRoot (g_vm g1) = GRoot (g_vm g)"
    using query by (auto simp: handleOpbanlanceReq_def keep_state_def bind_eq_Some_iff Let_def split_beta)
  with GenerateBlock_old [OF this(1) block] show ?thesis
    by simp
qed

theorem query_discards_next_block_witness:
  "\<exists>ms g1 b out g2 bc2. handleOpbanlanceReq example_ce \<lparr> aq_Address = replicate 40 (CHR ''2''), aq_FromShardId = 1, aq_FromNodeId = 0 \<rparr>
      (example_globals, example_pnode) = Some (ms, g1) \<and>
     GenerateBlock example_ce g1 example_bc = Some (b, out, g2, bc2) \<and> Root (Header b) = 0 \<and> CommitRoot example_ce New2 \<noteq> 0"
proof -
  let ?m = "\<lparr> aq_Address = replicate 40 (CHR ''2''), aq_FromShardId = 1, aq_FromNodeId = 0 \<rparr>"
  have idle: "GlobalStateDB (g_vm example_globals) = None"
    by (simp add: example_globals_def)
  obtain x where "Address_of_slice (hex_DecodeString (aq_Address ?m)) = Some x"
    using good_address_of [OF example_addresses(1)] by (auto simp: address_of_def)
  then obtain ms g1 where q: "handleOpbanlanceReq example_ce ?m (example_globals, example_pnode) = Some (ms, g1)"
    by (cases "New (GlobalStateDB (g_vm example_globals))") (auto simp: handleOpbanlanceReq_def Let_def split_beta)
  have na: "NodeAccount g1 = NodeAccount example_globals"
    using q by (auto simp: handleOpbanlanceReq_def keep_state_def bind_eq_Some_iff Let_def split_beta)
  have "good_address (NodeAccount example_globals)"
    by (simp add: good_address_def list_all_iff isValidHexChar_def example_globals_def)
  then obtain y where "Address_of_slice (hex_DecodeString (NodeAccount g1)) = Some y"
    using good_address_of unfolding address_of_def na by blast
  then obtain b out g2 bc2 where gb: "GenerateBlock example_ce g1 example_bc = Some (b, out, g2, bc2)"
    by (cases "New (GlobalStateDB (g_vm g1))")
      (auto simp: GenerateBlock_def GetUpdateStatusTrie_def example_bc_def PackTxs_def NewTxPool_def Let_def)
  have "Root (Header b) = 0"
    using query_discards_next_block [OF idle q gb] by (simp add: example_globals_def)
  then show ?thesis
    using q gb by (auto simp: example_ce_def)
qed

end
