(* ===== verification/Evm.thy ===== *)
theory Evm
  imports Remote
begin

text \<open>
  Message calls and contract creations: \<open>vm/evm.go\<close>, and the execution of a contract transaction,
  \<open>vm/state_transition.go\<close>. The interpreter loop and the precompiled contracts are parameters: they take
  and return gas; the error value is compared with the sentinel \<open>ErrExecutionReverted\<close> by identity, which
  an error text received from another shard never is.

  A call to an account of another shard sends a request to node 0 of that shard and waits for the
  answer; \<open>rm\<close> is the contents of the answer tables when the wait ends, found or timed out, and \<open>u\<close> the
  fresh identifier of the request. Tracers and witnesses are nil in this program and are left out.
\<close>

section \<open>Data\<close>

datatype vm_error =
    ErrDepth | ErrInsufficientBalance | ErrContractAddressCollision | ErrExecutionReverted | ErrNonceUintOverflow
  | ErrWriteProtection | ErrReturnDataOutOfBounds | ErrInvalidJump | ErrGasUintOverflow | ErrOutOfGas | ErrCodeStoreOutOfGas
  | ErrMaxInitCodeSizeExceeded uint64 | ErrStackUnderflow nat nat | ErrStackOverflow nat nat | ErrInvalidOpCode byte | errStopToken
  | OtherErr string

record EvmEnv =
  ev_state :: StateEnv
  ev_run :: "Contract \<Rightarrow> bytes \<Rightarrow> bool \<Rightarrow> StateDB \<Rightarrow> bytes \<times> vm_error option \<times> uint64 \<times> StateDB"
  ev_precompiles :: "common_Address \<Rightarrow> (bytes \<Rightarrow> uint64 \<Rightarrow> bytes \<times> uint64 \<times> vm_error option) option"
  ev_depth :: int
  ev_ShardNum :: nat
  ev_ShardID :: uint64
  ev_NodeID :: uint64
  ev_View :: uint64
  ev_ip :: "uint64 \<Rightarrow> string"
  CreateAddress :: "common_Address \<Rightarrow> uint64 \<Rightarrow> common_Address"
  CreateAddress2 :: "common_Address \<Rightarrow> uint256 \<Rightarrow> common_Hash \<Rightarrow> common_Address"
  ev_Coinbase :: common_Address
  ev_txhash :: "Transaction \<Rightarrow> bytes"

datatype evm_msg =
    COpCallReq OpCallReq
  | COpStaticCallReq OpStaticCallReq
  | COpCreateReq OpCreateReq
  | COpCallCodeReq OpAddressReq
  | COpDelegateCallReq OpAddressReq
  | COpbalanceReq OpAddressReq
  | CRollback ExeLogOrRollback
  | CInjectFee InjectTxs

type_synonym evm_out = "(string \<times> evm_msg) list"

text \<open>What a call gives: messages sent, the tables, the returned bytes, the gas left, the error, the state.\<close>

type_synonym call_result = "evm_out \<times> ResMaps \<times> bytes \<times> uint64 \<times> vm_error option \<times> StateDB"

definition CallCreateDepth :: int where "CallCreateDepth = 1024"

text \<open>The EVM's placement ignores the partition map: its body returns before it is read.\<close>

definition vm_Get_PartitionMap :: "nat \<Rightarrow> Address \<Rightarrow> uint64 panics" where
  "vm_Get_PartitionMap ShardNum key = do { n \<leftarrow> Addr2Shard ShardNum key; Some (of_nat n) }"

definition home_shard :: "EvmEnv \<Rightarrow> common_Address \<Rightarrow> uint64 panics" where
  "home_shard ev a = vm_Get_PartitionMap (ev_ShardNum ev) (hex_EncodeToString (address_bytes a))"

section \<open>Parts of a call\<close>

text \<open>Transfers: within the shard both sides move; towards another shard only the sender is debited, the
  other shard credits the value when it handles the request.\<close>

definition Transfer1 :: "StateEnv \<Rightarrow> common_Address \<Rightarrow> uint256 \<Rightarrow> StateDB \<Rightarrow> StateDB" where
  "Transfer1 env sender amount s = SubBalance env sender amount s"

definition move_value :: "StateEnv \<Rightarrow> bool \<Rightarrow> common_Address \<Rightarrow> common_Address \<Rightarrow> uint256 \<Rightarrow> StateDB \<Rightarrow> StateDB" where
  "move_value env remote caller addr val s =
     (if remote then Transfer1 env caller val s
      else let (ex, s1) = Exist env addr s;
               s2 = (if ex then s1 else CreateAccount env addr s1)
           in Transfer env caller addr val s2)"

text \<open>The end of every frame: an error reverts to the snapshot and consumes the gas, except the sentinel.\<close>

definition end_frame :: "StateEnv \<Rightarrow> nat \<Rightarrow> uint64 \<Rightarrow> vm_error option \<Rightarrow> StateDB \<Rightarrow> (evm_out \<times> uint64 \<times> StateDB) panics" where
  "end_frame env snap gas err s = (case err of
       None \<Rightarrow> Some ([], gas, s)
     | Some e \<Rightarrow> do {
         (ms, s1) \<leftarrow> RevertToSnapshot env snap s;
         Some (map (\<lambda>(node, m). (node, CRollback m)) ms, if e = ErrExecutionReverted then gas else 0, s1) })"

text \<open>The journal of an answer is appended to the entries as it is.\<close>

definition append_remote :: "Wrapper list \<Rightarrow> StateDB \<Rightarrow> StateDB" where
  "append_remote ws s = s\<lparr> jrnl := (jrnl s)\<lparr> Entries := Entries (jrnl s) @ map OriginalObj ws \<rparr> \<rparr>"

definition wait_call :: "string \<Rightarrow> ResMaps \<Rightarrow> StateOpCallRes \<times> ResMaps" where
  "wait_call u rm = (case OpCallResMap rm u of
       None \<Rightarrow> (\<lparr> st_Journal = [], st_Ret = [], st_Err = ''timeout'', st_Gas = 0 \<rparr>, rm)
     | Some r \<Rightarrow> (r, rm\<lparr> OpCallResMap := (OpCallResMap rm)(u := None) \<rparr>))"

definition remote_call ::
  "EvmEnv \<Rightarrow> uint64 \<Rightarrow> common_Address \<Rightarrow> common_Address \<Rightarrow> bytes \<Rightarrow> uint64 \<Rightarrow> uint256 \<Rightarrow> string \<Rightarrow> string \<Rightarrow> ResMaps \<Rightarrow> StateDB \<Rightarrow> call_result" where
  "remote_call ev shard caller addr inp gas val uuid u rm s =
     (let req = \<lparr> oq_Caller = address_bytes caller, oq_Addr = addr, oq_Value = ucast val, oq_Gas = gas, oq_Input = inp,
                  oq_FromShardId = ev_ShardID ev, oq_FromNodeId = ev_NodeID ev, oq_Id = u, oq_UUID = uuid \<rparr>;
          (res, rm1) = wait_call u rm
      in if st_Err res \<noteq> [] then ([(ev_ip ev shard, COpCallReq req)], rm1, [], st_Gas res, Some (OtherErr (st_Err res)), s)
         else ([(ev_ip ev shard, COpCallReq req)], rm1, st_Ret res, st_Gas res, None, append_remote (st_Journal res) s))"

definition local_call ::
  "EvmEnv \<Rightarrow> common_Address \<Rightarrow> common_Address \<Rightarrow> bytes \<Rightarrow> uint64 \<Rightarrow> uint256 \<Rightarrow> string \<Rightarrow> StateDB
     \<Rightarrow> bytes \<times> uint64 \<times> vm_error option \<times> StateDB" where
  "local_call ev caller addr inp gas val uuid s =
     (let env = ev_state ev; (c, s1) = GetCode env addr s in
      if c = [] then ([], gas, None, s1)
      else let (h, s2) = GetCodeHash env addr s1;
               k = SetCallCode (Some addr) h c ((NewContract caller addr val gas)\<lparr> c_UUID := uuid \<rparr>);
               (ret, err, gas1, s3) = ev_run ev k inp False s2
           in (ret, gas1, err, s3))"

section \<open>Calls\<close>

text \<open>The body that \<open>Call\<close> and \<open>OpCall\<close> share; they differ in the identifiers they pass on.\<close>

definition call_frame ::
  "EvmEnv \<Rightarrow> common_Address \<Rightarrow> common_Address \<Rightarrow> bytes \<Rightarrow> uint64 \<Rightarrow> uint256 \<Rightarrow> string \<Rightarrow> string \<Rightarrow> string \<Rightarrow> ResMaps \<Rightarrow> StateDB
     \<Rightarrow> call_result panics" where
  "call_frame ev caller addr inp gas val remoteUUID localUUID u rm s =
     (let env = ev_state ev in
      if CallCreateDepth < ev_depth ev then Some ([], rm, [], gas, Some ErrDepth, s)
      else let (can, s0) = (if val = 0 then (True, s) else CanTransfer env caller val s) in
      if \<not> can then Some ([], rm, [], gas, Some ErrInsufficientBalance, s0)
      else do {
        let (snap, s1) = Snapshot s0;
        shard \<leftarrow> home_shard ev addr;
        let remote = (ev_ShardID ev \<noteq> shard);
        let s2 = move_value env remote caller addr val s1;
        let (out, rm1, ret, gas1, err, s3) = (case ev_precompiles ev addr of
            Some p \<Rightarrow> let (ret, gas1, err) = p inp gas in ([], rm, ret, gas1, err, s2)
          | None \<Rightarrow>
              if remote then remote_call ev shard caller addr inp gas val remoteUUID u rm s2
              else let (ret, gas1, err, s3) = local_call ev caller addr inp gas val localUUID s2 in ([], rm, ret, gas1, err, s3));
        (ms, gas2, s4) \<leftarrow> end_frame env snap gas1 err s3;
        Some (out @ ms, rm1, ret, gas2, err, s4) })"

definition Call ::
  "EvmEnv \<Rightarrow> common_Address \<Rightarrow> common_Address \<Rightarrow> bytes \<Rightarrow> uint64 \<Rightarrow> uint256 \<Rightarrow> string \<Rightarrow> string \<Rightarrow> ResMaps \<Rightarrow> StateDB \<Rightarrow> call_result panics" where
  "Call ev caller addr inp gas val uuid u rm s = call_frame ev caller addr inp gas val uuid uuid u rm s"

definition OpCall ::
  "EvmEnv \<Rightarrow> Contract \<Rightarrow> common_Address \<Rightarrow> bytes \<Rightarrow> uint64 \<Rightarrow> uint256 \<Rightarrow> string \<Rightarrow> ResMaps \<Rightarrow> StateDB \<Rightarrow> call_result panics" where
  "OpCall ev caller addr inp gas val u rm s = call_frame ev (Self caller) addr inp gas val (c_UUID caller) [] u rm s"

text \<open>The code of an account for \<open>CallCode\<close> and \<open>DelegateCall\<close>: read here, or taken from the table of
  answers, which is keyed by the address; a time-out gives no code.\<close>

definition take_code :: "string \<Rightarrow> (string \<rightharpoonup> common_Hash \<times> bytes) \<Rightarrow> (common_Hash \<times> bytes) \<times> (string \<rightharpoonup> common_Hash \<times> bytes)" where
  "take_code key tbl = (case tbl key of None \<Rightarrow> ((0, []), tbl) | Some r \<Rightarrow> (r, tbl(key := None)))"

definition code_request :: "EvmEnv \<Rightarrow> common_Address \<Rightarrow> OpAddressReq" where
  "code_request ev a = \<lparr> aq_Address = hex_EncodeToString (address_bytes a), aq_FromShardId = ev_ShardID ev, aq_FromNodeId = ev_NodeID ev \<rparr>"

definition local_code :: "StateEnv \<Rightarrow> common_Address \<Rightarrow> StateDB \<Rightarrow> (common_Hash \<times> bytes) \<times> StateDB" where
  "local_code env a s = (let (h, s1) = GetCodeHash env a s; (c, s2) = GetCode env a s1 in ((h, c), s2))"

definition CallCode ::
  "EvmEnv \<Rightarrow> Contract \<Rightarrow> common_Address \<Rightarrow> bytes \<Rightarrow> uint64 \<Rightarrow> uint256 \<Rightarrow> ResMaps \<Rightarrow> StateDB \<Rightarrow> call_result panics" where
  "CallCode ev caller addr inp gas val rm s =
     (let env = ev_state ev in
      if CallCreateDepth < ev_depth ev then Some ([], rm, [], gas, Some ErrDepth, s)
      else let (can, s0) = CanTransfer env (Self caller) val s in
      if \<not> can then Some ([], rm, [], gas, Some ErrInsufficientBalance, s0)
      else do {
        let (snap, s1) = Snapshot s0;
        (out, rm1, ret, gas1, err, s2) \<leftarrow> (case ev_precompiles ev addr of
            Some p \<Rightarrow> (let (ret, gas1, err) = p inp gas in Some ([], rm, ret, gas1, err, s1))
          | None \<Rightarrow> do {
              shard \<leftarrow> home_shard ev addr;
              let (out, rm1, res, s2) =
                (if shard \<noteq> ev_ShardID ev
                 then let (res, tbl) = take_code (hex_EncodeToString (address_bytes addr)) (OpCallCodeResMap rm)
                      in ([(ev_ip ev shard, COpCallCodeReq (code_request ev addr))], rm\<lparr> OpCallCodeResMap := tbl \<rparr>, res, s1)
                 else let (res, s2) = local_code env addr s1 in ([], rm, res, s2));
              let k = SetCallCode (Some addr) (fst res) (snd res) (NewContract (Self caller) (Self caller) val gas);
              let (ret, err, gas1, s3) = ev_run ev k inp False s2;
              Some (out, rm1, ret, gas1, err, s3) });
        (ms, gas2, s3) \<leftarrow> end_frame env snap gas1 err s2;
        Some (out @ ms, rm1, ret, gas2, err, s3) })"

definition AsDelegate :: "Contract \<Rightarrow> Contract \<Rightarrow> Contract" where
  "AsDelegate parent c = c\<lparr> CallerAddress := CallerAddress parent, c_Value := c_Value parent \<rparr>"

definition DelegateCall ::
  "EvmEnv \<Rightarrow> Contract \<Rightarrow> common_Address \<Rightarrow> bytes \<Rightarrow> uint64 \<Rightarrow> ResMaps \<Rightarrow> StateDB \<Rightarrow> call_result panics" where
  "DelegateCall ev caller addr inp gas rm s =
     (let env = ev_state ev in
      if CallCreateDepth < ev_depth ev then Some ([], rm, [], gas, Some ErrDepth, s)
      else do {
        let (snap, s1) = Snapshot s;
        (out, rm1, ret, gas1, err, s2) \<leftarrow> (case ev_precompiles ev addr of
            Some p \<Rightarrow> (let (ret, gas1, err) = p inp gas in Some ([], rm, ret, gas1, err, s1))
          | None \<Rightarrow> do {
              shard \<leftarrow> home_shard ev addr;
              let (out, rm1, res, s2) =
                (if shard \<noteq> ev_ShardID ev
                 then let (res, tbl) = take_code (hex_EncodeToString (address_bytes addr)) (OpDelegatecallResMap rm)
                      in ([(ev_ip ev shard, COpDelegateCallReq (code_request ev addr))], rm\<lparr> OpDelegatecallResMap := tbl \<rparr>, res, s1)
                 else let (res, s2) = local_code env addr s1 in ([], rm, res, s2));
              let k = SetCallCode (Some addr) (fst res) (snd res) (AsDelegate caller (NewContract (Self caller) (Self caller) 0 gas));
              let (ret, err, gas1, s3) = ev_run ev k inp False s2;
              Some (out, rm1, ret, gas1, err, s3) });
        (ms, gas2, s3) \<leftarrow> end_frame env snap gas1 err s2;
        Some (out @ ms, rm1, ret, gas2, err, s3) })"

definition StaticCall ::
  "EvmEnv \<Rightarrow> Contract \<Rightarrow> common_Address \<Rightarrow> bytes \<Rightarrow> uint64 \<Rightarrow> string \<Rightarrow> ResMaps \<Rightarrow> StateDB \<Rightarrow> call_result panics" where
  "StaticCall ev caller addr inp gas u rm s =
     (let env = ev_state ev in
      if CallCreateDepth < ev_depth ev then Some ([], rm, [], gas, Some ErrDepth, s)
      else do {
        let (snap, s1) = Snapshot s;
        (out, rm1, ret, gas1, err, s2) \<leftarrow> (case ev_precompiles ev addr of
            Some p \<Rightarrow> (let (ret, gas1, err) = p inp gas in Some ([], rm, ret, gas1, err, s1))
          | None \<Rightarrow> do {
              shard \<leftarrow> home_shard ev addr;
              Some (if ev_ShardID ev \<noteq> shard
               then let req = \<lparr> sq_Caller = address_bytes (Self caller), sq_Addr = addr, sq_Gas = gas, sq_Input = inp,
                          sq_FromShardId = ev_ShardID ev, sq_FromNodeId = ev_NodeID ev, sq_Id = u, sq_UUID = c_UUID caller \<rparr>;
                        ((r, e), rm1) = (case OpStaticCallResMap rm u of
                            None \<Rightarrow> (([], ''timeout''), rm)
                          | Some x \<Rightarrow> (x, rm\<lparr> OpStaticCallResMap := (OpStaticCallResMap rm)(u := None) \<rparr>))
                    in ([(ev_ip ev shard, COpStaticCallReq req)], rm1, if e \<noteq> [] then [] else r, 0,
                        if e \<noteq> [] then Some (OtherErr e) else None, s1)
               else let (res, s2) = local_code env addr s1;
                        k = SetCallCode (Some addr) (fst res) (snd res) (NewContract (Self caller) addr 0 gas);
                        (ret, err, gas1, s3) = ev_run ev k inp True s2
                    in ([], rm, ret, gas1, err, s3)) });
        (ms, gas2, s3) \<leftarrow> end_frame env snap gas1 err s2;
        Some (out @ ms, rm1, ret, gas2, err, s3) })"

section \<open>Creations\<close>

text \<open>What a creation gives: as a call, and the address of the contract.\<close>

type_synonym create_result = "evm_out \<times> ResMaps \<times> bytes \<times> common_Address \<times> uint64 \<times> vm_error option \<times> StateDB"

definition create_local ::
  "EvmEnv \<Rightarrow> common_Address \<Rightarrow> bytes \<Rightarrow> common_Hash \<Rightarrow> uint64 \<Rightarrow> uint256 \<Rightarrow> common_Address \<Rightarrow> ResMaps \<Rightarrow> StateDB \<Rightarrow> create_result panics" where
  "create_local ev caller c h gas val addr rm s =
     (let env = ev_state ev; (taken, s1) = address_taken env addr s in
      if taken then Some ([], rm, [], 0, 0, Some ErrContractAddressCollision, s1)
      else do {
        let (snap, s2) = Snapshot s1;
        let (ex, s3) = Exist env addr s2;
        let s4 = (if ex then s3 else CreateAccount env addr s3);
        s5 \<leftarrow> CreateContract env addr s4;
        let s6 = Transfer env caller addr val s5;
        let k = SetCallCode (Some addr) h c ((NewContract caller addr val gas)\<lparr> IsDeployment := True \<rparr>);
        let (ret, err, gas1, s7) = ev_run ev k [] False s6;
        (case err of
           None \<Rightarrow> Some ([], rm, ret, addr, gas1, None, SetCode env addr ret s7)
         | Some e \<Rightarrow> do {
             (ms, s8) \<leftarrow> RevertToSnapshot env snap s7;
             Some (map (\<lambda>(node, m). (node, CRollback m)) ms, rm, ret, addr, gas1, Some e, s8) }) })"

definition create_remote ::
  "EvmEnv \<Rightarrow> uint64 \<Rightarrow> common_Address \<Rightarrow> bytes \<Rightarrow> uint64 \<Rightarrow> uint256 \<Rightarrow> common_Address \<Rightarrow> string \<Rightarrow> string \<Rightarrow> ResMaps \<Rightarrow> StateDB
     \<Rightarrow> create_result panics" where
  "create_remote ev shard caller c gas val addr uuid u rm s = do {
     let env = ev_state ev;
     let (snap, s1) = Snapshot s;
     let req = \<lparr> cq_Caller = address_bytes caller, cq_Addr = addr, cq_Code = c, cq_Value = ucast val, cq_Gas = gas,
                 cq_FromShardId = ev_ShardID ev, cq_FromNodeId = ev_NodeID ev, cq_Id = u, cq_UUID = uuid \<rparr>;
     let (res, rm1) = (case OpCreateResMap rm u of
         None \<Rightarrow> (\<lparr> cr_Addr = 0, cr_Ret = [], cr_Err = ''timeout'', cr_Id = [], cr_Journal = [] \<rparr>, rm)
       | Some r \<Rightarrow> (r, rm\<lparr> OpCreateResMap := (OpCreateResMap rm)(u := None) \<rparr>));
     let s2 = SubBalance env caller val s1;
     if cr_Err res \<noteq> []
     then do {
       (ms, s3) \<leftarrow> RevertToSnapshot env snap s2;
       Some ((ev_ip ev shard, COpCreateReq req) # map (\<lambda>(node, m). (node, CRollback m)) ms, rm1, cr_Ret res, cr_Addr res, 0,
             Some (OtherErr (cr_Err res)), s3) }
     else Some ([(ev_ip ev shard, COpCreateReq req)], rm1, cr_Ret res, addr, gas, None, append_remote (cr_Journal res) s2) }"

definition create ::
  "EvmEnv \<Rightarrow> common_Address \<Rightarrow> bytes \<Rightarrow> common_Hash \<Rightarrow> uint64 \<Rightarrow> uint256 \<Rightarrow> common_Address \<Rightarrow> string \<Rightarrow> string \<Rightarrow> ResMaps \<Rightarrow> StateDB
     \<Rightarrow> create_result panics" where
  "create ev caller c h gas val addr uuid u rm s =
     (let env = ev_state ev in
      if CallCreateDepth < ev_depth ev then Some ([], rm, [], 0, gas, Some ErrDepth, s)
      else let (can, s0) = CanTransfer env caller val s in
      if \<not> can then Some ([], rm, [], 0, gas, Some ErrInsufficientBalance, s0)
      else let (nonce, s1) = GetNonce env caller s0 in
      if nonce + 1 < nonce then Some ([], rm, [], 0, gas, Some ErrNonceUintOverflow, s1)
      else do {
        let s2 = SetNonce env caller (nonce + 1) s1;
        shard \<leftarrow> home_shard ev addr;
        if shard = ev_ShardID ev then create_local ev caller c h gas val addr rm s2
        else create_remote ev shard caller c gas val addr uuid u rm s2 })"

definition Create ::
  "EvmEnv \<Rightarrow> common_Address \<Rightarrow> bytes \<Rightarrow> uint64 \<Rightarrow> uint256 \<Rightarrow> string \<Rightarrow> string \<Rightarrow> ResMaps \<Rightarrow> StateDB \<Rightarrow> create_result panics" where
  "Create ev caller c gas val uuid u rm s =
     (let (nonce, s1) = GetNonce (ev_state ev) caller s in
      create ev caller c 0 gas val (CreateAddress ev caller nonce) uuid u rm s1)"

definition Create2 ::
  "EvmEnv \<Rightarrow> common_Address \<Rightarrow> bytes \<Rightarrow> uint64 \<Rightarrow> uint256 \<Rightarrow> uint256 \<Rightarrow> string \<Rightarrow> string \<Rightarrow> ResMaps \<Rightarrow> StateDB \<Rightarrow> create_result panics" where
  "Create2 ev caller c gas endowment salt uuid u rm s =
     (let h = Keccak256Hash (ev_state ev) c in
      create ev caller c h gas endowment (CreateAddress2 ev caller salt h) uuid u rm s)"

section \<open>Contract transactions\<close>

datatype tx_error = ErrInsufficientFundsForTransferOver | ErrInsufficientFundsForTransfer

record VmResult =
  vr_UsedGas :: uint64
  vr_RefundedGas :: uint64
  vr_Err :: "vm_error option"
  vr_ReturnData :: bytes
  vr_ContractAddr :: common_Address

definition Broker2EarnAddr :: string where
  "Broker2EarnAddr = ''aaaa1a0ac6761fe4fcb6aca7dfa7e7c86e8dbc6d''"

text \<open>The fee of a transaction as a transfer to the producer of the block, sent by the main node.\<close>

definition fee_message :: "EvmEnv \<Rightarrow> int \<Rightarrow> uint64 \<Rightarrow> evm_out panics" where
  "fee_message ev price gasUsed =
     (if ev_NodeID ev \<noteq> ev_View ev then Some []
      else do {
        let fee = (ucast gasUsed * word_of_int price :: uint256);
        sid \<leftarrow> home_shard ev (ev_Coinbase ev);
        let tx = NewTransaction (ev_txhash ev) Broker2EarnAddr (hex_EncodeToString (address_bytes (ev_Coinbase ev)))
                   (sint (ucast fee :: uint64)) 1 1 ''ANY'';
        Some [(ev_ip ev sid, CInjectFee \<lparr> Txs = [tx], ToShardID = unat sid \<rparr>)] })"

text \<open>\<open>TransitionDb\<close>. Buying gas is commented out and the intrinsic gas is 0, so the gas of a transaction
  starts at 0 and \<open>gasUsed\<close> is the 64-bit negation of what the frame returns.\<close>

definition TransitionDb ::
  "EvmEnv \<Rightarrow> EvmMessage \<Rightarrow> string \<Rightarrow> string \<Rightarrow> ResMaps \<Rightarrow> StateDB \<Rightarrow> (evm_out \<times> ResMaps \<times> (tx_error + VmResult) \<times> StateDB) panics" where
  "TransitionDb ev msg uuid u rm s =
     (let env = ev_state ev; (ex, s1) = Exist env (msg_From msg) s;
          s2 = (if ex then s1 else CreateAccount env (msg_From msg) s1)
      in if 2 ^ 256 \<le> \<bar>msg_Value msg\<bar> then Some ([], rm, Inl ErrInsufficientFundsForTransferOver, s2)
      else let val = word_of_int (msg_Value msg);
               (can, s3) = (if val = 0 then (True, s2) else CanTransfer env (msg_From msg) val s2) in
      if \<not> can then Some ([], rm, Inl ErrInsufficientFundsForTransfer, snd (GetBalance env (msg_From msg) s3))
      else do {
        let s4 = StateDB.Prepare s3;
        (out, rm1, ret, addr, gas, err, s5) \<leftarrow>
          (if msg_To msg = 0 then Create ev (msg_From msg) (msg_Data msg) 0 val uuid u rm s4
           else do {
             let (nonce, s5) = GetNonce env (msg_From msg) s4;
             (out, rm1, ret, gas, err, s6) \<leftarrow>
               Call ev (msg_From msg) (msg_To msg) (msg_Data msg) 0 val uuid u rm (SetNonce env (msg_From msg) (nonce + 1) s5);
             Some (out, rm1, ret, 0, gas, err, s6) });
        let gasUsed = 0 - gas;
        fee \<leftarrow> fee_message ev (msg_GasPrice msg) gasUsed;
        Some (out @ fee, rm1, Inr \<lparr> vr_UsedGas = gasUsed, vr_RefundedGas = 0, vr_Err = err, vr_ReturnData = ret, vr_ContractAddr = addr \<rparr>, s5) })"

end
