(* ===== verification/JumpAnalysis.thy ===== *)
theory JumpAnalysis
  imports Prelude
begin

text \<open>
  The analysis of jump destinations, \<open>vm/analysis.go\<close>: a bit vector with a set bit for every byte of the
  code that is the argument of a \<open>PUSH\<close>. An index outside the vector panics. Lengths and positions are
  natural numbers: the length of a slice is below \<open>2 ^ 63\<close>, so the position, which passes the end of the
  code by at most 32, does not wrap.

  The analysis never panics, whatever the code, and marks exactly the argument bytes of a reference
  reading of the code, instruction by instruction.
\<close>

unbundle bit_operations_syntax

section \<open>The bit vector\<close>

type_synonym bitvec = bytes

text \<open>\<open>bits[i] = f(bits[i])\<close>, with the bounds check.\<close>

definition at_index :: "nat \<Rightarrow> (byte \<Rightarrow> byte) \<Rightarrow> bitvec \<Rightarrow> bitvec panics" where
  "at_index i f bits = (if i < length bits then Some (bits[i := f (bits ! i)]) else None)"

definition set1 :: "nat \<Rightarrow> bitvec \<Rightarrow> bitvec panics" where
  "set1 pos bits = at_index (pos div 8) (\<lambda>b. b OR push_bit (pos mod 8) 1) bits"

definition setN :: "16 word \<Rightarrow> nat \<Rightarrow> bitvec \<Rightarrow> bitvec panics" where
  "setN flag pos bits = do {
     let a = push_bit (pos mod 8) flag;
     bits1 \<leftarrow> at_index (pos div 8) (\<lambda>x. x OR ucast a) bits;
     let b = (ucast (drop_bit 8 a) :: byte);
     if b \<noteq> 0 then at_index (pos div 8 + 1) (\<lambda>_. b) bits1 else Some bits1 }"

definition set8 :: "nat \<Rightarrow> bitvec \<Rightarrow> bitvec panics" where
  "set8 pos bits = do {
     let a = push_bit (pos mod 8) 0xFF;
     bits1 \<leftarrow> at_index (pos div 8) (\<lambda>x. x OR a) bits;
     at_index (pos div 8 + 1) (\<lambda>_. NOT a) bits1 }"

definition set16 :: "nat \<Rightarrow> bitvec \<Rightarrow> bitvec panics" where
  "set16 pos bits = do {
     let a = push_bit (pos mod 8) 0xFF;
     bits1 \<leftarrow> at_index (pos div 8) (\<lambda>x. x OR a) bits;
     bits2 \<leftarrow> at_index (pos div 8 + 1) (\<lambda>_. 0xFF) bits1;
     at_index (pos div 8 + 2) (\<lambda>_. NOT a) bits2 }"

definition codeSegment :: "bitvec \<Rightarrow> nat \<Rightarrow> bool panics" where
  "codeSegment bits pos = (if pos div 8 < length bits then Some (drop_bit (pos mod 8) (bits ! (pos div 8)) AND 1 = 0) else None)"

section \<open>The analysis\<close>

definition PUSH1 :: byte where "PUSH1 = 0x60"

text \<open>The loop over whole groups of \<open>w\<close> bytes, used for 16 and for 8 with the setter of that width.\<close>

function mark_loop :: "nat \<Rightarrow> (nat \<Rightarrow> bitvec \<Rightarrow> bitvec panics) \<Rightarrow> nat \<Rightarrow> nat \<Rightarrow> bitvec \<Rightarrow> (nat \<times> nat \<times> bitvec) panics" where
  "mark_loop w f n pc bits =
     (if 0 < w \<and> w \<le> n then do { bits1 \<leftarrow> f pc bits; mark_loop w f (n - w) (pc + w) bits1 } else Some (n, pc, bits))"
  by auto
termination
  by (relation "measure (\<lambda>(w, f, n, pc, bits). n)") auto

declare mark_loop.simps [simp del]

definition mark_groups :: "nat \<Rightarrow> nat \<Rightarrow> bitvec \<Rightarrow> (nat \<times> nat \<times> bitvec) panics" where
  "mark_groups n pc bits =
     (if 8 \<le> n then do { (n1, pc1, bits1) \<leftarrow> mark_loop 16 set16 n pc bits; mark_loop 8 set8 n1 pc1 bits1 } else Some (n, pc, bits))"

definition mark_rest :: "nat \<Rightarrow> nat \<Rightarrow> bitvec \<Rightarrow> (nat \<times> bitvec) panics" where
  "mark_rest n pc bits =
     (if n = 1 then do { b \<leftarrow> set1 pc bits; Some (pc + 1, b) }
      else if n = 2 then do { b \<leftarrow> setN 0b11 pc bits; Some (pc + 2, b) }
      else if n = 3 then do { b \<leftarrow> setN 0b111 pc bits; Some (pc + 3, b) }
      else if n = 4 then do { b \<leftarrow> setN 0b1111 pc bits; Some (pc + 4, b) }
      else if n = 5 then do { b \<leftarrow> setN 0b11111 pc bits; Some (pc + 5, b) }
      else if n = 6 then do { b \<leftarrow> setN 0b111111 pc bits; Some (pc + 6, b) }
      else if n = 7 then do { b \<leftarrow> setN 0b1111111 pc bits; Some (pc + 7, b) }
      else Some (pc, bits))"

text \<open>One turn of the loop at an opcode: \<open>int8(op) < int8(PUSH1)\<close> also holds for the bytes above \<open>0x7f\<close>.\<close>

definition analyse_op :: "byte \<Rightarrow> nat \<Rightarrow> bitvec \<Rightarrow> (nat \<times> bitvec) panics" where
  "analyse_op b pc bits =
     (if sint b < sint PUSH1 then Some (pc, bits)
      else do {
        let numbits = b - PUSH1 + 1;
        (n, pc1, bits1) \<leftarrow> mark_groups (unat numbits) pc bits;
        mark_rest n pc1 bits1 })"

text \<open>The loop; the position grows in every turn.\<close>

fun codeBitmap_loop :: "nat \<Rightarrow> bytes \<Rightarrow> nat \<Rightarrow> bitvec \<Rightarrow> bitvec panics" where
  "codeBitmap_loop 0 code pc bits = None"
| "codeBitmap_loop (Suc fuel) code pc bits =
     (if pc < length code then do {
        (pc1, bits1) \<leftarrow> analyse_op (code ! pc) (pc + 1) bits;
        codeBitmap_loop fuel code pc1 bits1 }
      else Some bits)"

text \<open>The fuel is the number of turns: at most one for each byte, and the last test.\<close>

definition codeBitmapInternal :: "bytes \<Rightarrow> bitvec \<Rightarrow> bitvec panics" where
  "codeBitmapInternal code bits = codeBitmap_loop (length code + 1) code 0 bits"

definition codeBitmap :: "bytes \<Rightarrow> bitvec panics" where
  "codeBitmap code = codeBitmapInternal code (replicate (length code div 8 + 1 + 4) 0)"

section \<open>A reference reading of the code\<close>

definition push_size :: "byte \<Rightarrow> nat" where
  "push_size b = (if 0x60 \<le> b \<and> b \<le> 0x7f then unat b - 0x5f else 0)"

text \<open>The positions of the instructions of \<open>code\<close> from position \<open>pc\<close> on.\<close>

function op_starts :: "bytes \<Rightarrow> nat \<Rightarrow> nat set" where
  "op_starts code pc = (if pc < length code then insert pc (op_starts code (pc + 1 + push_size (code ! pc))) else {})"
  by auto
termination
  by (relation "measure (\<lambda>(code, pc). length code - pc)") auto

declare op_starts.simps [simp del]

definition bit_at :: "bitvec \<Rightarrow> nat \<Rightarrow> bool" where
  "bit_at bits p = (p div 8 < length bits \<and> bit (bits ! (p div 8)) (p mod 8))"

section \<open>The bits that one step sets\<close>

text \<open>\<open>marks bits pos n bits'\<close>: in a vector with no bit at or after \<open>pos\<close>, exactly the bits of the next \<open>n\<close>
  positions were set.\<close>

definition marks :: "bitvec \<Rightarrow> nat \<Rightarrow> nat \<Rightarrow> bitvec \<Rightarrow> bool" where
  "marks bits pos n bits' = (length bits' = length bits \<and> (\<forall>p. bit_at bits' p = (bit_at bits p \<or> pos \<le> p \<and> p < pos + n)))"

definition clear_from :: "bitvec \<Rightarrow> nat \<Rightarrow> bool" where
  "clear_from bits pos = (\<forall>p. pos \<le> p \<longrightarrow> \<not> bit_at bits p)"

lemma marks_clear: "marks bits pos n bits' \<Longrightarrow> clear_from bits pos \<Longrightarrow> clear_from bits' (pos + n)"
  by (auto simp: marks_def clear_from_def)

lemma marks_trans: "marks a pos n b \<Longrightarrow> marks b (pos + n) m c \<Longrightarrow> marks a pos (n + m) c"
  by (auto simp: marks_def)

lemma marks_zero [simp]: "marks bits pos 0 bits"
  by (auto simp: marks_def)

lemma at_index_some: "i < length bits \<Longrightarrow> at_index i f bits = Some (bits[i := f (bits ! i)])"
  by (simp add: at_index_def)

lemma bit_at_update:
  "i < length bits \<Longrightarrow> bit_at (bits[i := x]) p = (if p div 8 = i then bit x (p mod 8) else bit_at bits p)"
  by (auto simp: bit_at_def)

text \<open>Bits of the masks, in the byte of the position and in the two after it.\<close>

lemma bit_byte_FF: "bit (0xFF :: byte) j = (j < 8)"
proof -
  have "(0xFF :: byte) = mask 8"
    by (simp add: mask_eq_exp_minus_1)
  then show ?thesis
    by (simp only: bit_mask_iff) simp
qed

lemma bit_low: "k < 8 \<Longrightarrow> j < 8 \<Longrightarrow> bit (push_bit k 0xFF :: byte) j = (k \<le> j)"
  unfolding bit_push_bit_iff bit_byte_FF by (auto simp: less_imp_diff_less)

lemma bit_high: "k < 8 \<Longrightarrow> j < 8 \<Longrightarrow> bit (NOT (push_bit k 0xFF) :: byte) j = (j < k)"
  by (auto simp: bit_not_iff bit_low)

lemma bit_flag: "n < 8 \<Longrightarrow> k < 8 \<Longrightarrow> j < 16 \<Longrightarrow> bit (push_bit k (mask n) :: 16 word) j = (k \<le> j \<and> j < k + n)"
  by (auto simp: bit_push_bit_iff bit_mask_iff)

lemma position_split:
  fixes p :: nat
  obtains q j where "p = 8 * q + j" "j < 8" "p div 8 = q" "p mod 8 = j"
  by (metis mod_less_divisor mult_div_mod_eq zero_less_numeral)

lemma clear_byte: "clear_from bits (8 * i + k) \<Longrightarrow> k < 8 \<Longrightarrow> j < 8 \<Longrightarrow> k \<le> j \<or> i < q \<Longrightarrow> i \<le> q \<Longrightarrow> \<not> bit_at bits (8 * q + j)"
  unfolding clear_from_def by auto

text \<open>The bits of a vector in which the byte of a position was widened and the next bytes were replaced.\<close>

lemma marks_bytes:
  assumes clear: "clear_from bits pos" and pos: "pos = 8 * i + k" "k < 8"
    and len: "length bits' = length bits"
    and low: "\<And>j. j < 8 \<Longrightarrow> bit_at bits' (8 * i + j) = (bit_at bits (8 * i + j) \<or> k \<le> j \<and> j < k + n)"
    and high: "\<And>q j. i < q \<Longrightarrow> j < 8 \<Longrightarrow> bit_at bits' (8 * q + j) = (8 * q + j < pos + n)"
    and rest: "\<And>q j. q < i \<Longrightarrow> j < 8 \<Longrightarrow> bit_at bits' (8 * q + j) = bit_at bits (8 * q + j)"
  shows "marks bits pos n bits'"
  unfolding marks_def
proof (intro conjI allI)
  fix p :: nat
  obtain q j where p: "p = 8 * q + j" "j < 8"
    by (rule position_split [of p])
  consider "q < i" | "q = i" | "i < q"
    by linarith
  then show "bit_at bits' p = (bit_at bits p \<or> pos \<le> p \<and> p < pos + n)"
  proof cases
    case 1
    then show ?thesis
      using rest [of q j] p pos by simp
  next
    case 2
    then show ?thesis
      using low [of j] p pos by auto
  next
    case 3
    moreover have "\<not> bit_at bits p"
      using clear_byte [of bits i k j q] clear pos p 3 by simp
    ultimately show ?thesis
      using high [of q j] p pos by auto
  qed
qed (use len in simp)

lemma bit_at_byte: "j < 8 \<Longrightarrow> bit_at bits (8 * q + j) = (q < length bits \<and> bit (bits ! q) j)"
  by (simp add: bit_at_def)

lemma at_index_marks:
  "at_index i f bits = Some bits' \<Longrightarrow> length bits' = length bits \<and> (\<forall>q j. j < 8 \<longrightarrow> bit_at bits' (8 * q + j) = (if q = i then bit (f (bits ! i)) j else bit_at bits (8 * q + j)))"
  by (auto simp: at_index_def bit_at_update split: if_splits)

lemma set1_marks:
  assumes "clear_from bits pos" "pos div 8 < length bits"
  shows "\<exists>bits'. set1 pos bits = Some bits' \<and> marks bits pos 1 bits'"
proof -
  obtain i k where pos: "pos = 8 * i + k" "k < 8" "pos div 8 = i" "pos mod 8 = k"
    by (rule position_split [of pos])
  let ?b = "bits[i := bits ! i OR push_bit k 1]"
  have bit: "bit (push_bit k 1 :: byte) j = (j = k)" if "j < 8" for j
    using that by (auto simp: bit_exp_iff)
  have "set1 pos bits = Some ?b"
    using assms(2) pos by (simp add: set1_def at_index_some)
  moreover have "marks bits pos 1 ?b"
  proof (rule marks_bytes [OF assms(1) pos(1,2)])
    fix q j :: nat assume q: "i < q" and j: "j < 8"
    have "\<not> bit_at bits (8 * q + j)"
      using clear_byte [of bits i k j q] assms(1) pos q j by simp
    then show "bit_at ?b (8 * q + j) = (8 * q + j < pos + 1)"
      using q j pos by (auto simp: bit_at_byte)
  qed (use assms(2) pos bit in \<open>auto simp: bit_at_byte nth_list_update bit_or_iff simp del: push_bit_of_1\<close>)
  ultimately show ?thesis
    by blast
qed

lemma set8_marks:
  assumes "clear_from bits pos" "pos div 8 + 1 < length bits"
  shows "\<exists>bits'. set8 pos bits = Some bits' \<and> marks bits pos 8 bits'"
proof -
  obtain i k where pos: "pos = 8 * i + k" "k < 8" "pos div 8 = i" "pos mod 8 = k"
    by (rule position_split [of pos])
  let ?a = "push_bit k 0xFF :: byte"
  let ?b = "bits[i := bits ! i OR ?a, i + 1 := NOT ?a]"
  have "set8 pos bits = Some ?b"
    using assms(2) pos by (simp add: set8_def at_index_some Let_def)
  moreover have "marks bits pos 8 ?b"
  proof (rule marks_bytes [OF assms(1) pos(1,2)])
    fix q j :: nat assume q: "i < q" and j: "j < 8"
    have "\<not> bit_at bits (8 * q + j)"
      using clear_byte [of bits i k j q] assms(1) pos q j by simp
    moreover have "8 * q + j < pos + 8 \<longleftrightarrow> q = i + 1 \<and> j < k"
      using q j pos by (cases "q = i + 1") auto
    ultimately show "bit_at ?b (8 * q + j) = (8 * q + j < pos + 8)"
      using assms(2) pos q j by (auto simp: bit_at_byte bit_high nth_list_update simp del: push_bit_numeral_minus_1)
  qed (use assms(2) pos in \<open>auto simp: bit_at_byte nth_list_update bit_or_iff bit_low\<close>)
  ultimately show ?thesis
    by blast
qed

lemma set16_marks:
  assumes "clear_from bits pos" "pos div 8 + 2 < length bits"
  shows "\<exists>bits'. set16 pos bits = Some bits' \<and> marks bits pos 16 bits'"
proof -
  obtain i k where pos: "pos = 8 * i + k" "k < 8" "pos div 8 = i" "pos mod 8 = k"
    by (rule position_split [of pos])
  let ?a = "push_bit k 0xFF :: byte"
  let ?b = "bits[i := bits ! i OR ?a, i + 1 := 0xFF, i + 2 := NOT ?a]"
  have "set16 pos bits = Some ?b"
    using assms(2) pos by (simp add: set16_def at_index_some Let_def)
  moreover have "marks bits pos 16 ?b"
  proof (rule marks_bytes [OF assms(1) pos(1,2)])
    fix q j :: nat assume q: "i < q" and j: "j < 8"
    have "\<not> bit_at bits (8 * q + j)"
      using clear_byte [of bits i k j q] assms(1) pos q j by simp
    moreover have "8 * q + j < pos + 16 \<longleftrightarrow> q = i + 1 \<or> q = i + 2 \<and> j < k"
      using q j pos by (cases "q = i + 1"; cases "q = i + 2") auto
    moreover have "bit (0xFF :: byte) j"
      using j by (simp only: bit_byte_FF)
    ultimately show "bit_at ?b (8 * q + j) = (8 * q + j < pos + 16)"
      using assms(2) pos q j by (auto simp: bit_at_byte bit_high nth_list_update)
  qed (use assms(2) pos in \<open>auto simp: bit_at_byte nth_list_update bit_or_iff bit_low\<close>)
  ultimately show ?thesis
    by blast
qed

lemma setN_marks:
  assumes "clear_from bits pos" "pos div 8 + 1 < length bits" "n < 8" "flag = mask n"
  shows "\<exists>bits'. setN flag pos bits = Some bits' \<and> marks bits pos n bits'"
proof -
  obtain i k where pos: "pos = 8 * i + k" "k < 8" "pos div 8 = i" "pos mod 8 = k"
    by (rule position_split [of pos])
  let ?a = "push_bit k flag :: 16 word"
  let ?h = "ucast (drop_bit 8 ?a) :: byte"
  have low: "bit (ucast ?a :: byte) j = (k \<le> j \<and> j < k + n)" if "j < 8" for j
    using that pos assms(3,4) by (simp add: bit_ucast_iff bit_flag)
  have high: "bit ?h j = (j + 8 < k + n)" if "j < 8" for j
    using that pos assms(3,4) by (simp add: bit_ucast_iff bit_drop_bit_eq bit_flag add.commute)
  let ?b = "bits[i := bits ! i OR ucast ?a, i + 1 := if ?h = 0 then bits ! (i + 1) else ?h]"
  have "setN flag pos bits = Some ?b"
    using assms(2) pos by (auto simp: setN_def at_index_some Let_def) (metis list_update_id list_update_swap n_not_Suc_n nth_list_update_neq)
  moreover have "marks bits pos n ?b"
  proof (rule marks_bytes [OF assms(1) pos(1,2)])
    fix q j :: nat assume q: "i < q" and j: "j < 8"
    have none: "\<not> bit_at bits (8 * q + j)"
      using clear_byte [of bits i k j q] assms(1) pos q j by simp
    show "bit_at ?b (8 * q + j) = (8 * q + j < pos + n)"
    proof (cases "q = i + 1")
      case True
      have "bit (if ?h = 0 then bits ! (i + 1) else ?h) j = bit ?h j"
        using none bit_at_byte [OF j, of bits q] True assms(2) pos by auto
      then show ?thesis
        using True assms(2) pos high [OF j] bit_at_byte [OF j, of ?b q] by auto
    qed (use none q j pos assms(2,3) in \<open>auto simp: bit_at_byte\<close>)
  qed (use assms(2) pos low in \<open>auto simp: bit_at_byte nth_list_update bit_or_iff\<close>)
  ultimately show ?thesis
    by blast
qed

section \<open>The loops\<close>

lemma mark_loop_marks:
  assumes f: "\<And>pos b. clear_from b pos \<Longrightarrow> (pos + w) div 8 < length b \<Longrightarrow> \<exists>b'. f pos b = Some b' \<and> marks b pos w b'"
    and w: "0 < w" and "clear_from bits pc" "(pc + n) div 8 < length bits"
  shows "\<exists>m bits'. mark_loop w f n pc bits = Some (n - m, pc + m, bits') \<and> n - m = n mod w \<and> m \<le> n \<and> marks bits pc m bits'"
  using assms(3,4)
proof (induction n arbitrary: pc bits rule: less_induct)
  case (less n)
  show ?case
  proof (cases "w \<le> n")
    case True
    have "(pc + w) div 8 < length bits"
      using less(3) True by (meson add_le_cancel_left div_le_mono le_less_trans)
    then obtain bits1 where s: "f pc bits = Some bits1" "marks bits pc w bits1"
      using f less(2) by blast
    have "clear_from bits1 (pc + w)" "(pc + w + (n - w)) div 8 < length bits1"
      using marks_clear [OF s(2) less(2)] s(2) less(3) True by (auto simp: marks_def)
    then obtain m bits2 where r: "mark_loop w f (n - w) (pc + w) bits1 = Some (n - w - m, pc + w + m, bits2)"
      "n - w - m = (n - w) mod w" "m \<le> n - w" "marks bits1 (pc + w) m bits2"
      using less(1) [of "n - w" bits1 "pc + w"] w True by auto
    have "mark_loop w f n pc bits = Some (n - (w + m), pc + (w + m), bits2)"
      using True w s(1) r(1) by (subst mark_loop.simps) (simp add: add.assoc)
    then show ?thesis
      using r(2,3) True marks_trans [OF s(2) r(4)] by (intro exI [of _ "w + m"] exI [of _ bits2]) (auto simp: le_mod_geq)
  next
    case False
    then show ?thesis
      by (intro exI [of _ 0] exI [of _ bits]) (simp add: mark_loop.simps)
  qed
qed

lemma mark_groups_marks:
  assumes "clear_from bits pc" "(pc + n) div 8 < length bits"
  shows "\<exists>m bits'. mark_groups n pc bits = Some (n - m, pc + m, bits') \<and> n - m = n mod 8 \<and> m \<le> n \<and> marks bits pc m bits'"
proof (cases "8 \<le> n")
  case True
  obtain m b where r: "mark_loop 16 set16 n pc bits = Some (n - m, pc + m, b)" "n - m = n mod 16" "m \<le> n" "marks bits pc m b"
    using mark_loop_marks [of 16 set16 bits pc n] assms set16_marks by fastforce
  have "clear_from b (pc + m)" "(pc + m + (n - m)) div 8 < length b"
    using marks_clear [OF r(4) assms(1)] r(3,4) assms(2) by (auto simp: marks_def)
  then obtain k c where t: "mark_loop 8 set8 (n - m) (pc + m) b = Some (n - m - k, pc + m + k, c)" "n - m - k = (n - m) mod 8" "k \<le> n - m"
    "marks b (pc + m) k c"
    using mark_loop_marks [of 8 set8 b "pc + m" "n - m"] set8_marks by fastforce
  have "n - (m + k) = n mod 8" "m + k \<le> n"
    using t(2,3) r(2,3) mod_mod_cancel [of 8 16 n] by (simp_all flip: diff_diff_left)
  moreover have "mark_groups n pc bits = Some (n - (m + k), pc + (m + k), c)"
    using True r(1) t(1) by (simp add: mark_groups_def add.assoc)
  ultimately show ?thesis
    using marks_trans [OF r(4) t(4)] by blast
next
  case False
  then show ?thesis
    by (intro exI [of _ 0] exI [of _ bits]) (simp add: mark_groups_def)
qed

lemma small_masks:
  "mask 2 = (0b11 :: 16 word)" "mask 3 = (0b111 :: 16 word)" "mask 4 = (0b1111 :: 16 word)" "mask 5 = (0b11111 :: 16 word)"
  "mask 6 = (0b111111 :: 16 word)" "mask 7 = (0b1111111 :: 16 word)"
  by (simp_all add: mask_eq_exp_minus_1)

lemma mark_rest_setN:
  assumes "1 < n" "n < 8"
  shows "mark_rest n pc bits = do { b \<leftarrow> setN (mask n) pc bits; Some (pc + n, b) }"
proof -
  have "n \<in> {2, 3, 4, 5, 6, 7}"
    using assms by auto
  then show ?thesis
    by (elim insertE emptyE) (simp_all add: mark_rest_def small_masks)
qed

lemma mark_rest_marks:
  assumes "clear_from bits pc" "n = 0 \<or> pc div 8 + 1 < length bits" "n < 8"
  shows "\<exists>bits'. mark_rest n pc bits = Some (pc + n, bits') \<and> marks bits pc n bits'"
proof -
  consider "n = 0" | "n = 1" | "1 < n"
    by linarith
  then show ?thesis
  proof cases
    case 2
    then show ?thesis
      using set1_marks [OF assms(1)] assms(2) by (auto simp: mark_rest_def)
  next
    case 3
    then show ?thesis
      using setN_marks [OF assms(1) _ assms(3) refl] assms(2,3) by (auto simp: mark_rest_setN)
  qed (simp add: mark_rest_def)
qed

text \<open>The signed comparison picks the bytes from \<open>PUSH1\<close> to \<open>0x7f\<close>.\<close>

lemma sint_byte: "sint (b :: byte) = (if uint b < 128 then uint b else uint b - 256)"
proof -
  have u: "0 \<le> uint b" "uint b < 256"
    using uint_range_size [of b] by (auto simp: word_size)
  have "sint b = signed_take_bit 7 (uint b)"
    by (simp add: sint_uint)
  also have "\<dots> = (uint b + 128) mod 256 - 128"
    by (simp add: signed_take_bit_eq_take_bit_shift take_bit_eq_mod)
  also have "\<dots> = (if uint b < 128 then uint b else uint b - 256)"
  proof (cases "uint b < 128")
    case False
    then have "(uint b + 128) mod 256 = uint b - 128"
      using u mod_add_self2 [of "uint b - 128" 256] by (simp add: add.commute)
    then show ?thesis
      using False by simp
  qed (use u in simp)
  finally show ?thesis .
qed

lemma push_test: "(sint b < sint PUSH1) = (push_size b = 0)"
proof -
  have "uint b < 256"
    using uint_range_size [of b] by (simp add: word_size)
  moreover have "96 \<le> uint b \<Longrightarrow> 95 < unat b"
    using uint_nat [of b] by linarith
  ultimately show ?thesis
    by (auto simp: sint_byte push_size_def PUSH1_def word_le_def not_le)
qed

lemma push_count: "push_size b \<noteq> 0 \<Longrightarrow> unat (b - PUSH1 + 1) = push_size b"
proof -
  assume "push_size b \<noteq> 0"
  then have b: "96 \<le> unat b" "unat b \<le> 127"
    by (auto simp: push_size_def word_le_nat_alt split: if_splits)
  have "unat (b - PUSH1) = unat b - 96"
    using b by (subst unat_sub) (auto simp: PUSH1_def word_le_nat_alt)
  then have "unat (b - PUSH1 + 1) = unat b - 96 + 1"
    using b by (subst unat_plus_simple [THEN iffD1]) (auto simp: word_le_nat_alt unat_word_ariths)
  then show ?thesis
    using b by (auto simp: push_size_def word_le_nat_alt)
qed

lemma push_size_le: "push_size b \<le> 32"
  by (auto simp: push_size_def word_le_nat_alt)

lemma analyse_op_marks:
  assumes "clear_from bits pc" "(pc + 32) div 8 < length bits"
  shows "\<exists>bits'. analyse_op b pc bits = Some (pc + push_size b, bits') \<and> marks bits pc (push_size b) bits'"
proof (cases "push_size b = 0")
  case True
  then show ?thesis
    by (simp add: analyse_op_def push_test)
next
  case False
  let ?n = "push_size b"
  have n: "?n \<le> 32"
    by (rule push_size_le)
  have "(pc + ?n) div 8 < length bits"
    using assms(2) n by (meson add_le_cancel_left div_le_mono le_less_trans)
  then obtain m c where g: "mark_groups ?n pc bits = Some (?n - m, pc + m, c)" "?n - m = ?n mod 8" "m \<le> ?n" "marks bits pc m c"
    using mark_groups_marks [OF assms(1)] by blast
  have "?n - m = 0 \<or> m \<le> 24"
  proof (cases "?n = 32")
    case False
    then have "m = 8 * (?n div 8)" "?n div 8 \<le> 3"
      using g(2,3) n minus_mod_eq_mult_div [of ?n 8] by auto
    then show ?thesis
      by simp
  qed (use g(2) in simp)
  then have "?n - m = 0 \<or> (pc + m) div 8 + 1 < length c"
    using assms(2) g(4) by (auto simp: marks_def)
  then obtain e where r: "mark_rest (?n - m) (pc + m) c = Some (pc + m + (?n - m), e)" "marks c (pc + m) (?n - m) e"
    using mark_rest_marks [of c "pc + m" "?n - m"] marks_clear [OF g(4) assms(1)] g(2) by auto
  have "m + (?n - m) = ?n"
    using g(3) by simp
  then show ?thesis
    using False g(1) r(1) marks_trans [OF g(4) r(2)] by (simp add: analyse_op_def push_test push_count Let_def add.assoc)
qed

lemma op_starts_ge: "p \<in> op_starts code pc \<Longrightarrow> pc \<le> p"
proof (induction code pc rule: op_starts.induct)
  case (1 code pc)
  from "1.prems" have "pc < length code" "p = pc \<or> p \<in> op_starts code (pc + 1 + push_size (code ! pc))"
    by (subst (asm) op_starts.simps, simp split: if_splits)+
  then show ?case
    using "1.IH" by fastforce
qed

lemma op_starts_unfold:
  "pc < length code \<Longrightarrow> p \<in> op_starts code pc \<longleftrightarrow> p = pc \<or> p \<in> op_starts code (pc + 1 + push_size (code ! pc))"
  by (subst op_starts.simps) auto

lemma codeBitmap_loop_marks:
  assumes "clear_from bits pc" "length bits = length code div 8 + 5" "length code - pc < fuel"
  shows "\<exists>bits'. codeBitmap_loop fuel code pc bits = Some bits' \<and> length bits' = length bits
    \<and> (\<forall>p < pc. bit_at bits' p = bit_at bits p) \<and> (\<forall>p. pc \<le> p \<longrightarrow> p < length code \<longrightarrow> bit_at bits' p = (p \<notin> op_starts code pc))"
  using assms
proof (induction fuel arbitrary: pc bits)
  case (Suc fuel)
  show ?case
  proof (cases "pc < length code")
    case True
    let ?n = "push_size (code ! pc)"
    have clear: "clear_from bits (pc + 1)"
      using Suc.prems(1) by (simp add: clear_from_def)
    have "(pc + 1 + 32) div 8 < length bits"
      using True Suc.prems(2) by simp
    then obtain b where b: "analyse_op (code ! pc) (pc + 1) bits = Some (pc + 1 + ?n, b)" "marks bits (pc + 1) ?n b"
      using analyse_op_marks [OF clear] by blast
    have "clear_from b (pc + 1 + ?n)" "length b = length code div 8 + 5" "length code - (pc + 1 + ?n) < fuel"
      using marks_clear [OF b(2) clear] b(2) Suc.prems True by (auto simp: marks_def)
    then obtain c where c: "codeBitmap_loop fuel code (pc + 1 + ?n) b = Some c" "length c = length b"
      "\<forall>p < pc + 1 + ?n. bit_at c p = bit_at b p" "\<forall>p. pc + 1 + ?n \<le> p \<longrightarrow> p < length code \<longrightarrow> bit_at c p = (p \<notin> op_starts code (pc + 1 + ?n))"
      using Suc.IH by blast
    have "bit_at c p = (p \<notin> op_starts code pc)" if "pc \<le> p" "p < length code" for p
    proof (cases "p < pc + 1 + ?n")
      case less: True
      then have "bit_at c p = (pc + 1 \<le> p)"
        using c(3) b(2) that Suc.prems(1) by (auto simp: marks_def clear_from_def)
      then show ?thesis
        using op_starts_unfold [OF True, of p] op_starts_ge [of p code "pc + 1 + ?n"] less that by auto
    next
      case False
      then show ?thesis
        using c(4) that op_starts_unfold [OF True, of p] by auto
    qed
    moreover have "bit_at c p = bit_at bits p" if "p < pc" for p
      using c(3) b(2) that by (auto simp: marks_def)
    ultimately show ?thesis
      using True b c by (auto simp: marks_def)
  qed simp
qed simp

lemma codeSegment_bit: "p div 8 < length bits \<Longrightarrow> codeSegment bits p = Some (\<not> bit_at bits p)"
  by (auto simp: codeSegment_def bit_at_def and_one_eq bit_iff_odd_drop_bit mod2_eq_if)

text \<open>C25: The jump analysis never panics, whatever the code, and \<open>codeSegment\<close> answers for every position of the
  code exactly whether an instruction starts there, in the reading of the code that steps over the argument
  of every \<open>PUSH\<close>: the bit operations on groups of 16, 8 and fewer bytes neither miss an argument byte nor
  mark an opcode, also when the code ends inside an argument.\<close>
theorem jump_analysis_is_exact:
  "\<exists>bits. codeBitmap code = Some bits \<and> (\<forall>pos < length code. codeSegment bits pos = Some (pos \<in> op_starts code 0))"
proof -
  let ?z = "replicate (length code div 8 + 1 + 4) 0 :: bitvec"
  have "clear_from ?z 0"
    by (simp add: clear_from_def bit_at_def)
  then obtain b where b: "codeBitmap_loop (length code + 1) code 0 ?z = Some b" "length b = length code div 8 + 5"
    "\<forall>p. p < length code \<longrightarrow> bit_at b p = (p \<notin> op_starts code 0)"
    using codeBitmap_loop_marks [of ?z 0 code "length code + 1"] by auto
  have "codeSegment b p = Some (p \<in> op_starts code 0)" if "p < length code" for p
    using that b(2,3) codeSegment_bit [of p b] div_le_mono [of p "length code" 8] by auto
  then show ?thesis
    using b(1) by (auto simp: codeBitmap_def codeBitmapInternal_def)
qed

text \<open>A \<open>PUSH2\<close> hides the two \<open>JUMPDEST\<close> bytes of its argument; the third one is an instruction.\<close>

lemma example_starts: "op_starts [0x61, 0x5b, 0x5b, 0x5b] 0 = {0, 3}"
proof -
  let ?c = "[0x61, 0x5b, 0x5b, 0x5b] :: bytes"
  have n: "push_size (?c ! 0) = 2" "push_size (?c ! 3) = 0"
    by (simp_all add: push_size_def)
  have "op_starts ?c 4 = {}"
    by (subst op_starts.simps) simp
  then have "op_starts ?c 3 = {3}"
    using n(2) by (subst op_starts.simps) simp
  then show ?thesis
    using n(1) by (subst op_starts.simps) (simp add: numeral_3_eq_3)
qed

theorem jump_analysis_is_exact_witness:
  "\<exists>bits. codeBitmap [0x61, 0x5b, 0x5b, 0x5b] = Some bits \<and> codeSegment bits 1 = Some False \<and> codeSegment bits 2 = Some False
     \<and> codeSegment bits 3 = Some True"
  using jump_analysis_is_exact [of "[0x61, 0x5b, 0x5b, 0x5b]"] by (auto simp: example_starts)

end
