(* ===== verification/Machine.thy ===== *)
theory Machine
  imports JumpAnalysis
begin

text \<open>
  The parts of the virtual machine that one frame owns: the operand stack (\<open>vm/stack.go\<close>), the byte memory
  (\<open>vm/memory.go\<close>), the helpers of \<open>vm/common.go\<close> and the memory sizes that the instructions need
  (\<open>vm/memory_table.go\<close>). An index or a slice out of range panics.

  A \<open>uint256.Int\<close> is a 256-bit word; \<open>Uint64()\<close> keeps its low 64 bits. The stack is written with its top
  first, the slice \<open>data\<close> of the source reversed. A slice expression may reach up to the capacity of the
  memory; the model lets it panic beyond the length, which the memory sizes exclude. \<open>max_alloc\<close> is the
  length of the longest slice the runtime makes.
\<close>

unbundle bit_operations_syntax

section \<open>The operand stack\<close>

type_synonym Stack = "uint256 list"

definition push :: "uint256 \<Rightarrow> Stack \<Rightarrow> Stack" where "push d st = d # st"

definition pop :: "Stack \<Rightarrow> (uint256 \<times> Stack) panics" where
  "pop st = (case st of [] \<Rightarrow> None | x # r \<Rightarrow> Some (x, r))"

definition peek :: "Stack \<Rightarrow> uint256 panics" where
  "peek st = (case st of [] \<Rightarrow> None | x # r \<Rightarrow> Some x)"

text \<open>A write through the pointer that \<open>peek\<close> returns.\<close>

definition set_top :: "uint256 \<Rightarrow> Stack \<Rightarrow> Stack panics" where
  "set_top v st = (case st of [] \<Rightarrow> None | x # r \<Rightarrow> Some (v # r))"

definition Back :: "nat \<Rightarrow> Stack \<Rightarrow> uint256 panics" where
  "Back n st = (if n < length st then Some (st ! n) else None)"

definition dup :: "nat \<Rightarrow> Stack \<Rightarrow> Stack panics" where
  "dup n st = (if 0 < n \<and> n \<le> length st then Some (push (st ! (n - 1)) st) else None)"

text \<open>\<open>swap1\<close> to \<open>swap16\<close>.\<close>

definition stack_swap :: "nat \<Rightarrow> Stack \<Rightarrow> Stack panics" where
  "stack_swap n st = (if n < length st then Some (st[n := st ! 0, 0 := st ! n]) else None)"

fun pops :: "nat \<Rightarrow> Stack \<Rightarrow> (uint256 list \<times> Stack) panics" where
  "pops 0 st = Some ([], st)"
| "pops (Suc n) st = do { (x, st1) \<leftarrow> pop st; (xs, st2) \<leftarrow> pops n st1; Some (x # xs, st2) }"

section \<open>Words\<close>

definition Uint64 :: "uint256 \<Rightarrow> uint64" where "Uint64 x = ucast x"

definition IsUint64 :: "uint256 \<Rightarrow> bool" where "IsUint64 x = (unat x < 2 ^ 64)"

definition SetBytes :: "bytes \<Rightarrow> uint256" where "SetBytes bs = of_nat (be_nat bs)"

definition bool_word :: "bool \<Rightarrow> uint256" where "bool_word b = (if b then 1 else 0)"

text \<open>Products and sums with the overflow flag.\<close>

definition SafeMul :: "uint64 \<Rightarrow> uint64 \<Rightarrow> uint64 \<times> bool" where
  "SafeMul x y = (x * y, 2 ^ 64 \<le> unat x * unat y)"

definition SafeAdd :: "uint64 \<Rightarrow> uint64 \<Rightarrow> uint64 \<times> bool" where
  "SafeAdd x y = (x + y, 2 ^ 64 \<le> unat x + unat y)"

section \<open>Memory\<close>

record Memory =
  store :: bytes
  lastGasCost :: uint64

definition NewMemory :: Memory where "NewMemory = \<lparr> store = [], lastGasCost = 0 \<rparr>"

text \<open>\<open>s[a:b]\<close>.\<close>

definition slice :: "bytes \<Rightarrow> uint64 \<Rightarrow> uint64 \<Rightarrow> bytes panics" where
  "slice s a b = (if a \<le> b \<and> unat b \<le> length s then Some (take (unat b - unat a) (drop (unat a) s)) else None)"

text \<open>\<open>copy(s[a:b], v)\<close>, or \<open>copy(s[a:], v)\<close> with the length for \<open>b\<close>.\<close>

definition overwrite :: "bytes \<Rightarrow> nat \<Rightarrow> nat \<Rightarrow> bytes \<Rightarrow> bytes" where
  "overwrite s a b v = (let n = min (b - a) (length v) in take a s @ take n v @ drop (a + n) s)"

definition mem_Set :: "uint64 \<Rightarrow> uint64 \<Rightarrow> bytes \<Rightarrow> Memory \<Rightarrow> Memory panics" where
  "mem_Set offset sz v m =
     (if 0 < sz
      then if length (store m) < unat (offset + sz) then None
           else if offset + sz < offset then None
           else Some (m\<lparr> store := overwrite (store m) (unat offset) (unat (offset + sz)) v \<rparr>)
      else Some m)"

definition Set32 :: "uint64 \<Rightarrow> uint256 \<Rightarrow> Memory \<Rightarrow> Memory panics" where
  "Set32 offset v m =
     (if length (store m) < unat (offset + 32) then None
      else if length (store m) < unat offset then None
      else Some (m\<lparr> store := overwrite (store m) (unat offset) (length (store m)) (hash_bytes v) \<rparr>))"

definition Resize :: "nat \<Rightarrow> uint64 \<Rightarrow> Memory \<Rightarrow> Memory panics" where
  "Resize max_alloc sz m =
     (if length (store m) < unat sz
      then if max_alloc < unat sz then None
           else Some (m\<lparr> store := store m @ replicate (unat sz - length (store m)) 0 \<rparr>)
      else Some m)"

definition GetCopy :: "uint64 \<Rightarrow> uint64 \<Rightarrow> Memory \<Rightarrow> bytes panics" where
  "GetCopy offset sz m = (if sz = 0 then Some [] else slice (store m) offset (offset + sz))"

definition GetPtr :: "uint64 \<Rightarrow> uint64 \<Rightarrow> Memory \<Rightarrow> bytes panics" where
  "GetPtr offset sz m = (if sz = 0 then Some [] else slice (store m) offset (offset + sz))"

definition mem_Len :: "Memory \<Rightarrow> nat" where "mem_Len m = length (store m)"

definition mem_Copy :: "uint64 \<Rightarrow> uint64 \<Rightarrow> uint64 \<Rightarrow> Memory \<Rightarrow> Memory panics" where
  "mem_Copy dst src len m =
     (if len = 0 then Some m
      else if length (store m) < unat dst then None
      else do {
        v \<leftarrow> slice (store m) src (src + len);
        Some (m\<lparr> store := overwrite (store m) (unat dst) (length (store m)) v \<rparr>) })"

text \<open>\<open>m.store[i] = b\<close>.\<close>

definition set_byte :: "uint64 \<Rightarrow> byte \<Rightarrow> Memory \<Rightarrow> Memory panics" where
  "set_byte i b m = (if unat i < length (store m) then Some (m\<lparr> store := (store m)[unat i := b] \<rparr>) else None)"

section \<open>Common helpers\<close>

definition calcMemSize64WithUint :: "uint256 \<Rightarrow> uint64 \<Rightarrow> uint64 \<times> bool" where
  "calcMemSize64WithUint off length64 =
     (if length64 = 0 then (0, False)
      else if \<not> IsUint64 off then (0, True)
      else let val = Uint64 off + length64 in (val, val < Uint64 off))"

definition calcMemSize64 :: "uint256 \<Rightarrow> uint256 \<Rightarrow> uint64 \<times> bool" where
  "calcMemSize64 off l = (if \<not> IsUint64 l then (0, True) else calcMemSize64WithUint off (Uint64 l))"

text \<open>\<open>RightPadBytes(s, l)\<close> of the go-ethereum library: unchanged when \<open>l\<close>, a signed int, is at most the length.\<close>

definition RightPadBytes :: "bytes \<Rightarrow> int \<Rightarrow> bytes" where
  "RightPadBytes s l = (if l \<le> int (length s) then s else s @ replicate (nat l - length s) 0)"

definition getData :: "bytes \<Rightarrow> uint64 \<Rightarrow> uint64 \<Rightarrow> bytes panics" where
  "getData d start sz = do {
     let len = (of_nat (length d) :: uint64);
     let start1 = (if len < start then len else start);
     let end1 = start1 + sz;
     let end2 = (if len < end1 then len else end1);
     s \<leftarrow> slice d start1 end2;
     Some (RightPadBytes s (sint sz)) }"

definition toWordSize :: "uint64 \<Rightarrow> uint64" where
  "toWordSize sz = (if - 1 - 31 < sz then - 1 div 32 + 1 else (sz + 31) div 32)"

fun allZero :: "bytes \<Rightarrow> bool" where
  "allZero [] = True"
| "allZero (b # bs) = (if b \<noteq> 0 then False else allZero bs)"

section \<open>Memory sizes of the instructions\<close>

definition size_at :: "nat \<Rightarrow> nat \<Rightarrow> Stack \<Rightarrow> (uint64 \<times> bool) panics" where
  "size_at i j st = do { a \<leftarrow> Back i st; b \<leftarrow> Back j st; Some (calcMemSize64 a b) }"

definition memoryKeccak256 :: "Stack \<Rightarrow> (uint64 \<times> bool) panics" where "memoryKeccak256 = size_at 0 1"
definition memoryCallDataCopy :: "Stack \<Rightarrow> (uint64 \<times> bool) panics" where "memoryCallDataCopy = size_at 0 2"
definition memoryReturnDataCopy :: "Stack \<Rightarrow> (uint64 \<times> bool) panics" where "memoryReturnDataCopy = size_at 0 2"
definition memoryCodeCopy :: "Stack \<Rightarrow> (uint64 \<times> bool) panics" where "memoryCodeCopy = size_at 0 2"
definition memoryExtCodeCopy :: "Stack \<Rightarrow> (uint64 \<times> bool) panics" where "memoryExtCodeCopy = size_at 1 3"
definition memoryCreate :: "Stack \<Rightarrow> (uint64 \<times> bool) panics" where "memoryCreate = size_at 1 2"
definition memoryCreate2 :: "Stack \<Rightarrow> (uint64 \<times> bool) panics" where "memoryCreate2 = size_at 1 2"
definition memoryReturn :: "Stack \<Rightarrow> (uint64 \<times> bool) panics" where "memoryReturn = size_at 0 1"
definition memoryRevert :: "Stack \<Rightarrow> (uint64 \<times> bool) panics" where "memoryRevert = size_at 0 1"
definition memoryLog :: "Stack \<Rightarrow> (uint64 \<times> bool) panics" where "memoryLog = size_at 0 1"

definition memoryMLoad :: "Stack \<Rightarrow> (uint64 \<times> bool) panics" where
  "memoryMLoad st = do { a \<leftarrow> Back 0 st; Some (calcMemSize64WithUint a 32) }"

definition memoryMStore8 :: "Stack \<Rightarrow> (uint64 \<times> bool) panics" where
  "memoryMStore8 st = do { a \<leftarrow> Back 0 st; Some (calcMemSize64WithUint a 1) }"

definition memoryMStore :: "Stack \<Rightarrow> (uint64 \<times> bool) panics" where
  "memoryMStore st = do { a \<leftarrow> Back 0 st; Some (calcMemSize64WithUint a 32) }"

definition memoryMcopy :: "Stack \<Rightarrow> (uint64 \<times> bool) panics" where
  "memoryMcopy st = do {
     dst \<leftarrow> Back 0 st; src \<leftarrow> Back 1 st;
     let mStart = (if dst < src then src else dst);
     l \<leftarrow> Back 2 st;
     Some (calcMemSize64 mStart l) }"

text \<open>The larger of the sizes of the result and of the arguments.\<close>

definition size_of_both :: "nat \<Rightarrow> nat \<Rightarrow> nat \<Rightarrow> nat \<Rightarrow> Stack \<Rightarrow> (uint64 \<times> bool) panics" where
  "size_of_both i j k l st = do {
     (x, o1) \<leftarrow> size_at i j st;
     if o1 then Some (0, True)
     else do {
       (y, o2) \<leftarrow> size_at k l st;
       if o2 then Some (0, True) else if y < x then Some (x, False) else Some (y, False) } }"

definition memoryCall :: "Stack \<Rightarrow> (uint64 \<times> bool) panics" where "memoryCall = size_of_both 5 6 3 4"
definition memoryDelegateCall :: "Stack \<Rightarrow> (uint64 \<times> bool) panics" where "memoryDelegateCall = size_of_both 4 5 2 3"
definition memoryStaticCall :: "Stack \<Rightarrow> (uint64 \<times> bool) panics" where "memoryStaticCall = size_of_both 4 5 2 3"

section \<open>Reading and writing inside the memory\<close>

text \<open>A region is inside the memory; an empty region is, wherever it starts.\<close>

definition in_memory :: "uint64 \<Rightarrow> uint64 \<Rightarrow> Memory \<Rightarrow> bool" where
  "in_memory off len m = (len = 0 \<or> unat off + unat len \<le> length (store m))"

text \<open>A slice is shorter than the signed 64-bit integers reach.\<close>

definition short_mem :: "Memory \<Rightarrow> bool" where
  "short_mem m = (length (store m) < 2 ^ 63)"

lemma unat_add_no_wrap: "unat (a :: uint64) + unat b < 2 ^ 64 \<Longrightarrow> unat (a + b) = unat a + unat b"
  by (simp add: unat_word_ariths)

lemma in_memory_end:
  "in_memory off len m \<Longrightarrow> short_mem m \<Longrightarrow> len \<noteq> 0 \<Longrightarrow> unat (off + len) = unat off + unat len \<and> unat off + unat len \<le> length (store m)"
  by (auto simp: in_memory_def short_mem_def intro!: unat_add_no_wrap)

lemma length_overwrite [simp]: "a \<le> b \<Longrightarrow> b \<le> length s \<Longrightarrow> length (overwrite s a b v) = length s"
  by (auto simp: overwrite_def Let_def)

lemma mem_Set_total:
  "in_memory off len m \<Longrightarrow> short_mem m \<Longrightarrow> \<exists>m'. mem_Set off len v m = Some m' \<and> length (store m') = length (store m)"
proof (cases "len = 0")
  case False
  assume "in_memory off len m" "short_mem m"
  then have e: "unat (off + len) = unat off + unat len" "unat off + unat len \<le> length (store m)"
    using in_memory_end False by blast+
  then have "\<not> off + len < off"
    by (simp add: word_less_nat_alt)
  then show ?thesis
    using e False by (simp add: mem_Set_def)
qed (simp add: mem_Set_def)

lemma slice_total: "a \<le> b \<Longrightarrow> unat b \<le> length s \<Longrightarrow> \<exists>v. slice s a b = Some v \<and> length v = unat b - unat a"
  by (auto simp: slice_def word_le_nat_alt)

lemma GetPtr_total: "in_memory off len m \<Longrightarrow> short_mem m \<Longrightarrow> \<exists>v. GetPtr off len m = Some v \<and> length v = unat len"
proof (cases "len = 0")
  case False
  assume "in_memory off len m" "short_mem m"
  then have e: "unat (off + len) = unat off + unat len" "unat off + unat len \<le> length (store m)"
    using in_memory_end False by blast+
  then show ?thesis
    using slice_total [of off "off + len" "store m"] False by (auto simp: GetPtr_def word_le_nat_alt)
qed (simp add: GetPtr_def)

lemma GetCopy_eq_GetPtr: "GetCopy off len m = GetPtr off len m"
  by (simp add: GetCopy_def GetPtr_def)

lemma Set32_total:
  "in_memory off 32 m \<Longrightarrow> short_mem m \<Longrightarrow> \<exists>m'. Set32 off v m = Some m' \<and> length (store m') = length (store m)"
  using in_memory_end [of off 32 m] by (auto simp: Set32_def)

lemma set_byte_total:
  "in_memory off 1 m \<Longrightarrow> short_mem m \<Longrightarrow> \<exists>m'. set_byte off b m = Some m' \<and> length (store m') = length (store m)"
  by (auto simp: set_byte_def in_memory_def)

lemma mem_Copy_total:
  "in_memory dst len m \<Longrightarrow> in_memory src len m \<Longrightarrow> short_mem m \<Longrightarrow> \<exists>m'. mem_Copy dst src len m = Some m' \<and> length (store m') = length (store m)"
proof (cases "len = 0")
  case False
  assume a: "in_memory dst len m" "in_memory src len m" "short_mem m"
  then have d: "unat dst + unat len \<le> length (store m)"
    and e: "unat (src + len) = unat src + unat len" "unat src + unat len \<le> length (store m)"
    using in_memory_end False by blast+
  then obtain v where "slice (store m) src (src + len) = Some v"
    using slice_total [of src "src + len" "store m"] by (auto simp: word_le_nat_alt)
  then show ?thesis
    using False d by (simp add: mem_Copy_def)
qed (simp add: mem_Copy_def)

text \<open>A size computed without overflow covers the region.\<close>

lemma calcMemSize64WithUint_covers:
  "calcMemSize64WithUint off l = (s, False) \<Longrightarrow> unat s \<le> length (store m) \<Longrightarrow> in_memory (Uint64 off) l m"
proof (cases "l = 0")
  case False
  assume a: "calcMemSize64WithUint off l = (s, False)" "unat s \<le> length (store m)"
  then have "s = Uint64 off + l" "\<not> s < Uint64 off"
    using False by (auto simp: calcMemSize64WithUint_def Let_def split: if_splits)
  then have "unat s = unat (Uint64 off) + unat l"
    using unat_plus_simple [of "Uint64 off" l] by (auto simp: not_less)
  then show ?thesis
    using a(2) by (simp add: in_memory_def)
qed (simp add: in_memory_def)

lemma calcMemSize64_covers:
  "calcMemSize64 off l = (s, False) \<Longrightarrow> unat s \<le> length (store m) \<Longrightarrow> in_memory (Uint64 off) (Uint64 l) m \<and> IsUint64 l"
  by (auto simp: calcMemSize64_def split: if_splits dest: calcMemSize64WithUint_covers)

lemma unat_Uint64: "IsUint64 x \<Longrightarrow> unat (Uint64 x) = unat x"
  by (simp add: IsUint64_def Uint64_def unsigned_ucast_eq take_bit_eq_mod)

lemma sint_small: "sint x = int (unat x)" if "unat x < 2 ^ 63" for x :: uint64
proof -
  have "- (2 ^ 63) \<le> uint x" "uint x < 2 ^ 63"
    using that unfolding unat_eq_nat_uint by (simp_all add: nat_less_iff order_trans [OF _ uint_ge_0] del: nat_uint_eq)
  then have "sint x = uint x"
    by (simp add: sint_uint signed_take_bit_int_eq_self)
  then show ?thesis
    by simp
qed

lemma length_RightPadBytes: "length v \<le> n \<Longrightarrow> length (RightPadBytes v (int n)) = n"
  by (auto simp: RightPadBytes_def)

text \<open>\<open>getData\<close> returns as many bytes as asked for when the size and the data are short.\<close>

lemma getData_total:
  assumes "length d < 2 ^ 63" "unat sz < 2 ^ 63"
  shows "\<exists>v. getData d start sz = Some v \<and> length v = unat sz"
proof -
  let ?len = "of_nat (length d) :: uint64"
  let ?s = "if ?len < start then ?len else start"
  let ?e = "if ?len < ?s + sz then ?len else ?s + sz"
  have len: "unat ?len = length d"
    using assms(1) by (simp add: unat_of_nat)
  have s: "unat ?s \<le> length d"
    using len by (auto simp: word_less_nat_alt)
  have "unat (?s + sz) = unat ?s + unat sz"
    using s assms by (intro unat_add_no_wrap) auto
  then have e: "unat ?e = min (length d) (unat ?s + unat sz)"
    using len by (auto simp: word_less_nat_alt)
  then obtain v where v: "slice d ?s ?e = Some v" "length v = unat ?e - unat ?s"
    using slice_total [of ?s ?e d] s by (auto simp: word_le_nat_alt)
  have "sint sz = int (unat sz)"
    using assms(2) by (rule sint_small)
  moreover have "length v \<le> unat sz"
    using v(2) e s by simp
  ultimately have "length (RightPadBytes v (sint sz)) = unat sz"
    using length_RightPadBytes [of v "unat sz"] by simp
  moreover have "getData d start sz = Some (RightPadBytes v (sint sz))"
    unfolding getData_def Let_def by (subst v(1)) simp
  ultimately show ?thesis
    by blast
qed

end
