(* ===== verification/Gas.thy ===== *)
theory Gas
  imports Evm Machine
begin

text \<open>
  What an instruction sees and changes, and the gas functions of \<open>vm/gas.go\<close>, \<open>vm/gas_table.go\<close> and
  \<open>vm/operations_acl.go\<close>. A gas function gives the gas and the error, the memory with the remembered fee
  and the world: some of them read the state, count refunds, warm the access list or set the gas of the
  next call. The functions for storing, calling and destroying return 0 before they do any of that.
\<close>

section \<open>The world of a frame\<close>

text \<open>\<open>BlockContext\<close>, \<open>TxContext\<close>; a nil pointer is \<open>None\<close>.\<close>

record BlockContext =
  bx_GetHash :: "uint64 \<Rightarrow> common_Hash panics"
  bx_Coinbase :: common_Address
  bx_GasLimit :: uint64
  bx_BlockNumber :: int
  bx_Time :: uint64
  bx_Difficulty :: "int option"
  bx_BaseFee :: "int option"
  bx_BlobBaseFee :: "int option"
  bx_Random :: "common_Hash option"

record TxContext =
  tx_Origin :: common_Address
  tx_GasPrice :: "int option"
  tx_BlobHashes :: "common_Hash list"

text \<open>What the interpreter and its EVM change: the state, the tables of answers, the messages sent, the count
  of identifiers drawn, the return data of the last call, the read-only flag, the depth, the gas of the
  next call and the analyses of code, which nested frames share.\<close>

record World =
  w_db :: StateDB
  w_maps :: ResMaps
  w_out :: evm_out
  w_uuids :: nat
  w_returnData :: bytes
  w_readOnly :: bool
  w_depth :: int
  w_callGasTemp :: uint64
  w_jumpdests :: "common_Hash \<rightharpoonup> bitvec"

text \<open>The operations of the \<open>uint256\<close> package beyond those of 256-bit words.\<close>

record U256 =
  u_SDiv :: "uint256 \<Rightarrow> uint256 \<Rightarrow> uint256"
  u_SMod :: "uint256 \<Rightarrow> uint256 \<Rightarrow> uint256"
  u_Exp :: "uint256 \<Rightarrow> uint256 \<Rightarrow> uint256"
  u_ExtendSign :: "uint256 \<Rightarrow> uint256 \<Rightarrow> uint256"
  u_Byte :: "uint256 \<Rightarrow> uint256 \<Rightarrow> uint256"
  u_AddMod :: "uint256 \<Rightarrow> uint256 \<Rightarrow> uint256 \<Rightarrow> uint256"
  u_MulMod :: "uint256 \<Rightarrow> uint256 \<Rightarrow> uint256 \<Rightarrow> uint256"
  u_BitLen :: "uint256 \<Rightarrow> nat"

text \<open>The calls and creations an instruction starts, with the frame that starts them.\<close>

type_synonym sub_result = "(bytes \<times> uint64 \<times> vm_error option \<times> World) panics"

record Calls =
  do_OpCall :: "Contract \<Rightarrow> common_Address \<Rightarrow> bytes \<Rightarrow> uint64 \<Rightarrow> uint256 \<Rightarrow> World \<Rightarrow> sub_result"
  do_CallCode :: "Contract \<Rightarrow> common_Address \<Rightarrow> bytes \<Rightarrow> uint64 \<Rightarrow> uint256 \<Rightarrow> World \<Rightarrow> sub_result"
  do_DelegateCall :: "Contract \<Rightarrow> common_Address \<Rightarrow> bytes \<Rightarrow> uint64 \<Rightarrow> World \<Rightarrow> sub_result"
  do_StaticCall :: "Contract \<Rightarrow> common_Address \<Rightarrow> bytes \<Rightarrow> uint64 \<Rightarrow> World \<Rightarrow> sub_result"
  do_Create :: "Contract \<Rightarrow> bytes \<Rightarrow> uint64 \<Rightarrow> uint256 \<Rightarrow> World \<Rightarrow> (bytes \<times> common_Address \<times> uint64 \<times> vm_error option \<times> World) panics"
  do_Create2 :: "Contract \<Rightarrow> bytes \<Rightarrow> uint64 \<Rightarrow> uint256 \<Rightarrow> uint256 \<Rightarrow> World \<Rightarrow> (bytes \<times> common_Address \<times> uint64 \<times> vm_error option \<times> World) panics"

text \<open>\<open>vm_chainConfig\<close>: the pointer to the configuration, and in it the pointer to the chain identifier.\<close>

record VmEnv =
  vm_ev :: EvmEnv
  vm_block :: BlockContext
  vm_tx :: TxContext
  vm_chainConfig :: "int option option"
  vm_abort :: bool
  vm_max_alloc :: nat
  vm_u256 :: U256
  vm_calls :: Calls

abbreviation vm_state :: "VmEnv \<Rightarrow> StateEnv" where "vm_state env \<equiv> ev_state (vm_ev env)"

text \<open>The calls of \<open>vm/evm.go\<close> as the instructions start them: \<open>uuid\<close> supplies the identifiers, of which
  one is set aside for each call.\<close>

definition call_in_world :: "(World \<Rightarrow> call_result panics) \<Rightarrow> World \<Rightarrow> sub_result" where
  "call_in_world f w = do {
     (out, rm, ret, gas, err, s) \<leftarrow> f w;
     Some (ret, gas, err, w\<lparr> w_db := s, w_maps := rm, w_out := w_out w @ out, w_uuids := w_uuids w + 1 \<rparr>) }"

definition create_in_world ::
  "(World \<Rightarrow> create_result panics) \<Rightarrow> World \<Rightarrow> (bytes \<times> common_Address \<times> uint64 \<times> vm_error option \<times> World) panics" where
  "create_in_world f w = do {
     (out, rm, ret, addr, gas, err, s) \<leftarrow> f w;
     Some (ret, addr, gas, err, w\<lparr> w_db := s, w_maps := rm, w_out := w_out w @ out, w_uuids := w_uuids w + 1 \<rparr>) }"

definition evm_calls :: "EvmEnv \<Rightarrow> (nat \<Rightarrow> string) \<Rightarrow> Calls" where
  "evm_calls ev uuid = \<lparr>
     do_OpCall = (\<lambda>c a inp gas val. call_in_world
       (\<lambda>w. OpCall (ev\<lparr> ev_depth := w_depth w \<rparr>) c a inp gas val (uuid (w_uuids w)) (w_maps w) (w_db w))),
     do_CallCode = (\<lambda>c a inp gas val. call_in_world
       (\<lambda>w. CallCode (ev\<lparr> ev_depth := w_depth w \<rparr>) c a inp gas val (w_maps w) (w_db w))),
     do_DelegateCall = (\<lambda>c a inp gas. call_in_world
       (\<lambda>w. DelegateCall (ev\<lparr> ev_depth := w_depth w \<rparr>) c a inp gas (w_maps w) (w_db w))),
     do_StaticCall = (\<lambda>c a inp gas. call_in_world
       (\<lambda>w. StaticCall (ev\<lparr> ev_depth := w_depth w \<rparr>) c a inp gas (uuid (w_uuids w)) (w_maps w) (w_db w))),
     do_Create = (\<lambda>c inp gas val. create_in_world
       (\<lambda>w. Create (ev\<lparr> ev_depth := w_depth w \<rparr>) (Self c) inp gas val (c_UUID c) (uuid (w_uuids w)) (w_maps w) (w_db w))),
     do_Create2 = (\<lambda>c inp gas val salt. create_in_world
       (\<lambda>w. Create2 (ev\<lparr> ev_depth := w_depth w \<rparr>) (Self c) inp gas val salt (c_UUID c) (uuid (w_uuids w)) (w_maps w) (w_db w))) \<rparr>"

section \<open>Gas functions\<close>

type_synonym gas_result = "(uint64 \<times> vm_error option \<times> Memory \<times> World) panics"
type_synonym gasFunc = "VmEnv \<Rightarrow> Contract \<Rightarrow> Stack \<Rightarrow> Memory \<Rightarrow> uint64 \<Rightarrow> World \<Rightarrow> gas_result"

definition callGas :: "bool \<Rightarrow> uint64 \<Rightarrow> uint64 \<Rightarrow> uint256 \<Rightarrow> uint64 \<times> vm_error option" where
  "callGas isEip150 availableGas base callCost =
     (let available = availableGas - base; gas = available - available div 64 in
      if isEip150 \<and> (\<not> IsUint64 callCost \<or> gas < Uint64 callCost) then (gas, None)
      else if \<not> IsUint64 callCost then (0, Some ErrGasUintOverflow)
      else (Uint64 callCost, None))"

definition memoryGasCost :: "Memory \<Rightarrow> uint64 \<Rightarrow> uint64 \<times> vm_error option \<times> Memory" where
  "memoryGasCost mem newMemSize =
     (if newMemSize = 0 then (0, None, mem)
      else if 0x1FFFFFFFE0 < newMemSize then (0, Some ErrGasUintOverflow, mem)
      else let newMemSizeWords = toWordSize newMemSize; newMemSize1 = newMemSizeWords * 32 in
        if of_nat (mem_Len mem) < newMemSize1
        then let square = newMemSizeWords * newMemSizeWords;
                 linCoef = newMemSizeWords * 3;
                 quadCoef = square div 512;
                 newTotalFee = linCoef + quadCoef;
                 fee = newTotalFee - lastGasCost mem
             in (fee, None, mem\<lparr> lastGasCost := newTotalFee \<rparr>)
        else (0, None, mem))"

text \<open>Adding to the gas of the memory: \<open>k\<close> continues without an error of the memory.\<close>

definition after_memory :: "Memory \<Rightarrow> uint64 \<Rightarrow> World \<Rightarrow> (uint64 \<Rightarrow> Memory \<Rightarrow> gas_result) \<Rightarrow> gas_result" where
  "after_memory mem memorySize w k =
     (let (gas, err, mem1) = memoryGasCost mem memorySize in
      case err of Some e \<Rightarrow> Some (0, Some e, mem1, w) | None \<Rightarrow> k gas mem1)"

definition word_gas :: "uint256 \<Rightarrow> uint64 \<Rightarrow> uint64 \<Rightarrow> uint64 \<times> vm_error option" where
  "word_gas x perWord gas =
     (if \<not> IsUint64 x then (0, Some ErrGasUintOverflow)
      else let (words, o1) = SafeMul (toWordSize (Uint64 x)) perWord in
        if o1 then (0, Some ErrGasUintOverflow)
        else let (g, o2) = SafeAdd gas words in if o2 then (0, Some ErrGasUintOverflow) else (g, None))"

definition memoryCopierGas :: "nat \<Rightarrow> gasFunc" where
  "memoryCopierGas stackpos env c st mem memorySize w = after_memory mem memorySize w (\<lambda>gas mem1. do {
     x \<leftarrow> Back stackpos st;
     let (g, e) = word_gas x 3 gas;
     Some (g, e, mem1, w) })"

definition gasKeccak256 :: gasFunc where
  "gasKeccak256 env c st mem memorySize w = after_memory mem memorySize w (\<lambda>gas mem1. do {
     x \<leftarrow> Back 1 st;
     let (g, e) = word_gas x 6 gas;
     Some (g, e, mem1, w) })"

definition pureMemoryGascost :: gasFunc where
  "pureMemoryGascost env c st mem memorySize w = (let (g, e, mem1) = memoryGasCost mem memorySize in Some (g, e, mem1, w))"

definition gasCreate2 :: gasFunc where
  "gasCreate2 env c st mem memorySize w = after_memory mem memorySize w (\<lambda>gas mem1. do {
     x \<leftarrow> Back 2 st;
     let (g, e) = word_gas x 6 gas;
     Some (g, e, mem1, w) })"

definition init_code_gas :: "uint64 \<Rightarrow> gasFunc" where
  "init_code_gas perWord env c st mem memorySize w = after_memory mem memorySize w (\<lambda>gas mem1. do {
     x \<leftarrow> Back 2 st;
     if \<not> IsUint64 x then Some (0, Some ErrGasUintOverflow, mem1, w)
     else if 2 * 24576 < Uint64 x then Some (0, Some (ErrMaxInitCodeSizeExceeded (Uint64 x)), mem1, w)
     else do {
       let (g, ov) = SafeAdd gas (perWord * ((Uint64 x + 31) div 32));
       if ov then Some (0, Some ErrGasUintOverflow, mem1, w) else Some (g, None, mem1, w) } })"

definition gasCreateEip3860 :: gasFunc where "gasCreateEip3860 = init_code_gas 2"

definition gasCreate2Eip3860 :: gasFunc where "gasCreate2Eip3860 = init_code_gas (2 + 6)"

definition exp_gas :: "uint64 \<Rightarrow> gasFunc" where
  "exp_gas perByte env c st mem memorySize w = do {
     x \<leftarrow> Back 1 st;
     let expByteLen = of_nat ((u_BitLen (vm_u256 env) x + 7) div 8);
     let (g, ov) = SafeAdd (expByteLen * perByte) 10;
     if ov then Some (0, Some ErrGasUintOverflow, mem, w) else Some (g, None, mem, w) }"

definition gasExpFrontier :: gasFunc where "gasExpFrontier = exp_gas 10"

definition gasExpEIP158 :: gasFunc where "gasExpEIP158 = exp_gas 50"

definition makeGasLog :: "uint64 \<Rightarrow> gasFunc" where
  "makeGasLog n env c st mem memorySize w = do {
     x \<leftarrow> Back 1 st;
     if \<not> IsUint64 x then Some (0, Some ErrGasUintOverflow, mem, w)
     else after_memory mem memorySize w (\<lambda>gas mem1.
       let (g1, o1) = SafeAdd gas 375; (g2, o2) = SafeAdd g1 (n * 375);
           (d, o3) = SafeMul (Uint64 x) 8; (g3, o4) = SafeAdd g2 d
       in if o1 \<or> o2 \<or> o3 \<or> o4 then Some (0, Some ErrGasUintOverflow, mem1, w) else Some (g3, None, mem1, w)) }"

section \<open>Gas of storing\<close>

text \<open>The refunds that both forms of net metering count, with their amounts; the state after them and whether
  the slot was clean.\<close>

definition sstore_refunds ::
  "StateEnv \<Rightarrow> common_Hash \<Rightarrow> common_Hash \<Rightarrow> common_Hash \<Rightarrow> uint64 \<Rightarrow> uint64 \<Rightarrow> uint64 \<Rightarrow> StateDB \<Rightarrow> StateDB panics" where
  "sstore_refunds env original current val clearing resetClear reset s = do {
     s1 \<leftarrow> (if original \<noteq> 0
            then if current = 0 then SubRefund env clearing s
                 else if val = 0 then Some (AddRefund env clearing s) else Some s
            else Some s);
     Some (if original = val then AddRefund env (if original = 0 then resetClear else reset) s1 else s1) }"

definition net_sstore ::
  "uint64 \<Rightarrow> uint64 \<Rightarrow> uint64 \<Rightarrow> uint64 \<Rightarrow> uint64 \<Rightarrow> uint64 \<Rightarrow> uint64 \<Rightarrow> gasFunc" where
  "net_sstore noop init clean dirtyGas clearing resetClear reset env c st mem memorySize w = do {
     y \<leftarrow> Back 1 st; x \<leftarrow> Back 0 st;
     let (current, s1) = GetState (vm_state env) (Self c) x (w_db w);
     if current = y then Some (noop, None, mem, w\<lparr> w_db := s1 \<rparr>)
     else do {
       let (original, s2) = GetCommittedState (vm_state env) (Self c) x s1;
       if original = current
       then if original = 0 then Some (init, None, mem, w\<lparr> w_db := s2 \<rparr>)
            else Some (clean, None, mem, w\<lparr> w_db := (if y = 0 then AddRefund (vm_state env) clearing s2 else s2) \<rparr>)
       else do {
         s3 \<leftarrow> sstore_refunds (vm_state env) original current y clearing resetClear reset s2;
         Some (dirtyGas, None, mem, w\<lparr> w_db := s3 \<rparr>) } } }"

definition gasSStore :: gasFunc where
  "gasSStore = net_sstore 200 20000 5000 200 15000 19800 4800"

definition gasSStoreEIP2200 :: gasFunc where
  "gasSStoreEIP2200 env c st mem memorySize w =
     (if c_Gas c \<le> 2300 then Some (0, Some (OtherErr ''not enough gas for reentrancy sentry''), mem, w)
      else net_sstore 800 20000 5000 800 15000 (20000 - 800) (5000 - 800) env c st mem memorySize w)"

text \<open>\<open>makeGasSStoreFunc\<close>: the returned function ends with its first statement.\<close>

definition makeGasSStoreFunc :: "uint64 \<Rightarrow> gasFunc" where
  "makeGasSStoreFunc clearingRefund env c st mem memorySize w = Some (0, None, mem, w)"

section \<open>Gas of reading state\<close>

definition gasSLoadEIP2929 :: gasFunc where
  "gasSLoadEIP2929 env c st mem memorySize w = do {
     loc \<leftarrow> peek st;
     (addrPresent, slotPresent) \<leftarrow> Contains (accList (w_db w)) (Self c) loc;
     if \<not> slotPresent then do {
       s1 \<leftarrow> AddSlotToAccessList (vm_state env) (Self c) loc (w_db w);
       Some (2100, None, mem, w\<lparr> w_db := s1 \<rparr>) }
     else Some (100, None, mem, w) }"

definition gasExtCodeCopy :: gasFunc where "gasExtCodeCopy = memoryCopierGas 3"

definition gasExtCodeCopyEIP2929 :: gasFunc where
  "gasExtCodeCopyEIP2929 env c st mem memorySize w = do {
     (gas, err, mem1, w1) \<leftarrow> gasExtCodeCopy env c st mem memorySize w;
     case err of
       Some e \<Rightarrow> Some (0, Some e, mem1, w1)
     | None \<Rightarrow> do {
         a \<leftarrow> peek st;
         if \<not> ContainsAddress (accList (w_db w1)) (ucast a) then do {
           let w2 = w1\<lparr> w_db := AddAddressToAccessList (vm_state env) (ucast a) (w_db w1) \<rparr>;
           let (g, ov) = SafeAdd gas (2600 - 100);
           if ov then Some (0, Some ErrGasUintOverflow, mem1, w2) else Some (g, None, mem1, w2) }
         else Some (gas, None, mem1, w1) } }"

definition gasEip2929AccountCheck :: gasFunc where
  "gasEip2929AccountCheck env c st mem memorySize w = do {
     a \<leftarrow> peek st;
     if \<not> ContainsAddress (accList (w_db w)) (ucast a)
     then Some (2600 - 100, None, mem, w\<lparr> w_db := AddAddressToAccessList (vm_state env) (ucast a) (w_db w) \<rparr>)
     else Some (0, None, mem, w) }"

definition gasOpbalanceAccountCheck :: gasFunc where
  "gasOpbalanceAccountCheck env c st mem memorySize w = do {
     a \<leftarrow> peek st;
     shard \<leftarrow> home_shard (vm_ev env) (ucast a);
     if shard \<noteq> ev_ShardID (vm_ev env) then Some (20, None, mem, w) else Some (0, None, mem, w) }"

section \<open>Gas of calls\<close>

text \<open>The common end: the gas of the call by the 63/64 rule, remembered for the instruction, and the sum.\<close>

definition with_call_gas :: "Contract \<Rightarrow> Stack \<Rightarrow> uint64 \<Rightarrow> Memory \<Rightarrow> World \<Rightarrow> gas_result" where
  "with_call_gas c st gas mem w = do {
     x \<leftarrow> Back 0 st;
     let (cg, err) = callGas True (c_Gas c) gas x;
     let w1 = w\<lparr> w_callGasTemp := cg \<rparr>;
     case err of
       Some e \<Rightarrow> Some (0, Some e, mem, w1)
     | None \<Rightarrow> let (g, ov) = SafeAdd gas cg in
         if ov then Some (0, Some ErrGasUintOverflow, mem, w1) else Some (g, None, mem, w1) }"

definition gasCall :: gasFunc where
  "gasCall env c st mem memorySize w = do {
     val \<leftarrow> Back 2 st; a \<leftarrow> Back 1 st;
     let (ex, s1) = Exist (vm_state env) (ucast a) (w_db w);
     let w1 = w\<lparr> w_db := s1 \<rparr>;
     let base = (if ex then 0 else 25000) + (if val \<noteq> 0 then 9000 else 0);
     after_memory mem memorySize w1 (\<lambda>memoryGas mem1.
       let (gas, ov) = SafeAdd base memoryGas in
       if ov then Some (0, Some ErrGasUintOverflow, mem1, w1) else with_call_gas c st gas mem1 w1) }"

definition gasCallCode :: gasFunc where
  "gasCallCode env c st mem memorySize w = after_memory mem memorySize w (\<lambda>memoryGas mem1. do {
     val \<leftarrow> Back 2 st;
     let (gas, ov) = SafeAdd (if val \<noteq> 0 then 9000 else 0) memoryGas;
     if ov then Some (0, Some ErrGasUintOverflow, mem1, w) else with_call_gas c st gas mem1 w })"

definition gasDelegateCall :: gasFunc where
  "gasDelegateCall env c st mem memorySize w = after_memory mem memorySize w (\<lambda>gas mem1. with_call_gas c st gas mem1 w)"

definition gasStaticCall :: gasFunc where
  "gasStaticCall env c st mem memorySize w = after_memory mem memorySize w (\<lambda>gas mem1. with_call_gas c st gas mem1 w)"

text \<open>\<open>makeCallVariantGasCallEIP2929\<close>: the returned function ends with its first statement; it neither calls
  the old calculator nor sets the gas of the call.\<close>

definition makeCallVariantGasCallEIP2929 :: "gasFunc \<Rightarrow> gasFunc" where
  "makeCallVariantGasCallEIP2929 oldCalculator env c st mem memorySize w = Some (0, None, mem, w)"

section \<open>Gas of destroying\<close>

definition gasSelfdestruct :: gasFunc where
  "gasSelfdestruct env c st mem memorySize w = do {
     a \<leftarrow> Back 0 st;
     let (emp, s1) = Empty_db (vm_state env) (ucast a) (w_db w);
     let (charge, s2) =
       (if emp then let (b, s') = GetBalance (vm_state env) (Self c) s1 in
                    if b \<noteq> 0 then (True, s') else let (ex, s'') = Exist (vm_state env) (ucast a) s' in (\<not> ex, s'')
        else let (ex, s') = Exist (vm_state env) (ucast a) s1 in (\<not> ex, s'));
     let (gone, s3) = HasSelfDestructed (vm_state env) (Self c) s2;
     let s4 = (if gone then s3 else AddRefund (vm_state env) 24000 s3);
     Some (5000 + (if charge then 25000 else 0), None, mem, w\<lparr> w_db := s4 \<rparr>) }"

text \<open>\<open>makeSelfdestructGasFn\<close>: here too the first statement returns.\<close>

definition makeSelfdestructGasFn :: "bool \<Rightarrow> gasFunc" where
  "makeSelfdestructGasFn refundsEnabled env c st mem memorySize w = Some (0, None, mem, w)"

end
