(* ===== verification/Instructions.thy ===== *)
theory Instructions
  imports Gas
begin

text \<open>
  The instructions of \<open>vm/instructions.go\<close> and the later ones of \<open>vm/eips.go\<close>, with the jump checks and the gas
  counter of \<open>vm/contract.go\<close>. An instruction takes the frame (program counter, stack, memory, contract) and
  the world, and gives the returned bytes and the error with both afterwards; \<open>errStopToken\<close> is the error
  that ends a run normally.

  A \<open>common.Hash\<close> is a 256-bit word, \<open>Bytes20\<close> keeps the low 160 bits. Witness, tracer and the recording of
  preimages are off in this program and are left out.
\<close>

unbundle bit_operations_syntax

section \<open>Frames\<close>

record Scope =
  sc_pc :: uint64
  sc_stack :: Stack
  sc_mem :: Memory
  sc_contract :: Contract
  sc_analysis :: "bitvec option"
  sc_input :: bytes

type_synonym exec_result = "(bytes \<times> vm_error option \<times> Scope \<times> World) panics"
type_synonym executionFunc = "VmEnv \<Rightarrow> Scope \<Rightarrow> World \<Rightarrow> exec_result"

definition proceed :: "Scope \<Rightarrow> World \<Rightarrow> exec_result" where
  "proceed sc w = Some ([], None, sc, w)"

definition fail :: "vm_error \<Rightarrow> Scope \<Rightarrow> World \<Rightarrow> exec_result" where
  "fail e sc w = Some ([], Some e, sc, w)"

text \<open>The shapes of most instructions: replace the top, or the top after one or two pops; push.\<close>

definition unary :: "(uint256 \<Rightarrow> uint256) \<Rightarrow> executionFunc" where
  "unary f env sc w = do { x \<leftarrow> peek (sc_stack sc); st \<leftarrow> set_top (f x) (sc_stack sc); proceed (sc\<lparr> sc_stack := st \<rparr>) w }"

definition binary :: "(uint256 \<Rightarrow> uint256 \<Rightarrow> uint256) \<Rightarrow> executionFunc" where
  "binary f env sc w = do {
     (x, st) \<leftarrow> pop (sc_stack sc); y \<leftarrow> peek st; st1 \<leftarrow> set_top (f x y) st; proceed (sc\<lparr> sc_stack := st1 \<rparr>) w }"

definition ternary :: "(uint256 \<Rightarrow> uint256 \<Rightarrow> uint256 \<Rightarrow> uint256) \<Rightarrow> executionFunc" where
  "ternary f env sc w = do {
     (x, st) \<leftarrow> pop (sc_stack sc); (y, st1) \<leftarrow> pop st; z \<leftarrow> peek st1; st2 \<leftarrow> set_top (f x y z) st1;
     proceed (sc\<lparr> sc_stack := st2 \<rparr>) w }"

definition pushing :: "uint256 \<Rightarrow> Scope \<Rightarrow> World \<Rightarrow> exec_result" where
  "pushing v sc w = proceed (sc\<lparr> sc_stack := push v (sc_stack sc) \<rparr>) w"

text \<open>A \<open>*big.Int\<close> as a word; a nil pointer gives a nil \<open>uint256.Int\<close>, and pushing it panics.\<close>

definition push_big :: "int option \<Rightarrow> Scope \<Rightarrow> World \<Rightarrow> exec_result" where
  "push_big b sc w = (case b of None \<Rightarrow> None | Some i \<Rightarrow> pushing (word_of_int i) sc w)"

definition push_nat :: "nat \<Rightarrow> Scope \<Rightarrow> World \<Rightarrow> exec_result" where
  "push_nat n sc w = pushing (ucast (of_nat n :: uint64)) sc w"

section \<open>Arithmetic and bits\<close>

definition opAdd :: executionFunc where "opAdd = binary (\<lambda>x y. x + y)"
definition opSub :: executionFunc where "opSub = binary (\<lambda>x y. x - y)"
definition opMul :: executionFunc where "opMul = binary (\<lambda>x y. x * y)"
definition opDiv :: executionFunc where "opDiv = binary (\<lambda>x y. if y = 0 then 0 else x div y)"
definition opSdiv :: executionFunc where "opSdiv env = binary (u_SDiv (vm_u256 env)) env"
definition opMod :: executionFunc where "opMod = binary (\<lambda>x y. if y = 0 then 0 else x mod y)"
definition opSmod :: executionFunc where "opSmod env = binary (u_SMod (vm_u256 env)) env"
definition opExp :: executionFunc where "opExp env = binary (u_Exp (vm_u256 env)) env"
definition opSignExtend :: executionFunc where "opSignExtend env = binary (\<lambda>back num. u_ExtendSign (vm_u256 env) num back) env"
definition opNot :: executionFunc where "opNot = unary (\<lambda>x. NOT x)"
definition opLt :: executionFunc where "opLt = binary (\<lambda>x y. bool_word (x < y))"
definition opGt :: executionFunc where "opGt = binary (\<lambda>x y. bool_word (y < x))"
definition opSlt :: executionFunc where "opSlt = binary (\<lambda>x y. bool_word (sint x < sint y))"
definition opSgt :: executionFunc where "opSgt = binary (\<lambda>x y. bool_word (sint y < sint x))"
definition opEq :: executionFunc where "opEq = binary (\<lambda>x y. bool_word (x = y))"
definition opIszero :: executionFunc where "opIszero = unary (\<lambda>x. bool_word (x = 0))"
definition opAnd :: executionFunc where "opAnd = binary (\<lambda>x y. x AND y)"
definition opOr :: executionFunc where "opOr = binary (\<lambda>x y. x OR y)"
definition opXor :: executionFunc where "opXor = binary (\<lambda>x y. x XOR y)"
definition opByte :: executionFunc where "opByte env = binary (\<lambda>th val. u_Byte (vm_u256 env) val th) env"
definition opAddmod :: executionFunc where "opAddmod env = ternary (u_AddMod (vm_u256 env)) env"
definition opMulmod :: executionFunc where "opMulmod env = ternary (u_MulMod (vm_u256 env)) env"

definition opSHL :: executionFunc where
  "opSHL = binary (\<lambda>shift val. if unat shift < 256 then push_bit (unat (Uint64 shift)) val else 0)"

definition opSHR :: executionFunc where
  "opSHR = binary (\<lambda>shift val. if unat shift < 256 then drop_bit (unat (Uint64 shift)) val else 0)"

definition opSAR :: executionFunc where
  "opSAR = binary (\<lambda>shift val. if 256 < unat shift then if 0 \<le> sint val then 0 else - 1
                              else signed_drop_bit (unat (Uint64 shift)) val)"

definition opKeccak256 :: executionFunc where
  "opKeccak256 env sc w = do {
     (offset, st) \<leftarrow> pop (sc_stack sc); sz \<leftarrow> peek st;
     d \<leftarrow> GetPtr (Uint64 offset) (Uint64 sz) (sc_mem sc);
     st1 \<leftarrow> set_top (Keccak256Hash (vm_state env) d) st;
     proceed (sc\<lparr> sc_stack := st1 \<rparr>) w }"

section \<open>The environment\<close>

definition opAddress :: executionFunc where "opAddress env sc = pushing (ucast (Self (sc_contract sc))) sc"
definition opOrigin :: executionFunc where "opOrigin env = pushing (ucast (tx_Origin (vm_tx env)))"
definition opCaller :: executionFunc where "opCaller env sc = pushing (ucast (CallerAddress (sc_contract sc))) sc"
definition opCallValue :: executionFunc where "opCallValue env sc = pushing (c_Value (sc_contract sc)) sc"

text \<open>The balance of an account: of another shard, by a request whose answer is keyed by the address; without
  an answer in time the balance is 0.\<close>

definition opBalance :: executionFunc where
  "opBalance env sc w = do {
     slot \<leftarrow> peek (sc_stack sc);
     let a = ucast slot;
     let key = hex_EncodeToString (address_bytes a);
     shard \<leftarrow> home_shard (vm_ev env) a;
     let (res, w1) =
       (if shard \<noteq> ev_ShardID (vm_ev env)
        then let tbl = OpBalanceResMap (w_maps w);
                 w1 = w\<lparr> w_out := w_out w @ [(ev_ip (vm_ev env) shard, COpbalanceReq (code_request (vm_ev env) a))],
                         w_maps := (w_maps w)\<lparr> OpBalanceResMap := tbl(key := None) \<rparr> \<rparr>
             in (case tbl key of None \<Rightarrow> 0 | Some b \<Rightarrow> ucast b, w1)
        else let (b, s1) = GetBalance (vm_state env) a (w_db w) in (b, w\<lparr> w_db := s1 \<rparr>));
     st \<leftarrow> set_top res (sc_stack sc);
     proceed (sc\<lparr> sc_stack := st \<rparr>) w1 }"

definition opSelfBalance :: executionFunc where
  "opSelfBalance env sc w =
     (let (b, s1) = GetBalance (vm_state env) (Self (sc_contract sc)) (w_db w) in pushing b sc (w\<lparr> w_db := s1 \<rparr>))"

definition opCallDataLoad :: executionFunc where
  "opCallDataLoad env sc w = do {
     x \<leftarrow> peek (sc_stack sc);
     v \<leftarrow> (if IsUint64 x then do { d \<leftarrow> getData (sc_input sc) (Uint64 x) 32; Some (SetBytes d) } else Some 0);
     st \<leftarrow> set_top v (sc_stack sc);
     proceed (sc\<lparr> sc_stack := st \<rparr>) w }"

definition opCallDataSize :: executionFunc where "opCallDataSize env sc = push_nat (length (sc_input sc)) sc"

text \<open>Copying data into the memory; an offset beyond 64 bits counts as the largest one.\<close>

definition clip :: "uint256 \<Rightarrow> uint64" where "clip x = (if IsUint64 x then Uint64 x else - 1)"

definition copy_data :: "bytes \<Rightarrow> Stack \<Rightarrow> Scope \<Rightarrow> World \<Rightarrow> exec_result" where
  "copy_data d st sc w = do {
     (memOffset, st1) \<leftarrow> pop st; (dataOffset, st2) \<leftarrow> pop st1; (len, st3) \<leftarrow> pop st2;
     v \<leftarrow> getData d (clip dataOffset) (Uint64 len);
     m \<leftarrow> mem_Set (Uint64 memOffset) (Uint64 len) v (sc_mem sc);
     proceed (sc\<lparr> sc_stack := st3, sc_mem := m \<rparr>) w }"

definition opCallDataCopy :: executionFunc where
  "opCallDataCopy env sc w = copy_data (sc_input sc) (sc_stack sc) sc w"

definition opCodeCopy :: executionFunc where
  "opCodeCopy env sc w = copy_data (c_Code (sc_contract sc)) (sc_stack sc) sc w"

definition opExtCodeCopy :: executionFunc where
  "opExtCodeCopy env sc w = do {
     (a, st) \<leftarrow> pop (sc_stack sc);
     let (cd, s1) = GetCode (vm_state env) (ucast a) (w_db w);
     copy_data cd st sc (w\<lparr> w_db := s1 \<rparr>) }"

definition opReturnDataSize :: executionFunc where "opReturnDataSize env sc w = push_nat (length (w_returnData w)) sc w"

definition opReturnDataCopy :: executionFunc where
  "opReturnDataCopy env sc w = do {
     (memOffset, st) \<leftarrow> pop (sc_stack sc); (dataOffset, st1) \<leftarrow> pop st; (len, st2) \<leftarrow> pop st1;
     let sc1 = sc\<lparr> sc_stack := st2 \<rparr>;
     if \<not> IsUint64 dataOffset then fail ErrReturnDataOutOfBounds sc1 w
     else do {
       let end1 = dataOffset + len;
       if \<not> IsUint64 end1 \<or> of_nat (length (w_returnData w)) < Uint64 end1 then fail ErrReturnDataOutOfBounds sc1 w
       else do {
         v \<leftarrow> slice (w_returnData w) (Uint64 dataOffset) (Uint64 end1);
         m \<leftarrow> mem_Set (Uint64 memOffset) (Uint64 len) v (sc_mem sc);
         proceed (sc1\<lparr> sc_mem := m \<rparr>) w } } }"

definition opExtCodeSize :: executionFunc where
  "opExtCodeSize env sc w = do {
     slot \<leftarrow> peek (sc_stack sc);
     let (n, s1) = GetCodeSize (vm_state env) (ucast slot) (w_db w);
     st \<leftarrow> set_top (ucast (of_nat n :: uint64)) (sc_stack sc);
     proceed (sc\<lparr> sc_stack := st \<rparr>) (w\<lparr> w_db := s1 \<rparr>) }"

definition opCodeSize :: executionFunc where "opCodeSize env sc = push_nat (length (c_Code (sc_contract sc))) sc"

definition opExtCodeHash :: executionFunc where
  "opExtCodeHash env sc w = do {
     slot \<leftarrow> peek (sc_stack sc);
     let (emp, s1) = Empty_db (vm_state env) (ucast slot) (w_db w);
     let (h, s2) = (if emp then (0, s1) else GetCodeHash (vm_state env) (ucast slot) s1);
     st \<leftarrow> set_top h (sc_stack sc);
     proceed (sc\<lparr> sc_stack := st \<rparr>) (w\<lparr> w_db := s2 \<rparr>) }"

definition opGasprice :: executionFunc where "opGasprice env = push_big (tx_GasPrice (vm_tx env))"

definition opBlockhash :: executionFunc where
  "opBlockhash env sc w = do {
     num \<leftarrow> peek (sc_stack sc);
     let upper = (word_of_int (bx_BlockNumber (vm_block env)) :: uint64);
     let lower = (if upper < 257 then 0 else upper - 256);
     let num64 = Uint64 num;
     h \<leftarrow> (if IsUint64 num \<and> lower \<le> num64 \<and> num64 < upper then bx_GetHash (vm_block env) num64 else Some 0);
     st \<leftarrow> set_top h (sc_stack sc);
     proceed (sc\<lparr> sc_stack := st \<rparr>) w }"

definition opCoinbase :: executionFunc where "opCoinbase env = pushing (ucast (bx_Coinbase (vm_block env)))"
definition opTimestamp :: executionFunc where "opTimestamp env = pushing (ucast (bx_Time (vm_block env)))"
definition opNumber :: executionFunc where "opNumber env = push_big (Some (bx_BlockNumber (vm_block env)))"
definition opDifficulty :: executionFunc where "opDifficulty env = push_big (bx_Difficulty (vm_block env))"
definition opGasLimit :: executionFunc where "opGasLimit env = pushing (ucast (bx_GasLimit (vm_block env)))"
definition opBaseFee :: executionFunc where "opBaseFee env = push_big (bx_BaseFee (vm_block env))"
definition opBlobBaseFee :: executionFunc where "opBlobBaseFee env = push_big (bx_BlobBaseFee (vm_block env))"

definition opRandom :: executionFunc where
  "opRandom env sc w = (case bx_Random (vm_block env) of None \<Rightarrow> None | Some r \<Rightarrow> pushing r sc w)"

definition opChainID :: executionFunc where
  "opChainID env sc w = (case vm_chainConfig env of None \<Rightarrow> None | Some cid \<Rightarrow> push_big cid sc w)"

definition opBlobHash :: executionFunc where
  "opBlobHash env = unary (\<lambda>index. let hs = tx_BlobHashes (vm_tx env) in
     if unat index < length hs then hs ! unat (Uint64 index) else 0) env"

section \<open>Stack, memory and storage\<close>

definition opPop :: executionFunc where
  "opPop env sc w = do { (x, st) \<leftarrow> pop (sc_stack sc); proceed (sc\<lparr> sc_stack := st \<rparr>) w }"

definition opMload :: executionFunc where
  "opMload env sc w = do {
     v \<leftarrow> peek (sc_stack sc);
     d \<leftarrow> GetPtr (Uint64 v) 32 (sc_mem sc);
     st \<leftarrow> set_top (SetBytes d) (sc_stack sc);
     proceed (sc\<lparr> sc_stack := st \<rparr>) w }"

definition opMstore :: executionFunc where
  "opMstore env sc w = do {
     (mStart, st) \<leftarrow> pop (sc_stack sc); (val, st1) \<leftarrow> pop st;
     m \<leftarrow> Set32 (Uint64 mStart) val (sc_mem sc);
     proceed (sc\<lparr> sc_stack := st1, sc_mem := m \<rparr>) w }"

definition opMstore8 :: executionFunc where
  "opMstore8 env sc w = do {
     (off, st) \<leftarrow> pop (sc_stack sc); (val, st1) \<leftarrow> pop st;
     m \<leftarrow> set_byte (Uint64 off) (ucast (Uint64 val)) (sc_mem sc);
     proceed (sc\<lparr> sc_stack := st1, sc_mem := m \<rparr>) w }"

definition opMcopy :: executionFunc where
  "opMcopy env sc w = do {
     (dst, st) \<leftarrow> pop (sc_stack sc); (src, st1) \<leftarrow> pop st; (len, st2) \<leftarrow> pop st1;
     m \<leftarrow> mem_Copy (Uint64 dst) (Uint64 src) (Uint64 len) (sc_mem sc);
     proceed (sc\<lparr> sc_stack := st2, sc_mem := m \<rparr>) w }"

definition opSload :: executionFunc where
  "opSload env sc w = do {
     loc \<leftarrow> peek (sc_stack sc);
     let (v, s1) = GetState (vm_state env) (Self (sc_contract sc)) loc (w_db w);
     st \<leftarrow> set_top v (sc_stack sc);
     proceed (sc\<lparr> sc_stack := st \<rparr>) (w\<lparr> w_db := s1 \<rparr>) }"

definition opSstore :: executionFunc where
  "opSstore env sc w =
     (if w_readOnly w then fail ErrWriteProtection sc w
      else do {
        (loc, st) \<leftarrow> pop (sc_stack sc); (val, st1) \<leftarrow> pop st;
        proceed (sc\<lparr> sc_stack := st1 \<rparr>) (w\<lparr> w_db := SetState (vm_state env) (Self (sc_contract sc)) loc val (w_db w) \<rparr>) })"

definition opTload :: executionFunc where
  "opTload env sc w = do {
     loc \<leftarrow> peek (sc_stack sc);
     st \<leftarrow> set_top (GetTransientState (Self (sc_contract sc)) loc (w_db w)) (sc_stack sc);
     proceed (sc\<lparr> sc_stack := st \<rparr>) w }"

definition opTstore :: executionFunc where
  "opTstore env sc w =
     (if w_readOnly w then fail ErrWriteProtection sc w
      else do {
        (loc, st) \<leftarrow> pop (sc_stack sc); (val, st1) \<leftarrow> pop st;
        proceed (sc\<lparr> sc_stack := st1 \<rparr>)
          (w\<lparr> w_db := SetTransientState (vm_state env) (Self (sc_contract sc)) loc val (w_db w) \<rparr>) })"

section \<open>Jumps\<close>

definition JUMPDEST :: byte where "JUMPDEST = 0x5b"

text \<open>\<open>isCode\<close> takes the analysis of the frame, or the one that nested frames share under the hash of the code,
  or makes it; it gives the answer, the analysis kept in the frame and the shared ones.\<close>

definition isCode :: "bytes \<Rightarrow> common_Hash \<Rightarrow> bitvec option \<Rightarrow> (common_Hash \<rightharpoonup> bitvec) \<Rightarrow> nat
     \<Rightarrow> (bool \<times> bitvec option \<times> (common_Hash \<rightharpoonup> bitvec)) panics" where
  "isCode cd h analysis shared udest = (case analysis of
       Some bits \<Rightarrow> do { b \<leftarrow> codeSegment bits udest; Some (b, analysis, shared) }
     | None \<Rightarrow>
         if h \<noteq> 0 then do {
           (bits, shared1) \<leftarrow> (case shared h of
               Some bits \<Rightarrow> Some (bits, shared)
             | None \<Rightarrow> do { bits \<leftarrow> codeBitmap cd; Some (bits, shared(h \<mapsto> bits)) });
           b \<leftarrow> codeSegment bits udest;
           Some (b, Some bits, shared1) }
         else do {
           bits \<leftarrow> codeBitmap cd;
           b \<leftarrow> codeSegment bits udest;
           Some (b, Some bits, shared) })"

definition validJumpdest :: "uint256 \<Rightarrow> Scope \<Rightarrow> World \<Rightarrow> (bool \<times> Scope \<times> World) panics" where
  "validJumpdest dest sc w =
     (let cd = c_Code (sc_contract sc); udest = unat (Uint64 dest) in
      if \<not> IsUint64 dest \<or> length cd \<le> udest then Some (False, sc, w)
      else if cd ! udest \<noteq> JUMPDEST then Some (False, sc, w)
      else do {
        (b, an, shared) \<leftarrow> isCode cd (CodeHash (sc_contract sc)) (sc_analysis sc) (w_jumpdests w) udest;
        Some (b, sc\<lparr> sc_analysis := an \<rparr>, w\<lparr> w_jumpdests := shared \<rparr>) })"

text \<open>The loop of the interpreter adds one to the position.\<close>

definition jump_to :: "uint256 \<Rightarrow> Scope \<Rightarrow> World \<Rightarrow> exec_result" where
  "jump_to pos sc w = do {
     (ok, sc1, w1) \<leftarrow> validJumpdest pos sc w;
     if \<not> ok then fail ErrInvalidJump sc1 w1 else proceed (sc1\<lparr> sc_pc := Uint64 pos - 1 \<rparr>) w1 }"

definition opJump :: executionFunc where
  "opJump env sc w =
     (if vm_abort env then fail errStopToken sc w
      else do { (pos, st) \<leftarrow> pop (sc_stack sc); jump_to pos (sc\<lparr> sc_stack := st \<rparr>) w })"

definition opJumpi :: executionFunc where
  "opJumpi env sc w =
     (if vm_abort env then fail errStopToken sc w
      else do {
        (pos, st) \<leftarrow> pop (sc_stack sc); (cond, st1) \<leftarrow> pop st;
        let sc1 = sc\<lparr> sc_stack := st1 \<rparr>;
        if cond \<noteq> 0 then jump_to pos sc1 w else proceed sc1 w })"

definition opJumpdest :: executionFunc where "opJumpdest env = proceed"
definition opPc :: executionFunc where "opPc env sc = pushing (ucast (sc_pc sc)) sc"
definition opMsize :: executionFunc where "opMsize env sc = push_nat (mem_Len (sc_mem sc)) sc"
definition opGas :: executionFunc where "opGas env sc = pushing (ucast (c_Gas (sc_contract sc))) sc"

section \<open>Pushes, duplicates, swaps and logs\<close>

definition opPush0 :: executionFunc where "opPush0 env = pushing 0"

definition opPush1 :: executionFunc where
  "opPush1 env sc w = (let pc = sc_pc sc + 1; cd = c_Code (sc_contract sc) in
     pushing (if unat pc < length cd then ucast (cd ! unat pc) else 0) (sc\<lparr> sc_pc := pc \<rparr>) w)"

text \<open>\<open>int(*pc+1)\<close> is a signed conversion.\<close>

definition makePush :: "uint64 \<Rightarrow> nat \<Rightarrow> executionFunc" where
  "makePush size1 pushByteSize env sc w = do {
     let cd = c_Code (sc_contract sc);
     let start = min (int (length cd)) (sint (sc_pc sc + 1));
     let end1 = min (int (length cd)) (start + int pushByteSize);
     v \<leftarrow> (if 0 \<le> start then Some (take (nat end1 - nat start) (drop (nat start) cd)) else None);
     pushing (SetBytes (RightPadBytes v (int pushByteSize))) (sc\<lparr> sc_pc := sc_pc sc + size1 \<rparr>) w }"

definition makeDup :: "nat \<Rightarrow> executionFunc" where
  "makeDup n env sc w = do { st \<leftarrow> dup n (sc_stack sc); proceed (sc\<lparr> sc_stack := st \<rparr>) w }"

definition opSwap :: "nat \<Rightarrow> executionFunc" where
  "opSwap n env sc w = do { st \<leftarrow> stack_swap n (sc_stack sc); proceed (sc\<lparr> sc_stack := st \<rparr>) w }"

text \<open>The address, the topics and the data of a log, as the payload that the state keeps.\<close>

definition log_payload :: "common_Address \<Rightarrow> common_Hash list \<Rightarrow> bytes \<Rightarrow> bytes" where
  "log_payload a topics d = address_bytes a @ [of_nat (length topics)] @ concat (map hash_bytes topics) @ d"

definition makeLog :: "nat \<Rightarrow> executionFunc" where
  "makeLog n env sc w =
     (if w_readOnly w then fail ErrWriteProtection sc w
      else do {
        (mStart, st) \<leftarrow> pop (sc_stack sc); (mSize, st1) \<leftarrow> pop st;
        (topics, st2) \<leftarrow> pops n st1;
        d \<leftarrow> GetCopy (Uint64 mStart) (Uint64 mSize) (sc_mem sc);
        let l = \<lparr> L_Payload = log_payload (Self (sc_contract sc)) topics d, L_TxHash = 0, L_TxIndex = 0, L_Index = 0,
                  L_BlockNumber = word_of_int (bx_BlockNumber (vm_block env)), L_BlockHash = 0 \<rparr>;
        proceed (sc\<lparr> sc_stack := st2 \<rparr>) (w\<lparr> w_db := AddLog (vm_state env) l (w_db w) \<rparr>) })"

section \<open>Calls and creations\<close>

definition UseGas :: "uint64 \<Rightarrow> Contract \<Rightarrow> bool \<times> Contract" where
  "UseGas gas c = (if c_Gas c < gas then (False, c) else (True, c\<lparr> c_Gas := c_Gas c - gas \<rparr>))"

definition RefundGas :: "uint64 \<Rightarrow> Contract \<Rightarrow> Contract" where
  "RefundGas gas c = (if gas = 0 then c else c\<lparr> c_Gas := c_Gas c + gas \<rparr>)"

text \<open>The common end of the four calls: the success flag is pushed, the result goes to the memory unless the call
  failed, the gas returned is added and the return data kept.\<close>

definition finish_call :: "uint256 \<Rightarrow> uint256 \<Rightarrow> Stack \<Rightarrow> Scope \<Rightarrow> bytes \<times> uint64 \<times> vm_error option \<times> World \<Rightarrow> exec_result" where
  "finish_call retOffset retSize st sc r = (case r of (ret, returnGas, err, w) \<Rightarrow> do {
     m \<leftarrow> (if err = None \<or> err = Some ErrExecutionReverted then mem_Set (Uint64 retOffset) (Uint64 retSize) ret (sc_mem sc)
            else Some (sc_mem sc));
     Some (ret, None,
           sc\<lparr> sc_stack := push (bool_word (err = None)) st, sc_mem := m, sc_contract := RefundGas returnGas (sc_contract sc) \<rparr>,
           w\<lparr> w_returnData := ret \<rparr>) })"

definition opCall :: executionFunc where
  "opCall env sc w = do {
     (temp, st) \<leftarrow> pop (sc_stack sc);
     (addr, st1) \<leftarrow> pop st; (val, st2) \<leftarrow> pop st1; (inOffset, st3) \<leftarrow> pop st2; (inSize, st4) \<leftarrow> pop st3;
     (retOffset, st5) \<leftarrow> pop st4; (retSize, st6) \<leftarrow> pop st5;
     args \<leftarrow> GetPtr (Uint64 inOffset) (Uint64 inSize) (sc_mem sc);
     if w_readOnly w \<and> val \<noteq> 0 then fail ErrWriteProtection (sc\<lparr> sc_stack := st6 \<rparr>) w
     else do {
       let gas = w_callGasTemp w + (if val \<noteq> 0 then 2300 else 0);
       r \<leftarrow> do_OpCall (vm_calls env) (sc_contract sc) (ucast addr) args gas val w;
       finish_call retOffset retSize st6 sc r } }"

definition opCallCode :: executionFunc where
  "opCallCode env sc w = do {
     (temp, st) \<leftarrow> pop (sc_stack sc);
     (addr, st1) \<leftarrow> pop st; (val, st2) \<leftarrow> pop st1; (inOffset, st3) \<leftarrow> pop st2; (inSize, st4) \<leftarrow> pop st3;
     (retOffset, st5) \<leftarrow> pop st4; (retSize, st6) \<leftarrow> pop st5;
     args \<leftarrow> GetPtr (Uint64 inOffset) (Uint64 inSize) (sc_mem sc);
     let gas = w_callGasTemp w + (if val \<noteq> 0 then 2300 else 0);
     r \<leftarrow> do_CallCode (vm_calls env) (sc_contract sc) (ucast addr) args gas val w;
     finish_call retOffset retSize st6 sc r }"

definition opDelegateCall :: executionFunc where
  "opDelegateCall env sc w = do {
     (temp, st) \<leftarrow> pop (sc_stack sc);
     (addr, st1) \<leftarrow> pop st; (inOffset, st2) \<leftarrow> pop st1; (inSize, st3) \<leftarrow> pop st2;
     (retOffset, st4) \<leftarrow> pop st3; (retSize, st5) \<leftarrow> pop st4;
     args \<leftarrow> GetPtr (Uint64 inOffset) (Uint64 inSize) (sc_mem sc);
     r \<leftarrow> do_DelegateCall (vm_calls env) (sc_contract sc) (ucast addr) args (w_callGasTemp w) w;
     finish_call retOffset retSize st5 sc r }"

definition opStaticCall :: executionFunc where
  "opStaticCall env sc w = do {
     (temp, st) \<leftarrow> pop (sc_stack sc);
     (addr, st1) \<leftarrow> pop st; (inOffset, st2) \<leftarrow> pop st1; (inSize, st3) \<leftarrow> pop st2;
     (retOffset, st4) \<leftarrow> pop st3; (retSize, st5) \<leftarrow> pop st4;
     args \<leftarrow> GetPtr (Uint64 inOffset) (Uint64 inSize) (sc_mem sc);
     r \<leftarrow> do_StaticCall (vm_calls env) (sc_contract sc) (ucast addr) args (w_callGasTemp w) w;
     finish_call retOffset retSize st5 sc r }"

text \<open>The common end of the two creations; \<open>v\<close> is what is pushed.\<close>

definition finish_create :: "uint256 \<Rightarrow> bytes \<Rightarrow> uint64 \<Rightarrow> vm_error option \<Rightarrow> Stack \<Rightarrow> Scope \<Rightarrow> World \<Rightarrow> exec_result" where
  "finish_create v res returnGas suberr st sc w =
     (let sc1 = sc\<lparr> sc_stack := push v st, sc_contract := RefundGas returnGas (sc_contract sc) \<rparr> in
      if suberr = Some ErrExecutionReverted then Some (res, None, sc1, w\<lparr> w_returnData := res \<rparr>)
      else Some ([], None, sc1, w\<lparr> w_returnData := [] \<rparr>))"

definition opCreate :: executionFunc where
  "opCreate env sc w =
     (if w_readOnly w then fail ErrWriteProtection sc w
      else do {
        (val, st) \<leftarrow> pop (sc_stack sc); (offset, st1) \<leftarrow> pop st; (sz, st2) \<leftarrow> pop st1;
        inp \<leftarrow> GetCopy (Uint64 offset) (Uint64 sz) (sc_mem sc);
        let gas = c_Gas (sc_contract sc);
        (res, addr, returnGas, suberr, w1) \<leftarrow> do_Create (vm_calls env) (sc_contract sc) inp gas val w;
        finish_create (if suberr \<noteq> None \<and> suberr \<noteq> Some ErrCodeStoreOutOfGas then 0 else ucast addr) res returnGas suberr st2 sc w1 })"

definition opCreate2 :: executionFunc where
  "opCreate2 env sc w =
     (if w_readOnly w then fail ErrWriteProtection sc w
      else do {
        (endowment, st) \<leftarrow> pop (sc_stack sc); (offset, st1) \<leftarrow> pop st; (sz, st2) \<leftarrow> pop st1; (salt, st3) \<leftarrow> pop st2;
        inp \<leftarrow> GetCopy (Uint64 offset) (Uint64 sz) (sc_mem sc);
        let gas = c_Gas (sc_contract sc) - c_Gas (sc_contract sc) div 64;
        let c1 = snd (UseGas gas (sc_contract sc));
        (res, addr, returnGas, suberr, w1) \<leftarrow> do_Create2 (vm_calls env) c1 inp gas endowment salt w;
        finish_create (if suberr \<noteq> None then 0 else ucast addr) res returnGas suberr st3 (sc\<lparr> sc_contract := c1 \<rparr>) w1 })"

section \<open>Ends of a run\<close>

definition opReturn :: executionFunc where
  "opReturn env sc w = do {
     (offset, st) \<leftarrow> pop (sc_stack sc); (sz, st1) \<leftarrow> pop st;
     ret \<leftarrow> GetCopy (Uint64 offset) (Uint64 sz) (sc_mem sc);
     Some (ret, Some errStopToken, sc\<lparr> sc_stack := st1 \<rparr>, w) }"

definition opRevert :: executionFunc where
  "opRevert env sc w = do {
     (offset, st) \<leftarrow> pop (sc_stack sc); (sz, st1) \<leftarrow> pop st;
     ret \<leftarrow> GetCopy (Uint64 offset) (Uint64 sz) (sc_mem sc);
     Some (ret, Some ErrExecutionReverted, sc\<lparr> sc_stack := st1 \<rparr>, w\<lparr> w_returnData := ret \<rparr>) }"

definition opUndefined :: executionFunc where
  "opUndefined env sc w = (let cd = c_Code (sc_contract sc); pc = unat (sc_pc sc) in
     if pc < length cd then fail (ErrInvalidOpCode (cd ! pc)) sc w else None)"

definition opStop :: executionFunc where "opStop env = fail errStopToken"

definition opSelfdestruct :: executionFunc where
  "opSelfdestruct env sc w =
     (if w_readOnly w then fail ErrWriteProtection sc w
      else do {
        (beneficiary, st) \<leftarrow> pop (sc_stack sc);
        let self = Self (sc_contract sc);
        let (balance, s1) = GetBalance (vm_state env) self (w_db w);
        let s2 = AddBalance (vm_state env) (ucast beneficiary) balance s1;
        fail errStopToken (sc\<lparr> sc_stack := st \<rparr>) (w\<lparr> w_db := SelfDestruct (vm_state env) self s2 \<rparr>) })"

definition opSelfdestruct6780 :: executionFunc where
  "opSelfdestruct6780 env sc w =
     (if w_readOnly w then fail ErrWriteProtection sc w
      else do {
        (beneficiary, st) \<leftarrow> pop (sc_stack sc);
        let self = Self (sc_contract sc);
        let (balance, s1) = GetBalance (vm_state env) self (w_db w);
        let s2 = SubBalance (vm_state env) self balance s1;
        let s3 = AddBalance (vm_state env) (ucast beneficiary) balance s2;
        fail errStopToken (sc\<lparr> sc_stack := st \<rparr>) (w\<lparr> w_db := Selfdestruct6780 (vm_state env) self s3 \<rparr>) })"

end
