(* ===== verification/JumpTable.thy ===== *)
theory JumpTable
  imports Instructions
begin

text \<open>
  The table of operations: \<open>vm/jump_table.go\<close>, the activations of \<open>vm/eips.go\<close> and the stack bounds of
  \<open>vm/stack_table.go\<close>. Each fork is the previous table with some entries replaced, as in the source; the
  interpreter runs with the table of the Cancun fork. The Verkle table is never used and is left out.
\<close>

section \<open>Operations\<close>

record operation =
  execute :: executionFunc
  constantGas :: uint64
  dynamicGas :: "gasFunc option"
  minStackOf :: nat
  maxStackOf :: nat
  memorySize :: "(Stack \<Rightarrow> (uint64 \<times> bool) panics) option"

type_synonym JumpTable = "byte \<Rightarrow> operation"

definition StackLimit :: nat where "StackLimit = 1024"

definition maxStack :: "nat \<Rightarrow> nat \<Rightarrow> nat" where "maxStack popped pushed = StackLimit + popped - pushed"
definition minStack :: "nat \<Rightarrow> nat \<Rightarrow> nat" where "minStack popped pushed = popped"
definition minSwapStack :: "nat \<Rightarrow> nat" where "minSwapStack n = minStack n n"
definition maxSwapStack :: "nat \<Rightarrow> nat" where "maxSwapStack n = maxStack n n"
definition minDupStack :: "nat \<Rightarrow> nat" where "minDupStack n = minStack n (n + 1)"
definition maxDupStack :: "nat \<Rightarrow> nat" where "maxDupStack n = maxStack n (n + 1)"

text \<open>An entry without and with a dynamic cost; the memory size is set only together with a dynamic cost.\<close>

definition simple_op :: "executionFunc \<Rightarrow> uint64 \<Rightarrow> nat \<Rightarrow> nat \<Rightarrow> operation" where
  "simple_op f gas popped pushed =
     \<lparr> execute = f, constantGas = gas, dynamicGas = None, minStackOf = minStack popped pushed, maxStackOf = maxStack popped pushed,
       memorySize = None \<rparr>"

definition gas_op :: "executionFunc \<Rightarrow> uint64 \<Rightarrow> gasFunc \<Rightarrow> nat \<Rightarrow> nat \<Rightarrow> operation" where
  "gas_op f gas dyn popped pushed = (simple_op f gas popped pushed)\<lparr> dynamicGas := Some dyn \<rparr>"

definition memory_op :: "executionFunc \<Rightarrow> uint64 \<Rightarrow> gasFunc \<Rightarrow> nat \<Rightarrow> nat \<Rightarrow> (Stack \<Rightarrow> (uint64 \<times> bool) panics) \<Rightarrow> operation" where
  "memory_op f gas dyn popped pushed msize = (gas_op f gas dyn popped pushed)\<lparr> memorySize := Some msize \<rparr>"

definition dup_op :: "nat \<Rightarrow> operation" where
  "dup_op n = \<lparr> execute = makeDup n, constantGas = 3, dynamicGas = None, minStackOf = minDupStack n, maxStackOf = maxDupStack n,
                memorySize = None \<rparr>"

definition swap_op :: "nat \<Rightarrow> operation" where
  "swap_op n = \<lparr> execute = opSwap n, constantGas = 3, dynamicGas = None, minStackOf = minSwapStack (n + 1),
                 maxStackOf = maxSwapStack (n + 1), memorySize = None \<rparr>"

section \<open>Frontier\<close>

definition arithmetic_ops :: "(byte \<times> operation) list" where
  "arithmetic_ops = [
     (0x00, simple_op opStop 0 0 0), (0x01, simple_op opAdd 3 2 1), (0x02, simple_op opMul 5 2 1), (0x03, simple_op opSub 3 2 1),
     (0x04, simple_op opDiv 5 2 1), (0x05, simple_op opSdiv 5 2 1), (0x06, simple_op opMod 5 2 1), (0x07, simple_op opSmod 5 2 1),
     (0x08, simple_op opAddmod 8 3 1), (0x09, simple_op opMulmod 8 3 1), (0x0a, gas_op opExp 0 gasExpFrontier 2 1),
     (0x0b, simple_op opSignExtend 5 2 1)]"

definition comparison_ops :: "(byte \<times> operation) list" where
  "comparison_ops = [
     (0x10, simple_op opLt 3 2 1), (0x11, simple_op opGt 3 2 1), (0x12, simple_op opSlt 3 2 1), (0x13, simple_op opSgt 3 2 1),
     (0x14, simple_op opEq 3 2 1), (0x15, simple_op opIszero 3 1 1), (0x16, simple_op opAnd 3 2 1), (0x17, simple_op opOr 3 2 1),
     (0x18, simple_op opXor 3 2 1), (0x19, simple_op opNot 3 1 1), (0x1a, simple_op opByte 3 2 1),
     (0x20, memory_op opKeccak256 30 gasKeccak256 2 1 memoryKeccak256)]"

definition closure_ops :: "(byte \<times> operation) list" where
  "closure_ops = [
     (0x30, simple_op opAddress 2 0 1), (0x31, gas_op opBalance 20 gasOpbalanceAccountCheck 1 1), (0x32, simple_op opOrigin 2 0 1),
     (0x33, simple_op opCaller 2 0 1), (0x34, simple_op opCallValue 2 0 1), (0x35, simple_op opCallDataLoad 3 1 1),
     (0x36, simple_op opCallDataSize 2 0 1), (0x37, memory_op opCallDataCopy 3 (memoryCopierGas 2) 3 0 memoryCallDataCopy),
     (0x38, simple_op opCodeSize 2 0 1), (0x39, memory_op opCodeCopy 3 (memoryCopierGas 2) 3 0 memoryCodeCopy),
     (0x3a, simple_op opGasprice 2 0 1), (0x3b, simple_op opExtCodeSize 20 1 1),
     (0x3c, memory_op opExtCodeCopy 20 gasExtCodeCopy 4 0 memoryExtCodeCopy)]"

definition block_ops :: "(byte \<times> operation) list" where
  "block_ops = [
     (0x40, simple_op opBlockhash 20 1 1), (0x41, simple_op opCoinbase 2 0 1), (0x42, simple_op opTimestamp 2 0 1),
     (0x43, simple_op opNumber 2 0 1), (0x44, simple_op opDifficulty 2 0 1), (0x45, simple_op opGasLimit 2 0 1)]"

definition storage_ops :: "(byte \<times> operation) list" where
  "storage_ops = [
     (0x50, simple_op opPop 2 1 0), (0x51, memory_op opMload 3 pureMemoryGascost 1 1 memoryMLoad),
     (0x52, memory_op opMstore 3 pureMemoryGascost 2 0 memoryMStore), (0x53, memory_op opMstore8 3 pureMemoryGascost 2 0 memoryMStore8),
     (0x54, simple_op opSload 50 1 1), (0x55, gas_op opSstore 0 gasSStore 2 0), (0x56, simple_op opJump 8 1 0),
     (0x57, simple_op opJumpi 10 2 0), (0x58, simple_op opPc 2 0 1), (0x59, simple_op opMsize 2 0 1), (0x5a, simple_op opGas 2 0 1),
     (0x5b, simple_op opJumpdest 1 0 0)]"

definition push_ops :: "(byte \<times> operation) list" where
  "push_ops = (0x60, simple_op opPush1 3 0 1) # map (\<lambda>n. (of_nat (0x5f + n), simple_op (makePush (of_nat n) n) 3 0 1)) [2..<33]"

definition dup_ops :: "(byte \<times> operation) list" where
  "dup_ops = map (\<lambda>n. (of_nat (0x7f + n), dup_op n)) [1..<17]"

definition swap_ops :: "(byte \<times> operation) list" where
  "swap_ops = map (\<lambda>n. (of_nat (0x8f + n), swap_op n)) [1..<17]"

definition log_ops :: "(byte \<times> operation) list" where
  "log_ops = map (\<lambda>n. (of_nat (0xa0 + n), memory_op (makeLog n) 0 (makeGasLog (of_nat n)) (n + 2) 0 memoryLog)) [0..<5]"

definition call_ops :: "(byte \<times> operation) list" where
  "call_ops = [
     (0xf0, memory_op opCreate 32000 pureMemoryGascost 3 1 memoryCreate), (0xf1, memory_op opCall 40 gasCall 7 1 memoryCall),
     (0xf2, memory_op opCallCode 40 gasCallCode 7 1 memoryCall), (0xf3, memory_op opReturn 0 pureMemoryGascost 2 0 memoryReturn),
     (0xff, gas_op opSelfdestruct 0 gasSelfdestruct 1 0)]"

definition undefined_op :: operation where
  "undefined_op = \<lparr> execute = opUndefined, constantGas = 0, dynamicGas = None, minStackOf = 0, maxStackOf = maxStack 0 0, memorySize = None \<rparr>"

definition frontier_ops :: "(byte \<times> operation) list" where
  "frontier_ops = arithmetic_ops @ comparison_ops @ closure_ops @ block_ops @ storage_ops @ push_ops @ dup_ops @ swap_ops @ log_ops @ call_ops"

text \<open>The unassigned slots are filled with \<open>opUndefined\<close>.\<close>

definition newFrontierInstructionSet :: JumpTable where
  "newFrontierInstructionSet b = (case map_of frontier_ops b of Some op \<Rightarrow> op | None \<Rightarrow> undefined_op)"

section \<open>The later forks\<close>

definition newHomesteadInstructionSet :: JumpTable where
  "newHomesteadInstructionSet = newFrontierInstructionSet(0xf4 := memory_op opDelegateCall 40 gasDelegateCall 6 1 memoryDelegateCall)"

text \<open>Changes one after the other.\<close>

definition amend :: "(JumpTable \<Rightarrow> JumpTable) list \<Rightarrow> JumpTable \<Rightarrow> JumpTable" where
  "amend fs jt = fold (\<lambda>f t. f t) fs jt"

text \<open>A new constant or dynamic cost of an operation.\<close>

definition reprice :: "byte \<Rightarrow> uint64 \<Rightarrow> JumpTable \<Rightarrow> JumpTable" where
  "reprice b gas jt = jt(b := (jt b)\<lparr> constantGas := gas \<rparr>)"

definition remeter :: "byte \<Rightarrow> gasFunc \<Rightarrow> JumpTable \<Rightarrow> JumpTable" where
  "remeter b dyn jt = jt(b := (jt b)\<lparr> dynamicGas := Some dyn \<rparr>)"

definition newTangerineWhistleInstructionSet :: JumpTable where
  "newTangerineWhistleInstructionSet = amend [reprice 0x31 400, reprice 0x3b 700, reprice 0x54 200, reprice 0x3c 700, reprice 0xf1 700, reprice 0xf2 700, reprice 0xf4 700] newHomesteadInstructionSet"

definition newSpuriousDragonInstructionSet :: JumpTable where
  "newSpuriousDragonInstructionSet = remeter 0x0a gasExpEIP158 newTangerineWhistleInstructionSet"

definition newByzantiumInstructionSet :: JumpTable where
  "newByzantiumInstructionSet = newSpuriousDragonInstructionSet(
     0xfa := memory_op opStaticCall 700 gasStaticCall 6 1 memoryStaticCall,
     0x3d := simple_op opReturnDataSize 2 0 1,
     0x3e := memory_op opReturnDataCopy 3 (memoryCopierGas 2) 3 0 memoryReturnDataCopy,
     0xfd := memory_op opRevert 0 pureMemoryGascost 2 0 memoryRevert)"

definition newConstantinopleInstructionSet :: JumpTable where
  "newConstantinopleInstructionSet = newByzantiumInstructionSet(
     0x1b := simple_op opSHL 3 2 1, 0x1c := simple_op opSHR 3 2 1, 0x1d := simple_op opSAR 3 2 1,
     0x3f := simple_op opExtCodeHash 400 1 1,
     0xf5 := memory_op opCreate2 32000 gasCreate2 4 1 memoryCreate2)"

definition enable1344 :: "JumpTable \<Rightarrow> JumpTable" where "enable1344 jt = jt(0x46 := simple_op opChainID 2 0 1)"

definition enable1884 :: "JumpTable \<Rightarrow> JumpTable" where
  "enable1884 jt = (amend [reprice 0x54 800, reprice 0x31 700, reprice 0x3f 700] jt)(0x47 := simple_op opSelfBalance 5 0 1)"

definition enable2200 :: "JumpTable \<Rightarrow> JumpTable" where
  "enable2200 jt = (amend [reprice 0x54 800, remeter 0x55 gasSStoreEIP2200] jt)"

definition newIstanbulInstructionSet :: JumpTable where
  "newIstanbulInstructionSet = (amend [enable1344, enable1884, enable2200] newConstantinopleInstructionSet)"

definition enable2929 :: "JumpTable \<Rightarrow> JumpTable" where
  "enable2929 jt = (amend [remeter 0x55 (makeGasSStoreFunc 15000), reprice 0x54 0, remeter 0x54 gasSLoadEIP2929, reprice 0x3c 100, remeter 0x3c gasExtCodeCopyEIP2929, reprice 0x3b 100, remeter 0x3b gasEip2929AccountCheck, reprice 0x3f 100, remeter 0x3f gasEip2929AccountCheck, reprice 0x31 100, remeter 0x31 gasEip2929AccountCheck, reprice 0xf1 100, remeter 0xf1 (makeCallVariantGasCallEIP2929 gasCall), reprice 0xf2 100, remeter 0xf2 (makeCallVariantGasCallEIP2929 gasCallCode), reprice 0xfa 100, remeter 0xfa (makeCallVariantGasCallEIP2929 gasStaticCall), reprice 0xf4 100, remeter 0xf4 (makeCallVariantGasCallEIP2929 gasDelegateCall), reprice 0xff 5000, remeter 0xff (makeSelfdestructGasFn True)] jt)"

definition newBerlinInstructionSet :: JumpTable where "newBerlinInstructionSet = enable2929 newIstanbulInstructionSet"

definition enable3529 :: "JumpTable \<Rightarrow> JumpTable" where
  "enable3529 jt = (amend [remeter 0x55 (makeGasSStoreFunc 4800), remeter 0xff (makeSelfdestructGasFn False)] jt)"

definition enable3198 :: "JumpTable \<Rightarrow> JumpTable" where "enable3198 jt = jt(0x48 := simple_op opBaseFee 2 0 1)"

definition newLondonInstructionSet :: JumpTable where
  "newLondonInstructionSet = (amend [enable3529, enable3198] newBerlinInstructionSet)"

definition newMergeInstructionSet :: JumpTable where
  "newMergeInstructionSet = newLondonInstructionSet(0x44 := simple_op opRandom 2 0 1)"

definition enable3855 :: "JumpTable \<Rightarrow> JumpTable" where "enable3855 jt = jt(0x5f := simple_op opPush0 2 0 1)"

definition enable3860 :: "JumpTable \<Rightarrow> JumpTable" where
  "enable3860 jt = (amend [remeter 0xf0 gasCreateEip3860, remeter 0xf5 gasCreate2Eip3860] jt)"

definition newShanghaiInstructionSet :: JumpTable where
  "newShanghaiInstructionSet = (amend [enable3855, enable3860] newMergeInstructionSet)"

definition enable4844 :: "JumpTable \<Rightarrow> JumpTable" where "enable4844 jt = jt(0x49 := simple_op opBlobHash 3 1 1)"
definition enable7516 :: "JumpTable \<Rightarrow> JumpTable" where "enable7516 jt = jt(0x4a := simple_op opBlobBaseFee 2 0 1)"

definition enable1153 :: "JumpTable \<Rightarrow> JumpTable" where
  "enable1153 jt = jt(0x5c := simple_op opTload 100 1 1, 0x5d := simple_op opTstore 100 2 0)"

definition enable5656 :: "JumpTable \<Rightarrow> JumpTable" where
  "enable5656 jt = jt(0x5e := memory_op opMcopy 3 (memoryCopierGas 2) 3 0 memoryMcopy)"

definition enable6780 :: "JumpTable \<Rightarrow> JumpTable" where
  "enable6780 jt = jt(0xff := gas_op opSelfdestruct6780 5000 (makeSelfdestructGasFn False) 1 0)"

definition newCancunInstructionSet :: JumpTable where
  "newCancunInstructionSet = (amend [enable4844, enable7516, enable1153, enable5656, enable6780] newShanghaiInstructionSet)"

text \<open>\<open>validate\<close> panics when an operation has a memory size but no dynamic cost.\<close>

definition valid_table :: "JumpTable \<Rightarrow> bool" where
  "valid_table jt = list_all (\<lambda>i. memorySize (jt (of_nat i)) = None \<or> dynamicGas (jt (of_nat i)) \<noteq> None) [0..<256]"

end
