(* ===== verification/Interpreter.thy ===== *)
theory Interpreter
  imports JumpTable
begin

text \<open>
  The loop of the interpreter, \<open>vm/interpreter.go\<close>: fetch, check the stack, size the memory, compute the dynamic
  gas, execute. Gas is computed but never charged, and an error of a gas function is dropped: both checks are
  commented out in the source. The loop is written without a bound; its result is \<open>None\<close> when it panics or
  does not end, and \<open>step\<close> is one turn of it.
\<close>

section \<open>One turn\<close>

definition GetOp :: "Contract \<Rightarrow> uint64 \<Rightarrow> byte" where
  "GetOp c n = (if unat n < length (c_Code c) then c_Code c ! unat n else 0)"

text \<open>The memory an operation asks for, in bytes, rounded up to words; an overflow is an error.\<close>

definition requested_memory :: "operation \<Rightarrow> Stack \<Rightarrow> (vm_error + uint64) panics" where
  "requested_memory op st = (case memorySize op of
       None \<Rightarrow> Some (Inr 0)
     | Some f \<Rightarrow> do {
         (memSize, ov) \<leftarrow> f st;
         if ov then Some (Inl ErrGasUintOverflow)
         else let (m, ov2) = SafeMul (toWordSize memSize) 32 in
           if ov2 then Some (Inl ErrGasUintOverflow) else Some (Inr m) })"

text \<open>The part before the execution, for an operation with a dynamic cost.\<close>

definition prepare :: "VmEnv \<Rightarrow> operation \<Rightarrow> Scope \<Rightarrow> World \<Rightarrow> (vm_error + Scope \<times> World) panics" where
  "prepare env op sc w = (case dynamicGas op of
       None \<Rightarrow> Some (Inr (sc, w))
     | Some dyn \<Rightarrow> do {
         r \<leftarrow> requested_memory op (sc_stack sc);
         case r of
           Inl e \<Rightarrow> Some (Inl e)
         | Inr m \<Rightarrow> do {
             (cost, err, mem, w1) \<leftarrow> dyn env (sc_contract sc) (sc_stack sc) (sc_mem sc) m w;
             mem1 \<leftarrow> (if 0 < m then Resize (vm_max_alloc env) m mem else Some mem);
             Some (Inr (sc\<lparr> sc_mem := mem1 \<rparr>, w1)) } })"

datatype outcome = Running Scope World | Halted bytes "vm_error option" Scope World

text \<open>The end of a turn: the next position, or the end of the run without the internal token.\<close>

definition finish_step :: "bytes \<times> vm_error option \<times> Scope \<times> World \<Rightarrow> outcome" where
  "finish_step r = (case r of (res, err, sc, w) \<Rightarrow> (case err of
       None \<Rightarrow> Running (sc\<lparr> sc_pc := sc_pc sc + 1 \<rparr>) w
     | Some e \<Rightarrow> Halted res (if e = errStopToken then None else Some e) sc w))"

definition step :: "VmEnv \<Rightarrow> Scope \<Rightarrow> World \<Rightarrow> outcome panics" where
  "step env sc w =
     (let op = newCancunInstructionSet (GetOp (sc_contract sc) (sc_pc sc)); sLen = length (sc_stack sc) in
      if sLen < minStackOf op then Some (Halted [] (Some (ErrStackUnderflow sLen (minStackOf op))) sc w)
      else if maxStackOf op < sLen then Some (Halted [] (Some (ErrStackOverflow sLen (maxStackOf op))) sc w)
      else do {
        r \<leftarrow> prepare env op sc w;
        case r of
          Inl e \<Rightarrow> Some (Halted [] (Some e) sc w)
        | Inr (sc1, w1) \<Rightarrow> map_option finish_step (execute op env sc1 w1) })"

section \<open>Runs\<close>

partial_function (option) run_loop :: "VmEnv \<Rightarrow> Scope \<Rightarrow> World \<Rightarrow> (bytes \<times> vm_error option \<times> Scope \<times> World) option" where
  "run_loop env sc w = do {
     r \<leftarrow> step env sc w;
     case r of Running sc1 w1 \<Rightarrow> run_loop env sc1 w1 | Halted res err sc1 w1 \<Rightarrow> Some (res, err, sc1, w1) }"

definition new_scope :: "Contract \<Rightarrow> bytes \<Rightarrow> Scope" where
  "new_scope c inp = \<lparr> sc_pc = 0, sc_stack = [], sc_mem = NewMemory, sc_contract = c, sc_analysis = None, sc_input = inp \<rparr>"

text \<open>\<open>Run\<close>: the depth and the read-only flag are restored at the end; the gas left is that of the contract.\<close>

definition Run :: "VmEnv \<Rightarrow> Contract \<Rightarrow> bytes \<Rightarrow> bool \<Rightarrow> World \<Rightarrow> (bytes \<times> vm_error option \<times> uint64 \<times> World) panics" where
  "Run env c inp readOnly w =
     (let w1 = w\<lparr> w_depth := w_depth w + 1, w_readOnly := w_readOnly w \<or> readOnly, w_returnData := [] \<rparr> in
      if c_Code c = [] then Some ([], None, c_Gas c, w1\<lparr> w_depth := w_depth w, w_readOnly := w_readOnly w \<rparr>)
      else do {
        (res, err, sc, w2) \<leftarrow> run_loop env (new_scope c inp) w1;
        Some (res, err, c_Gas (sc_contract sc), w2\<lparr> w_depth := w_depth w2 - 1, w_readOnly := w_readOnly w \<rparr>) })"

text \<open>\<open>n\<close> turns of the loop, for statements about runs.\<close>

fun turns :: "nat \<Rightarrow> VmEnv \<Rightarrow> Scope \<Rightarrow> World \<Rightarrow> outcome panics" where
  "turns 0 env sc w = Some (Running sc w)"
| "turns (Suc n) env sc w = do {
     r \<leftarrow> step env sc w;
     case r of Running sc1 w1 \<Rightarrow> turns n env sc1 w1 | Halted res err sc1 w1 \<Rightarrow> Some (Halted res err sc1 w1) }"

definition halted :: "bytes \<times> vm_error option \<times> Scope \<times> World \<Rightarrow> outcome" where
  "halted r = (case r of (res, err, sc, w) \<Rightarrow> Halted res err sc w)"

lemma run_loop_ends: "run_loop env sc w = Some r \<Longrightarrow> \<exists>n. turns n env sc w = Some (halted r)"
proof -
  assume run: "run_loop env sc w = Some r"
  show ?thesis
  proof (rule run_loop.raw_induct [where P = "\<lambda>env sc w r. \<exists>n. turns n env sc w = Some (halted r)", OF _ run], goal_cases)
    case (1 loop env sc w r)
    from 1(2) obtain a where a: "step env sc w = Some a"
      by (auto split: Option.bind_splits)
    show ?case
    proof (cases a)
      case (Running sc2 w2)
      then obtain n where "turns n env sc2 w2 = Some (halted r)"
        using 1(1) [of env sc2 w2 r] 1(2) a by auto
      then show ?thesis
        using a Running by (intro exI [of _ "Suc n"]) simp
    next
      case (Halted res err sc2 w2)
      then show ?thesis
        using 1(2) a by (intro exI [of _ "Suc 0"]) (auto simp: halted_def)
    qed
  qed
qed

lemma turns_run_loop: "turns n env sc w = Some (Halted res err sc1 w1) \<Longrightarrow> run_loop env sc w = Some (res, err, sc1, w1)"
proof (induction n arbitrary: sc w)
  case (Suc n)
  then show ?case
    by (subst run_loop.simps) (auto split: Option.bind_splits outcome.splits)
qed simp

lemma run_loop_turns:
  "run_loop env sc w = Some (res, err, sc1, w1) \<longleftrightarrow> (\<exists>n. turns n env sc w = Some (Halted res err sc1 w1))"
  using run_loop_ends [of env sc w "(res, err, sc1, w1)"] turns_run_loop by (auto simp: halted_def)

end
