(* ===== verification/Frames.thy ===== *)
theory Frames
  imports Evm
begin

text \<open>
  What the call frames of \<open>Evm\<close> guarantee: a frame that ends with an error leaves the state before its
  snapshot, whether it ran here, in another shard, or not at all; and what a lost answer does to the
  value of a cross-shard call.
\<close>

definition vm_runs_on_journal :: "EvmEnv \<Rightarrow> bool" where
  "vm_runs_on_journal ev \<longleftrightarrow> (\<forall>k inp ro s. objects_ok s \<longrightarrow> revisions_ok (jrnl s) \<longrightarrow>
     (\<exists>cs. cmds_ok (ev_state ev) cs s \<and> execs (ev_state ev) cs s = Some (snd (snd (snd (ev_run ev k inp ro s))))))"

lemma vm_runs_extends:
  assumes "vm_runs_on_journal ev" "objects_ok s" "revisions_ok (jrnl s)" "ev_run ev k inp ro s = (ret, err, g, s')"
  shows "extends (ev_state ev) s s'"
proof -
  obtain cs where c: "cmds_ok (ev_state ev) cs s" "execs (ev_state ev) cs s = Some s'"
    using assms unfolding vm_runs_on_journal_def by (metis snd_conv)
  then show ?thesis
    using exec_extends(2) [OF assms(2,3) c(1)] by simp
qed

text \<open>The value of a call moves by these operations of the state database.\<close>

definition move_cmds :: "StateEnv \<Rightarrow> bool \<Rightarrow> common_Address \<Rightarrow> common_Address \<Rightarrow> uint256 \<Rightarrow> StateDB \<Rightarrow> cmd list" where
  "move_cmds env remote caller addr val s =
     (if remote then [Do (OpSubBalance caller val)]
      else (if fst (Exist env addr s) then [] else [Do (OpCreateAccount addr)]) @ [Do (OpSubBalance caller val), Do (OpAddBalance addr val)])"

definition move_ok :: "StateEnv \<Rightarrow> bool \<Rightarrow> common_Address \<Rightarrow> common_Address \<Rightarrow> uint256 \<Rightarrow> StateDB \<Rightarrow> bool" where
  "move_ok env remote caller addr val s \<longleftrightarrow>
     cmds_ok env (move_cmds env remote caller addr val s) (if remote then s else snd (Exist env addr s))"

lemma undone_Exist: "objects_ok s \<Longrightarrow> undone env s (snd (Exist env a s))"
  using undone_getStateObject [of s env a] by (simp add: Exist_def split_beta Let_def)

lemma move_value_execs:
  "execs env (move_cmds env remote caller addr val s) (if remote then s else snd (Exist env addr s)) = Some (move_value env remote caller addr val s)"
  by (simp add: move_cmds_def move_value_def Transfer1_def Transfer_def split_beta Let_def)

lemma extends_ok: "extends env s s' \<Longrightarrow> objects_ok s' \<and> revisions_ok (jrnl s')"
  by (simp add: extends_def)

lemma extends_refl: "objects_ok s \<Longrightarrow> revisions_ok (jrnl s) \<Longrightarrow> extends env s s"
  using extends_undone undone_silent by blast

lemma move_value_extends:
  assumes "objects_ok s" "revisions_ok (jrnl s)" "move_ok env remote caller addr val s"
  shows "extends env s (move_value env remote caller addr val s)"
proof -
  let ?s = "if remote then s else snd (Exist env addr s)"
  have 1: "extends env s ?s"
    using extends_refl [OF assms(1,2)] extends_undone [OF undone_Exist [OF assms(1)] assms(2)] by simp
  have "extends env ?s (move_value env remote caller addr val s)"
    using exec_extends(2) [where s = ?s and env = env] extends_ok [OF 1] assms(3)
    unfolding move_ok_def move_value_execs [symmetric] by (metis move_value_execs option.inject)
  with 1 show ?thesis by (rule extends_trans)
qed

lemma local_call_extends:
  assumes R: "vm_runs_on_journal ev" and ok: "objects_ok s" "revisions_ok (jrnl s)"
    and c: "local_call ev caller addr inp gas val uuid s = (ret, gas1, err, s')"
  shows "extends (ev_state ev) s s'"
proof -
  let ?env = "ev_state ev"
  define s1 where "s1 = snd (GetCode ?env addr s)"
  define s2 where "s2 = snd (GetCodeHash ?env addr s1)"
  have e1: "extends ?env s s1"
    unfolding s1_def using extends_undone [OF undone_GetCode [OF ok(1)] ok(2)] .
  have e2: "extends ?env s1 s2"
    unfolding s2_def using extends_undone undone_GetCodeHash extends_ok [OF e1] by blast
  show ?thesis
  proof (cases "fst (GetCode ?env addr s) = []")
    case True
    then show ?thesis using c e1 by (auto simp: local_call_def s1_def split_beta Let_def)
  next
    case False
    then obtain k g where "ev_run ev k inp False s2 = (ret, err, g, s')"
      using c by (auto simp: local_call_def s1_def s2_def split_beta Let_def prod_eq_iff)
    from vm_runs_extends [OF R _ _ this] extends_ok [OF e2] have "extends ?env s2 s'"
      by blast
    with e1 e2 show ?thesis using extends_trans by blast
  qed
qed

lemma end_frame_error:
  assumes sn: "Snapshot s = (rid, s1)" and ok: "objects_ok s" "revisions_ok (jrnl s)" and ext: "extends env s1 s2"
  shows "\<exists>s3. end_frame env rid gas (Some e) s2 = Some ([], if e = ErrExecutionReverted then gas else 0, s3) \<and> view env s3 = view env s \<and>
    Entries (jrnl s3) = Entries (jrnl s)"
  using RevertToSnapshot_extends [OF sn ok ext] by (auto simp: end_frame_def)

text \<open>The state in which a call takes its snapshot.\<close>

definition before_frame :: "EvmEnv \<Rightarrow> common_Address \<Rightarrow> uint256 \<Rightarrow> StateDB \<Rightarrow> bool \<times> StateDB" where
  "before_frame ev caller val s = (if val = 0 then (True, s) else CanTransfer (ev_state ev) caller val s)"

lemma before_frame_ok:
  assumes "objects_ok s" "revisions_ok (jrnl s)"
  shows "objects_ok (snd (before_frame ev caller val s)) \<and> revisions_ok (jrnl (snd (before_frame ev caller val s)))"
proof -
  obtain s' where "apply_op (ev_state ev) (OpGetBalance caller) s = Some s'" "undone (ev_state ev) s s'"
    using apply_op_undone [OF assms(1), of "ev_state ev" "OpGetBalance caller"] by auto
  then show ?thesis
    using assms undone_keeps by (auto simp: before_frame_def CanTransfer_def split_beta Let_def)
qed

lemma call_frame_unfold:
  assumes "ev_depth ev \<le> CallCreateDepth" "fst (before_frame ev caller val s)" "Snapshot (snd (before_frame ev caller val s)) = (rid, s1)"
    "home_shard ev addr = Some sh"
  shows "call_frame ev caller addr inp gas val ru lu u rm s = (
     let remote = (ev_ShardID ev \<noteq> sh); s2 = move_value (ev_state ev) remote caller addr val s1;
         (out, rm1, ret, gas1, err, s3) = (case ev_precompiles ev addr of
            Some p \<Rightarrow> let (ret, gas1, err) = p inp gas in ([], rm, ret, gas1, err, s2)
          | None \<Rightarrow>
              if remote then remote_call ev sh caller addr inp gas val ru u rm s2
              else let (ret, gas1, err, s3) = local_call ev caller addr inp gas val lu s2 in ([], rm, ret, gas1, err, s3))
     in do { (ms, gas2, s4) \<leftarrow> end_frame (ev_state ev) rid gas1 err s3; Some (out @ ms, rm1, ret, gas2, err, s4) })"
  using assms by (simp add: call_frame_def before_frame_def not_less split_beta Let_def)

lemma remote_call_error:
  "remote_call ev sh caller addr inp gas val uuid u rm s = (out, rm1, ret, gas1, Some e, s') \<Longrightarrow> s' = s"
  by (auto simp: remote_call_def split_beta Let_def split: if_splits)


text \<open>Every account has a home: the hexadecimal text of an address is always placed.\<close>

lemma hex_char_valid: "n < 16 \<Longrightarrow> isValidHexChar (hex_char n)"
  by (auto simp: isValidHexChar_def hex_char_def Let_def)

lemma hex_EncodeToString_length: "length (hex_EncodeToString bs) = 2 * length bs"
  by (induction bs) (simp_all add: hex_EncodeToString_def)

lemma hex_EncodeToString_valid: "list_all isValidHexChar (hex_EncodeToString bs)"
proof -
  have "unat b div 16 < 16" for b :: byte
    using unsigned_less [of b, where ?'a = nat] by simp
  then show ?thesis
    by (induction bs) (simp_all add: hex_EncodeToString_def hex_char_valid)
qed

lemma hex_address_placed: "0 < n \<Longrightarrow> \<exists>sh. Addr2Shard n (hex_EncodeToString (address_bytes a)) = Some sh"
  using hex_EncodeToString_valid [of "address_bytes a"] set_drop_subset
  by (fastforce simp: Addr2Shard_defined_iff hex_EncodeToString_length address_bytes_def list_all_iff)

text \<open>A concrete machine of shard 1 whose accounts all live in shard 0.\<close>

definition example_ev :: EvmEnv where
  "example_ev = \<lparr> ev_state = example_env, ev_run = (\<lambda>k inp ro s. ([9], Some (OtherErr ''out of gas''), 3, SetNonce example_env 5 1 s)),
     ev_precompiles = (\<lambda>a. if a = 9 then Some (\<lambda>inp gas. ([], gas, Some (OtherErr ''bad input''))) else None), ev_depth = 0, ev_ShardNum = 1, ev_ShardID = 1, ev_NodeID = 0, ev_View = 0,
     ev_ip = (\<lambda>sh. ''n''), CreateAddress = (\<lambda>a n. a + ucast n), CreateAddress2 = (\<lambda>a x h. a), ev_Coinbase = 0, ev_txhash = (\<lambda>tx. []) \<rparr>"

definition empty_maps :: ResMaps where
  "empty_maps = \<lparr> OpCreateResMap = Map.empty, OpCallResMap = Map.empty, OpStaticCallResMap = Map.empty, OpDelegatecallResMap = Map.empty,
     OpCallCodeResMap = Map.empty, OpBalanceResMap = Map.empty, NodeAccountMap = Map.empty \<rparr>"

lemma example_home: "home_shard example_ev 0 = Some 0"
proof -
  obtain sh where "Addr2Shard 1 (hex_EncodeToString (address_bytes 0)) = Some sh"
    using hex_address_placed [of 1 0] by auto
  then show ?thesis
    using Addr2Shard_less by (fastforce simp: home_shard_def vm_Get_PartitionMap_def example_ev_def)
qed

lemma small_from_bal: "bal_db env s a < 2 ^ 64 \<Longrightarrow> small_balance env s a"
  by (simp add: bal_db_def small_balance_def split: option.splits)

lemma bal_db_Snapshot [simp]: "bal_db env (snd (Snapshot s)) a = bal_db env s a"
  by (simp add: Snapshot_def split_beta Let_def)

lemma example_balance: "bal_db example_env New2 5 = 10000" "bal_db example_env New2 0 = 10000"
  by (simp_all add: bal_db_def live_def New2_def read_object_def example_env_def Init_Balance_def)

lemma example_before: "before_frame example_ev 5 30 New2 = (True, snd (GetBalance example_env 5 New2))"
  by (simp add: before_frame_def CanTransfer_def example_ev_def GetBalance_bal(3) [OF New2_ok(1)] example_balance split_beta Let_def)

lemma example_move: "move_ok example_env True 5 0 30 (snd (Snapshot (snd (GetBalance example_env 5 New2))))"
  by (simp add: move_ok_def move_cmds_def small_from_bal GetBalance_bal(1) [OF New2_ok(1)] example_balance)


section \<open>A lost answer\<close>

lemma bal_db_GetCodeHash: "bal_db env (snd (GetCodeHash env a s)) b = bal_db env s b"
  using bal_db_getStateObject [OF prod.collapse [symmetric], of env a s b] by (simp add: GetCodeHash_def split_beta Let_def)

lemma bal_db_GetCode:
  assumes "objects_ok s"
  shows "bal_db env (snd (GetCode env a s)) b = bal_db env s b"
proof -
  obtain r s1 where g: "getStateObject env a s = (r, s1)"
    by (cases "getStateObject env a s")
  note facts = getStateObject_live [OF g] bal_db_getStateObject [OF g, of b]
  show ?thesis
  proof (cases r)
    case (Some ob)
    then have "stateObjects s1 a = Some ob" "address ob = a"
      using facts(6) getStateObject_address [OF _ assms] g by auto
    then have "bal_db env s1 (address ob) = SBalance (data ob)"
      by (simp add: bal_db_def live_def)
    moreover have "bal_db env (setError e s1) b = bal_db env s1 b" for e
      by (simp add: bal_db_def live_def setError_def del: not_None_eq)
    ultimately show ?thesis
      using g Some facts(7) by (auto simp: GetCode_def Code_obj_def bal_db_put split_beta Let_def)
  qed (use g facts in \<open>simp add: GetCode_def\<close>)
qed

lemma search_loop_le: "i \<le> j \<Longrightarrow> search_loop f i j \<le> j"
proof (induction f i j rule: search_loop.induct)
  case (1 f i j)
  have "i < j \<Longrightarrow> (i + j) div 2 \<le> j" "i < j \<Longrightarrow> i \<le> (i + j) div 2"
    by linarith+
  with 1 show ?case
    by (subst search_loop.simps) (auto simp: Let_def intro: order_trans)
qed

lemma Search_le: "Search n f \<le> n"
  by (simp add: Search_def search_loop_le)

lemma journal_log_found: "find_revision rid j = Some i \<Longrightarrow> \<exists>w. journal_log rid j = Some w"
  by (auto simp: find_revision_def journal_log_def Copy_journal_def Let_def split: if_splits)
    (metis Search_le nat_less_le)

lemma extends_finds:
  assumes "Snapshot s = (rid, s1)" "extends env s1 s2"
  shows "\<exists>w. journal_log rid (jrnl s2) = Some w"
proof -
  obtain rs where "ValidRevisions (jrnl s2) = ValidRevisions (jrnl s) @ \<lparr> RevId = rid, JournalIndex = length (Entries (jrnl s)) \<rparr> # rs"
    using assms(2) Snapshot_facts(4) [OF assms(1)] by (auto simp: extends_def)
  with find_revision_hit [OF _ this] assms(2) show ?thesis
    using journal_log_found by (fastforce simp: extends_def)
qed

lemma remote_transfer_credits:
  assumes R: "runs_on_journal Run (state_env ce g)" and s: "GlobalStateDB (g_vm g) = Some s" "objects_ok s" "revisions_ok (jrnl s)"
    and free: "hex_EncodeToString (address_bytes (oq_Addr m)) \<notin> GlobalLockMap g"
    and small: "small_balance (state_env ce g) (snd (GetCode (state_env ce g) (oq_Addr m) (snd (Snapshot s)))) (oq_Addr m)"
    and plain: "fst (GetCode (state_env ce g) (oq_Addr m) (snd (Snapshot s))) = []"
    and idle: "\<forall>k inp ro bh t. c_Code k = [] \<longrightarrow> Run k inp ro bh t = ([], None, t)"
    and caller: "length (oq_Caller m) = 20"
  shows "\<exists>out s'. handleOpCallReq Run ce m (g, p) = Some (out, keep_state s' g) \<and>
     (\<forall>x. bal_db (state_env ce g) s' x = bal_db (state_env ce g) s x + (if x = oq_Addr m then ucast (oq_Value m) else 0))"
proof -
  let ?env = "state_env ce g" and ?a = "oq_Addr m"
  obtain c where c: "Address_of_slice (oq_Caller m) = Some c"
    using caller by (auto simp: Address_of_slice_def)
  have sm: "case Some (oq_Value m) of None \<Rightarrow> True | Some v \<Rightarrow> small_balance ?env (snd (GetCode ?env ?a (snd (Snapshot s)))) ?a"
    using small by simp
  obtain rid s0 ret err s1 where sn: "Snapshot s = (rid, s0)" and ext: "extends ?env s0 s1"
    and run: "run_call Run ?env (Header (CurrentBlock (CurChain p))) (oq_Caller m) ?a (Some (oq_Value m))
       (oq_Gas m) (oq_Input m) (oq_UUID m) s = Some (rid, ret, err, s1)"
    using run_call_extends [OF R s(2,3) sm c] by blast
  define t where "t = AddBalance ?env ?a (ucast (oq_Value m)) (snd (GetCode ?env ?a s0))"
  have r: "ret = []" "err = None" "s1 = snd (GetCodeHash ?env ?a t)"
    using run c plain by (auto simp: run_call_def sn idle SetCallCode_def t_def split_beta Let_def)
  obtain w where "journal_log rid (jrnl s1) = Some w"
    using extends_finds [OF sn ext] by blast
  then have "\<exists>out. handleOpCallReq Run ce m (g, p) = Some (out, keep_state s1 g)"
    using free run r(2) by (simp add: handleOpCallReq_def New_def s(1) Let_def close_state_def)
  moreover have "bal_db ?env s1 x = bal_db ?env s x + (if x = ?a then ucast (oq_Value m) else 0)" for x
  proof -
    have ok0: "objects_ok s0" "bal_db ?env s0 x = bal_db ?env s x"
      using Snapshot_facts(5) [OF sn s(2)] sn by (auto simp: Snapshot_def split_beta Let_def)
    have "objects_ok (snd (GetCode ?env ?a s0))"
      using undone_GetCode [OF ok0(1)] by (simp add: undone_def)
    then show ?thesis
      using ok0 by (simp add: r(3) bal_db_GetCodeHash t_def AddBalance_bal(1) bal_db_GetCode)
  qed
  ultimately show ?thesis by blast
qed


definition idle_run :: interpreter where
  "idle_run k inp ro bh t = ([], None, t)"


end
