(* ===== verification/VmSafety.thy ===== *)
theory VmSafety
  imports Interpreter Frames
begin

text \<open>
  The interpreter does not crash: in a frame that is well formed, every operation of the Cancun table finds the
  operands it pops and the memory it touches, leaves at most 1024 operands and a well-formed frame. What is
  left are the panics that the checks of the loop do not cover: asking for more memory than the runtime can
  allocate, and the fields of the contexts that the program leaves nil.
\<close>

named_theorems safe_ops

section \<open>Operations of the state and the access list\<close>

lemma accList_setError [simp]: "accList (setError e s) = accList s"
  by (simp add: setError_def)

lemma accList_setStateObject [simp]: "accList (setStateObject ob s) = accList s"
  by (simp add: setStateObject_def)

lemma accList_getStateObject: "getStateObject env a s = (so, s1) \<Longrightarrow> accList s1 = accList s"
  by (auto simp: getStateObject_def Let_def split: option.splits sum.splits if_splits)

lemma accList_getOrNew: "getOrNewStateObject env a s = (ob, s1) \<Longrightarrow> accList s1 = accList s"
  by (auto simp: getOrNewStateObject_def createObject_def Let_def split: prod.splits option.splits dest!: accList_getStateObject)

lemmas accList_objects = accList_getStateObject accList_getOrNew

lemma accList_GetBalance [simp]: "accList (snd (GetBalance env a s)) = accList s"
  by (auto simp: GetBalance_def split: prod.splits dest!: accList_objects)

lemma accList_Empty_db [simp]: "accList (snd (Empty_db env a s)) = accList s"
  by (auto simp: Empty_db_def split: prod.splits dest!: accList_objects)

lemma accList_GetCodeHash [simp]: "accList (snd (GetCodeHash env a s)) = accList s"
  by (auto simp: GetCodeHash_def split: prod.splits dest!: accList_objects)

lemma accList_GetCode [simp]: "accList (snd (GetCode env a s)) = accList s"
  by (auto simp: GetCode_def Code_obj_def Let_def split: prod.splits option.splits dest!: accList_objects)

lemma accList_GetCodeSize [simp]: "accList (snd (GetCodeSize env a s)) = accList s"
  by (auto simp: GetCodeSize_def CodeSize_obj_def Let_def split: prod.splits option.splits dest!: accList_objects)

lemma accList_GetState [simp]: "accList (snd (GetState env a k s)) = accList s"
  by (auto simp: GetState_def Let_def split: prod.splits option.splits dest!: accList_objects)

lemma accList_SetBalance_obj [simp]: "accList (SetBalance_obj env v ob s) = accList s"
  by (simp add: SetBalance_obj_def)

lemma accList_AddBalance [simp]: "accList (AddBalance env a v s) = accList s"
  by (auto simp: AddBalance_def AddBalance_obj_def touch_def split: prod.splits dest!: accList_objects)

lemma accList_SubBalance [simp]: "accList (SubBalance env a v s) = accList s"
  by (auto simp: SubBalance_def SubBalance_obj_def split: prod.splits dest!: accList_objects)

lemma accList_SetState [simp]: "accList (SetState env a k v s) = accList s"
  by (auto simp: SetState_def SetState_obj_def Let_def split: prod.splits dest!: accList_objects)

lemma accList_SetTransientState [simp]: "accList (SetTransientState env a k v s) = accList s"
  by (auto simp: SetTransientState_def setTransientState_def Let_def)

lemma accList_AddLog [simp]: "accList (AddLog env l s) = accList s"
  by (simp add: AddLog_def Let_def)

lemma accList_SelfDestruct [simp]: "accList (SelfDestruct env a s) = accList s"
  by (auto simp: SelfDestruct_def Let_def split: prod.splits option.splits dest!: accList_objects)

lemma accList_Selfdestruct6780 [simp]: "accList (Selfdestruct6780 env a s) = accList s"
  by (auto simp: Selfdestruct6780_def split: prod.splits option.splits dest!: accList_objects)

lemma access_list_ok_AddAddress: "access_list_ok (accList s) \<Longrightarrow> access_list_ok (accList (AddAddressToAccessList env a s))"
  using AddAddress_ok [of "accList s" a] by (auto simp: AddAddressToAccessList_def Let_def split: prod.splits)

lemma AddSlotToAccessList_total:
  "access_list_ok (accList s) \<Longrightarrow> \<exists>s'. AddSlotToAccessList env a k s = Some s' \<and> access_list_ok (accList s')"
  using AddSlot_total [of "accList s" a k] by (auto simp: AddSlotToAccessList_def Let_def)

lemma Contains_total: "access_list_ok al \<Longrightarrow> \<exists>p q. Contains al a k = Some (p, q)"
  using slots_at_ok(3) [of al a] by (auto simp: Contains_def split: option.splits)

text \<open>The code of an account does not depend on the access list and the journal.\<close>

lemma GetCode_cong:
  "stateObjects s' = stateObjects s \<Longrightarrow> stateObjectsDestruct s' = stateObjectsDestruct s \<Longrightarrow> fst (GetCode env a s') = fst (GetCode env a s)"
  by (auto simp: GetCode_def getStateObject_def Code_obj_def Let_def split: option.splits sum.splits prod.splits)

lemma GetCode_AddAddress [simp]: "fst (GetCode env a (AddAddressToAccessList env' b s)) = fst (GetCode env a s)"
  by (rule GetCode_cong) (simp_all add: AddAddressToAccessList_def Let_def split: prod.splits)

lemma GetCode_AddSlot: "AddSlotToAccessList env' b k s = Some s' \<Longrightarrow> fst (GetCode env a s') = fst (GetCode env a s)"
  by (rule GetCode_cong) (auto simp: AddSlotToAccessList_def Let_def split: prod.splits Option.bind_splits)

section \<open>Well-formed frames\<close>

definition shared_ok :: "common_Hash \<Rightarrow> bytes \<Rightarrow> World \<Rightarrow> bool" where
  "shared_ok h cd w = (w_jumpdests w h = None \<or> w_jumpdests w h = codeBitmap cd)"

definition frame_ok :: "VmEnv \<Rightarrow> Scope \<Rightarrow> World \<Rightarrow> bool" where
  "frame_ok env sc w \<longleftrightarrow> length (store (sc_mem sc)) \<le> vm_max_alloc env \<and> 32 dvd length (store (sc_mem sc)) \<and> access_list_ok (accList (w_db w)) \<and>
     (sc_analysis sc = None \<or> sc_analysis sc = codeBitmap (c_Code (sc_contract sc))) \<and>
     shared_ok (CodeHash (sc_contract sc)) (c_Code (sc_contract sc)) w"

text \<open>Slices of the language are shorter than \<open>2 ^ 63\<close>.\<close>

definition short_slices :: "VmEnv \<Rightarrow> Scope \<Rightarrow> World \<Rightarrow> bool" where
  "short_slices env sc w \<longleftrightarrow> length (c_Code (sc_contract sc)) < 2 ^ 63 \<and> length (sc_input sc) < 2 ^ 63 \<and>
     length (w_returnData w) < 2 ^ 63 \<and> (\<forall>a. length (fst (GetCode (vm_state env) a (w_db w))) < 2 ^ 63)"

text \<open>The calls an instruction starts return, and keep the access list and the shared analyses.\<close>

definition keeps :: "World \<Rightarrow> World \<Rightarrow> bool" where
  "keeps w w' \<longleftrightarrow> (access_list_ok (accList (w_db w)) \<longrightarrow> access_list_ok (accList (w_db w'))) \<and>
     (\<forall>h cd. shared_ok h cd w \<longrightarrow> shared_ok h cd w')"

definition calls_return :: "Calls \<Rightarrow> bool" where
  "calls_return c \<longleftrightarrow>
     (\<forall>k a inp gas val w. \<exists>ret g err w'. do_OpCall c k a inp gas val w = Some (ret, g, err, w') \<and> keeps w w') \<and>
     (\<forall>k a inp gas val w. \<exists>ret g err w'. do_CallCode c k a inp gas val w = Some (ret, g, err, w') \<and> keeps w w') \<and>
     (\<forall>k a inp gas w. \<exists>ret g err w'. do_DelegateCall c k a inp gas w = Some (ret, g, err, w') \<and> keeps w w') \<and>
     (\<forall>k a inp gas w. \<exists>ret g err w'. do_StaticCall c k a inp gas w = Some (ret, g, err, w') \<and> keeps w w') \<and>
     (\<forall>k inp gas val w. \<exists>ret b g err w'. do_Create c k inp gas val w = Some (ret, b, g, err, w') \<and> keeps w w') \<and>
     (\<forall>k inp gas val salt w. \<exists>ret b g err w'. do_Create2 c k inp gas val salt w = Some (ret, b, g, err, w') \<and> keeps w w')"

text \<open>The pointers that the instructions follow without a check.\<close>

definition context_complete :: "VmEnv \<Rightarrow> bool" where
  "context_complete env \<longleftrightarrow> tx_GasPrice (vm_tx env) \<noteq> None \<and> bx_BaseFee (vm_block env) \<noteq> None \<and>
     bx_BlobBaseFee (vm_block env) \<noteq> None \<and> bx_Random (vm_block env) \<noteq> None \<and> bx_Difficulty (vm_block env) \<noteq> None \<and>
     (\<exists>cid. vm_chainConfig env = Some (Some cid)) \<and> (\<forall>n. bx_GetHash (vm_block env) n \<noteq> None)"

definition env_ok :: "VmEnv \<Rightarrow> bool" where
  "env_ok env \<longleftrightarrow> vm_max_alloc env < 2 ^ 63 \<and> 0 < ev_ShardNum (vm_ev env) \<and> context_complete env \<and> calls_return (vm_calls env)"

section \<open>Safe operations\<close>

definition safe_result :: "VmEnv \<Rightarrow> Scope \<Rightarrow> exec_result \<Rightarrow> bool" where
  "safe_result env sc r = (case r of
       None \<Rightarrow> False
     | Some (ret, err, sc', w') \<Rightarrow> frame_ok env sc' w' \<and> length (sc_stack sc') \<le> StackLimit \<and>
         c_Code (sc_contract sc') = c_Code (sc_contract sc) \<and> CodeHash (sc_contract sc') = CodeHash (sc_contract sc))"

definition has_memory :: "(Stack \<Rightarrow> (uint64 \<times> bool) panics) option \<Rightarrow> Scope \<Rightarrow> bool" where
  "has_memory msize sc = (case msize of
       None \<Rightarrow> True
     | Some f \<Rightarrow> (\<exists>s. f (sc_stack sc) = Some (s, False) \<and> unat s \<le> length (store (sc_mem sc))))"

definition exec_safe :: "VmEnv \<Rightarrow> executionFunc \<Rightarrow> nat \<Rightarrow> nat \<Rightarrow> (Stack \<Rightarrow> (uint64 \<times> bool) panics) option \<Rightarrow> bool" where
  "exec_safe env f lo hi msize \<longleftrightarrow> (\<forall>sc w. frame_ok env sc w \<longrightarrow> short_slices env sc w \<longrightarrow>
     unat (sc_pc sc) < length (c_Code (sc_contract sc)) \<longrightarrow> lo \<le> length (sc_stack sc) \<longrightarrow> length (sc_stack sc) \<le> hi \<longrightarrow>
     length (sc_stack sc) \<le> StackLimit \<longrightarrow> has_memory msize sc \<longrightarrow> safe_result env sc (f env sc w))"

definition size_total :: "(Stack \<Rightarrow> (uint64 \<times> bool) panics) option \<Rightarrow> nat \<Rightarrow> bool" where
  "size_total msize lo = (case msize of None \<Rightarrow> True | Some f \<Rightarrow> \<forall>st. lo \<le> length st \<longrightarrow> f st \<noteq> None)"

definition op_safe :: "VmEnv \<Rightarrow> operation \<Rightarrow> bool" where
  "op_safe env op \<longleftrightarrow> exec_safe env (execute op) (minStackOf op) (maxStackOf op) (memorySize op) \<and> size_total (memorySize op) (minStackOf op)"

lemma size_total_None [simp]: "size_total None lo"
  by (simp add: size_total_def)

lemma size_total_memory [safe_ops]:
  "size_total (Some memoryKeccak256) 2" "size_total (Some memoryCallDataCopy) 3" "size_total (Some memoryReturnDataCopy) 3"
  "size_total (Some memoryCodeCopy) 3" "size_total (Some memoryExtCodeCopy) 4" "size_total (Some memoryCreate) 3" "size_total (Some memoryCreate2) 4"
  "size_total (Some memoryReturn) 2" "size_total (Some memoryRevert) 2" "size_total (Some memoryLog) (Suc (Suc n))" "size_total (Some memoryMLoad) (Suc 0)"
  "size_total (Some memoryMStore8) 2" "size_total (Some memoryMStore) 2" "size_total (Some memoryMcopy) 3" "size_total (Some memoryCall) 7"
  "size_total (Some memoryDelegateCall) 6" "size_total (Some memoryStaticCall) 6"
  by (auto simp: size_total_def memoryKeccak256_def memoryCallDataCopy_def memoryReturnDataCopy_def memoryCodeCopy_def memoryExtCodeCopy_def
      memoryCreate_def memoryCreate2_def memoryReturn_def memoryRevert_def memoryLog_def memoryMLoad_def memoryMStore8_def memoryMStore_def
      memoryMcopy_def memoryCall_def memoryDelegateCall_def memoryStaticCall_def size_of_both_def size_at_def Back_def split: prod.splits)

lemma exec_safeI:
  assumes "\<And>sc w. frame_ok env sc w \<Longrightarrow> short_slices env sc w \<Longrightarrow> unat (sc_pc sc) < length (c_Code (sc_contract sc)) \<Longrightarrow>
    lo \<le> length (sc_stack sc) \<Longrightarrow> length (sc_stack sc) \<le> hi \<Longrightarrow> length (sc_stack sc) \<le> StackLimit \<Longrightarrow> has_memory msize sc \<Longrightarrow> safe_result env sc (f env sc w)"
  shows "exec_safe env f lo hi msize"
  using assms by (simp add: exec_safe_def)

lemma op_safe_simple [simp]:
  "op_safe env (simple_op f g p q) = exec_safe env f p (1024 + p - q) None"
  "op_safe env (gas_op f g dyn p q) = exec_safe env f p (1024 + p - q) None"
  "op_safe env (memory_op f g dyn p q msize) \<longleftrightarrow> exec_safe env f p (1024 + p - q) (Some msize) \<and> size_total (Some msize) p"
  by (simp_all add: op_safe_def simple_op_def gas_op_def memory_op_def minStack_def maxStack_def StackLimit_def)

lemma frame_ok_stack [simp]:
  "frame_ok env (sc\<lparr> sc_stack := st \<rparr>) w = frame_ok env sc w"
  "frame_ok env (sc\<lparr> sc_pc := pc \<rparr>) w = frame_ok env sc w"
  by (simp_all add: frame_ok_def)

lemma frame_ok_world [simp]:
  "accList s = accList (w_db w) \<Longrightarrow> frame_ok env sc (w\<lparr> w_db := s \<rparr>) = frame_ok env sc w"
  "frame_ok env sc (w\<lparr> w_out := msgs \<rparr>) = frame_ok env sc w" "frame_ok env sc (w\<lparr> w_maps := tbls \<rparr>) = frame_ok env sc w"
  "frame_ok env sc (w\<lparr> w_returnData := ret \<rparr>) = frame_ok env sc w"
  by (simp_all add: frame_ok_def shared_ok_def)

lemma frame_ok_mem [simp]:
  "length (store m) = length (store (sc_mem sc)) \<Longrightarrow> frame_ok env (sc\<lparr> sc_mem := m \<rparr>) w = frame_ok env sc w"
  by (simp add: frame_ok_def)

lemma safe_proceed [simp]:
  "safe_result env sc (proceed sc' w) = (frame_ok env sc' w \<and> length (sc_stack sc') \<le> StackLimit \<and>
     c_Code (sc_contract sc') = c_Code (sc_contract sc) \<and> CodeHash (sc_contract sc') = CodeHash (sc_contract sc))"
  "safe_result env sc (fail e sc' w) = (frame_ok env sc' w \<and> length (sc_stack sc') \<le> StackLimit \<and>
     c_Code (sc_contract sc') = c_Code (sc_contract sc) \<and> CodeHash (sc_contract sc') = CodeHash (sc_contract sc))"
  by (simp_all add: safe_result_def proceed_def fail_def)

text \<open>The operands are on the stack.\<close>

lemmas stack_shape = Suc_le_length_iff numeral_eq_Suc

lemmas stack_ops = pop_def peek_def set_top_def push_def

lemma safe_unary:
  assumes "f env = unary g env"
  shows "exec_safe env f (Suc 0) 1024 None"
  using assms by (intro exec_safeI) (auto simp: unary_def stack_shape stack_ops StackLimit_def)

lemma safe_binary:
  assumes "f env = binary g env"
  shows "exec_safe env f 2 1025 None"
  using assms by (intro exec_safeI) (auto simp: binary_def stack_shape stack_ops StackLimit_def)

lemma safe_ternary:
  assumes "f env = ternary g env"
  shows "exec_safe env f 3 1026 None"
  using assms by (intro exec_safeI) (auto simp: ternary_def stack_shape stack_ops StackLimit_def)

lemma safe_pushing:
  assumes "\<And>sc w. \<exists>v. f env sc w = pushing v sc w"
  shows "exec_safe env f 0 1023 None"
proof (rule exec_safeI)
  fix sc w
  assume "frame_ok env sc w" "length (sc_stack sc) \<le> 1023"
  then show "safe_result env sc (f env sc w)"
    using assms [of sc w] by (auto simp: pushing_def push_def StackLimit_def)
qed

lemma safe_unary_ops [safe_ops]:
  "exec_safe env opNot (Suc 0) 1024 None"
  "exec_safe env opIszero (Suc 0) 1024 None"
  "exec_safe env opBlobHash (Suc 0) 1024 None"
  by (rule safe_unary, rule opNot_def [THEN fun_cong] opIszero_def [THEN fun_cong] opBlobHash_def)+

lemma safe_binary_ops [safe_ops]:
  "exec_safe env opAdd 2 1025 None"
  "exec_safe env opSub 2 1025 None"
  "exec_safe env opMul 2 1025 None"
  "exec_safe env opDiv 2 1025 None"
  "exec_safe env opMod 2 1025 None"
  "exec_safe env opLt 2 1025 None"
  "exec_safe env opGt 2 1025 None"
  "exec_safe env opSlt 2 1025 None"
  "exec_safe env opSgt 2 1025 None"
  "exec_safe env opEq 2 1025 None"
  "exec_safe env opAnd 2 1025 None"
  "exec_safe env opOr 2 1025 None"
  "exec_safe env opXor 2 1025 None"
  "exec_safe env opSHL 2 1025 None"
  "exec_safe env opSHR 2 1025 None"
  "exec_safe env opSAR 2 1025 None"
  "exec_safe env opSdiv 2 1025 None"
  "exec_safe env opSmod 2 1025 None"
  "exec_safe env opExp 2 1025 None"
  "exec_safe env opSignExtend 2 1025 None"
  "exec_safe env opByte 2 1025 None"
  by (rule safe_binary, rule opAdd_def [THEN fun_cong] opSub_def [THEN fun_cong] opMul_def [THEN fun_cong] opDiv_def [THEN fun_cong] opMod_def [THEN fun_cong] opLt_def [THEN fun_cong] opGt_def [THEN fun_cong] opSlt_def [THEN fun_cong] opSgt_def [THEN fun_cong] opEq_def [THEN fun_cong] opAnd_def [THEN fun_cong] opOr_def [THEN fun_cong] opXor_def [THEN fun_cong] opSHL_def [THEN fun_cong] opSHR_def [THEN fun_cong] opSAR_def [THEN fun_cong] opSdiv_def opSmod_def opExp_def opSignExtend_def opByte_def)+

lemma safe_ternary_ops [safe_ops]:
  "exec_safe env opAddmod 3 1026 None"
  "exec_safe env opMulmod 3 1026 None"
  by (rule safe_ternary, rule opAddmod_def opMulmod_def)+

lemma safe_push_ops [safe_ops]:
  "exec_safe env opAddress 0 1023 None"
  "exec_safe env opOrigin 0 1023 None"
  "exec_safe env opCaller 0 1023 None"
  "exec_safe env opCallValue 0 1023 None"
  "exec_safe env opCoinbase 0 1023 None"
  "exec_safe env opTimestamp 0 1023 None"
  "exec_safe env opNumber 0 1023 None"
  "exec_safe env opGasLimit 0 1023 None"
  "exec_safe env opPc 0 1023 None"
  "exec_safe env opGas 0 1023 None"
  "exec_safe env opPush0 0 1023 None"
  "exec_safe env opCallDataSize 0 1023 None"
  "exec_safe env opReturnDataSize 0 1023 None"
  "exec_safe env opCodeSize 0 1023 None"
  "exec_safe env opMsize 0 1023 None"
  by (rule safe_pushing, simp add: push_big_def push_nat_def opAddress_def opOrigin_def opCaller_def opCallValue_def opCoinbase_def opTimestamp_def opNumber_def opGasLimit_def opPc_def opGas_def opPush0_def opCallDataSize_def opReturnDataSize_def opCodeSize_def opMsize_def, blast)+

lemma safe_context_ops [safe_ops]:
  assumes "env_ok env"
  shows "exec_safe env opGasprice 0 1023 None" "exec_safe env opBaseFee 0 1023 None" "exec_safe env opBlobBaseFee 0 1023 None"
    "exec_safe env opRandom 0 1023 None" "exec_safe env opDifficulty 0 1023 None" "exec_safe env opChainID 0 1023 None"
  using assms
  by (auto intro!: safe_pushing simp: env_ok_def context_complete_def push_big_def opGasprice_def opBaseFee_def opBlobBaseFee_def opRandom_def
      opDifficulty_def opChainID_def)

section \<open>State, jumps and stack operations\<close>

lemma home_shard_total: "env_ok env \<Longrightarrow> \<exists>sh. home_shard (vm_ev env) a = Some sh"
  using hex_address_placed [of "ev_ShardNum (vm_ev env)" a] by (auto simp: env_ok_def home_shard_def vm_Get_PartitionMap_def)

lemma safe_opBalance [safe_ops]: "env_ok env \<Longrightarrow> exec_safe env opBalance (Suc 0) 1024 None"
proof (rule exec_safeI)
  fix sc w
  assume a: "env_ok env" "frame_ok env sc w" "Suc 0 \<le> length (sc_stack sc)" "length (sc_stack sc) \<le> 1024"
  then obtain x r where st: "sc_stack sc = x # r"
    by (auto simp: Suc_le_length_iff)
  obtain sh where "home_shard (vm_ev env) (ucast x) = Some sh"
    using home_shard_total [OF a(1)] by blast
  then show "safe_result env sc (opBalance env sc w)"
    using a st by (auto simp: opBalance_def stack_ops Let_def split_beta StackLimit_def)
qed

lemma safe_opBlockhash [safe_ops]: "env_ok env \<Longrightarrow> exec_safe env opBlockhash (Suc 0) 1024 None"
proof (rule exec_safeI)
  fix sc w
  assume a: "env_ok env" "frame_ok env sc w" "Suc 0 \<le> length (sc_stack sc)" "length (sc_stack sc) \<le> 1024"
  then obtain x r where st: "sc_stack sc = x # r"
    by (auto simp: Suc_le_length_iff)
  obtain h where "bx_GetHash (vm_block env) (Uint64 x) = Some h"
    using a(1) by (auto simp: env_ok_def context_complete_def)
  then show "safe_result env sc (opBlockhash env sc w)"
    using a st by (simp add: opBlockhash_def stack_ops Let_def StackLimit_def)
qed

lemma safe_state_ops [safe_ops]:
  "exec_safe env opSelfBalance 0 1023 None" "exec_safe env opExtCodeSize (Suc 0) 1024 None" "exec_safe env opExtCodeHash (Suc 0) 1024 None"
  "exec_safe env opPop (Suc 0) 1025 None" "exec_safe env opSload (Suc 0) 1024 None"
  "exec_safe env opSstore 2 1026 None" "exec_safe env opTload (Suc 0) 1024 None" "exec_safe env opTstore 2 1026 None"
  "exec_safe env opJumpdest 0 1024 None" "exec_safe env opStop 0 1024 None"
  "exec_safe env opSelfdestruct (Suc 0) 1025 None" "exec_safe env opSelfdestruct6780 (Suc 0) 1025 None"
  by (rule exec_safeI, fastforce simp: opSelfBalance_def opExtCodeSize_def opExtCodeHash_def opPop_def opSload_def opSstore_def
      opTload_def opTstore_def opJumpdest_def opStop_def opSelfdestruct_def opSelfdestruct6780_def pushing_def stack_shape stack_ops Let_def
      split_beta StackLimit_def)+

lemma safe_opUndefined [safe_ops]: "exec_safe env opUndefined 0 1024 None"
  by (rule exec_safeI) (simp add: opUndefined_def Let_def StackLimit_def)

lemma safe_opCallDataLoad [safe_ops]: "exec_safe env opCallDataLoad (Suc 0) 1024 None"
proof (rule exec_safeI)
  fix sc w
  assume a: "frame_ok env sc w" "short_slices env sc w" "Suc 0 \<le> length (sc_stack sc)" "length (sc_stack sc) \<le> 1024"
  then obtain x r where st: "sc_stack sc = x # r"
    by (auto simp: Suc_le_length_iff)
  obtain v where "getData (sc_input sc) (Uint64 x) 32 = Some v"
    using getData_total [of "sc_input sc" 32 "Uint64 x"] a(2) by (auto simp: short_slices_def)
  then show "safe_result env sc (opCallDataLoad env sc w)"
    using a st by (auto simp: opCallDataLoad_def stack_ops StackLimit_def)
qed

text \<open>A jump is checked with an analysis of the code of the frame.\<close>

lemma codeBitmap_ok: "\<exists>bits. codeBitmap cd = Some bits \<and> length bits = length cd div 8 + 5"
proof -
  let ?z = "replicate (length cd div 8 + 1 + 4) 0 :: bitvec"
  have "clear_from ?z 0"
    by (simp add: clear_from_def bit_at_def)
  then show ?thesis
    using codeBitmap_loop_marks [of ?z 0 cd "length cd + 1"] by (auto simp: codeBitmap_def codeBitmapInternal_def)
qed

lemma codeSegment_total: "codeBitmap cd = Some bits \<Longrightarrow> u < length cd \<Longrightarrow> \<exists>b. codeSegment bits u = Some b"
  using codeBitmap_ok [of cd] div_le_mono [of u "length cd" 8] by (auto simp: codeSegment_def)

lemma isCode_total:
  assumes "an = None \<or> an = codeBitmap cd" "shared h = None \<or> shared h = codeBitmap cd" "u < length cd"
  shows "\<exists>b an' shared'. isCode cd h an shared u = Some (b, an', shared') \<and> an' = codeBitmap cd \<and>
    (shared' h = None \<or> shared' h = codeBitmap cd)"
proof -
  obtain bits where bits: "codeBitmap cd = Some bits"
    using codeBitmap_ok by blast
  then obtain b where "codeSegment bits u = Some b"
    using codeSegment_total assms(3) by blast
  then show ?thesis
    using bits assms(1,2) by (cases an; cases "shared h") (auto simp: isCode_def)
qed

lemma safe_jump_to:
  assumes "frame_ok env sc w" "length (sc_stack sc) \<le> 1024" "c_Code (sc_contract sc) = c_Code (sc_contract sc0)"
    "CodeHash (sc_contract sc) = CodeHash (sc_contract sc0)"
  shows "safe_result env sc0 (jump_to pos sc w)"
proof -
  let ?cd = "c_Code (sc_contract sc)" and ?u = "unat (Uint64 pos)"
  show ?thesis
  proof (cases "IsUint64 pos \<and> ?u < length ?cd \<and> ?cd ! ?u = JUMPDEST")
    case True
    then obtain b an shared where r: "isCode ?cd (CodeHash (sc_contract sc)) (sc_analysis sc) (w_jumpdests w) ?u = Some (b, an, shared)"
      "an = codeBitmap ?cd" "shared (CodeHash (sc_contract sc)) = None \<or> shared (CodeHash (sc_contract sc)) = codeBitmap ?cd"
      using isCode_total [of "sc_analysis sc" ?cd "w_jumpdests w" "CodeHash (sc_contract sc)" ?u] assms(1)
      by (auto simp: frame_ok_def shared_ok_def)
    then have "frame_ok env (sc\<lparr> sc_analysis := an \<rparr>) (w\<lparr> w_jumpdests := shared \<rparr>)"
      using assms(1) by (auto simp: frame_ok_def shared_ok_def)
    then show ?thesis
      using True r(1) assms(2,3,4) by (auto simp: jump_to_def validJumpdest_def Let_def StackLimit_def)
  qed (use assms in \<open>auto simp: jump_to_def validJumpdest_def Let_def StackLimit_def\<close>)
qed

lemma safe_jump_ops [safe_ops]: "exec_safe env opJump (Suc 0) 1025 None" "exec_safe env opJumpi 2 1026 None"
proof (rule exec_safeI)
  fix sc w
  assume a: "frame_ok env sc w" "Suc 0 \<le> length (sc_stack sc)" "length (sc_stack sc) \<le> StackLimit"
  then obtain x r where "sc_stack sc = x # r"
    by (auto simp: Suc_le_length_iff)
  then show "safe_result env sc (opJump env sc w)"
    using a by (auto simp: opJump_def stack_ops StackLimit_def intro!: safe_jump_to)
next
  show "exec_safe env opJumpi 2 1026 None"
  proof (rule exec_safeI)
    fix sc w
    assume a: "frame_ok env sc w" "2 \<le> length (sc_stack sc)" "length (sc_stack sc) \<le> StackLimit"
    then obtain x y r where "sc_stack sc = x # y # r"
      by (auto simp: stack_shape)
    then show "safe_result env sc (opJumpi env sc w)"
      using a by (auto simp: opJumpi_def stack_ops StackLimit_def Let_def intro!: safe_jump_to)
  qed
qed

lemma safe_opPush1 [safe_ops]: "exec_safe env opPush1 0 1023 None"
  by (rule exec_safeI) (simp add: opPush1_def pushing_def push_def Let_def StackLimit_def)

lemma safe_makePush [safe_ops]: "exec_safe env (makePush k n) 0 1023 None"
proof (rule exec_safeI)
  fix sc w
  assume a: "frame_ok env sc w" "short_slices env sc w" "unat (sc_pc sc) < length (c_Code (sc_contract sc))" "length (sc_stack sc) \<le> 1023"
  then have "unat (sc_pc sc) + unat (1 :: uint64) < 2 ^ 63"
    by (simp add: short_slices_def)
  then have "unat (sc_pc sc + 1) < 2 ^ 63"
    using unat_add_no_wrap [of "sc_pc sc" 1] by simp
  then have "0 \<le> sint (sc_pc sc + 1)"
    using sint_small [of "sc_pc sc + 1"] by linarith
  then show "safe_result env sc (makePush k n env sc w)"
    using a by (simp add: makePush_def pushing_def push_def Let_def StackLimit_def)
qed

lemma safe_dup_op [safe_ops]: "0 < n \<Longrightarrow> op_safe env (dup_op n)"
  unfolding op_safe_def
  by (intro conjI exec_safeI) (auto simp: dup_op_def makeDup_def dup_def push_def minDupStack_def maxDupStack_def minStack_def maxStack_def StackLimit_def)

lemma safe_swap_op [safe_ops]: "op_safe env (swap_op n)"
  unfolding op_safe_def
  by (intro conjI exec_safeI) (auto simp: swap_op_def opSwap_def stack_swap_def minSwapStack_def maxSwapStack_def minStack_def maxStack_def StackLimit_def)

lemma pops_take_drop: "n \<le> length st \<Longrightarrow> pops n st = Some (take n st, drop n st)"
  by (induction n arbitrary: st) (auto simp: pop_def Suc_le_length_iff)

section \<open>Operations on the memory\<close>

lemma frame_short_mem: "frame_ok env sc w \<Longrightarrow> env_ok env \<Longrightarrow> short_mem (sc_mem sc)"
  by (simp add: frame_ok_def env_ok_def short_mem_def)

lemma size_at_covers:
  assumes "size_at i j st = Some (s, False)" "unat s \<le> length (store m)"
  shows "in_memory (Uint64 (st ! i)) (Uint64 (st ! j)) m" "IsUint64 (st ! j)"
  using assms calcMemSize64_covers [of "st ! i" "st ! j" s m] by (auto simp: size_at_def Back_def split: if_splits)

lemma size_of_both_covers:
  assumes "size_of_both i j k l st = Some (s, False)" "unat s \<le> length (store m)"
  shows "in_memory (Uint64 (st ! i)) (Uint64 (st ! j)) m" "in_memory (Uint64 (st ! k)) (Uint64 (st ! l)) m"
proof -
  from assms(1) obtain x y where "size_at i j st = Some (x, False)" "size_at k l st = Some (y, False)" "x \<le> s" "y \<le> s"
    by (auto simp: size_of_both_def split: Option.bind_splits prod.splits if_splits)
  then show "in_memory (Uint64 (st ! i)) (Uint64 (st ! j)) m" "in_memory (Uint64 (st ! k)) (Uint64 (st ! l)) m"
    using assms(2) size_at_covers(1) by (auto simp: word_le_nat_alt)
qed

lemma has_memory_at:
  assumes "has_memory (Some f) sc" "f = size_at i j"
  shows "in_memory (Uint64 (sc_stack sc ! i)) (Uint64 (sc_stack sc ! j)) (sc_mem sc)" "IsUint64 (sc_stack sc ! j)"
  using assms size_at_covers [of i j "sc_stack sc"] by (auto simp: has_memory_def)

lemma has_memory_both:
  assumes "has_memory (Some f) sc" "f = size_of_both i j k l"
  shows "in_memory (Uint64 (sc_stack sc ! i)) (Uint64 (sc_stack sc ! j)) (sc_mem sc)"
    "in_memory (Uint64 (sc_stack sc ! k)) (Uint64 (sc_stack sc ! l)) (sc_mem sc)"
  using assms size_of_both_covers [of i j k l "sc_stack sc"] by (auto simp: has_memory_def)

lemma safe_makeLog [safe_ops]: "env_ok env \<Longrightarrow> exec_safe env (makeLog n) (Suc (Suc n)) hi (Some memoryLog)"
proof (rule exec_safeI)
  fix sc w
  assume a: "env_ok env" "frame_ok env sc w" "Suc (Suc n) \<le> length (sc_stack sc)" "length (sc_stack sc) \<le> StackLimit" "has_memory (Some memoryLog) sc"
  then obtain x y r where st: "sc_stack sc = x # y # r" "n \<le> length r"
    by (auto simp: stack_shape)
  have "in_memory (Uint64 x) (Uint64 y) (sc_mem sc)"
    using has_memory_at [OF a(5) memoryLog_def] st by simp
  then obtain d where "GetCopy (Uint64 x) (Uint64 y) (sc_mem sc) = Some d"
    using GetPtr_total frame_short_mem [OF a(2,1)] by (metis GetCopy_eq_GetPtr)
  then show "safe_result env sc (makeLog n env sc w)"
    using a st by (auto simp: makeLog_def stack_ops pops_take_drop Let_def)
qed

lemma safe_opKeccak256 [safe_ops]: "env_ok env \<Longrightarrow> exec_safe env opKeccak256 2 hi (Some memoryKeccak256)"
proof (rule exec_safeI)
  fix sc w
  assume a: "env_ok env" "frame_ok env sc w" "2 \<le> length (sc_stack sc)" "length (sc_stack sc) \<le> StackLimit" "has_memory (Some memoryKeccak256) sc"
  then obtain x y r where st: "sc_stack sc = x # y # r"
    by (auto simp: stack_shape)
  have "in_memory (Uint64 x) (Uint64 y) (sc_mem sc)"
    using has_memory_at [OF a(5) memoryKeccak256_def] st by simp
  then obtain d where "GetPtr (Uint64 x) (Uint64 y) (sc_mem sc) = Some d"
    using GetPtr_total frame_short_mem [OF a(2,1)] by metis
  then show "safe_result env sc (opKeccak256 env sc w)"
    using a st by (auto simp: opKeccak256_def stack_ops)
qed

lemma safe_return_ops [safe_ops]:
  assumes "env_ok env"
  shows "exec_safe env opReturn 2 hi (Some memoryReturn)" "exec_safe env opRevert 2 hi (Some memoryRevert)"
proof -
  have "\<exists>x y r d. sc_stack sc = x # y # r \<and> GetCopy (Uint64 x) (Uint64 y) (sc_mem sc) = Some d"
    if a: "frame_ok env sc w" "2 \<le> length (sc_stack sc)" "has_memory (Some f) sc" "f = size_at 0 1" for sc w f
  proof -
    obtain x y r where st: "sc_stack sc = x # y # r"
      using a(2) by (auto simp: stack_shape)
    then have "in_memory (Uint64 x) (Uint64 y) (sc_mem sc)"
      using has_memory_at [OF a(3,4)] by simp
    then show ?thesis
      using st GetPtr_total [OF _ frame_short_mem [OF a(1) assms]] by (metis GetCopy_eq_GetPtr)
  qed
  note region = this
  show "exec_safe env opReturn 2 hi (Some memoryReturn)"
    by (rule exec_safeI, frule (2) region [OF _ _ _ memoryReturn_def]) (auto simp: opReturn_def stack_ops safe_result_def)
  show "exec_safe env opRevert 2 hi (Some memoryRevert)"
    by (rule exec_safeI, frule (2) region [OF _ _ _ memoryRevert_def]) (auto simp: opRevert_def stack_ops safe_result_def)
qed

lemma has_memory_word:
  assumes "has_memory (Some f) sc" "f (sc_stack sc) = do { a \<leftarrow> Back 0 (sc_stack sc); Some (calcMemSize64WithUint a l) }"
  shows "in_memory (Uint64 (sc_stack sc ! 0)) l (sc_mem sc)"
  using assms calcMemSize64WithUint_covers [of "sc_stack sc ! 0" l _ "sc_mem sc"] by (auto simp: has_memory_def Back_def split: if_splits)

lemma safe_opMload [safe_ops]: "env_ok env \<Longrightarrow> exec_safe env opMload (Suc 0) hi (Some memoryMLoad)"
proof (rule exec_safeI)
  fix sc w
  assume a: "env_ok env" "frame_ok env sc w" "Suc 0 \<le> length (sc_stack sc)" "length (sc_stack sc) \<le> StackLimit" "has_memory (Some memoryMLoad) sc"
  then obtain x r where st: "sc_stack sc = x # r"
    by (auto simp: Suc_le_length_iff)
  obtain d where "GetPtr (Uint64 x) 32 (sc_mem sc) = Some d"
    using GetPtr_total [OF _ frame_short_mem [OF a(2,1)]] has_memory_word [OF a(5) memoryMLoad_def] st by fastforce
  then show "safe_result env sc (opMload env sc w)"
    using a st by (auto simp: opMload_def stack_ops)
qed

lemma safe_store_ops [safe_ops]:
  assumes "env_ok env"
  shows "exec_safe env opMstore 2 hi (Some memoryMStore)" "exec_safe env opMstore8 2 hi (Some memoryMStore8)"
proof -
  show "exec_safe env opMstore 2 hi (Some memoryMStore)"
  proof (rule exec_safeI)
    fix sc w
    assume a: "frame_ok env sc w" "2 \<le> length (sc_stack sc)" "length (sc_stack sc) \<le> StackLimit" "has_memory (Some memoryMStore) sc"
    then obtain x y r where st: "sc_stack sc = x # y # r"
      by (auto simp: stack_shape)
    obtain m where "Set32 (Uint64 x) y (sc_mem sc) = Some m" "length (store m) = length (store (sc_mem sc))"
      using Set32_total [OF _ frame_short_mem [OF a(1) assms]] has_memory_word [OF a(4) memoryMStore_def] st by fastforce
    then show "safe_result env sc (opMstore env sc w)"
      using a st by (auto simp: opMstore_def stack_ops)
  qed
  show "exec_safe env opMstore8 2 hi (Some memoryMStore8)"
  proof (rule exec_safeI)
    fix sc w
    assume a: "frame_ok env sc w" "2 \<le> length (sc_stack sc)" "length (sc_stack sc) \<le> StackLimit" "has_memory (Some memoryMStore8) sc"
    then obtain x y r where st: "sc_stack sc = x # y # r"
      by (auto simp: stack_shape)
    obtain m where "set_byte (Uint64 x) (ucast (Uint64 y)) (sc_mem sc) = Some m" "length (store m) = length (store (sc_mem sc))"
      using set_byte_total [OF _ frame_short_mem [OF a(1) assms]] has_memory_word [OF a(4) memoryMStore8_def] st by fastforce
    then show "safe_result env sc (opMstore8 env sc w)"
      using a st by (auto simp: opMstore8_def stack_ops)
  qed
qed

text \<open>\<open>MCOPY\<close>: the size is that of the region that starts later, and covers both.\<close>

lemma in_memory_earlier:
  "in_memory (Uint64 b) l m \<Longrightarrow> a \<le> b \<Longrightarrow> IsUint64 b \<or> l = 0 \<Longrightarrow> in_memory (Uint64 a) l m"
proof (cases "l = 0")
  case False
  assume a: "in_memory (Uint64 b) l m" "a \<le> b" "IsUint64 b \<or> l = 0"
  then have "IsUint64 a"
    using False by (auto simp: IsUint64_def word_le_nat_alt)
  then have "unat (Uint64 a) \<le> unat (Uint64 b)"
    using a False by (simp add: unat_Uint64 word_le_nat_alt)
  then show ?thesis
    using a(1) False by (simp add: in_memory_def)
qed (simp add: in_memory_def)

lemma calcMemSize64_offset: "calcMemSize64 off l = (s, False) \<Longrightarrow> IsUint64 off \<or> Uint64 l = 0"
  by (auto simp: calcMemSize64_def calcMemSize64WithUint_def split: if_splits)

lemma safe_opMcopy [safe_ops]: "env_ok env \<Longrightarrow> exec_safe env opMcopy 3 hi (Some memoryMcopy)"
proof (rule exec_safeI)
  fix sc w
  assume a: "env_ok env" "frame_ok env sc w" "3 \<le> length (sc_stack sc)" "length (sc_stack sc) \<le> StackLimit" "has_memory (Some memoryMcopy) sc"
  then obtain x y z r where st: "sc_stack sc = x # y # z # r"
    by (auto simp: stack_shape)
  let ?s = "if x < y then y else x"
  obtain s where s: "calcMemSize64 ?s z = (s, False)" "unat s \<le> length (store (sc_mem sc))"
    using a(5) st by (auto simp: has_memory_def memoryMcopy_def Back_def Let_def)
  note both = in_memory_earlier [OF calcMemSize64_covers [OF s, THEN conjunct1] _ calcMemSize64_offset [OF s(1)]]
  have "x \<le> ?s" "y \<le> ?s"
    by auto
  then obtain m where "mem_Copy (Uint64 x) (Uint64 y) (Uint64 z) (sc_mem sc) = Some m" "length (store m) = length (store (sc_mem sc))"
    using mem_Copy_total [OF both both frame_short_mem [OF a(2,1)], of x y] by blast
  then show "safe_result env sc (opMcopy env sc w)"
    using a st by (auto simp: opMcopy_def stack_ops)
qed

lemma safe_copy_data:
  assumes "in_memory (Uint64 x) (Uint64 z) (sc_mem sc)" "short_mem (sc_mem sc)" "length d < 2 ^ 63" "frame_ok env sc w" "Suc (Suc (Suc (length r))) \<le> StackLimit"
  shows "safe_result env sc (copy_data d (x # y # z # r) sc w)"
proof -
  have "unat (Uint64 z) < 2 ^ 63"
    using assms(1,2) by (auto simp: in_memory_def short_mem_def)
  then obtain v where "getData d (clip y) (Uint64 z) = Some v"
    using getData_total [OF assms(3)] by blast
  moreover obtain m where "mem_Set (Uint64 x) (Uint64 z) v (sc_mem sc) = Some m" "length (store m) = length (store (sc_mem sc))"
    using mem_Set_total [OF assms(1,2)] by blast
  ultimately show ?thesis
    using assms(4,5) by (auto simp: copy_data_def stack_ops)
qed

lemma safe_copy_ops [safe_ops]:
  assumes "env_ok env"
  shows "exec_safe env opCallDataCopy 3 hi (Some memoryCallDataCopy)" "exec_safe env opCodeCopy 3 hi (Some memoryCodeCopy)"
    "exec_safe env opExtCodeCopy 4 hi (Some memoryExtCodeCopy)"
proof -
  have copy: "safe_result env sc (copy_data d (sc_stack sc) sc w)"
    if a: "frame_ok env sc w" "3 \<le> length (sc_stack sc)" "length (sc_stack sc) \<le> StackLimit" "has_memory (Some f) sc" "f = size_at 0 2" "length d < 2 ^ 63"
    for sc w f d
  proof -
    obtain x y z r where st: "sc_stack sc = x # y # z # r"
      using a(2) by (auto simp: stack_shape)
    then show ?thesis
      using safe_copy_data [OF _ frame_short_mem [OF a(1) assms] a(6,1), of x z r y] has_memory_at(1) [OF a(4,5)] a(3) by simp
  qed
  show "exec_safe env opCallDataCopy 3 hi (Some memoryCallDataCopy)"
    by (rule exec_safeI) (auto simp: opCallDataCopy_def short_slices_def intro!: copy memoryCallDataCopy_def)
  show "exec_safe env opCodeCopy 3 hi (Some memoryCodeCopy)"
    by (rule exec_safeI) (auto simp: opCodeCopy_def short_slices_def intro!: copy memoryCodeCopy_def)
  show "exec_safe env opExtCodeCopy 4 hi (Some memoryExtCodeCopy)"
  proof (rule exec_safeI)
    fix sc w
    assume a: "frame_ok env sc w" "short_slices env sc w" "4 \<le> length (sc_stack sc)" "length (sc_stack sc) \<le> StackLimit" "has_memory (Some memoryExtCodeCopy) sc"
    then obtain b x y z r where st: "sc_stack sc = b # x # y # z # r"
      by (auto simp: stack_shape)
    let ?s = "snd (GetCode (vm_state env) (ucast b) (w_db w))"
    have "safe_result env sc (copy_data (fst (GetCode (vm_state env) (ucast b) (w_db w))) (x # y # z # r) sc (w\<lparr> w_db := ?s \<rparr>))"
      using safe_copy_data [OF _ frame_short_mem [OF a(1) assms], of x z _ env "w\<lparr> w_db := ?s \<rparr>" r y] has_memory_at(1) [OF a(5) memoryExtCodeCopy_def]
        a(1,2,4) st by (simp add: short_slices_def)
    then show "safe_result env sc (opExtCodeCopy env sc w)"
      using st by (simp add: opExtCodeCopy_def pop_def split_beta)
  qed
qed

lemma safe_opReturnDataCopy [safe_ops]: "env_ok env \<Longrightarrow> exec_safe env opReturnDataCopy 3 hi (Some memoryReturnDataCopy)"
proof (rule exec_safeI)
  fix sc w
  assume a: "env_ok env" "frame_ok env sc w" "short_slices env sc w" "3 \<le> length (sc_stack sc)" "length (sc_stack sc) \<le> StackLimit"
    "has_memory (Some memoryReturnDataCopy) sc"
  then obtain x y z r where st: "sc_stack sc = x # y # z # r"
    by (auto simp: stack_shape)
  note mem = has_memory_at [OF a(6) memoryReturnDataCopy_def]
  show "safe_result env sc (opReturnDataCopy env sc w)"
  proof (cases "IsUint64 y \<and> IsUint64 (y + z) \<and> Uint64 (y + z) \<le> of_nat (length (w_returnData w))")
    case True
    have "unat y < 2 ^ 64" "unat z < 2 ^ 64"
      using True mem(2) st by (auto simp: IsUint64_def)
    then have "unat y \<le> unat (y + z)"
      by (simp add: unat_word_ariths)
    then have "Uint64 y \<le> Uint64 (y + z)" "unat (Uint64 (y + z)) \<le> length (w_returnData w)"
      using True a(3) by (auto simp: word_le_nat_alt unat_Uint64 short_slices_def unat_of_nat)
    then obtain v where "slice (w_returnData w) (Uint64 y) (Uint64 (y + z)) = Some v"
      using slice_total by blast
    moreover obtain m where "mem_Set (Uint64 x) (Uint64 z) v (sc_mem sc) = Some m" "length (store m) = length (store (sc_mem sc))"
      using mem_Set_total [OF _ frame_short_mem [OF a(2,1)]] mem(1) st by fastforce
    ultimately show ?thesis
      using True a st by (auto simp: opReturnDataCopy_def stack_ops Let_def)
  qed (use a st in \<open>auto simp: opReturnDataCopy_def stack_ops Let_def\<close>)
qed

section \<open>Calls and creations\<close>

lemma frame_ok_keeps: "frame_ok env sc w \<Longrightarrow> keeps w w' \<Longrightarrow> frame_ok env sc w'"
  by (auto simp: frame_ok_def keeps_def)

lemma frame_ok_contract:
  "frame_ok env sc w \<Longrightarrow> c_Code c = c_Code (sc_contract sc) \<Longrightarrow> CodeHash c = CodeHash (sc_contract sc) \<Longrightarrow> frame_ok env (sc\<lparr> sc_contract := c \<rparr>) w"
  by (simp add: frame_ok_def)

lemma RefundGas_code [simp]: "c_Code (RefundGas g c) = c_Code c" "CodeHash (RefundGas g c) = CodeHash c"
  by (simp_all add: RefundGas_def)

lemma UseGas_code [simp]: "c_Code (snd (UseGas g c)) = c_Code c" "CodeHash (snd (UseGas g c)) = CodeHash c"
  by (simp_all add: UseGas_def)

lemma safe_finish_call:
  assumes "frame_ok env sc w" "keeps w w'" "in_memory (Uint64 off) (Uint64 sz) (sc_mem sc)" "short_mem (sc_mem sc)" "Suc (length st) \<le> StackLimit"
  shows "safe_result env sc (finish_call off sz st sc (ret, g, err, w'))"
proof -
  obtain m where m: "mem_Set (Uint64 off) (Uint64 sz) ret (sc_mem sc) = Some m" "length (store m) = length (store (sc_mem sc))"
    using mem_Set_total [OF assms(3,4)] by blast
  have "frame_ok env (sc\<lparr> sc_contract := RefundGas g (sc_contract sc) \<rparr>) w'"
    using frame_ok_contract [OF frame_ok_keeps [OF assms(1,2)]] by simp
  then have "frame_ok env (sc\<lparr> sc_stack := st', sc_mem := m', sc_contract := RefundGas g (sc_contract sc) \<rparr>) (w'\<lparr> w_returnData := ret \<rparr>)"
    and "frame_ok env (sc\<lparr> sc_stack := st', sc_contract := RefundGas g (sc_contract sc) \<rparr>) (w'\<lparr> w_returnData := ret \<rparr>)"
    if "length (store m') = length (store (sc_mem sc))" for st' m'
    using that by (simp_all add: frame_ok_def shared_ok_def)
  then show ?thesis
    using m assms(5) by (auto simp: finish_call_def safe_result_def push_def)
qed

lemma calls_returnD:
  assumes "env_ok env"
  shows "\<exists>ret g err w'. do_OpCall (vm_calls env) k a inp gas val w = Some (ret, g, err, w') \<and> keeps w w'"
    "\<exists>ret g err w'. do_CallCode (vm_calls env) k a inp gas val w = Some (ret, g, err, w') \<and> keeps w w'"
    "\<exists>ret g err w'. do_DelegateCall (vm_calls env) k a inp gas w = Some (ret, g, err, w') \<and> keeps w w'"
    "\<exists>ret g err w'. do_StaticCall (vm_calls env) k a inp gas w = Some (ret, g, err, w') \<and> keeps w w'"
    "\<exists>ret b g err w'. do_Create (vm_calls env) k inp gas val w = Some (ret, b, g, err, w') \<and> keeps w w'"
    "\<exists>ret b g err w'. do_Create2 (vm_calls env) k inp gas val salt w = Some (ret, b, g, err, w') \<and> keeps w w'"
  using assms by (simp_all add: env_ok_def calls_return_def)

lemma safe_value_calls [safe_ops]:
  assumes env: "env_ok env"
  shows "exec_safe env opCall 7 hi (Some memoryCall)" "exec_safe env opCallCode 7 hi (Some memoryCall)"
proof -
  have region: "\<exists>t a v i j k l r args. sc_stack sc = t # a # v # i # j # k # l # r \<and> GetPtr (Uint64 i) (Uint64 j) (sc_mem sc) = Some args
      \<and> in_memory (Uint64 k) (Uint64 l) (sc_mem sc)"
    if a: "frame_ok env sc w" "7 \<le> length (sc_stack sc)" "has_memory (Some memoryCall) sc" for sc w
  proof -
    obtain t a v i j k l r where st: "sc_stack sc = t # a # v # i # j # k # l # r"
      using a(2) by (auto simp: stack_shape)
    then show ?thesis
      using has_memory_both [OF a(3) memoryCall_def] GetPtr_total [OF _ frame_short_mem [OF a(1) env], of "Uint64 i" "Uint64 j"] by fastforce
  qed
  show "exec_safe env opCall 7 hi (Some memoryCall)"
  proof (rule exec_safeI)
    fix sc w
    assume a: "frame_ok env sc w" "7 \<le> length (sc_stack sc)" "length (sc_stack sc) \<le> StackLimit" "has_memory (Some memoryCall) sc"
    from region [OF a(1,2,4)] obtain t b v i j k l r args where st: "sc_stack sc = t # b # v # i # j # k # l # r"
      "GetPtr (Uint64 i) (Uint64 j) (sc_mem sc) = Some args" "in_memory (Uint64 k) (Uint64 l) (sc_mem sc)"
      by blast
    obtain ret g err w' where "do_OpCall (vm_calls env) (sc_contract sc) (ucast b) args (w_callGasTemp w + (if v \<noteq> 0 then 2300 else 0)) v w = Some (ret, g, err, w')"
      "keeps w w'"
      using calls_returnD(1) [OF env] by metis
    then show "safe_result env sc (opCall env sc w)"
      using a st safe_finish_call [OF a(1) _ st(3) frame_short_mem [OF a(1) env], of w' r ret g err] by (auto simp: opCall_def stack_ops Let_def)
  qed
  show "exec_safe env opCallCode 7 hi (Some memoryCall)"
  proof (rule exec_safeI)
    fix sc w
    assume a: "frame_ok env sc w" "7 \<le> length (sc_stack sc)" "length (sc_stack sc) \<le> StackLimit" "has_memory (Some memoryCall) sc"
    from region [OF a(1,2,4)] obtain t b v i j k l r args where st: "sc_stack sc = t # b # v # i # j # k # l # r"
      "GetPtr (Uint64 i) (Uint64 j) (sc_mem sc) = Some args" "in_memory (Uint64 k) (Uint64 l) (sc_mem sc)"
      by blast
    obtain ret g err w' where "do_CallCode (vm_calls env) (sc_contract sc) (ucast b) args (w_callGasTemp w + (if v \<noteq> 0 then 2300 else 0)) v w = Some (ret, g, err, w')"
      "keeps w w'"
      using calls_returnD(2) [OF env] by metis
    then show "safe_result env sc (opCallCode env sc w)"
      using a st safe_finish_call [OF a(1) _ st(3) frame_short_mem [OF a(1) env], of w' r ret g err] by (auto simp: opCallCode_def stack_ops Let_def)
  qed
qed

lemma safe_plain_calls [safe_ops]:
  assumes env: "env_ok env"
  shows "exec_safe env opDelegateCall 6 hi (Some memoryDelegateCall)" "exec_safe env opStaticCall 6 hi (Some memoryStaticCall)"
proof -
  have region: "\<exists>t a i j k l r args. sc_stack sc = t # a # i # j # k # l # r \<and> GetPtr (Uint64 i) (Uint64 j) (sc_mem sc) = Some args
      \<and> in_memory (Uint64 k) (Uint64 l) (sc_mem sc)"
    if a: "frame_ok env sc w" "6 \<le> length (sc_stack sc)" "has_memory (Some f) sc" "f = size_of_both 4 5 2 3" for sc w f
  proof -
    obtain t a i j k l r where st: "sc_stack sc = t # a # i # j # k # l # r"
      using a(2) by (auto simp: stack_shape)
    then show ?thesis
      using has_memory_both [OF a(3,4)] GetPtr_total [OF _ frame_short_mem [OF a(1) env], of "Uint64 i" "Uint64 j"] by fastforce
  qed
  show "exec_safe env opDelegateCall 6 hi (Some memoryDelegateCall)"
  proof (rule exec_safeI)
    fix sc w
    assume a: "frame_ok env sc w" "6 \<le> length (sc_stack sc)" "length (sc_stack sc) \<le> StackLimit" "has_memory (Some memoryDelegateCall) sc"
    from region [OF a(1,2,4) memoryDelegateCall_def] obtain t b i j k l r args where st: "sc_stack sc = t # b # i # j # k # l # r"
      "GetPtr (Uint64 i) (Uint64 j) (sc_mem sc) = Some args" "in_memory (Uint64 k) (Uint64 l) (sc_mem sc)"
      by blast
    obtain ret g err w' where "do_DelegateCall (vm_calls env) (sc_contract sc) (ucast b) args (w_callGasTemp w) w = Some (ret, g, err, w')" "keeps w w'"
      using calls_returnD(3) [OF env] by metis
    then show "safe_result env sc (opDelegateCall env sc w)"
      using a st safe_finish_call [OF a(1) _ st(3) frame_short_mem [OF a(1) env], of w' r ret g err] by (auto simp: opDelegateCall_def stack_ops)
  qed
  show "exec_safe env opStaticCall 6 hi (Some memoryStaticCall)"
  proof (rule exec_safeI)
    fix sc w
    assume a: "frame_ok env sc w" "6 \<le> length (sc_stack sc)" "length (sc_stack sc) \<le> StackLimit" "has_memory (Some memoryStaticCall) sc"
    from region [OF a(1,2,4) memoryStaticCall_def] obtain t b i j k l r args where st: "sc_stack sc = t # b # i # j # k # l # r"
      "GetPtr (Uint64 i) (Uint64 j) (sc_mem sc) = Some args" "in_memory (Uint64 k) (Uint64 l) (sc_mem sc)"
      by blast
    obtain ret g err w' where "do_StaticCall (vm_calls env) (sc_contract sc) (ucast b) args (w_callGasTemp w) w = Some (ret, g, err, w')" "keeps w w'"
      using calls_returnD(4) [OF env] by metis
    then show "safe_result env sc (opStaticCall env sc w)"
      using a st safe_finish_call [OF a(1) _ st(3) frame_short_mem [OF a(1) env], of w' r ret g err] by (auto simp: opStaticCall_def stack_ops)
  qed
qed

lemma safe_finish_create:
  assumes "frame_ok env sc w" "keeps w w'" "Suc (length st) \<le> StackLimit" "c_Code c = c_Code (sc_contract sc)" "CodeHash c = CodeHash (sc_contract sc)"
  shows "safe_result env sc (finish_create v res g err st (sc\<lparr> sc_contract := c \<rparr>) w')"
proof -
  have "frame_ok env (sc\<lparr> sc_contract := RefundGas g c \<rparr>) w'"
    using frame_ok_contract [OF frame_ok_keeps [OF assms(1,2)]] assms(4,5) by simp
  then have "frame_ok env (sc\<lparr> sc_stack := st', sc_contract := RefundGas g c \<rparr>) (w'\<lparr> w_returnData := r \<rparr>)" for st' r
    by (simp add: frame_ok_def shared_ok_def)
  then show ?thesis
    using assms(3,4,5) by (auto simp: finish_create_def safe_result_def push_def Let_def)
qed

lemma safe_create_ops [safe_ops]:
  assumes env: "env_ok env"
  shows "exec_safe env opCreate 3 hi (Some memoryCreate)" "exec_safe env opCreate2 4 hi (Some memoryCreate2)"
proof -
  show "exec_safe env opCreate 3 hi (Some memoryCreate)"
  proof (rule exec_safeI)
    fix sc w
    assume a: "frame_ok env sc w" "3 \<le> length (sc_stack sc)" "length (sc_stack sc) \<le> StackLimit" "has_memory (Some memoryCreate) sc"
    then obtain v i j r where st: "sc_stack sc = v # i # j # r"
      by (auto simp: stack_shape)
    obtain inp where inp: "GetCopy (Uint64 i) (Uint64 j) (sc_mem sc) = Some inp"
      using GetPtr_total [OF _ frame_short_mem [OF a(1) env]] has_memory_at(1) [OF a(4) memoryCreate_def] st by (fastforce simp: GetCopy_eq_GetPtr)
    obtain ret b g err w' where "do_Create (vm_calls env) (sc_contract sc) inp (c_Gas (sc_contract sc)) v w = Some (ret, b, g, err, w')" "keeps w w'"
      using calls_returnD(5) [OF env] by metis
    then show "safe_result env sc (opCreate env sc w)"
      using a st inp safe_finish_create [OF a(1), of w' r "sc_contract sc"] by (auto simp: opCreate_def stack_ops Let_def)
  qed
  show "exec_safe env opCreate2 4 hi (Some memoryCreate2)"
  proof (rule exec_safeI)
    fix sc w
    assume a: "frame_ok env sc w" "4 \<le> length (sc_stack sc)" "length (sc_stack sc) \<le> StackLimit" "has_memory (Some memoryCreate2) sc"
    then obtain v i j salt r where st: "sc_stack sc = v # i # j # salt # r"
      by (auto simp: stack_shape)
    obtain inp where inp: "GetCopy (Uint64 i) (Uint64 j) (sc_mem sc) = Some inp"
      using GetPtr_total [OF _ frame_short_mem [OF a(1) env]] has_memory_at(1) [OF a(4) memoryCreate2_def] st by (fastforce simp: GetCopy_eq_GetPtr)
    let ?gas = "c_Gas (sc_contract sc) - c_Gas (sc_contract sc) div 64"
    obtain ret b g err w' where "do_Create2 (vm_calls env) (snd (UseGas ?gas (sc_contract sc))) inp ?gas v salt w = Some (ret, b, g, err, w')" "keeps w w'"
      using calls_returnD(6) [OF env] by metis
    then show "safe_result env sc (opCreate2 env sc w)"
      using a st inp safe_finish_create [OF a(1), of w' r "snd (UseGas ?gas (sc_contract sc))"] by (auto simp: opCreate2_def stack_ops Let_def)
  qed
qed

section \<open>The tables\<close>

definition safe_entries :: "VmEnv \<Rightarrow> (byte \<times> operation) list \<Rightarrow> bool" where
  "safe_entries env ops = list_all (\<lambda>(b, op). op_safe env op) ops"

lemma safe_entry_groups:
  assumes "env_ok env"
  shows "safe_entries env arithmetic_ops" "safe_entries env comparison_ops" "safe_entries env closure_ops" "safe_entries env block_ops"
    "safe_entries env storage_ops" "safe_entries env push_ops" "safe_entries env dup_ops" "safe_entries env swap_ops"
    "safe_entries env log_ops" "safe_entries env call_ops"
  using assms
  by (simp_all add: safe_entries_def list_all_iff arithmetic_ops_def comparison_ops_def closure_ops_def block_ops_def storage_ops_def
      push_ops_def dup_ops_def swap_ops_def log_ops_def call_ops_def safe_ops)

definition table_safe :: "VmEnv \<Rightarrow> JumpTable \<Rightarrow> bool" where
  "table_safe env jt = (\<forall>b. op_safe env (jt b))"

lemma table_safe_frontier: "env_ok env \<Longrightarrow> table_safe env newFrontierInstructionSet"
proof -
  assume env: "env_ok env"
  then have "safe_entries env frontier_ops"
    using safe_entry_groups [OF env] by (simp add: safe_entries_def frontier_ops_def)
  moreover have "op_safe env undefined_op"
    by (simp add: op_safe_def undefined_op_def maxStack_def StackLimit_def safe_ops)
  ultimately show ?thesis
    by (auto simp: table_safe_def newFrontierInstructionSet_def safe_entries_def list_all_iff split: option.splits dest!: map_of_SomeD)
qed

lemma table_safe_update: "table_safe env jt \<Longrightarrow> op_safe env op \<Longrightarrow> table_safe env (jt(b := op))"
  by (simp add: table_safe_def)

lemma op_safe_costs: "op_safe env op \<Longrightarrow> op_safe env (op\<lparr> constantGas := g \<rparr>) \<and> op_safe env (op\<lparr> dynamicGas := dyn \<rparr>)"
  by (simp add: op_safe_def)

lemma table_safe_costs: "table_safe env jt \<Longrightarrow> table_safe env (reprice b g jt)" "table_safe env jt \<Longrightarrow> table_safe env (remeter b dyn jt)"
  by (simp_all add: table_safe_def reprice_def remeter_def op_safe_costs)

lemmas fork_defs = newHomesteadInstructionSet_def newTangerineWhistleInstructionSet_def newSpuriousDragonInstructionSet_def
  newByzantiumInstructionSet_def newConstantinopleInstructionSet_def newIstanbulInstructionSet_def newBerlinInstructionSet_def
  newLondonInstructionSet_def newMergeInstructionSet_def newShanghaiInstructionSet_def newCancunInstructionSet_def
  enable1344_def enable1884_def enable2200_def enable2929_def enable3529_def enable3198_def enable3855_def enable3860_def
  enable4844_def enable7516_def enable1153_def enable5656_def enable6780_def

lemma amend_simps: "amend [] jt = jt" "amend (f # fs) jt = amend fs (f jt)"
  by (simp_all add: amend_def)

lemma table_safe_cancun: "env_ok env \<Longrightarrow> table_safe env newCancunInstructionSet"
  unfolding fork_defs amend_simps
  by (intro table_safe_update table_safe_costs table_safe_frontier) (simp_all add: safe_ops)

section \<open>Gas functions\<close>

text \<open>A gas function changes the access list only.\<close>

definition meters :: "VmEnv \<Rightarrow> World \<Rightarrow> World \<Rightarrow> bool" where
  "meters env w w' \<longleftrightarrow> access_list_ok (accList (w_db w')) \<and> w_jumpdests w' = w_jumpdests w \<and> w_returnData w' = w_returnData w \<and> w_callGasTemp w' = w_callGasTemp w \<and>
     (\<forall>a. fst (GetCode (vm_state env) a (w_db w')) = fst (GetCode (vm_state env) a (w_db w)))"

definition gas_total :: "VmEnv \<Rightarrow> gasFunc \<Rightarrow> nat \<Rightarrow> bool" where
  "gas_total env dyn lo \<longleftrightarrow> (\<forall>c st mem m w. lo \<le> length st \<longrightarrow> access_list_ok (accList (w_db w)) \<longrightarrow>
     (\<exists>g err mem' w'. dyn env c st mem m w = Some (g, err, mem', w') \<and> store mem' = store mem \<and> meters env w w'))"

lemma meters_refl: "access_list_ok (accList (w_db w)) \<Longrightarrow> meters env w w"
  by (simp add: meters_def)

lemma meters_AddAddress:
  "access_list_ok (accList (w_db w)) \<Longrightarrow> meters env w (w\<lparr> w_db := AddAddressToAccessList (vm_state env) a (w_db w) \<rparr>)"
  by (simp add: meters_def access_list_ok_AddAddress)

lemma store_memoryGasCost: "memoryGasCost mem m = (g, err, mem') \<Longrightarrow> store mem' = store mem"
  by (auto simp: memoryGasCost_def Let_def split: if_splits)

lemma store_memoryGasCost_snd [simp]: "store (snd (snd (memoryGasCost mem m))) = store mem"
  by (metis prod.collapse store_memoryGasCost)

lemma gas_after_memory:
  assumes "access_list_ok (accList (w_db w))"
    and "\<And>gas mem1. \<exists>g err. k gas mem1 = Some (g, err, mem1, w)"
  shows "\<exists>g err mem' w'. after_memory mem m w k = Some (g, err, mem', w') \<and> store mem' = store mem \<and> meters env w w'"
proof -
  obtain g err mem1 where m: "memoryGasCost mem m = (g, err, mem1)"
    by (metis prod_cases3)
  obtain g' err' where "k g mem1 = Some (g', err', mem1, w)"
    using assms(2) by blast
  then show ?thesis
    using m store_memoryGasCost [OF m] meters_refl [OF assms(1)] by (cases err) (auto simp: after_memory_def)
qed

lemma total_gas [safe_ops]:
  "gas_total env (memoryCopierGas 2) 3" "gas_total env (memoryCopierGas 3) 4" "gas_total env gasKeccak256 2" "gas_total env gasCreate2 3"
  "3 \<le> k \<Longrightarrow> gas_total env (init_code_gas n) k"
  unfolding gas_total_def
  by (auto simp: memoryCopierGas_def gasKeccak256_def gasCreate2_def init_code_gas_def Back_def split_beta intro!: gas_after_memory)

lemma total_flat_gas [safe_ops]:
  "gas_total env pureMemoryGascost n" "gas_total env (makeGasSStoreFunc r) n" "gas_total env (makeSelfdestructGasFn b) n"
  "gas_total env (makeCallVariantGasCallEIP2929 f) n" "gas_total env (exp_gas r) 2"
  unfolding gas_total_def
  by (auto simp: pureMemoryGascost_def makeGasSStoreFunc_def makeSelfdestructGasFn_def makeCallVariantGasCallEIP2929_def exp_gas_def Back_def
      split_beta meters_refl Let_def)

lemma total_log_gas [safe_ops]: "gas_total env (makeGasLog k) (Suc (Suc n))"
  unfolding gas_total_def
  by (auto simp: makeGasLog_def Back_def split_beta Let_def meters_refl intro!: gas_after_memory)

lemma total_account_gas [safe_ops]: "gas_total env gasEip2929AccountCheck (Suc 0)"
  unfolding gas_total_def by (auto simp: gasEip2929AccountCheck_def stack_shape peek_def meters_refl meters_AddAddress)

lemma total_gasSLoad [safe_ops]: "gas_total env gasSLoadEIP2929 (Suc 0)"
  unfolding gas_total_def
proof (intro allI impI)
  fix c :: Contract and mem :: Memory and m and st :: Stack and w :: World
  assume a: "Suc 0 \<le> length st" "access_list_ok (accList (w_db w))"
  then obtain x r where st: "st = x # r"
    by (auto simp: Suc_le_length_iff)
  obtain p q where c: "Contains (accList (w_db w)) (Self c) x = Some (p, q)"
    using Contains_total [OF a(2)] by blast
  obtain s where s: "AddSlotToAccessList (vm_state env) (Self c) x (w_db w) = Some s" "access_list_ok (accList s)"
    using AddSlotToAccessList_total [OF a(2)] by blast
  then have "meters env w (w\<lparr> w_db := s \<rparr>)"
    using GetCode_AddSlot [OF s(1)] by (simp add: meters_def)
  then show "\<exists>g err mem' w'. gasSLoadEIP2929 env c st mem m w = Some (g, err, mem', w') \<and> store mem' = store mem \<and> meters env w w'"
    using st c s(1) meters_refl [OF a(2)] by (auto simp: gasSLoadEIP2929_def peek_def)
qed

lemma total_gasExtCodeCopy [safe_ops]: "gas_total env gasExtCodeCopyEIP2929 4"
  unfolding gas_total_def
proof (intro allI impI)
  fix c :: Contract and mem :: Memory and m and st :: Stack and w :: World
  assume a: "4 \<le> length st" "access_list_ok (accList (w_db w))"
  then obtain x r where st: "st = x # r"
    by (auto simp: stack_shape)
  obtain gas err mem1 w1 where g: "gasExtCodeCopy env c st mem m w = Some (gas, err, mem1, w1)" "store mem1 = store mem" "meters env w w1"
    using total_gas(2) [of env] a unfolding gas_total_def gasExtCodeCopy_def by blast
  then have "meters env w (w1\<lparr> w_db := AddAddressToAccessList (vm_state env) (ucast x) (w_db w1) \<rparr>)"
    by (simp add: meters_def access_list_ok_AddAddress)
  then show "\<exists>g err mem' w'. gasExtCodeCopyEIP2929 env c st mem m w = Some (g, err, mem', w') \<and> store mem' = store mem \<and> meters env w w'"
    using st g by (cases err) (auto simp: gasExtCodeCopyEIP2929_def peek_def split_beta Let_def)
qed

definition gas_safe :: "VmEnv \<Rightarrow> operation \<Rightarrow> bool" where
  "gas_safe env op = (case dynamicGas op of None \<Rightarrow> memorySize op = None | Some dyn \<Rightarrow> gas_total env dyn (minStackOf op))"

text \<open>The operations whose first cost functions may panic: they are replaced in later forks.\<close>

definition table_metered :: "VmEnv \<Rightarrow> byte set \<Rightarrow> JumpTable \<Rightarrow> bool" where
  "table_metered env S jt = (\<forall>b. b \<notin> S \<longrightarrow> gas_safe env (jt b))"

lemma table_metered_update: "table_metered env S jt \<Longrightarrow> b \<in> S \<or> gas_safe env op \<Longrightarrow> table_metered env S (jt(b := op))"
  by (auto simp: table_metered_def)

lemma gas_safe_cost [simp]: "gas_safe env (op\<lparr> constantGas := g \<rparr>) = gas_safe env op"
  by (simp add: gas_safe_def split: option.splits)

lemma table_metered_reprice: "table_metered env S jt \<Longrightarrow> table_metered env S (reprice b g jt)"
  by (auto simp: table_metered_def reprice_def)

lemma minStackOf_costs [simp]: "minStackOf (reprice b g jt c) = minStackOf (jt c)" "minStackOf (remeter b dyn jt c) = minStackOf (jt c)"
  by (simp_all add: reprice_def remeter_def)

lemma minStackOf_entries [simp]:
  "minStackOf (simple_op f g p q) = p" "minStackOf (gas_op f g dyn p q) = p" "minStackOf (memory_op f g dyn p q msize) = p"
  by (simp_all add: simple_op_def gas_op_def memory_op_def minStack_def)

lemma table_metered_remeter:
  "table_metered env (insert b S) jt \<Longrightarrow> b \<in> S \<or> gas_total env dyn (minStackOf (jt b)) \<Longrightarrow> table_metered env S (remeter b dyn jt)"
  by (auto simp: table_metered_def remeter_def gas_safe_def)

lemma gas_safe_ops [simp]:
  "gas_safe env (simple_op f g p q)" "gas_safe env (dup_op n)" "gas_safe env (swap_op n)" "gas_safe env undefined_op"
  "gas_safe env (gas_op f g dyn p q) = gas_total env dyn p" "gas_safe env (memory_op f g dyn p q msize) = gas_total env dyn p"
  by (simp_all add: gas_safe_def simple_op_def gas_op_def memory_op_def dup_op_def swap_op_def undefined_op_def minStack_def)

definition early_metered :: "byte set" where
  "early_metered = {0x31, 0x55, 0xf1, 0xf2, 0xf4, 0xfa, 0xff}"

definition metered_entries :: "VmEnv \<Rightarrow> (byte \<times> operation) list \<Rightarrow> bool" where
  "metered_entries env ops = list_all (\<lambda>(b, op). b \<in> early_metered \<or> gas_safe env op) ops"

lemma metered_entry_groups:
  "metered_entries env arithmetic_ops" "metered_entries env comparison_ops" "metered_entries env closure_ops" "metered_entries env block_ops"
  "metered_entries env storage_ops" "metered_entries env push_ops" "metered_entries env dup_ops" "metered_entries env swap_ops"
  "metered_entries env log_ops" "metered_entries env call_ops"
  by (simp_all add: metered_entries_def list_all_iff early_metered_def arithmetic_ops_def comparison_ops_def closure_ops_def block_ops_def
      storage_ops_def push_ops_def dup_ops_def swap_ops_def log_ops_def call_ops_def gasExpFrontier_def gasExtCodeCopy_def safe_ops)

lemma table_metered_frontier: "table_metered env early_metered newFrontierInstructionSet"
proof -
  have "metered_entries env frontier_ops"
    using metered_entry_groups [of env] by (simp add: metered_entries_def frontier_ops_def)
  then show ?thesis
    by (auto simp: table_metered_def newFrontierInstructionSet_def metered_entries_def list_all_iff split: option.splits dest!: map_of_SomeD)
qed


lemma minStackOf_frontier:
  "minStackOf (newFrontierInstructionSet 0x0a) = 2" "minStackOf (newFrontierInstructionSet 0x31) = Suc 0"
  "minStackOf (newFrontierInstructionSet 0x3b) = Suc 0" "minStackOf (newFrontierInstructionSet 0x3c) = 4"
  "minStackOf (newFrontierInstructionSet 0x54) = Suc 0" "minStackOf (newFrontierInstructionSet 0xf0) = 3"
  by (simp_all add: newFrontierInstructionSet_def frontier_ops_def arithmetic_ops_def comparison_ops_def closure_ops_def block_ops_def
      storage_ops_def push_ops_def dup_ops_def swap_ops_def log_ops_def call_ops_def upt_rec)

lemma table_metered_mono: "table_metered env S jt \<Longrightarrow> S \<subseteq> S' \<Longrightarrow> table_metered env S' jt"
  by (auto simp: table_metered_def)

lemma table_metered_cancun: "table_metered env {} newCancunInstructionSet"
  unfolding fork_defs amend_simps
  by (intro table_metered_update table_metered_reprice table_metered_remeter table_metered_mono [OF table_metered_frontier])
    (simp_all add: early_metered_def minStackOf_frontier gasExpEIP158_def gasCreateEip3860_def gasCreate2Eip3860_def safe_ops)


end
