(* ===== verification/StraightLine.thy ===== *)
theory StraightLine
  imports VmSafety
begin

text \<open>
  Progress of the interpreter along the code: every operation but the two jumps moves the position forward, so code
  without jumps ends within as many turns as it has bytes; and no operation sets the gas of the next call.
\<close>

named_theorems steady_ops

section \<open>Operations that move forward\<close>

text \<open>The calls of the environment leave the gas of the next call as it is.\<close>

definition calls_steady :: "Calls \<Rightarrow> bool" where
  "calls_steady c \<longleftrightarrow>
     (\<forall>k a inp gas val w ret g err w'. do_OpCall c k a inp gas val w = Some (ret, g, err, w') \<longrightarrow> w_callGasTemp w' = w_callGasTemp w) \<and>
     (\<forall>k a inp gas val w ret g err w'. do_CallCode c k a inp gas val w = Some (ret, g, err, w') \<longrightarrow> w_callGasTemp w' = w_callGasTemp w) \<and>
     (\<forall>k a inp gas w ret g err w'. do_DelegateCall c k a inp gas w = Some (ret, g, err, w') \<longrightarrow> w_callGasTemp w' = w_callGasTemp w) \<and>
     (\<forall>k a inp gas w ret g err w'. do_StaticCall c k a inp gas w = Some (ret, g, err, w') \<longrightarrow> w_callGasTemp w' = w_callGasTemp w) \<and>
     (\<forall>k inp gas val w ret b g err w'. do_Create c k inp gas val w = Some (ret, b, g, err, w') \<longrightarrow> w_callGasTemp w' = w_callGasTemp w) \<and>
     (\<forall>k inp gas val salt w ret b g err w'. do_Create2 c k inp gas val salt w = Some (ret, b, g, err, w') \<longrightarrow> w_callGasTemp w' = w_callGasTemp w)"

lemma evm_calls_steady: "calls_steady (evm_calls ev uuid)"
  by (auto simp: calls_steady_def evm_calls_def call_in_world_def create_in_world_def split: Option.bind_splits)

definition moves_on :: "VmEnv \<Rightarrow> Scope \<Rightarrow> World \<Rightarrow> bytes \<times> vm_error option \<times> Scope \<times> World \<Rightarrow> bool" where
  "moves_on env sc w r = (case r of (ret, err, sc', w') \<Rightarrow>
     c_Code (sc_contract sc') = c_Code (sc_contract sc) \<and> (\<exists>k\<le>32. sc_pc sc' = sc_pc sc + of_nat k) \<and>
     (calls_steady (vm_calls env) \<longrightarrow> w_callGasTemp w' = w_callGasTemp w))"

definition steady :: "VmEnv \<Rightarrow> executionFunc \<Rightarrow> bool" where
  "steady env f = (\<forall>sc w r. f env sc w = Some r \<longrightarrow> moves_on env sc w r)"

lemma moves_on_same:
  assumes "c_Code (sc_contract sc') = c_Code (sc_contract sc)" "sc_pc sc' = sc_pc sc"
    "calls_steady (vm_calls env) \<Longrightarrow> w_callGasTemp w' = w_callGasTemp w"
  shows "moves_on env sc w (ret, err, sc', w')"
  using assms by (auto simp: moves_on_def intro!: exI [of _ "0 :: nat"])

lemma steady_shapes:
  "f env = unary g1 env \<Longrightarrow> steady env f" "f env = binary g2 env \<Longrightarrow> steady env f" "f env = ternary g3 env \<Longrightarrow> steady env f"
  by (auto simp: steady_def unary_def binary_def ternary_def proceed_def split: Option.bind_splits intro!: moves_on_same)

lemma pushing_moves_on: "pushing v sc w = Some r \<Longrightarrow> moves_on env sc w r"
  by (auto simp: pushing_def proceed_def intro!: moves_on_same)

lemma steady_pushing: "(\<And>sc w. \<exists>v. f env sc w = pushing v sc w) \<Longrightarrow> steady env f"
  unfolding steady_def using pushing_moves_on by metis

lemma steady_arithmetic [steady_ops]:
  "steady env opNot" "steady env opIszero" "steady env opBlobHash" "steady env opAdd" "steady env opSub" "steady env opMul" "steady env opDiv"
  "steady env opMod" "steady env opLt" "steady env opGt" "steady env opSlt" "steady env opSgt" "steady env opEq" "steady env opAnd"
  "steady env opOr" "steady env opXor" "steady env opSHL" "steady env opSHR" "steady env opSAR" "steady env opSdiv" "steady env opSmod"
  "steady env opExp" "steady env opSignExtend" "steady env opByte" "steady env opAddmod" "steady env opMulmod"
  by (rule steady_shapes, rule opNot_def [THEN fun_cong] opIszero_def [THEN fun_cong] opBlobHash_def opAdd_def [THEN fun_cong]
      opSub_def [THEN fun_cong] opMul_def [THEN fun_cong] opDiv_def [THEN fun_cong] opMod_def [THEN fun_cong] opLt_def [THEN fun_cong]
      opGt_def [THEN fun_cong] opSlt_def [THEN fun_cong] opSgt_def [THEN fun_cong] opEq_def [THEN fun_cong] opAnd_def [THEN fun_cong]
      opOr_def [THEN fun_cong] opXor_def [THEN fun_cong] opSHL_def [THEN fun_cong] opSHR_def [THEN fun_cong] opSAR_def [THEN fun_cong]
      opSdiv_def opSmod_def opExp_def opSignExtend_def opByte_def opAddmod_def opMulmod_def)+

lemma steady_push_ops [steady_ops]:
  "steady env opAddress" "steady env opOrigin" "steady env opCaller" "steady env opCallValue" "steady env opCoinbase" "steady env opTimestamp"
  "steady env opNumber" "steady env opGasLimit" "steady env opPc" "steady env opGas" "steady env opPush0" "steady env opCallDataSize"
  "steady env opReturnDataSize" "steady env opCodeSize" "steady env opMsize"
  by (rule steady_pushing, simp add: push_big_def push_nat_def opAddress_def opOrigin_def opCaller_def opCallValue_def opCoinbase_def
      opTimestamp_def opNumber_def opGasLimit_def opPc_def opGas_def opPush0_def opCallDataSize_def opReturnDataSize_def opCodeSize_def
      opMsize_def, blast)+

lemma push_big_moves_on: "push_big b sc w = Some r \<Longrightarrow> moves_on env sc w r"
  by (auto simp: push_big_def split: option.splits intro: pushing_moves_on)

lemma steady_context_ops [steady_ops]:
  "steady env opGasprice" "steady env opBaseFee" "steady env opBlobBaseFee" "steady env opRandom" "steady env opDifficulty" "steady env opChainID"
  by (auto simp: steady_def opGasprice_def opBaseFee_def opBlobBaseFee_def opRandom_def opDifficulty_def opChainID_def split: option.splits
      intro: push_big_moves_on pushing_moves_on)

lemma steady_state_ops [steady_ops]:
  "steady env opBalance" "steady env opSelfBalance" "steady env opExtCodeSize" "steady env opExtCodeHash" "steady env opBlockhash"
  "steady env opPop" "steady env opSload" "steady env opSstore" "steady env opTload" "steady env opTstore" "steady env opJumpdest"
  "steady env opStop" "steady env opUndefined" "steady env opSelfdestruct" "steady env opSelfdestruct6780" "steady env opCallDataLoad"
  by (auto simp: steady_def opBalance_def opSelfBalance_def opExtCodeSize_def opExtCodeHash_def opBlockhash_def opPop_def opSload_def
      opSstore_def opTload_def opTstore_def opJumpdest_def opStop_def opUndefined_def opSelfdestruct_def opSelfdestruct6780_def
      opCallDataLoad_def proceed_def fail_def pushing_def Let_def split: Option.bind_splits prod.splits if_splits intro!: moves_on_same)

lemma steady_memory_ops [steady_ops]:
  "steady env opKeccak256" "steady env opMload" "steady env opMstore" "steady env opMstore8" "steady env opMcopy" "steady env opReturn"
  "steady env opRevert" "steady env (makeLog n)" "steady env (makeDup n)" "steady env (opSwap n)" "steady env opReturnDataCopy"
  by (auto simp: steady_def opKeccak256_def opMload_def opMstore_def opMstore8_def opMcopy_def opReturn_def opRevert_def makeLog_def makeDup_def
      opSwap_def opReturnDataCopy_def proceed_def fail_def Let_def split: Option.bind_splits prod.splits if_splits intro!: moves_on_same)

lemma copy_data_moves_on: "copy_data d st sc w = Some r \<Longrightarrow> moves_on env sc w r"
  by (auto simp: copy_data_def proceed_def Let_def split: Option.bind_splits prod.splits intro!: moves_on_same)

lemma steady_copy_ops [steady_ops]: "steady env opCallDataCopy" "steady env opCodeCopy"
  by (auto simp: steady_def opCallDataCopy_def opCodeCopy_def intro: copy_data_moves_on)

lemma moves_on_world: "moves_on env sc (w\<lparr> w_db := s \<rparr>) r \<Longrightarrow> moves_on env sc w r"
  by (auto simp: moves_on_def)

lemma steady_opExtCodeCopy [steady_ops]: "steady env opExtCodeCopy"
  by (auto simp: steady_def opExtCodeCopy_def split: Option.bind_splits prod.splits intro: moves_on_world [OF copy_data_moves_on])

text \<open>The pushes step over their operand.\<close>

lemma steady_opPush1 [steady_ops]: "steady env opPush1"
  by (auto simp: steady_def opPush1_def pushing_def proceed_def Let_def moves_on_def intro!: exI [of _ "1 :: nat"])

lemma steady_makePush [steady_ops]: "n \<le> 32 \<Longrightarrow> steady env (makePush (of_nat n) k)"
  by (auto simp: steady_def makePush_def pushing_def proceed_def Let_def moves_on_def split: Option.bind_splits if_splits intro!: exI [of _ n])

lemma steady_makePush_numeral [steady_ops]: "numeral n \<le> (32 :: nat) \<Longrightarrow> steady env (makePush (numeral n) k)"
  using steady_makePush [of "numeral n" env k] by simp

lemma finish_call_moves_on:
  "finish_call off sz st sc (ret, g, err, w') = Some r \<Longrightarrow> (calls_steady (vm_calls env) \<Longrightarrow> w_callGasTemp w' = w_callGasTemp w) \<Longrightarrow> moves_on env sc w r"
  by (auto simp: finish_call_def split: Option.bind_splits intro!: moves_on_same)

lemma calls_steadyD:
  "do_OpCall c k a inp gas val w = Some (ret, g, err, w') \<Longrightarrow> calls_steady c \<Longrightarrow> w_callGasTemp w' = w_callGasTemp w"
  "do_CallCode c k a inp gas val w = Some (ret, g, err, w') \<Longrightarrow> calls_steady c \<Longrightarrow> w_callGasTemp w' = w_callGasTemp w"
  "do_DelegateCall c k a inp gas w = Some (ret, g, err, w') \<Longrightarrow> calls_steady c \<Longrightarrow> w_callGasTemp w' = w_callGasTemp w"
  "do_StaticCall c k a inp gas w = Some (ret, g, err, w') \<Longrightarrow> calls_steady c \<Longrightarrow> w_callGasTemp w' = w_callGasTemp w"
  "do_Create c k inp gas val w = Some (ret, b, g, err, w') \<Longrightarrow> calls_steady c \<Longrightarrow> w_callGasTemp w' = w_callGasTemp w"
  "do_Create2 c k inp gas val salt w = Some (ret, b, g, err, w') \<Longrightarrow> calls_steady c \<Longrightarrow> w_callGasTemp w' = w_callGasTemp w"
  unfolding calls_steady_def by metis+

lemma steady_calls [steady_ops]: "steady env opCall" "steady env opCallCode" "steady env opDelegateCall" "steady env opStaticCall"
  by (auto simp: steady_def opCall_def opCallCode_def opDelegateCall_def opStaticCall_def fail_def Let_def
      split: Option.bind_splits prod.splits if_splits intro!: moves_on_same elim!: finish_call_moves_on dest: calls_steadyD)

lemma steady_creates [steady_ops]: "steady env opCreate" "steady env opCreate2"
  by (auto simp: steady_def opCreate_def opCreate2_def fail_def finish_create_def Let_def
      split: Option.bind_splits prod.splits if_splits intro!: moves_on_same dest: calls_steadyD)

section \<open>The table\<close>

definition jumps :: "byte set" where "jumps = {0x56, 0x57}"

definition steady_entries :: "VmEnv \<Rightarrow> (byte \<times> operation) list \<Rightarrow> bool" where
  "steady_entries env ops = list_all (\<lambda>(b, op). b \<in> jumps \<or> steady env (execute op)) ops"

lemma execute_entries [simp]:
  "execute (simple_op f g p q) = f" "execute (gas_op f g dyn p q) = f" "execute (memory_op f g dyn p q msize) = f"
  "execute (dup_op n) = makeDup n" "execute (swap_op n) = opSwap n" "execute undefined_op = opUndefined"
  by (simp_all add: simple_op_def gas_op_def memory_op_def dup_op_def swap_op_def undefined_op_def)

lemma steady_entry_groups:
  "steady_entries env arithmetic_ops" "steady_entries env comparison_ops" "steady_entries env closure_ops" "steady_entries env block_ops"
  "steady_entries env storage_ops" "steady_entries env push_ops" "steady_entries env dup_ops" "steady_entries env swap_ops"
  "steady_entries env log_ops" "steady_entries env call_ops"
  by (simp_all add: steady_entries_def list_all_iff jumps_def arithmetic_ops_def comparison_ops_def closure_ops_def block_ops_def
      storage_ops_def push_ops_def dup_ops_def swap_ops_def log_ops_def call_ops_def steady_ops)

definition table_steady :: "VmEnv \<Rightarrow> JumpTable \<Rightarrow> bool" where
  "table_steady env jt = (\<forall>b. b \<notin> jumps \<longrightarrow> steady env (execute (jt b)))"

lemma table_steady_frontier: "table_steady env newFrontierInstructionSet"
proof -
  have "steady_entries env frontier_ops"
    using steady_entry_groups [of env] by (simp add: steady_entries_def frontier_ops_def)
  then show ?thesis
    by (auto simp: table_steady_def newFrontierInstructionSet_def steady_entries_def list_all_iff steady_ops split: option.splits dest!: map_of_SomeD)
qed

lemma table_steady_update: "table_steady env jt \<Longrightarrow> steady env (execute op) \<Longrightarrow> table_steady env (jt(b := op))"
  by (simp add: table_steady_def)

lemma table_steady_costs: "table_steady env jt \<Longrightarrow> table_steady env (reprice b g jt)" "table_steady env jt \<Longrightarrow> table_steady env (remeter b dyn jt)"
  by (simp_all add: table_steady_def reprice_def remeter_def)

lemma table_steady_cancun: "table_steady env newCancunInstructionSet"
  unfolding fork_defs amend_simps
  by (intro table_steady_update table_steady_costs table_steady_frontier) (simp_all add: steady_ops)

lemma costs_apply:
  "reprice b g jt c = (if c = b then (jt c)\<lparr> constantGas := g \<rparr> else jt c)"
  "remeter b dyn jt c = (if c = b then (jt c)\<lparr> dynamicGas := Some dyn \<rparr> else jt c)"
  by (simp_all add: reprice_def remeter_def)

lemma cancun_stop: "newCancunInstructionSet 0 = simple_op opStop 0 0 0"
  by (simp add: fork_defs amend_simps costs_apply newFrontierInstructionSet_def frontier_ops_def arithmetic_ops_def)

section \<open>Turns\<close>

lemma prepare_scope: "prepare env op sc w = Some (Inr (sc1, w1)) \<Longrightarrow> sc1 = sc\<lparr> sc_mem := sc_mem sc1 \<rparr>"
  by (cases "dynamicGas op") (auto simp: prepare_def split: Option.bind_splits sum.splits prod.splits)

lemma step_moves_on:
  assumes "step env sc w = Some (Running sc' w')" "GetOp (sc_contract sc) (sc_pc sc) \<notin> jumps"
  shows "c_Code (sc_contract sc') = c_Code (sc_contract sc)" "\<exists>k\<le>32. sc_pc sc' = sc_pc sc + of_nat (Suc k)"
proof -
  let ?op = "newCancunInstructionSet (GetOp (sc_contract sc) (sc_pc sc))"
  from assms(1) obtain sc1 w1 r where p: "prepare env ?op sc w = Some (Inr (sc1, w1))" and e: "execute ?op env sc1 w1 = Some r"
    and f: "finish_step r = Running sc' w'"
    by (auto simp: step_def Let_def split: if_splits Option.bind_splits sum.splits prod.splits)
  have "sc_contract sc1 = sc_contract sc" "sc_pc sc1 = sc_pc sc"
    using prepare_scope [OF p] by (metis Scope.select_convs Scope.surjective Scope.update_convs)+
  moreover have "moves_on env sc1 w1 r"
    using table_steady_cancun [of env] assms(2) e unfolding table_steady_def steady_def by blast
  moreover obtain res sc2 where "r = (res, None, sc2, w')" "sc' = sc2\<lparr> sc_pc := sc_pc sc2 + 1 \<rparr>"
    using f by (auto simp: finish_step_def split: prod.splits option.splits)
  ultimately show "c_Code (sc_contract sc') = c_Code (sc_contract sc)" "\<exists>k\<le>32. sc_pc sc' = sc_pc sc + of_nat (Suc k)"
    by (auto simp: moves_on_def add.assoc add.commute intro!: exI)
qed

lemma step_at_end: "length (c_Code (sc_contract sc)) \<le> unat (sc_pc sc) \<Longrightarrow> step env sc w \<noteq> Some (Running sc' w')"
  by (auto simp: step_def GetOp_def cancun_stop simple_op_def prepare_def opStop_def fail_def finish_step_def Let_def split: if_splits)

text \<open>The position grows with every turn.\<close>

lemma straight_line_bound:
  assumes "set (c_Code (sc_contract sc)) \<inter> jumps = {}" "length (c_Code (sc_contract sc)) < 2 ^ 63"
    "length (c_Code (sc_contract sc)) \<le> n + unat (sc_pc sc)"
  shows "turns (Suc n) env sc w \<noteq> Some (Running sc' w')"
  using assms
proof (induction n arbitrary: sc w)
  case 0
  then show ?case
    using step_at_end [of sc env w] by (auto split: Option.bind_splits outcome.splits)
next
  case (Suc n)
  let ?len = "length (c_Code (sc_contract sc))"
  show ?case
  proof (cases "unat (sc_pc sc) < ?len")
    case True
    then have op: "GetOp (sc_contract sc) (sc_pc sc) \<notin> jumps"
      using Suc.prems(1) nth_mem [OF True] True by (simp add: GetOp_def disjoint_iff)
    have "turns (Suc n) env sc1 w1 \<noteq> Some (Running sc' w')" if st: "step env sc w = Some (Running sc1 w1)" for sc1 w1
    proof -
      obtain k where k: "k \<le> 32" "sc_pc sc1 = sc_pc sc + of_nat (Suc k)"
        using step_moves_on(2) [OF st op] by blast
      moreover have "unat (of_nat (Suc k) :: uint64) = Suc k"
        using k(1) by (simp add: unat_of_nat take_bit_nat_eq_self del: of_nat_Suc)
      ultimately have "unat (sc_pc sc1) = unat (sc_pc sc) + Suc k"
        using True Suc.prems(2) unat_add_no_wrap [of "sc_pc sc" "of_nat (Suc k)"] by simp
      then show ?thesis
        using Suc.IH [of sc1 w1] Suc.prems step_moves_on(1) [OF st op] by simp
    qed
    then show ?thesis
      by (auto split: Option.bind_splits outcome.splits)
  next
    case False
    then show ?thesis
      using step_at_end [of sc env w] by (auto split: Option.bind_splits outcome.splits)
  qed
qed

text \<open>A run that does not go on has returned or panicked in a turn.\<close>

lemma turns_panic: "turns n env sc w = None \<Longrightarrow> \<exists>k<n. \<exists>sc1 w1. turns k env sc w = Some (Running sc1 w1) \<and> step env sc1 w1 = None"
proof (induction n arbitrary: sc w)
  case (Suc n)
  show ?case
  proof (cases "step env sc w")
    case None
    then show ?thesis
      by (intro exI [of _ 0]) simp
  next
    case (Some r)
    then obtain sc2 w2 where r: "r = Running sc2 w2" "turns n env sc2 w2 = None"
      using Suc.prems by (auto split: outcome.splits)
    then obtain k sc1 w1 where "k < n" "turns k env sc2 w2 = Some (Running sc1 w1)" "step env sc1 w1 = None"
      using Suc.IH by blast
    then show ?thesis
      using Some r(1) by (intro exI [of _ "Suc k"]) simp
  qed
qed simp

end
