(* ===== verification/Contexts.thy ===== *)
theory Contexts
  imports Interpreter
begin

text \<open>
  The contexts with which the program starts its virtual machine: \<open>NewEVMBlockContext\<close> and
  \<open>NewEVMTxContext\<close> of \<open>chain/blockchain.go\<close>, \<open>NewEVM\<close> and \<open>Reset\<close> of \<open>vm/evm.go\<close>. A point in time counts
  nanoseconds since the zero time.
\<close>

section \<open>Contexts\<close>

definition UnixMilli :: "go_time \<Rightarrow> int" where "UnixMilli t = t div 1000000 - 62135596800000"

text \<open>The fee, the blob fee, the random value and the difficulty stay nil; the beneficiary is the zero address.\<close>

definition NewEVMBlockContext :: "(common_Hash \<Rightarrow> BlockHeader option) \<Rightarrow> BlockHeader \<Rightarrow> BlockContext" where
  "NewEVMBlockContext hdr header = \<lparr> bx_GetHash = GetHashFn header hdr, bx_Coinbase = 0, bx_GasLimit = GasLimit header,
     bx_BlockNumber = uint (Number header), bx_Time = of_int (UnixMilli (BH_Time header)), bx_Difficulty = None,
     bx_BaseFee = None, bx_BlobBaseFee = None, bx_Random = None \<rparr>"

text \<open>\<open>vm.TxContext{}\<close>; no message of the program carries blob hashes.\<close>

definition emptyTxContext :: TxContext where
  "emptyTxContext = \<lparr> tx_Origin = 0, tx_GasPrice = None, tx_BlobHashes = [] \<rparr>"

definition NewEVMTxContext :: "EvmMessage \<Rightarrow> TxContext" where
  "NewEVMTxContext msg = \<lparr> tx_Origin = msg_From msg, tx_GasPrice = Some (msg_GasPrice msg), tx_BlobHashes = [] \<rparr>"

definition NewEVM :: "BlockContext \<Rightarrow> TxContext \<Rightarrow> int option option \<Rightarrow> EvmEnv \<Rightarrow> nat \<Rightarrow> U256 \<Rightarrow> Calls \<Rightarrow> VmEnv" where
  "NewEVM blockCtx txCtx chainConfig ev maxAlloc u256 calls = \<lparr> vm_ev = ev, vm_block = blockCtx, vm_tx = txCtx,
     vm_chainConfig = chainConfig, vm_abort = False, vm_max_alloc = maxAlloc, vm_u256 = u256, vm_calls = calls \<rparr>"

definition Reset :: "TxContext \<Rightarrow> VmEnv \<Rightarrow> VmEnv" where
  "Reset txCtx env = env\<lparr> vm_tx := txCtx \<rparr>"

text \<open>The machine of a transaction of a block (\<open>ExeTx\<close> and \<open>ApplyTransactionWithEVM\<close>), whose beneficiary is that of the
  header, and the machine of a request from another shard (the handlers of \<open>pbft.go\<close>).\<close>

definition transaction_vm :: "(common_Hash \<Rightarrow> BlockHeader option) \<Rightarrow> BlockHeader \<Rightarrow> EvmMessage \<Rightarrow> EvmEnv \<Rightarrow> nat \<Rightarrow> U256 \<Rightarrow> Calls \<Rightarrow> VmEnv" where
  "transaction_vm hdr header msg ev maxAlloc u256 calls =
     Reset (NewEVMTxContext msg)
       (NewEVM ((NewEVMBlockContext hdr header)\<lparr> bx_Coinbase := Coinbase header \<rparr>) emptyTxContext None ev maxAlloc u256 calls)"

definition request_vm :: "(common_Hash \<Rightarrow> BlockHeader option) \<Rightarrow> BlockHeader \<Rightarrow> EvmEnv \<Rightarrow> nat \<Rightarrow> U256 \<Rightarrow> Calls \<Rightarrow> VmEnv" where
  "request_vm hdr header ev maxAlloc u256 calls = NewEVM (NewEVMBlockContext hdr header) emptyTxContext None ev maxAlloc u256 calls"

end
