(* ===== verification/VmRuns.thy ===== *)
theory VmRuns
  imports StraightLine Contexts
begin

text \<open>
  Turns and runs of the interpreter: a turn from a well-formed frame gives a well-formed frame and panics only
  when the memory it asks for is larger than the runtime can allocate; the bounds of the stack and of the
  memory hold in every frame a run reaches; what the loop does not bound is shown by programs that never end,
  and programs without jumps end.
\<close>

section \<open>One turn is safe\<close>

lemma toWordSize_covers: "SafeMul (toWordSize s) 32 = (m, False) \<Longrightarrow> unat s \<le> unat m"
proof -
  assume a: "SafeMul (toWordSize s) 32 = (m, False)"
  show ?thesis
  proof (cases "- 1 - 31 < s")
    case True
    then have "toWordSize s = 2 ^ 59"
      by (simp add: toWordSize_def)
    then show ?thesis
      using a by (simp add: SafeMul_def)
  next
    case False
    then have le: "unat s \<le> 2 ^ 64 - 32"
      by (simp add: word_less_nat_alt not_less)
    then have s31: "unat (s + 31) = unat s + 31"
      by (intro unat_add_no_wrap [of s 31, simplified]) simp
    have w: "unat (toWordSize s) = (unat s + 31) div 32"
      using False s31 by (simp add: toWordSize_def unat_div)
    have "m = toWordSize s * 32" "unat (toWordSize s) * 32 < 2 ^ 64"
      using a by (auto simp: SafeMul_def)
    then have "unat m = unat (toWordSize s) * 32"
      by (simp add: unat_word_ariths)
    then show ?thesis
      using w by simp
  qed
qed

text \<open>What a turn asks the runtime to allocate.\<close>

definition too_large :: "VmEnv \<Rightarrow> operation \<Rightarrow> Stack \<Rightarrow> bool" where
  "too_large env op st = (case requested_memory op st of Some (Inr m) \<Rightarrow> vm_max_alloc env < unat m | _ \<Rightarrow> False)"

lemma requested_memory_total:
  "size_total (memorySize op) (minStackOf op) \<Longrightarrow> minStackOf op \<le> length st \<Longrightarrow> \<exists>r. requested_memory op st = Some r"
  by (fastforce simp: size_total_def requested_memory_def Let_def split: option.splits prod.splits)

lemma requested_memory_words: "requested_memory op st = Some (Inr m) \<Longrightarrow> 32 dvd unat m"
proof -
  have "32 dvd unat x" if "SafeMul y 32 = (x, False)" for x y :: uint64
    using that by (auto simp: SafeMul_def unat_word_ariths)
  then show "requested_memory op st = Some (Inr m) \<Longrightarrow> 32 dvd unat m"
    by (auto simp: requested_memory_def split: option.splits prod.splits Option.bind_splits if_splits)
qed

lemma requested_memory_covers:
  "requested_memory op (sc_stack sc) = Some (Inr m) \<Longrightarrow> unat m \<le> length (store (sc_mem sc)) \<Longrightarrow> has_memory (memorySize op) sc"
  by (auto simp: requested_memory_def has_memory_def split: option.splits prod.splits Option.bind_splits if_splits dest!: toWordSize_covers)

lemma Resize_total:
  assumes "length (store mem) \<le> n"
  shows "Resize n m mem = None \<longleftrightarrow> n < unat m"
    "Resize n m mem = Some mem' \<Longrightarrow> unat m \<le> length (store mem') \<and> length (store mem') \<le> n"
    "Resize n m mem = Some mem' \<Longrightarrow> length (store mem') = max (length (store mem)) (unat m)"
  using assms by (auto simp: Resize_def split: if_splits)

lemma prepare_safe:
  assumes "frame_ok env sc w" "short_slices env sc w" "minStackOf op \<le> length (sc_stack sc)" "op_safe env op" "gas_safe env op"
  shows "case prepare env op sc w of
      None \<Rightarrow> too_large env op (sc_stack sc)
    | Some (Inl e) \<Rightarrow> \<not> too_large env op (sc_stack sc)
    | Some (Inr (sc1, w1)) \<Rightarrow> \<not> too_large env op (sc_stack sc) \<and> frame_ok env sc1 w1 \<and> short_slices env sc1 w1 \<and>
        has_memory (memorySize op) sc1 \<and> sc1 = sc\<lparr> sc_mem := sc_mem sc1 \<rparr> \<and> w_callGasTemp w1 = w_callGasTemp w"
proof (cases "dynamicGas op")
  case None
  then have "memorySize op = None"
    using assms(5) by (simp add: gas_safe_def)
  then show ?thesis
    using None assms(1,2) by (simp add: prepare_def has_memory_def too_large_def requested_memory_def)
next
  case (Some dyn)
  obtain r where r: "requested_memory op (sc_stack sc) = Some r"
    using requested_memory_total assms(3,4) by (auto simp: op_safe_def)
  show ?thesis
  proof (cases r)
    case (Inl e)
    then show ?thesis
      using Some r by (simp add: prepare_def too_large_def)
  next
    case (Inr m)
    have "access_list_ok (accList (w_db w))" "gas_total env dyn (minStackOf op)"
      using assms(1,5) Some by (simp_all add: frame_ok_def gas_safe_def)
    then obtain g err mem w1 where g: "dyn env (sc_contract sc) (sc_stack sc) (sc_mem sc) m w = Some (g, err, mem, w1)"
      "store mem = store (sc_mem sc)" "meters env w w1"
      using assms(3) unfolding gas_total_def by blast
    define mem1 where "mem1 = (if 0 < m then Resize (vm_max_alloc env) m mem else Some mem)"
    have len: "length (store mem) \<le> vm_max_alloc env"
      using g(2) assms(1) by (simp add: frame_ok_def)
    have dvd: "32 dvd length (store mem)"
      using g(2) assms(1) by (simp add: frame_ok_def)
    have p: "prepare env op sc w = map_option (\<lambda>m. Inr (sc\<lparr> sc_mem := m \<rparr>, w1)) mem1"
      using Some r Inr g(1) by (simp add: prepare_def mem1_def map_option_case split: option.splits)
    have m1: "mem1 = None \<longleftrightarrow> vm_max_alloc env < unat m"
      and m2: "\<And>x. mem1 = Some x \<Longrightarrow> unat m \<le> length (store x) \<and> length (store x) \<le> vm_max_alloc env \<and> 32 dvd length (store x)"
      using Resize_total [OF len, of m] len dvd requested_memory_words [OF r [unfolded Inr]] by (auto simp: mem1_def word_gt_0 max_def split: if_splits)
    have "frame_ok env (sc\<lparr> sc_mem := x \<rparr>) w1 \<and> short_slices env (sc\<lparr> sc_mem := x \<rparr>) w1 \<and> has_memory (memorySize op) (sc\<lparr> sc_mem := x \<rparr>)" if "mem1 = Some x" for x
      using m2 [OF that] g(3) assms(1,2) r Inr requested_memory_covers [of op "sc\<lparr> sc_mem := x \<rparr>" m]
      by (simp add: frame_ok_def shared_ok_def short_slices_def meters_def)
    then show ?thesis
      using p m1 r Inr g(3) by (cases mem1) (simp_all add: too_large_def meters_def)
  qed
qed

definition safe_outcome :: "VmEnv \<Rightarrow> Scope \<Rightarrow> outcome \<Rightarrow> bool" where
  "safe_outcome env sc r = (case r of
       Running sc' w' \<Rightarrow> frame_ok env sc' w' \<and> length (sc_stack sc') \<le> StackLimit \<and> c_Code (sc_contract sc') = c_Code (sc_contract sc)
     | Halted res err sc' w' \<Rightarrow> frame_ok env sc' w' \<and> length (sc_stack sc') \<le> StackLimit \<and> c_Code (sc_contract sc') = c_Code (sc_contract sc))"

text \<open>The operation that the next turn executes.\<close>

abbreviation current_op :: "Scope \<Rightarrow> operation" where
  "current_op sc \<equiv> newCancunInstructionSet (GetOp (sc_contract sc) (sc_pc sc))"

lemma cancun_entries:
  "newCancunInstructionSet 0x60 = simple_op opPush1 3 0 1" "newCancunInstructionSet 0x51 = memory_op opMload 3 pureMemoryGascost 1 1 memoryMLoad"
  "newCancunInstructionSet 0x5b = simple_op opJumpdest 1 0 0" "newCancunInstructionSet 0x56 = simple_op opJump 8 1 0"
  "newCancunInstructionSet 0x57 = simple_op opJumpi 10 2 0"
  "newCancunInstructionSet 0x44 = simple_op opRandom 2 0 1" "newCancunInstructionSet 0x46 = simple_op opChainID 2 0 1"
  "newCancunInstructionSet 0x48 = simple_op opBaseFee 2 0 1" "newCancunInstructionSet 0x4a = simple_op opBlobBaseFee 2 0 1"
  "newCancunInstructionSet 0x3a = simple_op opGasprice 2 0 1"
  by (simp_all add: fork_defs amend_simps costs_apply newFrontierInstructionSet_def frontier_ops_def arithmetic_ops_def
      comparison_ops_def closure_ops_def block_ops_def storage_ops_def push_ops_def)

lemma step_simple:
  assumes "current_op sc = simple_op f g p q" "p \<le> length (sc_stack sc)" "length (sc_stack sc) \<le> 1024 + p - q"
  shows "step env sc w = map_option finish_step (f env sc w)"
  using assms by (simp add: step_def prepare_def simple_op_def minStack_def maxStack_def StackLimit_def)

lemma step_memory:
  assumes "current_op sc = memory_op f g dyn p q msize" "p \<le> length (sc_stack sc)" "length (sc_stack sc) \<le> 1024 + p - q"
    "requested_memory (current_op sc) (sc_stack sc) = Some (Inr m)"
    "dyn env (sc_contract sc) (sc_stack sc) (sc_mem sc) m w = Some (cost, err, mem, w1)"
    "(if 0 < m then Resize (vm_max_alloc env) m mem else Some mem) = Some mem1"
  shows "step env sc w = map_option finish_step (f env (sc\<lparr> sc_mem := mem1 \<rparr>) w1)"
  using assms by (simp add: step_def prepare_def simple_op_def gas_op_def memory_op_def minStack_def maxStack_def StackLimit_def)

lemma finish_step_safe: "safe_result env sc (Some r) \<Longrightarrow> safe_outcome env sc (finish_step r)"
  by (auto simp: safe_result_def safe_outcome_def finish_step_def split: option.splits prod.splits)

lemma execute_safe:
  assumes "op_safe env (current_op sc)" "frame_ok env sc w" "short_slices env sc w" "length (sc_stack sc) \<le> StackLimit"
    "minStackOf (current_op sc) \<le> length (sc_stack sc)" "length (sc_stack sc) \<le> maxStackOf (current_op sc)" "has_memory (memorySize (current_op sc)) sc"
  shows "safe_result env sc (execute (current_op sc) env sc w)"
proof (cases "unat (sc_pc sc) < length (c_Code (sc_contract sc))")
  case True
  then show ?thesis
    using assms by (simp add: op_safe_def exec_safe_def)
next
  case False
  then have "current_op sc = simple_op opStop 0 0 0"
    by (simp add: GetOp_def cancun_stop)
  then show ?thesis
    using assms(2,4) by (simp add: simple_op_def opStop_def)
qed

text \<open>The turn of an operation that has its operands asks for more memory than there is.\<close>

definition memory_panic :: "VmEnv \<Rightarrow> Scope \<Rightarrow> bool" where
  "memory_panic env sc \<longleftrightarrow> (let op = newCancunInstructionSet (GetOp (sc_contract sc) (sc_pc sc)); n = length (sc_stack sc) in
     minStackOf op \<le> n \<and> n \<le> maxStackOf op \<and> too_large env op (sc_stack sc))"

lemma step_safe:
  assumes "env_ok env" "frame_ok env sc w" "short_slices env sc w" "length (sc_stack sc) \<le> StackLimit"
  shows "case step env sc w of None \<Rightarrow> memory_panic env sc | Some r \<Rightarrow> \<not> memory_panic env sc \<and> safe_outcome env sc r"
proof -
  let ?op = "current_op sc"
  have op: "op_safe env ?op" "gas_safe env ?op"
    using table_safe_cancun [OF assms(1)] table_metered_cancun [of env] by (simp_all add: table_safe_def table_metered_def)
  have h: "safe_outcome env sc (Halted [] e sc w)" for e
    using assms(2,4) by (simp add: safe_outcome_def)
  show ?thesis
  proof (cases "minStackOf ?op \<le> length (sc_stack sc) \<and> length (sc_stack sc) \<le> maxStackOf ?op")
    case True
    then have mp: "memory_panic env sc = too_large env ?op (sc_stack sc)"
      by (simp add: memory_panic_def)
    note p = prepare_safe [OF assms(2,3) True [THEN conjunct1] op]
    consider "prepare env ?op sc w = None" | e where "prepare env ?op sc w = Some (Inl e)"
      | sc1 w1 where "prepare env ?op sc w = Some (Inr (sc1, w1))"
      by (metis not_None_eq obj_sumE prod.exhaust)
    then show ?thesis
    proof cases
      case 3
      then have q: "\<not> too_large env ?op (sc_stack sc)" "frame_ok env sc1 w1" "short_slices env sc1 w1" "has_memory (memorySize ?op) sc1"
        "sc1 = sc\<lparr> sc_mem := sc_mem sc1 \<rparr>"
        using p by simp_all
      from q(5) have eq: "sc_stack sc1 = sc_stack sc" "sc_contract sc1 = sc_contract sc" "sc_pc sc1 = sc_pc sc"
        by (metis Scope.select_convs Scope.surjective Scope.update_convs)+
      then have "safe_result env sc1 (execute ?op env sc1 w1)"
        using execute_safe [of env sc1 w1] op(1) q True assms(4) by simp
      then have "safe_result env sc (execute ?op env sc1 w1)"
        unfolding safe_result_def eq(2) .
      then show ?thesis
        using 3 q(1) True mp by (cases "execute ?op env sc1 w1") (simp_all add: step_def safe_result_def [of _ _ None] finish_step_safe)
    qed (use p True h mp in \<open>simp_all add: step_def\<close>)
  next
    case False
    then show ?thesis
      using h by (auto simp: step_def memory_panic_def Let_def)
  qed
qed

section \<open>Runs\<close>

text \<open>The frames a run goes through. The slices of the language are shorter than \<open>2 ^ 63\<close>, so frames with longer
  ones are not reached.\<close>

inductive reaches :: "VmEnv \<Rightarrow> Scope \<Rightarrow> World \<Rightarrow> Scope \<Rightarrow> World \<Rightarrow> bool" for env sc w where
  reaches_start: "short_slices env sc w \<Longrightarrow> reaches env sc w sc w"
| reaches_turn: "reaches env sc w sc1 w1 \<Longrightarrow> step env sc1 w1 = Some (Running sc2 w2) \<Longrightarrow> short_slices env sc2 w2 \<Longrightarrow> reaches env sc w sc2 w2"

lemma reaches_ok:
  assumes "reaches env sc w sc' w'" "env_ok env" "frame_ok env sc w" "length (sc_stack sc) \<le> StackLimit"
  shows "frame_ok env sc' w' \<and> short_slices env sc' w' \<and> length (sc_stack sc') \<le> StackLimit \<and> c_Code (sc_contract sc') = c_Code (sc_contract sc)"
  using assms(1)
proof induction
  case (reaches_turn sc1 w1 sc2 w2)
  then show ?case
    using step_safe [OF assms(2), of sc1 w1] by (simp add: safe_outcome_def)
qed (simp add: assms(3,4))

text \<open>The frame with which \<open>Run\<close> starts.\<close>

lemma new_scope_ok:
  "access_list_ok (accList (w_db w)) \<Longrightarrow> shared_ok (CodeHash c) (c_Code c) w \<Longrightarrow> frame_ok env (new_scope c inp) w"
  by (simp add: frame_ok_def new_scope_def NewMemory_def)

text \<open>A machine with complete contexts whose calls return at once.\<close>

definition idle_calls :: Calls where
  "idle_calls = \<lparr> do_OpCall = (\<lambda>k a inp gas val w. Some ([], gas, None, w)), do_CallCode = (\<lambda>k a inp gas val w. Some ([], gas, None, w)),
     do_DelegateCall = (\<lambda>k a inp gas w. Some ([], gas, None, w)), do_StaticCall = (\<lambda>k a inp gas w. Some ([], gas, None, w)),
     do_Create = (\<lambda>k inp gas val w. Some ([], 7, gas, None, w)), do_Create2 = (\<lambda>k inp gas val salt w. Some ([], 7, gas, None, w)) \<rparr>"

definition example_u256 :: U256 where
  "example_u256 = \<lparr> u_SDiv = (\<lambda>x y. x), u_SMod = (\<lambda>x y. x), u_Exp = (\<lambda>x y. x ^ unat y), u_ExtendSign = (\<lambda>x y. y), u_Byte = (\<lambda>x y. 0),
     u_AddMod = (\<lambda>x y z. if z = 0 then 0 else (x + y) mod z), u_MulMod = (\<lambda>x y z. if z = 0 then 0 else (x * y) mod z),
     u_BitLen = (\<lambda>x. 256) \<rparr>"

definition example_vm :: VmEnv where
  "example_vm = \<lparr> vm_ev = example_ev,
     vm_block = \<lparr> bx_GetHash = (\<lambda>n. Some 0), bx_Coinbase = 0, bx_GasLimit = 0, bx_BlockNumber = 1, bx_Time = 0, bx_Difficulty = Some 0,
       bx_BaseFee = Some 0, bx_BlobBaseFee = Some 0, bx_Random = Some 0 \<rparr>,
     vm_tx = \<lparr> tx_Origin = 0, tx_GasPrice = Some 0, tx_BlobHashes = [] \<rparr>,
     vm_chainConfig = Some (Some 1), vm_abort = False, vm_max_alloc = 2 ^ 40, vm_u256 = example_u256, vm_calls = idle_calls \<rparr>"

definition example_world :: World where
  "example_world = \<lparr> w_db = New2, w_maps = empty_maps, w_out = [], w_uuids = 0, w_returnData = [], w_readOnly = False, w_depth = 0,
     w_callGasTemp = 0, w_jumpdests = Map.empty \<rparr>"

definition example_contract :: "bytes \<Rightarrow> Contract" where
  "example_contract cd = (NewContract 1 2 0 100)\<lparr> c_Code := cd \<rparr>"

lemma example_vm_ok: "env_ok example_vm"
  by (simp add: env_ok_def example_vm_def context_complete_def calls_return_def idle_calls_def keeps_def example_ev_def)

lemma GetCode_New2: "fst (GetCode example_env a New2) = []"
  by (auto simp: GetCode_def getStateObject_def Code_obj_def example_env_def New2_def Let_def newObject_def split: prod.splits)

lemma example_short: "length cd < 2 ^ 63 \<Longrightarrow> short_slices example_vm (new_scope (example_contract cd) []) example_world"
  by (simp add: short_slices_def new_scope_def example_contract_def example_world_def example_vm_def example_ev_def GetCode_New2)

lemma example_frame_ok: "frame_ok example_vm (new_scope (example_contract cd) []) example_world"
  by (rule new_scope_ok) (use New2_ok(1) in \<open>simp_all add: example_world_def shared_ok_def objects_ok_def\<close>)


section \<open>The type safety of the machine\<close>




abbreviation example_scope :: "bytes \<Rightarrow> Scope" where
  "example_scope cd \<equiv> new_scope (example_contract cd) []"

lemmas example_scope_simps = new_scope_def example_contract_def NewContract_def GetOp_def

lemma example_turn1:
  "step example_vm (example_scope [0x60, 0x20, 0x51, 0x00]) example_world =
     Some (Running ((example_scope [0x60, 0x20, 0x51, 0x00])\<lparr> sc_pc := 2, sc_stack := [0x20] \<rparr>) example_world)"
  by (subst step_simple [where f = opPush1 and g = 3 and p = 0 and q = 1])
    (simp_all add: example_scope_simps cancun_entries opPush1_def pushing_def push_def proceed_def finish_step_def Let_def)

lemma be_nat_zeros: "be_nat (replicate n 0) = 0"
  by (induction n) (simp_all add: be_nat_def)

lemma example_turn2:
  "step example_vm ((example_scope [0x60, 0x20, 0x51, 0x00])\<lparr> sc_pc := 2, sc_stack := [0x20] \<rparr>) example_world =
     Some (Running ((example_scope [0x60, 0x20, 0x51, 0x00])
       \<lparr> sc_pc := 3, sc_stack := [0], sc_mem := \<lparr> store = replicate 64 0, lastGasCost = 6 \<rparr> \<rparr>) example_world)"
  by (subst step_memory [where f = opMload and g = 3 and p = 1 and q = 1 and dyn = pureMemoryGascost and msize = memoryMLoad and m = 64
        and mem = "\<lparr> store = [], lastGasCost = 6 \<rparr>" and ?mem1.0 = "\<lparr> store = replicate 64 0, lastGasCost = 6 \<rparr>" and ?w1.0 = example_world])
    (simp_all add: example_scope_simps cancun_entries memory_op_def requested_memory_def memoryMLoad_def Back_def calcMemSize64WithUint_def
      IsUint64_def Uint64_def toWordSize_def SafeMul_def pureMemoryGascost_def memoryGasCost_def NewMemory_def mem_Len_def Resize_def example_vm_def
      opMload_def peek_def set_top_def GetPtr_def slice_def SetBytes_def be_nat_zeros proceed_def finish_step_def Let_def)

lemma example_short_at:
  "length cd < 2 ^ 63 \<Longrightarrow> short_slices example_vm ((example_scope cd)\<lparr> sc_pc := pc, sc_stack := st \<rparr>) example_world"
  "length cd < 2 ^ 63 \<Longrightarrow> short_slices example_vm ((example_scope cd)\<lparr> sc_pc := pc, sc_stack := st, sc_mem := m \<rparr>) example_world"
  using example_short [of cd] by (simp_all add: short_slices_def new_scope_def)


section \<open>Contexts that are not complete\<close>

lemma Run_panics:
  assumes "c_Code c = op # rest" "newCancunInstructionSet op = simple_op f g 0 1" "\<And>sc w. f env sc w = None"
  shows "Run env c inp ro w = None"
proof -
  have "step env (new_scope c inp) w' = None" for w'
    using assms by (subst step_simple [where f = f and g = g and p = 0 and q = 1]) (simp_all add: new_scope_def GetOp_def)
  then show ?thesis
    using assms(1) by (simp add: Run_def run_loop.simps Let_def)
qed

lemmas context_defs = transaction_vm_def request_vm_def NewEVM_def Reset_def NewEVMBlockContext_def emptyTxContext_def opRandom_def
  opChainID_def opBaseFee_def opBlobBaseFee_def opGasprice_def push_big_def

text \<open>C21: the contexts of the program are not complete. In a machine made for a transaction of a block, a contract whose code
  starts with PREVRANDAO, CHAINID, BASEFEE or BLOBBASEFEE panics, whatever its input, gas and state; in a machine made for a
  request of another shard GASPRICE panics too. The handlers of the messages do not recover, so the node stops.\<close>
theorem incomplete_contexts_panic:
  assumes "c_Code c = op # rest"
  shows "(op \<in> {0x44, 0x46, 0x48, 0x4a} \<longrightarrow> Run (transaction_vm hdr header msg ev m u calls) c inp ro w = None) \<and>
    (op \<in> {0x3a, 0x44, 0x46, 0x48, 0x4a} \<longrightarrow> Run (request_vm hdr header ev m u calls) c inp ro w = None)"
  using assms by (auto simp: context_defs intro: Run_panics cancun_entries)

theorem incomplete_contexts_panic_witness:
  "Run (transaction_vm (\<lambda>h. None) zeroBlockHeader (tx_message zeroTransaction) example_ev (2 ^ 40) example_u256 idle_calls)
     (example_contract [0x46, 0x00]) [] False example_world = None \<and>
   Run (request_vm (\<lambda>h. None) zeroBlockHeader example_ev (2 ^ 40) example_u256 idle_calls) (example_contract [0x3a, 0x00]) [] False example_world = None"
proof -
  have "c_Code (example_contract [0x46, 0x00]) = [0x46, 0x00]" "c_Code (example_contract [0x3a, 0x00]) = [0x3a, 0x00]"
    by (simp_all add: example_contract_def)
  then show ?thesis
    using incomplete_contexts_panic [of "example_contract [0x46, 0x00]" "0x46" "[0x00]"]
      incomplete_contexts_panic [of "example_contract [0x3a, 0x00]" "0x3a" "[0x00]"] by simp
qed

section \<open>A run that never ends\<close>

text \<open>\<open>JUMPDEST; PUSH1 0; JUMP\<close>.\<close>

definition loop_code :: bytes where "loop_code = [0x5b, 0x60, 0x00, 0x56]"

definition looping :: "uint64 \<Rightarrow> Scope \<Rightarrow> World \<Rightarrow> bool" where
  "looping gas sc w \<longleftrightarrow> c_Code (sc_contract sc) = loop_code \<and> c_Gas (sc_contract sc) = gas \<and>
     (sc_analysis sc = None \<or> sc_analysis sc = codeBitmap loop_code) \<and> shared_ok (CodeHash (sc_contract sc)) loop_code w \<and>
     (sc_pc sc, sc_stack sc) \<in> {(0, []), (1, []), (3, [0])}"

lemma loop_analysis: "codeBitmap loop_code = Some [4, 0, 0, 0, 0]" "codeSegment [4, 0, 0, 0, 0] 0 = Some True"
  by (code_simp, code_simp)

lemma loop_isCode:
  assumes "an = None \<or> an = codeBitmap loop_code" "shared h = None \<or> shared h = codeBitmap loop_code"
  shows "\<exists>shared'. isCode loop_code h an shared 0 = Some (True, codeBitmap loop_code, shared') \<and> (shared' h = None \<or> shared' h = codeBitmap loop_code)"
  using assms loop_analysis by (cases an; cases "shared h") (auto simp: isCode_def)

lemma loop_jump:
  assumes "looping gas sc w" "sc_pc sc = 3" "\<not> vm_abort env"
  shows "\<exists>sc' w'. opJump env sc w = proceed (sc'\<lparr> sc_pc := - 1 \<rparr>) w' \<and> looping gas (sc'\<lparr> sc_pc := 0 \<rparr>) w'"
proof -
  obtain shared where "isCode loop_code (CodeHash (sc_contract sc)) (sc_analysis sc) (w_jumpdests w) 0 = Some (True, codeBitmap loop_code, shared)"
    "shared (CodeHash (sc_contract sc)) = None \<or> shared (CodeHash (sc_contract sc)) = codeBitmap loop_code"
    using loop_isCode [of "sc_analysis sc" "w_jumpdests w" "CodeHash (sc_contract sc)"] assms(1) by (auto simp: looping_def shared_ok_def)
  moreover have "loop_code ! 0 = JUMPDEST" "length loop_code = 4"
    by (simp_all add: loop_code_def JUMPDEST_def)
  ultimately show ?thesis
    using assms
    by (intro exI [of _ "sc\<lparr> sc_stack := [], sc_analysis := codeBitmap loop_code \<rparr>"] exI [of _ "w\<lparr> w_jumpdests := shared \<rparr>"])
      (auto simp: looping_def opJump_def pop_def jump_to_def validJumpdest_def IsUint64_def Uint64_def shared_ok_def)
qed

lemma loop_step:
  assumes "looping gas sc w" "\<not> vm_abort env"
  shows "\<exists>sc' w'. step env sc w = Some (Running sc' w') \<and> looping gas sc' w'"
proof -
  have op: "current_op sc = newCancunInstructionSet (loop_code ! unat (sc_pc sc))"
    using assms(1) by (auto simp: looping_def GetOp_def loop_code_def)
  from assms(1) consider "sc_pc sc = 0" "sc_stack sc = []" | "sc_pc sc = 1" "sc_stack sc = []" | "sc_pc sc = 3" "sc_stack sc = [0]"
    by (auto simp: looping_def)
  then show ?thesis
  proof cases
    case 1
    then show ?thesis
      using assms(1) op by (subst step_simple [where f = opJumpdest and g = 1 and p = 0 and q = 0])
        (simp_all add: loop_code_def cancun_entries opJumpdest_def proceed_def finish_step_def looping_def)
  next
    case 2
    then show ?thesis
      using assms(1) op by (subst step_simple [where f = opPush1 and g = 3 and p = 0 and q = 1])
        (simp_all add: loop_code_def cancun_entries opPush1_def pushing_def push_def proceed_def finish_step_def looping_def Let_def)
  next
    case 3
    then have "current_op sc = simple_op opJump 8 1 0"
      using op by (simp add: loop_code_def cancun_entries)
    then show ?thesis
      using loop_jump [OF assms(1) 3(1) assms(2)] 3
      by (subst step_simple [where f = opJump and g = 8 and p = 1 and q = 0]) (auto simp: proceed_def finish_step_def)
  qed
qed

lemma loop_turns: "looping gas sc w \<Longrightarrow> \<not> vm_abort env \<Longrightarrow> \<exists>sc' w'. turns n env sc w = Some (Running sc' w') \<and> looping gas sc' w'"
proof (induction n arbitrary: sc w)
  case (Suc n)
  then show ?case
    using loop_step [OF Suc.prems] by fastforce
qed simp

text \<open>C20: gas does not bound a run. The contract JUMPDEST, PUSH1 0, JUMP is still running after any number of turns, with the gas it
  started with, even none; so \<open>Run\<close> does not return.\<close>
theorem unmetered_loop:
  assumes "c_Code c = [0x5b, 0x60, 0x00, 0x56]" "shared_ok (CodeHash c) (c_Code c) w" "\<not> vm_abort env"
  shows "(\<exists>sc' w'. turns n env (new_scope c inp) w = Some (Running sc' w') \<and> c_Gas (sc_contract sc') = c_Gas c) \<and> Run env c inp ro w = None"
proof -
  have t: "\<exists>sc' w'. turns n env (new_scope c inp) v = Some (Running sc' w') \<and> looping (c_Gas c) sc' w'" if "w_jumpdests v = w_jumpdests w" for n v
    using that loop_turns [of "c_Gas c" "new_scope c inp" v env n] assms by (simp add: looping_def new_scope_def loop_code_def shared_ok_def)
  have "run_loop env (new_scope c inp) v = None" if "w_jumpdests v = w_jumpdests w" for v
  proof (rule ccontr)
    assume "run_loop env (new_scope c inp) v \<noteq> None"
    then show False
      using t [OF that] run_loop_turns [of env "new_scope c inp" v] by (metis not_None_eq option.inject outcome.distinct(1) prod_cases4)
  qed
  then show ?thesis
    using t [of w n] assms(1) by (auto simp: Run_def looping_def Let_def)
qed

theorem unmetered_loop_witness:
  "Run example_vm ((example_contract [0x5b, 0x60, 0x00, 0x56])\<lparr> c_Gas := 0 \<rparr>) [] False example_world = None"
  using unmetered_loop [of "(example_contract [0x5b, 0x60, 0x00, 0x56])\<lparr> c_Gas := 0 \<rparr>" example_world example_vm 0 "[]" False]
  by (simp add: example_contract_def example_world_def example_vm_def shared_ok_def)

section \<open>Runs that end\<close>

lemma turns_not_stuck:
  assumes "turns n env sc w = Some (Halted res err sc1 w1)"
  shows "turns k env sc w = Some (Running sc' w') \<Longrightarrow> step env sc' w' \<noteq> None"
  using assms
proof (induction k arbitrary: n sc w)
  case 0
  then show ?case
    by (cases n) (auto split: Option.bind_splits)
next
  case (Suc k)
  then obtain sc2 w2 where "step env sc w = Some (Running sc2 w2)" "turns k env sc2 w2 = Some (Running sc' w')"
    by (auto split: Option.bind_splits outcome.splits)
  then show ?case
    using Suc.IH [of sc2 w2 "n - 1"] Suc.prems(2) by (cases n) auto
qed


lemma example_turn3:
  "turns 5 example_vm (example_scope [0x60, 0x20, 0x51, 0x00]) example_world = Some (Halted [] None
     ((example_scope [0x60, 0x20, 0x51, 0x00])\<lparr> sc_pc := 3, sc_stack := [0], sc_mem := \<lparr> store = replicate 64 0, lastGasCost = 6 \<rparr> \<rparr>) example_world)"
proof -
  let ?sc = "(example_scope [0x60, 0x20, 0x51, 0x00])\<lparr> sc_pc := 3, sc_stack := [0], sc_mem := \<lparr> store = replicate 64 0, lastGasCost = 6 \<rparr> \<rparr>"
  have "step example_vm ?sc example_world = Some (Halted [] None ?sc example_world)"
    by (subst step_simple [where f = opStop and g = 0 and p = 0 and q = 0])
      (simp_all add: example_scope_simps cancun_stop opStop_def fail_def finish_step_def)
  then show ?thesis
    using example_turn1 example_turn2 by (simp add: numeral_eq_Suc)
qed


section \<open>Gas of calls and creations\<close>

lemma jumps_keep_gas:
  "opJump env sc w = Some (ret, err, sc', w') \<Longrightarrow> w_callGasTemp w' = w_callGasTemp w"
  "opJumpi env sc w = Some (ret, err, sc', w') \<Longrightarrow> w_callGasTemp w' = w_callGasTemp w"
  by (auto simp: opJump_def opJumpi_def jump_to_def validJumpdest_def proceed_def fail_def Let_def split: Option.bind_splits prod.splits if_splits)

lemma execute_keeps_gas:
  assumes "execute (newCancunInstructionSet b) env sc w = Some (ret, err, sc', w')" "calls_steady (vm_calls env)"
  shows "w_callGasTemp w' = w_callGasTemp w"
proof (cases "b \<in> jumps")
  case True
  then show ?thesis
    using assms(1) by (auto simp: jumps_def cancun_entries dest: jumps_keep_gas)
next
  case False
  then have "moves_on env sc w (ret, err, sc', w')"
    using table_steady_cancun [of env] assms(1) unfolding table_steady_def steady_def by blast
  then show ?thesis
    using assms(2) by (simp add: moves_on_def)
qed

lemma step_keeps_gas:
  assumes "env_ok env" "calls_steady (vm_calls env)" "frame_ok env sc w" "short_slices env sc w" "step env sc w = Some (Running sc' w')"
  shows "w_callGasTemp w' = w_callGasTemp w"
proof -
  let ?op = "current_op sc"
  have op: "op_safe env ?op" "gas_safe env ?op"
    using table_safe_cancun [OF assms(1)] table_metered_cancun [of env] by (simp_all add: table_safe_def table_metered_def)
  from assms(5) obtain sc1 w1 r where m: "minStackOf ?op \<le> length (sc_stack sc)" and p: "prepare env ?op sc w = Some (Inr (sc1, w1))"
    and e: "execute ?op env sc1 w1 = Some r" and f: "finish_step r = Running sc' w'"
    by (auto simp: step_def Let_def split: if_splits Option.bind_splits sum.splits prod.splits)
  have "w_callGasTemp w1 = w_callGasTemp w"
    using prepare_safe [OF assms(3,4) m op] p by simp
  moreover obtain res sc2 where "r = (res, None, sc2, w')"
    using f by (auto simp: finish_step_def split: prod.splits option.splits)
  ultimately show ?thesis
    using execute_keeps_gas [of "GetOp (sc_contract sc) (sc_pc sc)" env sc1 w1] e assms(2) by simp
qed



text \<open>a creation pays back gas it did not take. \<open>CREATE\<close> starts the creation with all the gas of the frame without taking it, and
  afterwards adds what the creation left: a creation that spends nothing doubles the gas of the frame.\<close>
theorem create_adds_unspent_gas:
  assumes "opCreate env sc w = Some (ret, None, sc', w')"
  shows "\<exists>inp val res addr left err w1. do_Create (vm_calls env) (sc_contract sc) inp (c_Gas (sc_contract sc)) val w = Some (res, addr, left, err, w1) \<and>
    c_Gas (sc_contract sc') = c_Gas (sc_contract sc) + left"
  using assms by (fastforce simp: opCreate_def finish_create_def fail_def RefundGas_def Let_def split: Option.bind_splits prod.splits if_splits)

theorem create_adds_unspent_gas_witness:
  "\<exists>sc' w'. opCreate example_vm ((example_scope [0xf0])\<lparr> sc_stack := [0, 0, 0] \<rparr>) example_world = Some ([], None, sc', w') \<and>
     c_Gas (sc_contract sc') = 100 + 100"
proof -
  let ?sc = "(example_scope [0xf0])\<lparr> sc_stack := [0, 0, 0] \<rparr>"
  have gas: "c_Gas (sc_contract ?sc) = 100"
    by (simp add: example_scope_simps)
  have "\<exists>sc' w'. opCreate example_vm ?sc example_world = Some ([], None, sc', w')"
    by (simp add: opCreate_def finish_create_def GetCopy_def pop_def Uint64_def example_vm_def idle_calls_def example_world_def example_scope_simps Let_def)
  then obtain sc' w' where o: "opCreate example_vm ?sc example_world = Some ([], None, sc', w')"
    by blast
  from create_adds_unspent_gas [OF o] have "c_Gas (sc_contract sc') = 100 + 100"
    by (auto simp: example_scope_simps example_vm_def idle_calls_def)
  with o show ?thesis
    by blast
qed

end
