(* ===== verification/Numbers.thy ===== *)
theory Numbers
  imports Prelude
begin

text \<open>
  Go's \<open>float64\<close> and indexed slices, as the partitioning and the measurements use them. A floating-point
  number is a rational without rounding, one of the infinities or the value that is not a number; a
  division by zero gives one of the latter three. An index out of range panics.
\<close>

section \<open>Slices by index\<close>

text \<open>\<open>xs[i] += d\<close>, \<open>xs[i]\<close> and \<open>xs[i] = x\<close>.\<close>

definition add_at :: "int \<Rightarrow> 'a::plus \<Rightarrow> 'a list \<Rightarrow> 'a list panics" where
  "add_at i d xs = (if 0 \<le> i \<and> nat i < length xs then Some (xs[nat i := xs ! nat i + d]) else None)"

definition int_at :: "int \<Rightarrow> 'a list \<Rightarrow> 'a panics" where
  "int_at i xs = (if 0 \<le> i \<and> nat i < length xs then Some (xs ! nat i) else None)"

definition set_at :: "int \<Rightarrow> 'a \<Rightarrow> 'a list \<Rightarrow> 'a list panics" where
  "set_at i x xs = (if 0 \<le> i \<and> nat i < length xs then Some (xs[nat i := x]) else None)"

lemma add_at_in_range: "0 \<le> i \<Longrightarrow> i < int (length xs) \<Longrightarrow> add_at i d xs = Some (xs[nat i := xs ! nat i + d])"
  by (simp add: add_at_def nat_less_iff)

lemma at_in_range:
  assumes "0 \<le> i" "i < int (length xs)"
  shows "int_at i xs = Some (xs ! nat i)" "set_at i x xs = Some (xs[nat i := x])"
  using assms by (simp_all add: int_at_def set_at_def nat_less_iff)

section \<open>Floating-point numbers\<close>

datatype float64 = Finite rat | PlusInf | MinusInf | NaN

definition signed_inf :: "rat \<Rightarrow> float64" where
  "signed_inf x = (if 0 < x then PlusInf else if x < 0 then MinusInf else NaN)"

fun float_div :: "rat \<Rightarrow> rat \<Rightarrow> float64" where
  "float_div x y = (if y = 0 then signed_inf x else Finite (x / y))"

fun one_minus :: "float64 \<Rightarrow> float64" where
  "one_minus (Finite x) = Finite (1 - x)"
| "one_minus PlusInf = MinusInf"
| "one_minus MinusInf = PlusInf"
| "one_minus NaN = NaN"

fun float_mult :: "float64 \<Rightarrow> float64 \<Rightarrow> float64" where
  "float_mult (Finite x) (Finite y) = Finite (x * y)"
| "float_mult (Finite x) PlusInf = signed_inf x"
| "float_mult (Finite x) MinusInf = signed_inf (- x)"
| "float_mult PlusInf (Finite y) = signed_inf y"
| "float_mult MinusInf (Finite y) = signed_inf (- y)"
| "float_mult PlusInf PlusInf = PlusInf"
| "float_mult PlusInf MinusInf = MinusInf"
| "float_mult MinusInf PlusInf = MinusInf"
| "float_mult MinusInf MinusInf = PlusInf"
| "float_mult NaN y = NaN"
| "float_mult x NaN = NaN"

fun float_less :: "float64 \<Rightarrow> float64 \<Rightarrow> bool" where
  "float_less (Finite x) (Finite y) = (x < y)"
| "float_less (Finite x) PlusInf = True"
| "float_less MinusInf (Finite y) = True"
| "float_less MinusInf PlusInf = True"
| "float_less x y = False"

end
