(* ===== verification/Partition.thy ===== *)
theory Partition
  imports Utils Numbers
begin

text \<open>
  The placement of accounts by constrained label propagation: \<open>partition/graph.go\<close> and
  \<open>partition/partition_CLPA.go\<close>. A nil map reads as an empty one; the edge set keeps the difference, which
  \<open>CopyGraph\<close> tests. The order in which a range visits a map is an argument. The scores are
  floating-point numbers: rationals without rounding, with the infinities and the value that is not a
  number that a division by zero gives. Indices out of range panic.
\<close>

section \<open>Graphs\<close>

record Vertex =
  Addr :: Address

record Graph =
  VertexSet :: "Vertex set"
  EdgeSet :: "(Vertex \<rightharpoonup> Vertex list) option"

definition edges :: "Graph \<Rightarrow> Vertex \<Rightarrow> Vertex list" where
  "edges g v = (case EdgeSet g of None \<Rightarrow> [] | Some m \<Rightarrow> (case m v of None \<Rightarrow> [] | Some us \<Rightarrow> us))"

definition ConstructVertex :: "Address \<Rightarrow> Vertex" where "ConstructVertex s = \<lparr> Addr = s \<rparr>"

definition AddVertex_graph :: "Vertex \<Rightarrow> Graph \<Rightarrow> Graph" where
  "AddVertex_graph v g = g\<lparr> VertexSet := insert v (VertexSet g) \<rparr>"

text \<open>\<open>append(m[u], v)\<close> written back.\<close>

definition append_edge :: "Vertex \<Rightarrow> Vertex \<Rightarrow> Graph \<Rightarrow> Graph" where
  "append_edge u v g = (let m = (case EdgeSet g of None \<Rightarrow> Map.empty | Some m \<Rightarrow> m) in
     g\<lparr> EdgeSet := Some (m(u \<mapsto> edges g u @ [v])) \<rparr>)"

definition AddEdge_graph :: "Vertex \<Rightarrow> Vertex \<Rightarrow> Graph \<Rightarrow> Graph" where
  "AddEdge_graph u v g =
     (let g1 = (if u \<in> VertexSet g then g else AddVertex_graph u g);
          g2 = (if v \<in> VertexSet g1 then g1 else AddVertex_graph v g1)
      in append_edge v u (append_edge u v g2))"

definition CopyGraph :: "Graph \<Rightarrow> Graph \<Rightarrow> Graph" where
  "CopyGraph src dst = \<lparr> VertexSet = VertexSet src,
     EdgeSet = (case EdgeSet src of
         None \<Rightarrow> EdgeSet dst
       | Some m \<Rightarrow> Some (\<lambda>v. if v \<in> VertexSet src then Some (edges src v) else None)) \<rparr>"

section \<open>The state of the algorithm\<close>

record CLPAState =
  NetGraph :: Graph
  cs_PartitionMap :: "Vertex \<rightharpoonup> int"
  Edges2Shard :: "int list"
  VertexsNumInShard :: "int list"
  WeightPenalty :: rat
  MinEdges2Shard :: int
  MaxIterations :: nat
  CrossShardEdgeNum :: int
  cs_ShardNum :: nat
  GraphHash :: bytes

definition shard_of :: "CLPAState \<Rightarrow> Vertex \<Rightarrow> int" where
  "shard_of cs v = (case cs_PartitionMap cs v of None \<Rightarrow> 0 | Some s \<Rightarrow> s)"

definition AddVertex :: "nat \<Rightarrow> Vertex \<Rightarrow> CLPAState \<Rightarrow> CLPAState panics" where
  "AddVertex ShardNum v cs = do {
     s \<leftarrow> (case cs_PartitionMap cs v of None \<Rightarrow> map_option int (Addr2Shard ShardNum (Addr v)) | Some val \<Rightarrow> Some val);
     nums \<leftarrow> add_at s 1 (VertexsNumInShard cs);
     Some (cs\<lparr> NetGraph := AddVertex_graph v (NetGraph cs), cs_PartitionMap := (cs_PartitionMap cs)(v \<mapsto> s), VertexsNumInShard := nums \<rparr>) }"

definition AddEdge :: "nat \<Rightarrow> Vertex \<Rightarrow> Vertex \<Rightarrow> CLPAState \<Rightarrow> CLPAState panics" where
  "AddEdge ShardNum u v cs = do {
     cs1 \<leftarrow> (if u \<in> VertexSet (NetGraph cs) then Some cs else AddVertex ShardNum u cs);
     cs2 \<leftarrow> (if v \<in> VertexSet (NetGraph cs1) then Some cs1 else AddVertex ShardNum v cs1);
     Some (cs2\<lparr> NetGraph := AddEdge_graph u v (NetGraph cs2) \<rparr>) }"

text \<open>\<open>CopyCLPA\<close>: \<open>make\<close> and \<open>copy\<close> of the edge counts; the number of cross-shard edges and the hash stay those of the target.\<close>

definition CopyCLPA :: "CLPAState \<Rightarrow> CLPAState \<Rightarrow> CLPAState" where
  "CopyCLPA src dst = dst\<lparr> NetGraph := CopyGraph (NetGraph src) (NetGraph dst), cs_PartitionMap := cs_PartitionMap src,
     Edges2Shard := take (cs_ShardNum src) (Edges2Shard src) @ replicate (cs_ShardNum src - length (Edges2Shard src)) 0,
     VertexsNumInShard := VertexsNumInShard src, WeightPenalty := WeightPenalty src, MinEdges2Shard := MinEdges2Shard src,
     MaxIterations := MaxIterations src, cs_ShardNum := cs_ShardNum src \<rparr>"

section \<open>Counting edges\<close>

text \<open>The loop over the neighbours of one vertex, with the counts of crossing and of inner edges.\<close>

fun count_neighbours :: "(Vertex \<Rightarrow> int) \<Rightarrow> int \<Rightarrow> Vertex list \<Rightarrow> int list \<times> int list \<Rightarrow> (int list \<times> int list) panics" where
  "count_neighbours sh vShard [] r = Some r"
| "count_neighbours sh vShard (u # us) (cross, inner) =
     (if vShard \<noteq> sh u
      then do { c \<leftarrow> add_at (sh u) 1 cross; count_neighbours sh vShard us (c, inner) }
      else do { i \<leftarrow> add_at (sh u) 1 inner; count_neighbours sh vShard us (cross, i) })"

fun count_edges :: "(Vertex \<Rightarrow> int) \<Rightarrow> (Vertex \<Rightarrow> Vertex list) \<Rightarrow> Vertex list \<Rightarrow> int list \<times> int list \<Rightarrow> (int list \<times> int list) panics" where
  "count_edges sh es [] r = Some r"
| "count_edges sh es (v # vs) r = do { r1 \<leftarrow> count_neighbours sh (sh v) (es v) r; count_edges sh es vs r1 }"

definition MaxInt :: int where "MaxInt = 2 ^ 63 - 1"

definition smallest :: "int list \<Rightarrow> int" where
  "smallest xs = fold (\<lambda>val m. if val < m then val else m) xs MaxInt"

text \<open>\<open>ComputeEdges2Shard\<close>; \<open>order\<close> is that of the range over the edge set. The counts are not negative, so that the divisions round down.\<close>

definition ComputeEdges2Shard :: "Vertex list \<Rightarrow> CLPAState \<Rightarrow> CLPAState panics" where
  "ComputeEdges2Shard order cs = do {
     let zero = replicate (cs_ShardNum cs) 0;
     (cross, inner) \<leftarrow> count_edges (shard_of cs) (edges (NetGraph cs)) order (zero, zero);
     let es = map2 (\<lambda>c i. c + i div 2) cross inner;
     Some (cs\<lparr> Edges2Shard := es, CrossShardEdgeNum := sum_list cross div 2, MinEdges2Shard := smallest es \<rparr>) }"

fun recompute_loop :: "(Vertex \<Rightarrow> int) \<Rightarrow> int \<Rightarrow> int \<Rightarrow> Vertex list \<Rightarrow> int list \<times> int \<Rightarrow> (int list \<times> int) panics" where
  "recompute_loop sh new old [] r = Some r"
| "recompute_loop sh new old (u # us) (es, n) =
     (if sh u \<noteq> new \<and> sh u \<noteq> old
      then do { e1 \<leftarrow> add_at new 1 es; e2 \<leftarrow> add_at old (- 1) e1; recompute_loop sh new old us (e2, n) }
      else if sh u = new
      then do { e1 \<leftarrow> add_at old (- 1) es; recompute_loop sh new old us (e1, n - 1) }
      else do { e1 \<leftarrow> add_at new 1 es; recompute_loop sh new old us (e1, n + 1) })"

definition changeShardRecompute :: "Vertex \<Rightarrow> int \<Rightarrow> CLPAState \<Rightarrow> CLPAState panics" where
  "changeShardRecompute v old cs = do {
     (es, n) \<leftarrow> recompute_loop (shard_of cs) (shard_of cs v) old (edges (NetGraph cs) v) (Edges2Shard cs, CrossShardEdgeNum cs);
     Some (cs\<lparr> Edges2Shard := es, CrossShardEdgeNum := n, MinEdges2Shard := smallest es \<rparr>) }"

section \<open>Starting partitions\<close>

definition Init_CLPAState :: "rat \<Rightarrow> nat \<Rightarrow> nat \<Rightarrow> CLPAState \<Rightarrow> CLPAState" where
  "Init_CLPAState wp mIter sn cs = cs\<lparr> WeightPenalty := wp, MaxIterations := mIter, cs_ShardNum := sn,
     VertexsNumInShard := replicate sn 0, cs_PartitionMap := Map.empty \<rparr>"

text \<open>\<open>strconv.ParseInt(s, 16, 64)\<close>: an optional sign, then digits.\<close>

definition ParseInt16 :: "string \<Rightarrow> int option" where
  "ParseInt16 s = (case s of
       [] \<Rightarrow> None
     | c # cs \<Rightarrow>
         (let neg = c = CHR ''-''; digits = (if neg \<or> c = CHR ''+'' then cs else s) in
          case ParseUint16 digits of
            None \<Rightarrow> None
          | Some n \<Rightarrow> if neg then (if 2 ^ 63 < n then None else Some (- int n)) else (if 2 ^ 63 \<le> n then None else Some (int n))))"

definition init_shard :: "nat \<Rightarrow> Vertex \<Rightarrow> int panics" where
  "init_shard sn v =
     (if length (Addr v) < 8 then panic
      else case ParseInt16 (drop (length (Addr v) - 8) (Addr v)) of
          None \<Rightarrow> panic
        | Some num \<Rightarrow> if sn = 0 then panic else Some (sgn num * (\<bar>num\<bar> mod int sn)))"

fun init_vertices :: "(nat \<Rightarrow> Vertex \<Rightarrow> int panics) \<Rightarrow> nat \<Rightarrow> Vertex list \<Rightarrow> (Vertex \<rightharpoonup> int) \<times> int list \<Rightarrow> ((Vertex \<rightharpoonup> int) \<times> int list) panics" where
  "init_vertices place cnt [] r = Some r"
| "init_vertices place cnt (v # vs) (pm, nums) = do {
     s \<leftarrow> place cnt v;
     n1 \<leftarrow> add_at s 1 nums;
     init_vertices place (cnt + 1) vs (pm(v \<mapsto> s), n1) }"

text \<open>\<open>vorder\<close> is the order of the vertices, \<open>eorder\<close> that of the edge set.\<close>

definition start_partition :: "(nat \<Rightarrow> Vertex \<Rightarrow> int panics) \<Rightarrow> Vertex list \<Rightarrow> Vertex list \<Rightarrow> CLPAState \<Rightarrow> CLPAState panics" where
  "start_partition place vorder eorder cs = do {
     (pm, nums) \<leftarrow> init_vertices place 0 vorder (Map.empty, replicate (cs_ShardNum cs) 0);
     ComputeEdges2Shard eorder (cs\<lparr> cs_PartitionMap := pm, VertexsNumInShard := nums \<rparr>) }"

definition Init_Partition :: "Vertex list \<Rightarrow> Vertex list \<Rightarrow> CLPAState \<Rightarrow> CLPAState panics" where
  "Init_Partition vorder eorder cs = start_partition (\<lambda>cnt. init_shard (cs_ShardNum cs)) vorder eorder cs"

definition Stable_Init_Partition :: "Vertex list \<Rightarrow> Vertex list \<Rightarrow> CLPAState \<Rightarrow> (string + CLPAState) panics" where
  "Stable_Init_Partition vorder eorder cs =
     (if card (VertexSet (NetGraph cs)) < cs_ShardNum cs
      then Some (Inl ''too many shards, number of shards should be less than nodes. '')
      else map_option Inr (start_partition (\<lambda>cnt v. if cs_ShardNum cs = 0 then panic else Some (int (cnt mod cs_ShardNum cs))) vorder eorder cs))"

section \<open>Scores\<close>

definition getShard_score :: "Vertex \<Rightarrow> int \<Rightarrow> CLPAState \<Rightarrow> float64 panics" where
  "getShard_score v uShard cs = do {
     let v_outdegree = length (edges (NetGraph cs) v);
     let Edgesto_uShard = length (filter (\<lambda>item. shard_of cs item = uShard) (edges (NetGraph cs) v));
     e \<leftarrow> int_at uShard (Edges2Shard cs);
     Some (float_mult (float_div (of_nat Edgesto_uShard) (of_nat v_outdegree))
             (one_minus (float_div (WeightPenalty cs * of_int e) (of_int (MinEdges2Shard cs))))) }"

section \<open>The algorithm\<close>

text \<open>The best neighbouring shard: each shard is scored once; \<open>seen\<close> are the shards already scored.\<close>

fun best_shard :: "Vertex \<Rightarrow> CLPAState \<Rightarrow> Vertex list \<Rightarrow> int set \<Rightarrow> float64 \<Rightarrow> int \<Rightarrow> int panics" where
  "best_shard v cs [] seen max_score max_scoreShard = Some max_scoreShard"
| "best_shard v cs (u # us) seen max_score max_scoreShard =
     (let uShard = shard_of cs u in
      if uShard \<in> seen then best_shard v cs us seen max_score max_scoreShard
      else do {
        s \<leftarrow> getShard_score v uShard cs;
        if float_less max_score s then best_shard v cs us (insert uShard seen) s uShard
        else best_shard v cs us (insert uShard seen) max_score max_scoreShard })"

type_synonym clpa = "CLPAState \<times> (string \<rightharpoonup> uint64) \<times> (string \<Rightarrow> nat)"

text \<open>The turn of one vertex: the state, the moves made so far and how often each address was moved.\<close>

definition clpa_vertex :: "Vertex \<Rightarrow> clpa \<Rightarrow> clpa panics" where
  "clpa_vertex v = (\<lambda>(cs, res, updateTreshold).
     if 50 \<le> updateTreshold (Addr v) then Some (cs, res, updateTreshold)
     else do {
       let vNowShard = shard_of cs v;
       best \<leftarrow> best_shard v cs (edges (NetGraph cs) v) {} (Finite (- 9999)) vNowShard;
       if vNowShard = best then Some (cs, res, updateTreshold)
       else do {
         n \<leftarrow> int_at vNowShard (VertexsNumInShard cs);
         if n \<le> 1 then Some (cs, res, updateTreshold)
         else do {
           let cs1 = cs\<lparr> cs_PartitionMap := (cs_PartitionMap cs)(v \<mapsto> best) \<rparr>;
           n1 \<leftarrow> add_at vNowShard (- 1) (VertexsNumInShard cs1);
           n2 \<leftarrow> add_at best 1 n1;
           cs2 \<leftarrow> changeShardRecompute v vNowShard (cs1\<lparr> VertexsNumInShard := n2 \<rparr>);
           Some (cs2, res(Addr v \<mapsto> of_int best), updateTreshold(Addr v := updateTreshold (Addr v) + 1)) } } })"

fun clpa_round :: "Vertex list \<Rightarrow> clpa \<Rightarrow> clpa panics" where
  "clpa_round [] st = Some st"
| "clpa_round (v # vs) st = do { st1 \<leftarrow> clpa_vertex v st; clpa_round vs st1 }"

text \<open>One order of the vertices for each iteration.\<close>

fun clpa_rounds :: "Vertex list list \<Rightarrow> clpa \<Rightarrow> clpa panics" where
  "clpa_rounds [] st = Some st"
| "clpa_rounds (vs # orders) st = do { st1 \<leftarrow> clpa_round vs st; clpa_rounds orders st1 }"

definition CLPA_Partition :: "Vertex list \<Rightarrow> (nat \<Rightarrow> Vertex list) \<Rightarrow> Vertex list \<Rightarrow> CLPAState \<Rightarrow> (CLPAState \<times> (string \<rightharpoonup> uint64) \<times> int) panics" where
  "CLPA_Partition eorder orders eorder2 cs = do {
     cs1 \<leftarrow> ComputeEdges2Shard eorder cs;
     (cs2, res, upd) \<leftarrow> clpa_rounds (map orders [0..<MaxIterations cs]) (cs1, Map.empty, \<lambda>a. 0);
     cs3 \<leftarrow> ComputeEdges2Shard eorder2 cs2;
     Some (cs3, res, CrossShardEdgeNum cs3) }"

definition EraseEdges :: "CLPAState \<Rightarrow> CLPAState" where
  "EraseEdges cs = cs\<lparr> NetGraph := (NetGraph cs)\<lparr> EdgeSet := Some Map.empty \<rparr> \<rparr>"

end
