(* ===== verification/Clpa.thy ===== *)
theory Clpa
  imports Partition
begin

text \<open>
  What label propagation keeps: the edge counts updated for one moved vertex are those of a fresh count, on
  graphs without loops; through the whole algorithm the vertex counts are right, no shard loses its last
  vertex and no index is out of range.
\<close>

section \<open>Counts as functions\<close>

text \<open>The counts of \<open>n\<close> shards.\<close>

abbreviation counts :: "nat \<Rightarrow> (nat \<Rightarrow> int) \<Rightarrow> int list" where
  "counts n c \<equiv> map c [0..<n]"

definition placed :: "nat \<Rightarrow> (Vertex \<Rightarrow> int) \<Rightarrow> Vertex set \<Rightarrow> bool" where
  "placed n sh V \<longleftrightarrow> (\<forall>v\<in>V. 0 \<le> sh v \<and> sh v < int n)"

lemma add_at_counts: "0 \<le> i \<Longrightarrow> i < int n \<Longrightarrow> add_at i d (counts n c) = Some (counts n (\<lambda>k. c k + (if int k = i then d else 0)))"
  by (auto simp: add_at_def list_eq_iff_nth_eq nth_list_update)

lemma int_at_counts: "0 \<le> i \<Longrightarrow> i < int n \<Longrightarrow> int_at i (counts n c) = Some (c (nat i))"
  by (simp add: int_at_def)

lemma count_neighbours_counts:
  "placed n sh (set us) \<Longrightarrow> count_neighbours sh s us (counts n c, counts n i) =
     Some (counts n (\<lambda>k. c k + (\<Sum>u\<leftarrow>us. of_bool (s \<noteq> sh u \<and> sh u = int k))), counts n (\<lambda>k. i k + (\<Sum>u\<leftarrow>us. of_bool (s = sh u \<and> sh u = int k))))"
proof (induction us arbitrary: c i s)
  case (Cons u us)
  then have u: "0 \<le> sh u" "sh u < int n" "placed n sh (set us)"
    by (simp_all add: placed_def)
  show ?case
    by (cases "s = sh u") (auto simp: add_at_counts u(1,2) Cons.IH [OF u(3)])
qed simp

lemma count_edges_counts:
  "(\<And>v. v \<in> set vs \<Longrightarrow> placed n sh (set (es v))) \<Longrightarrow> count_edges sh es vs (counts n c, counts n i) =
     Some (counts n (\<lambda>k. c k + (\<Sum>v\<leftarrow>vs. \<Sum>u\<leftarrow>es v. of_bool (sh v \<noteq> sh u \<and> sh u = int k))),
           counts n (\<lambda>k. i k + (\<Sum>v\<leftarrow>vs. \<Sum>u\<leftarrow>es v. of_bool (sh v = sh u \<and> sh u = int k))))"
  by (induction vs arbitrary: c i) (simp_all add: count_neighbours_counts add.assoc)

lemma recompute_loop_counts:
  assumes "a \<noteq> b" "0 \<le> a" "a < int n" "0 \<le> b" "b < int n"
  shows "recompute_loop sh b a us (counts n e, x) =
     Some (counts n (\<lambda>k. e k + (if int k = b then \<Sum>u\<leftarrow>us. of_bool (sh u \<noteq> b) else 0) - (if int k = a then \<Sum>u\<leftarrow>us. of_bool (sh u \<noteq> a) else 0)),
           x + (\<Sum>u\<leftarrow>us. of_bool (sh u = a) - of_bool (sh u = b)))"
proof (induction us arbitrary: e x)
  case (Cons u us)
  consider "sh u \<noteq> a" "sh u \<noteq> b" | "sh u = a" | "sh u = b"
    by blast
  then show ?case
    using assms by cases (simp_all add: add_at_counts Cons.IH cong: if_cong)
qed simp

section \<open>Sums over pairs of vertices\<close>

definition links :: "Graph \<Rightarrow> Vertex \<Rightarrow> Vertex \<Rightarrow> int" where
  "links g x u = int (count_list (edges g x) u)"

text \<open>The edges of a graph connect its vertices, in both directions.\<close>

definition graph_ok :: "Graph \<Rightarrow> bool" where
  "graph_ok g \<longleftrightarrow> finite (VertexSet g) \<and> (\<forall>x. set (edges g x) \<subseteq> VertexSet g) \<and> (\<forall>x. x \<notin> VertexSet g \<longrightarrow> edges g x = []) \<and>
     (\<forall>x u. links g x u = links g u x)"

text \<open>An order of the range over the edge set.\<close>

definition edge_order :: "Graph \<Rightarrow> Vertex list \<Rightarrow> bool" where
  "edge_order g vs \<longleftrightarrow> distinct vs \<and> (\<forall>v. edges g v \<noteq> [] \<longrightarrow> v \<in> set vs) \<and> set vs \<subseteq> VertexSet g"

definition pairs :: "Graph \<Rightarrow> (Vertex \<Rightarrow> int) \<Rightarrow> (int \<Rightarrow> int \<Rightarrow> int) \<Rightarrow> int" where
  "pairs g sh f = (\<Sum>x\<in>VertexSet g. \<Sum>u\<in>VertexSet g. links g x u * f (sh x) (sh u))"

lemma sum_list_count: "finite V \<Longrightarrow> set us \<subseteq> V \<Longrightarrow> (\<Sum>u\<leftarrow>us. h u) = (\<Sum>u\<in>V. int (count_list us u) * h u)"
proof (induction us)
  case (Cons a us)
  have "(\<Sum>u\<in>V. int (count_list (a # us) u) * h u) = (\<Sum>u\<in>V. (if u = a then h u else 0) + int (count_list us u) * h u)"
    by (intro sum.cong) (auto simp: algebra_simps)
  then show ?case
    using Cons by (simp add: sum.distrib)
qed simp

lemma neighbours_sum: "graph_ok g \<Longrightarrow> (\<Sum>u\<leftarrow>edges g v. h u) = (\<Sum>u\<in>VertexSet g. links g v u * h u)"
  unfolding links_def by (rule sum_list_count) (auto simp: graph_ok_def)

lemma order_sum:
  assumes "graph_ok g" "edge_order g vs"
  shows "(\<Sum>v\<leftarrow>vs. \<Sum>u\<leftarrow>edges g v. f (sh v) (sh u)) = pairs g sh f"
proof -
  have none: "edges g i = []" if "i \<notin> set vs" for i
    using that assms(2) by (auto simp: edge_order_def)
  have "(\<Sum>v\<leftarrow>vs. \<Sum>u\<leftarrow>edges g v. f (sh v) (sh u)) = (\<Sum>v\<in>set vs. \<Sum>u\<leftarrow>edges g v. f (sh v) (sh u))"
    using assms(2) by (simp add: edge_order_def sum_list_distinct_conv_sum_set)
  also have "\<dots> = (\<Sum>v\<in>VertexSet g. \<Sum>u\<leftarrow>edges g v. f (sh v) (sh u))"
    using assms by (intro sum.mono_neutral_left) (auto simp: edge_order_def graph_ok_def none)
  finally show ?thesis
    using assms(1) by (simp add: neighbours_sum pairs_def)
qed

text \<open>One vertex without loop moves to another shard: only the pairs with it change.\<close>

lemma pairs_move:
  assumes "graph_ok g" "v \<in> VertexSet g" "links g v v = 0"
  shows "pairs g (sh(v := b)) f = pairs g sh f + (\<Sum>u\<leftarrow>edges g v. f b (sh u) - f (sh v) (sh u) + f (sh u) b - f (sh u) (sh v))"
proof -
  let ?V = "VertexSet g" and ?m = "links g"
  let ?R = "VertexSet g - {v}"
  have fin: "finite ?V" and sym: "(\<Sum>x\<in>?R. ?m x v * h x) = (\<Sum>x\<in>?R. ?m v x * h x)" for h
    using assms(1) by (auto simp: graph_ok_def intro!: sum.cong)
  have rm: "(\<Sum>x\<in>?V. h x) = h v + (\<Sum>x\<in>?R. h x)" for h :: "Vertex \<Rightarrow> int"
    using sum.remove [OF fin assms(2)] .
  have split: "pairs g s f = (\<Sum>u\<in>?R. ?m v u * f (s v) (s u)) + (\<Sum>x\<in>?R. ?m v x * f (s x) (s v)) + (\<Sum>x\<in>?R. \<Sum>u\<in>?R. ?m x u * f (s x) (s u))" for s
    by (simp add: pairs_def rm sum.distrib sym assms(3))
  have moved: "pairs g (sh(v := b)) f = (\<Sum>u\<in>?R. ?m v u * f b (sh u)) + (\<Sum>x\<in>?R. ?m v x * f (sh x) b) + (\<Sum>x\<in>?R. \<Sum>u\<in>?R. ?m x u * f (sh x) (sh u))"
    unfolding split by (intro arg_cong2 [where f = "(+)"] sum.cong) auto
  have "(\<Sum>u\<in>?R. ?m v u * f b (sh u)) + (\<Sum>x\<in>?R. ?m v x * f (sh x) b) = (\<Sum>u\<in>?R. ?m v u * f (sh v) (sh u)) + (\<Sum>x\<in>?R. ?m v x * f (sh x) (sh v)) +
    (\<Sum>u\<in>?R. ?m v u * (f b (sh u) - f (sh v) (sh u) + f (sh u) b - f (sh u) (sh v)))"
    by (simp add: sum.distrib [symmetric] algebra_simps)
  moreover have "(\<Sum>u\<in>?R. ?m v u * h u) = (\<Sum>u\<leftarrow>edges g v. h u)" for h
    by (simp add: neighbours_sum [OF assms(1)] rm assms(3))
  ultimately show ?thesis
    by (simp add: split [of sh] moved)
qed

section \<open>A fresh count\<close>

definition crossing :: "Graph \<Rightarrow> (Vertex \<Rightarrow> int) \<Rightarrow> nat \<Rightarrow> int" where
  "crossing g sh k = pairs g sh (\<lambda>a b. of_bool (a \<noteq> b \<and> b = int k))"

definition inside :: "Graph \<Rightarrow> (Vertex \<Rightarrow> int) \<Rightarrow> nat \<Rightarrow> int" where
  "inside g sh k = pairs g sh (\<lambda>a b. of_bool (a = b \<and> b = int k))"

definition fresh_counts :: "Graph \<Rightarrow> (Vertex \<Rightarrow> int) \<Rightarrow> nat \<Rightarrow> int list" where
  "fresh_counts g sh n = counts n (\<lambda>k. crossing g sh k + inside g sh k div 2)"

definition cut_edges :: "Graph \<Rightarrow> (Vertex \<Rightarrow> int) \<Rightarrow> int" where
  "cut_edges g sh = pairs g sh (\<lambda>a b. of_bool (a \<noteq> b)) div 2"

lemma sum_crossing:
  assumes "graph_ok g" "placed n sh (VertexSet g)"
  shows "(\<Sum>k<n. crossing g sh k) = pairs g sh (\<lambda>a b. of_bool (a \<noteq> b))"
proof -
  have one: "(\<Sum>k<n. of_bool (a \<noteq> sh u \<and> sh u = int k)) = (of_bool (a \<noteq> sh u) :: int)" if "u \<in> VertexSet g" for a u
  proof -
    have "0 \<le> sh u" "sh u < int n"
      using assms(2) that by (auto simp: placed_def)
    then have "(\<Sum>k<n. of_bool (a \<noteq> sh u \<and> sh u = int k)) = (\<Sum>k<n. if k = nat (sh u) then of_bool (a \<noteq> sh u) else 0 :: int)"
      by (intro sum.cong) auto
    also have "\<dots> = of_bool (a \<noteq> sh u)"
      using \<open>0 \<le> sh u\<close> \<open>sh u < int n\<close> by (simp add: nat_less_iff)
    finally show ?thesis .
  qed
  have "(\<Sum>k<n. crossing g sh k) = (\<Sum>x\<in>VertexSet g. \<Sum>u\<in>VertexSet g. \<Sum>k<n. links g x u * of_bool (sh x \<noteq> sh u \<and> sh u = int k))"
    unfolding crossing_def pairs_def by (subst sum.swap, intro sum.cong refl, subst sum.swap, rule refl)
  also have "\<dots> = pairs g sh (\<lambda>a b. of_bool (a \<noteq> b))"
    unfolding pairs_def by (intro sum.cong refl) (simp only: sum_distrib_left [symmetric] one)
  finally show ?thesis .
qed

lemma ComputeEdges2Shard_fresh:
  assumes "graph_ok (NetGraph cs)" "edge_order (NetGraph cs) order" "placed (cs_ShardNum cs) (shard_of cs) (VertexSet (NetGraph cs))"
  shows "ComputeEdges2Shard order cs = Some (cs\<lparr> Edges2Shard := fresh_counts (NetGraph cs) (shard_of cs) (cs_ShardNum cs),
     CrossShardEdgeNum := cut_edges (NetGraph cs) (shard_of cs),
     MinEdges2Shard := smallest (fresh_counts (NetGraph cs) (shard_of cs) (cs_ShardNum cs)) \<rparr>)"
proof -
  let ?g = "NetGraph cs" and ?sh = "shard_of cs" and ?n = "cs_ShardNum cs"
  have "count_edges ?sh (edges ?g) order (counts ?n (\<lambda>k. 0), counts ?n (\<lambda>k. 0)) = Some (counts ?n (crossing ?g ?sh), counts ?n (inside ?g ?sh))"
    using assms(1,3) order_sum [OF assms(1,2), of _ ?sh]
    by (subst count_edges_counts) (auto simp: graph_ok_def placed_def crossing_def inside_def)
  moreover have "map2 (\<lambda>c i. c + i div 2) (counts ?n (crossing ?g ?sh)) (counts ?n (inside ?g ?sh)) = fresh_counts ?g ?sh ?n"
    by (simp add: fresh_counts_def zip_map_map zip_same_conv_map)
  moreover have "sum_list (counts ?n (crossing ?g ?sh)) div 2 = cut_edges ?g ?sh"
    using sum_crossing [OF assms(1,3)] by (simp add: cut_edges_def interv_sum_list_conv_sum_set_nat atLeast0LessThan)
  ultimately show ?thesis
    by (simp add: ComputeEdges2Shard_def map_replicate_const Let_def)
qed

section \<open>The update for one moved vertex\<close>

text \<open>The state holds the counts of its partition.\<close>

definition counted :: "CLPAState \<Rightarrow> bool" where
  "counted cs \<longleftrightarrow> Edges2Shard cs = fresh_counts (NetGraph cs) (shard_of cs) (cs_ShardNum cs) \<and>
     CrossShardEdgeNum cs = cut_edges (NetGraph cs) (shard_of cs) \<and> MinEdges2Shard cs = smallest (Edges2Shard cs)"

lemma shard_of_move [simp]: "shard_of (cs\<lparr> cs_PartitionMap := (cs_PartitionMap cs)(v \<mapsto> b) \<rparr>) = (shard_of cs)(v := b)"
  by (auto simp: shard_of_def)

lemma moved_pair:
  fixes a b s k :: int
  shows "of_bool (b = s \<and> s = k) - of_bool (a = s \<and> s = k) + of_bool (s = b \<and> b = k) - of_bool (s = a \<and> a = k) =
      (2 * (of_bool (b = s \<and> s = k) - of_bool (a = s \<and> s = k)) :: int)"
    "of_bool (b \<noteq> s) - of_bool (a \<noteq> s) + of_bool (s \<noteq> b) - of_bool (s \<noteq> a) = (2 * (of_bool (s = a) - of_bool (s = b)) :: int)"
    "a \<noteq> b \<Longrightarrow> of_bool (b \<noteq> s \<and> s = k) - of_bool (a \<noteq> s \<and> s = k) + of_bool (s \<noteq> b \<and> b = k) - of_bool (s \<noteq> a \<and> a = k) +
      (of_bool (b = s \<and> s = k) - of_bool (a = s \<and> s = k)) = (if k = b then of_bool (s \<noteq> b) else 0) + - (if k = a then of_bool (s \<noteq> a) else 0 :: int)"
  by (cases "b = s"; cases "a = s"; cases "s = k"; simp)+

lemma fresh_counts_move:
  assumes "graph_ok g" "v \<in> VertexSet g" "v \<notin> set (edges g v)" "sh v \<noteq> b"
  shows "crossing g (sh(v := b)) k + inside g (sh(v := b)) k div 2 = crossing g sh k + inside g sh k div 2 +
      (if int k = b then \<Sum>u\<leftarrow>edges g v. of_bool (sh u \<noteq> b) else 0) - (if int k = sh v then \<Sum>u\<leftarrow>edges g v. of_bool (sh u \<noteq> sh v) else 0)"
    "cut_edges g (sh(v := b)) = cut_edges g sh + (\<Sum>u\<leftarrow>edges g v. of_bool (sh u = sh v) - of_bool (sh u = b))"
proof -
  have l: "links g v v = 0"
    using assms(3) by (simp add: links_def count_list_0_iff)
  note move = pairs_move [OF assms(1,2) l, of sh b]
  let ?S = "\<lambda>h. \<Sum>u\<leftarrow>edges g v. h (sh u) :: int"
  have c: "crossing g (sh(v := b)) k = crossing g sh k +
      ?S (\<lambda>s. of_bool (b \<noteq> s \<and> s = int k) - of_bool (sh v \<noteq> s \<and> s = int k) + of_bool (s \<noteq> b \<and> b = int k) - of_bool (s \<noteq> sh v \<and> sh v = int k))"
    unfolding crossing_def by (rule move)
  have "inside g (sh(v := b)) k = inside g sh k + ?S (\<lambda>s. 2 * (of_bool (b = s \<and> s = int k) - of_bool (sh v = s \<and> s = int k)))"
    unfolding inside_def by (subst move) (simp only: moved_pair(1))
  then have i: "inside g (sh(v := b)) k div 2 = inside g sh k div 2 + ?S (\<lambda>s. of_bool (b = s \<and> s = int k) - of_bool (sh v = s \<and> s = int k))"
    by (simp add: sum_list_const_mult del: right_diff_distrib_numeral)
  have "?S (\<lambda>s. of_bool (b \<noteq> s \<and> s = int k) - of_bool (sh v \<noteq> s \<and> s = int k) + of_bool (s \<noteq> b \<and> b = int k) - of_bool (s \<noteq> sh v \<and> sh v = int k)) +
      ?S (\<lambda>s. of_bool (b = s \<and> s = int k) - of_bool (sh v = s \<and> s = int k)) =
    ?S (\<lambda>s. (if int k = b then of_bool (s \<noteq> b) else 0) + - (if int k = sh v then of_bool (s \<noteq> sh v) else 0))"
    unfolding sum_list_addf [symmetric] moved_pair(3) [OF assms(4)] by (rule refl)
  then show "crossing g (sh(v := b)) k + inside g (sh(v := b)) k div 2 = crossing g sh k + inside g sh k div 2 +
      (if int k = b then \<Sum>u\<leftarrow>edges g v. of_bool (sh u \<noteq> b) else 0) - (if int k = sh v then \<Sum>u\<leftarrow>edges g v. of_bool (sh u \<noteq> sh v) else 0)"
    unfolding c i using assms(4) by (auto simp: sum_list_addf sum_list_subtractf)
  have "pairs g (sh(v := b)) (\<lambda>a b. of_bool (a \<noteq> b)) = pairs g sh (\<lambda>a b. of_bool (a \<noteq> b)) + ?S (\<lambda>s. 2 * (of_bool (s = sh v) - of_bool (s = b)))"
    by (subst move) (simp only: moved_pair(2))
  then show "cut_edges g (sh(v := b)) = cut_edges g sh + (\<Sum>u\<leftarrow>edges g v. of_bool (sh u = sh v) - of_bool (sh u = b))"
    by (simp add: cut_edges_def sum_list_const_mult del: right_diff_distrib_numeral)
qed

definition moved :: "Vertex \<Rightarrow> int \<Rightarrow> CLPAState \<Rightarrow> CLPAState" where
  "moved v b cs = cs\<lparr> cs_PartitionMap := (cs_PartitionMap cs)(v \<mapsto> b) \<rparr>"

lemma moved_simps [simp]:
  "shard_of (moved v b cs) = (shard_of cs)(v := b)" "NetGraph (moved v b cs) = NetGraph cs" "cs_ShardNum (moved v b cs) = cs_ShardNum cs"
  "Edges2Shard (moved v b cs) = Edges2Shard cs" "CrossShardEdgeNum (moved v b cs) = CrossShardEdgeNum cs"
  by (simp_all add: moved_def)

lemma changeShardRecompute_fresh:
  assumes "graph_ok (NetGraph cs)" "placed (cs_ShardNum cs) (shard_of cs) (VertexSet (NetGraph cs))"
    "Edges2Shard cs = fresh_counts (NetGraph cs) (shard_of cs) (cs_ShardNum cs)" "CrossShardEdgeNum cs = cut_edges (NetGraph cs) (shard_of cs)"
    "v \<in> VertexSet (NetGraph cs)" "v \<notin> set (edges (NetGraph cs) v)" "0 \<le> b" "b < int (cs_ShardNum cs)" "shard_of cs v \<noteq> b"
  shows "changeShardRecompute v (shard_of cs v) (moved v b cs) = Some ((moved v b cs)\<lparr>
     Edges2Shard := fresh_counts (NetGraph cs) ((shard_of cs)(v := b)) (cs_ShardNum cs), CrossShardEdgeNum := cut_edges (NetGraph cs) ((shard_of cs)(v := b)),
     MinEdges2Shard := smallest (fresh_counts (NetGraph cs) ((shard_of cs)(v := b)) (cs_ShardNum cs)) \<rparr>)"
proof -
  let ?g = "NetGraph cs" and ?sh = "shard_of cs" and ?n = "cs_ShardNum cs"
  have a: "0 \<le> ?sh v" "?sh v < int ?n"
    using assms(2,5) by (auto simp: placed_def)
  have nb: "map (\<lambda>u. h ((?sh(v := b)) u)) (edges ?g v) = map (\<lambda>u. h (?sh u)) (edges ?g v)" for h :: "int \<Rightarrow> int"
    using assms(6) by (intro map_cong) auto
  have "recompute_loop (?sh(v := b)) b (?sh v) (edges ?g v) (Edges2Shard cs, CrossShardEdgeNum cs) =
      Some (fresh_counts ?g (?sh(v := b)) ?n, cut_edges ?g (?sh(v := b)))"
    unfolding assms(3,4) fresh_counts_def recompute_loop_counts [OF assms(9) a assms(7,8)] fresh_counts_move [where sh = ?sh, OF assms(1,5,6,9)]
      nb [of "\<lambda>s. of_bool (s \<noteq> b)"] nb [of "\<lambda>s. of_bool (s \<noteq> ?sh v)"] nb [of "\<lambda>s. of_bool (s = ?sh v) - of_bool (s = b)"] by (rule refl)
  then show ?thesis
    by (simp add: changeShardRecompute_def)
qed

text \<open>C38: the fast update agrees with the full count. When a vertex without transactions to itself moves to another shard, in a state whose
  counts are those of its partition, \<open>changeShardRecompute\<close> returns and leaves the same state as \<open>ComputeEdges2Shard\<close>: the same edges of
  each shard, cross-shard edges and minimum, in whatever order the edges are visited.\<close>
theorem fast_recompute_agrees:
  assumes "graph_ok (NetGraph cs)" "edge_order (NetGraph cs) order" "placed (cs_ShardNum cs) (shard_of cs) (VertexSet (NetGraph cs))"
    and "ComputeEdges2Shard order0 cs0 = Some cs" "edge_order (NetGraph cs) order0"
    and "v \<in> VertexSet (NetGraph cs)" "v \<notin> set (edges (NetGraph cs) v)" "0 \<le> b" "b < int (cs_ShardNum cs)" "shard_of cs v \<noteq> b"
  shows "\<exists>cs'. changeShardRecompute v (shard_of cs v) (cs\<lparr> cs_PartitionMap := (cs_PartitionMap cs)(v \<mapsto> b) \<rparr>) = Some cs' \<and>
    ComputeEdges2Shard order (cs\<lparr> cs_PartitionMap := (cs_PartitionMap cs)(v \<mapsto> b) \<rparr>) = Some cs'"
proof -
  have same: "NetGraph cs = NetGraph cs0" "shard_of cs = shard_of cs0" "cs_ShardNum cs = cs_ShardNum cs0"
    using assms(4) by (auto simp: ComputeEdges2Shard_def shard_of_def Let_def split: Option.bind_splits)
  have "Edges2Shard cs = fresh_counts (NetGraph cs) (shard_of cs) (cs_ShardNum cs)" "CrossShardEdgeNum cs = cut_edges (NetGraph cs) (shard_of cs)"
    using ComputeEdges2Shard_fresh [of cs0 order0] assms(1,3,4,5) unfolding same by auto
  note fast = changeShardRecompute_fresh [OF assms(1,3) this assms(6-10)]
  have "placed (cs_ShardNum cs) ((shard_of cs)(v := b)) (VertexSet (NetGraph cs))"
    using assms(3,8,9) by (simp add: placed_def)
  then have "ComputeEdges2Shard order (moved v b cs) = changeShardRecompute v (shard_of cs v) (moved v b cs)"
    using ComputeEdges2Shard_fresh [of "moved v b cs" order] assms(1,2) fast by simp
  then show ?thesis
    using fast by (simp add: moved_def)
qed

section \<open>The algorithm\<close>

definition members :: "CLPAState \<Rightarrow> nat \<Rightarrow> Vertex set" where
  "members cs k = {v \<in> VertexSet (NetGraph cs). shard_of cs v = int k}"

definition loop_free :: "Graph \<Rightarrow> bool" where
  "loop_free g \<longleftrightarrow> (\<forall>v. v \<notin> set (edges g v))"

text \<open>A partition: every vertex has a shard and the vertex counts are right.\<close>

definition partition_ok :: "CLPAState \<Rightarrow> bool" where
  "partition_ok cs \<longleftrightarrow> graph_ok (NetGraph cs) \<and> loop_free (NetGraph cs) \<and> placed (cs_ShardNum cs) (shard_of cs) (VertexSet (NetGraph cs)) \<and>
     VertexsNumInShard cs = counts (cs_ShardNum cs) (\<lambda>k. int (card (members cs k)))"

definition edges_counted :: "CLPAState \<Rightarrow> bool" where
  "edges_counted cs \<longleftrightarrow> Edges2Shard cs = fresh_counts (NetGraph cs) (shard_of cs) (cs_ShardNum cs) \<and>
     CrossShardEdgeNum cs = cut_edges (NetGraph cs) (shard_of cs)"

lemma getShard_score_total:
  "length (Edges2Shard cs) = n \<Longrightarrow> 0 \<le> s \<Longrightarrow> s < int n \<Longrightarrow> \<exists>x. getShard_score v s cs = Some x"
  by (simp add: getShard_score_def int_at_def nat_less_iff Let_def)

lemma best_shard_total:
  assumes "length (Edges2Shard cs) = n" "placed n (shard_of cs) (set us)"
  shows "\<exists>best. best_shard v cs us seen m d = Some best \<and> (best = d \<or> best \<in> shard_of cs ` set us)"
  using assms(2)
proof (induction us arbitrary: seen m d)
  case (Cons u us)
  then have IH: "\<exists>best. best_shard v cs us seen m d = Some best \<and> (best = d \<or> best \<in> shard_of cs ` set us)" for seen m d
    by (simp add: placed_def)
  obtain x where "getShard_score v (shard_of cs u) cs = Some x"
    using getShard_score_total [OF assms(1), of "shard_of cs u" v] Cons.prems by (auto simp: placed_def)
  then show ?case
    using IH [of seen m d] IH [of "insert (shard_of cs u) seen" m d] IH [of "insert (shard_of cs u) seen" x "shard_of cs u"]
    by (auto simp: Let_def)
qed simp

lemma members_move:
  assumes "finite (VertexSet (NetGraph cs))" "v \<in> VertexSet (NetGraph cs)" "shard_of cs v \<noteq> b"
  shows "int (card (members (moved v b cs) k)) = int (card (members cs k)) + (if int k = shard_of cs v then - 1 else 0) + (if int k = b then 1 else 0)"
proof -
  have fin: "finite (members cs k)"
    using assms(1) by (simp add: members_def)
  consider "int k = b" | "int k = shard_of cs v" | "int k \<noteq> b" "int k \<noteq> shard_of cs v"
    by blast
  then show ?thesis
  proof cases
    case 1
    then have "members (moved v b cs) k = insert v (members cs k)" "v \<notin> members cs k"
      using assms(2,3) by (auto simp: members_def)
    then show ?thesis
      using 1 fin assms(3) by simp
  next
    case 2
    then have "members cs k = insert v (members (moved v b cs) k)" "v \<notin> members (moved v b cs) k"
      using assms(2,3) by (auto simp: members_def)
    then show ?thesis
      using 2 fin assms(3) by simp
  next
    case 3
    then have "members (moved v b cs) k = members cs k"
      by (auto simp: members_def)
    then show ?thesis
      using 3 by simp
  qed
qed

text \<open>The partition with which the algorithm started, and the moves recorded since.\<close>

definition recorded :: "CLPAState \<Rightarrow> CLPAState \<Rightarrow> (string \<rightharpoonup> uint64) \<Rightarrow> bool" where
  "recorded cs0 cs res \<longleftrightarrow> (\<forall>v. case res (Addr v) of None \<Rightarrow> shard_of cs v = shard_of cs0 v | Some s \<Rightarrow> s = of_int (shard_of cs v))"

definition clpa_inv :: "CLPAState \<Rightarrow> clpa \<Rightarrow> bool" where
  "clpa_inv cs0 = (\<lambda>(cs, res, upd). partition_ok cs \<and> edges_counted cs \<and> NetGraph cs = NetGraph cs0 \<and> cs_ShardNum cs = cs_ShardNum cs0 \<and>
     recorded cs0 cs res \<and> (\<forall>k. members cs0 k \<noteq> {} \<longrightarrow> members cs k \<noteq> {}) \<and> (\<forall>a. upd a \<le> 50))"

lemma vertex_eqI: "Addr v = Addr u \<Longrightarrow> v = (u :: Vertex)"
  by (cases v; cases u) simp

lemma recorded_move:
  assumes "recorded cs0 cs res" "shard_of cs' = (shard_of cs)(v := b)"
  shows "recorded cs0 cs' (res(Addr v \<mapsto> of_int b))"
  unfolding recorded_def
proof
  fix x
  show "case (res(Addr v \<mapsto> of_int b)) (Addr x) of None \<Rightarrow> shard_of cs' x = shard_of cs0 x | Some s \<Rightarrow> s = of_int (shard_of cs' x)"
  proof (cases "Addr x = Addr v")
    case True
    then show ?thesis
      using assms(2) by (simp add: vertex_eqI [OF True])
  next
    case False
    then have "shard_of cs' x = shard_of cs x"
      using assms(2) by auto
    then show ?thesis
      using False assms(1) [unfolded recorded_def, rule_format, of x] by (cases "res (Addr x)") simp_all
  qed
qed

text \<open>The state after a move.\<close>

definition after_move :: "Vertex \<Rightarrow> int \<Rightarrow> CLPAState \<Rightarrow> CLPAState" where
  "after_move v b cs = (let sh = (shard_of cs)(v := b); es = fresh_counts (NetGraph cs) sh (cs_ShardNum cs) in
     (moved v b cs)\<lparr> VertexsNumInShard := counts (cs_ShardNum cs) (\<lambda>k. int (card (members (moved v b cs) k))), Edges2Shard := es,
       CrossShardEdgeNum := cut_edges (NetGraph cs) sh, MinEdges2Shard := smallest es \<rparr>)"

lemma after_move_simps [simp]:
  "shard_of (after_move v b cs) = (shard_of cs)(v := b)" "NetGraph (after_move v b cs) = NetGraph cs" "cs_ShardNum (after_move v b cs) = cs_ShardNum cs"
  "members (after_move v b cs) = members (moved v b cs)"
  by (auto simp: after_move_def Let_def shard_of_def moved_def members_def fun_eq_iff)

lemma moved_nums: "moved v b (cs\<lparr> VertexsNumInShard := ns \<rparr>) = (moved v b cs)\<lparr> VertexsNumInShard := ns \<rparr>"
  by (cases cs) (simp add: moved_def)

lemma move_recomputes:
  assumes "partition_ok cs" "edges_counted cs" "v \<in> VertexSet (NetGraph cs)" "0 \<le> b" "b < int (cs_ShardNum cs)" "shard_of cs v \<noteq> b"
  shows "changeShardRecompute v (shard_of cs v)
     ((moved v b cs)\<lparr> VertexsNumInShard := counts (cs_ShardNum cs) (\<lambda>k. int (card (members (moved v b cs) k))) \<rparr>) = Some (after_move v b cs)"
proof -
  let ?cs = "cs\<lparr> VertexsNumInShard := counts (cs_ShardNum cs) (\<lambda>k. int (card (members (moved v b cs) k))) \<rparr>"
  have same: "NetGraph ?cs = NetGraph cs" "shard_of ?cs = shard_of cs" "cs_ShardNum ?cs = cs_ShardNum cs"
    by (simp_all add: shard_of_def fun_eq_iff)
  show ?thesis
    using changeShardRecompute_fresh [of ?cs v b] assms unfolding same moved_nums
    by (simp add: partition_ok_def loop_free_def edges_counted_def after_move_def Let_def)
qed

lemma after_move_ok:
  assumes "clpa_inv cs0 (cs, res, upd)" "v \<in> VertexSet (NetGraph cs0)" "0 \<le> b" "b < int (cs_ShardNum cs)" "shard_of cs v \<noteq> b"
    "1 < card (members cs (nat (shard_of cs v)))" "upd (Addr v) < 50"
  shows "clpa_inv cs0 (after_move v b cs, res(Addr v \<mapsto> of_int b), upd(Addr v := upd (Addr v) + 1))"
proof -
  have ok: "partition_ok cs" "NetGraph cs = NetGraph cs0" "cs_ShardNum cs = cs_ShardNum cs0" "recorded cs0 cs res"
    "\<And>k. members cs0 k \<noteq> {} \<Longrightarrow> members cs k \<noteq> {}" "\<And>a. upd a \<le> 50"
    using assms(1) by (auto simp: clpa_inv_def)
  have fin: "finite (VertexSet (NetGraph cs))" and v: "v \<in> VertexSet (NetGraph cs)" and a: "0 \<le> shard_of cs v"
    using ok(1,2) assms(2) by (auto simp: partition_ok_def graph_ok_def placed_def)
  have "partition_ok (after_move v b cs)"
    using ok(1) assms(3,4) by (auto simp: partition_ok_def placed_def after_move_def moved_def Let_def shard_of_def members_def)
  moreover have "edges_counted (after_move v b cs)"
    unfolding edges_counted_def after_move_simps by (simp add: after_move_def Let_def)
  moreover have "members (moved v b cs) k \<noteq> {}" if "members cs k \<noteq> {}" for k
  proof -
    have "0 < card (members cs k)"
      using that fin by (simp add: card_gt_0_iff members_def)
    moreover have "1 < card (members cs k)" if "int k = shard_of cs v"
      using that assms(6) by (metis nat_int)
    ultimately have "0 < int (card (members (moved v b cs) k))"
      using members_move [OF fin v assms(5), of k] by (auto split: if_splits)
    then show ?thesis
      by auto
  qed
  moreover have "recorded cs0 (after_move v b cs) (res(Addr v \<mapsto> of_int b))"
    by (rule recorded_move [OF ok(4)]) simp
  ultimately show ?thesis
    using ok assms(7) by (auto simp: clpa_inv_def)
qed

lemma clpa_vertex_ok:
  assumes "clpa_inv cs0 (cs, res, upd)" "v \<in> VertexSet (NetGraph cs0)"
  shows "\<exists>st. clpa_vertex v (cs, res, upd) = Some st \<and> clpa_inv cs0 st"
proof -
  let ?g = "NetGraph cs" and ?n = "cs_ShardNum cs" and ?a = "shard_of cs v"
  have ok: "partition_ok cs" "edges_counted cs" "?g = NetGraph cs0" "?n = cs_ShardNum cs0" "recorded cs0 cs res"
    "\<And>k. members cs0 k \<noteq> {} \<Longrightarrow> members cs k \<noteq> {}" "\<And>a. upd a \<le> 50"
    using assms(1) by (auto simp: clpa_inv_def)
  have g: "graph_ok ?g" "placed ?n (shard_of cs) (VertexSet ?g)" "v \<in> VertexSet ?g" "v \<notin> set (edges ?g v)" "finite (VertexSet ?g)"
    and nums: "VertexsNumInShard cs = counts ?n (\<lambda>k. int (card (members cs k)))"
    using ok(1,3) assms(2) by (auto simp: partition_ok_def loop_free_def graph_ok_def)
  have a: "0 \<le> ?a" "?a < int ?n" and nb: "placed ?n (shard_of cs) (set (edges ?g v))"
    using g by (auto simp: placed_def graph_ok_def)
  obtain b where best: "best_shard v cs (edges ?g v) {} (Finite (- 9999)) ?a = Some b" "b = ?a \<or> b \<in> shard_of cs ` set (edges ?g v)"
    using best_shard_total [OF _ nb, of v "{}" "Finite (- 9999)" ?a] ok(2) by (auto simp: edges_counted_def fresh_counts_def)
  show ?thesis
  proof (cases "50 \<le> upd (Addr v) \<or> ?a = b \<or> card (members cs (nat ?a)) \<le> 1")
    case True
    then have "clpa_vertex v (cs, res, upd) = Some (cs, res, upd)"
      using best(1) a by (auto simp: clpa_vertex_def nums int_at_counts Let_def)
    then show ?thesis
      using assms(1) by blast
  next
    case False
    then have b: "0 \<le> b" "b < int ?n"
      using best(2) nb by (auto simp: placed_def)
    let ?nums = "counts ?n (\<lambda>k. int (card (members (moved v b cs) k)))"
    obtain n1 where n1: "add_at ?a (- 1) (VertexsNumInShard cs) = Some n1" "add_at b 1 n1 = Some ?nums"
      using False members_move [OF g(5,3), of b] by (simp add: nums add_at_counts a b)
    have "clpa_vertex v (cs, res, upd) = Some (after_move v b cs, res(Addr v \<mapsto> of_int b), upd(Addr v := upd (Addr v) + 1))"
      using best(1) False n1 move_recomputes [OF ok(1,2) g(3) b] int_at_counts [OF a] by (simp add: clpa_vertex_def nums moved_def Let_def)
    then show ?thesis
      using after_move_ok [OF assms b] False by simp
  qed
qed

lemma clpa_round_ok:
  "clpa_inv cs0 st \<Longrightarrow> set vs \<subseteq> VertexSet (NetGraph cs0) \<Longrightarrow> \<exists>st'. clpa_round vs st = Some st' \<and> clpa_inv cs0 st'"
proof (induction vs arbitrary: st)
  case (Cons v vs)
  obtain cs res upd where st: "st = (cs, res, upd)"
    by (metis prod_cases3)
  obtain st1 where "clpa_vertex v st = Some st1" "clpa_inv cs0 st1"
    using clpa_vertex_ok [of cs0 cs res upd v] Cons.prems by (auto simp: st)
  then show ?case
    using Cons.IH [of st1] Cons.prems(2) by simp
qed simp

lemma clpa_rounds_ok:
  "clpa_inv cs0 st \<Longrightarrow> (\<forall>vs\<in>set orders. set vs \<subseteq> VertexSet (NetGraph cs0)) \<Longrightarrow> \<exists>st'. clpa_rounds orders st = Some st' \<and> clpa_inv cs0 st'"
proof (induction orders arbitrary: st)
  case (Cons vs orders)
  then show ?case
    using clpa_round_ok [of cs0 st vs] by fastforce
qed simp

lemma shard_of_counts [simp]: "shard_of (cs\<lparr> Edges2Shard := es, CrossShardEdgeNum := c, MinEdges2Shard := m \<rparr>) = shard_of cs"
  by (simp add: shard_of_def fun_eq_iff)

lemma partition_ok_counts [simp]:
  "members (cs\<lparr> Edges2Shard := es, CrossShardEdgeNum := c, MinEdges2Shard := m \<rparr>) = members cs"
  "partition_ok (cs\<lparr> Edges2Shard := es, CrossShardEdgeNum := c, MinEdges2Shard := m \<rparr>) = partition_ok cs"
  by (simp_all add: partition_ok_def members_def fun_eq_iff)


section \<open>Building graphs and starting partitions\<close>

lemma edges_append_edge: "edges (append_edge u v g) x = edges g x @ (if x = u then [v] else [])"
  by (auto simp: append_edge_def edges_def Let_def split: option.splits)

lemma AddEdge_graph_simps:
  "VertexSet (AddEdge_graph u v g) = insert u (insert v (VertexSet g))"
  "edges (AddEdge_graph u v g) x = edges g x @ (if x = u then [v] else []) @ (if x = v then [u] else [])"
proof -
  show "VertexSet (AddEdge_graph u v g) = insert u (insert v (VertexSet g))"
    by (auto simp: AddEdge_graph_def AddVertex_graph_def append_edge_def Let_def)
  have "edges (AddVertex_graph w g') = edges g'" for w g'
    by (simp add: AddVertex_graph_def edges_def fun_eq_iff)
  then show "edges (AddEdge_graph u v g) x = edges g x @ (if x = u then [v] else []) @ (if x = v then [u] else [])"
    by (simp add: AddEdge_graph_def edges_append_edge Let_def)
qed

lemma graph_ok_AddEdge: "graph_ok g \<Longrightarrow> graph_ok (AddEdge_graph u v g)"
  by (auto simp: graph_ok_def AddEdge_graph_simps links_def)

lemma loop_free_AddEdge: "loop_free g \<Longrightarrow> u \<noteq> v \<Longrightarrow> loop_free (AddEdge_graph u v g)"
  by (auto simp: loop_free_def AddEdge_graph_simps)

lemma init_vertices_ok:
  assumes "\<And>c v. v \<in> set vs \<Longrightarrow> \<exists>s. place c v = Some s \<and> 0 \<le> s \<and> s < int n" "distinct vs" "finite D" "set vs \<inter> D = {}"
    "\<And>v. v \<in> D \<Longrightarrow> \<exists>s. pm v = Some s \<and> 0 \<le> s \<and> s < int n"
  shows "\<exists>pm'. init_vertices place c vs (pm, counts n (\<lambda>k. int (card {v \<in> D. pm v = Some (int k)}))) =
      Some (pm', counts n (\<lambda>k. int (card {v \<in> set vs \<union> D. pm' v = Some (int k)}))) \<and>
    (\<forall>v\<in>set vs \<union> D. \<exists>s. pm' v = Some s \<and> 0 \<le> s \<and> s < int n) \<and>
    (\<forall>i<length vs. pm' (vs ! i) = place (c + i) (vs ! i)) \<and> (\<forall>v\<in>D. pm' v = pm v)"
  using assms
proof (induction vs arbitrary: c D pm)
  case (Cons v vs)
  obtain s where s: "place c v = Some s" "0 \<le> s" "s < int n"
    using Cons.prems(1) [of v c] by auto
  let ?pm = "pm(v \<mapsto> s)"
  have set: "{x \<in> insert v D. ?pm x = Some (int k)} = (if int k = s then insert v {x \<in> D. pm x = Some (int k)} else {x \<in> D. pm x = Some (int k)})" for k
    using Cons.prems(4) by auto
  have "v \<notin> D"
    using Cons.prems(4) by auto
  then have "int (card {x \<in> insert v D. ?pm x = Some (int k)}) = int (card {x \<in> D. pm x = Some (int k)}) + (if int k = s then 1 else 0)" for k
    using Cons.prems(3) unfolding set by simp
  then have add: "add_at s 1 (counts n (\<lambda>k. int (card {x \<in> D. pm x = Some (int k)}))) = Some (counts n (\<lambda>k. int (card {x \<in> insert v D. ?pm x = Some (int k)})))"
    using s(2,3) by (simp add: add_at_counts)
  obtain pm' where pm': "init_vertices place (c + 1) vs (?pm, counts n (\<lambda>k. int (card {x \<in> insert v D. ?pm x = Some (int k)}))) =
      Some (pm', counts n (\<lambda>k. int (card {x \<in> set vs \<union> insert v D. pm' x = Some (int k)})))"
    "\<forall>x\<in>set vs \<union> insert v D. \<exists>s. pm' x = Some s \<and> 0 \<le> s \<and> s < int n" "\<forall>i<length vs. pm' (vs ! i) = place (c + 1 + i) (vs ! i)"
    "\<forall>x\<in>insert v D. pm' x = ?pm x"
    using Cons.IH [of "insert v D" ?pm "c + 1"] Cons.prems s(2,3) \<open>v \<notin> D\<close> by fastforce
  have "pm' ((v # vs) ! i) = place (c + i) ((v # vs) ! i)" if "i < length (v # vs)" for i
    using that pm'(3,4) s(1) by (cases i) auto
  then show ?case
    using pm' s(1) add \<open>v \<notin> D\<close> by (intro exI [of _ pm']) auto
qed auto

text \<open>the stable start leaves no shard empty. When there are at least as many accounts as shards, \<open>Stable_Init_Partition\<close> returns
  a partition with right counts in which every shard has an account; with fewer accounts it returns its error and changes nothing.\<close>
theorem stable_start_fills_shards:
  assumes "graph_ok (NetGraph cs)" "loop_free (NetGraph cs)" "distinct vorder" "set vorder = VertexSet (NetGraph cs)"
    and "edge_order (NetGraph cs) eorder" "0 < cs_ShardNum cs"
  shows "if card (VertexSet (NetGraph cs)) < cs_ShardNum cs
    then Stable_Init_Partition vorder eorder cs = Some (Inl ''too many shards, number of shards should be less than nodes. '')
    else \<exists>cs'. Stable_Init_Partition vorder eorder cs = Some (Inr cs') \<and> partition_ok cs' \<and> NetGraph cs' = NetGraph cs \<and>
      (\<forall>k<cs_ShardNum cs. members cs' k \<noteq> {})"
proof (cases "card (VertexSet (NetGraph cs)) < cs_ShardNum cs")
  case False
  let ?n = "cs_ShardNum cs" and ?V = "VertexSet (NetGraph cs)"
  let ?place = "\<lambda>c v. if ?n = 0 then panic else Some (int (c mod ?n))"
  obtain pm where pm: "init_vertices ?place 0 vorder (Map.empty, counts ?n (\<lambda>k. 0)) = Some (pm, counts ?n (\<lambda>k. int (card {v \<in> ?V. pm v = Some (int k)})))"
    "\<forall>v\<in>?V. \<exists>s. pm v = Some s \<and> 0 \<le> s \<and> s < int ?n" "\<forall>i<length vorder. pm (vorder ! i) = ?place i (vorder ! i)"
    using init_vertices_ok [of vorder ?place ?n "{}" Map.empty 0] assms(3,4,6) by auto
  let ?cs = "cs\<lparr> cs_PartitionMap := pm, VertexsNumInShard := counts ?n (\<lambda>k. int (card {v \<in> ?V. pm v = Some (int k)})) \<rparr>"
  have sh: "shard_of ?cs v = s \<longleftrightarrow> pm v = Some s" if "v \<in> ?V" for v s
    using that pm(2) by (auto simp: shard_of_def split: option.splits)
  then have m: "members ?cs k = {v \<in> ?V. pm v = Some (int k)}" for k
    by (auto simp: members_def)
  have p: "placed ?n (shard_of ?cs) ?V"
    using pm(2) sh by (fastforce simp: placed_def)
  then have ok: "partition_ok ?cs"
    using assms(1,2) by (simp add: partition_ok_def m)
  have "members ?cs k \<noteq> {}" if "k < ?n" for k
  proof -
    have "k < length vorder"
      using that False assms(3,4) by (metis distinct_card linorder_not_less order_less_le_trans)
    then have "vorder ! k \<in> members ?cs k"
      using pm(3) that assms(4) nth_mem [of k vorder] by (auto simp: m)
    then show ?thesis
      by blast
  qed
  moreover obtain cs' where "ComputeEdges2Shard eorder ?cs = Some cs'" "partition_ok cs' = partition_ok ?cs" "members cs' = members ?cs"
    "NetGraph cs' = NetGraph cs"
    using ComputeEdges2Shard_fresh [of ?cs eorder] assms(1,5) p by simp
  ultimately show ?thesis
    using ok False pm(1) by (simp add: Stable_Init_Partition_def start_partition_def map_replicate_const)
qed (simp add: Stable_Init_Partition_def)

section \<open>Examples\<close>

definition vertex :: "string \<Rightarrow> Vertex" where "vertex s = \<lparr> Addr = s \<rparr>"

definition example_graph :: Graph where
  "example_graph = AddEdge_graph (vertex ''b'') (vertex ''c'') (AddEdge_graph (vertex ''a'') (vertex ''b'') \<lparr> VertexSet = {}, EdgeSet = None \<rparr>)"

definition example_clpa :: "Graph \<Rightarrow> CLPAState" where
  "example_clpa g = \<lparr> NetGraph = g, cs_PartitionMap = [vertex ''a'' \<mapsto> 0, vertex ''b'' \<mapsto> 1, vertex ''c'' \<mapsto> 1], Edges2Shard = [],
     VertexsNumInShard = [1, 2], WeightPenalty = 1 / 2, MinEdges2Shard = 0, MaxIterations = 3, CrossShardEdgeNum = 0, cs_ShardNum = 2, GraphHash = [] \<rparr>"

lemma vertex_eq [simp]: "vertex s = vertex t \<longleftrightarrow> s = t"
  by (simp add: vertex_def)

lemma example_graph_ok: "graph_ok example_graph" "loop_free example_graph" "VertexSet example_graph = {vertex ''a'', vertex ''b'', vertex ''c''}"
proof -
  have "graph_ok \<lparr> VertexSet = {}, EdgeSet = None \<rparr>" "loop_free \<lparr> VertexSet = {}, EdgeSet = None \<rparr>"
    by (simp_all add: graph_ok_def loop_free_def edges_def links_def)
  then show "graph_ok example_graph" "loop_free example_graph"
    by (simp_all add: example_graph_def graph_ok_AddEdge loop_free_AddEdge)
  show "VertexSet example_graph = {vertex ''a'', vertex ''b'', vertex ''c''}"
    by (auto simp: example_graph_def AddEdge_graph_simps)
qed

lemma edges_no_edges [simp]: "edges \<lparr> VertexSet = V, EdgeSet = None \<rparr> x = []"
  by (simp add: edges_def)

lemma example_edges: "edges example_graph x = (if x = vertex ''a'' then [vertex ''b''] else if x = vertex ''b'' then [vertex ''a'', vertex ''c'']
    else if x = vertex ''c'' then [vertex ''b''] else [])"
  by (simp add: example_graph_def AddEdge_graph_simps)

lemma example_order: "edge_order example_graph [vertex ''a'', vertex ''b'', vertex ''c'']"
  by (auto simp: edge_order_def example_edges example_graph_ok(3))

lemma example_partition_ok: "partition_ok (example_clpa example_graph)"
proof -
  have "members (example_clpa example_graph) 0 = {vertex ''a''}" "members (example_clpa example_graph) 1 = {vertex ''b'', vertex ''c''}"
    by (auto simp: members_def example_clpa_def example_graph_ok(3) shard_of_def)
  then show ?thesis
    using example_graph_ok by (auto simp: partition_ok_def placed_def example_clpa_def shard_of_def numeral_2_eq_2)
qed

theorem fast_recompute_agrees_witness:
  "\<exists>cs cs'. ComputeEdges2Shard [vertex ''a'', vertex ''b'', vertex ''c''] (example_clpa example_graph) = Some cs \<and>
     changeShardRecompute (vertex ''b'') 1 (cs\<lparr> cs_PartitionMap := (cs_PartitionMap cs)(vertex ''b'' \<mapsto> 0) \<rparr>) = Some cs' \<and>
     ComputeEdges2Shard [vertex ''c'', vertex ''b'', vertex ''a''] (cs\<lparr> cs_PartitionMap := (cs_PartitionMap cs)(vertex ''b'' \<mapsto> 0) \<rparr>) = Some cs'"
proof -
  let ?o = "[vertex ''a'', vertex ''b'', vertex ''c'']" and ?cs = "example_clpa example_graph"
  have g: "NetGraph ?cs = example_graph" "cs_ShardNum ?cs = 2" "shard_of ?cs (vertex ''b'') = 1"
    by (simp_all add: example_clpa_def shard_of_def)
  have p: "placed (cs_ShardNum ?cs) (shard_of ?cs) (VertexSet (NetGraph ?cs))"
    using example_partition_ok by (simp add: partition_ok_def)
  obtain cs where cs: "ComputeEdges2Shard ?o ?cs = Some cs" "shard_of cs = shard_of ?cs" "NetGraph cs = example_graph" "cs_ShardNum cs = 2"
    using ComputeEdges2Shard_fresh [OF _ _ p, of ?o] example_graph_ok(1) example_order by (simp add: g)
  have o: "edge_order example_graph [vertex ''c'', vertex ''b'', vertex ''a'']"
    using example_order by (auto simp: edge_order_def)
  have "\<exists>cs'. changeShardRecompute (vertex ''b'') (shard_of cs (vertex ''b'')) (cs\<lparr> cs_PartitionMap := (cs_PartitionMap cs)(vertex ''b'' \<mapsto> 0) \<rparr>) = Some cs' \<and>
    ComputeEdges2Shard [vertex ''c'', vertex ''b'', vertex ''a''] (cs\<lparr> cs_PartitionMap := (cs_PartitionMap cs)(vertex ''b'' \<mapsto> 0) \<rparr>) = Some cs'"
    by (rule fast_recompute_agrees [OF _ _ _ cs(1)])
      (use p g example_graph_ok example_order o in \<open>simp_all add: cs(2,3,4) example_edges\<close>)
  then show ?thesis
    using cs(1,2) g(3) by auto
qed


theorem stable_start_fills_shards_witness:
  "\<exists>cs'. Stable_Init_Partition [vertex ''a'', vertex ''b'', vertex ''c''] [vertex ''a'', vertex ''b'', vertex ''c''] (example_clpa example_graph) = Some (Inr cs') \<and>
     partition_ok cs' \<and> members cs' 0 \<noteq> {} \<and> members cs' 1 \<noteq> {}"
proof -
  let ?cs = "example_clpa example_graph"
  have g: "NetGraph ?cs = example_graph" "cs_ShardNum ?cs = 2"
    by (simp_all add: example_clpa_def)
  have "card (VertexSet example_graph) = 3"
    by (simp add: example_graph_ok(3))
  then show ?thesis
    using stable_start_fills_shards [of ?cs "[vertex ''a'', vertex ''b'', vertex ''c'']" "[vertex ''a'', vertex ''b'', vertex ''c'']"]
      example_graph_ok example_order by (auto simp: g)
qed

text \<open>With a transaction of an account to itself the fast update goes wrong, down to negative counts: the account with the loop
  moves from shard 0 to shard 1, where its only other neighbour is.\<close>

definition loop_graph :: Graph where
  "loop_graph = AddEdge_graph (vertex ''a'') (vertex ''b'') (AddEdge_graph (vertex ''a'') (vertex ''a'') \<lparr> VertexSet = {}, EdgeSet = None \<rparr>)"

theorem loops_break_fast_recompute:
  "\<exists>cs c1 c2. ComputeEdges2Shard [vertex ''a'', vertex ''b''] (example_clpa loop_graph) = Some cs \<and>
     changeShardRecompute (vertex ''a'') 0 (cs\<lparr> cs_PartitionMap := (cs_PartitionMap cs)(vertex ''a'' \<mapsto> 1) \<rparr>) = Some c1 \<and>
     ComputeEdges2Shard [vertex ''a'', vertex ''b''] (cs\<lparr> cs_PartitionMap := (cs_PartitionMap cs)(vertex ''a'' \<mapsto> 1) \<rparr>) = Some c2 \<and>
     (Edges2Shard c1, CrossShardEdgeNum c1) = ([- 1, 1], - 2) \<and> (Edges2Shard c2, CrossShardEdgeNum c2) = ([0, 2], 0)"
  by (simp add: ComputeEdges2Shard_def changeShardRecompute_def example_clpa_def loop_graph_def AddEdge_graph_simps shard_of_def add_at_def Let_def
      numeral_2_eq_2)

end
