(* ===== verification/Measure.thy ===== *)
theory Measure
  imports Committee Numbers
begin

text \<open>
  The measurement modules of \<open>supervisor/measure\<close>: what each one keeps per epoch, how a block report
  changes it and what it puts out at the end. Every module opens new epochs up to the one of the report and
  then indexes its slices with that epoch, so that a negative epoch panics. \<open>float64\<close> totals are rationals
  without rounding; a quotient may be infinite or not a number.

  The interface of the modules is the locale \<open>measure_module\<close>, interpreted on all nine of them; those whose
  count depends on the report alone also interpret \<open>counting_module\<close>.
\<close>

section \<open>Times\<close>

text \<open>\<open>Time.Sub\<close> saturates at the bounds of a \<open>Duration\<close>, which is an int64 of nanoseconds.\<close>

definition go_Sub :: "go_time \<Rightarrow> go_time \<Rightarrow> int" where
  "go_Sub t u = max (- (2 ^ 63)) (min (2 ^ 63 - 1) (t - u))"

definition Seconds :: "int \<Rightarrow> rat" where "Seconds d = rat_of_int d / 1000000000"

definition IsZero :: "go_time \<Rightarrow> bool" where "IsZero t \<longleftrightarrow> t = 0"

definition After :: "go_time \<Rightarrow> go_time \<Rightarrow> bool" where "After t u \<longleftrightarrow> u < t"

section \<open>Epochs\<close>

text \<open>The loop that opens epochs: \<open>grow\<close> appends a zero to each slice of the module.\<close>

function open_epochs :: "('s \<Rightarrow> 's) \<Rightarrow> int \<Rightarrow> int \<times> 's \<Rightarrow> int \<times> 's" where
  "open_epochs grow epochid (e, s) = (if e < epochid then open_epochs grow epochid (e + 1, grow s) else (e, s))"
  by pat_completeness auto
termination by (relation "measure (\<lambda>(grow, epochid, e, s). nat (epochid - e))") auto

declare open_epochs.simps [simp del]

definition grow1 :: "rat list \<Rightarrow> rat list" where "grow1 xs = xs @ [0]"
definition grow2 :: "rat list \<times> rat list \<Rightarrow> rat list \<times> rat list" where "grow2 = (\<lambda>(xs, ys). (xs @ [0], ys @ [0]))"

text \<open>The slices of a throughput module: counts, start times, end times.\<close>

type_synonym tps_slices = "rat list \<times> go_time list \<times> go_time list"

definition grow_tps :: "tps_slices \<Rightarrow> tps_slices" where
  "grow_tps = (\<lambda>(xs, st, en). (xs @ [0], st @ [0], en @ [0]))"

section \<open>Numbers of transactions\<close>

record TestTxNumCount =
  tn_epochID :: int
  tn_txNum :: "rat list"

definition NewTestTxNumCount_Relay :: TestTxNumCount where "NewTestTxNumCount_Relay = \<lparr> tn_epochID = - 1, tn_txNum = [] \<rparr>"
definition NewTestTxNumCount_Broker :: TestTxNumCount where "NewTestTxNumCount_Broker = \<lparr> tn_epochID = - 1, tn_txNum = [] \<rparr>"
definition NewTestTBlockTxInfo_Broker :: TestTxNumCount where "NewTestTBlockTxInfo_Broker = \<lparr> tn_epochID = - 1, tn_txNum = [] \<rparr>"

text \<open>Half the broker transactions of a report: each of the two halves of a transfer counts one half.\<close>

definition broker_halves :: "BlockInfoMsg \<Rightarrow> rat" where
  "broker_halves b = (of_nat (unat (Broker1TxNum b)) + of_nat (unat (Broker2TxNum b))) / 2"

definition TxNumCount_Relay_Update :: "BlockInfoMsg \<Rightarrow> TestTxNumCount \<Rightarrow> TestTxNumCount panics" where
  "TxNumCount_Relay_Update b ttnc =
     (if BlockBodyLength b = 0 then Some ttnc
      else do {
        let (e, nums) = open_epochs grow1 (Epoch b) (tn_epochID ttnc, tn_txNum ttnc);
        nums1 \<leftarrow> add_at (Epoch b) (of_nat (length (ExcutedTxs b))) nums;
        Some \<lparr> tn_epochID = e, tn_txNum = nums1 \<rparr> })"

definition TxNumCount_Broker_Update :: "BlockInfoMsg \<Rightarrow> TestTxNumCount \<Rightarrow> TestTxNumCount panics" where
  "TxNumCount_Broker_Update b ttnc =
     (if BlockBodyLength b = 0 then Some ttnc
      else do {
        let (e, nums) = open_epochs grow1 (Epoch b) (tn_epochID ttnc, tn_txNum ttnc);
        nums1 \<leftarrow> add_at (Epoch b) (of_nat (length (ExcutedTxs b)) + broker_halves b) nums;
        Some \<lparr> tn_epochID = e, tn_txNum = nums1 \<rparr> })"

definition BlockTxInfo_Broker_Update :: "BlockInfoMsg \<Rightarrow> TestTxNumCount \<Rightarrow> TestTxNumCount panics" where
  "BlockTxInfo_Broker_Update b ttnc =
     (if BlockBodyLength b = 0 then Some ttnc
      else do {
        let (e, nums) = open_epochs grow1 (Epoch b) (tn_epochID ttnc, tn_txNum ttnc);
        nums1 \<leftarrow> add_at (Epoch b) (of_nat (length (ExcutedTxs b)) + broker_halves b) nums;
        Some \<lparr> tn_epochID = e, tn_txNum = nums1 \<rparr> })"

definition TxNumCount_OutputRecord :: "TestTxNumCount \<Rightarrow> rat list \<times> rat" where
  "TxNumCount_OutputRecord ttnc =
     foldl (\<lambda>(perEpochCTXs, totTxNum) tn. (perEpochCTXs @ [tn], totTxNum + tn)) ([], 0) (tn_txNum ttnc)"

section \<open>Shares of cross-shard transactions\<close>

record TestCrossTxRate_Relay =
  cr_epochID :: int
  cr_totTxNum :: "rat list"
  cr_totCrossTxNum :: "rat list"
  relayTxRecord :: "bytes \<rightharpoonup> bool"

definition NewTestCrossTxRate_Relay :: TestCrossTxRate_Relay where
  "NewTestCrossTxRate_Relay = \<lparr> cr_epochID = - 1, cr_totTxNum = [], cr_totCrossTxNum = [], relayTxRecord = Map.empty \<rparr>"

fun rate_relay1 :: "int \<Rightarrow> Transaction list \<Rightarrow> (bytes \<rightharpoonup> bool) \<times> rat list \<times> rat list \<Rightarrow> ((bytes \<rightharpoonup> bool) \<times> rat list \<times> rat list) panics" where
  "rate_relay1 epochid [] s = Some s"
| "rate_relay1 epochid (r1tx # txs) (rec, tot, cross) = do {
     cross1 \<leftarrow> add_at epochid (1 / 2) cross;
     tot1 \<leftarrow> add_at epochid (1 / 2) tot;
     rate_relay1 epochid txs (rec(TxHash r1tx \<mapsto> True), tot1, cross1) }"

fun rate_excuted :: "int \<Rightarrow> (bytes \<rightharpoonup> bool) \<Rightarrow> Transaction list \<Rightarrow> rat list \<times> rat list \<Rightarrow> (rat list \<times> rat list) panics" where
  "rate_excuted epochid rec [] s = Some s"
| "rate_excuted epochid rec (tx # txs) (tot, cross) =
     (if rec (TxHash tx) = None
      then do { tot1 \<leftarrow> add_at epochid 1 tot; rate_excuted epochid rec txs (tot1, cross) }
      else do { tot1 \<leftarrow> add_at epochid (1 / 2) tot; cross1 \<leftarrow> add_at epochid (1 / 2) cross;
                rate_excuted epochid rec txs (tot1, cross1) })"

definition CrossTxRate_Relay_Update :: "BlockInfoMsg \<Rightarrow> TestCrossTxRate_Relay \<Rightarrow> TestCrossTxRate_Relay panics" where
  "CrossTxRate_Relay_Update b tctr =
     (if BlockBodyLength b = 0 then Some tctr
      else do {
        let (e, tot, cross) = open_epochs grow2 (Epoch b) (cr_epochID tctr, cr_totTxNum tctr, cr_totCrossTxNum tctr);
        (rec, tot1, cross1) \<leftarrow> rate_relay1 (Epoch b) (Relay1Txs b) (relayTxRecord tctr, tot, cross);
        (tot2, cross2) \<leftarrow> rate_excuted (Epoch b) rec (ExcutedTxs b) (tot1, cross1);
        Some \<lparr> cr_epochID = e, cr_totTxNum = tot2, cr_totCrossTxNum = cross2, relayTxRecord = rec \<rparr> })"

record TestCrossTxRate_Broker =
  cb_epochID :: int
  cb_totTxNum :: "rat list"
  cb_totCrossTxNum :: "rat list"
  b2num :: "64 word"
  b1num :: "64 word"

definition NewTestCrossTxRate_Broker :: TestCrossTxRate_Broker where
  "NewTestCrossTxRate_Broker = \<lparr> cb_epochID = - 1, cb_totTxNum = [], cb_totCrossTxNum = [], b2num = 0, b1num = 0 \<rparr>"

definition CrossTxRate_Broker_Update :: "BlockInfoMsg \<Rightarrow> TestCrossTxRate_Broker \<Rightarrow> TestCrossTxRate_Broker panics" where
  "CrossTxRate_Broker_Update b tctr =
     (if BlockBodyLength b = 0 then Some tctr
      else do {
        let (e, tot, cross) = open_epochs grow2 (Epoch b) (cb_epochID tctr, cb_totTxNum tctr, cb_totCrossTxNum tctr);
        cross1 \<leftarrow> add_at (Epoch b) (broker_halves b) cross;
        tot1 \<leftarrow> add_at (Epoch b) (of_nat (length (ExcutedTxs b)) + broker_halves b) tot;
        Some \<lparr> cb_epochID = e, cb_totTxNum = tot1, cb_totCrossTxNum = cross1,
               b2num = b2num tctr + Broker2TxNum b, b1num = b1num tctr + Broker1TxNum b \<rparr> })"

text \<open>The loop of both \<open>OutputRecord\<close>s, then the two sums and the quotient; the broker module also prints
  its two counters.\<close>

fun rate_loop :: "rat list \<Rightarrow> nat \<Rightarrow> rat list \<Rightarrow> float64 list \<times> rat \<times> rat \<Rightarrow> (float64 list \<times> rat \<times> rat) panics" where
  "rate_loop cross eid [] s = Some s"
| "rate_loop cross eid (totTxN # tot) (per, all, ctx) = do {
     c \<leftarrow> int_at (int eid) cross;
     rate_loop cross (Suc eid) tot (per @ [float_div c totTxN], all + totTxN, ctx + c) }"

definition CrossTxRate_OutputRecord :: "rat list \<Rightarrow> rat list \<Rightarrow> (float64 list \<times> float64) panics" where
  "CrossTxRate_OutputRecord tot cross = do {
     (per, allEpoch_totTxNum, allEpoch_ctxNum) \<leftarrow> rate_loop cross 0 tot ([], 0, 0);
     Some (per @ [Finite allEpoch_totTxNum] @ [Finite allEpoch_ctxNum], float_div allEpoch_ctxNum allEpoch_totTxNum) }"

section \<open>Latencies\<close>

record TestModule_TCL_Relay =
  tl_epochID :: int
  tl_totTxLatencyEpoch :: "rat list"
  tl_txNum :: "rat list"

definition NewTestModule_TCL_Relay :: TestModule_TCL_Relay where
  "NewTestModule_TCL_Relay = \<lparr> tl_epochID = - 1, tl_totTxLatencyEpoch = [], tl_txNum = [] \<rparr>"

text \<open>The loop over the executed transactions; the slices are those of the numbers and of the latencies.\<close>

fun tcl_excuted :: "int \<Rightarrow> go_time \<Rightarrow> Transaction list \<Rightarrow> rat list \<times> rat list \<Rightarrow> (rat list \<times> rat list) panics" where
  "tcl_excuted epochid mTime [] s = Some s"
| "tcl_excuted epochid mTime (tx # txs) (nums, lats) =
     (if IsZero (Time tx) then tcl_excuted epochid mTime txs (nums, lats)
      else do {
        lats1 \<leftarrow> add_at epochid (Seconds (go_Sub mTime (Time tx))) lats;
        nums1 \<leftarrow> add_at epochid 1 nums;
        tcl_excuted epochid mTime txs (nums1, lats1) })"

definition TCL_Relay_Update :: "BlockInfoMsg \<Rightarrow> TestModule_TCL_Relay \<Rightarrow> TestModule_TCL_Relay panics" where
  "TCL_Relay_Update b tml =
     (if BlockBodyLength b = 0 then Some tml
      else do {
        let (e, s) = open_epochs grow2 (Epoch b) (tl_epochID tml, tl_txNum tml, tl_totTxLatencyEpoch tml);
        (nums, lats) \<leftarrow> tcl_excuted (Epoch b) (CommitTime b) (ExcutedTxs b) s;
        Some \<lparr> tl_epochID = e, tl_totTxLatencyEpoch = lats, tl_txNum = nums \<rparr> })"

record TestModule_TCL_Broker =
  tb_epochID :: int
  tb_totTxLatencyEpoch :: "rat list"
  tb_txNum :: "rat list"
  brokerTxMap :: "bytes \<rightharpoonup> go_time"

definition NewTestModule_TCL_Broker :: TestModule_TCL_Broker where
  "NewTestModule_TCL_Broker = \<lparr> tb_epochID = - 1, tb_totTxLatencyEpoch = [], tb_txNum = [], brokerTxMap = Map.empty \<rparr>"

fun tcl_broker2 :: "int \<Rightarrow> go_time \<Rightarrow> (bytes \<rightharpoonup> go_time) \<Rightarrow> Transaction list \<Rightarrow> rat list \<Rightarrow> rat list panics" where
  "tcl_broker2 epochid pTime m [] lats = Some lats"
| "tcl_broker2 epochid pTime m (b2tx # txs) lats =
     (case m (RawTxHash b2tx) of
        None \<Rightarrow> tcl_broker2 epochid pTime m txs lats
      | Some t \<Rightarrow> do { lats1 \<leftarrow> add_at epochid (Seconds (go_Sub pTime t)) lats; tcl_broker2 epochid pTime m txs lats1 })"

definition TCL_Broker_Update :: "BlockInfoMsg \<Rightarrow> TestModule_TCL_Broker \<Rightarrow> TestModule_TCL_Broker panics" where
  "TCL_Broker_Update b tml =
     (if BlockBodyLength b = 0 then Some tml
      else do {
        let (e, s) = open_epochs grow2 (Epoch b) (tb_epochID tml, tb_txNum tml, tb_totTxLatencyEpoch tml);
        (nums, lats) \<leftarrow> tcl_excuted (Epoch b) (CommitTime b) (ExcutedTxs b) s;
        let m = foldl (\<lambda>m b1tx. m(RawTxHash b1tx \<mapsto> Time b1tx)) (brokerTxMap tml) (Broker1Txs b);
        lats1 \<leftarrow> tcl_broker2 (Epoch b) (ProposeTime b) m (Broker2Txs b) lats;
        Some \<lparr> tb_epochID = e, tb_totTxLatencyEpoch = lats1, tb_txNum = nums, brokerTxMap = m \<rparr> })"

fun tcl_loop :: "rat list \<Rightarrow> nat \<Rightarrow> rat list \<Rightarrow> float64 list \<times> rat \<times> rat \<Rightarrow> (float64 list \<times> rat \<times> rat) panics" where
  "tcl_loop nums eid [] s = Some s"
| "tcl_loop nums eid (totLatency # lats) (per, latencySum, totTxNum) = do {
     n \<leftarrow> int_at (int eid) nums;
     tcl_loop nums (Suc eid) lats (per @ [float_div totLatency n], latencySum + totLatency, totTxNum + n) }"

definition TCL_OutputRecord :: "rat list \<Rightarrow> rat list \<Rightarrow> (float64 list \<times> float64) panics" where
  "TCL_OutputRecord lats nums = do {
     (per, latencySum, totTxNum) \<leftarrow> tcl_loop nums 0 lats ([], 0, 0);
     Some (per, float_div latencySum totTxNum) }"

section \<open>Throughput\<close>

record TestModule_avgTPS_Relay =
  ar_epochID :: int
  ar_excutedTxNum :: "rat list"
  relayTx :: "bytes \<rightharpoonup> bool"
  ar_startTime :: "go_time list"
  ar_endTime :: "go_time list"

definition NewTestModule_avgTPS_Relay :: TestModule_avgTPS_Relay where
  "NewTestModule_avgTPS_Relay =
     \<lparr> ar_epochID = - 1, ar_excutedTxNum = [], relayTx = Map.empty, ar_startTime = [], ar_endTime = [] \<rparr>"

record TestModule_avgTPS_Broker =
  ab_epochID :: int
  ab_excutedTxNum :: "rat list"
  ab_startTime :: "go_time list"
  ab_endTime :: "go_time list"

definition NewTestModule_avgTPS_Broker :: TestModule_avgTPS_Broker where
  "NewTestModule_avgTPS_Broker = \<lparr> ab_epochID = - 1, ab_excutedTxNum = [], ab_startTime = [], ab_endTime = [] \<rparr>"

fun tps_excuted :: "int \<Rightarrow> (bytes \<rightharpoonup> bool) \<Rightarrow> Transaction list \<Rightarrow> rat list \<Rightarrow> rat list panics" where
  "tps_excuted epochid rec [] nums = Some nums"
| "tps_excuted epochid rec (tx # txs) nums =
     (if rec (TxHash tx) \<noteq> None
      then do { nums1 \<leftarrow> add_at epochid (1 / 2) nums; tps_excuted epochid rec txs nums1 }
      else do { nums1 \<leftarrow> add_at epochid 1 nums; tps_excuted epochid rec txs nums1 })"

text \<open>The start of an epoch is the earliest proposal, its end the latest commit.\<close>

definition tps_times :: "int \<Rightarrow> go_time \<Rightarrow> go_time \<Rightarrow> go_time list \<times> go_time list \<Rightarrow> (go_time list \<times> go_time list) panics" where
  "tps_times epochid earliestTime latestTime = (\<lambda>(st, en). do {
     s \<leftarrow> int_at epochid st;
     st1 \<leftarrow> (if IsZero s \<or> After s earliestTime then set_at epochid earliestTime st else Some st);
     e \<leftarrow> int_at epochid en;
     en1 \<leftarrow> (if IsZero e \<or> After latestTime e then set_at epochid latestTime en else Some en);
     Some (st1, en1) })"

definition avgTPS_Relay_Update :: "BlockInfoMsg \<Rightarrow> TestModule_avgTPS_Relay \<Rightarrow> TestModule_avgTPS_Relay panics" where
  "avgTPS_Relay_Update b tat =
     (if BlockBodyLength b = 0 then Some tat
      else do {
        let (e, nums, st, en) = open_epochs grow_tps (Epoch b) (ar_epochID tat, ar_excutedTxNum tat, ar_startTime tat, ar_endTime tat);
        let rec = foldl (\<lambda>m tx. m(TxHash tx \<mapsto> True)) (relayTx tat) (Relay1Txs b);
        nums1 \<leftarrow> add_at (Epoch b) (of_nat (unat (Relay1TxNum b)) / 2) nums;
        nums2 \<leftarrow> tps_excuted (Epoch b) rec (ExcutedTxs b) nums1;
        (st1, en1) \<leftarrow> tps_times (Epoch b) (ProposeTime b) (CommitTime b) (st, en);
        Some \<lparr> ar_epochID = e, ar_excutedTxNum = nums2, relayTx = rec, ar_startTime = st1, ar_endTime = en1 \<rparr> })"

definition avgTPS_Broker_Update :: "BlockInfoMsg \<Rightarrow> TestModule_avgTPS_Broker \<Rightarrow> TestModule_avgTPS_Broker panics" where
  "avgTPS_Broker_Update b tat =
     (if BlockBodyLength b = 0 then Some tat
      else do {
        let (e, nums, st, en) = open_epochs grow_tps (Epoch b) (ab_epochID tat, ab_excutedTxNum tat, ab_startTime tat, ab_endTime tat);
        nums1 \<leftarrow> add_at (Epoch b) (of_nat (length (ExcutedTxs b)) + broker_halves b) nums;
        (st1, en1) \<leftarrow> tps_times (Epoch b) (ProposeTime b) (CommitTime b) (st, en);
        Some \<lparr> ab_epochID = e, ab_excutedTxNum = nums1, ab_startTime = st1, ab_endTime = en1 \<rparr> })"

text \<open>The loop of both \<open>OutputRecord\<close>s: throughput per epoch, number of transactions, earliest start and
  latest end.\<close>

fun tps_loop ::
  "go_time list \<Rightarrow> go_time list \<Rightarrow> nat \<Rightarrow> rat list \<Rightarrow> float64 list \<times> rat \<times> go_time \<times> go_time
     \<Rightarrow> (float64 list \<times> rat \<times> go_time \<times> go_time) panics" where
  "tps_loop st en eid [] s = Some s"
| "tps_loop st en eid (exTxNum # nums) (per, totalTxNum, eTime, lTime) = do {
     e \<leftarrow> int_at (int eid) en;
     s \<leftarrow> int_at (int eid) st;
     let timeGap = Seconds (go_Sub e s);
     per1 \<leftarrow> set_at (int eid) (float_div exTxNum timeGap) per;
     tps_loop st en (Suc eid) nums
       (per1, totalTxNum + exTxNum, (if After eTime s then s else eTime), (if After e lTime then e else lTime)) }"

definition avgTPS_OutputRecord ::
  "go_time \<Rightarrow> int \<Rightarrow> rat list \<Rightarrow> go_time list \<Rightarrow> go_time list \<Rightarrow> (float64 list \<times> float64) panics" where
  "avgTPS_OutputRecord now epochID nums st en =
     (if epochID + 1 < 0 then panic
      else do {
        (per, totalTxNum, eTime, lTime) \<leftarrow> tps_loop st en 0 nums (replicate (nat (epochID + 1)) (Finite 0), 0, now, 0);
        Some (per, float_div totalTxNum (Seconds (go_Sub lTime eTime))) })"

section \<open>The interface\<close>

text \<open>The values of the interface \<open>MeasureModule\<close> that the supervisor creates, and the calls through it.
  \<open>HandleExtraMessage\<close> does nothing in every module.\<close>

datatype MeasureModule =
    TPS_Relay TestModule_avgTPS_Relay
  | TPS_Broker TestModule_avgTPS_Broker
  | TCL_Relay TestModule_TCL_Relay
  | TCL_Broker TestModule_TCL_Broker
  | CrossTxRate_Relay TestCrossTxRate_Relay
  | CrossTxRate_Broker TestCrossTxRate_Broker
  | TxNumberCount_Relay TestTxNumCount
  | TxNumberCount_Broker TestTxNumCount
  | BlockTxInfo_Broker TestTxNumCount

fun UpdateMeasureRecord :: "BlockInfoMsg \<Rightarrow> MeasureModule \<Rightarrow> MeasureModule panics" where
  "UpdateMeasureRecord b (TPS_Relay m) = map_option TPS_Relay (avgTPS_Relay_Update b m)"
| "UpdateMeasureRecord b (TPS_Broker m) = map_option TPS_Broker (avgTPS_Broker_Update b m)"
| "UpdateMeasureRecord b (TCL_Relay m) = map_option TCL_Relay (TCL_Relay_Update b m)"
| "UpdateMeasureRecord b (TCL_Broker m) = map_option TCL_Broker (TCL_Broker_Update b m)"
| "UpdateMeasureRecord b (CrossTxRate_Relay m) = map_option CrossTxRate_Relay (CrossTxRate_Relay_Update b m)"
| "UpdateMeasureRecord b (CrossTxRate_Broker m) = map_option CrossTxRate_Broker (CrossTxRate_Broker_Update b m)"
| "UpdateMeasureRecord b (TxNumberCount_Relay m) = map_option TxNumberCount_Relay (TxNumCount_Relay_Update b m)"
| "UpdateMeasureRecord b (TxNumberCount_Broker m) = map_option TxNumberCount_Broker (TxNumCount_Broker_Update b m)"
| "UpdateMeasureRecord b (BlockTxInfo_Broker m) = map_option BlockTxInfo_Broker (BlockTxInfo_Broker_Update b m)"

definition count_record :: "TestTxNumCount \<Rightarrow> (float64 list \<times> float64) panics" where
  "count_record m = Some (map_prod (map Finite) Finite (TxNumCount_OutputRecord m))"

fun OutputRecord :: "go_time \<Rightarrow> MeasureModule \<Rightarrow> (float64 list \<times> float64) panics" where
  "OutputRecord now (TPS_Relay m) = avgTPS_OutputRecord now (ar_epochID m) (ar_excutedTxNum m) (ar_startTime m) (ar_endTime m)"
| "OutputRecord now (TPS_Broker m) = avgTPS_OutputRecord now (ab_epochID m) (ab_excutedTxNum m) (ab_startTime m) (ab_endTime m)"
| "OutputRecord now (TCL_Relay m) = TCL_OutputRecord (tl_totTxLatencyEpoch m) (tl_txNum m)"
| "OutputRecord now (TCL_Broker m) = TCL_OutputRecord (tb_totTxLatencyEpoch m) (tb_txNum m)"
| "OutputRecord now (CrossTxRate_Relay m) = CrossTxRate_OutputRecord (cr_totTxNum m) (cr_totCrossTxNum m)"
| "OutputRecord now (CrossTxRate_Broker m) = CrossTxRate_OutputRecord (cb_totTxNum m) (cb_totCrossTxNum m)"
| "OutputRecord now (TxNumberCount_Relay m) = count_record m"
| "OutputRecord now (TxNumberCount_Broker m) = count_record m"
| "OutputRecord now (BlockTxInfo_Broker m) = count_record m"

fun OutputMetricName :: "MeasureModule \<Rightarrow> string" where
  "OutputMetricName (TPS_Relay m) = ''Average_TPS''"
| "OutputMetricName (TPS_Broker m) = ''Average_TPS''"
| "OutputMetricName (TCL_Relay m) = ''Transaction_Confirm_Latency''"
| "OutputMetricName (TCL_Broker m) = ''Transaction_Confirm_Latency''"
| "OutputMetricName (CrossTxRate_Relay m) = ''CrossTransaction_ratio''"
| "OutputMetricName (CrossTxRate_Broker m) = ''CrossTransaction_ratio''"
| "OutputMetricName (TxNumberCount_Relay m) = ''Tx_number''"
| "OutputMetricName (TxNumberCount_Broker m) = ''Tx_number''"
| "OutputMetricName (BlockTxInfo_Broker m) = ''Tx_number''"

text \<open>A module fed with a list of reports.\<close>

fun run_reports :: "('b \<Rightarrow> 'm \<Rightarrow> 'm panics) \<Rightarrow> 'b list \<Rightarrow> 'm \<Rightarrow> 'm panics" where
  "run_reports Update [] m = Some m"
| "run_reports Update (b # bs) m = do { m1 \<leftarrow> Update b m; run_reports Update bs m1 }"

section \<open>Epochs stay in step\<close>

lemma open_epochs_closed: "open_epochs grow k (e, s) = (max e k, (grow ^^ nat (k - e)) s)"
proof (induction grow k "(e, s)" arbitrary: e s rule: open_epochs.induct)
  case (1 grow k e s)
  show ?case
  proof (cases "e < k")
    case True
    then have "nat (k - e) = Suc (nat (k - (e + 1)))"
      by simp
    then show ?thesis
      using 1 True by (subst open_epochs.simps) (simp add: funpow_swap1)
  qed (simp add: open_epochs.simps max_def)
qed

lemma grow_pow:
  "(grow1 ^^ n) xs = xs @ replicate n 0"
  "(grow2 ^^ n) (xs, ys) = (xs @ replicate n 0, ys @ replicate n 0)"
  "(grow_tps ^^ n) (xs, st, en) = (xs @ replicate n 0, st @ replicate n 0, en @ replicate n 0)"
  by (induction n) (simp_all add: grow1_def grow2_def grow_tps_def replicate_append_same)

text \<open>\<open>k\<close> slots are in step with the last epoch \<open>e\<close>.\<close>

definition epochs_ok :: "int \<Rightarrow> nat \<Rightarrow> bool" where
  "epochs_ok e k \<longleftrightarrow> int k = e + 1"

lemma epochs_ok_open:
  "epochs_ok e k \<Longrightarrow> 0 \<le> i \<Longrightarrow> epochs_ok (max e i) (k + nat (i - e)) \<and> i < int (k + nat (i - e))"
  by (auto simp: epochs_ok_def)

text \<open>An addition at an index, and the loops of the modules as one addition each.\<close>

definition bump :: "int \<Rightarrow> rat \<Rightarrow> rat list \<Rightarrow> rat list" where
  "bump i d xs = xs[nat i := xs ! nat i + d]"

definition in_range :: "int \<Rightarrow> 'a list \<Rightarrow> bool" where
  "in_range i xs \<longleftrightarrow> 0 \<le> i \<and> i < int (length xs)"

lemma bump_simps [simp]:
  "length (bump i d xs) = length xs" "bump i 0 xs = xs" "bump i c (bump i d xs) = bump i (c + d) xs"
  "in_range i (bump j d xs) = in_range i xs"
  by (simp_all add: bump_def in_range_def) (cases "nat i < length xs"; simp add: ac_simps list_update_beyond)

lemma at_simps [simp]:
  "in_range i xs \<Longrightarrow> add_at i d xs = Some (bump i d xs)"
  "in_range i ys \<Longrightarrow> int_at i ys = Some (ys ! nat i)"
  "in_range i ys \<Longrightarrow> set_at i y ys = Some (ys[nat i := y])"
  by (simp_all add: in_range_def bump_def add_at_in_range at_in_range)

lemma sum_list_bump [simp]: "in_range i xs \<Longrightarrow> sum_list (bump i d xs) = sum_list xs + d"
proof -
  have "k < length xs \<Longrightarrow> sum_list (xs[k := xs ! k + d]) = sum_list xs + d" for k
    by (induction xs arbitrary: k) (auto simp: less_Suc_eq_0_disj split: nat.splits)
  then show "in_range i xs \<Longrightarrow> ?thesis"
    by (simp add: bump_def in_range_def nat_less_iff)
qed

definition mark :: "(bytes \<rightharpoonup> bool) \<Rightarrow> Transaction list \<Rightarrow> bytes \<rightharpoonup> bool" where
  "mark rec txs = foldl (\<lambda>m tx. m(TxHash tx \<mapsto> True)) rec txs"

definition excuted_weight :: "(bytes \<rightharpoonup> bool) \<Rightarrow> Transaction list \<Rightarrow> rat" where
  "excuted_weight rec txs = (\<Sum>tx\<leftarrow>txs. if rec (TxHash tx) = None then 1 else 1 / 2)"

definition cross_weight :: "(bytes \<rightharpoonup> bool) \<Rightarrow> Transaction list \<Rightarrow> rat" where
  "cross_weight rec txs = (\<Sum>tx\<leftarrow>txs. if rec (TxHash tx) = None then 0 else 1 / 2)"

definition stamped :: "Transaction list \<Rightarrow> Transaction list" where
  "stamped txs = filter (\<lambda>tx. \<not> IsZero (Time tx)) txs"

definition latencies :: "go_time \<Rightarrow> Transaction list \<Rightarrow> rat" where
  "latencies t txs = (\<Sum>tx\<leftarrow>stamped txs. Seconds (go_Sub t (Time tx)))"

definition broker_latencies :: "go_time \<Rightarrow> (bytes \<rightharpoonup> go_time) \<Rightarrow> Transaction list \<Rightarrow> rat" where
  "broker_latencies t m txs = (\<Sum>tx\<leftarrow>txs. case m (RawTxHash tx) of None \<Rightarrow> 0 | Some s \<Rightarrow> Seconds (go_Sub t s))"

lemma rate_relay1_sum [simp]:
  "in_range i tot \<Longrightarrow> in_range i cross \<Longrightarrow> rate_relay1 i txs (rec, tot, cross) =
     Some (mark rec txs, bump i (of_nat (length txs) / 2) tot, bump i (of_nat (length txs) / 2) cross)"
  by (induction txs arbitrary: rec tot cross) (simp_all add: mark_def add_divide_distrib add.commute)

lemma rate_excuted_sum [simp]:
  "in_range i tot \<Longrightarrow> in_range i cross \<Longrightarrow> rate_excuted i rec txs (tot, cross) =
     Some (bump i (excuted_weight rec txs) tot, bump i (cross_weight rec txs) cross)"
  by (induction txs arbitrary: tot cross) (simp_all add: excuted_weight_def cross_weight_def add.commute)

lemma tps_excuted_sum [simp]:
  "in_range i nums \<Longrightarrow> tps_excuted i rec txs nums = Some (bump i (excuted_weight rec txs) nums)"
  by (induction txs arbitrary: nums) (simp_all add: excuted_weight_def add.commute)

lemma tcl_excuted_sum [simp]:
  "in_range i nums \<Longrightarrow> in_range i lats \<Longrightarrow> tcl_excuted i t txs (nums, lats) =
     Some (bump i (of_nat (length (stamped txs))) nums, bump i (latencies t txs) lats)"
  by (induction txs arbitrary: nums lats) (simp_all add: stamped_def latencies_def add.commute)

lemma tcl_broker2_sum [simp]:
  "in_range i lats \<Longrightarrow> tcl_broker2 i t m txs lats = Some (bump i (broker_latencies t m txs) lats)"
  by (induction txs arbitrary: lats) (simp_all add: broker_latencies_def add.commute split: option.splits)

section \<open>The interface of a module\<close>

text \<open>What the supervisor relies on: a well-formed module accepts every report of a proper epoch and stays
  well-formed, and empty blocks change nothing.\<close>

locale measure_module =
  fixes Update :: "BlockInfoMsg \<Rightarrow> 'm \<Rightarrow> 'm panics" and fresh :: 'm and wf :: "'m \<Rightarrow> bool"
  assumes fresh_wf: "wf fresh"
    and Update_wf: "\<lbrakk>wf m; 0 \<le> Epoch b\<rbrakk> \<Longrightarrow> \<exists>m'. Update b m = Some m' \<and> wf m'"
    and Update_empty: "BlockBodyLength b = 0 \<Longrightarrow> Update b m = Some m"
begin

lemma run_wf:
  "wf m \<Longrightarrow> list_all (\<lambda>b. 0 \<le> Epoch b) bs \<Longrightarrow> \<exists>m'. run_reports Update bs m = Some m' \<and> wf m'"
  using Update_wf by (induction bs arbitrary: m) fastforce+

lemma run_skips_empty:
  "run_reports Update (filter (\<lambda>b. BlockBodyLength b \<noteq> 0) bs) m = run_reports Update bs m"
proof (induction bs arbitrary: m)
  case (Cons b bs)
  then show ?case
    by (cases "BlockBodyLength b = 0"; cases "Update b m") (simp_all add: Update_empty)
qed simp

end

text \<open>A module whose total grows by a weight that the report alone decides: the total is the sum of the
  weights, in whatever order the reports arrive.\<close>

locale counting_module = measure_module +
  fixes total :: "'m \<Rightarrow> rat" and weight :: "BlockInfoMsg \<Rightarrow> rat"
  assumes fresh_total: "total fresh = 0"
    and Update_total: "\<lbrakk>wf m; 0 \<le> Epoch b; BlockBodyLength b \<noteq> 0; Update b m = Some m'\<rbrakk> \<Longrightarrow> total m' = total m + weight b"
begin

lemma run_total:
  assumes "wf m" "list_all (\<lambda>b. 0 \<le> Epoch b) bs" "run_reports Update bs m = Some m'"
  shows "total m' = total m + (\<Sum>b\<leftarrow>bs. if BlockBodyLength b = 0 then 0 else weight b)"
  using assms
proof (induction bs arbitrary: m)
  case (Cons b bs)
  then obtain m1 where m1: "Update b m = Some m1" "wf m1"
    using Update_wf [of m b] by auto
  moreover have "total m1 = total m + (if BlockBodyLength b = 0 then 0 else weight b)"
    using m1 Cons.prems Update_empty [of b m] Update_total by auto
  ultimately show ?case
    using Cons by auto
qed simp

lemma fresh_run_total:
  assumes "list_all (\<lambda>b. 0 \<le> Epoch b) bs" "mset cs = mset bs"
  shows "\<exists>m'. run_reports Update cs fresh = Some m' \<and> wf m' \<and>
    total m' = (\<Sum>b\<leftarrow>bs. if BlockBodyLength b = 0 then 0 else weight b)"
proof -
  have cs: "list_all (\<lambda>b. 0 \<le> Epoch b) cs"
    using assms mset_eq_setD [OF assms(2)] by (simp add: list_all_iff)
  have "(\<Sum>b\<leftarrow>cs. if BlockBodyLength b = 0 then 0 else weight b) = (\<Sum>b\<leftarrow>bs. if BlockBodyLength b = 0 then 0 else weight b)"
    using assms(2) by (metis (mono_tags, lifting) mset_map sum_mset_sum_list)
  then show ?thesis
    using run_wf [OF fresh_wf cs] run_total [OF fresh_wf cs] by (auto simp: fresh_total)
qed

end

section \<open>The modules\<close>

definition count_wf :: "TestTxNumCount \<Rightarrow> bool" where
  "count_wf m \<longleftrightarrow> epochs_ok (tn_epochID m) (length (tn_txNum m))"

definition rate_relay_wf :: "TestCrossTxRate_Relay \<Rightarrow> bool" where
  "rate_relay_wf m \<longleftrightarrow> epochs_ok (cr_epochID m) (length (cr_totTxNum m)) \<and> epochs_ok (cr_epochID m) (length (cr_totCrossTxNum m))"

definition rate_broker_wf :: "TestCrossTxRate_Broker \<Rightarrow> bool" where
  "rate_broker_wf m \<longleftrightarrow> epochs_ok (cb_epochID m) (length (cb_totTxNum m)) \<and> epochs_ok (cb_epochID m) (length (cb_totCrossTxNum m))"

definition tcl_relay_wf :: "TestModule_TCL_Relay \<Rightarrow> bool" where
  "tcl_relay_wf m \<longleftrightarrow> epochs_ok (tl_epochID m) (length (tl_totTxLatencyEpoch m)) \<and> epochs_ok (tl_epochID m) (length (tl_txNum m))"

definition tcl_broker_wf :: "TestModule_TCL_Broker \<Rightarrow> bool" where
  "tcl_broker_wf m \<longleftrightarrow> epochs_ok (tb_epochID m) (length (tb_totTxLatencyEpoch m)) \<and> epochs_ok (tb_epochID m) (length (tb_txNum m))"

definition tps_relay_wf :: "TestModule_avgTPS_Relay \<Rightarrow> bool" where
  "tps_relay_wf m \<longleftrightarrow> epochs_ok (ar_epochID m) (length (ar_excutedTxNum m)) \<and>
     epochs_ok (ar_epochID m) (length (ar_startTime m)) \<and> epochs_ok (ar_epochID m) (length (ar_endTime m))"

definition tps_broker_wf :: "TestModule_avgTPS_Broker \<Rightarrow> bool" where
  "tps_broker_wf m \<longleftrightarrow> epochs_ok (ab_epochID m) (length (ab_excutedTxNum m)) \<and>
     epochs_ok (ab_epochID m) (length (ab_startTime m)) \<and> epochs_ok (ab_epochID m) (length (ab_endTime m))"

lemma in_range_opened [simp]:
  "epochs_ok e (length xs) \<Longrightarrow> 0 \<le> i \<Longrightarrow> in_range i (xs @ replicate (nat (i - e)) z)"
  by (auto simp: in_range_def epochs_ok_def)

lemma epochs_ok_opened [simp]:
  "epochs_ok e k \<Longrightarrow> 0 \<le> i \<Longrightarrow> epochs_ok (max e i) (k + nat (i - e))"
  by (auto simp: epochs_ok_def)

lemma fresh_epochs [simp]: "epochs_ok (- 1) 0" "sum_list (replicate n (0 :: rat)) = 0"
  by (simp_all add: epochs_ok_def sum_list_replicate)

lemmas opened = open_epochs_closed grow_pow

definition excuted_and_halves :: "BlockInfoMsg \<Rightarrow> rat" where
  "excuted_and_halves b = of_nat (length (ExcutedTxs b)) + broker_halves b"

interpretation count_relay: counting_module TxNumCount_Relay_Update NewTestTxNumCount_Relay count_wf
  "\<lambda>m. sum_list (tn_txNum m)" "\<lambda>b. of_nat (length (ExcutedTxs b))"
  by unfold_locales (auto simp: TxNumCount_Relay_Update_def NewTestTxNumCount_Relay_def count_wf_def opened)

interpretation count_broker: counting_module TxNumCount_Broker_Update NewTestTxNumCount_Broker count_wf
  "\<lambda>m. sum_list (tn_txNum m)" excuted_and_halves
  by unfold_locales (auto simp: TxNumCount_Broker_Update_def NewTestTxNumCount_Broker_def count_wf_def opened excuted_and_halves_def)

interpretation block_info_broker: counting_module BlockTxInfo_Broker_Update NewTestTBlockTxInfo_Broker count_wf
  "\<lambda>m. sum_list (tn_txNum m)" excuted_and_halves
  by unfold_locales (auto simp: BlockTxInfo_Broker_Update_def NewTestTBlockTxInfo_Broker_def count_wf_def opened excuted_and_halves_def)

interpretation rate_broker: counting_module CrossTxRate_Broker_Update NewTestCrossTxRate_Broker rate_broker_wf
  "\<lambda>m. sum_list (cb_totTxNum m)" excuted_and_halves
  by unfold_locales (auto simp: CrossTxRate_Broker_Update_def NewTestCrossTxRate_Broker_def rate_broker_wf_def opened excuted_and_halves_def)

interpretation rate_relay: measure_module CrossTxRate_Relay_Update NewTestCrossTxRate_Relay rate_relay_wf
  by unfold_locales (auto simp: CrossTxRate_Relay_Update_def NewTestCrossTxRate_Relay_def rate_relay_wf_def opened)

interpretation tcl_relay: measure_module TCL_Relay_Update NewTestModule_TCL_Relay tcl_relay_wf
  by unfold_locales (auto simp: TCL_Relay_Update_def NewTestModule_TCL_Relay_def tcl_relay_wf_def opened)

interpretation tcl_broker: measure_module TCL_Broker_Update NewTestModule_TCL_Broker tcl_broker_wf
  by unfold_locales (auto simp: TCL_Broker_Update_def NewTestModule_TCL_Broker_def tcl_broker_wf_def opened Let_def)

lemma tps_times_opened:
  assumes "epochs_ok e (length st)" "epochs_ok e (length en)" "0 \<le> i"
  obtains st' en' where
    "tps_times i p c (st @ replicate (nat (i - e)) 0, en @ replicate (nat (i - e)) 0) = Some (st', en')"
    "length st' = length st + nat (i - e)" "length en' = length en + nat (i - e)"
proof -
  have "\<exists>st' en'. tps_times i p c (xs, ys) = Some (st', en') \<and> length st' = length xs \<and> length en' = length ys"
    if "in_range i xs" "in_range i ys" for xs ys
    using that by (cases "IsZero (xs ! nat i) \<or> After (xs ! nat i) p"; cases "IsZero (ys ! nat i) \<or> After c (ys ! nat i)")
      (simp_all add: tps_times_def)
  from this [OF in_range_opened in_range_opened, OF assms(1,3,2,3)] show ?thesis
    using that by auto
qed

lemma avgTPS_Relay_Update_spec:
  assumes "tps_relay_wf m" "0 \<le> Epoch b" "BlockBodyLength b \<noteq> 0"
  shows "\<exists>m'. avgTPS_Relay_Update b m = Some m' \<and> tps_relay_wf m' \<and> relayTx m' = mark (relayTx m) (Relay1Txs b) \<and>
    ar_epochID m' = max (ar_epochID m) (Epoch b) \<and>
    ar_excutedTxNum m' = bump (Epoch b) (excuted_weight (mark (relayTx m) (Relay1Txs b)) (ExcutedTxs b) + of_nat (unat (Relay1TxNum b)) / 2)
      (ar_excutedTxNum m @ replicate (nat (Epoch b - ar_epochID m)) 0)"
proof -
  obtain st en where "tps_times (Epoch b) (ProposeTime b) (CommitTime b)
      (ar_startTime m @ replicate (nat (Epoch b - ar_epochID m)) 0, ar_endTime m @ replicate (nat (Epoch b - ar_epochID m)) 0) = Some (st, en)"
    "length st = length (ar_startTime m) + nat (Epoch b - ar_epochID m)" "length en = length (ar_endTime m) + nat (Epoch b - ar_epochID m)"
    using tps_times_opened assms(1,2) unfolding tps_relay_wf_def by metis
  then show ?thesis
    using assms by (auto simp: avgTPS_Relay_Update_def tps_relay_wf_def opened mark_def Let_def)
qed

lemma avgTPS_Broker_Update_spec:
  assumes "tps_broker_wf m" "0 \<le> Epoch b" "BlockBodyLength b \<noteq> 0"
  shows "\<exists>m'. avgTPS_Broker_Update b m = Some m' \<and> tps_broker_wf m' \<and>
    sum_list (ab_excutedTxNum m') = sum_list (ab_excutedTxNum m) + excuted_and_halves b"
proof -
  obtain st en where "tps_times (Epoch b) (ProposeTime b) (CommitTime b)
      (ab_startTime m @ replicate (nat (Epoch b - ab_epochID m)) 0, ab_endTime m @ replicate (nat (Epoch b - ab_epochID m)) 0) = Some (st, en)"
    "length st = length (ab_startTime m) + nat (Epoch b - ab_epochID m)" "length en = length (ab_endTime m) + nat (Epoch b - ab_epochID m)"
    using tps_times_opened assms(1,2) unfolding tps_broker_wf_def by metis
  then show ?thesis
    using assms by (auto simp: avgTPS_Broker_Update_def tps_broker_wf_def opened excuted_and_halves_def)
qed

lemma avgTPS_empty:
  "BlockBodyLength b = 0 \<Longrightarrow> avgTPS_Relay_Update b m = Some m" "BlockBodyLength b = 0 \<Longrightarrow> avgTPS_Broker_Update b n = Some n"
  by (simp_all add: avgTPS_Relay_Update_def avgTPS_Broker_Update_def)

interpretation tps_relay: measure_module avgTPS_Relay_Update NewTestModule_avgTPS_Relay tps_relay_wf
proof unfold_locales
  show "\<exists>m'. avgTPS_Relay_Update b m = Some m' \<and> tps_relay_wf m'" if "tps_relay_wf m" "0 \<le> Epoch b" for m b
    using avgTPS_Relay_Update_spec [OF that] avgTPS_empty(1) that by (cases "BlockBodyLength b = 0") auto
qed (simp_all add: avgTPS_empty NewTestModule_avgTPS_Relay_def tps_relay_wf_def)

interpretation tps_broker: counting_module avgTPS_Broker_Update NewTestModule_avgTPS_Broker tps_broker_wf
  "\<lambda>m. sum_list (ab_excutedTxNum m)" excuted_and_halves
proof unfold_locales
  show "\<exists>m'. avgTPS_Broker_Update b m = Some m' \<and> tps_broker_wf m'" if "tps_broker_wf m" "0 \<le> Epoch b" for m b
    using avgTPS_Broker_Update_spec [OF that] avgTPS_empty(2) that by (cases "BlockBodyLength b = 0") auto
next
  show "sum_list (ab_excutedTxNum m') = sum_list (ab_excutedTxNum m) + excuted_and_halves b"
    if "tps_broker_wf m" "0 \<le> Epoch b" "BlockBodyLength b \<noteq> 0" "avgTPS_Broker_Update b m = Some m'" for m m' b
    using avgTPS_Broker_Update_spec [OF that(1,2,3)] that(4) by auto
qed (simp_all add: avgTPS_empty NewTestModule_avgTPS_Broker_def tps_broker_wf_def)

section \<open>Cross-shard transactions by relay\<close>

lemma CrossTxRate_Relay_Update_spec:
  assumes "rate_relay_wf m" "0 \<le> Epoch b" "BlockBodyLength b \<noteq> 0"
  shows "\<exists>m'. CrossTxRate_Relay_Update b m = Some m' \<and> rate_relay_wf m' \<and> relayTxRecord m' = mark (relayTxRecord m) (Relay1Txs b) \<and>
    cr_epochID m' = max (cr_epochID m) (Epoch b) \<and>
    cr_totTxNum m' = bump (Epoch b) (excuted_weight (mark (relayTxRecord m) (Relay1Txs b)) (ExcutedTxs b) + of_nat (length (Relay1Txs b)) / 2)
      (cr_totTxNum m @ replicate (nat (Epoch b - cr_epochID m)) 0) \<and>
    cr_totCrossTxNum m' = bump (Epoch b) (cross_weight (mark (relayTxRecord m) (Relay1Txs b)) (ExcutedTxs b) + of_nat (length (Relay1Txs b)) / 2)
      (cr_totCrossTxNum m @ replicate (nat (Epoch b - cr_epochID m)) 0)"
  using assms by (auto simp: CrossTxRate_Relay_Update_def rate_relay_wf_def opened)

text \<open>Both relay modules keep the same counts.\<close>

definition relay_agree :: "TestModule_avgTPS_Relay \<Rightarrow> TestCrossTxRate_Relay \<Rightarrow> bool" where
  "relay_agree m r \<longleftrightarrow> tps_relay_wf m \<and> rate_relay_wf r \<and> ar_epochID m = cr_epochID r \<and> ar_excutedTxNum m = cr_totTxNum r \<and>
     relayTx m = relayTxRecord r"

lemma relay_agree_step:
  assumes "relay_agree m r" "0 \<le> Epoch b" "unat (Relay1TxNum b) = length (Relay1Txs b)"
  shows "\<exists>m' r'. avgTPS_Relay_Update b m = Some m' \<and> CrossTxRate_Relay_Update b r = Some r' \<and> relay_agree m' r'"
proof (cases "BlockBodyLength b = 0")
  case True
  then show ?thesis
    using assms by (simp add: avgTPS_empty rate_relay.Update_empty)
next
  case False
  then show ?thesis
    using avgTPS_Relay_Update_spec [of m b] CrossTxRate_Relay_Update_spec [of r b] assms
    by (auto simp: relay_agree_def)
qed

lemma relay_agree_run:
  assumes "relay_agree m r" "list_all (\<lambda>b. 0 \<le> Epoch b \<and> unat (Relay1TxNum b) = length (Relay1Txs b)) bs"
  shows "\<exists>m' r'. run_reports avgTPS_Relay_Update bs m = Some m' \<and> run_reports CrossTxRate_Relay_Update bs r = Some r' \<and> relay_agree m' r'"
  using assms
proof (induction bs arbitrary: m r)
  case (Cons b bs)
  then obtain m1 r1 where "avgTPS_Relay_Update b m = Some m1" "CrossTxRate_Relay_Update b r = Some r1" "relay_agree m1 r1"
    using relay_agree_step [of m r b] by auto
  then show ?case
    using Cons.IH [of m1 r1] Cons.prems(2) by simp
qed simp

text \<open>What the rate module has counted after a run, when every executed transaction that is ever relayed
  was relayed before.\<close>

definition relayed :: "BlockInfoMsg list \<Rightarrow> bytes set" where
  "relayed bs = (\<Union>b \<in> set bs. TxHash ` set (Relay1Txs b))"

lemma mark_Some_iff: "mark rec txs h \<noteq> None \<longleftrightarrow> h \<in> dom rec \<union> TxHash ` set txs"
  unfolding mark_def by (induction txs arbitrary: rec) auto

lemma excuted_weight_halves:
  "excuted_weight rec txs = of_nat (length txs) - of_nat (length (filter (\<lambda>tx. TxHash tx \<in> dom rec) txs)) / 2"
  by (induction txs) (auto simp: excuted_weight_def domIff field_simps)

fun relayed_first :: "bytes set \<Rightarrow> bytes set \<Rightarrow> BlockInfoMsg list \<Rightarrow> bool" where
  "relayed_first R seen [] = True"
| "relayed_first R seen (b # bs) =
     (let seen1 = seen \<union> TxHash ` set (Relay1Txs b) in
      (\<forall>tx \<in> set (ExcutedTxs b). TxHash tx \<in> R \<longrightarrow> TxHash tx \<in> seen1) \<and> relayed_first R seen1 bs)"

lemma rate_relay_run:
  assumes "rate_relay_wf m" "list_all (\<lambda>b. 0 \<le> Epoch b \<and> BlockBodyLength b \<noteq> 0) bs"
    "relayed_first R (dom (relayTxRecord m)) bs" "relayed bs \<subseteq> R" "dom (relayTxRecord m) \<subseteq> R"
  shows "\<exists>m'. run_reports CrossTxRate_Relay_Update bs m = Some m' \<and>
    sum_list (cr_totTxNum m') = sum_list (cr_totTxNum m) + of_nat (length (concat (map ExcutedTxs bs))) +
      of_nat (length (concat (map Relay1Txs bs))) / 2 -
      of_nat (length (filter (\<lambda>tx. TxHash tx \<in> R) (concat (map ExcutedTxs bs)))) / 2"
  using assms
proof (induction bs arbitrary: m)
  case (Cons b bs)
  define rec where "rec = mark (relayTxRecord m) (Relay1Txs b)"
  have dom_rec: "dom rec = dom (relayTxRecord m) \<union> TxHash ` set (Relay1Txs b)"
    using mark_Some_iff by (auto simp: rec_def dom_def)
  obtain m1 where m1: "CrossTxRate_Relay_Update b m = Some m1" "rate_relay_wf m1" "relayTxRecord m1 = rec"
    "cr_totTxNum m1 = bump (Epoch b) (excuted_weight rec (ExcutedTxs b) + of_nat (length (Relay1Txs b)) / 2)
      (cr_totTxNum m @ replicate (nat (Epoch b - cr_epochID m)) 0)"
    using CrossTxRate_Relay_Update_spec [OF Cons.prems(1), of b] Cons.prems(2) by (auto simp: rec_def)
  have "filter (\<lambda>tx. TxHash tx \<in> dom rec) (ExcutedTxs b) = filter (\<lambda>tx. TxHash tx \<in> R) (ExcutedTxs b)"
    using Cons.prems(3,4,5) by (intro filter_cong) (auto simp: dom_rec relayed_def)
  then have "sum_list (cr_totTxNum m1) = sum_list (cr_totTxNum m) + of_nat (length (ExcutedTxs b)) +
      of_nat (length (Relay1Txs b)) / 2 - of_nat (length (filter (\<lambda>tx. TxHash tx \<in> R) (ExcutedTxs b))) / 2"
    using Cons.prems(1,2) by (simp add: m1(4) rate_relay_wf_def excuted_weight_halves)
  moreover have "relayed bs \<subseteq> R" "dom rec \<subseteq> R" "relayed_first R (dom rec) bs"
    using Cons.prems(3,4,5) by (auto simp: dom_rec relayed_def Let_def)
  ultimately show ?case
    using Cons.IH [OF m1(2)] Cons.prems(2) m1(1,3) by (auto simp: add_divide_distrib)
qed simp

lemma relay_fresh: "relay_agree NewTestModule_avgTPS_Relay NewTestCrossTxRate_Relay"
  using tps_relay.fresh_wf rate_relay.fresh_wf
  by (simp add: relay_agree_def NewTestModule_avgTPS_Relay_def NewTestCrossTxRate_Relay_def)

lemma relayed_concat: "relayed bs = TxHash ` set (concat (map Relay1Txs bs))"
  by (auto simp: relayed_def)

lemma length_filter_hashes:
  assumes "distinct (map TxHash txs)" "distinct (map TxHash rs)" "TxHash ` set rs \<subseteq> TxHash ` set txs"
  shows "length (filter (\<lambda>tx. TxHash tx \<in> TxHash ` set rs) txs) = length rs"
proof -
  define hs where "hs = TxHash ` set rs"
  have "length (filter (\<lambda>tx. TxHash tx \<in> hs) txs) = length (filter (\<lambda>h. h \<in> hs) (map TxHash txs))"
    by (simp add: filter_map o_def)
  also have "\<dots> = card (TxHash ` set txs \<inter> hs)"
    using distinct_length_filter [OF assms(1)] by (simp add: Int_commute)
  also have "TxHash ` set txs \<inter> hs = set (map TxHash rs)"
    using assms(3) by (auto simp: hs_def)
  also have "card (set (map TxHash rs)) = length rs"
    using distinct_card [OF assms(2)] by simp
  finally show ?thesis
    by (simp add: hs_def)
qed

text \<open>C40: measured throughput by relay. Let the reports have proper epochs and bodies, name each executed and
  each relayed transaction once, execute every relayed one in the end, and none before the report of its
  first half. Then the throughput module and the rate module accept all reports, keep the same counts per
  epoch, and the counts add up to the number of executed transactions: the two halves of a cross-shard
  transaction count one half each.\<close>
theorem relay_counts_each_once:
  assumes reports: "list_all (\<lambda>b. 0 \<le> Epoch b \<and> BlockBodyLength b \<noteq> 0 \<and> unat (Relay1TxNum b) = length (Relay1Txs b)) bs"
    and once: "distinct (map TxHash (concat (map ExcutedTxs bs)))" "distinct (map TxHash (concat (map Relay1Txs bs)))"
    and executed: "relayed bs \<subseteq> TxHash ` set (concat (map ExcutedTxs bs))"
    and ordered: "relayed_first (relayed bs) {} bs"
  shows "\<exists>m r. run_reports avgTPS_Relay_Update bs NewTestModule_avgTPS_Relay = Some m \<and>
    run_reports CrossTxRate_Relay_Update bs NewTestCrossTxRate_Relay = Some r \<and>
    ar_excutedTxNum m = cr_totTxNum r \<and> sum_list (cr_totTxNum r) = of_nat (length (concat (map ExcutedTxs bs)))"
proof -
  have "list_all (\<lambda>b. 0 \<le> Epoch b \<and> unat (Relay1TxNum b) = length (Relay1Txs b)) bs" "list_all (\<lambda>b. 0 \<le> Epoch b \<and> BlockBodyLength b \<noteq> 0) bs"
    using reports by (auto simp: list_all_iff)
  moreover have "length (filter (\<lambda>tx. TxHash tx \<in> relayed bs) (concat (map ExcutedTxs bs))) = length (concat (map Relay1Txs bs))"
    using length_filter_hashes [OF once] executed by (simp only: relayed_concat)
  ultimately show ?thesis
    using relay_agree_run [OF relay_fresh, of bs] rate_relay_run [OF rate_relay.fresh_wf, of bs "relayed bs"] ordered
    by (auto simp: NewTestCrossTxRate_Relay_def relay_agree_def)
qed

definition sample_tx :: "byte \<Rightarrow> go_time \<Rightarrow> Transaction" where
  "sample_tx n t = zeroTransaction\<lparr> TxHash := [n], RawTxHash := [n], Time := t \<rparr>"

definition sample_report :: "int \<Rightarrow> Transaction list \<Rightarrow> Transaction list \<Rightarrow> Transaction list \<Rightarrow> Transaction list \<Rightarrow> BlockInfoMsg" where
  "sample_report epoch excuted relay1 broker1 broker2 =
     \<lparr> BlockBodyLength = 1, ExcutedTxs = excuted, Epoch = epoch, ProposeTime = 1000000000, CommitTime = 2000000000, SenderShardID = 0,
       Relay1TxNum = of_nat (length relay1), Relay1Txs = relay1, Broker1TxNum = of_nat (length broker1), Broker1Txs = broker1,
       Broker2TxNum = of_nat (length broker2), Broker2Txs = broker2, AllocatedTxs = [] \<rparr>"

definition relay_reports :: "BlockInfoMsg list" where
  "relay_reports = [sample_report 0 [sample_tx 1 5] [sample_tx 2 5] [] [], sample_report 1 [sample_tx 2 5, sample_tx 3 5] [] [] []]"

theorem relay_counts_each_once_witness:
  "\<exists>m r. run_reports avgTPS_Relay_Update relay_reports NewTestModule_avgTPS_Relay = Some m \<and>
    run_reports CrossTxRate_Relay_Update relay_reports NewTestCrossTxRate_Relay = Some r \<and>
    ar_excutedTxNum m = cr_totTxNum r \<and> sum_list (cr_totTxNum r) = 3"
  using relay_counts_each_once [of relay_reports]
  by (simp add: relay_reports_def sample_report_def sample_tx_def zeroTransaction_def relayed_def Let_def)

text \<open>The order matters: a second half that is reported before its first half makes one transaction count
  one and a half.\<close>
theorem late_first_half_counts_more:
  "map_option (\<lambda>m. sum_list (ar_excutedTxNum m))
     (run_reports avgTPS_Relay_Update [sample_report 0 [sample_tx 2 5] [] [] [], sample_report 0 [] [sample_tx 2 5] [] []] NewTestModule_avgTPS_Relay) =
   Some (3 / 2)"
  by code_simp

section \<open>Broker transactions\<close>

text \<open>measured throughput by brokers. The three counters and the throughput module that treat broker
  transactions accept all reports of proper epochs, in whatever order these arrive, and agree: their totals
  are the executed transactions plus half the first and second halves, over the reports of blocks with a
  body.\<close>
theorem broker_counts_any_order:
  assumes "list_all (\<lambda>b. 0 \<le> Epoch b) bs" "mset cs = mset bs"
  shows "\<exists>c i r t. run_reports TxNumCount_Broker_Update cs NewTestTxNumCount_Broker = Some c \<and>
    run_reports BlockTxInfo_Broker_Update cs NewTestTBlockTxInfo_Broker = Some i \<and>
    run_reports CrossTxRate_Broker_Update cs NewTestCrossTxRate_Broker = Some r \<and>
    run_reports avgTPS_Broker_Update cs NewTestModule_avgTPS_Broker = Some t \<and>
    {sum_list (tn_txNum c), sum_list (tn_txNum i), sum_list (cb_totTxNum r), sum_list (ab_excutedTxNum t)} =
      {\<Sum>b\<leftarrow>bs. if BlockBodyLength b = 0 then 0 else of_nat (length (ExcutedTxs b)) + broker_halves b}"
  using count_broker.fresh_run_total [OF assms] block_info_broker.fresh_run_total [OF assms]
    rate_broker.fresh_run_total [OF assms] tps_broker.fresh_run_total [OF assms]
  by (auto simp: excuted_and_halves_def cong: if_cong)

section \<open>Latency of broker transactions\<close>

text \<open>The latency module adds the latency of a second half to the sum but does not count it, so that the
  average it puts out may exceed every latency it has seen: here all three latencies are one second.\<close>
theorem broker_latency_not_counted:
  "(TCL_Broker_Update (sample_report 0 [sample_tx 1 1000000000] [] [sample_tx 2 0, sample_tx 3 0] [sample_tx 2 9, sample_tx 3 9]) NewTestModule_TCL_Broker
      \<bind> (\<lambda>m. OutputRecord 0 (TCL_Broker m))) = Some ([Finite 3], Finite 3)"
  by code_simp

end
