(* ===== verification/Supervisor.thy ===== *)
theory Supervisor
  imports Measure CrossShard
begin

text \<open>
  The supervisor: the stop signal (\<open>supervisor/signal\<close>), the handlers of the messages it receives and the
  JSON-RPC interface (\<open>supervisor/supervisor.go\<close>), and the balance query and the read-only endpoints of
  \<open>supervisor/server.go\<close>. The reserves of the exchange, the swap and the staking endpoints are in
  \<open>Exchange\<close> and \<open>Broker\<close>, the broker committee in \<open>Committee\<close>.

  Package variables the handlers share (the balances, codes and results received so far) are fields of the
  state. A message arrives decoded, \<open>None\<close> for content that is not valid JSON. A request that polls for a
  reply is split where it polls: \<open>rpc_begin\<close> is the part before the loop and \<open>rpc_poll\<close> one turn of the
  loop, so that other requests and messages may come in between. A panic of a request is recovered by the
  HTTP framework and keeps what was already changed; a panic in a message handler ends the process, and a
  send to a nil channel never returns: both are \<open>None\<close>. Reading a clock and 32 random bytes are arguments.
\<close>

section \<open>Stop signal\<close>

record StopSignal =
  stopGap :: int
  stopThreshold :: int

definition NewStopSignal :: "int \<Rightarrow> StopSignal" where
  "NewStopSignal stop_Threshold = \<lparr> stopGap = 0, stopThreshold = stop_Threshold \<rparr>"

definition StopGap_Inc :: "StopSignal \<Rightarrow> StopSignal" where "StopGap_Inc ss = ss\<lparr> stopGap := stopGap ss + 1 \<rparr>"
definition StopGap_Reset :: "StopSignal \<Rightarrow> StopSignal" where "StopGap_Reset ss = ss\<lparr> stopGap := 0 \<rparr>"
definition GapEnough :: "StopSignal \<Rightarrow> bool" where "GapEnough ss \<longleftrightarrow> stopGap ss \<ge> stopThreshold ss"

section \<open>Text\<close>

text \<open>Digits of a number at a base up to 16, \<open>big.Int.Text(16)\<close>, \<open>%d\<close> and \<open>%x\<close>.\<close>

function digits :: "nat \<Rightarrow> nat \<Rightarrow> string" where
  "digits base n = (if n < base \<or> base < 2 then [hex_char n] else digits base (n div base) @ [hex_char (n mod base)])"
  by pat_completeness auto
termination by (relation "measure snd") auto

declare digits.simps [simp del]

definition Text16 :: "int \<Rightarrow> string" where
  "Text16 n = (if n < 0 then ''-'' else []) @ digits 16 (nat \<bar>n\<bar>)"

text \<open>\<open>base64.StdEncoding.EncodeToString\<close>.\<close>

definition base64_char :: "nat \<Rightarrow> char" where
  "base64_char n = char_of (if n < 26 then 65 + n else if n < 52 then 71 + n else if n < 62 then n - 4 else if n = 62 then 43 else 47)"

fun base64_EncodeToString :: "bytes \<Rightarrow> string" where
  "base64_EncodeToString [] = []"
| "base64_EncodeToString [a] =
     (let n = unat a * 16 in [base64_char (n div 64), base64_char (n mod 64), CHR ''='', CHR ''=''])"
| "base64_EncodeToString [a, b] =
     (let n = (unat a * 256 + unat b) * 4 in
      [base64_char (n div 4096), base64_char (n div 64 mod 64), base64_char (n mod 64), CHR ''=''])"
| "base64_EncodeToString (a # b # c # bs) =
     (let n = (unat a * 256 + unat b) * 256 + unat c in
      [base64_char (n div 262144), base64_char (n div 4096 mod 64), base64_char (n div 64 mod 64), base64_char (n mod 64)] @
      base64_EncodeToString bs)"

section \<open>State\<close>

record accBalMap =
  isLatest :: bool
  balance :: int

record NodeInfo =
  ni_NodeId :: uint64
  ni_ShardId :: uint64
  ni_NodeIP :: string
  ni_NodePublicKey :: string
  ni_NodeAccount :: string
  ni_NodeBalance :: uint64

record AccountBalanceReply =
  br_Addr :: string
  br_Balance :: "int option"
  br_TXType :: string

record Supervisor =
  Ss :: StopSignal
  ComMod :: committee
  testMeasureMods :: "MeasureModule list"
  contractCreationMap :: "uint64 \<rightharpoonup> string"
  contractAllowMap :: "uint64 \<rightharpoonup> string set"
  accountBalanceMap :: "string \<rightharpoonup> (string \<rightharpoonup> accBalMap)"
  amm_model :: ammModel
  AccBalanceMap :: "string \<rightharpoonup> uint64"
  AccCodeMap :: "string \<rightharpoonup> bytes"
  NodeInfoMap :: "string \<rightharpoonup> NodeInfo"
  TxInfoMap :: "string \<rightharpoonup> TxInfo"
  UUIDToFromMap :: "string \<rightharpoonup> string"

text \<open>The parameters: the hash of a transaction and of a broker message, and the configuration.\<close>

record SupervisorEnv =
  se_Hash :: "Transaction \<Rightarrow> bytes"
  se_Digest :: "BrokerRawMeg \<Rightarrow> bytes"
  se_ShardNum :: nat
  se_InjectSpeed :: nat

definition new_module :: "string \<Rightarrow> MeasureModule list" where
  "new_module name =
     (if name = ''TPS_Relay'' then [TPS_Relay NewTestModule_avgTPS_Relay]
      else if name = ''TPS_Broker'' then [TPS_Broker NewTestModule_avgTPS_Broker]
      else if name = ''TCL_Relay'' then [TCL_Relay NewTestModule_TCL_Relay]
      else if name = ''TCL_Broker'' then [TCL_Broker NewTestModule_TCL_Broker]
      else if name = ''CrossTxRate_Relay'' then [CrossTxRate_Relay NewTestCrossTxRate_Relay]
      else if name = ''CrossTxRate_Broker'' then [CrossTxRate_Broker NewTestCrossTxRate_Broker]
      else if name = ''TxNumberCount_Relay'' then [TxNumberCount_Relay NewTestTxNumCount_Relay]
      else if name = ''TxNumberCount_Broker'' then [TxNumberCount_Broker NewTestTxNumCount_Broker]
      else [])"

text \<open>\<open>NewSupervisor\<close>, with the shards of the chain configuration, the committee it creates, and the package
  variables as they are before any message.\<close>

definition NewSupervisor :: "SupervisorEnv \<Rightarrow> int \<Rightarrow> committee \<Rightarrow> string list \<Rightarrow> Supervisor" where
  "NewSupervisor env pcc_ShardNums com measureModNames =
     \<lparr> Ss = NewStopSignal (2 * pcc_ShardNums), ComMod = com, testMeasureMods = concat (map new_module measureModNames),
       contractCreationMap = Map.empty,
       contractAllowMap = (\<lambda>sid. if unat sid < se_ShardNum env then Some {} else None),
       accountBalanceMap = (\<lambda>tx_type. if tx_type \<in> set Transaction_Types then Some Map.empty else None),
       amm_model = initial_amm, AccBalanceMap = Map.empty, AccCodeMap = Map.empty, NodeInfoMap = Map.empty,
       TxInfoMap = Map.empty, UUIDToFromMap = Map.empty \<rparr>"

section \<open>Messages\<close>

text \<open>A failed decoding is ignored by \<open>handleQueryContractResultRes\<close>, which goes on with what was decoded.\<close>

datatype supervisor_msg =
    SBlockInfo "BlockInfoMsg option"
  | SContractCreateSuccess "(uint64 \<times> string) option"
  | SContractExecuteSuccess "(uint64 \<times> string) option"
  | SNodeInfo "NodeInfo option"
  | STxInfo "TxInfo option"
  | SQueryContractResultRes bool string bytes
  | SResponseAccount "AccountRes option"
  | SAccountBalanceReply "AccountBalanceReply option"
  | SOther bytes

definition handleBlockInfos :: "SupervisorEnv \<Rightarrow> BlockInfoMsg option \<Rightarrow> Supervisor \<Rightarrow> (send list \<times> Supervisor) panics" where
  "handleBlockInfos env content d = do {
     bim \<leftarrow> content;
     let d1 = d\<lparr> Ss := (if BlockBodyLength bim = 0 then StopGap_Inc (Ss d) else StopGap_Reset (Ss d)) \<rparr>;
     (out, com) \<leftarrow> HandleBlockInfo (se_Hash env) (se_Digest env) (se_ShardNum env) (se_InjectSpeed env) bim (ComMod d1);
     Some (out, d1\<lparr> ComMod := com \<rparr>) }"

definition handleResponseAcc :: "AccountRes option \<Rightarrow> Supervisor \<Rightarrow> Supervisor panics" where
  "handleResponseAcc content d = do {
     msg \<leftarrow> content;
     Some (d\<lparr> AccBalanceMap := (AccBalanceMap d)(ar_Account msg \<mapsto> ar_Balance msg),
             AccCodeMap := (AccCodeMap d)(ar_Account msg \<mapsto> ar_Code msg) \<rparr>) }"

text \<open>A nil balance and a type that has no map both panic.\<close>

definition handleAccountBalReply :: "AccountBalanceReply option \<Rightarrow> Supervisor \<Rightarrow> Supervisor panics" where
  "handleAccountBalReply content d = do {
     con \<leftarrow> content;
     n \<leftarrow> br_Balance con;
     m \<leftarrow> accountBalanceMap d (br_TXType con);
     Some (d\<lparr> accountBalanceMap := (accountBalanceMap d)(br_TXType con \<mapsto> m(br_Addr con \<mapsto> \<lparr> isLatest = True, balance = n \<rparr>)) \<rparr>) }"

text \<open>Nothing ever puts a channel into \<open>QueryContractResultResMap\<close>: the send blocks.\<close>

definition handleQueryContractResultRes :: "bool \<Rightarrow> string \<Rightarrow> bytes \<Rightarrow> Supervisor \<Rightarrow> Supervisor panics" where
  "handleQueryContractResultRes Success uuid Result d = (if Success then None else Some d)"

definition node_key :: "uint64 \<Rightarrow> uint64 \<Rightarrow> string" where
  "node_key shard node = ''S'' @ digits 10 (unat shard) @ ''N'' @ digits 10 (unat node)"

definition handleNodeInfo :: "NodeInfo option \<Rightarrow> Supervisor \<Rightarrow> Supervisor panics" where
  "handleNodeInfo content d = do {
     s \<leftarrow> content;
     Some (d\<lparr> NodeInfoMap := (NodeInfoMap d)(node_key (ni_ShardId s) (ni_NodeId s) \<mapsto> s) \<rparr>) }"

definition handleTxInfo :: "TxInfo option \<Rightarrow> Supervisor \<Rightarrow> Supervisor panics" where
  "handleTxInfo content d = do {
     s \<leftarrow> content;
     Some (d\<lparr> TxInfoMap := (TxInfoMap d)(base64_EncodeToString (ti_TxHash s) \<mapsto> s, ti_UUID s \<mapsto> s) \<rparr>) }"

definition handleContractCreateSuccess :: "(uint64 \<times> string) option \<Rightarrow> Supervisor \<Rightarrow> Supervisor panics" where
  "handleContractCreateSuccess content d = do {
     (ShardId, addr) \<leftarrow> content;
     Some (d\<lparr> contractCreationMap := (contractCreationMap d)(ShardId \<mapsto> addr) \<rparr>) }"

definition handleContractExecuteSuccess :: "(uint64 \<times> string) option \<Rightarrow> Supervisor \<Rightarrow> Supervisor panics" where
  "handleContractExecuteSuccess content d = do {
     (ShardId, addr) \<leftarrow> content;
     m \<leftarrow> contractAllowMap d ShardId;
     Some (d\<lparr> contractAllowMap := (contractAllowMap d)(ShardId \<mapsto> insert addr m) \<rparr>) }"

text \<open>\<open>handleMessage\<close>: the committee's \<open>HandleOtherMessage\<close> and the modules' \<open>HandleExtraMessage\<close> are empty.\<close>

fun supervisor_handleMessage :: "SupervisorEnv \<Rightarrow> supervisor_msg \<Rightarrow> Supervisor \<Rightarrow> (send list \<times> Supervisor) panics" where
  "supervisor_handleMessage env (SBlockInfo m) d = handleBlockInfos env m d"
| "supervisor_handleMessage env (SContractCreateSuccess m) d = map_option (Pair []) (handleContractCreateSuccess m d)"
| "supervisor_handleMessage env (SContractExecuteSuccess m) d = map_option (Pair []) (handleContractExecuteSuccess m d)"
| "supervisor_handleMessage env (SNodeInfo m) d = map_option (Pair []) (handleNodeInfo m d)"
| "supervisor_handleMessage env (STxInfo m) d = map_option (Pair []) (handleTxInfo m d)"
| "supervisor_handleMessage env (SQueryContractResultRes ok uuid res) d = map_option (Pair []) (handleQueryContractResultRes ok uuid res d)"
| "supervisor_handleMessage env (SResponseAccount m) d = map_option (Pair []) (handleResponseAcc m d)"
| "supervisor_handleMessage env (SAccountBalanceReply m) d = map_option (Pair []) (handleAccountBalReply m d)"
| "supervisor_handleMessage env (SOther m) d = Some ([], d)"

section \<open>JSON-RPC requests\<close>

text \<open>Decoded JSON; an object has one entry per key. \<open>JNull\<close> is a nil interface value, which is also what a
  missing key reads as.\<close>

datatype json = JNull | JBool bool | JNumber rat | JString string | JArray "json list" | JObject "(string \<times> json) list"

record RpcRequest =
  rq_Method :: string
  rq_Params :: "json list"
  rq_Id :: json

record RpcBlockInfo =
  bi_Number :: string
  bi_Hash :: string
  bi_ParentHash :: string
  bi_Nonce :: string
  bi_Sha3Uncles :: string
  bi_LogsBloom :: string
  bi_TransactionsRoot :: string
  bi_StateRoot :: string
  bi_ReceiptsRoot :: string
  bi_Miner :: string
  bi_Difficulty :: string
  bi_TotalDifficulty :: string
  bi_ExtraData :: string
  bi_Size :: string
  bi_GasLimit :: string
  bi_GasUsed :: string
  bi_Timestamp :: string

record TransactionResult =
  tr_BlockHash :: string
  tr_BlockNumber :: string
  tr_From :: string
  tr_Gas :: string
  tr_GasPrice :: string
  tr_Hash :: string
  tr_Input :: string
  tr_Nonce :: string
  tr_To :: string
  tr_TransactionIndex :: string
  tr_Value :: string
  tr_V :: string
  tr_R :: string
  tr_S :: string

record TxRec =
  rc_TransactionHash :: string
  rc_ContractAddress :: string
  rc_GasUsed :: string
  rc_Status :: string

datatype rpc_result =
    RText string
  | RTexts "string list"
  | RBlock RpcBlockInfo
  | RReceipt TxRec
  | RTransaction TransactionResult

record RpcResponse =
  rs_Jsonrpc :: string
  rs_Id :: json
  rs_Result :: "rpc_result option"
  rs_Error :: "(int \<times> string) option"

definition answer :: "json \<Rightarrow> rpc_result \<Rightarrow> RpcResponse" where
  "answer i r = \<lparr> rs_Jsonrpc = ''2.0'', rs_Id = i, rs_Result = Some r, rs_Error = None \<rparr>"

text \<open>Index, type assertion and slicing of parameters; each of them may panic.\<close>

definition param0 :: "RpcRequest \<Rightarrow> json panics" where
  "param0 r = (case rq_Params r of [] \<Rightarrow> panic | p # ps \<Rightarrow> Some p)"

definition as_string :: "json \<Rightarrow> string panics" where
  "as_string j = (case j of JString s \<Rightarrow> Some s | _ \<Rightarrow> panic)"

definition as_object :: "json \<Rightarrow> (string \<times> json) list panics" where
  "as_object j = (case j of JObject kvs \<Rightarrow> Some kvs | _ \<Rightarrow> panic)"

definition from2 :: "string \<Rightarrow> string panics" where
  "from2 s = (if length s < 2 then panic else Some (drop 2 s))"

definition field :: "(string \<times> json) list \<Rightarrow> string \<Rightarrow> json" where
  "field obj k = (case map_of obj k of None \<Rightarrow> JNull | Some v \<Rightarrow> v)"

definition text_field :: "(string \<times> json) list \<Rightarrow> string \<Rightarrow> string panics" where
  "text_field obj k = (if field obj k = JNull then Some [] else as_string (field obj k))"

section \<open>The part before the loop\<close>

datatype rpc_wait =
    AwaitBalance string
  | AwaitCode string
  | AwaitReceipt string go_time
  | AwaitTransaction string go_time
  | AwaitCall string go_time

datatype rpc_state = Answer RpcResponse | Panicked | Wait rpc_wait

text \<open>What the requests dial: a query of an account or a transaction, to node 0 of a shard.\<close>

record QueryAccount =
  qa_FromShardID :: uint64
  qa_FromNodeID :: uint64
  qa_Account :: string

datatype sup_out =
    DialQueryAccount QueryAccount "nat \<times> nat"
  | DialAccountBalanceQuery string string "nat \<times> nat"
  | DialInject InjectTxs "nat \<times> nat"

definition account_query :: "string \<Rightarrow> QueryAccount" where
  "account_query acc = \<lparr> qa_FromShardID = DeciderShard, qa_FromNodeID = 0, qa_Account = acc \<rparr>"

definition fixed_block :: RpcBlockInfo where
  "fixed_block =
     \<lparr> bi_Number = ''0x1b4'', bi_Hash = ''0xdc0818cf78f21a8e70579cb46a43643f78291264dda342ae31049421c82d21ae'',
       bi_ParentHash = [], bi_Nonce = [], bi_Sha3Uncles = [], bi_LogsBloom = ''0x'' @ replicate 512 (CHR ''0''),
       bi_TransactionsRoot = [], bi_StateRoot = [], bi_ReceiptsRoot = [],
       bi_Miner = ''0xbb7b8287f3f0a933474a79eae42cbca977791171'', bi_Difficulty = [], bi_TotalDifficulty = [],
       bi_ExtraData = [], bi_Size = [], bi_GasLimit = [], bi_GasUsed = [], bi_Timestamp = [] \<rparr>"

definition eth_accounts :: "string list" where
  "eth_accounts =
     [''0x107d73d8a49eeb85d32cf465507dd71d507100c1'', ''0x117d73d8a49eeb85d32cf465507dd71d507100c2'',
      ''0x127d73d8a49eeb85d32cf465507dd71d507100c3'', ''0x137d73d8a49eeb85d32cf465507dd71d507100c4'',
      ''0x147d73d8a49eeb85d32cf465507dd71d507100c5'', ''0x157d73d8a49eeb85d32cf465507dd71d507100c6'',
      ''0x167d73d8a49eeb85d32cf465507dd71d507100c7'', ''0x177d73d8a49eeb85d32cf465507dd71d507100c8'',
      ''0x187d73d8a49eeb85d32cf465507dd71d507100c9'', ''0x197d73d8a49eeb85d32cf465507dd71d507100d0'']"

definition account_param :: "RpcRequest \<Rightarrow> string panics" where
  "account_param r = do { p \<leftarrow> param0 r; s \<leftarrow> as_string p; from2 s }"

definition begin_balance :: "SupervisorEnv \<Rightarrow> RpcRequest \<Rightarrow> Supervisor \<Rightarrow> sup_out list \<times> rpc_state \<times> Supervisor" where
  "begin_balance env r d =
     (case account_param r of
        None \<Rightarrow> ([], Panicked, d)
      | Some acc \<Rightarrow>
          let d1 = d\<lparr> AccBalanceMap := (AccBalanceMap d)(acc := None) \<rparr> in
          case Addr2Shard (se_ShardNum env) acc of
            None \<Rightarrow> ([], Panicked, d1)
          | Some sid \<Rightarrow> ([DialQueryAccount (account_query acc) (sid, 0)], Wait (AwaitBalance acc), d1))"

definition begin_code :: "SupervisorEnv \<Rightarrow> RpcRequest \<Rightarrow> Supervisor \<Rightarrow> sup_out list \<times> rpc_state \<times> Supervisor" where
  "begin_code env r d =
     (case account_param r of
        None \<Rightarrow> ([], Panicked, d)
      | Some acc \<Rightarrow>
          let d1 = d\<lparr> AccCodeMap := (AccCodeMap d)(acc := None) \<rparr> in
          case Addr2Shard (se_ShardNum env) acc of
            None \<Rightarrow> ([], Panicked, d1)
          | Some sid \<Rightarrow> ([DialQueryAccount (account_query acc) (sid, 0)], Wait (AwaitCode acc), d1))"

text \<open>The transaction of \<open>eth_sendTransaction\<close> and \<open>eth_call\<close>: it gets a random identifier, whose sender is
  recorded before the shard of the sender is computed.\<close>

definition inject_contract ::
  "SupervisorEnv \<Rightarrow> go_time \<Rightarrow> bytes \<Rightarrow> Address \<Rightarrow> Address \<Rightarrow> int \<Rightarrow> bytes \<Rightarrow> Supervisor
     \<Rightarrow> (sup_out \<times> string) option \<times> Supervisor" where
  "inject_contract env t randomBytes from to value inp d =
     (case NewTransactionContract (se_Hash env) t from to value 1 inp of
        None \<Rightarrow> (None, d)
      | Some tx \<Rightarrow>
          let hexString = hex_EncodeToString randomBytes;
              tx1 = tx\<lparr> GasPrice := 1, Gas := 100000000, UUID := hexString \<rparr>;
              d1 = d\<lparr> UUIDToFromMap := (UUIDToFromMap d)(hexString \<mapsto> from) \<rparr> in
          case Addr2Shard (se_ShardNum env) from of
            None \<Rightarrow> (None, d1)
          | Some sid \<Rightarrow> (Some (DialInject \<lparr> Txs = [tx1], ToShardID = sid \<rparr> (sid, 0), hexString), d1))"

text \<open>The sender, recipient and input of a transaction object.\<close>

definition call_fields :: "RpcRequest \<Rightarrow> ((string \<times> json) list \<times> string \<times> string) panics" where
  "call_fields r = do {
     p \<leftarrow> param0 r;
     obj \<leftarrow> as_object p;
     fs \<leftarrow> as_string (field obj ''from'');
     from \<leftarrow> from2 fs;
     to \<leftarrow> (if field obj ''to'' = JNull then Some [] else as_string (field obj ''to'') \<bind> from2);
     Some (obj, from, to) }"

definition input_field :: "(string \<times> json) list \<Rightarrow> string panics" where
  "input_field obj = (if field obj ''data'' \<noteq> JNull then as_string (field obj ''data'') else text_field obj ''input'')"

definition send_fields :: "RpcRequest \<Rightarrow> (string \<times> string \<times> int \<times> bytes) panics" where
  "send_fields r = do {
     (obj, from, to) \<leftarrow> call_fields r;
     value \<leftarrow> text_field obj ''value'';
     input \<leftarrow> input_field obj;
     s \<leftarrow> from2 value;
     let s1 = (if length s mod 2 \<noteq> 0 then CHR ''0'' # s else s);
     inp \<leftarrow> from2 input;
     Some (from, to, int (be_nat (hex_DecodeString s1)), hex_DecodeString inp) }"

definition begin_send :: "SupervisorEnv \<Rightarrow> go_time \<Rightarrow> bytes \<Rightarrow> RpcRequest \<Rightarrow> Supervisor \<Rightarrow> sup_out list \<times> rpc_state \<times> Supervisor" where
  "begin_send env t randomBytes r d =
     (case send_fields r of
        None \<Rightarrow> ([], Panicked, d)
      | Some (from, to, value, inp) \<Rightarrow>
          (case inject_contract env t randomBytes from to value inp d of
             (None, d1) \<Rightarrow> ([], Panicked, d1)
           | (Some (out, hexString), d1) \<Rightarrow> ([out], Answer (answer (rq_Id r) (RText (''0x'' @ hexString))), d1)))"

definition begin_call :: "SupervisorEnv \<Rightarrow> go_time \<Rightarrow> bytes \<Rightarrow> RpcRequest \<Rightarrow> Supervisor \<Rightarrow> sup_out list \<times> rpc_state \<times> Supervisor" where
  "begin_call env t randomBytes r d =
     (case do { (obj, from, to) \<leftarrow> call_fields r; input \<leftarrow> input_field obj; inp \<leftarrow> from2 input; Some (from, to, hex_DecodeString inp) } of
        None \<Rightarrow> ([], Panicked, d)
      | Some (from, to, inp) \<Rightarrow>
          (case inject_contract env t randomBytes from to 0 inp d of
             (None, d1) \<Rightarrow> ([], Panicked, d1)
           | (Some (out, hexString), d1) \<Rightarrow> ([out], Wait (AwaitCall hexString t), d1)))"

definition begin_await :: "(string \<Rightarrow> rpc_wait) \<Rightarrow> RpcRequest \<Rightarrow> Supervisor \<Rightarrow> sup_out list \<times> rpc_state \<times> Supervisor" where
  "begin_await w r d = (case account_param r of None \<Rightarrow> ([], Panicked, d) | Some uuid \<Rightarrow> ([], Wait (w uuid), d))"

text \<open>\<open>handleRpcRequest\<close> up to the first turn of its loop. \<open>blockNumber\<close> is never changed from 0.\<close>

definition rpc_begin :: "SupervisorEnv \<Rightarrow> go_time \<Rightarrow> bytes \<Rightarrow> RpcRequest \<Rightarrow> Supervisor \<Rightarrow> sup_out list \<times> rpc_state \<times> Supervisor" where
  "rpc_begin env t randomBytes r d =
     (let reply = (\<lambda>x. ([], Answer (answer (rq_Id r) x), d)); m = rq_Method r in
      if m = ''eth_getBlockByNumber'' then reply (RBlock fixed_block)
      else if m = ''eth_chainId'' then reply (RText ''0x1'')
      else if m = ''net_version'' then reply (RText ''1'')
      else if m = ''eth_accounts'' then reply (RTexts eth_accounts)
      else if m = ''eth_getBalance'' then begin_balance env r d
      else if m = ''eth_estimateGas'' then reply (RText ''0x1'')
      else if m = ''eth_blockNumber'' then reply (RText (''0x'' @ digits 16 0))
      else if m = ''eth_sendTransaction'' then begin_send env t randomBytes r d
      else if m = ''eth_getTransactionReceipt'' then begin_await (\<lambda>uuid. AwaitReceipt uuid t) r d
      else if m = ''eth_getTransactionByHash'' then begin_await (\<lambda>uuid. AwaitTransaction uuid t) r d
      else if m = ''eth_call'' then begin_call env t randomBytes r d
      else if m = ''eth_getCode'' then begin_code env r d
      else ([], Answer \<lparr> rs_Jsonrpc = ''2.0'', rs_Id = rq_Id r, rs_Result = None, rs_Error = Some (- 32601, ''Method not found'') \<rparr>, d))"

section \<open>One turn of the loop\<close>

definition balance_text :: "uint64 \<Rightarrow> string" where
  "balance_text b = ''0x'' @ Text16 (sint b * 1000000000000000000)"

text \<open>The answers when a result was found, or none was within the time: then \<open>tx\<close> is the zero value, whose
  \<open>Value\<close> is a nil pointer.\<close>

definition receipt :: "string \<Rightarrow> TxInfo option \<Rightarrow> TxRec" where
  "receipt uuid tx =
     \<lparr> rc_TransactionHash = ''0x'' @ uuid,
       rc_ContractAddress = ''0x'' @ (case tx of None \<Rightarrow> [] | Some x \<Rightarrow> hex_EncodeToString (ti_Res x)),
       rc_GasUsed = ''0x1'',
       rc_Status = (case tx of None \<Rightarrow> ''0x0'' | Some x \<Rightarrow> if ti_IsSuccess x then ''0x1'' else ''0x0'') \<rparr>"

definition transaction_result :: "string \<Rightarrow> TxInfo option \<Rightarrow> TransactionResult" where
  "transaction_result uuid tx =
     (let get = (\<lambda>f z. case tx of None \<Rightarrow> z | Some x \<Rightarrow> f x); to = (case tx of None \<Rightarrow> 0 | Some x \<Rightarrow> ti_To x) in
      \<lparr> tr_BlockHash = ''0x1d59ff54b1eb26b013ce3cb5fc9dab3705b415a67127a003c3e61eb445bb8df2'',
        tr_BlockNumber = ''0x'' @ digits 16 0,
        tr_From = ''0x'' @ hex_EncodeToString (address_bytes (case tx of None \<Rightarrow> 0 | Some x \<Rightarrow> ti_From x)),
        tr_Gas = ''0x'' @ digits 16 (get (\<lambda>x. unat (ti_GasLimit x)) 0),
        tr_GasPrice = ''0x'' @ digits 16 (get (\<lambda>x. unat (ti_GasPrice x)) 0),
        tr_Hash = ''0x'' @ uuid,
        tr_Input = ''0x'' @ (case tx of None \<Rightarrow> [] | Some x \<Rightarrow> hex_EncodeToString (ti_Input x)),
        tr_Nonce = ''0x15'', tr_To = (if to = 0 then [] else ''0x'' @ hex_EncodeToString (address_bytes to)),
        tr_TransactionIndex = ''0x41'',
        tr_Value = ''0x'' @ (case tx of None \<Rightarrow> ''<nil>'' | Some x \<Rightarrow> Text16 (ti_Value x)),
        tr_V = ''0x25'', tr_R = ''0x1b5e176d927f8e9ab405058b2d2457392da3e20f328b16ddabcebc33eaac5fea'',
        tr_S = ''0x4ba69724e8f69de52f0125ad8b3c5c2cef33019bac3249e2c0a2192766d1721c'' \<rparr>)"

text \<open>\<open>for time.Since(now).Seconds() < limit\<close>: look the identifier up, or give up.\<close>

definition poll_tx ::
  "rat \<Rightarrow> go_time \<Rightarrow> go_time \<Rightarrow> rpc_wait \<Rightarrow> json \<Rightarrow> string \<Rightarrow> (TxInfo option \<Rightarrow> rpc_result) \<Rightarrow> Supervisor \<Rightarrow> rpc_state" where
  "poll_tx limit t start w i uuid show_result d =
     (if Seconds (go_Sub t start) < limit
      then (case TxInfoMap d uuid of Some tx \<Rightarrow> Answer (answer i (show_result (Some tx))) | None \<Rightarrow> Wait w)
      else Answer (answer i (show_result None)))"

fun rpc_poll :: "go_time \<Rightarrow> json \<Rightarrow> rpc_wait \<Rightarrow> Supervisor \<Rightarrow> rpc_state \<times> Supervisor" where
  "rpc_poll t i (AwaitBalance acc) d =
     (case AccBalanceMap d acc of
        Some b \<Rightarrow> (Answer (answer i (RText (balance_text b))), d\<lparr> AccBalanceMap := (AccBalanceMap d)(acc := None) \<rparr>)
      | None \<Rightarrow> (Wait (AwaitBalance acc), d))"
| "rpc_poll t i (AwaitCode acc) d =
     (case AccCodeMap d acc of
        Some c \<Rightarrow> (Answer (answer i (RText (''0x'' @ hex_EncodeToString c))), d\<lparr> AccCodeMap := (AccCodeMap d)(acc := None) \<rparr>)
      | None \<Rightarrow> (Wait (AwaitCode acc), d))"
| "rpc_poll t i (AwaitReceipt uuid start) d =
     (poll_tx 10 t start (AwaitReceipt uuid start) i uuid (\<lambda>tx. RReceipt (receipt uuid tx)) d, d)"
| "rpc_poll t i (AwaitTransaction uuid start) d =
     (poll_tx 10 t start (AwaitTransaction uuid start) i uuid (\<lambda>tx. RTransaction (transaction_result uuid tx)) d, d)"
| "rpc_poll t i (AwaitCall uuid start) d =
     (poll_tx 30 t start (AwaitCall uuid start) i uuid
        (\<lambda>tx. RText (''0x'' @ (case tx of None \<Rightarrow> [] | Some x \<Rightarrow> hex_EncodeToString (ti_Res x)))) d, d)"

text \<open>The answers of a batch: requests without an identifier are notifications and get none.\<close>

definition batch_responses :: "(RpcRequest \<times> RpcResponse) list \<Rightarrow> RpcResponse list" where
  "batch_responses rs = map snd (filter (\<lambda>(req, resp). rq_Id req \<noteq> JNull) rs)"

section \<open>Balance queries and read-only endpoints\<close>

text \<open>\<open>queryForAccBalance\<close>: the query, and one turn of the loop that waits for a reply marked as latest.\<close>

definition query_begin :: "SupervisorEnv \<Rightarrow> string \<Rightarrow> string \<Rightarrow> sup_out list panics" where
  "query_begin env addr tx_type = do {
     sid \<leftarrow> Addr2Shard (se_ShardNum env) addr;
     Some [DialAccountBalanceQuery addr tx_type (sid, 0)] }"

definition query_poll :: "string \<Rightarrow> string \<Rightarrow> Supervisor \<Rightarrow> int option \<times> Supervisor" where
  "query_poll addr tx_type d =
     (case accountBalanceMap d tx_type of
        None \<Rightarrow> (None, d)
      | Some m \<Rightarrow> (case m addr of
          None \<Rightarrow> (None, d)
        | Some info \<Rightarrow>
            if isLatest info
            then (Some (balance info), d\<lparr> accountBalanceMap := (accountBalanceMap d)(tx_type \<mapsto> m(addr \<mapsto> info\<lparr> isLatest := False \<rparr>)) \<rparr>)
            else (None, d)))"

text \<open>The checks of \<open>/query-g\<close>.\<close>

definition query_g_checks :: "string \<Rightarrow> string \<Rightarrow> http_reply option" where
  "query_g_checks addr tx_type =
     (if addr = [] then Some (BadRequest ''Address is required'')
      else if tx_type = [] then Some (BadRequest ''Type is required'')
      else if tx_type \<notin> set Transaction_Types then Some (BadRequest ''Invalid Tx Type'')
      else None)"

definition queryisbroker :: "string \<Rightarrow> Supervisor \<Rightarrow> http_reply + bool" where
  "queryisbroker addr d =
     (if addr = [] then Inl (BadRequest ''Address is required'') else Inr (IsBroker (CBroker (ComMod d)) addr))"

text \<open>The profit, lock and balance of a broker per shard; a missing cell prints as nil.\<close>

definition querybrokerprofit :: "string \<Rightarrow> string \<Rightarrow> Supervisor \<Rightarrow> http_reply + (nat \<rightharpoonup> rat option \<times> int option \<times> int)" where
  "querybrokerprofit addr tx_type d =
     (if tx_type \<notin> set Transaction_Types then Inl (BadRequest ''Invalid Tx Type'')
      else if addr = [] then Inl (BadRequest ''Address is required'')
      else let b = CBroker (ComMod d) in
        Inr (\<lambda>k. case cell (BrokerBalance b tx_type) addr k of
                   None \<Rightarrow> None
                 | Some v \<Rightarrow> Some (cell (ProfitBalance b tx_type) addr k, cell (LockBalance b tx_type) addr k, v)))"

text \<open>\<open>CloseSupervisor\<close>: the records written, one line per module.\<close>

fun close_records :: "(nat \<Rightarrow> go_time) \<Rightarrow> nat \<Rightarrow> MeasureModule list \<Rightarrow> (string \<times> float64 list) list panics" where
  "close_records clock k [] = Some []"
| "close_records clock k (m # ms) = do {
     (resultPerEpoch, totResult) \<leftarrow> OutputRecord (clock k) m;
     rest \<leftarrow> close_records clock (Suc k) ms;
     Some ((OutputMetricName m, resultPerEpoch @ [totResult]) # rest) }"

end
