(* ===== verification/Spec2Isabelle.thy ===== *)
theory Spec2Isabelle
  imports Message Exchange Dealing Consensus StateTrie VmRuns Clpa SupervisorRuns
begin

text \<open>
  A sharded blockchain emulator with a decentralized exchange: verification development.

  \<^bold>\<open>The program.\<close> Accounts are placed on shards. The nodes of a shard agree on blocks by PBFT
  (\<open>consensus_shard/pbft_all\<close>), keep them in a bolt database (\<open>storage\<close>) and execute them (\<open>chain\<close>): plain
  transactions move token balances, contract transactions run on an Ethereum virtual machine (\<open>vm\<close>) whose
  calls may reach accounts of other shards by request and answer messages. A supervisor process
  (\<open>supervisor\<close>) runs the exchange and the broker committee: a transaction between shards is split in two
  halves through a broker account, and the Broker2Earn algorithm assigns brokers to batches of them. Clients
  talk to the supervisor over HTTP (\<open>supervisor/server.go\<close>) and all processes exchange framed JSON messages
  (\<open>message\<close>).

  \<^bold>\<open>Conventions.\<close> A panic of the source, an index out of range and a nil dereference are the value \<open>None\<close> of an
  option (\<open>'a panics\<close>); in the definitions made by \<open>partial_function\<close> a computation that does not end is
  \<open>None\<close> too. Returned errors are sums or options. Fixed-width integers are words; \<open>big.Int\<close> is \<open>int\<close>;
  floating-point numbers are rationals, with the readings of the theories that use them. State is passed
  explicitly, process-wide variables are records. Messages sent are lists of pairs of address and payload. The
  order of a range over a Go map, random numbers, identifiers and clocks, JSON, gob and RLP codecs, hash
  functions, the databases and the \<open>uint256\<close> operations beyond word arithmetic are parameters; what a theorem
  needs of them is a hypothesis of it, and its witness gives an instance. A lock held over a handler is the
  atomicity of its definition.

  \<^bold>\<open>Shared.\<close> \<open>Prelude\<close>: types, the lemmas on bytes and words, and the locales \<open>conserving_step\<close> and
  \<open>invariant_step\<close> for operations that conserve a quantity or keep an invariant.

  \<^bold>\<open>Data and messages.\<close> \<open>Utils\<close> (\<open>utils\<close>: addresses and their shards), \<open>Message\<close> (\<open>message/message.go\<close>: framing, round
  trip for every declared type), \<open>Core\<close> (\<open>core\<close>: transactions, accounts, blocks), \<open>TxPool\<close> (\<open>core/txpool.go\<close>: the pool,
  which conserves transactions and is first in, first out; \<open>pool\<close> interprets \<open>conserving_step\<close>).

  \<^bold>\<open>Exchange and brokers.\<close> \<open>Exchange\<close> (\<open>supervisor/server.go\<close>, \<open>client\<close>: reserves, quotes, swaps and transfers; the
  reserves stay positive and their product never falls over any sequence of requests, a swap settles its
  quote, round trips gain nothing, every error path; the places where the code pays another amount than it
  quotes). \<open>Broker\<close> (\<open>broker/broker.go\<close> and the staking endpoints). \<open>Liquidity\<close>, \<open>Committee\<close>, \<open>Dealing\<close>
  (\<open>supervisor/committee/committee_broker_b2e.go\<close>: a batch never overdraws a broker, settlement conserves, the
  two halves of a cross-shard transaction, the handling of a whole batch). \<open>B2E\<close> (\<open>supervisor/Broker2Earn\<close>:
  relaxation, rounding and iteration; the result respects the capacities and the loop ends).

  \<^bold>\<open>Supervisor.\<close> \<open>Measure\<close> (\<open>supervisor/measure\<close>: the locales \<open>measure_module\<close> and \<open>counting_module\<close>, interpreted for the
  modules; cross-shard transactions count once when their halves are reported in order, broker counts do not
  depend on the order). \<open>Supervisor\<close> (\<open>supervisor/supervisor.go\<close>, \<open>supervisor/signal\<close> and the queries of
  \<open>supervisor/server.go\<close>: message handlers and JSON-RPC, a request that polls being a first part and turns of its
  loop). \<open>SupervisorRuns\<close>: interleavings of messages and requests as a step relation; balance answers are fresh,
  replies can be lost, the text of a balance reads back, results are answered within their time, the stop
  signal, and measurements that see no report. \<open>Numbers\<close>: \<open>float64\<close> and slices by index.

  \<^bold>\<open>Consensus.\<close> \<open>BlockStore\<close> (\<open>storage/storage.go\<close>), \<open>Chain\<close> (\<open>chain/blockchain.go\<close>: execution of transactions and blocks,
  conservation of tokens), \<open>Pbft\<close> (\<open>messageHandle.go\<close>, \<open>toolFuncs.go\<close>, \<open>pbftInside_module.go\<close> and the rest: one definition
  for each handler), \<open>Consensus\<close> (the locale \<open>quorum_log\<close>: no node executes two blocks for one sequence number,
  a round of correct nodes commits, catching up). \<open>CrossShard\<close> and \<open>Remote\<close> (the handlers of \<open>pbft.go\<close> for calls,
  creations and queries from other shards: a failed remote call leaves no trace).

  \<^bold>\<open>Account state.\<close> \<open>Journal\<close>, \<open>AccessList\<close>, \<open>StateDB\<close> (\<open>vm/state/journal.go\<close>, \<open>access_list.go\<close>, \<open>transient_storage.go\<close>,
  \<open>statedb.go\<close>, \<open>state_object.go\<close>), \<open>Undo\<close> (the locale \<open>undo_log\<close>), \<open>Snapshots\<close> (its interpretation: any nesting of call
  frames rolls back), \<open>Finalisation\<close> (the end of a transaction).

  \<^bold>\<open>Tries.\<close> \<open>HexKeys\<close> (\<open>vm/trie/encoding.go\<close>), \<open>TrieNode\<close> (\<open>node.go\<close>, \<open>node-enc.go\<close>, \<open>tracer.go\<close>, \<open>trie_reader.go\<close>, \<open>trienode/node.go\<close>),
  \<open>Mpt\<close> (\<open>trie.go\<close>: lookup, insertion, deletion), \<open>MptMap\<close> (the locale \<open>kv_store\<close>, interpreted for the trie: it is a
  map, and its shape is determined by its contents), \<open>Hasher\<close> (\<open>hasher.go\<close>, \<open>commiter.go\<close>: the root hash does not
  depend on the history), \<open>StateTrie\<close> (\<open>secure_trie.go\<close>, \<open>reader.go\<close> and \<open>IntermediateRoot\<close>: the root holds exactly
  the pending mutations).

  \<^bold>\<open>Virtual machine.\<close> \<open>Evm\<close>, \<open>Frames\<close> (\<open>vm/evm.go\<close>, \<open>vm/state_transition.go\<close>: calls, creations and contract transactions; a
  failed call restores the state). \<open>JumpAnalysis\<close> (\<open>analysis.go\<close>: the bit vector is exact), \<open>Machine\<close> (\<open>stack.go\<close>, \<open>memory.go\<close>,
  \<open>common.go\<close>, \<open>memory_table.go\<close>), \<open>Gas\<close> (\<open>gas.go\<close>, \<open>gas_table.go\<close>, \<open>operations_acl.go\<close>), \<open>Instructions\<close> (\<open>instructions.go\<close>, \<open>eips.go\<close>,
  \<open>contract.go\<close>), \<open>JumpTable\<close> (\<open>jump_table.go\<close>, \<open>stack_table.go\<close>), \<open>Interpreter\<close> (\<open>interpreter.go\<close>). The calls that an
  instruction starts are a record of functions, \<open>evm_calls\<close> fills it with those of \<open>Evm\<close>; the interpreter
  that \<open>Evm\<close> calls is in turn a parameter of it, since a frame of the one runs inside a frame of the other.
  \<open>Contexts\<close> (\<open>NewEVM\<close> and the contexts of \<open>chain/blockchain.go\<close>). \<open>VmSafety\<close>: every operation of the Cancun table is
  safe in a well-formed frame, and its gas function returns. \<open>StraightLine\<close>: every operation but the jumps moves
  forward. \<open>VmRuns\<close>: progress and preservation of a turn, the bounds of a run, runs that end and runs that do not,
  the opcodes that panic with the contexts of the program, the gas of calls and creations.

  \<^bold>\<open>Placement of accounts.\<close> \<open>Partition\<close> (\<open>partition\<close>: graphs and constrained label propagation, which no other package imports) and
  \<open>Clpa\<close>: the update of the counts for one moved account agrees with a full count, the algorithm returns, keeps the
  counts right and empties no shard.

  \<^bold>\<open>Bounds and fuel.\<close> The jump analysis has one turn for each byte of the code and one more, and needs no more.
  \<open>poll_result\<close> takes the sequence of database states it sees. The waiting loops of \<open>Evm\<close> are the contents of
  the answer tables when they end. Loops without a bound (tries that load nodes, the interpreter) are
  \<open>partial_function (option)\<close>, with theorems that they return where they do.

  \<^bold>\<open>Not modelled.\<close> TCP, process start and logging; the gas pool, which is only filled;
  precompiled contracts (third-party cryptography); the trie databases, iterators, proofs, stack tries and
  Verkle trees; prefetching and the flush of a state to disk; tracers and witnesses, which are nil.
\<close>

end
